(* ===== verification/Wf_Prelude.thy ===== *)
theory Wf_Prelude
  imports Main "HOL-Library.AList" "HOL-Library.List_Lexorder" "HOL-Library.Char_ord"
begin

text \<open>
  Shared vocabulary of the workflow-engine development: the type synonyms of the model, the
  JavaScript idioms the sources use everywhere (nullish coalescing, \<^verbatim>\<open>Array.find\<close>,
  \<^verbatim>\<open>Array.join\<close>, decimal rendering of numbers, \<^verbatim>\<open>startsWith\<close>), the relational idioms of
  the persistence layer (select, update, delete under a row predicate), and the lemma collections
  that the component theories extend.
\<close>

named_theorems table_simps \<open>rewrite rules for the relational operations on tables\<close>
named_theorems engine_ops \<open>definitions of the engine's constants\<close>

type_synonym ident = string
type_synonym instant = int  \<comment> \<open>milliseconds since the epoch, a JavaScript time value\<close>

section \<open>JavaScript idioms\<close>

text \<open>\<open>x ?? d\<close>: the value, or the default where it is null or undefined.\<close>

definition nullish :: "'a option \<Rightarrow> 'a \<Rightarrow> 'a" where
  "nullish x d = (case x of None \<Rightarrow> d | Some v \<Rightarrow> v)"

lemma nullish_simps [simp]:
  "nullish None d = d"
  "nullish (Some v) d = v"
  by (simp_all add: nullish_def)

text \<open>\<open>Boolean(s)\<close> of a nullable string: neither null nor empty.\<close>

definition truthy :: "string option \<Rightarrow> bool" where
  "truthy s \<longleftrightarrow> (case s of None \<Rightarrow> False | Some x \<Rightarrow> x \<noteq> [])"

lemma truthy_simps [simp]:
  "truthy None \<longleftrightarrow> False"
  "truthy (Some x) \<longleftrightarrow> x \<noteq> []"
  by (simp_all add: truthy_def)

text \<open>\<open>xs?.includes(x)\<close> of an optional array.\<close>

definition arr_includes :: "'a list option \<Rightarrow> 'a \<Rightarrow> bool" where
  "arr_includes xs x \<longleftrightarrow> (case xs of None \<Rightarrow> False | Some ys \<Rightarrow> x \<in> set ys)"

text \<open>\<open>xs.join(sep)\<close>.\<close>

fun js_join :: "string \<Rightarrow> string list \<Rightarrow> string" where
  "js_join sep [] = ''''"
| "js_join sep [x] = x"
| "js_join sep (x # y # ys) = x @ sep @ js_join sep (y # ys)"

text \<open>Decimal rendering of a non-negative integer, as a template literal does it.\<close>

fun show_nat :: "nat \<Rightarrow> string" where
  "show_nat n = (if n < 10 then [char_of (48 + n)]
                 else show_nat (n div 10) @ [char_of (48 + n mod 10)])"

declare show_nat.simps [simp del]

definition show_int :: "int \<Rightarrow> string" where
  "show_int i = (if i < 0 then CHR ''-'' # show_nat (nat (- i)) else show_nat (nat i))"

text \<open>
  \<open>new Date(ms).toISOString()\<close> (years 0 to 9999 and the six-digit extended years): the civil
  date of a day number counted from 1970-01-01, and the time of day.
\<close>

definition civil_of_days :: "int \<Rightarrow> int \<times> int \<times> int" where
  "civil_of_days z =
     (let z' = z + 719468;
          era = z' div 146097;
          doe = z' mod 146097;
          yoe = (doe - doe div 1460 + doe div 36524 - doe div 146096) div 365;
          doy = doe - (365 * yoe + yoe div 4 - yoe div 100);
          mp = (5 * doy + 2) div 153;
          d = doy - (153 * mp + 2) div 5 + 1;
          m = (if mp < 10 then mp + 3 else mp - 9);
          y = yoe + era * 400 + (if m \<le> 2 then 1 else 0)
      in (y, m, d))"

definition pad_left :: "nat \<Rightarrow> char \<Rightarrow> string \<Rightarrow> string" where
  "pad_left n c s = replicate (n - length s) c @ s"

definition pad_int :: "nat \<Rightarrow> int \<Rightarrow> string" where
  "pad_int n i = pad_left n (CHR ''0'') (show_nat (nat i))"

definition toISOString :: "instant \<Rightarrow> string" where
  "toISOString ms =
     (let days = ms div 86400000; t = ms mod 86400000; (y, m, d) = civil_of_days days;
          ys = (if 0 \<le> y \<and> y \<le> 9999 then pad_int 4 y
                else if 0 \<le> y then CHR ''+'' # pad_int 6 y else CHR ''-'' # pad_int 6 (- y))
      in ys @ ''-'' @ pad_int 2 m @ ''-'' @ pad_int 2 d @ ''T'' @ pad_int 2 (t div 3600000)
         @ '':'' @ pad_int 2 (t div 60000 mod 60) @ '':'' @ pad_int 2 (t div 1000 mod 60)
         @ ''.'' @ pad_int 3 (t mod 1000) @ ''Z'')"

text \<open>A JavaScript set lists its members in the order of their first insertion.\<close>

definition first_occurrences :: "'a list \<Rightarrow> 'a list" where
  "first_occurrences xs = rev (remdups (rev xs))"

lemma set_first_occurrences [simp]: "set (first_occurrences xs) = set xs"
  by (simp add: first_occurrences_def)

lemma distinct_first_occurrences [simp]: "distinct (first_occurrences xs)"
  by (simp add: first_occurrences_def)

text \<open>\<open>s.startsWith(p)\<close>.\<close>

fun starts_with :: "string \<Rightarrow> string \<Rightarrow> bool" where
  "starts_with s [] \<longleftrightarrow> True"
| "starts_with [] (c # cs) \<longleftrightarrow> False"
| "starts_with (x # xs) (c # cs) \<longleftrightarrow> x = c \<and> starts_with xs cs"

lemma starts_with_iff: "starts_with s p \<longleftrightarrow> (\<exists>r. s = p @ r)"
  by (induction s p rule: starts_with.induct) auto

section \<open>Decimal rendering is injective and free of separators\<close>

lemma show_nat_nonempty [simp]: "show_nat n \<noteq> []" "[] \<noteq> show_nat n"
  by (subst show_nat.simps, simp)+

lemma char_of_digit_inj:
  assumes "a < 10" and "b < 10" and "(char_of (48 + a) :: char) = char_of (48 + b)"
  shows "a = (b :: nat)"
proof -
  have "of_char (char_of (48 + a) :: char) = (48 + a :: nat)"
    and "of_char (char_of (48 + b) :: char) = (48 + b :: nat)"
    using assms(1,2) by simp_all
  then show ?thesis using assms(3) by simp
qed

lemma show_nat_inj: "show_nat m = show_nat n \<Longrightarrow> m = n"
proof (induction m arbitrary: n rule: show_nat.induct)
  case (1 m)
  have m: "show_nat m = (if m < 10 then [char_of (48 + m)]
                 else show_nat (m div 10) @ [char_of (48 + m mod 10)])"
    and n: "show_nat n = (if n < 10 then [char_of (48 + n)]
                 else show_nat (n div 10) @ [char_of (48 + n mod 10)])"
    by (subst show_nat.simps, simp)+
  show ?case
  proof (cases "m < 10")
    case True
    with "1.prems" m n have "n < 10" by (auto split: if_splits)
    with True "1.prems" m n show ?thesis by (auto dest: char_of_digit_inj)
  next
    case False
    with "1.prems" m n have n10: "\<not> n < 10" by (auto split: if_splits)
    with False "1.prems" m n have "show_nat (m div 10) = show_nat (n div 10)"
      and last: "(char_of (48 + m mod 10) :: char) = char_of (48 + n mod 10)" by auto
    then have "m div 10 = n div 10" using "1.IH" [OF False] by simp
    moreover from last have "m mod 10 = n mod 10" by (rule char_of_digit_inj [rotated 2]) simp_all
    ultimately show ?thesis by (metis div_mult_mod_eq)
  qed
qed

lemma show_nat_eq_iff [simp]: "show_nat m = show_nat n \<longleftrightarrow> m = n"
  by (auto dest: show_nat_inj)

lemma char_of_digit_not_colon: "d < 10 \<Longrightarrow> (char_of (48 + d :: nat) :: char) \<noteq> CHR '':''"
proof
  assume "d < 10" and "(char_of (48 + d) :: char) = CHR '':''"
  then have "of_char (char_of (48 + d) :: char) = (of_char (CHR '':'') :: nat)" by simp
  with \<open>d < 10\<close> show False by simp
qed

lemma show_nat_no_colon: "CHR '':'' \<notin> set (show_nat n)"
proof (induction n rule: show_nat.induct)
  case (1 n)
  have "(char_of (48 + n mod 10) :: char) \<noteq> CHR '':''"
    by (rule char_of_digit_not_colon) simp
  with 1 show ?case
    by (subst show_nat.simps) (auto dest: char_of_digit_not_colon)
qed

section \<open>Tables: select, update and delete under a row predicate\<close>

text \<open>
  A table is a list of rows. \<open>update_where P f\<close> is \<open>UPDATE \<dots> SET f WHERE P\<close>; the rows a
  \<open>RETURNING\<close> clause gives back are \<open>filter P\<close> of the table before the update.
\<close>

definition update_where :: "('r \<Rightarrow> bool) \<Rightarrow> ('r \<Rightarrow> 'r) \<Rightarrow> 'r list \<Rightarrow> 'r list" where
  "update_where P f rs = map (\<lambda>r. if P r then f r else r) rs"

definition delete_where :: "('r \<Rightarrow> bool) \<Rightarrow> 'r list \<Rightarrow> 'r list" where
  "delete_where P rs = filter (\<lambda>r. \<not> P r) rs"

lemma update_where_Nil [simp]: "update_where P f [] = []"
  by (simp add: update_where_def)

lemma update_where_Cons [simp]:
  "update_where P f (r # rs) = (if P r then f r else r) # update_where P f rs"
  by (simp add: update_where_def)

lemma length_update_where [simp]: "length (update_where P f rs) = length rs"
  by (simp add: update_where_def)

lemma set_update_where [table_simps]:
  "set (update_where P f rs) = (\<lambda>r. if P r then f r else r) ` set rs"
  by (simp add: update_where_def)

lemma set_delete_where [table_simps]: "set (delete_where P rs) = {r \<in> set rs. \<not> P r}"
  by (simp add: delete_where_def)

lemma map_update_where [table_simps]:
  assumes "\<And>r. P r \<Longrightarrow> k (f r) = k r"
  shows "map k (update_where P f rs) = map k rs"
  using assms by (simp add: update_where_def)

lemma mem_map_filter: "y \<in> set (List.map_filter f xs) \<longleftrightarrow> (\<exists>x \<in> set xs. f x = Some y)"
  by (induction xs) (auto simp: List.map_filter_def)

lemma update_where_none: "(\<forall>r \<in> set rs. \<not> P r) \<Longrightarrow> update_where P f rs = rs"
  by (induction rs) auto

lemma find_SomeD: "find P xs = Some x \<Longrightarrow> x \<in> set xs \<and> P x"
  by (auto simp: find_Some_iff)

lemma find_filter:
  "distinct (map f xs) \<Longrightarrow>
     find (\<lambda>x. f x = k) (filter Q xs) = (case find (\<lambda>x. f x = k) xs of None \<Rightarrow> None | Some x \<Rightarrow> if Q x then Some x else None)"
proof (induction xs)
  case (Cons x xs)
  show ?case
  proof (cases "f x = k")
    case True
    then have "find (\<lambda>y. f y = k) (filter Q xs) = None" using Cons.prems by (auto simp: find_None_iff) (metis imageI)
    with True show ?thesis by simp
  next
    case False
    with Cons show ?thesis by simp
  qed
qed simp

end
