(* ===== verification/Wf_Transitions.thy ===== *)
theory Wf_Transitions
  imports Wf_Prelude
begin

text \<open>
  The state machines of \<^verbatim>\<open>packages/workflows/src/state/transitions.ts\<close>: the four status
  enumerations, their transition matrices, \<^verbatim>\<open>canTransition\<close> and \<^verbatim>\<open>assertTransition\<close>, the
  foreach-only preconditions, and the roll-up of task statuses into a workflow status.
  The interface \<open>transition_matrix\<close> states what the engine relies on of a matrix (terminal
  statuses have no exits); the matrices of workflows, attempts and settled tasks provide it.
\<close>

section \<open>Status enumerations\<close>

datatype task_status =
  TIdle | TScheduled | TPendingApproval | TRunning | TSucceeded | TFailed | TSkipped | TCancelled

datatype workflow_status = WDraft | WActive | WPaused | WCompleted | WCancelled | WFailed

datatype attempt_status = AttPending | AttRunning | AttSucceeded | AttFailed

datatype approval_status = ApPending | ApGranted | ApRejected | ApNeedsRevision

datatype transition_kind = KTask | KWorkflow | KAttempt | KApproval

definition TASK_STATUSES :: "(string \<times> task_status) list" where
  "TASK_STATUSES =
    [(''idle'', TIdle), (''scheduled'', TScheduled), (''pending_approval'', TPendingApproval),
     (''running'', TRunning), (''succeeded'', TSucceeded), (''failed'', TFailed),
     (''skipped'', TSkipped), (''cancelled'', TCancelled)]"

definition WORKFLOW_STATUSES :: "(string \<times> workflow_status) list" where
  "WORKFLOW_STATUSES =
    [(''draft'', WDraft), (''active'', WActive), (''paused'', WPaused),
     (''completed'', WCompleted), (''cancelled'', WCancelled), (''failed'', WFailed)]"

definition ATTEMPT_STATUSES :: "(string \<times> attempt_status) list" where
  "ATTEMPT_STATUSES =
    [(''pending'', AttPending), (''running'', AttRunning), (''succeeded'', AttSucceeded),
     (''failed'', AttFailed)]"

definition APPROVAL_STATUSES :: "(string \<times> approval_status) list" where
  "APPROVAL_STATUSES =
    [(''pending'', ApPending), (''granted'', ApGranted), (''rejected'', ApRejected),
     (''needs_revision'', ApNeedsRevision)]"

lemmas status_enums = TASK_STATUSES_def WORKFLOW_STATUSES_def ATTEMPT_STATUSES_def APPROVAL_STATUSES_def

text \<open>The text a status has in the database.\<close>

fun task_status_text :: "task_status \<Rightarrow> string" where
  "task_status_text TIdle = ''idle''"
| "task_status_text TScheduled = ''scheduled''"
| "task_status_text TPendingApproval = ''pending_approval''"
| "task_status_text TRunning = ''running''"
| "task_status_text TSucceeded = ''succeeded''"
| "task_status_text TFailed = ''failed''"
| "task_status_text TSkipped = ''skipped''"
| "task_status_text TCancelled = ''cancelled''"

fun workflow_status_text :: "workflow_status \<Rightarrow> string" where
  "workflow_status_text WDraft = ''draft''"
| "workflow_status_text WActive = ''active''"
| "workflow_status_text WPaused = ''paused''"
| "workflow_status_text WCompleted = ''completed''"
| "workflow_status_text WCancelled = ''cancelled''"
| "workflow_status_text WFailed = ''failed''"

fun attempt_status_text :: "attempt_status \<Rightarrow> string" where
  "attempt_status_text AttPending = ''pending''"
| "attempt_status_text AttRunning = ''running''"
| "attempt_status_text AttSucceeded = ''succeeded''"
| "attempt_status_text AttFailed = ''failed''"

fun approval_status_text :: "approval_status \<Rightarrow> string" where
  "approval_status_text ApPending = ''pending''"
| "approval_status_text ApGranted = ''granted''"
| "approval_status_text ApRejected = ''rejected''"
| "approval_status_text ApNeedsRevision = ''needs_revision''"

section \<open>Transition matrices\<close>

fun TASK_TRANSITIONS :: "task_status \<Rightarrow> task_status list" where
  "TASK_TRANSITIONS TIdle = [TScheduled, TCancelled]"
| "TASK_TRANSITIONS TScheduled = [TPendingApproval, TRunning, TSkipped, TCancelled, TFailed]"
| "TASK_TRANSITIONS TPendingApproval = [TScheduled, TRunning, TSkipped, TCancelled]"
| "TASK_TRANSITIONS TRunning = [TSucceeded, TFailed, TCancelled]"
| "TASK_TRANSITIONS TFailed = [TScheduled, TSkipped, TCancelled]"
| "TASK_TRANSITIONS TSucceeded = []"
| "TASK_TRANSITIONS TSkipped = []"
| "TASK_TRANSITIONS TCancelled = []"

fun WORKFLOW_TRANSITIONS :: "workflow_status \<Rightarrow> workflow_status list" where
  "WORKFLOW_TRANSITIONS WDraft = [WActive, WCancelled]"
| "WORKFLOW_TRANSITIONS WActive = [WPaused, WCompleted, WFailed, WCancelled]"
| "WORKFLOW_TRANSITIONS WPaused = [WActive, WCancelled]"
| "WORKFLOW_TRANSITIONS WCompleted = []"
| "WORKFLOW_TRANSITIONS WCancelled = []"
| "WORKFLOW_TRANSITIONS WFailed = []"

fun ATTEMPT_TRANSITIONS :: "attempt_status \<Rightarrow> attempt_status list" where
  "ATTEMPT_TRANSITIONS AttPending = [AttRunning, AttFailed]"
| "ATTEMPT_TRANSITIONS AttRunning = [AttSucceeded, AttFailed]"
| "ATTEMPT_TRANSITIONS AttSucceeded = []"
| "ATTEMPT_TRANSITIONS AttFailed = []"

fun APPROVAL_TRANSITIONS :: "approval_status \<Rightarrow> approval_status list" where
  "APPROVAL_TRANSITIONS ApPending = [ApGranted, ApRejected]"
| "APPROVAL_TRANSITIONS ApGranted = [ApNeedsRevision]"
| "APPROVAL_TRANSITIONS ApRejected = [ApNeedsRevision]"
| "APPROVAL_TRANSITIONS ApNeedsRevision = [ApPending]"

text \<open>
  \<open>MATRICES[kind][from]\<close>: the row of a matrix at a status text, \<open>None\<close> (undefined) where the
  text is no status of that machine.
\<close>

fun MATRICES :: "transition_kind \<Rightarrow> string \<Rightarrow> string list option" where
  "MATRICES KTask s =
     map_option (map task_status_text \<circ> TASK_TRANSITIONS) (map_of TASK_STATUSES s)"
| "MATRICES KWorkflow s =
     map_option (map workflow_status_text \<circ> WORKFLOW_TRANSITIONS) (map_of WORKFLOW_STATUSES s)"
| "MATRICES KAttempt s =
     map_option (map attempt_status_text \<circ> ATTEMPT_TRANSITIONS) (map_of ATTEMPT_STATUSES s)"
| "MATRICES KApproval s =
     map_option (map approval_status_text \<circ> APPROVAL_TRANSITIONS) (map_of APPROVAL_STATUSES s)"

datatype transition_error = TransitionError transition_kind string string

definition canTransition :: "transition_kind \<Rightarrow> string \<Rightarrow> string \<Rightarrow> bool" where
  "canTransition kind from_status to_status \<longleftrightarrow>
     (if from_status = to_status then True
      else to_status \<in> set (nullish (MATRICES kind from_status) []))"

definition assertTransition :: "transition_kind \<Rightarrow> string \<Rightarrow> string \<Rightarrow> transition_error + unit" where
  "assertTransition kind from_status to_status =
     (if \<not> canTransition kind from_status to_status
      then Inl (TransitionError kind from_status to_status) else Inr ())"

section \<open>Foreach-only preconditions\<close>

datatype failure_policy = FpBlock | FpSkip

datatype foreach_attempt = IdleToSkipped | IdleToFailed | IdleToSucceeded

datatype foreach_precondition_error = ForeachPreconditionError ident foreach_attempt

text \<open>
  \<^verbatim>\<open>assertForeachIdleSkip(parentTaskKey, sourceTerminalStatus, failurePolicy)\<close>; the source
  status is \<open>skipped\<close> or \<open>failed\<close>.
\<close>

datatype source_terminal = SrcSkipped | SrcFailed

definition assertForeachIdleSkip ::
  "ident \<Rightarrow> source_terminal \<Rightarrow> failure_policy option \<Rightarrow> foreach_precondition_error + unit" where
  "assertForeachIdleSkip key src fp =
     (if src = SrcSkipped then Inr ()
      else if src = SrcFailed \<and> fp = Some FpSkip then Inr ()
      else Inl (ForeachPreconditionError key IdleToSkipped))"

definition assertForeachIdleFail :: "ident \<Rightarrow> string \<Rightarrow> foreach_precondition_error + unit" where
  "assertForeachIdleFail key errorCode =
     (if length errorCode > 0 \<and> starts_with errorCode ''foreach_'' then Inr ()
      else Inl (ForeachPreconditionError key IdleToFailed))"

definition assertForeachIdleSucceeded :: "ident \<Rightarrow> nat \<Rightarrow> foreach_precondition_error + unit" where
  "assertForeachIdleSucceeded key sourceItemsLength =
     (if sourceItemsLength = 0 then Inr ()
      else Inl (ForeachPreconditionError key IdleToSucceeded))"

section \<open>Terminal statuses and the workflow roll-up\<close>

definition isTerminalTaskStatus :: "task_status \<Rightarrow> bool" where
  "isTerminalTaskStatus s \<longleftrightarrow> s = TSucceeded \<or> s = TSkipped \<or> s = TCancelled \<or> s = TFailed"

definition isTerminalWorkflowStatus :: "workflow_status \<Rightarrow> bool" where
  "isTerminalWorkflowStatus s \<longleftrightarrow> s = WCompleted \<or> s = WCancelled \<or> s = WFailed"

record rollup_input =
  ri_status :: task_status
  ri_required :: "bool option"
  ri_failurePolicy :: "failure_policy option"

definition blocking_failure :: "rollup_input \<Rightarrow> bool" where
  "blocking_failure t \<longleftrightarrow>
     ri_status t = TFailed \<and> nullish (ri_required t) True \<and> nullish (ri_failurePolicy t) FpBlock = FpBlock"

definition rollUpWorkflowStatus :: "rollup_input list \<Rightarrow> workflow_status" where
  "rollUpWorkflowStatus ts =
     (if length ts = 0 then WActive
      else if list_ex blocking_failure ts then WFailed
      else if list_all (\<lambda>t. isTerminalTaskStatus (ri_status t)) ts then WCompleted
      else WActive)"

section \<open>The interface of a transition matrix\<close>

text \<open>One legal step (idempotent rewrites included) and the statuses legal steps lead to.\<close>

inductive legal_run :: "('s \<Rightarrow> 's list) \<Rightarrow> 's \<Rightarrow> 's \<Rightarrow> bool" for M where
  legal_refl: "legal_run M s s"
| legal_step: "legal_run M s t \<Longrightarrow> u = t \<or> u \<in> set (M t) \<Longrightarrow> legal_run M s u"

lemma legal_run_trans: "legal_run M t u \<Longrightarrow> legal_run M s t \<Longrightarrow> legal_run M s u"
  by (induction rule: legal_run.induct) (auto intro: legal_run.intros)

lemma legal_run_one: "u \<in> set (M s) \<Longrightarrow> legal_run M s u"
  by (rule legal_step [OF legal_refl]) simp

locale transition_matrix =
  fixes M :: "'s \<Rightarrow> 's list"
    and final :: "'s \<Rightarrow> bool"
    and escape :: 's
  assumes final_no_exit: "final s \<Longrightarrow> M s = []"
    and escape_final: "final escape"
    and escape_open: "\<not> final s \<Longrightarrow> legal_run M s escape"
begin

lemma final_absorbing: "legal_run M s t \<Longrightarrow> final s \<Longrightarrow> t = s"
  by (induction rule: legal_run.induct) (auto simp: final_no_exit)

lemma can_always_finish: "\<exists>t. legal_run M s t \<and> final t"
proof (cases "final s")
  case True
  then show ?thesis by (blast intro: legal_refl)
next
  case False
  then show ?thesis by (blast intro: escape_final escape_open)
qed

end

definition settled_task :: "task_status \<Rightarrow> bool" where
  "settled_task s \<longleftrightarrow> s = TSucceeded \<or> s = TSkipped \<or> s = TCancelled"

definition settled_attempt :: "attempt_status \<Rightarrow> bool" where
  "settled_attempt s \<longleftrightarrow> s = AttSucceeded \<or> s = AttFailed"

interpretation task_matrix: transition_matrix TASK_TRANSITIONS settled_task TCancelled
proof unfold_locales
  show "settled_task s \<Longrightarrow> TASK_TRANSITIONS s = []" for s
    by (auto simp: settled_task_def)
  show "settled_task TCancelled" by (simp add: settled_task_def)
  show "\<not> settled_task s \<Longrightarrow> legal_run TASK_TRANSITIONS s TCancelled" for s
    by (rule legal_run_one) (cases s; simp add: settled_task_def)
qed

interpretation workflow_matrix:
  transition_matrix WORKFLOW_TRANSITIONS isTerminalWorkflowStatus WCancelled
proof unfold_locales
  show "isTerminalWorkflowStatus s \<Longrightarrow> WORKFLOW_TRANSITIONS s = []" for s
    by (auto simp: isTerminalWorkflowStatus_def)
  show "isTerminalWorkflowStatus WCancelled" by (simp add: isTerminalWorkflowStatus_def)
  show "\<not> isTerminalWorkflowStatus s \<Longrightarrow> legal_run WORKFLOW_TRANSITIONS s WCancelled" for s
    by (rule legal_run_one) (cases s; simp add: isTerminalWorkflowStatus_def)
qed

interpretation attempt_matrix: transition_matrix ATTEMPT_TRANSITIONS settled_attempt AttFailed
proof unfold_locales
  show "settled_attempt s \<Longrightarrow> ATTEMPT_TRANSITIONS s = []" for s
    by (auto simp: settled_attempt_def)
  show "settled_attempt AttFailed" by (simp add: settled_attempt_def)
  show "\<not> settled_attempt s \<Longrightarrow> legal_run ATTEMPT_TRANSITIONS s AttFailed" for s
    by (rule legal_run_one) (cases s; simp add: settled_attempt_def)
qed

section \<open>canTransition decides the matrices\<close>

lemma task_status_text_inj [simp]: "task_status_text a = task_status_text b \<longleftrightarrow> a = b"
  by (cases a; cases b) simp_all

lemma workflow_status_text_inj [simp]:
  "workflow_status_text a = workflow_status_text b \<longleftrightarrow> a = b"
  by (cases a; cases b) simp_all

lemma attempt_status_text_inj [simp]:
  "attempt_status_text a = attempt_status_text b \<longleftrightarrow> a = b"
  by (cases a; cases b) simp_all

lemma approval_status_text_inj [simp]:
  "approval_status_text a = approval_status_text b \<longleftrightarrow> a = b"
  by (cases a; cases b) simp_all

lemma task_status_lookup [simp]: "map_of TASK_STATUSES (task_status_text a) = Some a"
  by (cases a) (simp_all add: status_enums)

lemma workflow_status_lookup [simp]:
  "map_of WORKFLOW_STATUSES (workflow_status_text a) = Some a"
  by (cases a) (simp_all add: status_enums)

lemma attempt_status_lookup [simp]: "map_of ATTEMPT_STATUSES (attempt_status_text a) = Some a"
  by (cases a) (simp_all add: status_enums)

lemma approval_status_lookup [simp]: "map_of APPROVAL_STATUSES (approval_status_text a) = Some a"
  by (cases a) (simp_all add: status_enums)

lemma text_image_mem [simp]:
  "task_status_text a \<in> task_status_text ` A \<longleftrightarrow> a \<in> A"
  "workflow_status_text b \<in> workflow_status_text ` B \<longleftrightarrow> b \<in> B"
  "attempt_status_text c \<in> attempt_status_text ` C \<longleftrightarrow> c \<in> C"
  "approval_status_text d \<in> approval_status_text ` D \<longleftrightarrow> d \<in> D"
  by (auto simp: image_iff)

lemma canTransition_task:
  "canTransition KTask (task_status_text s) (task_status_text t) \<longleftrightarrow> t = s \<or> t \<in> set (TASK_TRANSITIONS s)"
  by (auto simp: canTransition_def)

lemma canTransition_workflow:
  "canTransition KWorkflow (workflow_status_text s) (workflow_status_text t)
     \<longleftrightarrow> t = s \<or> t \<in> set (WORKFLOW_TRANSITIONS s)"
  by (auto simp: canTransition_def)

lemma canTransition_attempt:
  "canTransition KAttempt (attempt_status_text s) (attempt_status_text t)
     \<longleftrightarrow> t = s \<or> t \<in> set (ATTEMPT_TRANSITIONS s)"
  by (auto simp: canTransition_def)

section \<open>Reachable statuses\<close>

text \<open>The statuses a row can reach by updates that \<open>canTransition\<close> accepts.\<close>

definition task_reach :: "task_status \<Rightarrow> task_status set" where
  "task_reach s = {t. legal_run
     (\<lambda>a. filter (\<lambda>b. canTransition KTask (task_status_text a) (task_status_text b))
       (map snd TASK_STATUSES)) s t}"

definition workflow_reach :: "workflow_status \<Rightarrow> workflow_status set" where
  "workflow_reach s = {t. legal_run
     (\<lambda>a. filter (\<lambda>b. canTransition KWorkflow (workflow_status_text a) (workflow_status_text b))
       (map snd WORKFLOW_STATUSES)) s t}"

lemma all_task_statuses: "set (map snd TASK_STATUSES) = UNIV"
proof -
  have "s \<in> set (map snd TASK_STATUSES)" for s
    by (cases s) (simp_all add: status_enums)
  then show ?thesis by blast
qed

lemma all_workflow_statuses: "set (map snd WORKFLOW_STATUSES) = UNIV"
proof -
  have "s \<in> set (map snd WORKFLOW_STATUSES)" for s
    by (cases s) (simp_all add: status_enums)
  then show ?thesis by blast
qed

lemma legal_run_cong:
  assumes "\<And>s. insert s (set (M s)) = insert s (set (N s))"
  shows "legal_run M s t = legal_run N s t"
proof -
  have sub: "legal_run M s t \<Longrightarrow> legal_run N s t"
    if "\<And>s. insert s (set (M s)) = insert s (set (N s))" for M N :: "'a \<Rightarrow> 'a list" and s t
  proof (induction rule: legal_run.induct)
    case (legal_step s t u)
    have "u = t \<or> u \<in> set (N t)" using that [of t] legal_step.hyps(2) by blast
    with legal_step.IH show ?case by (rule legal_run.legal_step)
  qed (rule legal_run.legal_refl)
  show ?thesis using sub [of M N] sub [of N M] assms by metis
qed

lemma task_reach_matrix: "task_reach s = {t. legal_run TASK_TRANSITIONS s t}"
proof -
  let ?M = "\<lambda>a. filter (\<lambda>b. canTransition KTask (task_status_text a) (task_status_text b))
      (map snd TASK_STATUSES)"
  have "set (?M a) = insert a (set (TASK_TRANSITIONS a))" for a
    unfolding set_filter all_task_statuses canTransition_task by blast
  then have "insert a (set (?M a)) = insert a (set (TASK_TRANSITIONS a))" for a
    by (simp only: insert_absorb2)
  then have "legal_run ?M s t = legal_run TASK_TRANSITIONS s t" for t
    by (rule legal_run_cong)
  then show ?thesis by (simp only: task_reach_def)
qed

lemma workflow_reach_matrix: "workflow_reach s = {t. legal_run WORKFLOW_TRANSITIONS s t}"
proof -
  let ?M = "\<lambda>a. filter (\<lambda>b. canTransition KWorkflow (workflow_status_text a) (workflow_status_text b))
      (map snd WORKFLOW_STATUSES)"
  have "set (?M a) = insert a (set (WORKFLOW_TRANSITIONS a))" for a
    unfolding set_filter all_workflow_statuses canTransition_workflow by blast
  then have "insert a (set (?M a)) = insert a (set (WORKFLOW_TRANSITIONS a))" for a
    by (simp only: insert_absorb2)
  then have "legal_run ?M s t = legal_run WORKFLOW_TRANSITIONS s t" for t
    by (rule legal_run_cong)
  then show ?thesis by (simp only: workflow_reach_def)
qed

lemma task_run_from_open:
  assumes "\<not> settled_task s" and "t \<noteq> TIdle"
  shows "legal_run TASK_TRANSITIONS s t"
proof -
  have sched: "legal_run TASK_TRANSITIONS s' TRunning" if "\<not> settled_task s'" for s'
  proof -
    have "legal_run TASK_TRANSITIONS TScheduled TRunning" by (rule legal_run_one) simp
    moreover have "legal_run TASK_TRANSITIONS TFailed TScheduled" by (rule legal_run_one) simp
    moreover have "legal_run TASK_TRANSITIONS TIdle TScheduled" by (rule legal_run_one) simp
    moreover have "legal_run TASK_TRANSITIONS TPendingApproval TRunning" by (rule legal_run_one) simp
    ultimately show ?thesis
      using that by (cases s') (auto simp: settled_task_def intro: legal_run_trans legal_refl)
  qed
  have fail: "legal_run TASK_TRANSITIONS s TFailed"
    by (rule legal_run_trans [OF _ sched [OF assms(1)]], rule legal_run_one) simp
  have resched: "legal_run TASK_TRANSITIONS s TScheduled"
    by (rule legal_run_trans [OF _ fail], rule legal_run_one) simp
  have "legal_run TASK_TRANSITIONS TScheduled t \<or> legal_run TASK_TRANSITIONS TRunning t"
    using assms(2) by (cases t) (simp_all add: legal_run_one legal_refl)
  with resched sched [OF assms(1)] show ?thesis by (blast intro: legal_run_trans)
qed

lemma task_run_never_idle: "legal_run TASK_TRANSITIONS s t \<Longrightarrow> t = TIdle \<Longrightarrow> s = TIdle"
proof (induction rule: legal_run.induct)
  case (legal_step s t u)
  then show ?case by (cases t) auto
qed simp

lemma workflow_run_never_draft: "legal_run WORKFLOW_TRANSITIONS s t \<Longrightarrow> t = WDraft \<Longrightarrow> s = WDraft"
proof (induction rule: legal_run.induct)
  case (legal_step s t u)
  then show ?case by (cases t) auto
qed simp

lemma workflow_run_from_open:
  assumes "\<not> isTerminalWorkflowStatus s" and "t \<noteq> WDraft"
  shows "legal_run WORKFLOW_TRANSITIONS s t"
proof -
  have act: "legal_run WORKFLOW_TRANSITIONS s WActive"
    using assms(1) by (cases s) (simp_all add: isTerminalWorkflowStatus_def legal_run_one legal_refl)
  have "legal_run WORKFLOW_TRANSITIONS WActive t"
    using assms(2) by (cases t) (simp_all add: legal_run_one legal_refl)
  then show ?thesis using act by (rule legal_run_trans)
qed

text \<open>
  Reachability under the transition guard. Updates accepted by \<open>canTransition\<close> take a task
  from an unsettled status to every status except back to \<open>idle\<close>, and never out of
  \<open>succeeded\<close>, \<open>skipped\<close> or \<open>cancelled\<close>; \<open>failed\<close> is not absorbing (a retry re-schedules it)
  although \<open>isTerminalTaskStatus\<close> holds of it. For workflows the terminal statuses are exactly
  the absorbing ones and no run returns to \<open>draft\<close>.
\<close>

theorem guarded_reachability:
  "task_reach s = (if settled_task s then {s} else if s = TIdle then UNIV else - {TIdle})
   \<and> workflow_reach w =
     (if isTerminalWorkflowStatus w then {w} else if w = WDraft then UNIV else - {WDraft})"
proof
  show "task_reach s = (if settled_task s then {s} else if s = TIdle then UNIV else - {TIdle})"
  proof (cases "settled_task s")
    case True
    then show ?thesis by (auto simp: task_reach_matrix intro: legal_refl dest: task_matrix.final_absorbing)
  next
    case False
    then have "t \<in> task_reach s \<longleftrightarrow> t \<noteq> TIdle \<or> s = TIdle" for t
      using task_run_from_open [OF False] task_run_never_idle legal_refl [of TASK_TRANSITIONS]
      by (cases "t = TIdle") (auto simp: task_reach_matrix)
    with False show ?thesis by auto
  qed
  show "workflow_reach w =
     (if isTerminalWorkflowStatus w then {w} else if w = WDraft then UNIV else - {WDraft})"
  proof (cases "isTerminalWorkflowStatus w")
    case True
    then show ?thesis
      by (auto simp: workflow_reach_matrix intro: legal_refl dest: workflow_matrix.final_absorbing)
  next
    case False
    then have "t \<in> workflow_reach w \<longleftrightarrow> t \<noteq> WDraft \<or> w = WDraft" for t
      using workflow_run_from_open [OF False] workflow_run_never_draft legal_refl [of WORKFLOW_TRANSITIONS]
      by (cases "t = WDraft") (auto simp: workflow_reach_matrix)
    with False show ?thesis by auto
  qed
qed

text \<open>
  The roll-up. A workflow rolls up to \<open>failed\<close> exactly when some required task failed under
  the block policy, to \<open>completed\<close> exactly when there is a task, every task is terminal and none
  of the failures blocks, and stays \<open>active\<close> otherwise; the order and multiplicity of the task
  rows never matter.
\<close>

theorem rollup_exact:
  "(rollUpWorkflowStatus ts = WFailed \<longleftrightarrow>
     (\<exists>t. t \<in> set ts \<and> ri_status t = TFailed \<and> ri_required t \<noteq> Some False
        \<and> ri_failurePolicy t \<noteq> Some FpSkip))
   \<and> (rollUpWorkflowStatus ts = WCompleted \<longleftrightarrow>
     ts \<noteq> [] \<and> ri_status ` set ts \<subseteq> {TSucceeded, TSkipped, TCancelled, TFailed}
       \<and> rollUpWorkflowStatus ts \<noteq> WFailed)
   \<and> rollUpWorkflowStatus (remdups ts @ ts') = rollUpWorkflowStatus (ts' @ ts)"
proof (intro conjI)
  have bf: "blocking_failure t \<longleftrightarrow>
      ri_status t = TFailed \<and> ri_required t \<noteq> Some False \<and> ri_failurePolicy t \<noteq> Some FpSkip" for t
    by (cases "ri_required t"; cases "ri_failurePolicy t")
      (auto simp: blocking_failure_def intro: failure_policy.exhaust)
  show "rollUpWorkflowStatus ts = WFailed \<longleftrightarrow>
     (\<exists>t. t \<in> set ts \<and> ri_status t = TFailed \<and> ri_required t \<noteq> Some False
        \<and> ri_failurePolicy t \<noteq> Some FpSkip)"
    by (auto simp: rollUpWorkflowStatus_def list_ex_iff bf)
  show "rollUpWorkflowStatus ts = WCompleted \<longleftrightarrow>
     ts \<noteq> [] \<and> ri_status ` set ts \<subseteq> {TSucceeded, TSkipped, TCancelled, TFailed}
       \<and> rollUpWorkflowStatus ts \<noteq> WFailed"
    by (auto simp: rollUpWorkflowStatus_def list_all_iff isTerminalTaskStatus_def)
  show "rollUpWorkflowStatus (remdups ts @ ts') = rollUpWorkflowStatus (ts' @ ts)"
    by (auto simp: rollUpWorkflowStatus_def list_all_iff list_ex_iff)
qed

end
