(* ===== verification/Wf_Gates.thy ===== *)
theory Wf_Gates
  imports Wf_Transitions
begin

text \<open>
  The gate ledger: \<^verbatim>\<open>packages/workflows/src/state/gates.ts\<close> (the derived readiness of a task
  from its ledger) and \<^verbatim>\<open>packages/workflows/src/engine/gate-eval.ts\<close> (the evaluation of the
  timing, dependency and approval gates of a task from its current context).
\<close>

section \<open>The gate ledger (state/gates.ts)\<close>

datatype gate_kind = Timing | Dependency | Approval

datatype gate_state = GPending | GPassed | GBlocked | GNotRequired

datatype effective_gate_state = Dispatchable | EffScheduled | EffPendingApproval | EffBlocked

record gate_entry =
  g_kind :: gate_kind
  g_state :: gate_state
  g_reason :: "string option"
  g_blockerRefs :: "string list option"

record gate_blocker =
  b_kind :: gate_kind
  b_reason :: string
  b_blockerRefs :: "string list option"

record gate_evaluation =
  ge_state :: effective_gate_state
  ge_blockers :: "gate_blocker list"

fun gate_kind_text :: "gate_kind \<Rightarrow> string" where
  "gate_kind_text Timing = ''timing''"
| "gate_kind_text Dependency = ''dependency''"
| "gate_kind_text Approval = ''approval''"

fun gate_state_text :: "gate_state \<Rightarrow> string" where
  "gate_state_text GPending = ''pending''"
| "gate_state_text GPassed = ''passed''"
| "gate_state_text GBlocked = ''blocked''"
| "gate_state_text GNotRequired = ''not_required''"

definition gate :: "gate_entry list \<Rightarrow> gate_kind \<Rightarrow> gate_entry option" where
  "gate ledger kind = find (\<lambda>g. g_kind g = kind) ledger"

definition passed :: "gate_entry option \<Rightarrow> bool" where
  "passed g \<longleftrightarrow> (case g of None \<Rightarrow> True | Some e \<Rightarrow> g_state e = GPassed \<or> g_state e = GNotRequired)"

definition has_state :: "gate_entry option \<Rightarrow> gate_state \<Rightarrow> bool" where
  "has_state g st \<longleftrightarrow> (case g of None \<Rightarrow> False | Some e \<Rightarrow> g_state e = st)"

definition blocker_of :: "gate_entry \<Rightarrow> gate_blocker" where
  "blocker_of g =
     \<lparr>b_kind = g_kind g,
      b_reason = nullish (g_reason g)
        (gate_kind_text (g_kind g) @ '' gate is '' @ gate_state_text (g_state g)),
      b_blockerRefs = g_blockerRefs g\<rparr>"

definition deriveEffectiveGateState :: "gate_entry list \<Rightarrow> gate_evaluation" where
  "deriveEffectiveGateState ledger =
     (let timing = gate ledger Timing;
          dependency = gate ledger Dependency;
          approval = gate ledger Approval;
          blockers = map blocker_of
            (filter (\<lambda>g. g_state g = GBlocked \<or> g_state g = GPending) ledger);
          timingAndDepsOk = passed timing \<and> passed dependency
      in if has_state dependency GBlocked \<or> has_state timing GBlocked
           then \<lparr>ge_state = EffBlocked, ge_blockers = blockers\<rparr>
         else if timingAndDepsOk \<and> has_state approval GPending
           then \<lparr>ge_state = EffPendingApproval, ge_blockers = blockers\<rparr>
         else if \<not> timingAndDepsOk \<and> passed approval \<and> passed dependency
           then \<lparr>ge_state = EffScheduled, ge_blockers = blockers\<rparr>
         else if passed timing \<and> passed dependency \<and> passed approval
           then \<lparr>ge_state = Dispatchable, ge_blockers = []\<rparr>
         else \<lparr>ge_state = EffBlocked, ge_blockers = blockers\<rparr>)"

definition isDispatchable :: "gate_entry list \<Rightarrow> bool" where
  "isDispatchable ledger \<longleftrightarrow> ge_state (deriveEffectiveGateState ledger) = Dispatchable"

section \<open>Runtime gate evaluation (engine/gate-eval.ts)\<close>

datatype dependency_outcome = OnSuccess | OnSkipped | OnFailed

datatype dep_resolution = Satisfied | DepBlocked | DepPending

record dependency_edge =
  e_dependsOnTaskId :: ident
  e_dependsOnKey :: "string option"
  e_outcome :: dependency_outcome

record task_gate_context =
  gc_dueAtUtc :: "instant option"
  gc_now :: instant
  gc_dependencies :: "dependency_edge list"
  gc_depStatusById :: "ident \<rightharpoonup> task_status"
  gc_hasApproval :: bool
  gc_approvalStatus :: "approval_status option"

fun resolveDependency :: "task_status \<Rightarrow> dependency_outcome \<Rightarrow> dep_resolution" where
  "resolveDependency up OnSuccess =
     (if up = TSucceeded then Satisfied
      else if up = TFailed \<or> up = TSkipped \<or> up = TCancelled then DepBlocked
      else DepPending)"
| "resolveDependency up OnSkipped =
     (if up = TSucceeded \<or> up = TSkipped then Satisfied
      else if up = TFailed \<or> up = TCancelled then DepBlocked
      else DepPending)"
| "resolveDependency up OnFailed =
     (if up = TFailed then Satisfied
      else if up = TSucceeded \<or> up = TSkipped \<or> up = TCancelled then DepBlocked
      else DepPending)"

definition edge_resolution :: "(ident \<rightharpoonup> task_status) \<Rightarrow> dependency_edge \<Rightarrow> dep_resolution" where
  "edge_resolution statuses dep =
     resolveDependency (nullish (statuses (e_dependsOnTaskId dep)) TIdle) (e_outcome dep)"

definition edge_label :: "dependency_edge \<Rightarrow> string" where
  "edge_label dep = nullish (e_dependsOnKey dep) (e_dependsOnTaskId dep)"

definition timing_gate :: "task_gate_context \<Rightarrow> gate_entry" where
  "timing_gate ctx =
     (case gc_dueAtUtc ctx of
        Some due \<Rightarrow>
          (if due \<le> gc_now ctx
           then \<lparr>g_kind = Timing, g_state = GPassed, g_reason = None, g_blockerRefs = None\<rparr>
           else \<lparr>g_kind = Timing, g_state = GPending,
                 g_reason = Some (''Not due until '' @ toISOString due), g_blockerRefs = None\<rparr>)
      | None \<Rightarrow> \<lparr>g_kind = Timing, g_state = GPassed, g_reason = None, g_blockerRefs = None\<rparr>)"

definition dependency_gate :: "task_gate_context \<Rightarrow> gate_entry" where
  "dependency_gate ctx =
     (if gc_dependencies ctx = []
      then \<lparr>g_kind = Dependency, g_state = GPassed, g_reason = None, g_blockerRefs = None\<rparr>
      else
        (let res = edge_resolution (gc_depStatusById ctx);
             blockers = map edge_label (filter (\<lambda>d. res d = DepBlocked) (gc_dependencies ctx));
             pending = map edge_label (filter (\<lambda>d. res d = DepPending) (gc_dependencies ctx))
         in if blockers \<noteq> []
              then \<lparr>g_kind = Dependency, g_state = GBlocked,
                    g_reason = Some (''Blocked by upstream outcome: '' @ js_join '', '' blockers),
                    g_blockerRefs = Some blockers\<rparr>
            else if pending \<noteq> []
              then \<lparr>g_kind = Dependency, g_state = GPending,
                    g_reason = Some (''Waiting on: '' @ js_join '', '' pending),
                    g_blockerRefs = Some pending\<rparr>
            else \<lparr>g_kind = Dependency, g_state = GPassed, g_reason = None, g_blockerRefs = None\<rparr>))"

definition approval_gate :: "task_gate_context \<Rightarrow> gate_entry" where
  "approval_gate ctx =
     (if gc_hasApproval ctx
      then
        (if gc_approvalStatus ctx = Some ApGranted
         then \<lparr>g_kind = Approval, g_state = GPassed, g_reason = None, g_blockerRefs = None\<rparr>
         else \<lparr>g_kind = Approval, g_state = GPending,
               g_reason = Some (''Awaiting approval ('' @
                 approval_status_text (nullish (gc_approvalStatus ctx) ApPending) @ '')''),
               g_blockerRefs = None\<rparr>)
      else \<lparr>g_kind = Approval, g_state = GNotRequired, g_reason = None, g_blockerRefs = None\<rparr>)"

definition evaluateTaskGates :: "task_gate_context \<Rightarrow> gate_entry list" where
  "evaluateTaskGates ctx = [timing_gate ctx, dependency_gate ctx, approval_gate ctx]"

section \<open>Lemmas\<close>

lemma gate_kinds [simp]:
  "g_kind (timing_gate ctx) = Timing"
  "g_kind (dependency_gate ctx) = Dependency"
  "g_kind (approval_gate ctx) = Approval"
  by (simp_all add: timing_gate_def dependency_gate_def approval_gate_def Let_def split: option.split)

lemma gate_of_evaluation [simp]:
  "gate (evaluateTaskGates ctx) Timing = Some (timing_gate ctx)"
  "gate (evaluateTaskGates ctx) Dependency = Some (dependency_gate ctx)"
  "gate (evaluateTaskGates ctx) Approval = Some (approval_gate ctx)"
  by (simp_all add: gate_def evaluateTaskGates_def)

lemma passed_Some [simp]: "passed (Some e) \<longleftrightarrow> g_state e = GPassed \<or> g_state e = GNotRequired"
  by (simp add: passed_def)

lemma has_state_Some [simp]: "has_state (Some e) st \<longleftrightarrow> g_state e = st"
  by (simp add: has_state_def)

text \<open>What the three evaluated gates say, in terms of the task's context.\<close>

definition due_now :: "task_gate_context \<Rightarrow> bool" where
  "due_now ctx \<longleftrightarrow> (case gc_dueAtUtc ctx of None \<Rightarrow> True | Some d \<Rightarrow> d \<le> gc_now ctx)"

definition deps_satisfied :: "task_gate_context \<Rightarrow> bool" where
  "deps_satisfied ctx \<longleftrightarrow>
     list_all (\<lambda>d. edge_resolution (gc_depStatusById ctx) d = Satisfied) (gc_dependencies ctx)"

definition dep_blocked :: "task_gate_context \<Rightarrow> bool" where
  "dep_blocked ctx \<longleftrightarrow>
     list_ex (\<lambda>d. edge_resolution (gc_depStatusById ctx) d = DepBlocked) (gc_dependencies ctx)"

definition approval_open :: "task_gate_context \<Rightarrow> bool" where
  "approval_open ctx \<longleftrightarrow> \<not> gc_hasApproval ctx \<or> gc_approvalStatus ctx = Some ApGranted"

lemma timing_gate_state: "g_state (timing_gate ctx) = (if due_now ctx then GPassed else GPending)"
  by (simp add: timing_gate_def due_now_def split: option.split)

lemma approval_gate_state:
  "g_state (approval_gate ctx) =
     (if gc_hasApproval ctx then if approval_open ctx then GPassed else GPending else GNotRequired)"
  by (simp add: approval_gate_def approval_open_def)

lemma edge_not_blocked_pending:
  "edge_resolution s d = Satisfied \<longleftrightarrow> edge_resolution s d \<noteq> DepBlocked \<and> edge_resolution s d \<noteq> DepPending"
  by (cases "edge_resolution s d") simp_all

lemma dependency_gate_state:
  "g_state (dependency_gate ctx) =
     (if dep_blocked ctx then GBlocked else if deps_satisfied ctx then GPassed else GPending)"
  by (auto simp: dependency_gate_def dep_blocked_def deps_satisfied_def Let_def list_ex_iff list_all_iff
      filter_empty_conv edge_not_blocked_pending)

lemma blocked_not_satisfied: "dep_blocked ctx \<Longrightarrow> \<not> deps_satisfied ctx"
  by (force simp: dep_blocked_def deps_satisfied_def list_ex_iff list_all_iff)

lemmas evaluated_gate_states = timing_gate_state dependency_gate_state approval_gate_state

lemma ge_state_evaluated:
  "ge_state (deriveEffectiveGateState (evaluateTaskGates ctx)) =
     (if dep_blocked ctx then EffBlocked
      else if due_now ctx \<and> deps_satisfied ctx
        then (if approval_open ctx then Dispatchable else EffPendingApproval)
      else if deps_satisfied ctx \<and> approval_open ctx then EffScheduled
      else EffBlocked)"
  by (auto simp: deriveEffectiveGateState_def Let_def evaluated_gate_states approval_open_def)

lemma gate_of_member:
  "distinct (map g_kind ledger) \<Longrightarrow> e \<in> set ledger \<Longrightarrow> gate ledger (g_kind e) = Some e"
  by (induction ledger) (auto simp: gate_def rev_image_eqI)

lemma gate_member: "gate ledger k = Some e \<Longrightarrow> e \<in> set ledger \<and> g_kind e = k"
  by (auto simp: gate_def find_Some_iff)

lemma all_gates_passed_iff:
  assumes "distinct (map g_kind ledger)"
  shows "passed (gate ledger Timing) \<and> passed (gate ledger Dependency) \<and> passed (gate ledger Approval)
    \<longleftrightarrow> filter (\<lambda>g. g_state g = GBlocked \<or> g_state g = GPending) ledger = []"
    (is "?all \<longleftrightarrow> ?none")
proof
  assume ?all
  then have all: "passed (gate ledger k)" for k by (cases k) auto
  have "g_state e = GPassed \<or> g_state e = GNotRequired" if "e \<in> set ledger" for e
    using all [of "g_kind e"] gate_of_member [OF assms that] by simp
  then show ?none by (fastforce simp: filter_empty_conv)
next
  assume ?none
  then have "passed (gate ledger k)" for k
    by (cases "gate ledger k") (auto simp: passed_def filter_empty_conv
        dest!: gate_member intro: gate_state.exhaust)
  then show ?all by blast
qed

lemma passed_excludes: "passed g \<Longrightarrow> \<not> has_state g GBlocked \<and> \<not> has_state g GPending"
  by (cases g) (auto simp: has_state_def)

lemma isDispatchable_iff_passed:
  "isDispatchable ledger \<longleftrightarrow>
     passed (gate ledger Timing) \<and> passed (gate ledger Dependency) \<and> passed (gate ledger Approval)"
  using passed_excludes [of "gate ledger Timing"] passed_excludes [of "gate ledger Dependency"]
    passed_excludes [of "gate ledger Approval"]
  by (auto simp: isDispatchable_def deriveEffectiveGateState_def Let_def)

lemma ge_blockers_derive:
  "ge_blockers (deriveEffectiveGateState ledger) =
     (if isDispatchable ledger then []
      else map blocker_of (filter (\<lambda>g. g_state g = GBlocked \<or> g_state g = GPending) ledger))"
  by (simp add: isDispatchable_def deriveEffectiveGateState_def Let_def)

section \<open>Properties\<close>

text \<open>
  A node dispatches only when all three gates pass: the ledger the engine evaluates for a
  task derives \<open>dispatchable\<close> exactly when the task is due, every dependency edge is satisfied by
  the status of its upstream task (a missing upstream counts as idle), and the task has no
  approval or its approval is granted.
\<close>

theorem dispatchable_iff_gates_open:
  "isDispatchable (evaluateTaskGates ctx) \<longleftrightarrow>
     (case gc_dueAtUtc ctx of None \<Rightarrow> True | Some d \<Rightarrow> d \<le> gc_now ctx)
     \<and> list_all (\<lambda>d. resolveDependency
         (nullish (gc_depStatusById ctx (e_dependsOnTaskId d)) TIdle) (e_outcome d) = Satisfied)
         (gc_dependencies ctx)
     \<and> (gc_hasApproval ctx = False \<or> gc_approvalStatus ctx = Some ApGranted)"
  using blocked_not_satisfied [of ctx]
  by (auto simp: isDispatchable_def ge_state_evaluated due_now_def deps_satisfied_def
      approval_open_def edge_resolution_def)

text \<open>
  Explainability. For any ledger with at most one entry per gate kind, a task is
  dispatchable exactly when no blocker is reported, and a task that is not dispatchable reports
  one blocker per gate that is blocked or pending, in ledger order, with the gate's own reason.
\<close>

theorem blockers_explain_state:
  assumes "distinct (map g_kind ledger)"
  shows "(isDispatchable ledger \<longleftrightarrow> ge_blockers (deriveEffectiveGateState ledger) = [])
    \<and> ge_blockers (deriveEffectiveGateState ledger) =
        map blocker_of (filter (\<lambda>g. g_state g = GBlocked \<or> g_state g = GPending) ledger)"
  using all_gates_passed_iff [OF assms]
  by (auto simp: ge_blockers_derive isDispatchable_iff_passed)

theorem blockers_explain_state_witness:
  "distinct (map g_kind (evaluateTaskGates
      \<lparr>gc_dueAtUtc = Some 5, gc_now = 3, gc_dependencies = [], gc_depStatusById = Map.empty,
       gc_hasApproval = True, gc_approvalStatus = None\<rparr>))
   \<and> map b_kind (ge_blockers (deriveEffectiveGateState (evaluateTaskGates
      \<lparr>gc_dueAtUtc = Some 5, gc_now = 3, gc_dependencies = [], gc_depStatusById = Map.empty,
       gc_hasApproval = True, gc_approvalStatus = None\<rparr>))) = [Timing, Approval]"
proof -
  let ?l = "evaluateTaskGates
      \<lparr>gc_dueAtUtc = Some 5, gc_now = 3, gc_dependencies = [], gc_depStatusById = Map.empty,
       gc_hasApproval = True, gc_approvalStatus = None\<rparr>"
  have d: "distinct (map g_kind ?l)" by (simp add: evaluateTaskGates_def)
  then show ?thesis
    using blockers_explain_state [OF d]
    by (simp add: evaluateTaskGates_def timing_gate_def dependency_gate_def approval_gate_def blocker_of_def)
qed

text \<open>
  The derived state \<open>blocked\<close> does not mean that a gate is blocked: on the evaluated ledgers it
  is derived when an upstream outcome rules the task out, when a dependency is merely pending,
  and when a task that is not due yet still awaits its approval; in the last two cases no gate
  of the ledger is in state \<open>blocked\<close>.
\<close>

theorem blocked_state_cases:
  "(ge_state (deriveEffectiveGateState (evaluateTaskGates ctx)) = EffBlocked \<longleftrightarrow>
      g_state (dependency_gate ctx) = GBlocked
      \<or> g_state (dependency_gate ctx) = GPending
      \<or> g_state (timing_gate ctx) = GPending \<and> g_state (approval_gate ctx) = GPending)
   \<and> (GBlocked \<in> g_state ` set (evaluateTaskGates ctx) \<longleftrightarrow> g_state (dependency_gate ctx) = GBlocked)"
  unfolding ge_state_evaluated
  by (auto simp: evaluateTaskGates_def evaluated_gate_states approval_open_def
      dest: blocked_not_satisfied split: if_splits)

end
