(* ===== verification/Wf_Graph.thy ===== *)
theory Wf_Graph
  imports Wf_Prelude
begin

text \<open>
  The cycle check of \<^verbatim>\<open>packages/workflows/src/spec/validate.ts\<close>: a depth-first search with
  three colours over an adjacency map. The validator runs it on the dependency, anchor and
  parent graphs of a spec. Interface: \<open>cycle_checker\<close> (the check decides whether the adjacency
  map has a cycle), from which a client gets a rank that decreases along every edge of an
  accepted graph; \<open>hasCycle\<close> provides it.
\<close>

section \<open>The search\<close>

type_synonym 'a adjacency = "('a \<times> 'a list) list"

datatype color = WHITE | GRAY | BLACK

definition succs :: "'a adjacency \<Rightarrow> 'a \<Rightarrow> 'a list" where
  "succs adj n = nullish (map_of adj n) []"

definition adj_rel :: "'a adjacency \<Rightarrow> ('a \<times> 'a) set" where
  "adj_rel adj = {(u, v). v \<in> set (succs adj u)}"

definition adj_nodes :: "'a adjacency \<Rightarrow> 'a set" where
  "adj_nodes adj = fst ` set adj"

lemma finite_adj_nodes [simp]: "finite (adj_nodes adj)"
  by (simp add: adj_nodes_def)

lemma succs_outside: "n \<notin> adj_nodes adj \<Longrightarrow> succs adj n = []"
  by (auto simp: succs_def adj_nodes_def nullish_def map_of_eq_None_iff split: option.split dest: map_of_SomeD)
    (metis fst_conv image_eqI map_of_SomeD)

definition color_set :: "('a \<Rightarrow> color) \<Rightarrow> 'a \<Rightarrow> color \<Rightarrow> 'a \<Rightarrow> color" where
  "color_set color n c = color(n := c)"

lemma color_set_apply [simp]: "color_set color n c m = (if m = n then c else color m)"
  by (simp add: color_set_def)

text \<open>
  The colour map is read as \<open>color.get(n) ?? WHITE\<close>, so it is a total function. The loop over
  the successors of a node, with the recursive \<open>visit(next)\<close> written out (it greys the node,
  visits its successors and blackens it); \<open>True\<close> is the early return on a back edge.
\<close>

function visit_nexts :: "'a adjacency \<Rightarrow> ('a \<Rightarrow> color) \<Rightarrow> 'a list \<Rightarrow> bool \<times> ('a \<Rightarrow> color)" where
  "visit_nexts adj color [] = (False, color)"
| "visit_nexts adj color (nx # rest) =
     (if color nx = GRAY then (True, color)
      else if color nx = WHITE then
        (case visit_nexts adj (color_set color nx GRAY) (succs adj nx) of
           (True, color') \<Rightarrow> (True, color')
         | (False, color') \<Rightarrow> visit_nexts adj (color_set color' nx BLACK) rest)
      else visit_nexts adj color rest)"
  by pat_completeness auto

text \<open>Colours never return to white: what the termination argument needs of the inner call.\<close>

lemma visit_nexts_keeps_colored:
  "visit_nexts_dom (adj, color, ns) \<Longrightarrow> color n \<noteq> WHITE \<Longrightarrow> snd (visit_nexts adj color ns) n \<noteq> WHITE"
proof (induction adj color ns rule: visit_nexts.pinduct)
  case (1 adj color)
  then show ?case by (simp add: visit_nexts.psimps)
next
  case (2 adj color nx rest)
  show ?case
  proof (cases "color nx = WHITE")
    case True
    then have ng: "color nx \<noteq> GRAY" by simp
    obtain b c' where r: "visit_nexts adj (color_set color nx GRAY) (succs adj nx) = (b, c')"
      by fastforce
    have "snd (visit_nexts adj (color_set color nx GRAY) (succs adj nx)) n \<noteq> WHITE"
      by (rule "2.IH"(1) [OF ng True]) (use "2.prems" in simp)
    then have c': "c' n \<noteq> WHITE" by (simp add: r)
    have "snd (visit_nexts adj (color_set c' nx BLACK) rest) n \<noteq> WHITE" if nb: "b = False"
      by (rule "2.IH"(2) [OF ng True r [symmetric]]) (use c' nb in simp_all)
    moreover have "visit_nexts adj color (nx # rest) =
        (if b then (True, c') else visit_nexts adj (color_set c' nx BLACK) rest)"
      using True "2.hyps" r by (simp add: visit_nexts.psimps)
    ultimately show ?thesis using c' by (cases b) simp_all
  next
    case False
    then show ?thesis
      using "2.hyps" "2.prems" "2.IH"(3) by (simp add: visit_nexts.psimps)
  qed
qed

definition white_nodes :: "'a adjacency \<Rightarrow> ('a \<Rightarrow> color) \<Rightarrow> 'a set" where
  "white_nodes adj color = {n \<in> adj_nodes adj. color n = WHITE}"

lemma finite_white_nodes [simp]: "finite (white_nodes adj color)"
  by (simp add: white_nodes_def)

lemma white_after_gray:
  "color n = WHITE \<Longrightarrow> n \<in> adj_nodes adj \<Longrightarrow>
     white_nodes adj (color_set color n GRAY) \<subset> white_nodes adj color"
  by (auto simp: white_nodes_def)

lemma white_outside:
  "n \<notin> adj_nodes adj \<Longrightarrow> white_nodes adj (color_set color n c) = white_nodes adj color"
  by (auto simp: white_nodes_def)

lemma white_after_black:
  assumes "visit_nexts_dom (adj, color_set color nx GRAY, ns)"
    and "visit_nexts adj (color_set color nx GRAY) ns = (b, color')"
  shows "white_nodes adj (color_set color' nx BLACK) \<subseteq> white_nodes adj color"
proof
  fix n
  assume n: "n \<in> white_nodes adj (color_set color' nx BLACK)"
  then have "n \<noteq> nx" and "color' n = WHITE" and "n \<in> adj_nodes adj"
    by (auto simp: white_nodes_def split: if_splits)
  moreover have "color n = WHITE"
    using visit_nexts_keeps_colored [OF assms(1), of n] assms(2) \<open>n \<noteq> nx\<close> \<open>color' n = WHITE\<close> by auto
  ultimately show "n \<in> white_nodes adj color" by (simp add: white_nodes_def)
qed

termination visit_nexts
proof (relation "inv_image (finite_psubset <*lex*> less_than)
    (\<lambda>(adj, color, ns). (white_nodes adj color, length ns))", goal_cases)
  case 1
  show ?case by auto
next
  case (2 adj color nx rest)
  then show ?case
    using white_after_gray [of color nx adj] white_outside [of nx adj color GRAY] succs_outside [of nx adj]
    by (cases "nx \<in> adj_nodes adj") (simp_all add: finite_psubset_def)
next
  case (3 adj color nx rest x y)
  then have "white_nodes adj (color_set y nx BLACK) \<subseteq> white_nodes adj color"
    using white_after_black [of adj color nx "succs adj nx" x y] by simp
  then show ?case by (auto simp: finite_psubset_def)
next
  case (4 adj color nx rest)
  then show ?case by simp
qed

definition visit :: "'a adjacency \<Rightarrow> ('a \<Rightarrow> color) \<Rightarrow> 'a \<Rightarrow> bool \<times> ('a \<Rightarrow> color)" where
  "visit adj color node =
     (case visit_nexts adj (color_set color node GRAY) (succs adj node) of
        (True, color') \<Rightarrow> (True, color')
      | (False, color') \<Rightarrow> (False, color_set color' node BLACK))"

fun cycle_from :: "'a adjacency \<Rightarrow> ('a \<Rightarrow> color) \<Rightarrow> 'a list \<Rightarrow> bool" where
  "cycle_from adj color [] = False"
| "cycle_from adj color (node # rest) =
     (if color node = WHITE then
        (case visit adj color node of
           (True, _) \<Rightarrow> True
         | (False, color') \<Rightarrow> cycle_from adj color' rest)
      else cycle_from adj color rest)"

definition hasCycle :: "'a adjacency \<Rightarrow> bool" where
  "hasCycle adj = cycle_from adj (\<lambda>_. WHITE) (map fst adj)"

section \<open>Correctness of the search\<close>

text \<open>A search that finds no back edge only turns white nodes black, all requested ones included.\<close>

definition blackens :: "('a \<Rightarrow> color) \<Rightarrow> ('a \<Rightarrow> color) \<Rightarrow> bool" where
  "blackens color color' \<longleftrightarrow> (\<forall>n. color' n = color n \<or> color n = WHITE \<and> color' n = BLACK)"

lemma blackens_refl: "blackens c c"
  by (simp add: blackens_def)

lemma blackens_around:
  assumes "blackens (color_set color n GRAY) color'" and "color n = WHITE"
  shows "blackens color (color_set color' n BLACK)"
  unfolding blackens_def
proof
  fix m
  show "color_set color' n BLACK m = color m \<or> color m = WHITE \<and> color_set color' n BLACK m = BLACK"
    using assms spec [OF assms(1) [unfolded blackens_def], of m] by (cases "m = n") auto
qed

lemma blackens_trans: "blackens a b \<Longrightarrow> blackens b c \<Longrightarrow> blackens a c"
  unfolding blackens_def by metis

lemma visit_nexts_blackens:
  "visit_nexts adj color ns = (False, color') \<Longrightarrow>
     blackens color color' \<and> (\<forall>n \<in> set ns. color' n = BLACK)"
proof (induction adj color ns arbitrary: color' rule: visit_nexts.induct)
  case (1 adj color)
  then show ?case by (simp add: blackens_refl)
next
  case (2 adj color nx rest)
  then have ng: "color nx \<noteq> GRAY" by (auto split: if_splits)
  show ?case
  proof (cases "color nx = WHITE")
    case True
    with "2.prems" obtain c1 where
      r1: "visit_nexts adj (color_set color nx GRAY) (succs adj nx) = (False, c1)"
      and r2: "visit_nexts adj (color_set c1 nx BLACK) rest = (False, color')"
      by (auto split: prod.splits bool.splits)
    have "blackens color (color_set c1 nx BLACK)"
      using "2.IH"(1) [OF ng True r1] True by (blast intro: blackens_around)
    moreover have b2: "blackens (color_set c1 nx BLACK) color' \<and> (\<forall>n \<in> set rest. color' n = BLACK)"
      by (rule "2.IH"(2) [OF ng True r1 [symmetric] _ r2]) simp
    moreover have "color' nx = BLACK"
      using b2 unfolding blackens_def by (metis color_set_apply color.distinct(3))
    ultimately show ?thesis by (auto intro: blackens_trans)
  next
    case False
    with ng have "color nx = BLACK" by (cases "color nx") auto
    moreover from False ng "2.prems" have "visit_nexts adj color rest = (False, color')" by simp
    then have "blackens color color' \<and> (\<forall>n \<in> set rest. color' n = BLACK)"
      by (rule "2.IH"(3) [OF ng False])
    ultimately show ?thesis unfolding blackens_def by (auto, metis color.distinct(3))
  qed
qed

text \<open>
  Soundness. While the successors of \<open>u\<close> are visited, every grey node reaches \<open>u\<close>; a grey
  successor therefore closes a cycle.
\<close>

lemma visit_nexts_sound:
  "visit_nexts adj color ns = (True, color') \<Longrightarrow> set ns \<subseteq> set (succs adj u) \<Longrightarrow>
     (\<And>g. color g = GRAY \<Longrightarrow> (g, u) \<in> (adj_rel adj)\<^sup>*) \<Longrightarrow> \<exists>n. (n, n) \<in> (adj_rel adj)\<^sup>+"
proof (induction adj color ns arbitrary: u color' rule: visit_nexts.induct)
  case (1 adj color)
  then show ?case by simp
next
  case (2 adj color nx rest)
  have edge: "(u, nx) \<in> adj_rel adj" using "2.prems"(2) by (auto simp: adj_rel_def)
  consider (g) "color nx = GRAY" | (w) "color nx = WHITE" | (b) "color nx = BLACK"
    by (cases "color nx") auto
  then show ?case
  proof cases
    case g
    then have "(nx, u) \<in> (adj_rel adj)\<^sup>*" by (rule "2.prems"(3))
    with edge show ?thesis by (meson rtrancl_into_trancl2)
  next
    case w
    then have ng: "color nx \<noteq> GRAY" by simp
    obtain b c1 where r1: "visit_nexts adj (color_set color nx GRAY) (succs adj nx) = (b, c1)"
      by fastforce
    have gray: "color_set color nx GRAY g = GRAY \<Longrightarrow> (g, nx) \<in> (adj_rel adj)\<^sup>*" for g
      using "2.prems"(3) [of g] edge by (cases "g = nx") (auto intro: rtrancl_into_rtrancl)
    show ?thesis
    proof (cases b)
      case True
      with r1 have "visit_nexts adj (color_set color nx GRAY) (succs adj nx) = (True, c1)" by simp
      then show ?thesis using gray by (rule "2.IH"(1) [OF ng w _ subset_refl])
    next
      case False
      with r1 have bl: "blackens (color_set color nx GRAY) c1"
        using visit_nexts_blackens [of adj "color_set color nx GRAY" "succs adj nx" c1] by simp
      have r2: "visit_nexts adj (color_set c1 nx BLACK) rest = (True, color')"
        using "2.prems"(1) w r1 False by simp
      have "color_set c1 nx BLACK g = GRAY \<Longrightarrow> (g, u) \<in> (adj_rel adj)\<^sup>*" for g
        using "2.prems"(3) [of g] spec [OF bl [unfolded blackens_def], of g] by (auto split: if_splits)
      moreover have "set rest \<subseteq> set (succs adj u)" using "2.prems"(2) by simp
      ultimately show ?thesis
        using "2.IH"(2) [OF ng w r1 [symmetric] _ r2, of u] False by blast
    qed
  next
    case b
    then show ?thesis using "2.IH"(3) [of color' u] "2.prems" by simp
  qed
qed

text \<open>
  Completeness. The black nodes are closed under successors and lie on no cycle.
\<close>

definition black_inv :: "'a adjacency \<Rightarrow> ('a \<Rightarrow> color) \<Rightarrow> bool" where
  "black_inv adj color \<longleftrightarrow>
     (\<forall>b. color b = BLACK \<longrightarrow> set (succs adj b) \<subseteq> {v. color v = BLACK} \<and> (b, b) \<notin> (adj_rel adj)\<^sup>+)"

lemma black_closed:
  assumes "black_inv adj color" and "(b, v) \<in> (adj_rel adj)\<^sup>*" and "color b = BLACK"
  shows "color v = BLACK"
  using assms(2,3,1)
proof (induction rule: rtrancl_induct)
  case (step y z)
  then have "color y = BLACK" by blast
  with step show ?case unfolding black_inv_def adj_rel_def by blast
qed simp

lemma black_inv_gray:
  "black_inv adj color \<Longrightarrow> color n = WHITE \<Longrightarrow> black_inv adj (color_set color n GRAY)"
  unfolding black_inv_def by (fastforce split: if_splits)

lemma black_inv_blacken:
  assumes inv: "black_inv adj color" and g: "color n = GRAY"
    and s: "\<forall>v \<in> set (succs adj n). color v = BLACK"
  shows "black_inv adj (color_set color n BLACK)"
proof -
  have "(n, n) \<notin> (adj_rel adj)\<^sup>+"
  proof
    assume "(n, n) \<in> (adj_rel adj)\<^sup>+"
    then obtain v where "(n, v) \<in> adj_rel adj" and v: "(v, n) \<in> (adj_rel adj)\<^sup>*"
      by (meson tranclD)
    then have "color v = BLACK" using s by (simp add: adj_rel_def)
    then have "color n = BLACK" by (rule black_closed [OF inv v])
    with g show False by simp
  qed
  with inv s show ?thesis unfolding black_inv_def by (auto split: if_splits)
qed

lemma visit_nexts_complete:
  "visit_nexts adj color ns = (False, color') \<Longrightarrow> black_inv adj color \<Longrightarrow> black_inv adj color'"
proof (induction adj color ns arbitrary: color' rule: visit_nexts.induct)
  case (1 adj color)
  then show ?case by simp
next
  case (2 adj color nx rest)
  then have ng: "color nx \<noteq> GRAY" by (auto split: if_splits)
  show ?case
  proof (cases "color nx = WHITE")
    case True
    with "2.prems"(1) obtain c1 where
      r1: "visit_nexts adj (color_set color nx GRAY) (succs adj nx) = (False, c1)"
      and r2: "visit_nexts adj (color_set c1 nx BLACK) rest = (False, color')"
      by (auto split: prod.splits bool.splits)
    have i1: "black_inv adj c1"
      by (rule "2.IH"(1) [OF ng True r1 black_inv_gray [OF "2.prems"(2) True]])
    have bl: "blackens (color_set color nx GRAY) c1 \<and> (\<forall>n \<in> set (succs adj nx). c1 n = BLACK)"
      by (rule visit_nexts_blackens [OF r1])
    then have "c1 nx = GRAY"
      using spec [OF conjunct1 [OF bl, unfolded blackens_def], of nx] by simp
    then have "black_inv adj (color_set c1 nx BLACK)"
      using black_inv_blacken [OF i1] bl by blast
    then show ?thesis by (rule "2.IH"(2) [OF ng True r1 [symmetric] refl r2])
  next
    case False
    with ng "2.prems" "2.IH"(3) show ?thesis by simp
  qed
qed

lemma visit_back_edge:
  assumes "visit_nexts adj (color_set color node GRAY) (succs adj node) = (True, color')"
    and "\<And>n. color n \<noteq> GRAY"
  shows "\<exists>n. (n, n) \<in> (adj_rel adj)\<^sup>+"
proof (rule visit_nexts_sound [OF assms(1) subset_refl])
  fix g
  assume "color_set color node GRAY g = GRAY"
  with assms(2) [of g] have "g = node" by (simp split: if_splits)
  then show "(g, node) \<in> (adj_rel adj)\<^sup>*" by simp
qed

lemma visit_finished:
  assumes r: "visit_nexts adj (color_set color node GRAY) (succs adj node) = (False, c1)"
    and w: "color node = WHITE" and i: "black_inv adj color"
  shows "black_inv adj (color_set c1 node BLACK) \<and> blackens color (color_set c1 node BLACK)"
proof -
  have bl: "blackens (color_set color node GRAY) c1 \<and> (\<forall>n \<in> set (succs adj node). c1 n = BLACK)"
    by (rule visit_nexts_blackens [OF r])
  have i1: "black_inv adj c1"
    by (rule visit_nexts_complete [OF r black_inv_gray [OF i w]])
  have "c1 node = GRAY"
    using spec [OF conjunct1 [OF bl, unfolded blackens_def], of node] by simp
  then show ?thesis
    using black_inv_blacken [OF i1] blackens_around [of color node c1] bl w by blast
qed

lemma visit_cases:
  assumes "visit adj color node = (b, color')" and "color node = WHITE" and "\<And>n. color n \<noteq> GRAY"
    and "black_inv adj color"
  shows "if b then \<exists>n. (n, n) \<in> (adj_rel adj)\<^sup>+
    else black_inv adj color' \<and> blackens color color' \<and> color' node = BLACK"
proof (cases "visit_nexts adj (color_set color node GRAY) (succs adj node)")
  case (Pair b1 c1)
  show ?thesis
  proof (cases b1)
    case True
    then show ?thesis
      using visit_back_edge [of adj color node c1] assms(1,3) Pair by (simp add: visit_def)
  next
    case False
    then have "visit_nexts adj (color_set color node GRAY) (succs adj node) = (False, c1)"
      using Pair by simp
    from visit_finished [OF this assms(2,4)] this assms(1) show ?thesis by (auto simp: visit_def)
  qed
qed

lemma cycle_from_cases:
  assumes "\<And>n. color n \<noteq> GRAY" and "black_inv adj color"
  shows "if cycle_from adj color ns then \<exists>n. (n, n) \<in> (adj_rel adj)\<^sup>+
    else \<exists>color'. black_inv adj color' \<and> blackens color color' \<and> (\<forall>n \<in> set ns. color' n = BLACK)"
  using assms
proof (induction ns arbitrary: color)
  case Nil
  then show ?case by (auto intro: blackens_refl)
next
  case (Cons n ns)
  show ?case
  proof (cases "color n = WHITE")
    case True
    obtain b c1 where r: "visit adj color n = (b, c1)" by fastforce
    note v = visit_cases [OF r True Cons.prems]
    show ?thesis
    proof (cases b)
      case True
      with v r \<open>color n = WHITE\<close> show ?thesis by simp
    next
      case False
      with v have i: "black_inv adj c1" and bl: "blackens color c1" and n: "c1 n = BLACK" by auto
      have ng: "c1 m \<noteq> GRAY" for m
        using bl Cons.prems(1) [of m] unfolding blackens_def by (metis color.distinct(5))
      have black: "blackens c1 c2 \<Longrightarrow> c2 n = BLACK" for c2
        using n unfolding blackens_def by (metis color.distinct(3))
      from Cons.IH [OF ng i] r \<open>color n = WHITE\<close> False show ?thesis
        using black by (auto intro: blackens_trans [OF bl] split: if_splits)
    qed
  next
    case False
    with Cons.prems(1) have n: "color n = BLACK" by (cases "color n") auto
    have black: "blackens color c2 \<Longrightarrow> c2 n = BLACK" for c2
      using n unfolding blackens_def by (metis color.distinct(3))
    from Cons.IH [OF Cons.prems] False show ?thesis using black by (auto split: if_splits)
  qed
qed

lemma hasCycle_correct: "hasCycle adj \<longleftrightarrow> (\<exists>n. (n, n) \<in> (adj_rel adj)\<^sup>+)"
proof -
  have "black_inv adj (\<lambda>_. WHITE)" by (simp add: black_inv_def)
  note c = cycle_from_cases [OF _ this, of "map fst adj"]
  show ?thesis
  proof (cases "hasCycle adj")
    case True
    with c show ?thesis by (simp add: hasCycle_def)
  next
    case False
    with c obtain color' where i: "black_inv adj color'" and b: "\<forall>n \<in> set (map fst adj). color' n = BLACK"
      by (auto simp: hasCycle_def)
    have "(n, n) \<notin> (adj_rel adj)\<^sup>+" for n
    proof
      assume cyc: "(n, n) \<in> (adj_rel adj)\<^sup>+"
      then obtain v where "(n, v) \<in> adj_rel adj" by (meson tranclD)
      then have "n \<in> adj_nodes adj" using succs_outside [of n adj] by (force simp: adj_rel_def)
      then have "color' n = BLACK" using b by (auto simp: adj_nodes_def)
      with i cyc show False by (auto simp: black_inv_def)
    qed
    with False show ?thesis by blast
  qed
qed

section \<open>The interface the validator relies on\<close>

locale cycle_checker =
  fixes check :: "'a adjacency \<Rightarrow> bool"
  assumes check_iff: "check adj \<longleftrightarrow> (\<exists>n. (n, n) \<in> (adj_rel adj)\<^sup>+)"
begin

lemma accepted_acyclic: "\<not> check adj \<Longrightarrow> acyclic (adj_rel adj)"
  by (auto simp: check_iff acyclic_def)

lemma finite_adj_rel: "finite (adj_rel adj)"
proof -
  have "adj_rel adj \<subseteq> adj_nodes adj \<times> (\<Union>n \<in> adj_nodes adj. set (succs adj n))"
  proof clarify
    fix u v
    assume "(u, v) \<in> adj_rel adj"
    then have v: "v \<in> set (succs adj u)" by (simp add: adj_rel_def)
    then have "u \<in> adj_nodes adj" using succs_outside [of u adj] by (cases "u \<in> adj_nodes adj") auto
    with v show "u \<in> adj_nodes adj \<and> v \<in> (\<Union>n \<in> adj_nodes adj. set (succs adj n))" by blast
  qed
  then show ?thesis by (rule finite_subset) simp
qed

text \<open>An accepted graph has no infinite walk: following successors always ends.\<close>

lemma accepted_wf: "\<not> check adj \<Longrightarrow> wf ((adj_rel adj)\<inverse>)"
  by (rule finite_acyclic_wf_converse [OF finite_adj_rel accepted_acyclic])

text \<open>It has a rank that decreases along every edge: the number of nodes reachable from a node.\<close>

lemma accepted_rank:
  assumes "\<not> check adj"
  shows "\<exists>rank :: 'a \<Rightarrow> nat. \<forall>(u, v) \<in> adj_rel adj. rank v < rank u"
proof -
  let ?R = "(adj_rel adj)\<^sup>+"
  have fin: "finite (?R `` {u})" for u
    by (rule finite_subset [of _ "snd ` ?R"]) (force, simp add: finite_trancl finite_adj_rel)
  have "card (?R `` {v}) < card (?R `` {u})" if "(u, v) \<in> adj_rel adj" for u v
  proof (rule psubset_card_mono [OF fin])
    have "v \<notin> ?R `` {v}" using assms by (auto simp: check_iff)
    moreover have "v \<in> ?R `` {u}" using that by auto
    moreover have "?R `` {v} \<subseteq> ?R `` {u}" using that by (auto intro: trancl_into_trancl2)
    ultimately show "?R `` {v} \<subset> ?R `` {u}" by blast
  qed
  then show ?thesis by (intro exI [of _ "\<lambda>u. card (?R `` {u})"]) auto
qed

end

interpretation dfs: cycle_checker hasCycle
  by unfold_locales (rule hasCycle_correct)

section \<open>Properties\<close>

text \<open>
  C24. The cycle check is exact: the three-colour search terminates on every adjacency map
  (unknown targets and repeated edges included) and reports a cycle exactly when some node
  reaches itself along one or more edges.
\<close>

theorem hasCycle_iff_cycle: "hasCycle adj \<longleftrightarrow> (\<exists>n. (n, n) \<in> (adj_rel adj)\<^sup>+)"
  by (rule hasCycle_correct)

text \<open>
  What acceptance buys: on a graph the check accepts there is a rank that strictly decreases
  along every edge, so every chain of dependencies, anchors or parents is finite.
\<close>

theorem accepted_graph_has_rank:
  assumes "\<not> hasCycle adj"
  shows "\<exists>rank :: 'a \<Rightarrow> nat. \<forall>u v. v \<in> set (succs adj u) \<longrightarrow> rank v < rank u"
  using dfs.accepted_rank [OF assms] by (auto simp: adj_rel_def)

theorem accepted_graph_has_rank_witness:
  "\<not> hasCycle [(''a'', [''b'', ''c'']), (''b'', [''c'']), (''c'', [])]
   \<and> (\<exists>rank :: string \<Rightarrow> nat. rank ''c'' < rank ''b'' \<and> rank ''b'' < rank ''a'')"
proof -
  let ?g = "[(''a'', [''b'', ''c'']), (''b'', [''c'']), (''c'', [])]"
  have n: "\<not> hasCycle ?g" by (simp add: hasCycle_def visit_def succs_def)
  from accepted_graph_has_rank [OF n] obtain rank :: "string \<Rightarrow> nat"
    where "\<forall>u v. v \<in> set (succs ?g u) \<longrightarrow> rank v < rank u" by blast
  then have "rank ''c'' < rank ''b''" and "rank ''b'' < rank ''a''" by (simp_all add: succs_def)
  with n show ?thesis by blast
qed

end
