(* ===== verification/Wf_Scope.thy ===== *)
theory Wf_Scope
  imports Wf_Prelude
begin

text \<open>
  Ownership and delegation: \<^verbatim>\<open>packages/workflows/src/scope/resource-ref.ts\<close> (read visibility,
  manage authorization and the project write gate of workflow and template rows) and
  \<^verbatim>\<open>packages/workflows/src/scope/execution-actor.ts\<close> (the delegated actor of the reconciler and the
  provenance of child agent runs). A column that may be null or absent is an option.
\<close>

section \<open>Rows, actors and resource references (scope/resource-ref.ts)\<close>

record resource_ref =
  rr_level :: "string option"
  rr_ownerId :: "ident option"
  rr_organizationId :: "ident option"
  rr_projectId :: "ident option"

record scoped_row =
  sr_orgId :: ident
  sr_ownerLevel :: "string option"
  sr_ownerId :: "ident option"
  sr_projectId :: "ident option"

record workflow_actor =
  wa_organizationId :: "ident option"
  wa_userId :: "ident option"
  wa_teamIds :: "ident list option"
  wa_projectIds :: "ident list option"
  wa_orgRole :: "string option"
  wa_platformRole :: "string option"

definition buildWorkflowResourceRef :: "scoped_row \<Rightarrow> resource_ref" where
  "buildWorkflowResourceRef row =
     \<lparr>rr_level = sr_ownerLevel row, rr_ownerId = sr_ownerId row,
      rr_organizationId = Some (sr_orgId row), rr_projectId = sr_projectId row\<rparr>"

definition platform_admin :: "workflow_actor \<Rightarrow> bool" where
  "platform_admin actor \<longleftrightarrow> wa_platformRole actor = Some ''platform_admin''"

definition same_org :: "scoped_row \<Rightarrow> workflow_actor \<Rightarrow> bool" where
  "same_org row actor \<longleftrightarrow>
     truthy (wa_organizationId actor) \<and> Some (sr_orgId row) = wa_organizationId actor"

text \<open>\<open>Boolean(row.ownerId && actor.userId && row.ownerId === actor.userId)\<close>.\<close>

definition owned_by_user :: "scoped_row \<Rightarrow> workflow_actor \<Rightarrow> bool" where
  "owned_by_user row actor \<longleftrightarrow>
     truthy (sr_ownerId row) \<and> truthy (wa_userId actor) \<and> sr_ownerId row = wa_userId actor"

text \<open>\<open>Boolean(row.ownerId && actor.teamIds?.includes(row.ownerId))\<close>.\<close>

definition owned_by_team :: "scoped_row \<Rightarrow> workflow_actor \<Rightarrow> bool" where
  "owned_by_team row actor \<longleftrightarrow>
     (case sr_ownerId row of None \<Rightarrow> False | Some o' \<Rightarrow> o' \<noteq> [] \<and> arr_includes (wa_teamIds actor) o')"

definition project_granted :: "scoped_row \<Rightarrow> workflow_actor \<Rightarrow> bool" where
  "project_granted row actor \<longleftrightarrow>
     (case sr_projectId row of None \<Rightarrow> False | Some p \<Rightarrow> arr_includes (wa_projectIds actor) p)"

definition isReadable :: "scoped_row \<Rightarrow> workflow_actor \<Rightarrow> bool" where
  "isReadable row actor \<longleftrightarrow>
     (if platform_admin actor then True
      else if \<not> same_org row actor then False
      else if truthy (sr_projectId row) then project_granted row actor
      else if sr_ownerLevel row = Some ''workspace'' \<or> sr_ownerLevel row = Some ''organization'' then True
      else if sr_ownerLevel row = Some ''team'' then owned_by_team row actor
      else if sr_ownerLevel row = Some ''user'' then owned_by_user row actor
      else True)"

definition filterReadable :: "scoped_row list \<Rightarrow> workflow_actor \<Rightarrow> scoped_row list" where
  "filterReadable rows actor = filter (\<lambda>r. isReadable r actor) rows"

definition org_admin :: "workflow_actor \<Rightarrow> bool" where
  "org_admin actor \<longleftrightarrow>
     wa_orgRole actor = Some ''org_admin'' \<or> wa_orgRole actor = Some ''org_owner''"

definition canManage :: "scoped_row \<Rightarrow> workflow_actor \<Rightarrow> bool" where
  "canManage row actor \<longleftrightarrow>
     (if platform_admin actor then True
      else if \<not> same_org row actor then False
      else if truthy (sr_projectId row) \<and> \<not> project_granted row actor then False
      else if sr_ownerLevel row = Some ''user'' then owned_by_user row actor
      else if sr_ownerLevel row = Some ''team'' then owned_by_team row actor
      else org_admin actor)"

text \<open>
  \<^verbatim>\<open>assertWorkflowProjectWritable\<close>: the host's gate is a parameter that returns \<open>Inl\<close> where it
  throws; a row without a project is never passed to it.
\<close>

definition assertWorkflowProjectWritable ::
  "(ident \<Rightarrow> 'e + unit) \<Rightarrow> scoped_row \<Rightarrow> 'e + unit" where
  "assertWorkflowProjectWritable assertProjectWritable row =
     (case sr_projectId row of
        Some p \<Rightarrow> if p \<noteq> [] then assertProjectWritable p else Inr ()
      | None \<Rightarrow> Inr ())"

section \<open>The delegated execution actor (scope/execution-actor.ts)\<close>

definition WORKFLOW_EXECUTION_SOURCE :: string where
  "WORKFLOW_EXECUTION_SOURCE = ''workflow-reconciler''"

record execution_actor =
  ea_orgId :: ident
  ea_projectId :: "ident option"
  ea_runBy :: "ident option"
  ea_source :: string
  ea_workflowId :: ident

record workflow_provenance_row =
  wp_id :: ident
  wp_orgId :: ident
  wp_projectId :: "ident option"
  wp_createdBy :: "ident option"
  wp_ownerId :: "ident option"

definition buildExecutionActor :: "workflow_provenance_row \<Rightarrow> execution_actor" where
  "buildExecutionActor row =
     \<lparr>ea_orgId = wp_orgId row, ea_projectId = wp_projectId row,
      ea_runBy = (case wp_createdBy row of Some u \<Rightarrow> Some u | None \<Rightarrow> wp_ownerId row),
      ea_source = WORKFLOW_EXECUTION_SOURCE, ea_workflowId = wp_id row\<rparr>"

record child_run_provenance =
  cp_orgId :: ident
  cp_projectId :: "ident option"
  cp_runBy :: "ident option"
  cp_source :: string
  cp_workflowId :: ident
  cp_workflowTaskId :: ident

definition buildChildRunProvenance :: "execution_actor \<Rightarrow> ident \<Rightarrow> child_run_provenance" where
  "buildChildRunProvenance actor workflowTaskId =
     \<lparr>cp_orgId = ea_orgId actor, cp_projectId = ea_projectId actor, cp_runBy = ea_runBy actor,
      cp_source = ea_source actor, cp_workflowId = ea_workflowId actor,
      cp_workflowTaskId = workflowTaskId\<rparr>"

section \<open>The interface of an authorization predicate\<close>

text \<open>
  What handlers rely on of a predicate that decides access to a row: outside the platform
  administrators, access stays within the actor's tenant and, for a project row, within the
  actor's project grants.
\<close>

locale tenant_guard =
  fixes allowed :: "scoped_row \<Rightarrow> workflow_actor \<Rightarrow> bool"
  assumes tenant: "allowed row actor \<Longrightarrow> \<not> platform_admin actor \<Longrightarrow> same_org row actor"
    and project: "allowed row actor \<Longrightarrow> \<not> platform_admin actor \<Longrightarrow> truthy (sr_projectId row) \<Longrightarrow>
      project_granted row actor"
begin

lemma filter_within_tenant:
  "\<not> platform_admin actor \<Longrightarrow>
     set (filter (\<lambda>r. allowed r actor) rows) \<subseteq> {r \<in> set rows. wa_organizationId actor = Some (sr_orgId r)}"
  by (auto dest: tenant simp: same_org_def)

lemma no_org_no_rows:
  "\<not> platform_admin actor \<Longrightarrow> \<not> truthy (wa_organizationId actor) \<Longrightarrow> filter (\<lambda>r. allowed r actor) rows = []"
  by (auto simp: filter_empty_conv same_org_def dest: tenant)

lemma sealed_room:
  "\<not> platform_admin actor \<Longrightarrow> wa_projectIds actor = None \<or> wa_projectIds actor = Some [] \<Longrightarrow>
     set (filter (\<lambda>r. allowed r actor) rows) \<subseteq> {r. \<not> truthy (sr_projectId r)}"
  by (auto dest: project simp: project_granted_def arr_includes_def split: option.splits)

end

interpretation read_guard: tenant_guard isReadable
  by unfold_locales (auto simp: isReadable_def split: if_splits)

interpretation manage_guard: tenant_guard canManage
  by unfold_locales (auto simp: canManage_def split: if_splits)

section \<open>Properties\<close>



text \<open>
  Managing a row implies reading it, so the read check that the manage check asks its callers
  to make as well never refuses what the manage check allows.
\<close>

theorem manage_implies_read:
  assumes "canManage row actor"
  shows "isReadable row actor"
  using assms by (auto simp: canManage_def isReadable_def split: if_splits)

theorem manage_implies_read_witness:
  "isReadable \<lparr>sr_orgId = ''o'', sr_ownerLevel = None, sr_ownerId = None, sr_projectId = Some ''p''\<rparr>
     \<lparr>wa_organizationId = Some ''o'', wa_userId = None, wa_teamIds = None,
      wa_projectIds = Some [''p''], wa_orgRole = Some ''org_admin'', wa_platformRole = None\<rparr>"
  by (rule manage_implies_read)
    (simp add: canManage_def platform_admin_def same_org_def project_granted_def arr_includes_def org_admin_def)

end
