(* ===== verification/Wf_Rows.thy ===== *)
theory Wf_Rows
  imports Wf_Gates Wf_Scope
begin

text \<open>
  The persistent state of the workflow engine: the rows of
  \<^verbatim>\<open>packages/workflows/src/schema.ts\<close> as records, the tables as lists of rows in one database
  record, and the statements the engine issues against them.

  A status column has the enumeration of \<^verbatim>\<open>state/transitions.ts\<close> as its type; a JSON column is a
  value of type \<open>json\<close> (numbers are integers); a timestamp is a time value in milliseconds. A
  \<open>SELECT\<close> returns the rows in table order; every statement below is defined for arbitrary
  tables, so nothing rests on a particular order. The functions of the platform that the engine
  calls are the parameter \<open>env\<close>: the sequence of values \<^verbatim>\<open>randomUUID()\<close> returns, the wall clock
  during one transaction, the SHA-256 digest, the collation key of \<^verbatim>\<open>localeCompare\<close>, and the id of
  the process (\<^verbatim>\<open>LEASE_HOLDER_ID\<close>).
\<close>

section \<open>JSON\<close>

datatype json =
    JNull
  | JBool bool
  | JNum int
  | JStr string
  | JArr "json list"
  | JObj "(string \<times> json) list"

text \<open>\<^verbatim>\<open>JSON.stringify\<close>.\<close>

definition hex_digit :: "nat \<Rightarrow> char" where
  "hex_digit d = char_of (if d < 10 then 48 + d else 87 + d)"

definition json_char :: "char \<Rightarrow> string" where
  "json_char c =
     (let n = (of_char c :: nat)
      in if n = 34 then [char_of (92 :: nat), char_of (34 :: nat)]
         else if n = 92 then [char_of (92 :: nat), char_of (92 :: nat)]
         else if n = 8 then char_of (92 :: nat) # ''b''
         else if n = 9 then char_of (92 :: nat) # ''t''
         else if n = 10 then char_of (92 :: nat) # ''n''
         else if n = 12 then char_of (92 :: nat) # ''f''
         else if n = 13 then char_of (92 :: nat) # ''r''
         else if n < 32 then char_of (92 :: nat) # ''u00'' @ [hex_digit (n div 16), hex_digit (n mod 16)]
         else [c])"

definition json_string :: "string \<Rightarrow> string" where
  "json_string s = [char_of (34 :: nat)] @ concat (map json_char s) @ [char_of (34 :: nat)]"

fun json_text :: "json \<Rightarrow> string" where
  "json_text JNull = ''null''"
| "json_text (JBool b) = (if b then ''true'' else ''false'')"
| "json_text (JNum i) = show_int i"
| "json_text (JStr s) = json_string s"
| "json_text (JArr xs) = ''['' @ js_join '','' (map json_text xs) @ '']''"
| "json_text (JObj kvs) =
     ''{'' @ js_join '','' (map (\<lambda>(k, v). json_string k @ '':'' @ json_text v) kvs) @ ''}''"

definition json_of_string :: "string option \<Rightarrow> json" where
  "json_of_string s = (case s of None \<Rightarrow> JNull | Some x \<Rightarrow> JStr x)"

text \<open>\<open>new Map(entries)\<close>: a later entry for the same key wins.\<close>

definition js_map :: "('k \<times> 'v) list \<Rightarrow> 'k \<rightharpoonup> 'v" where
  "js_map kvs = map_of (rev kvs)"

lemma js_map_distinct: "distinct (map fst kvs) \<Longrightarrow> js_map kvs = map_of kvs"
  unfolding js_map_def
  by (metis (no_types, lifting) distinct_rev map_of_eq_Some_iff not_None_eq rev_map set_rev ext option.exhaust)

section \<open>Rows (schema.ts)\<close>

record workflow_row =
  w_id :: ident
  w_sourceTemplateId :: "ident option"
  w_sourceTemplateVersion :: "int option"
  w_name :: string
  w_product :: "string option"
  w_targetAtUtc :: "instant option"
  w_targetTz :: "string option"
  w_status :: workflow_status
  w_ownerLevel :: "string option"
  w_ownerId :: "ident option"
  w_orgId :: ident
  w_projectId :: "ident option"
  w_createdBy :: "ident option"
  w_specVersion :: int
  w_lockVersion :: int
  w_createdAt :: instant
  w_updatedAt :: instant

datatype rollup_policy = AnyFails | BestEffort | AllOrNothing

record foreach_config =
  fe_source :: string
  fe_as :: string
  fe_itemKey :: "string option"
  fe_template :: "(string \<times> json) list"
  fe_rollupPolicy :: "rollup_policy option"
  fe_maxFanout :: "int option"

record task_row =
  t_id :: ident
  t_workflowId :: ident
  t_key :: string
  t_type :: string
  t_title :: string
  t_parentTaskId :: "ident option"
  t_assigneeLevel :: "string option"
  t_assigneeId :: "ident option"
  t_agentPackage :: "string option"
  t_agentRef :: "json option"
  t_input :: "json option"
  t_schedule :: "json option"
  t_anchor :: "json option"
  t_plannedStartUtc :: "instant option"
  t_plannedEndUtc :: "instant option"
  t_actualStartUtc :: "instant option"
  t_actualEndUtc :: "instant option"
  t_dueAtUtc :: "instant option"
  t_status :: task_status
  t_required :: bool
  t_failurePolicy :: "failure_policy option"
  t_missedWindowPolicy :: "string option"
  t_retryPolicy :: "json option"
  t_maxAttempts :: "int option"
  t_cancelPolicy :: "json option"
  t_runId :: "ident option"
  t_pinned :: bool
  t_risk :: "string option"
  t_foreachConfig :: "foreach_config option"
  t_metadata :: "(string \<times> json) list"
  t_lockVersion :: int
  t_createdAt :: instant
  t_updatedAt :: instant

record dependency_row =
  d_id :: ident
  d_workflowId :: ident
  d_taskId :: ident
  d_dependsOnTaskId :: ident
  d_outcome :: dependency_outcome

record gate_row =
  gr_id :: ident
  gr_workflowId :: ident
  gr_taskId :: ident
  gr_gateKind :: gate_kind
  gr_state :: gate_state
  gr_reason :: "string option"
  gr_blockerRefs :: "string list option"
  gr_evaluatedAt :: "instant option"

record event_row =
  ev_id :: ident
  ev_workflowId :: ident
  ev_taskId :: "ident option"
  ev_taskKey :: "string option"
  ev_kind :: string
  ev_payload :: "json option"
  ev_actorId :: "ident option"
  ev_source :: "string option"
  ev_idempotencyKey :: "string option"
  ev_createdAt :: instant

record attempt_row =
  a_id :: ident
  a_workflowId :: ident
  a_taskId :: ident
  a_attemptNo :: nat
  a_idempotencyKey :: string
  a_status :: attempt_status
  a_childRunId :: "ident option"
  a_error :: "json option"
  a_output :: "json option"
  a_startedAt :: "instant option"
  a_completedAt :: "instant option"
  a_createdAt :: instant
  a_updatedAt :: instant

record lease_row =
  l_id :: ident
  l_workflowId :: ident
  l_taskId :: ident
  l_attemptId :: ident
  l_holderId :: ident
  l_token :: string
  l_acquiredAt :: instant
  l_heartbeatAt :: instant
  l_expiresAt :: instant

record artifact_row =
  ar_id :: ident
  ar_workflowId :: ident
  ar_taskId :: ident
  ar_kind :: string
  ar_ref :: string
  ar_version :: int
  ar_pinned :: bool
  ar_authoringStepId :: "ident option"
  ar_createdAt :: instant

record approval_row =
  ap_id :: ident
  ap_workflowId :: ident
  ap_taskId :: ident
  ap_requiredScope :: json
  ap_resolvedApproverIds :: "ident list option"
  ap_solicitationSchedule :: "(string \<times> json) list option"
  ap_deadlineUtc :: "instant option"
  ap_reviewPacketHash :: "string option"
  ap_status :: approval_status
  ap_rejectionPolicy :: "string option"
  ap_invalidatedAt :: "instant option"
  ap_notificationState :: "(string \<times> json) list option"
  ap_decidedBy :: "ident option"
  ap_decidedAt :: "instant option"
  ap_reason :: "string option"
  ap_createdAt :: instant
  ap_updatedAt :: instant

section \<open>The database and the platform\<close>

record db =
  db_workflows :: "workflow_row list"
  db_tasks :: "task_row list"
  db_deps :: "dependency_row list"
  db_gates :: "gate_row list"
  db_events :: "event_row list"
  db_attempts :: "attempt_row list"
  db_leases :: "lease_row list"
  db_artifacts :: "artifact_row list"
  db_approvals :: "approval_row list"
  db_uuids :: nat  \<comment> \<open>how many values \<open>randomUUID()\<close> has returned\<close>

record env =
  e_uuid :: "nat \<Rightarrow> string"
  e_wall :: instant
  e_sha256 :: "string \<Rightarrow> string"
  e_collate :: "string \<Rightarrow> string"
  e_holder :: ident

definition randomUUID :: "env \<Rightarrow> db \<Rightarrow> string \<times> db" where
  "randomUUID E s = (e_uuid E (db_uuids s), s\<lparr>db_uuids := Suc (db_uuids s)\<rparr>)"

text \<open>\<^verbatim>\<open>const id = (p) => `${p}_${randomUUID()}`\<close>.\<close>

definition new_id :: "env \<Rightarrow> string \<Rightarrow> db \<Rightarrow> ident \<times> db" where
  "new_id E p s = (let (u, s') = randomUUID E s in (p @ ''_'' @ u, s'))"

definition find_workflow :: "db \<Rightarrow> ident \<Rightarrow> workflow_row option" where
  "find_workflow s wid = find (\<lambda>w. w_id w = wid) (db_workflows s)"

definition find_task :: "db \<Rightarrow> ident \<Rightarrow> task_row option" where
  "find_task s tid = find (\<lambda>t. t_id t = tid) (db_tasks s)"

definition find_attempt :: "db \<Rightarrow> ident \<Rightarrow> attempt_row option" where
  "find_attempt s aid = find (\<lambda>a. a_id a = aid) (db_attempts s)"

definition find_lease :: "db \<Rightarrow> ident \<Rightarrow> lease_row option" where
  "find_lease s tid = find (\<lambda>l. l_taskId l = tid) (db_leases s)"

definition tasks_of :: "db \<Rightarrow> ident \<Rightarrow> task_row list" where
  "tasks_of s wid = filter (\<lambda>t. t_workflowId t = wid) (db_tasks s)"

definition deps_of :: "db \<Rightarrow> ident \<Rightarrow> dependency_row list" where
  "deps_of s wid = filter (\<lambda>d. d_workflowId d = wid) (db_deps s)"

definition approvals_of :: "db \<Rightarrow> ident \<Rightarrow> approval_row list" where
  "approvals_of s wid = filter (\<lambda>a. ap_workflowId a = wid) (db_approvals s)"

text \<open>\<open>ORDER BY f DESC LIMIT 1\<close>.\<close>

definition top_by :: "('r \<Rightarrow> nat) \<Rightarrow> 'r list \<Rightarrow> 'r option" where
  "top_by f rs = (case sort_key (\<lambda>r. - int (f r)) rs of [] \<Rightarrow> None | r # _ \<Rightarrow> Some r)"

section \<open>Rows with the column defaults of the schema\<close>

definition new_task :: "ident \<Rightarrow> ident \<Rightarrow> string \<Rightarrow> string \<Rightarrow> task_row" where
  "new_task tid wid key ty =
     \<lparr>t_id = tid, t_workflowId = wid, t_key = key, t_type = ty, t_title = key,
      t_parentTaskId = None, t_assigneeLevel = None, t_assigneeId = None, t_agentPackage = None,
      t_agentRef = None, t_input = None, t_schedule = None, t_anchor = None,
      t_plannedStartUtc = None, t_plannedEndUtc = None, t_actualStartUtc = None,
      t_actualEndUtc = None, t_dueAtUtc = None, t_status = TIdle, t_required = True,
      t_failurePolicy = None, t_missedWindowPolicy = None, t_retryPolicy = None,
      t_maxAttempts = None, t_cancelPolicy = None, t_runId = None, t_pinned = False,
      t_risk = None, t_foreachConfig = None, t_metadata = [], t_lockVersion = 0,
      t_createdAt = 0, t_updatedAt = 0\<rparr>"

definition new_workflow :: "ident \<Rightarrow> ident \<Rightarrow> workflow_row" where
  "new_workflow wid org =
     \<lparr>w_id = wid, w_sourceTemplateId = None, w_sourceTemplateVersion = None, w_name = wid,
      w_product = None, w_targetAtUtc = None, w_targetTz = None, w_status = WDraft,
      w_ownerLevel = None, w_ownerId = None, w_orgId = org, w_projectId = None,
      w_createdBy = None, w_specVersion = 1, w_lockVersion = 0, w_createdAt = 0, w_updatedAt = 0\<rparr>"

definition new_approval :: "ident \<Rightarrow> ident \<Rightarrow> ident \<Rightarrow> json \<Rightarrow> approval_row" where
  "new_approval aid wid tid scope =
     \<lparr>ap_id = aid, ap_workflowId = wid, ap_taskId = tid, ap_requiredScope = scope,
      ap_resolvedApproverIds = None, ap_solicitationSchedule = None, ap_deadlineUtc = None,
      ap_reviewPacketHash = None, ap_status = ApPending, ap_rejectionPolicy = None,
      ap_invalidatedAt = None, ap_notificationState = None, ap_decidedBy = None,
      ap_decidedAt = None, ap_reason = None, ap_createdAt = 0, ap_updatedAt = 0\<rparr>"

definition empty_db :: db where
  "empty_db = \<lparr>db_workflows = [], db_tasks = [], db_deps = [], db_gates = [], db_events = [],
               db_attempts = [], db_leases = [], db_artifacts = [], db_approvals = [], db_uuids = 0\<rparr>"

text \<open>A concrete platform: the values of \<^verbatim>\<open>randomUUID()\<close> are the decimal numbers in turn.\<close>

definition demo_env :: "instant \<Rightarrow> env" where
  "demo_env now = \<lparr>e_uuid = show_nat, e_wall = now, e_sha256 = id, e_collate = id, e_holder = ''wfproc''\<rparr>"

section \<open>Optimistic updates\<close>

text \<open>
  \<open>UPDATE \<dots> SET f WHERE id = k AND lock_version = v [AND guard] RETURNING id\<close>: whether a row came
  back, and the table after the update.
\<close>

definition cas_update ::
  "('r \<Rightarrow> ident) \<Rightarrow> ('r \<Rightarrow> int) \<Rightarrow> ident \<Rightarrow> int \<Rightarrow> ('r \<Rightarrow> bool) \<Rightarrow> ('r \<Rightarrow> 'r) \<Rightarrow> 'r list \<Rightarrow> bool \<times> 'r list" where
  "cas_update key ver k v guard f rs =
     (let hit = (\<lambda>r. key r = k \<and> ver r = v \<and> guard r)
      in (list_ex hit rs, update_where hit f rs))"

definition cas_task :: "ident \<Rightarrow> int \<Rightarrow> (task_row \<Rightarrow> task_row) \<Rightarrow> db \<Rightarrow> bool \<times> db" where
  "cas_task tid v f s =
     (let (ok, ts) = cas_update t_id t_lockVersion tid v (\<lambda>_. True) f (db_tasks s)
      in (ok, s\<lparr>db_tasks := ts\<rparr>))"

definition cas_workflow ::
  "ident \<Rightarrow> int \<Rightarrow> (workflow_row \<Rightarrow> bool) \<Rightarrow> (workflow_row \<Rightarrow> workflow_row) \<Rightarrow> db \<Rightarrow> bool \<times> db" where
  "cas_workflow wid v guard f s =
     (let (ok, ws) = cas_update w_id w_lockVersion wid v guard f (db_workflows s)
      in (ok, s\<lparr>db_workflows := ws\<rparr>))"

text \<open>\<open>SET status = st, lock_version = v + 1, updated_at = now\<close> on a task and on a workflow.\<close>

definition set_task_status :: "env \<Rightarrow> task_status \<Rightarrow> int \<Rightarrow> task_row \<Rightarrow> task_row" where
  "set_task_status E st v t = t\<lparr>t_status := st, t_lockVersion := v + 1, t_updatedAt := e_wall E\<rparr>"

definition set_workflow_status :: "env \<Rightarrow> workflow_status \<Rightarrow> int \<Rightarrow> workflow_row \<Rightarrow> workflow_row" where
  "set_workflow_status E st v w = w\<lparr>w_status := st, w_lockVersion := v + 1, w_updatedAt := e_wall E\<rparr>"

text \<open>The actor built from a workflow row.\<close>

definition provenance_row :: "workflow_row \<Rightarrow> workflow_provenance_row" where
  "provenance_row w = \<lparr>wp_id = w_id w, wp_orgId = w_orgId w, wp_projectId = w_projectId w,
                       wp_createdBy = w_createdBy w, wp_ownerId = w_ownerId w\<rparr>"

definition actor_of :: "workflow_row \<Rightarrow> execution_actor" where
  "actor_of w = buildExecutionActor (provenance_row w)"

section \<open>The contract of optimistic updates\<close>

locale cas_table =
  fixes key :: "'r \<Rightarrow> ident"
    and ver :: "'r \<Rightarrow> int"
    and cas :: "ident \<Rightarrow> int \<Rightarrow> ('r \<Rightarrow> bool) \<Rightarrow> ('r \<Rightarrow> 'r) \<Rightarrow> 'r list \<Rightarrow> bool \<times> 'r list"
  assumes wins_iff: "fst (cas k v g f rs) \<longleftrightarrow> (\<exists>r \<in> set rs. key r = k \<and> ver r = v \<and> g r)"
    and table_after: "snd (cas k v g f rs) = map (\<lambda>r. if key r = k \<and> ver r = v \<and> g r then f r else r) rs"
begin

text \<open>Only the rows of the key change.\<close>

lemma others_kept: "r \<in> set rs \<Longrightarrow> key r \<noteq> k \<Longrightarrow> r \<in> set (snd (cas k v g f rs))"
  by (force simp: table_after)

lemma loser_changes_nothing: "\<not> fst (cas k v g f rs) \<Longrightarrow> snd (cas k v g f rs) = rs"
  by (force simp: wins_iff table_after intro: map_idI)

text \<open>
  No lost update: of two writers that observed the same version of a row, at most one wins, if a
  write keeps the key and moves the version.
\<close>

lemma one_winner:
  assumes keeps: "\<And>r. key (f r) = key r" and moves: "\<And>r. ver (f r) = v + 1"
    and dist: "distinct (map key rs)" and won: "fst (cas k v g f rs)"
  shows "\<not> fst (cas k v g' f' (snd (cas k v g f rs)))"
proof -
  from won obtain r where r: "r \<in> set rs" "key r = k" "ver r = v" "g r" by (auto simp: wins_iff)
  have "ver r' \<noteq> v" if "r' \<in> set (snd (cas k v g f rs))" "key r' = k" for r'
  proof -
    from that(1) obtain r0 where r0: "r0 \<in> set rs"
      "r' = (if key r0 = k \<and> ver r0 = v \<and> g r0 then f r0 else r0)"
      by (auto simp: table_after)
    with that(2) keeps have "key r0 = k" by (auto split: if_splits)
    with r r0(1) dist have "r0 = r" by (simp add: distinct_map inj_on_def)
    with r r0(2) moves show ?thesis by simp
  qed
  then show ?thesis by (auto simp: wins_iff)
qed

end

interpretation task_cas: cas_table t_id t_lockVersion "cas_update t_id t_lockVersion"
  by unfold_locales (auto simp: cas_update_def Let_def list_ex_iff update_where_def)

interpretation workflow_cas: cas_table w_id w_lockVersion "cas_update w_id w_lockVersion"
  by unfold_locales (auto simp: cas_update_def Let_def list_ex_iff update_where_def)

end
