(* ===== verification/Wf_Ops.thy ===== *)
theory Wf_Ops
  imports Wf_Rows "HOL-Library.Multiset"
begin

text \<open>
  The engine's small collaborators: operational parameters and retry backoff (\<^verbatim>\<open>engine/ops.ts\<close>),
  the executor registry (\<^verbatim>\<open>engine/executors.ts\<close>), the notification matrix
  (\<^verbatim>\<open>engine/notifications.ts\<close>) and the review-packet hash (\<^verbatim>\<open>state/review-packet.ts\<close>).
\<close>

section \<open>Operational parameters (engine/ops.ts)\<close>

text \<open>\<open>queueName\<close> from the two environment variables.\<close>

definition queueName :: "string option \<Rightarrow> string option \<Rightarrow> string" where
  "queueName workflows_queue_name bullmq_queue_name =
     nullish workflows_queue_name (nullish bullmq_queue_name ''cinatra-bg'' @ ''-workflows'')"

record engine_ops =
  op_tickEveryMs :: int
  op_maxConcurrentActive :: nat
  op_dispatchBatchCap :: nat
  op_defaultMaxAttempts :: int
  op_retryBackoffMs :: int
  op_stuckRunningMs :: int
  op_stuckAwaitingManualMs :: int
  op_crashRecoveryMs :: int
  op_dispatchLeaseTtlMs :: int
  op_dispatchLeaseHeartbeatMs :: int

definition ENGINE_OPS :: engine_ops where
  "ENGINE_OPS =
     \<lparr>op_tickEveryMs = 60000, op_maxConcurrentActive = 50, op_dispatchBatchCap = 100,
      op_defaultMaxAttempts = 3, op_retryBackoffMs = 60000, op_stuckRunningMs = 30 * 60000,
      op_stuckAwaitingManualMs = 7 * 24 * 60 * 60000, op_crashRecoveryMs = 2 * 60000,
      op_dispatchLeaseTtlMs = 2 * 60000, op_dispatchLeaseHeartbeatMs = 30000\<rparr>"

definition INSTANTANEOUS_EXECUTOR_TYPES :: "string list" where
  "INSTANTANEOUS_EXECUTOR_TYPES = [''checkpoint'', ''approval'', ''wait'', ''timer'', ''notification'']"

definition retryBackoffMs :: "nat \<Rightarrow> int" where
  "retryBackoffMs attemptNo = op_retryBackoffMs ENGINE_OPS * 2 ^ (attemptNo - 1)"

lemma engine_ops_simps [engine_ops]:
  "op_dispatchBatchCap ENGINE_OPS = 100"
  "op_defaultMaxAttempts ENGINE_OPS = 3"
  "op_maxConcurrentActive ENGINE_OPS = 50"
  "op_dispatchLeaseTtlMs ENGINE_OPS = 120000"
  "op_crashRecoveryMs ENGINE_OPS = 120000"
  by (simp_all add: ENGINE_OPS_def)

section \<open>The executor registry (engine/executors.ts)\<close>

datatype outcome_status = OutSucceeded | OutFailed | OutRunning

record executor_outcome =
  o_status :: outcome_status
  o_error :: "json option"
  o_childRunId :: "ident option"
  o_note :: "string option"

record executor_task =
  et_id :: ident
  et_key :: string
  et_type :: string
  et_title :: string
  et_input :: "json option"
  et_agentRef :: "json option"
  et_assigneeLevel :: "string option"
  et_assigneeId :: "ident option"

record executor_input =
  ei_task :: executor_task
  ei_provenance :: child_run_provenance
  ei_idempotencyKey :: string
  ei_attemptNo :: nat

text \<open>An executor returns an outcome or throws (\<open>Inl\<close> the message of the error).\<close>

type_synonym executor = "executor_input \<Rightarrow> string + executor_outcome"

definition plain_outcome :: "outcome_status \<Rightarrow> string option \<Rightarrow> executor" where
  "plain_outcome st note = (\<lambda>_. Inr \<lparr>o_status = st, o_error = None, o_childRunId = None, o_note = note\<rparr>)"

definition buildExecutorRegistry :: "executor option \<Rightarrow> executor option \<Rightarrow> string \<rightharpoonup> executor" where
  "buildExecutorRegistry notification agent_task =
     map_of
      [(''checkpoint'', plain_outcome OutSucceeded None),
       (''approval'', plain_outcome OutSucceeded None),
       (''wait'', plain_outcome OutSucceeded None),
       (''timer'', plain_outcome OutSucceeded None),
       (''manual'', plain_outcome OutRunning (Some ''Awaiting manual completion'')),
       (''notification'', nullish notification
          (plain_outcome OutSucceeded (Some ''notification executor not wired (no-op)''))),
       (''agent_task'', nullish agent_task
          (plain_outcome OutRunning (Some ''agent executor not wired (no-op)'')))]"

section \<open>Notifications (engine/notifications.ts)\<close>

datatype notification_event =
    NTaskBlocked | NTaskFailed | NApprovalNeeded | NApprovalResolved | NWorkflowCompleted
  | NWorkflowFailed | NWorkflowCancelled | NWorkflowPaused | NWorkflowResumed

datatype notification_recipient = ToOwner | ToAssignee | ToApprover

fun NOTIFICATION_MATRIX :: "notification_event \<Rightarrow> notification_recipient list" where
  "NOTIFICATION_MATRIX NTaskBlocked = [ToOwner]"
| "NOTIFICATION_MATRIX NTaskFailed = [ToOwner, ToAssignee]"
| "NOTIFICATION_MATRIX NApprovalNeeded = [ToApprover]"
| "NOTIFICATION_MATRIX NApprovalResolved = [ToOwner]"
| "NOTIFICATION_MATRIX NWorkflowCompleted = [ToOwner]"
| "NOTIFICATION_MATRIX NWorkflowFailed = [ToOwner]"
| "NOTIFICATION_MATRIX NWorkflowCancelled = [ToOwner]"
| "NOTIFICATION_MATRIX NWorkflowPaused = [ToOwner]"
| "NOTIFICATION_MATRIX NWorkflowResumed = [ToOwner]"

record workflow_notification =
  n_event :: notification_event
  n_workflowId :: ident
  n_taskId :: "ident option"
  n_recipients :: "notification_recipient list"
  n_payload :: "json option"

definition notificationFor ::
  "notification_event \<Rightarrow> ident \<Rightarrow> ident option \<Rightarrow> json option \<Rightarrow> workflow_notification" where
  "notificationFor event wid tid payload =
     \<lparr>n_event = event, n_workflowId = wid, n_taskId = tid,
      n_recipients = NOTIFICATION_MATRIX event, n_payload = payload\<rparr>"

record audit_entry =
  au_action :: string
  au_workflowId :: ident
  au_actorId :: "ident option"
  au_details :: "json option"

section \<open>The review packet (state/review-packet.ts)\<close>

fun outcome_text :: "dependency_outcome \<Rightarrow> string" where
  "outcome_text OnSuccess = ''success''"
| "outcome_text OnSkipped = ''skipped''"
| "outcome_text OnFailed = ''failed''"

record packet_edge =
  pe_on :: string
  pe_outcome :: string
  pe_upstreamTitle :: "string option"

definition packet_edge_of ::
  "(ident \<rightharpoonup> task_row) \<Rightarrow> (ident \<rightharpoonup> string) \<Rightarrow> dependency_row \<Rightarrow> packet_edge" where
  "packet_edge_of taskById keyById d =
     \<lparr>pe_on = nullish (keyById (d_dependsOnTaskId d)) (d_dependsOnTaskId d),
      pe_outcome = outcome_text (d_outcome d),
      pe_upstreamTitle = map_option t_title (taskById (d_dependsOnTaskId d))\<rparr>"

definition packet_edges ::
  "env \<Rightarrow> ident \<Rightarrow> dependency_row list \<Rightarrow> (ident \<rightharpoonup> task_row) \<Rightarrow> (ident \<rightharpoonup> string) \<Rightarrow> packet_edge list" where
  "packet_edges E tid deps taskById keyById =
     sort_key (\<lambda>e. e_collate E (pe_on e))
       (map (packet_edge_of taskById keyById) (filter (\<lambda>d. d_taskId d = tid) deps))"

definition edge_json :: "packet_edge \<Rightarrow> json" where
  "edge_json e = JObj [(''on'', JStr (pe_on e)), (''outcome'', JStr (pe_outcome e)),
                       (''upstreamTitle'', json_of_string (pe_upstreamTitle e))]"

definition review_packet ::
  "env \<Rightarrow> task_row \<Rightarrow> json \<Rightarrow> dependency_row list \<Rightarrow> (ident \<rightharpoonup> task_row) \<Rightarrow> (ident \<rightharpoonup> string) \<Rightarrow> json" where
  "review_packet E task requiredScope deps taskById keyById =
     JObj [(''key'', JStr (t_key task)), (''title'', JStr (t_title task)),
           (''requiredScope'', requiredScope),
           (''deps'', JArr (map edge_json (packet_edges E (t_id task) deps taskById keyById)))]"

definition computeReviewPacketHash ::
  "env \<Rightarrow> task_row \<Rightarrow> json \<Rightarrow> dependency_row list \<Rightarrow> (ident \<rightharpoonup> task_row) \<Rightarrow> (ident \<rightharpoonup> string) \<Rightarrow> string" where
  "computeReviewPacketHash E task requiredScope deps taskById keyById =
     e_sha256 E (json_text (review_packet E task requiredScope deps taskById keyById))"

section \<open>Lemmas\<close>

lemma sort_key_mset_cong:
  assumes "mset xs = mset ys" and "inj_on f (set xs)"
  shows "sort_key f xs = sort_key f ys"
  using assms
  by (metis mset_sort sort_key_inj_key_eq sorted_sort_key)

section \<open>Properties\<close>

text \<open>
  The packet an approval signs off does not depend on the order in which the dependency rows
  are read: permuted rows give the same hash, if the keys of the upstream tasks have distinct
  collation keys (keys are unique in a workflow).
\<close>

theorem review_packet_order_independent:
  assumes "mset deps = mset deps'"
    and "inj_on (\<lambda>e. e_collate E (pe_on e)) (packet_edge_of taskById keyById ` set deps)"
  shows "computeReviewPacketHash E task scope deps taskById keyById =
         computeReviewPacketHash E task scope deps' taskById keyById"
proof -
  let ?e = "\<lambda>ds. map (packet_edge_of taskById keyById) (filter (\<lambda>d. d_taskId d = t_id task) ds)"
  have "mset (?e deps) = mset (?e deps')" using assms(1) by (simp add: mset_filter)
  moreover have "inj_on (\<lambda>e. e_collate E (pe_on e)) (set (?e deps))"
    by (rule inj_on_subset [OF assms(2)]) auto
  ultimately have "packet_edges E (t_id task) deps taskById keyById =
      packet_edges E (t_id task) deps' taskById keyById"
    unfolding packet_edges_def by (rule sort_key_mset_cong)
  then show ?thesis by (simp add: computeReviewPacketHash_def review_packet_def)
qed

theorem review_packet_order_independent_witness:
  "computeReviewPacketHash
     (demo_env 0) (new_task ''t'' ''w'' ''t'' ''approval'') JNull
     [\<lparr>d_id = ''x'', d_workflowId = ''w'', d_taskId = ''t'', d_dependsOnTaskId = ''a'', d_outcome = OnSuccess\<rparr>,
      \<lparr>d_id = ''y'', d_workflowId = ''w'', d_taskId = ''t'', d_dependsOnTaskId = ''b'', d_outcome = OnFailed\<rparr>]
     Map.empty Map.empty =
   computeReviewPacketHash
     (demo_env 0) (new_task ''t'' ''w'' ''t'' ''approval'') JNull
     [\<lparr>d_id = ''y'', d_workflowId = ''w'', d_taskId = ''t'', d_dependsOnTaskId = ''b'', d_outcome = OnFailed\<rparr>,
      \<lparr>d_id = ''x'', d_workflowId = ''w'', d_taskId = ''t'', d_dependsOnTaskId = ''a'', d_outcome = OnSuccess\<rparr>]
     Map.empty Map.empty"
  by (rule review_packet_order_independent) (simp_all add: packet_edge_of_def demo_env_def)

text \<open>
  Retry delays: the first retry waits one minute and every further one twice as long as the
  one before, so a task with \<open>n\<close> failed attempts has waited \<open>(2\<^sup>n - 1)\<close> minutes in all.
\<close>

theorem retry_backoff_doubles:
  "retryBackoffMs 1 = 60000 \<and> retryBackoffMs (n + 2) = 2 * retryBackoffMs (n + 1)
   \<and> (\<Sum>k = 1..n. retryBackoffMs k) = 60000 * (2 ^ n - 1)"
proof (intro conjI)
  show "(\<Sum>k = 1..n. retryBackoffMs k) = 60000 * (2 ^ n - 1)"
    by (induction n) (simp_all add: retryBackoffMs_def ENGINE_OPS_def algebra_simps)
qed (simp_all add: retryBackoffMs_def ENGINE_OPS_def)

end
