(* ===== verification/Wf_Dispatch.thy ===== *)
theory Wf_Dispatch
  imports Wf_Ops
begin

text \<open>
  Claiming and settling, the first half of \<^verbatim>\<open>packages/workflows/src/engine/reconciler.ts\<close>: the
  dispatch lease, the gate context of a task, the operational log, the claim transaction (crash
  recovery, lease-based reclaim, claim of ready tasks) and the transaction that records the
  outcomes of dispatched executors.

  A transaction runs under the advisory lock of its workflow and is a function on the database;
  the wall clock reads the same value throughout one transaction. Objects the code mutates while
  it iterates (the loaded task rows, the status map) are threaded through the loops.
\<close>

section \<open>Dispatch leases\<close>

record claimed_task =
  c_task :: task_row
  c_attemptId :: ident
  c_attemptNo :: nat
  c_idempotencyKey :: string
  c_leaseToken :: string

definition acquireDispatchLease :: "env \<Rightarrow> ident \<Rightarrow> ident \<Rightarrow> ident \<Rightarrow> db \<Rightarrow> string \<times> db" where
  "acquireDispatchLease E wid tid aid s =
     (let (token, s1) = randomUUID E s;
          now = e_wall E;
          expiresAt = now + op_dispatchLeaseTtlMs ENGINE_OPS;
          (lid, s2) = new_id E ''wlease'' s1;
          row = \<lparr>l_id = lid, l_workflowId = wid, l_taskId = tid, l_attemptId = aid,
                 l_holderId = e_holder E, l_token = token, l_acquiredAt = now,
                 l_heartbeatAt = now, l_expiresAt = expiresAt\<rparr>;
          same = (\<lambda>l. l_taskId l = tid);
          leases = (if list_ex same (db_leases s2)
                    then update_where same
                           (\<lambda>l. l\<lparr>l_attemptId := aid, l_holderId := e_holder E, l_token := token,
                                  l_acquiredAt := now, l_heartbeatAt := now, l_expiresAt := expiresAt\<rparr>)
                           (db_leases s2)
                    else db_leases s2 @ [row])
      in (token, s2\<lparr>db_leases := leases\<rparr>))"

definition takeOverDispatchLease :: "env \<Rightarrow> ident \<Rightarrow> string \<Rightarrow> db \<Rightarrow> string option \<times> db" where
  "takeOverDispatchLease E tid observedToken s =
     (let (token, s1) = randomUUID E s;
          now = e_wall E;
          hit = (\<lambda>l. l_taskId l = tid \<and> l_token l = observedToken \<and> l_expiresAt l \<le> now)
      in (if list_ex hit (db_leases s1) then Some token else None,
          s1\<lparr>db_leases := update_where hit
               (\<lambda>l. l\<lparr>l_holderId := e_holder E, l_token := token, l_acquiredAt := now,
                      l_heartbeatAt := now, l_expiresAt := now + op_dispatchLeaseTtlMs ENGINE_OPS\<rparr>)
               (db_leases s1)\<rparr>))"

text \<open>One beat of the timer that \<^verbatim>\<open>startDispatchLeaseHeartbeat\<close> sets.\<close>

definition heartbeatDispatchLease :: "env \<Rightarrow> ident \<Rightarrow> string \<Rightarrow> db \<Rightarrow> db" where
  "heartbeatDispatchLease E tid leaseToken s =
     s\<lparr>db_leases := update_where (\<lambda>l. l_taskId l = tid \<and> l_token l = leaseToken)
          (\<lambda>l. l\<lparr>l_heartbeatAt := e_wall E,
                 l_expiresAt := e_wall E + op_dispatchLeaseTtlMs ENGINE_OPS\<rparr>) (db_leases s)\<rparr>"

section \<open>Gate context, gate ledger, operational log\<close>

definition gateContextFor ::
  "task_row \<Rightarrow> dependency_row list \<Rightarrow> (ident \<rightharpoonup> task_status) \<Rightarrow> (ident \<rightharpoonup> string) \<Rightarrow>
   (ident \<rightharpoonup> approval_status) \<Rightarrow> instant \<Rightarrow> gate_entry list" where
  "gateContextFor task deps statusById keyById approvalByTaskId now =
     evaluateTaskGates
       \<lparr>gc_dueAtUtc = t_dueAtUtc task, gc_now = now,
        gc_dependencies = map (\<lambda>d. \<lparr>e_dependsOnTaskId = d_dependsOnTaskId d,
            e_dependsOnKey = keyById (d_dependsOnTaskId d), e_outcome = d_outcome d\<rparr>)
          (filter (\<lambda>d. d_taskId d = t_id task) deps),
        gc_depStatusById = statusById,
        gc_hasApproval = (approvalByTaskId (t_id task) \<noteq> None),
        gc_approvalStatus = approvalByTaskId (t_id task)\<rparr>"

definition persist_gate :: "env \<Rightarrow> ident \<Rightarrow> ident \<Rightarrow> gate_entry \<Rightarrow> db \<Rightarrow> db" where
  "persist_gate E wid tid g s =
     (let (gid, s1) = new_id E ''wgate'' s;
          same = (\<lambda>r. gr_taskId r = tid \<and> gr_gateKind r = g_kind g);
          row = \<lparr>gr_id = gid, gr_workflowId = wid, gr_taskId = tid, gr_gateKind = g_kind g,
                 gr_state = g_state g, gr_reason = g_reason g, gr_blockerRefs = g_blockerRefs g,
                 gr_evaluatedAt = Some (e_wall E)\<rparr>
      in s1\<lparr>db_gates :=
           (if list_ex same (db_gates s1)
            then update_where same
                   (\<lambda>r. r\<lparr>gr_state := g_state g, gr_reason := g_reason g,
                          gr_blockerRefs := g_blockerRefs g, gr_evaluatedAt := Some (e_wall E)\<rparr>)
                   (db_gates s1)
            else db_gates s1 @ [row])\<rparr>)"

definition persistGates :: "env \<Rightarrow> ident \<Rightarrow> ident \<Rightarrow> gate_entry list \<Rightarrow> db \<Rightarrow> db" where
  "persistGates E wid tid gates s = fold (persist_gate E wid tid) gates s"

definition insert_event ::
  "env \<Rightarrow> ident \<Rightarrow> ident option \<Rightarrow> string option \<Rightarrow> string \<Rightarrow> json option \<Rightarrow> ident option \<Rightarrow>
   string option \<Rightarrow> string option \<Rightarrow> db \<Rightarrow> db" where
  "insert_event E wid tid tkey kind payload actorId source idem s =
     (let (eid, s1) = new_id E ''wevent'' s
      in s1\<lparr>db_events := db_events s1 @
           [\<lparr>ev_id = eid, ev_workflowId = wid, ev_taskId = tid, ev_taskKey = tkey, ev_kind = kind,
             ev_payload = payload, ev_actorId = actorId, ev_source = source,
             ev_idempotencyKey = idem, ev_createdAt = e_wall E\<rparr>]\<rparr>)"

definition recordEvent ::
  "env \<Rightarrow> ident \<Rightarrow> ident option \<Rightarrow> string option \<Rightarrow> string \<Rightarrow> json \<Rightarrow> execution_actor \<Rightarrow>
   string option \<Rightarrow> db \<Rightarrow> db" where
  "recordEvent E wid tid tkey kind payload prov idem s =
     insert_event E wid tid tkey kind (Some payload) (ea_runBy prov) (Some (ea_source prov)) idem s"

section \<open>The claim transaction\<close>

text \<open>Crash recovery of one task: the row and the status map as the loop leaves them.\<close>

definition recover_task ::
  "env \<Rightarrow> ident \<Rightarrow> instant \<Rightarrow> execution_actor \<Rightarrow> task_row \<Rightarrow> (ident \<rightharpoonup> task_status) \<Rightarrow> db \<Rightarrow>
   task_row \<times> (ident \<rightharpoonup> task_status) \<times> db" where
  "recover_task E wid now prov task statusById s =
     (if t_status task \<noteq> TRunning \<or> t_type task \<notin> set INSTANTANEOUS_EXECUTOR_TYPES
      then (task, statusById, s)
      else if t_foreachConfig task \<noteq> None then (task, statusById, s)
      else if t_updatedAt task \<ge> now - op_crashRecoveryMs ENGINE_OPS then (task, statusById, s)
      else
        (let (reset, s1) = cas_task (t_id task) (t_lockVersion task)
               (set_task_status E TScheduled (t_lockVersion task)) s
         in if \<not> reset then (task, statusById, s1)
            else
              (let s2 = s1\<lparr>db_attempts := update_where
                     (\<lambda>a. a_taskId a = t_id task \<and> a_status a = AttRunning)
                     (\<lambda>a. a\<lparr>a_status := AttFailed,
                            a_error := Some (JObj [(''recovered'', JStr ''crash_mid_dispatch'')]),
                            a_completedAt := Some (e_wall E), a_updatedAt := e_wall E\<rparr>)
                     (db_attempts s1)\<rparr>;
                   s3 = s2\<lparr>db_leases := delete_where (\<lambda>l. l_taskId l = t_id task) (db_leases s2)\<rparr>;
                   task' = task\<lparr>t_status := TScheduled, t_lockVersion := t_lockVersion task + 1\<rparr>;
                   s4 = recordEvent E wid (Some (t_id task)) (Some (t_key task)) ''recovered''
                          (JObj [(''reason'', JStr ''crash_mid_dispatch'')]) prov None s3
               in (task', statusById(t_id task \<mapsto> TScheduled), s4))))"

fun recover_loop ::
  "env \<Rightarrow> ident \<Rightarrow> instant \<Rightarrow> execution_actor \<Rightarrow> task_row list \<Rightarrow> (ident \<rightharpoonup> task_status) \<Rightarrow> db \<Rightarrow>
   task_row list \<times> (ident \<rightharpoonup> task_status) \<times> db" where
  "recover_loop E wid now prov [] statusById s = ([], statusById, s)"
| "recover_loop E wid now prov (t # ts) statusById s =
     (let (t', st', s') = recover_task E wid now prov t statusById s;
          (ts', st'', s'') = recover_loop E wid now prov ts st' s'
      in (t' # ts', st'', s''))"

text \<open>The loops that claim stop as soon as \<open>cap\<close> tasks are claimed.\<close>

fun capped_loop ::
  "nat \<Rightarrow> (task_row \<Rightarrow> db \<Rightarrow> claimed_task option \<times> db) \<Rightarrow> task_row list \<Rightarrow> claimed_task list \<Rightarrow> db \<Rightarrow>
   claimed_task list \<times> db" where
  "capped_loop cap body [] claimed s = (claimed, s)"
| "capped_loop cap body (t # ts) claimed s =
     (if cap \<le> length claimed then (claimed, s)
      else
        (let (c, s') = body t s
         in capped_loop cap body ts (case c of None \<Rightarrow> claimed | Some x \<Rightarrow> claimed @ [x]) s'))"

text \<open>The running attempt of a task with the highest number.\<close>

definition running_attempt :: "db \<Rightarrow> ident \<Rightarrow> attempt_row option" where
  "running_attempt s tid =
     top_by a_attemptNo (filter (\<lambda>a. a_taskId a = tid \<and> a_status a = AttRunning) (db_attempts s))"

definition reclaim_task ::
  "env \<Rightarrow> ident \<Rightarrow> execution_actor \<Rightarrow> task_row \<Rightarrow> db \<Rightarrow> claimed_task option \<times> db" where
  "reclaim_task E wid prov task s =
     (if t_status task \<noteq> TRunning \<or> t_type task \<noteq> ''agent_task'' \<or> t_foreachConfig task \<noteq> None
      then (None, s)
      else
        (case running_attempt s (t_id task) of
           None \<Rightarrow> (None, s)
         | Some attempt \<Rightarrow>
             if a_childRunId attempt \<noteq> None then (None, s)
             else
               (case find_lease s (t_id task) of
                  None \<Rightarrow> (None, s)
                | Some lease \<Rightarrow>
                    if l_expiresAt lease > e_wall E then (None, s)
                    else
                      (let (token, s1) = takeOverDispatchLease E (t_id task) (l_token lease) s
                       in case token of
                            None \<Rightarrow> (None, s1)
                          | Some tok \<Rightarrow>
                              (Some \<lparr>c_task = task, c_attemptId = a_id attempt,
                                     c_attemptNo = a_attemptNo attempt,
                                     c_idempotencyKey = a_idempotencyKey attempt,
                                     c_leaseToken = tok\<rparr>,
                               recordEvent E wid (Some (t_id task)) (Some (t_key task))
                                 ''dispatch_reclaimed''
                                 (JObj [(''attemptNo'', JNum (int (a_attemptNo attempt))),
                                        (''idemKey'', JStr (a_idempotencyKey attempt)),
                                        (''expiredHolder'', JStr (l_holderId lease))])
                                 prov None s1)))))"

definition idempotency_key :: "ident \<Rightarrow> ident \<Rightarrow> nat \<Rightarrow> string" where
  "idempotency_key wid tid n = wid @ '':'' @ tid @ '':'' @ show_nat n"

definition attempt_count :: "db \<Rightarrow> ident \<Rightarrow> nat" where
  "attempt_count s tid = length (filter (\<lambda>a. a_taskId a = tid) (db_attempts s))"

text \<open>
  The insert of the next attempt with \<open>ON CONFLICT (idempotency_key) DO NOTHING\<close>: its id, number
  and key, and whether a row was inserted.
\<close>

definition insert_attempt :: "env \<Rightarrow> ident \<Rightarrow> ident \<Rightarrow> db \<Rightarrow> (ident \<times> nat \<times> string \<times> bool) \<times> db" where
  "insert_attempt E wid tid s =
     (let attemptNo = attempt_count s tid + 1;
          idemKey = idempotency_key wid tid attemptNo;
          (aid, s1) = new_id E ''watt'' s
      in if list_ex (\<lambda>a. a_idempotencyKey a = idemKey) (db_attempts s1)
         then ((aid, attemptNo, idemKey, False), s1)
         else ((aid, attemptNo, idemKey, True),
               s1\<lparr>db_attempts := db_attempts s1 @
                 [\<lparr>a_id = aid, a_workflowId = wid, a_taskId = tid, a_attemptNo = attemptNo,
                   a_idempotencyKey = idemKey, a_status = AttRunning, a_childRunId = None,
                   a_error = None, a_output = None, a_startedAt = Some (e_wall E),
                   a_completedAt = None, a_createdAt = e_wall E, a_updatedAt = e_wall E\<rparr>]\<rparr>))"

definition claim_task ::
  "env \<Rightarrow> ident \<Rightarrow> instant \<Rightarrow> execution_actor \<Rightarrow> dependency_row list \<Rightarrow> (ident \<rightharpoonup> task_status) \<Rightarrow>
   (ident \<rightharpoonup> string) \<Rightarrow> (ident \<rightharpoonup> approval_status) \<Rightarrow> task_row \<Rightarrow> db \<Rightarrow> claimed_task option \<times> db" where
  "claim_task E wid now prov deps statusById keyById approvalByTaskId task s =
     (if t_status task \<noteq> TIdle \<and> t_status task \<noteq> TScheduled then (None, s)
      else if t_foreachConfig task \<noteq> None then (None, s)
      else
        (let gates = gateContextFor task deps statusById keyById approvalByTaskId now;
             s1 = persistGates E wid (t_id task) gates s
         in if ge_state (deriveEffectiveGateState gates) \<noteq> Dispatchable then (None, s1)
            else
              (let ((aid, attemptNo, idemKey, inserted), s2) = insert_attempt E wid (t_id task) s1
               in if \<not> inserted then (None, s2)
                  else
                    (let (moved, s3) = cas_task (t_id task) (t_lockVersion task)
                           (\<lambda>t. (set_task_status E TRunning (t_lockVersion task) t)
                              \<lparr>t_actualStartUtc := Some (nullish (t_actualStartUtc task) (e_wall E))\<rparr>) s2
                     in if \<not> moved
                        then (None, s3\<lparr>db_attempts := delete_where (\<lambda>a. a_id a = aid) (db_attempts s3)\<rparr>)
                        else
                          (let (tok, s4) = acquireDispatchLease E wid (t_id task) aid s3;
                               s5 = recordEvent E wid (Some (t_id task)) (Some (t_key task)) ''dispatched''
                                      (JObj [(''attemptNo'', JNum (int attemptNo)), (''idemKey'', JStr idemKey)])
                                      prov (Some idemKey) s4
                           in (Some \<lparr>c_task = task\<lparr>t_status := TRunning,
                                       t_lockVersion := t_lockVersion task + 1\<rparr>,
                                     c_attemptId = aid, c_attemptNo = attemptNo,
                                     c_idempotencyKey = idemKey, c_leaseToken = tok\<rparr>, s5))))))"

record claim_result =
  cr_inactive :: bool
  cr_status :: string
  cr_claimed :: "claimed_task list"
  cr_provenance :: "execution_actor option"

text \<open>The transaction on an active workflow, after its rows are loaded.\<close>

definition claim_active :: "env \<Rightarrow> ident \<Rightarrow> instant \<Rightarrow> workflow_row \<Rightarrow> db \<Rightarrow> claimed_task list \<times> db" where
  "claim_active E wid now wrow s =
     (let tasks = tasks_of s wid;
          deps = deps_of s wid;
          statusById = js_map (map (\<lambda>t. (t_id t, t_status t)) tasks);
          keyById = js_map (map (\<lambda>t. (t_id t, t_key t)) tasks);
          approvalByTaskId = js_map (map (\<lambda>a. (ap_taskId a, ap_status a)) (approvals_of s wid));
          prov = actor_of wrow;
          (tasks1, statusById1, s1) = recover_loop E wid now prov tasks statusById s;
          (claimed, s2) = capped_loop (op_dispatchBatchCap ENGINE_OPS) (reclaim_task E wid prov) tasks1 [] s1
      in capped_loop (op_dispatchBatchCap ENGINE_OPS)
           (claim_task E wid now prov deps statusById1 keyById approvalByTaskId) tasks1 claimed s2)"

definition claimReadyTasks :: "env \<Rightarrow> ident \<Rightarrow> instant \<Rightarrow> db \<Rightarrow> claim_result \<times> db" where
  "claimReadyTasks E wid now s =
     (case find_workflow s wid of
        None \<Rightarrow> (\<lparr>cr_inactive = True, cr_status = ''missing'', cr_claimed = [], cr_provenance = None\<rparr>, s)
      | Some w \<Rightarrow>
          if w_status w \<noteq> WActive
          then (\<lparr>cr_inactive = True, cr_status = workflow_status_text (w_status w), cr_claimed = [],
                 cr_provenance = None\<rparr>, s)
          else
            (let (claimed, s') = claim_active E wid now w s
             in (\<lparr>cr_inactive = False, cr_status = workflow_status_text (w_status w),
                  cr_claimed = claimed, cr_provenance = Some (actor_of w)\<rparr>, s')))"

section \<open>Recording outcomes\<close>

text \<open>
  The shared failure transition. The list collects the tasks that dead-lettered.
\<close>

definition applyTaskFailure ::
  "env \<Rightarrow> ident \<Rightarrow> task_row \<Rightarrow> nat \<Rightarrow> json option \<Rightarrow> instant \<Rightarrow> execution_actor \<Rightarrow> db \<times> ident list \<Rightarrow>
   db \<times> ident list" where
  "applyTaskFailure E wid current attemptNo error now prov st =
     (let (s, deadLettered) = st;
          maxAttempts = nullish (t_maxAttempts current) (op_defaultMaxAttempts ENGINE_OPS)
      in if int attemptNo < maxAttempts
         then
           (let backoff = retryBackoffMs attemptNo;
                nextDue = now + backoff;
                (_, s1) = cas_task (t_id current) (t_lockVersion current)
                  (\<lambda>t. (set_task_status E TScheduled (t_lockVersion current) t)\<lparr>t_dueAtUtc := Some nextDue\<rparr>) s
            in (recordEvent E wid (Some (t_id current)) (Some (t_key current)) ''retry_scheduled''
                  (JObj [(''attemptNo'', JNum (int attemptNo)), (''backoffMs'', JNum backoff),
                         (''nextDueAt'', JStr (toISOString nextDue))]) prov None s1, deadLettered))
         else
           (let (_, s1) = cas_task (t_id current) (t_lockVersion current)
                  (\<lambda>t. (set_task_status E TFailed (t_lockVersion current) t)\<lparr>t_actualEndUtc := Some (e_wall E)\<rparr>) s
            in (recordEvent E wid (Some (t_id current)) (Some (t_key current)) ''dead_lettered''
                  (JObj [(''attemptNo'', JNum (int attemptNo)), (''error'', nullish error JNull)]) prov None s1,
                deadLettered @ [t_id current])))"

fun attempt_status_of :: "outcome_status \<Rightarrow> attempt_status" where
  "attempt_status_of OutRunning = AttRunning"
| "attempt_status_of OutSucceeded = AttSucceeded"
| "attempt_status_of OutFailed = AttFailed"

definition settle_attempt :: "env \<Rightarrow> ident \<Rightarrow> executor_outcome \<Rightarrow> db \<Rightarrow> bool \<times> db" where
  "settle_attempt E aid outcome s =
     (let hit = (\<lambda>a. a_id a = aid \<and> a_status a = AttRunning)
      in (list_ex hit (db_attempts s),
          s\<lparr>db_attempts := update_where hit
              (\<lambda>a. a\<lparr>a_status := attempt_status_of (o_status outcome),
                     a_childRunId := o_childRunId outcome, a_error := o_error outcome,
                     a_completedAt := (if o_status outcome = OutRunning then None else Some (e_wall E)),
                     a_updatedAt := e_wall E\<rparr>)
              (db_attempts s)\<rparr>))"

definition settle_outcome ::
  "env \<Rightarrow> ident \<Rightarrow> instant \<Rightarrow> execution_actor \<Rightarrow> claimed_task \<times> executor_outcome \<Rightarrow> db \<times> ident list \<Rightarrow>
   db \<times> ident list" where
  "settle_outcome E wid now prov r st =
     (let (claimed, outcome) = r; (s, deadLettered) = st; tid = t_id (c_task claimed)
      in case find_lease s tid of
           None \<Rightarrow> st
         | Some lease \<Rightarrow>
             if l_token lease \<noteq> c_leaseToken claimed then st
             else
               (let s1 = s\<lparr>db_leases := delete_where
                       (\<lambda>l. l_taskId l = tid \<and> l_token l = c_leaseToken claimed) (db_leases s)\<rparr>
                in case find_task s1 tid of
                     None \<Rightarrow> (s1, deadLettered)
                   | Some current \<Rightarrow>
                       if t_status current \<noteq> TRunning then (s1, deadLettered)
                       else
                         (let (updated, s2) = settle_attempt E (c_attemptId claimed) outcome s1
                          in if \<not> updated then (s2, deadLettered)
                             else
                               (case o_status outcome of
                                  OutRunning \<Rightarrow>
                                    (recordEvent E wid (Some tid) (Some (t_key current)) ''awaiting''
                                       (JObj (case o_note outcome of None \<Rightarrow> [] | Some n \<Rightarrow> [(''note'', JStr n)]))
                                       prov None s2, deadLettered)
                                | OutSucceeded \<Rightarrow>
                                    (let (_, s3) = cas_task tid (t_lockVersion current)
                                           (\<lambda>t. (set_task_status E TSucceeded (t_lockVersion current) t)
                                              \<lparr>t_actualEndUtc := Some (e_wall E)\<rparr>) s2
                                     in (recordEvent E wid (Some tid) (Some (t_key current)) ''succeeded''
                                           (JObj [(''attemptNo'', JNum (int (c_attemptNo claimed)))])
                                           prov None s3, deadLettered))
                                | OutFailed \<Rightarrow>
                                    applyTaskFailure E wid current (c_attemptNo claimed) (o_error outcome)
                                      now prov (s2, deadLettered)))))"

definition recordOutcomes ::
  "env \<Rightarrow> ident \<Rightarrow> (claimed_task \<times> executor_outcome) list \<Rightarrow> instant \<Rightarrow> execution_actor \<Rightarrow> db \<Rightarrow>
   ident list \<times> db" where
  "recordOutcomes E wid results now prov s =
     (let (s', deadLettered) = fold (settle_outcome E wid now prov) results (s, [])
      in (deadLettered, s'))"

section \<open>What the log and the ledger leave alone\<close>

lemma randomUUID_simps [simp]:
  "fst (randomUUID E s) = e_uuid E (db_uuids s)"
  "snd (randomUUID E s) = s\<lparr>db_uuids := Suc (db_uuids s)\<rparr>"
  by (simp_all add: randomUUID_def)

lemma new_id_simps [simp]:
  "fst (new_id E p s) = p @ ''_'' @ e_uuid E (db_uuids s)"
  "snd (new_id E p s) = s\<lparr>db_uuids := Suc (db_uuids s)\<rparr>"
  by (simp_all add: new_id_def randomUUID_def)

lemma insert_event_frame [simp]:
  "db_workflows (insert_event E wid ti tk k p a so i s) = db_workflows s"
  "db_tasks (insert_event E wid ti tk k p a so i s) = db_tasks s"
  "db_deps (insert_event E wid ti tk k p a so i s) = db_deps s"
  "db_gates (insert_event E wid ti tk k p a so i s) = db_gates s"
  "db_attempts (insert_event E wid ti tk k p a so i s) = db_attempts s"
  "db_leases (insert_event E wid ti tk k p a so i s) = db_leases s"
  "db_artifacts (insert_event E wid ti tk k p a so i s) = db_artifacts s"
  "db_approvals (insert_event E wid ti tk k p a so i s) = db_approvals s"
  "db_uuids (insert_event E wid ti tk k p a so i s) = Suc (db_uuids s)"
  by (simp_all add: insert_event_def new_id_def randomUUID_def)

lemma recordEvent_frame [simp]:
  "db_workflows (recordEvent E wid ti tk k p pr i s) = db_workflows s"
  "db_tasks (recordEvent E wid ti tk k p pr i s) = db_tasks s"
  "db_deps (recordEvent E wid ti tk k p pr i s) = db_deps s"
  "db_gates (recordEvent E wid ti tk k p pr i s) = db_gates s"
  "db_attempts (recordEvent E wid ti tk k p pr i s) = db_attempts s"
  "db_leases (recordEvent E wid ti tk k p pr i s) = db_leases s"
  "db_artifacts (recordEvent E wid ti tk k p pr i s) = db_artifacts s"
  "db_approvals (recordEvent E wid ti tk k p pr i s) = db_approvals s"
  "db_uuids (recordEvent E wid ti tk k p pr i s) = Suc (db_uuids s)"
  by (simp_all add: recordEvent_def)

lemma cas_task_simps [simp]:
  "fst (cas_task tid v f s) \<longleftrightarrow> (\<exists>t \<in> set (db_tasks s). t_id t = tid \<and> t_lockVersion t = v)"
  "snd (cas_task tid v f s) =
     s\<lparr>db_tasks := update_where (\<lambda>t. t_id t = tid \<and> t_lockVersion t = v) f (db_tasks s)\<rparr>"
  by (auto simp: cas_task_def cas_update_def Let_def list_ex_iff)

lemma cas_workflow_simps [simp]:
  "fst (cas_workflow wid v g f s) \<longleftrightarrow> (\<exists>w \<in> set (db_workflows s). w_id w = wid \<and> w_lockVersion w = v \<and> g w)"
  "snd (cas_workflow wid v g f s) =
     s\<lparr>db_workflows := update_where (\<lambda>w. w_id w = wid \<and> w_lockVersion w = v \<and> g w) f (db_workflows s)\<rparr>"
  by (auto simp: cas_workflow_def cas_update_def Let_def list_ex_iff)

lemma set_task_status_simps [simp]:
  "t_id (set_task_status E st v t) = t_id t"
  "t_workflowId (set_task_status E st v t) = t_workflowId t"
  "t_foreachConfig (set_task_status E st v t) = t_foreachConfig t"
  "t_maxAttempts (set_task_status E st v t) = t_maxAttempts t"
  "t_status (set_task_status E st v t) = st"
  "t_lockVersion (set_task_status E st v t) = v + 1"
  by (simp_all add: set_task_status_def)

lemma set_workflow_status_simps [simp]:
  "w_id (set_workflow_status E st v w) = w_id w"
  "w_status (set_workflow_status E st v w) = st"
  "w_lockVersion (set_workflow_status E st v w) = v + 1"
  by (simp_all add: set_workflow_status_def)

lemma find_workflow_Some: "find_workflow s wid = Some w \<Longrightarrow> w \<in> set (db_workflows s) \<and> w_id w = wid"
  by (auto simp: find_workflow_def find_Some_iff)

lemma find_task_Some: "find_task s tid = Some t \<Longrightarrow> t \<in> set (db_tasks s) \<and> t_id t = tid"
  by (auto simp: find_task_def find_Some_iff)

lemma find_lease_Some: "find_lease s tid = Some l \<Longrightarrow> l \<in> set (db_leases s) \<and> l_taskId l = tid"
  by (auto simp: find_lease_def find_Some_iff)

lemma find_attempt_Some: "find_attempt s aid = Some a \<Longrightarrow> a \<in> set (db_attempts s) \<and> a_id a = aid"
  by (auto simp: find_attempt_def find_Some_iff)

lemma top_by_Some:
  assumes "top_by f rs = Some r"
  shows "r \<in> set rs \<and> (\<forall>r' \<in> set rs. f r' \<le> f r)"
proof -
  from assms obtain rest where r: "sort_key (\<lambda>r. - int (f r)) rs = r # rest"
    by (auto simp: top_by_def split: list.splits)
  then have "sorted (map (\<lambda>r. - int (f r)) (r # rest))" by (metis sorted_sort_key)
  moreover from r have "set rs = set (r # rest)" by (metis set_sort)
  ultimately show ?thesis by auto
qed

lemma top_by_None: "top_by f rs = None \<longleftrightarrow> rs = []"
  by (auto simp: top_by_def split: list.splits) (metis length_sort list.size(3) length_0_conv)

end
