(* ===== verification/Wf_Time.thy ===== *)
theory Wf_Time
  imports Wf_Prelude
begin

text \<open>
  The date syntax of \<^verbatim>\<open>packages/workflows/src/schedule/resolver.ts\<close>: ISO-8601 durations
  (\<^verbatim>\<open>parseIsoDuration\<close>) and instants (\<^verbatim>\<open>parseInstantMs\<close>). Calendar arithmetic in a time zone
  comes from the packages date-fns and @date-fns/tz; it is the parameter \<open>calendar\<close>, with the
  operations the sources call. \<^verbatim>\<open>Date.parse\<close> is specified here for the date-time string format of
  ECMAScript; on other strings it is implementation-defined and a component of the parameter.
\<close>

section \<open>Digits\<close>

definition is_digit :: "char \<Rightarrow> bool" where
  "is_digit c \<longleftrightarrow> 48 \<le> (of_char c :: nat) \<and> (of_char c :: nat) \<le> 57"

definition digit_val :: "char \<Rightarrow> nat" where
  "digit_val c = of_char c - 48"

definition read_nat :: "string \<Rightarrow> nat" where
  "read_nat s = foldl (\<lambda>n c. 10 * n + digit_val c) 0 s"

section \<open>Durations\<close>

record duration =
  du_years :: nat
  du_months :: nat
  du_weeks :: nat
  du_days :: nat
  du_hours :: nat
  du_minutes :: nat
  du_seconds :: nat

text \<open>
  One optional group \<^verbatim>\<open>(?:(\d+)X)?\<close> of the pattern: the number it captures, 0 where it does not
  take part, and the rest of the input.
\<close>

definition opt_unit :: "char \<Rightarrow> string \<Rightarrow> nat \<times> string" where
  "opt_unit c s =
     (let ds = takeWhile is_digit s; r = dropWhile is_digit s
      in if ds \<noteq> [] \<and> r \<noteq> [] \<and> hd r = c then (read_nat ds, tl r) else (0, s))"

definition parseIsoDuration :: "string \<Rightarrow> duration option" where
  "parseIsoDuration s =
     (case s of
        [] \<Rightarrow> None
      | p # s0 \<Rightarrow>
          if p \<noteq> CHR ''P'' then None
          else
            (let (y, s1) = opt_unit (CHR ''Y'') s0; (mo, s2) = opt_unit (CHR ''M'') s1;
                 (w, s3) = opt_unit (CHR ''W'') s2; (d, s4) = opt_unit (CHR ''D'') s3
             in case s4 of
                  [] \<Rightarrow> Some \<lparr>du_years = y, du_months = mo, du_weeks = w, du_days = d,
                              du_hours = 0, du_minutes = 0, du_seconds = 0\<rparr>
                | t # s5 \<Rightarrow>
                    if t \<noteq> CHR ''T'' then None
                    else
                      (let (h, s6) = opt_unit (CHR ''H'') s5; (mi, s7) = opt_unit (CHR ''M'') s6;
                           (sec, s8) = opt_unit (CHR ''S'') s7
                       in if s8 = [] then
                            Some \<lparr>du_years = y, du_months = mo, du_weeks = w, du_days = d,
                                  du_hours = h, du_minutes = mi, du_seconds = sec\<rparr>
                          else None)))"

text \<open>The duration without a part: what \<open>parseIsoDuration(\<dots>) ?? {}\<close> falls back to.\<close>

definition no_duration :: duration where
  "no_duration = \<lparr>du_years = 0, du_months = 0, du_weeks = 0, du_days = 0,
                  du_hours = 0, du_minutes = 0, du_seconds = 0\<rparr>"

section \<open>Instants\<close>

record civil_time =
  ct_year :: int
  ct_month :: int
  ct_day :: int
  ct_hour :: int
  ct_minute :: int
  ct_second :: int

text \<open>
  The calendar the sources call: the instant of a wall-clock time in a zone (\<^verbatim>\<open>new TZDate(\<dots>)\<close>),
  adding and subtracting a duration on the wall clock of a zone, setting the hour and minute of
  an instant in a zone with whether the time read back differs, and \<^verbatim>\<open>Date.parse\<close> on strings
  outside the date-time string format.
\<close>

record calendar =
  cal_instant :: "civil_time \<Rightarrow> string \<Rightarrow> instant"
  cal_add :: "instant \<Rightarrow> string option \<Rightarrow> duration \<Rightarrow> instant"
  cal_sub :: "instant \<Rightarrow> string option \<Rightarrow> duration \<Rightarrow> instant"
  cal_setHours :: "instant \<Rightarrow> int \<Rightarrow> int \<Rightarrow> string \<Rightarrow> instant \<times> bool"
  cal_legacyParse :: "string \<Rightarrow> instant option"

definition days_of_civil :: "int \<Rightarrow> int \<Rightarrow> int \<Rightarrow> int" where
  "days_of_civil y m d =
     (let y' = (if m \<le> 2 then y - 1 else y);
          era = y' div 400;
          yoe = y' mod 400;
          doy = (153 * (if 2 < m then m - 3 else m + 9) + 2) div 5 + d - 1;
          doe = yoe * 365 + yoe div 4 - yoe div 100 + doy
      in era * 146097 + doe - 719468)"

text \<open>A field of exactly \<open>n\<close> digits.\<close>

definition fixed_digits :: "nat \<Rightarrow> string \<Rightarrow> (int \<times> string) option" where
  "fixed_digits n s =
     (if length s \<ge> n \<and> list_all is_digit (take n s) then Some (int (read_nat (take n s)), drop n s)
      else None)"

definition lit :: "char \<Rightarrow> string \<Rightarrow> string option" where
  "lit c s = (case s of [] \<Rightarrow> None | x # r \<Rightarrow> if x = c then Some r else None)"

text \<open>\<^verbatim>\<open>OFFSET_RE\<close>: the text ends in \<^verbatim>\<open>Z\<close> or in a signed \<^verbatim>\<open>HH:MM\<close>.\<close>

definition signed_offset :: "string \<Rightarrow> bool" where
  "signed_offset r \<longleftrightarrow>
     length r = 6 \<and> (r ! 0 = CHR ''+'' \<or> r ! 0 = CHR ''-'') \<and> is_digit (r ! 1) \<and> is_digit (r ! 2)
     \<and> r ! 3 = CHR '':'' \<and> is_digit (r ! 4) \<and> is_digit (r ! 5)"

definition has_offset :: "string \<Rightarrow> bool" where
  "has_offset s \<longleftrightarrow> (s \<noteq> [] \<and> last s = CHR ''Z'') \<or> signed_offset (drop (length s - 6) s)"

text \<open>\<^verbatim>\<open>COMPONENTS_RE\<close>: the leading date and time, with optional seconds; the rest is ignored.\<close>

definition components :: "string \<Rightarrow> civil_time option" where
  "components s0 =
     (case fixed_digits 4 s0 of None \<Rightarrow> None | Some (y, s1) \<Rightarrow>
      case lit (CHR ''-'') s1 of None \<Rightarrow> None | Some s2 \<Rightarrow>
      case fixed_digits 2 s2 of None \<Rightarrow> None | Some (mo, s3) \<Rightarrow>
      case lit (CHR ''-'') s3 of None \<Rightarrow> None | Some s4 \<Rightarrow>
      case fixed_digits 2 s4 of None \<Rightarrow> None | Some (d, s5) \<Rightarrow>
      case lit (CHR ''T'') s5 of None \<Rightarrow> None | Some s6 \<Rightarrow>
      case fixed_digits 2 s6 of None \<Rightarrow> None | Some (h, s7) \<Rightarrow>
      case lit (CHR '':'') s7 of None \<Rightarrow> None | Some s8 \<Rightarrow>
      case fixed_digits 2 s8 of None \<Rightarrow> None | Some (mi, s9) \<Rightarrow>
      (let sec = (case lit (CHR '':'') s9 of None \<Rightarrow> 0 | Some s10 \<Rightarrow>
                    (case fixed_digits 2 s10 of None \<Rightarrow> 0 | Some (n, _) \<Rightarrow> n))
       in Some \<lparr>ct_year = y, ct_month = mo, ct_day = d, ct_hour = h, ct_minute = mi, ct_second = sec\<rparr>))"

text \<open>
  \<^verbatim>\<open>Date.parse\<close> on a full date-time with an offset: \<^verbatim>\<open>YYYY-MM-DDTHH:mm[:ss[.sss]](Z|+HH:mm|-HH:mm)\<close>
  with every field in its range.
\<close>

definition days_in_month :: "int \<Rightarrow> int \<Rightarrow> int" where
  "days_in_month y m =
     (if m = 2 then (if y mod 4 = 0 \<and> (y mod 100 \<noteq> 0 \<or> y mod 400 = 0) then 29 else 28)
      else if m = 4 \<or> m = 6 \<or> m = 9 \<or> m = 11 then 30 else 31)"

definition parse_offset :: "string \<Rightarrow> int option" where
  "parse_offset r =
     (if r = ''Z'' then Some 0
      else if signed_offset r then
        (let h = int (read_nat [r ! 1, r ! 2]); m = int (read_nat [r ! 4, r ! 5])
         in if h \<le> 23 \<and> m \<le> 59
            then Some ((if r ! 0 = CHR ''+'' then 1 else - 1) * (h * 60 + m)) else None)
      else None)"

definition parse_fraction :: "string \<Rightarrow> int \<times> int \<times> string" where
  "parse_fraction s9 =
     (case lit (CHR '':'') s9 of None \<Rightarrow> (0, 0, s9) | Some s10 \<Rightarrow>
        (case fixed_digits 2 s10 of None \<Rightarrow> (0, 0, s9) | Some (sec, s11) \<Rightarrow>
          (case lit (CHR ''.'') s11 of None \<Rightarrow> (sec, 0, s11) | Some s12 \<Rightarrow>
            (case fixed_digits 3 s12 of None \<Rightarrow> (sec, 0, s11) | Some (ms, s13) \<Rightarrow> (sec, ms, s13)))))"

definition iso_parse :: "string \<Rightarrow> instant option" where
  "iso_parse s0 =
     (case components s0 of None \<Rightarrow> None | Some c \<Rightarrow>
        (let (sec, ms, r) = parse_fraction (drop 16 s0);
             ok = 1 \<le> ct_month c \<and> ct_month c \<le> 12 \<and> 1 \<le> ct_day c
                  \<and> ct_day c \<le> days_in_month (ct_year c) (ct_month c)
                  \<and> ct_hour c \<le> 23 \<and> ct_minute c \<le> 59 \<and> sec \<le> 59
         in case parse_offset r of None \<Rightarrow> None | Some off \<Rightarrow>
              if ok then Some
                (days_of_civil (ct_year c) (ct_month c) (ct_day c) * 86400000
                 + ct_hour c * 3600000 + (ct_minute c - off) * 60000 + sec * 1000 + ms)
              else None))"

definition dateParse :: "calendar \<Rightarrow> string \<Rightarrow> instant option" where
  "dateParse cal s = (case iso_parse s of Some ms \<Rightarrow> Some ms | None \<Rightarrow> cal_legacyParse cal s)"

text \<open>\<^verbatim>\<open>parseInstantMs(iso, tz)\<close>; \<open>None\<close> is NaN.\<close>

definition parseInstantMs :: "calendar \<Rightarrow> string \<Rightarrow> string \<Rightarrow> instant option" where
  "parseInstantMs cal txt tz =
     (if has_offset txt then dateParse cal txt
      else (case components txt of None \<Rightarrow> dateParse cal txt | Some c \<Rightarrow> Some (cal_instant cal c tz)))"

text \<open>
  A calendar for witnesses: every zone is UTC, a month has thirty days and a year twelve months.
\<close>

definition duration_ms :: "duration \<Rightarrow> int" where
  "duration_ms d = 1000 * int (du_seconds d + 60 * (du_minutes d + 60 * (du_hours d + 24 * (du_days d
      + 7 * du_weeks d + 30 * (du_months d + 12 * du_years d)))))"

definition plain_calendar :: calendar where
  "plain_calendar =
     \<lparr>cal_instant = (\<lambda>c _. days_of_civil (ct_year c) (ct_month c) (ct_day c) * 86400000
        + ct_hour c * 3600000 + ct_minute c * 60000 + ct_second c * 1000),
      cal_add = (\<lambda>t _ d. t + duration_ms d), cal_sub = (\<lambda>t _ d. t - duration_ms d),
      cal_setHours = (\<lambda>t h m _. (t - t mod 86400000 + h * 3600000 + m * 60000, False)),
      cal_legacyParse = (\<lambda>_. None)\<rparr>"

section \<open>Rendering and reading back\<close>

lemma is_digit_char_of: "d < 10 \<Longrightarrow> is_digit (char_of (48 + d :: nat))"
  by (simp add: is_digit_def)

lemma digit_val_char_of: "d < 10 \<Longrightarrow> digit_val (char_of (48 + d :: nat)) = d"
  by (simp add: digit_val_def)

lemma show_nat_digits: "list_all is_digit (show_nat n)"
proof (induction n rule: show_nat.induct)
  case (1 n)
  then show ?case
    by (subst show_nat.simps) (auto simp: is_digit_char_of)
qed

lemma read_nat_snoc: "read_nat (s @ [c]) = 10 * read_nat s + digit_val c"
  by (simp add: read_nat_def)

lemma read_show_nat [simp]: "read_nat (show_nat n) = n"
proof (induction n rule: show_nat.induct)
  case (1 n)
  show ?case
  proof (cases "n < 10")
    case True
    then show ?thesis
      by (subst show_nat.simps) (simp add: read_nat_def digit_val_char_of)
  next
    case False
    with 1 show ?thesis
      by (subst show_nat.simps) (simp add: read_nat_snoc digit_val_char_of)
  qed
qed

lemma digits_split:
  assumes "list_all is_digit ds" and "r = [] \<or> \<not> is_digit (hd r)"
  shows "takeWhile is_digit (ds @ r) = ds \<and> dropWhile is_digit (ds @ r) = r"
proof -
  have "takeWhile is_digit r = [] \<and> dropWhile is_digit r = r" using assms(2) by (cases r) auto
  then show ?thesis using assms(1) by (simp add: list_all_iff)
qed

lemma opt_unit_present:
  "\<not> is_digit c \<Longrightarrow> opt_unit c (show_nat n @ c # r) = (n, r)"
  using digits_split [OF show_nat_digits, of "c # r" n] by (simp add: opt_unit_def)

lemma opt_unit_absent:
  "r = [] \<or> \<not> is_digit (hd r) \<Longrightarrow> opt_unit c r = (0, r)"
  using digits_split [of "[]" r] by (simp add: opt_unit_def)

lemma opt_unit_other:
  "\<not> is_digit c \<Longrightarrow> c \<noteq> c' \<Longrightarrow> opt_unit c' (show_nat n @ c # r) = (0, show_nat n @ c # r)"
  using digits_split [OF show_nat_digits, of "c # r" n] by (simp add: opt_unit_def)

text \<open>The canonical text of a duration: the non-zero parts in order.\<close>

definition show_unit :: "nat \<Rightarrow> char \<Rightarrow> string" where
  "show_unit n c = (if n = 0 then [] else show_nat n @ [c])"

definition show_duration :: "duration \<Rightarrow> string" where
  "show_duration d =
     ''P'' @ show_unit (du_years d) (CHR ''Y'') @ show_unit (du_months d) (CHR ''M'')
     @ show_unit (du_weeks d) (CHR ''W'') @ show_unit (du_days d) (CHR ''D'')
     @ ''T'' @ show_unit (du_hours d) (CHR ''H'') @ show_unit (du_minutes d) (CHR ''M'')
     @ show_unit (du_seconds d) (CHR ''S'')"

text \<open>
  A rest of a duration text whose first unit letter is not \<open>c\<close>: the group for \<open>c\<close> skips it.
\<close>

definition skips :: "char \<Rightarrow> string \<Rightarrow> bool" where
  "skips c r \<longleftrightarrow> (let u = dropWhile is_digit r in u = [] \<or> hd u \<noteq> c \<or> u = r)"

lemma opt_unit_skips: "skips c r \<Longrightarrow> opt_unit c r = (0, r)"
proof (cases "takeWhile is_digit r")
  case Nil
  then show ?thesis by (simp add: opt_unit_def)
next
  case (Cons d ds)
  then have "dropWhile is_digit r \<noteq> r"
    by (metis append_self_conv2 list.discI takeWhile_dropWhile_id)
  moreover assume "skips c r"
  ultimately show ?thesis by (auto simp: opt_unit_def skips_def Let_def)
qed

lemma opt_unit_show:
  assumes "\<not> is_digit c" and "skips c r"
  shows "opt_unit c (show_unit n c @ r) = (n, r)"
  using assms opt_unit_present [OF assms(1), of n r] opt_unit_skips [OF assms(2)]
  by (simp add: show_unit_def)

lemma skips_show:
  assumes "\<not> is_digit c'" and "c \<noteq> c'" and "skips c r"
  shows "skips c (show_unit n c' @ r)"
  using assms digits_split [OF show_nat_digits, of "c' # r" n]
  by (simp add: show_unit_def skips_def Let_def)

lemma skips_Nil: "skips c []"
  by (simp add: skips_def)

lemma skips_T: "skips c (CHR ''T'' # r)"
  by (simp add: skips_def is_digit_def)

lemmas duration_skips = skips_show skips_show [of _ _ "[]", simplified] skips_Nil skips_T

lemmas duration_units = opt_unit_show opt_unit_show [of _ "[]", simplified]

lemma accepted_duration_P: "parseIsoDuration s \<noteq> None \<Longrightarrow> \<exists>r. s = ''P'' @ r"
  by (cases s) (auto simp: parseIsoDuration_def split: if_splits)

section \<open>Properties\<close>

text \<open>
  Round trip of durations: the parser reads every canonically printed duration back, and the
  texts it accepts all begin with \<^verbatim>\<open>P\<close>.
\<close>

theorem parse_show_duration:
  "parseIsoDuration (show_duration d) = Some d
   \<and> {s. parseIsoDuration s \<noteq> None} \<subseteq> {s. starts_with s ''P''}"
proof
  have nd: "\<not> is_digit CHR ''Y''" "\<not> is_digit CHR ''M''" "\<not> is_digit CHR ''W''"
    "\<not> is_digit CHR ''D''" "\<not> is_digit CHR ''H''" "\<not> is_digit CHR ''S''"
    by (simp_all add: is_digit_def)
  show "parseIsoDuration (show_duration d) = Some d"
    using nd by (simp add: parseIsoDuration_def show_duration_def duration_units duration_skips)
  show "{s. parseIsoDuration s \<noteq> None} \<subseteq> {s. starts_with s ''P''}"
    using accepted_duration_P by (auto simp: starts_with_iff)
qed

section \<open>Civil dates\<close>

lemma div_bounds:
  fixes a b :: int
  assumes "0 < b"
  shows "b * (a div b) \<le> a" and "a < b * (a div b) + b"
  using assms mult_div_mod_eq [of b a] pos_mod_sign [of b a] pos_mod_bound [of b a] by linarith+

lemma div_eqI: "b * k \<le> a \<Longrightarrow> a < b * k + b \<Longrightarrow> a div b = (k :: int)"
  by (rule int_div_pos_eq [of _ _ _ "a - b * k"]) auto

text \<open>The part of a value up to a cap, as a quotient.\<close>

lemma capped_quotient:
  fixes a b :: int
  assumes "0 \<le> a" and "0 < b" and "0 \<le> m"
  obtains k where "0 \<le> k" "k \<le> m" "b * k \<le> a" "a < b * k + b \<or> k = m"
proof
  show "0 \<le> min (a div b) m" "min (a div b) m \<le> m" using assms by (auto simp: pos_imp_zdiv_nonneg_iff)
  show "b * min (a div b) m \<le> a"
    using div_bounds(1) [OF assms(2), of a] assms(2) mult_left_mono [of "min (a div b) m" "a div b" b] by linarith
  show "a < b * min (a div b) m + b \<or> min (a div b) m = m" using div_bounds(2) [OF assms(2), of a] by (auto simp: min_def)
qed

text \<open>A day of the 400-year era as century, four-year cycle, year and day of the year (counted from March).\<close>

lemma era_day:
  fixes doe :: int
  assumes "0 \<le> doe" and "doe < 146097"
  obtains c q r doy where "doe = 36524 * c + 1461 * q + 365 * r + doy" "0 \<le> c" "c \<le> 3" "0 \<le> q" "q \<le> 24" "0 \<le> r" "r \<le> 3"
    "0 \<le> doy" "doy \<le> 365" "doy = 365 \<Longrightarrow> r = 3 \<and> (q \<noteq> 24 \<or> c = 3)"
proof -
  obtain c where c: "0 \<le> c" "c \<le> 3" "36524 * c \<le> doe" "doe < 36524 * c + 36524 \<or> c = 3"
    using capped_quotient [OF assms(1), of 36524 3] by auto
  obtain q where q: "0 \<le> q" "q \<le> 24" "1461 * q \<le> doe - 36524 * c" "doe - 36524 * c < 1461 * q + 1461 \<or> q = 24"
    using capped_quotient [of "doe - 36524 * c" 1461 24] c(3) by auto
  obtain r where r: "0 \<le> r" "r \<le> 3" "365 * r \<le> doe - 36524 * c - 1461 * q" "doe - 36524 * c - 1461 * q < 365 * r + 365 \<or> r = 3"
    using capped_quotient [of "doe - 36524 * c - 1461 * q" 365 3] q(3) by auto
  show ?thesis
    by (rule that [of c q r "doe - 36524 * c - 1461 * q - 365 * r"]) (use c q r assms in linarith)+
qed

lemma year_of_era:
  fixes c q r doy :: int
  assumes doe: "doe = 36524 * c + 1461 * q + 365 * r + doy"
    and rng: "0 \<le> c" "c \<le> 3" "0 \<le> q" "q \<le> 24" "0 \<le> r" "r \<le> 3" "0 \<le> doy" "doy \<le> 365"
    and leap: "doy = 365 \<Longrightarrow> r = 3 \<and> (q \<noteq> 24 \<or> c = 3)"
  shows "(doe - doe div 1460 + doe div 36524 - doe div 146096) div 365 = 100 * c + 4 * q + r"
proof -
  have century: "doe div 36524 - doe div 146096 = c"
  proof (cases "doy = 365 \<and> q = 24")
    case True
    then have "doe = 146096" using leap doe by simp
    then show ?thesis using True leap by simp
  next
    case False
    then have "1461 * q + 365 * r + doy < 36524" using rng leap by (cases "doy = 365") linarith+
    then have "doe div 36524 = c" "doe div 146096 = 0" using rng by (auto simp: doe intro!: div_eqI)
    then show ?thesis by simp
  qed
  let ?R = "24 * c + q + 365 * r + doy"
  have cycle: "doe div 1460 = 25 * c + q + (if 1460 \<le> ?R then 1 else 0)"
    by (rule div_eqI) (use rng in \<open>auto simp: doe\<close>)
  have "365 * (100 * c + 4 * q + r) \<le> doe - doe div 1460 + c" "doe - doe div 1460 + c < 365 * (100 * c + 4 * q + r) + 365"
    unfolding cycle using rng leap by (cases "doy = 365"; cases "1460 \<le> ?R"; force simp: doe)+
  then have "(doe - doe div 1460 + c) div 365 = 100 * c + 4 * q + r" by (rule div_eqI)
  then show ?thesis using century by (simp add: add_diff_eq [symmetric])
qed

lemma month_of_doy:
  fixes doy :: int
  assumes "0 \<le> doy" and "doy \<le> 365"
  defines "mp \<equiv> (5 * doy + 2) div 153"
  shows "0 \<le> mp" "mp \<le> 11" "153 * mp \<le> 5 * doy + 2" "5 * doy + 2 < 153 * mp + 153"
proof -
  show lo: "153 * mp \<le> 5 * doy + 2" and hi: "5 * doy + 2 < 153 * mp + 153"
    unfolding mp_def by (simp_all add: div_bounds)
  show "0 \<le> mp" "mp \<le> 11" using lo hi assms(1,2) by linarith+
qed

lemma month_cases:
  fixes mp :: int
  assumes "0 \<le> mp" and "mp \<le> 11"
  shows "mp = 0 \<or> mp = 1 \<or> mp = 2 \<or> mp = 3 \<or> mp = 4 \<or> mp = 5 \<or> mp = 6 \<or> mp = 7 \<or> mp = 8 \<or> mp = 9 \<or> mp = 10 \<or> mp = 11"
  using assms by presburger

text \<open>The civil date of a day exists in the calendar and names that day.\<close>

lemma civil_of_days_valid:
  assumes "civil_of_days z = (y, m, d)"
  shows "1 \<le> m \<and> m \<le> 12 \<and> 1 \<le> d \<and> d \<le> days_in_month y m \<and> days_of_civil y m d = z"
proof -
  define era doe where "era = (z + 719468) div 146097" and "doe = (z + 719468) mod 146097"
  have z: "z = era * 146097 + doe - 719468" unfolding era_def doe_def using div_mult_mod_eq [of "z + 719468" 146097] by linarith
  have "0 \<le> doe" "doe < 146097" by (simp_all add: doe_def)
  then obtain c q r doy where dec: "doe = 36524 * c + 1461 * q + 365 * r + doy"
    and rng: "0 \<le> c" "c \<le> 3" "0 \<le> q" "q \<le> 24" "0 \<le> r" "r \<le> 3" "0 \<le> doy" "doy \<le> 365"
    and leap': "doy = 365 \<longrightarrow> r = 3 \<and> (q \<noteq> 24 \<or> c = 3)"
    by (rule era_day) blast
  note leap = leap' [rule_format]
  define yoe where "yoe = 100 * c + 4 * q + r"
  have yoe: "(doe - doe div 1460 + doe div 36524 - doe div 146096) div 365 = yoe"
    unfolding yoe_def by (rule year_of_era [OF dec rng leap])
  have yrng: "0 \<le> yoe" "yoe < 400" using rng by (auto simp: yoe_def)
  have quarters: "yoe div 4 = 25 * c + q" "yoe div 100 = c" using rng by (auto simp: yoe_def intro!: div_eqI)
  have doy: "doe - (365 * yoe + yoe div 4 - yoe div 100) = doy" unfolding quarters unfolding yoe_def dec by simp
  define mp where "mp = (5 * doy + 2) div 153"
  have m: "m = (if mp < 10 then mp + 3 else mp - 9)" and d: "d = doy - (153 * mp + 2) div 5 + 1"
    and y: "y = yoe + era * 400 + (if m \<le> 2 then 1 else 0)"
    using assms unfolding civil_of_days_def Let_def era_def [symmetric] doe_def [symmetric] yoe doy mp_def [symmetric] by auto
  note mpb = month_of_doy [OF rng(7,8), folded mp_def]
  have mrng: "1 \<le> m" "m \<le> 12" using mpb(1,2) by (auto simp: m)
  have unshift: "(if 2 < m then m - 3 else m + 9) = mp" using mpb(1,2) by (auto simp: m)
  have y': "(if m \<le> 2 then y - 1 else y) = yoe + era * 400" by (simp add: y)
  have era: "(yoe + era * 400) div 400 = era" "(yoe + era * 400) mod 400 = yoe" using yrng by auto
  have inv: "days_of_civil y m d = z"
    unfolding days_of_civil_def Let_def y' era unshift z using doy by (simp add: d algebra_simps)
  have leap_year: "y mod 4 = 0 \<and> (y mod 100 \<noteq> 0 \<or> y mod 400 = 0)" if feb: "doy = 365" "m \<le> 2"
  proof -
    have y4: "y = 4 * (100 * era + 25 * c + q + 1)" using leap [OF feb(1)] feb(2) by (simp add: y yoe_def)
    moreover have "y mod 100 \<noteq> 0 \<or> y mod 400 = 0"
    proof (cases "q = 24")
      case True
      then have "y = 400 * (era + 1)" using leap [OF feb(1)] y4 by simp
      then show ?thesis by simp
    next
      case False
      have "y mod 100 = 4 * (q + 1)"
        by (rule int_mod_pos_eq [of _ _ "4 * era + c"]) (use False rng y4 in auto)
      then show ?thesis using rng by simp
    qed
    ultimately show ?thesis by simp
  qed
  have "1 \<le> d \<and> d \<le> days_in_month y m"
  proof (cases "mp = 11")
    case True
    then have "m = 2" "d = doy - 336" "337 \<le> doy" using mpb(3) by (simp_all add: m d)
    then show ?thesis using rng(8) leap_year by (cases "doy = 365") (auto simp: days_in_month_def)
  next
    case False
    with month_cases [OF mpb(1,2)] have
      "mp = 0 \<or> mp = 1 \<or> mp = 2 \<or> mp = 3 \<or> mp = 4 \<or> mp = 5 \<or> mp = 6 \<or> mp = 7 \<or> mp = 8 \<or> mp = 9 \<or> mp = 10" by simp
    then show ?thesis using mpb(3,4) by (elim disjE) (simp_all add: m d days_in_month_def)
  qed
  with mrng inv show ?thesis by simp
qed

section \<open>Timestamps\<close>

lemma read_nat_zeros: "read_nat (replicate k (CHR ''0'') @ s) = read_nat s"
proof (induction k)
  case (Suc k)
  have "digit_val (CHR ''0'') = 0" by (simp add: digit_val_def)
  with Suc show ?case by (simp add: read_nat_def)
qed simp

lemma show_nat_length: "m < 10 ^ n \<Longrightarrow> 0 < n \<Longrightarrow> length (show_nat m) \<le> n"
proof (induction m arbitrary: n rule: show_nat.induct)
  case (1 m)
  show ?case
  proof (cases "m < 10")
    case True
    then show ?thesis using "1.prems" by (simp add: show_nat.simps [of m])
  next
    case False
    then have "1 < n" using "1.prems" by (cases n; cases "n = 1") auto
    then obtain n' where n: "n = Suc n'" "0 < n'" by (cases n) auto
    have "m div 10 < 10 ^ n'" using "1.prems"(1) n(1) by (simp add: div_less_iff_less_mult mult.commute)
    then show ?thesis using False "1.IH" n by (simp add: show_nat.simps [of m])
  qed
qed

lemma pad_int_length: "0 \<le> i \<Longrightarrow> i < 10 ^ n \<Longrightarrow> 0 < n \<Longrightarrow> length (pad_int n i) = n"
  using show_nat_length [of "nat i" n] by (simp add: pad_int_def pad_left_def nat_less_iff)

lemma pad_int_digits: "list_all is_digit (pad_int n i)"
  using show_nat_digits [of "nat i"] by (auto simp: pad_int_def pad_left_def list_all_iff is_digit_def)

lemma read_pad_int: "0 \<le> i \<Longrightarrow> int (read_nat (pad_int n i)) = i"
  by (simp add: pad_int_def pad_left_def read_nat_zeros)

lemma fixed_digits_pad:
  assumes "0 \<le> i" and "i < 10 ^ n" and "0 < n"
  shows "fixed_digits n (pad_int n i @ r) = Some (i, r)"
  using pad_int_length [OF assms] pad_int_digits [of n i] read_pad_int [OF assms(1)] by (simp add: fixed_digits_def)

lemma lit_same: "lit c (c # r) = Some r"
  by (simp add: lit_def)

lemma split_time: "u = (u div 3600000) * 3600000 + (u div 60000 mod 60) * 60000 + (u div 1000 mod 60) * 1000 + u mod (1000 :: int)"
proof -
  define a b where "a = u div 1000" and "b = a div 60"
  have min: "u div 60000 = b" and hour: "u div 3600000 = b div 60"
    unfolding a_def b_def using zdiv_zmult2_eq [of 60 u 1000] zdiv_zmult2_eq [of 3600 u 1000] zdiv_zmult2_eq [of 60 "u div 1000" 60] by simp_all
  have "u = a * 1000 + u mod 1000" "a = b * 60 + a mod 60" "b = b div 60 * 60 + b mod 60"
    unfolding a_def b_def by (rule div_mult_mod_eq [symmetric])+
  then show ?thesis unfolding min hour a_def [symmetric] by linarith
qed

lemma iso_parse_toISOString:
  assumes "0 \<le> fst (civil_of_days (t div 86400000))" and "fst (civil_of_days (t div 86400000)) \<le> 9999"
  shows "iso_parse (toISOString t) = Some t"
proof -
  obtain y m d where civil: "civil_of_days (t div 86400000) = (y, m, d)" by (metis prod_cases3)
  have y: "0 \<le> y" "y \<le> 9999" using assms by (simp_all add: civil)
  note valid = civil_of_days_valid [OF civil]
  have dm: "days_in_month y m \<le> 31" by (simp add: days_in_month_def)
  define u where "u = t mod 86400000"
  have u: "0 \<le> u" "u < 86400000" by (simp_all add: u_def)
  define h mi sec ms where "h = u div 3600000" and "mi = u div 60000 mod 60" and "sec = u div 1000 mod 60" and "ms = u mod 1000"
  have fields: "0 \<le> h" "h \<le> 23" "0 \<le> mi" "mi \<le> 59" "0 \<le> sec" "sec \<le> 59" "0 \<le> ms" "ms \<le> 999"
    using u by (auto simp: h_def mi_def sec_def ms_def)
  have parts: "u = h * 3600000 + mi * 60000 + sec * 1000 + ms"
    using split_time [of u] by (simp add: h_def mi_def sec_def ms_def)
  let ?r = "'':'' @ pad_int 2 sec @ ''.'' @ pad_int 3 ms @ ''Z''"
  let ?date = "pad_int 4 y @ ''-'' @ pad_int 2 m @ ''-'' @ pad_int 2 d @ ''T'' @ pad_int 2 h @ '':'' @ pad_int 2 mi"
  have shown: "toISOString t = ?date @ ?r"
    using y by (simp add: toISOString_def civil Let_def u_def [symmetric] h_def mi_def sec_def ms_def)
  have fd: "fixed_digits 4 (pad_int 4 y @ x) = Some (y, x)" "fixed_digits 2 (pad_int 2 m @ x) = Some (m, x)"
    "fixed_digits 2 (pad_int 2 d @ x) = Some (d, x)" "fixed_digits 2 (pad_int 2 h @ x) = Some (h, x)"
    "fixed_digits 2 (pad_int 2 mi @ x) = Some (mi, x)" "fixed_digits 2 (pad_int 2 sec @ x) = Some (sec, x)"
    "fixed_digits 3 (pad_int 3 ms @ x) = Some (ms, x)" for x
    using y valid dm fields by (auto intro!: fixed_digits_pad)
  have len: "length ?date = 16"
    using y valid dm fields by (simp add: pad_int_length)
  have comp: "components (?date @ ?r) = Some \<lparr>ct_year = y, ct_month = m, ct_day = d, ct_hour = h, ct_minute = mi, ct_second = sec\<rparr>"
    by (simp add: components_def fd lit_def)
  have frac: "parse_fraction ?r = (sec, ms, ''Z'')" by (simp add: parse_fraction_def lit_def fd)
  have drop: "drop 16 (?date @ ?r) = ?r" using len by (metis append_eq_conv_conj)
  have days: "days_of_civil y m d * 86400000 + u = t" using valid by (simp add: u_def)
  show ?thesis
    unfolding shown iso_parse_def comp drop frac
    using valid fields days parts by (simp add: parse_offset_def Let_def)
qed



end
