(* ===== verification/Wf_Passes.thy ===== *)
theory Wf_Passes
  imports Wf_Dispatch Wf_Time
begin

text \<open>
  The passes of a reconcile tick around the claim loop, from
  \<^verbatim>\<open>packages/workflows/src/engine/reconciler.ts\<close>: polling the child runs of agent tasks,
  invalidating stale approvals, applying the policies of rejected approvals, and soliciting
  approvals. Polling reads outside the lock and settles under it; the two halves are separate
  definitions, so that other transactions may run in between.
\<close>

section \<open>Polling child runs\<close>

record produced_artifact =
  pa_kind :: string
  pa_ref :: string
  pa_authoringStepId :: ident

record child_run_status =
  cs_status :: string
  cs_terminal :: bool
  cs_failed :: bool
  cs_hitl :: bool
  cs_error :: "json option"
  cs_artifacts :: "(string option \<times> string) list option"
  cs_output :: "json option"
  cs_producedArtifacts :: "produced_artifact list option"

record polled =
  p_task :: task_row
  p_attemptId :: ident
  p_attemptNo :: nat
  p_childRunId :: ident
  p_childStatus :: child_run_status

text \<open>
  The host's \<^verbatim>\<open>getChildRunStatus\<close>: \<open>Inl\<close> where it throws, \<open>Inr None\<close> where the status is not
  resolvable yet.
\<close>

type_synonym child_status_fn = "ident \<Rightarrow> string + child_run_status option"

definition poll_task :: "child_status_fn \<Rightarrow> db \<Rightarrow> task_row \<Rightarrow> polled option" where
  "poll_task getChildRunStatus s task =
     (case top_by a_attemptNo (filter (\<lambda>a. a_taskId a = t_id task \<and> a_status a = AttRunning
               \<and> a_childRunId a \<noteq> None) (db_attempts s)) of
        None \<Rightarrow> None
      | Some attempt \<Rightarrow>
          (case a_childRunId attempt of
             None \<Rightarrow> None
           | Some run \<Rightarrow>
               if run = [] then None
               else
                 (case getChildRunStatus run of
                    Inl _ \<Rightarrow> None
                  | Inr None \<Rightarrow> None
                  | Inr (Some cs) \<Rightarrow>
                      if \<not> cs_terminal cs \<and> \<not> cs_hitl cs then None
                      else Some \<lparr>p_task = task, p_attemptId = a_id attempt,
                                 p_attemptNo = a_attemptNo attempt, p_childRunId = run,
                                 p_childStatus = cs\<rparr>)))"

definition pollRead :: "child_status_fn \<Rightarrow> ident \<Rightarrow> db \<Rightarrow> polled list" where
  "pollRead getChildRunStatus wid s =
     List.map_filter (poll_task getChildRunStatus s)
       (filter (\<lambda>t. t_foreachConfig t = None)
         (filter (\<lambda>t. t_workflowId t = wid \<and> t_status t = TRunning \<and> t_type t = ''agent_task'') (db_tasks s)))"

definition insert_artifact ::
  "env \<Rightarrow> ident \<Rightarrow> ident \<Rightarrow> string option \<times> string \<Rightarrow> db \<Rightarrow> db" where
  "insert_artifact E wid tid art s =
     (let (aid, s1) = new_id E ''wart'' s
      in s1\<lparr>db_artifacts := db_artifacts s1 @
           [\<lparr>ar_id = aid, ar_workflowId = wid, ar_taskId = tid,
             ar_kind = nullish (fst art) ''agent_output'', ar_ref = snd art, ar_version = 1,
             ar_pinned = True, ar_authoringStepId = None, ar_createdAt = e_wall E\<rparr>]\<rparr>)"

text \<open>
  \<open>INSERT \<dots> ON CONFLICT DO NOTHING\<close> under the partial unique index on
  \<open>(workflow_id, task_id, ref) WHERE authoring_step_id IS NOT NULL\<close>.
\<close>

definition insert_produced :: "env \<Rightarrow> ident \<Rightarrow> ident \<Rightarrow> produced_artifact \<Rightarrow> db \<Rightarrow> db" where
  "insert_produced E wid tid pa s =
     (let (aid, s1) = new_id E ''wart'' s
      in if list_ex (\<lambda>r. ar_workflowId r = wid \<and> ar_taskId r = tid \<and> ar_ref r = pa_ref pa
                          \<and> ar_authoringStepId r \<noteq> None) (db_artifacts s1)
         then s1
         else s1\<lparr>db_artifacts := db_artifacts s1 @
              [\<lparr>ar_id = aid, ar_workflowId = wid, ar_taskId = tid, ar_kind = pa_kind pa,
                ar_ref = pa_ref pa, ar_version = 1, ar_pinned = True,
                ar_authoringStepId = Some (pa_authoringStepId pa), ar_createdAt = e_wall E\<rparr>]\<rparr>)"

definition settle_hitl ::
  "env \<Rightarrow> ident \<Rightarrow> execution_actor \<Rightarrow> polled \<Rightarrow> task_row \<Rightarrow> attempt_row \<Rightarrow> db \<Rightarrow> db" where
  "settle_hitl E wid prov p current att s =
     (let hitlIdem = a_idempotencyKey att @ '':hitl''
      in if list_ex (\<lambda>e. ev_idempotencyKey e = Some hitlIdem) (db_events s) then s
         else recordEvent E wid (Some (t_id (p_task p))) (Some (t_key current)) ''agent_hitl''
                (JObj [(''childRunId'', JStr (p_childRunId p)), (''status'', JStr (cs_status (p_childStatus p)))])
                prov (Some hitlIdem) s)"

definition settle_child_succeeded ::
  "env \<Rightarrow> ident \<Rightarrow> execution_actor \<Rightarrow> polled \<Rightarrow> task_row \<Rightarrow> db \<Rightarrow> db" where
  "settle_child_succeeded E wid prov p current s =
     (let tid = t_id (p_task p);
          cs = p_childStatus p;
          (moved, s1) = cas_task tid (t_lockVersion current)
            (\<lambda>t. (set_task_status E TSucceeded (t_lockVersion current) t)\<lparr>t_actualEndUtc := Some (e_wall E)\<rparr>) s
      in if \<not> moved then s1
         else
           (let s2 = s1\<lparr>db_attempts := update_where (\<lambda>a. a_id a = p_attemptId p)
                  (\<lambda>a. a\<lparr>a_status := AttSucceeded, a_completedAt := Some (e_wall E),
                         a_output := cs_output cs, a_updatedAt := e_wall E\<rparr>) (db_attempts s1)\<rparr>;
                artifacts = (Some ''agent_run'', p_childRunId p) # nullish (cs_artifacts cs) [];
                s3 = fold (insert_artifact E wid tid) artifacts s2;
                produced = nullish (cs_producedArtifacts cs) [];
                s4 = fold (insert_produced E wid tid) produced s3
            in recordEvent E wid (Some tid) (Some (t_key current)) ''succeeded''
                 (JObj [(''attemptNo'', JNum (int (p_attemptNo p))), (''childRunId'', JStr (p_childRunId p)),
                        (''artifacts'', JNum (int (length artifacts))),
                        (''producedArtifacts'', JNum (int (length produced)))]) prov None s4))"

definition settle_child_failed ::
  "env \<Rightarrow> ident \<Rightarrow> instant \<Rightarrow> execution_actor \<Rightarrow> polled \<Rightarrow> task_row \<Rightarrow> db \<times> ident list \<Rightarrow> db \<times> ident list" where
  "settle_child_failed E wid now prov p current st =
     (let (s, deadLettered) = st;
          cs = p_childStatus p;
          s1 = s\<lparr>db_attempts := update_where (\<lambda>a. a_id a = p_attemptId p)
                 (\<lambda>a. a\<lparr>a_status := AttFailed, a_error := cs_error cs,
                        a_completedAt := Some (e_wall E), a_updatedAt := e_wall E\<rparr>) (db_attempts s)\<rparr>
      in applyTaskFailure E wid current (p_attemptNo p)
           (Some (nullish (cs_error cs)
              (JObj [(''childRunId'', JStr (p_childRunId p)), (''status'', JStr (cs_status cs))])))
           now prov (s1, deadLettered))"

definition settle_polled ::
  "env \<Rightarrow> ident \<Rightarrow> instant \<Rightarrow> execution_actor \<Rightarrow> polled \<Rightarrow> db \<times> ident list \<Rightarrow> db \<times> ident list" where
  "settle_polled E wid now prov p st =
     (let (s, deadLettered) = st; cs = p_childStatus p
      in case find_task s (t_id (p_task p)) of
           None \<Rightarrow> st
         | Some current \<Rightarrow>
             if t_status current \<noteq> TRunning then st
             else
               (case find_attempt s (p_attemptId p) of
                  None \<Rightarrow> st
                | Some att \<Rightarrow>
                    if a_status att \<noteq> AttRunning \<or> a_childRunId att \<noteq> Some (p_childRunId p) then st
                    else if cs_hitl cs \<and> \<not> cs_terminal cs
                      then (settle_hitl E wid prov p current att s, deadLettered)
                    else if \<not> cs_failed cs
                      then (settle_child_succeeded E wid prov p current s, deadLettered)
                    else settle_child_failed E wid now prov p current st))"

definition pollSettle :: "env \<Rightarrow> ident \<Rightarrow> instant \<Rightarrow> polled list \<Rightarrow> db \<Rightarrow> ident list \<times> db" where
  "pollSettle E wid now polled s =
     (if polled = [] then ([], s)
      else
        (case find_workflow s wid of
           None \<Rightarrow> ([], s)
         | Some w \<Rightarrow>
             if w_status w \<noteq> WActive then ([], s)
             else
               (let (s', deadLettered) = fold (settle_polled E wid now (actor_of w)) polled (s, [])
                in (deadLettered, s'))))"

text \<open>Both halves with nothing in between.\<close>

definition pollRunningAgentTasks ::
  "env \<Rightarrow> ident \<Rightarrow> instant \<Rightarrow> child_status_fn \<Rightarrow> db \<Rightarrow> ident list \<times> db" where
  "pollRunningAgentTasks E wid now getChildRunStatus s =
     pollSettle E wid now (pollRead getChildRunStatus wid s) s"

section \<open>Stale approvals\<close>

text \<open>\<open>Boolean(ns.solicitedAt)\<close> of the notification state.\<close>

definition solicited :: "approval_row \<Rightarrow> bool" where
  "solicited ap \<longleftrightarrow>
     (case map_of (nullish (ap_notificationState ap) []) ''solicitedAt'' of
        Some (JStr x) \<Rightarrow> x \<noteq> []
      | Some JNull \<Rightarrow> False
      | Some (JBool b) \<Rightarrow> b
      | Some (JNum i) \<Rightarrow> i \<noteq> 0
      | Some _ \<Rightarrow> True
      | None \<Rightarrow> False)"

definition was_opened :: "approval_row \<Rightarrow> bool" where
  "was_opened ap \<longleftrightarrow>
     ap_status ap = ApGranted \<or> ap_status ap = ApNeedsRevision \<or> ap_status ap = ApPending \<and> solicited ap"

definition invalidate_approval ::
  "env \<Rightarrow> instant \<Rightarrow> (ident \<rightharpoonup> task_row) \<Rightarrow> (ident \<rightharpoonup> string) \<Rightarrow> dependency_row list \<Rightarrow> approval_row \<Rightarrow>
   db \<Rightarrow> db" where
  "invalidate_approval E now taskById keyById deps ap s =
     (case ap_reviewPacketHash ap of
        None \<Rightarrow> s
      | Some hash \<Rightarrow>
          if hash = [] then s
          else
            (case taskById (ap_taskId ap) of
               None \<Rightarrow> s
             | Some task \<Rightarrow>
                 if isTerminalTaskStatus (t_status task) then s
                 else if \<not> was_opened ap then s
                 else
                   (let currentHash = computeReviewPacketHash E task (ap_requiredScope ap) deps taskById keyById
                    in if currentHash = hash then s
                       else s\<lparr>db_approvals := update_where
                              (\<lambda>a. ap_id a = ap_id ap \<and> ap_status a = ap_status ap
                                   \<and> ap_reviewPacketHash a = Some hash)
                              (\<lambda>a. a\<lparr>ap_status := ApPending, ap_notificationState := Some [],
                                     ap_invalidatedAt := Some now, ap_reviewPacketHash := Some currentHash,
                                     ap_updatedAt := e_wall E\<rparr>)
                              (db_approvals s)\<rparr>)))"

definition invalidateStaleApprovals :: "env \<Rightarrow> ident \<Rightarrow> instant \<Rightarrow> db \<Rightarrow> db" where
  "invalidateStaleApprovals E wid now s =
     (case find_workflow s wid of
        None \<Rightarrow> s
      | Some w \<Rightarrow>
          if w_status w \<noteq> WActive then s
          else
            (let tasks = tasks_of s wid;
                 taskById = js_map (map (\<lambda>t. (t_id t, t)) tasks);
                 keyById = js_map (map (\<lambda>t. (t_id t, t_key t)) tasks)
             in fold (invalidate_approval E now taskById keyById (deps_of s wid)) (approvals_of s wid) s))"

section \<open>Rejected approvals\<close>

definition skip_rejected ::
  "env \<Rightarrow> ident \<Rightarrow> execution_actor \<Rightarrow> (ident \<rightharpoonup> task_row) \<Rightarrow> approval_row \<Rightarrow> db \<Rightarrow> db" where
  "skip_rejected E wid prov taskById ap s =
     (if ap_status ap \<noteq> ApRejected then s
      else if ap_rejectionPolicy ap = Some ''skip'' then
        (case taskById (ap_taskId ap) of
           None \<Rightarrow> s
         | Some task \<Rightarrow>
             if isTerminalTaskStatus (t_status task) then s
             else
               (let (_, s1) = cas_task (t_id task) (t_lockVersion task)
                      (set_task_status E TSkipped (t_lockVersion task)) s
                in recordEvent E wid (Some (t_id task)) (Some (t_key task)) ''skipped''
                     (JObj [(''reason'', JStr ''approval_rejected_skip'')]) prov None s1))
      else s)"

definition NON_TERMINAL_TASK_STATUSES :: "task_status list" where
  "NON_TERMINAL_TASK_STATUSES = [TIdle, TScheduled, TRunning, TPendingApproval]"

text \<open>\<open>UPDATE workflow_task SET status = 'cancelled' \<dots> WHERE workflow_id = \<dots> AND status IN (\<dots>)\<close>.\<close>

definition cancel_open_tasks :: "env \<Rightarrow> ident \<Rightarrow> db \<Rightarrow> db" where
  "cancel_open_tasks E wid s =
     s\<lparr>db_tasks := update_where
          (\<lambda>t. t_workflowId t = wid \<and> t_status t \<in> set NON_TERMINAL_TASK_STATUSES)
          (\<lambda>t. set_task_status E TCancelled (t_lockVersion t) t) (db_tasks s)\<rparr>"

text \<open>The child run ids on the running attempts of a workflow.\<close>

definition live_child_runs :: "db \<Rightarrow> ident \<Rightarrow> ident list" where
  "live_child_runs s wid =
     filter (\<lambda>c. c \<noteq> [])
       (List.map_filter a_childRunId
         (filter (\<lambda>a. a_workflowId a = wid \<and> a_status a = AttRunning) (db_attempts s)))"

definition clear_leases :: "ident \<Rightarrow> db \<Rightarrow> db" where
  "clear_leases wid s = s\<lparr>db_leases := delete_where (\<lambda>l. l_workflowId l = wid) (db_leases s)\<rparr>"

definition cancel_by_rejection ::
  "env \<Rightarrow> ident \<Rightarrow> workflow_row \<Rightarrow> execution_actor \<Rightarrow> db \<Rightarrow> ident list \<times> db" where
  "cancel_by_rejection E wid w prov s =
     (let (moved, s1) = cas_workflow wid (w_lockVersion w) (\<lambda>_. True)
            (set_workflow_status E WCancelled (w_lockVersion w)) s
      in if \<not> moved then ([], s1)
         else
           (let runs = live_child_runs s1 wid;
                s2 = clear_leases wid (cancel_open_tasks E wid s1)
            in (runs, recordEvent E wid None None ''workflow_cancelled''
                  (JObj [(''reason'', JStr ''approval_rejected_cancel''),
                         (''cancelledChildRuns'', JNum (int (length runs)))]) prov None s2)))"

definition applyRejectedApprovalPolicies :: "env \<Rightarrow> ident \<Rightarrow> db \<Rightarrow> ident list \<times> db" where
  "applyRejectedApprovalPolicies E wid s =
     (case find_workflow s wid of
        None \<Rightarrow> ([], s)
      | Some w \<Rightarrow>
          if w_status w \<noteq> WActive then ([], s)
          else
            (let approvals = approvals_of s wid;
                 taskById = js_map (map (\<lambda>t. (t_id t, t)) (tasks_of s wid));
                 prov = actor_of w;
                 cancel = list_ex (\<lambda>ap. ap_status ap = ApRejected \<and> ap_rejectionPolicy ap = Some ''cancel'') approvals;
                 s1 = fold (skip_rejected E wid prov taskById) approvals s
             in if cancel then cancel_by_rejection E wid w prov s1 else ([], s1)))"

section \<open>Soliciting approvals\<close>

definition text_field :: "(string \<times> json) list \<Rightarrow> string \<Rightarrow> string option" where
  "text_field o' k = (case map_of o' k of Some (JStr x) \<Rightarrow> Some x | _ \<Rightarrow> None)"

definition computeSolicitAt ::
  "calendar \<Rightarrow> (string \<times> json) list option \<Rightarrow> instant option \<Rightarrow> instant \<Rightarrow> string \<Rightarrow> instant" where
  "computeSolicitAt cal schedule taskDueAtUtc now targetTz =
     (case schedule of
        None \<Rightarrow> now
      | Some sch \<Rightarrow>
          (case (text_field sch ''mode'' = Some ''absolute'', text_field sch ''at'') of
             (True, Some at) \<Rightarrow>
               (let tz = (case text_field sch ''tz'' of
                            Some z \<Rightarrow> if z \<noteq> [] then z else if targetTz \<noteq> [] then targetTz else ''UTC''
                          | None \<Rightarrow> if targetTz \<noteq> [] then targetTz else ''UTC'')
                in case parseInstantMs cal at tz of None \<Rightarrow> now | Some ms \<Rightarrow> ms)
           | _ \<Rightarrow>
               (case (text_field sch ''mode'' = Some ''relative'', taskDueAtUtc, text_field sch ''offsetIso8601'') of
                  (True, Some due, Some off) \<Rightarrow>
                    (case parseIsoDuration off of
                       Some dur \<Rightarrow>
                         if map_of sch ''direction'' = Some (JStr ''after'')
                         then cal_add cal due None dur else cal_sub cal due None dur
                     | None \<Rightarrow> now)
                | _ \<Rightarrow> now)))"

text \<open>\<open>{ ...ns, solicitedAt: x }\<close>: an existing key keeps its place.\<close>

definition with_key :: "string \<Rightarrow> json \<Rightarrow> (string \<times> json) list \<Rightarrow> (string \<times> json) list" where
  "with_key k v o' = AList.update k v o'"

definition solicit_approval ::
  "env \<Rightarrow> calendar \<Rightarrow> instant \<Rightarrow> workflow_row \<Rightarrow> (ident \<rightharpoonup> task_row) \<Rightarrow> (ident \<rightharpoonup> string) \<Rightarrow>
   (ident \<rightharpoonup> task_status) \<Rightarrow> dependency_row list \<Rightarrow> approval_row \<Rightarrow> db \<times> ident list \<Rightarrow> db \<times> ident list" where
  "solicit_approval E cal now w taskById keyById statusById deps ap st =
     (let (s, solicitedIds) = st
      in if ap_status ap \<noteq> ApPending then st
         else if solicited ap then st
         else
           (case taskById (ap_taskId ap) of
              None \<Rightarrow> st
            | Some task \<Rightarrow>
                if \<not> list_all (\<lambda>d. resolveDependency (nullish (statusById (d_dependsOnTaskId d)) TIdle)
                                    (d_outcome d) = Satisfied)
                     (filter (\<lambda>d. d_taskId d = t_id task) deps) then st
                else if now < computeSolicitAt cal (ap_solicitationSchedule ap) (t_dueAtUtc task) now
                                (nullish (w_targetTz w) ''UTC'') then st
                else
                  (let hit = (\<lambda>a. ap_id a = ap_id ap \<and> ap_status a = ApPending);
                       s1 = s\<lparr>db_approvals := update_where hit
                              (\<lambda>a. a\<lparr>ap_notificationState :=
                                       Some (with_key ''solicitedAt'' (JStr (toISOString now))
                                               (nullish (ap_notificationState ap) [])),
                                     ap_reviewPacketHash := Some (computeReviewPacketHash E task
                                       (ap_requiredScope ap) deps taskById keyById),
                                     ap_invalidatedAt := None, ap_updatedAt := e_wall E\<rparr>)
                              (db_approvals s)\<rparr>
                   in (s1, if list_ex hit (db_approvals s) then solicitedIds @ [ap_taskId ap] else solicitedIds))))"

definition solicitApprovals :: "env \<Rightarrow> calendar \<Rightarrow> ident \<Rightarrow> instant \<Rightarrow> db \<Rightarrow> ident list \<times> db" where
  "solicitApprovals E cal wid now s =
     (case find_workflow s wid of
        None \<Rightarrow> ([], s)
      | Some w \<Rightarrow>
          if w_status w \<noteq> WActive then ([], s)
          else
            (let tasks = tasks_of s wid;
                 statusById = js_map (map (\<lambda>t. (t_id t, t_status t)) tasks);
                 taskById = js_map (map (\<lambda>t. (t_id t, t)) tasks);
                 keyById = js_map (map (\<lambda>t. (t_id t, t_key t)) tasks);
                 (s', ids) = fold (solicit_approval E cal now w taskById keyById statusById (deps_of s wid))
                               (approvals_of s wid) (s, [])
             in (ids, s')))"

end
