(* ===== verification/Wf_Finalize.thy ===== *)
theory Wf_Finalize
  imports Wf_Passes
begin

text \<open>
  \<^verbatim>\<open>finalizeWorkflow\<close> of \<^verbatim>\<open>packages/workflows/src/engine/reconciler.ts\<close>: the propagation of skips to a
  fixed point, the roll-up and the compare-and-set of the workflow status. The propagation loop
  is a total function: every round that changes something skips at least one open task. The
  theorems give its result in closed form: which tasks are skipped (an inductive definition),
  when a blocking failure is found, and what the workflow status becomes.
\<close>

section \<open>The propagation loop\<close>

definition terminal_unmatched :: "task_status \<Rightarrow> dependency_outcome \<Rightarrow> bool" where
  "terminal_unmatched up outcome \<longleftrightarrow>
     up = TFailed \<and> outcome \<noteq> OnFailed \<or> up = TSkipped \<and> outcome = OnSuccess
     \<or> up = TSucceeded \<and> outcome = OnFailed \<or> up = TCancelled"

definition status_in :: "(ident \<rightharpoonup> task_status) \<Rightarrow> ident \<Rightarrow> task_status" where
  "status_in statusById tid = nullish (statusById tid) TIdle"

definition edge_unmatched :: "(ident \<rightharpoonup> task_status) \<Rightarrow> dependency_row \<Rightarrow> bool" where
  "edge_unmatched statusById d \<longleftrightarrow> terminal_unmatched (status_in statusById (d_dependsOnTaskId d)) (d_outcome d)"

text \<open>An unmatched edge whose upstream failed under the block policy.\<close>

definition edge_blocking :: "(ident \<rightharpoonup> failure_policy) \<Rightarrow> (ident \<rightharpoonup> task_status) \<Rightarrow> dependency_row \<Rightarrow> bool" where
  "edge_blocking policyById statusById d \<longleftrightarrow>
     edge_unmatched statusById d \<and> status_in statusById (d_dependsOnTaskId d) = TFailed
     \<and> nullish (policyById (d_dependsOnTaskId d)) FpBlock = FpBlock"

text \<open>A task the loop considers: neither terminal nor running.\<close>

definition considered :: "task_status \<Rightarrow> bool" where
  "considered st \<longleftrightarrow> \<not> isTerminalTaskStatus st \<and> st \<noteq> TRunning"

text \<open>The state of the loop: the status map, the blocking flag, the changed flag, the database.\<close>

type_synonym skip_state = "(ident \<rightharpoonup> task_status) \<times> bool \<times> bool \<times> db"

definition skip_visit ::
  "env \<Rightarrow> ident \<Rightarrow> execution_actor \<Rightarrow> dependency_row list \<Rightarrow> (ident \<rightharpoonup> failure_policy) \<Rightarrow> (ident \<rightharpoonup> string) \<Rightarrow>
   task_row \<Rightarrow> skip_state \<Rightarrow> task_row \<times> skip_state" where
  "skip_visit E wid prov deps policyById keyById task x =
     (let (statusById, blockingFailure, changed, s) = x; st = status_in statusById (t_id task)
      in if \<not> considered st then (task, x)
         else
           (let edges = filter (\<lambda>d. d_taskId d = t_id task) deps;
                permanentlyBlocked = list_ex (edge_unmatched statusById) edges;
                blocking = (blockingFailure \<or> list_ex (edge_blocking policyById statusById) edges)
            in if permanentlyBlocked \<and> \<not> blocking
               then
                 (let (_, s1) = cas_task (t_id task) (t_lockVersion task)
                        (set_task_status E TSkipped (t_lockVersion task)) s;
                      s2 = recordEvent E wid (Some (t_id task)) (keyById (t_id task)) ''skipped''
                             (JObj [(''reason'', JStr ''upstream terminal-unmatched'')]) prov None s1
                  in (task\<lparr>t_lockVersion := t_lockVersion task + 1\<rparr>,
                      statusById(t_id task \<mapsto> TSkipped), blocking, True, s2))
               else (task, statusById, blocking, changed, s)))"

fun skip_pass ::
  "env \<Rightarrow> ident \<Rightarrow> execution_actor \<Rightarrow> dependency_row list \<Rightarrow> (ident \<rightharpoonup> failure_policy) \<Rightarrow> (ident \<rightharpoonup> string) \<Rightarrow>
   task_row list \<Rightarrow> skip_state \<Rightarrow> task_row list \<times> skip_state" where
  "skip_pass E wid prov deps policyById keyById [] x = ([], x)"
| "skip_pass E wid prov deps policyById keyById (t # ts) x =
     (let (t', x') = skip_visit E wid prov deps policyById keyById t x;
          (ts', x'') = skip_pass E wid prov deps policyById keyById ts x'
      in (t' # ts', x''))"

text \<open>The number of tasks still considered: it falls in every round that changes something.\<close>

definition open_count :: "task_row list \<Rightarrow> (ident \<rightharpoonup> task_status) \<Rightarrow> nat" where
  "open_count ts st = length (filter (\<lambda>t. considered (status_in st (t_id t))) ts)"

lemma not_considered_skipped [simp]: "\<not> considered TSkipped"
  by (simp add: considered_def isTerminalTaskStatus_def)

lemma skip_visit_status:
  "skip_visit E wid prov deps pol ky t (st, b, c, s) = (t', st', b', c', s') \<Longrightarrow>
     t_id t' = t_id t \<and> (st' = st \<and> c' = c \<or> considered (status_in st (t_id t)) \<and> st' = st(t_id t \<mapsto> TSkipped) \<and> c')"
  by (auto simp: skip_visit_def Let_def split: if_splits prod.splits)

lemma skip_pass_ids:
  "skip_pass E wid prov deps pol ky ts (st, b, c, s) = (ts', st', b', c', s') \<Longrightarrow> map t_id ts' = map t_id ts"
proof (induction ts arbitrary: st b c s ts' st' b' c' s')
  case (Cons t ts)
  from Cons.prems obtain t1 st1 b1 c1 s1 ts1 where
    v: "skip_visit E wid prov deps pol ky t (st, b, c, s) = (t1, st1, b1, c1, s1)"
    and p: "skip_pass E wid prov deps pol ky ts (st1, b1, c1, s1) = (ts1, st', b', c', s')"
    and ts': "ts' = t1 # ts1"
    by (auto split: prod.splits)
  from Cons.IH [OF p] skip_visit_status [OF v] ts' show ?case by simp
qed simp

text \<open>One round moves considered tasks to skipped and changes nothing else.\<close>

definition skips_to :: "(ident \<rightharpoonup> task_status) \<Rightarrow> (ident \<rightharpoonup> task_status) \<Rightarrow> bool" where
  "skips_to st st' \<longleftrightarrow>
     (\<forall>i. st' i = st i \<or> considered (status_in st i) \<and> st' i = Some TSkipped)"

lemma skips_to_refl: "skips_to st st"
  by (simp add: skips_to_def)

lemma skips_to_trans: "skips_to a b \<Longrightarrow> skips_to b c \<Longrightarrow> skips_to a c"
  unfolding skips_to_def status_in_def by (metis not_considered_skipped nullish_simps(2))

lemma skip_visit_skips:
  "skip_visit E wid prov deps pol ky t (st, b, c, s) = (t', st', b', c', s') \<Longrightarrow> skips_to st st'"
  using skip_visit_status [of E wid prov deps pol ky t st b c s t' st' b' c' s']
  by (auto simp: skips_to_def split: if_splits)

lemma skip_pass_skips:
  "skip_pass E wid prov deps pol ky ts (st, b, c, s) = (ts', st', b', c', s') \<Longrightarrow> skips_to st st'"
proof (induction ts arbitrary: st b c s ts' st' b' c' s')
  case (Cons t ts)
  from Cons.prems obtain t1 st1 b1 c1 s1 ts1 where
    v: "skip_visit E wid prov deps pol ky t (st, b, c, s) = (t1, st1, b1, c1, s1)"
    and p: "skip_pass E wid prov deps pol ky ts (st1, b1, c1, s1) = (ts1, st', b', c', s')"
    by (auto split: prod.splits)
  from skip_visit_skips [OF v] Cons.IH [OF p] show ?case by (rule skips_to_trans)
qed (simp add: skips_to_refl)

lemma open_count_mono: "skips_to st st' \<Longrightarrow> open_count ts st' \<le> open_count ts st"
proof (induction ts)
  case (Cons t ts)
  have "considered (status_in st' (t_id t)) \<Longrightarrow> considered (status_in st (t_id t))"
    using Cons.prems unfolding skips_to_def status_in_def
    by (metis not_considered_skipped nullish_simps(2))
  with Cons show ?case by (auto simp: open_count_def)
qed (simp add: open_count_def)

lemma skip_pass_progress:
  "skip_pass E wid prov deps pol ky ts (st, b, c, s) = (ts', st', b', c', s') \<Longrightarrow>
     c' = c \<and> st' = st \<or> c' \<and> open_count ts st' < open_count ts st"
proof (induction ts arbitrary: st b c s ts' st' b' c' s')
  case (Cons t ts)
  from Cons.prems obtain t1 st1 b1 c1 s1 ts1 where
    v: "skip_visit E wid prov deps pol ky t (st, b, c, s) = (t1, st1, b1, c1, s1)"
    and p: "skip_pass E wid prov deps pol ky ts (st1, b1, c1, s1) = (ts1, st', b', c', s')"
    by (auto split: prod.splits)
  have sk: "skips_to st1 st'" by (rule skip_pass_skips [OF p])
  have split: "open_count (t # ts) st0 = (if considered (status_in st0 (t_id t)) then 1 else 0) + open_count ts st0"
    for st0 by (simp add: open_count_def)
  have head: "(if considered (status_in st' (t_id t)) then 1 else 0 :: nat)
      \<le> (if considered (status_in st1 (t_id t)) then 1 else 0)"
    using open_count_mono [OF sk, of "[t]"] by (auto simp: open_count_def split: if_splits)
  have sk1: "skips_to st st1" by (rule skip_visit_skips [OF v])
  show ?case
  proof (cases "st1 = st \<and> c1 = c")
    case True
    with Cons.IH [OF p] head show ?thesis by (auto simp: split)
  next
    case False
    with skip_visit_status [OF v] have c: "considered (status_in st (t_id t))"
      "st1 = st(t_id t \<mapsto> TSkipped)" "c1" by auto
    then have "\<not> considered (status_in st' (t_id t))"
      using head by (simp add: status_in_def split: if_splits)
    moreover have "open_count ts st' \<le> open_count ts st"
      using open_count_mono [OF sk, of ts] open_count_mono [OF sk1, of ts] by linarith
    moreover from Cons.IH [OF p] c have "c'" by auto
    ultimately show ?thesis using c by (simp add: split)
  qed
qed simp

lemma open_count_ids: "map t_id ts' = map t_id ts \<Longrightarrow> open_count ts' st = open_count ts st"
proof -
  have "open_count us st = length (filter (\<lambda>i. considered (status_in st i)) (map t_id us))" for us
    by (simp add: open_count_def filter_map comp_def)
  then show "map t_id ts' = map t_id ts \<Longrightarrow> open_count ts' st = open_count ts st" by metis
qed

text \<open>\<open>while (changed) { changed = false; for (\<dots>) \<dots> }\<close>.\<close>

function skip_fixpoint ::
  "env \<Rightarrow> ident \<Rightarrow> execution_actor \<Rightarrow> dependency_row list \<Rightarrow> (ident \<rightharpoonup> failure_policy) \<Rightarrow> (ident \<rightharpoonup> string) \<Rightarrow>
   task_row list \<Rightarrow> skip_state \<Rightarrow> skip_state" where
  "skip_fixpoint E wid prov deps policyById keyById tasks x =
     (let r = skip_pass E wid prov deps policyById keyById tasks (fst x, fst (snd x), False, snd (snd (snd x)))
      in if fst (snd (snd (snd r)))
         then skip_fixpoint E wid prov deps policyById keyById (fst r) (snd r)
         else snd r)"
  by pat_completeness auto
termination
proof (relation "measure (\<lambda>(E, wid, prov, deps, pol, ky, ts, x). open_count ts (fst x))")
  fix E :: env and wid prov deps pol ky ts and x :: skip_state and r
  assume r: "r = skip_pass E wid prov deps pol ky ts (fst x, fst (snd x), False, snd (snd (snd x)))"
    and ch: "fst (snd (snd (snd r)))"
  obtain ts' st' b' c' s' where
    p: "skip_pass E wid prov deps pol ky ts (fst x, fst (snd x), False, snd (snd (snd x))) = (ts', st', b', c', s')"
    by (rule prod_cases5)
  from ch have "c'" unfolding r p by simp
  with skip_pass_progress [OF p] open_count_ids [OF skip_pass_ids [OF p], of st']
  have "open_count ts' st' < open_count ts (fst x)" by simp
  then show "((E, wid, prov, deps, pol, ky, fst r, snd r), E, wid, prov, deps, pol, ky, ts, x)
      \<in> measure (\<lambda>(E, wid, prov, deps, pol, ky, ts, x). open_count ts (fst x))" unfolding r p by simp
qed simp

declare skip_fixpoint.simps [simp del]

section \<open>finalizeWorkflow\<close>

definition rollup_of :: "(ident \<rightharpoonup> task_status) \<Rightarrow> task_row \<Rightarrow> rollup_input" where
  "rollup_of statusById t =
     \<lparr>ri_status = status_in statusById (t_id t), ri_required = Some (t_required t),
      ri_failurePolicy = Some (nullish (t_failurePolicy t) FpBlock)\<rparr>"

text \<open>The compare-and-set of the workflow status, with its lease clean-up and terminal event.\<close>

definition finalize_status ::
  "env \<Rightarrow> ident \<Rightarrow> workflow_row \<Rightarrow> execution_actor \<Rightarrow> workflow_status \<Rightarrow> db \<Rightarrow> (string \<times> bool) \<times> db" where
  "finalize_status E wid w prov next s =
     (if next \<noteq> WActive
      then
        (let (moved, s1) = cas_workflow wid (w_lockVersion w) (\<lambda>_. True)
               (set_workflow_status E next (w_lockVersion w)) s
         in if moved
            then ((workflow_status_text next, True),
                  recordEvent E wid None None (''workflow_'' @ workflow_status_text next) (JObj []) prov None
                    (clear_leases wid s1))
            else ((workflow_status_text next, False), s1))
      else ((workflow_status_text next, False), s))"

definition finalizeWorkflow :: "env \<Rightarrow> ident \<Rightarrow> db \<Rightarrow> (string \<times> bool) \<times> db" where
  "finalizeWorkflow E wid s =
     (case find_workflow s wid of
        None \<Rightarrow> ((''missing'', False), s)
      | Some w \<Rightarrow>
          if w_status w \<noteq> WActive then ((workflow_status_text (w_status w), False), s)
          else
            (let tasks = tasks_of s wid;
                 deps = deps_of s wid;
                 keyById = js_map (map (\<lambda>t. (t_id t, t_key t)) tasks);
                 policyById = js_map (map (\<lambda>t. (t_id t, nullish (t_failurePolicy t) FpBlock)) tasks);
                 statusById = js_map (map (\<lambda>t. (t_id t, t_status t)) tasks);
                 prov = actor_of w;
                 (st, blockingFailure, _, s1) =
                   skip_fixpoint E wid prov deps policyById keyById tasks (statusById, False, False, s);
                 next = rollUpWorkflowStatus (map (rollup_of st) tasks)
             in finalize_status E wid w prov (if blockingFailure then WFailed else next) s1))"

section \<open>The result of the propagation in closed form\<close>

text \<open>
  A task is doomed when it is considered at the start and one of its edges can never be
  satisfied: the upstream is terminal with another outcome, or the edge waits for the success of
  a task that is itself doomed.
\<close>

inductive doomed :: "dependency_row list \<Rightarrow> (ident \<rightharpoonup> task_status) \<Rightarrow> ident set \<Rightarrow> ident \<Rightarrow> bool"
  for deps st0 ids where
  doomed_edge: "i \<in> ids \<Longrightarrow> considered (status_in st0 i) \<Longrightarrow> d \<in> set deps \<Longrightarrow> d_taskId d = i \<Longrightarrow>
     edge_unmatched st0 d \<Longrightarrow> doomed deps st0 ids i"
| doomed_chain: "i \<in> ids \<Longrightarrow> considered (status_in st0 i) \<Longrightarrow> d \<in> set deps \<Longrightarrow> d_taskId d = i \<Longrightarrow>
     d_outcome d = OnSuccess \<Longrightarrow> doomed deps st0 ids (d_dependsOnTaskId d) \<Longrightarrow> doomed deps st0 ids i"

text \<open>A considered task with an edge to a failed task of block policy.\<close>

definition blocks ::
  "dependency_row list \<Rightarrow> (ident \<rightharpoonup> failure_policy) \<Rightarrow> (ident \<rightharpoonup> task_status) \<Rightarrow> ident \<Rightarrow> bool" where
  "blocks deps pol st0 i \<longleftrightarrow>
     considered (status_in st0 i) \<and> list_ex (\<lambda>d. d_taskId d = i \<and> edge_blocking pol st0 d) deps"

definition skip_good ::
  "dependency_row list \<Rightarrow> (ident \<rightharpoonup> failure_policy) \<Rightarrow> (ident \<rightharpoonup> task_status) \<Rightarrow> ident set \<Rightarrow>
   (ident \<rightharpoonup> task_status) \<Rightarrow> bool \<Rightarrow> bool" where
  "skip_good deps pol st0 ids st b \<longleftrightarrow>
     skips_to st0 st \<and> (\<forall>i. st i \<noteq> st0 i \<longrightarrow> doomed deps st0 ids i \<and> \<not> blocks deps pol st0 i)
     \<and> (b \<longrightarrow> (\<exists>i \<in> ids. blocks deps pol st0 i))"

text \<open>No considered task of the list has an edge that can never be satisfied.\<close>

definition skip_settled :: "dependency_row list \<Rightarrow> (ident \<rightharpoonup> task_status) \<Rightarrow> ident \<Rightarrow> bool" where
  "skip_settled deps st i \<longleftrightarrow>
     \<not> (considered (status_in st i) \<and> list_ex (\<lambda>d. d_taskId d = i \<and> edge_unmatched st d) deps)"

lemma skips_to_considered: "skips_to st0 st \<Longrightarrow> considered (status_in st i) \<Longrightarrow> st i = st0 i"
  unfolding skips_to_def status_in_def by (metis not_considered_skipped nullish_simps(2))

lemma skips_to_failed: "skips_to st0 st \<Longrightarrow> status_in st i = TFailed \<longleftrightarrow> status_in st0 i = TFailed"
  unfolding skips_to_def status_in_def considered_def isTerminalTaskStatus_def
  by (metis nullish_simps(2) task_status.distinct)

lemma unmatched_not_considered: "terminal_unmatched up o' \<Longrightarrow> \<not> considered up"
  by (auto simp: terminal_unmatched_def considered_def isTerminalTaskStatus_def)

lemma skips_to_blocking:
  "skips_to st0 st \<Longrightarrow> edge_blocking pol st d \<longleftrightarrow> edge_blocking pol st0 d"
  using skips_to_failed [of st0 st "d_dependsOnTaskId d"]
  by (auto simp: edge_blocking_def edge_unmatched_def terminal_unmatched_def)

lemma unmatched_doomed:
  assumes g: "skip_good deps pol st0 ids st b" and i: "i \<in> ids" and c: "considered (status_in st i)"
    and d: "d \<in> set deps" "d_taskId d = i" and u: "edge_unmatched st d"
  shows "doomed deps st0 ids i"
proof -
  let ?u = "d_dependsOnTaskId d"
  have c0: "considered (status_in st0 i)"
    using skips_to_considered [of st0 st i] g c by (simp add: skip_good_def status_in_def)
  show ?thesis
  proof (cases "st ?u = st0 ?u")
    case True
    with u have "edge_unmatched st0 d" by (simp add: edge_unmatched_def status_in_def)
    with i c0 d show ?thesis by (rule doomed_edge)
  next
    case False
    with g have "doomed deps st0 ids ?u" and "st ?u = Some TSkipped"
      by (auto simp: skip_good_def skips_to_def)
    moreover from this(2) u have "d_outcome d = OnSuccess"
      by (simp add: edge_unmatched_def terminal_unmatched_def status_in_def)
    ultimately show ?thesis using i c0 d by (blast intro: doomed_chain)
  qed
qed

lemma skip_visit_good:
  assumes v: "skip_visit E wid prov deps pol ky t (st, b, c, s) = (t', st', b', c', s')"
    and g: "skip_good deps pol st0 ids st b" and i: "t_id t \<in> ids"
  shows "skip_good deps pol st0 ids st' b' \<and> (b \<longrightarrow> b') \<and> (blocks deps pol st0 (t_id t) \<longrightarrow> b')
    \<and> (st' = st \<longrightarrow> b' \<or> c' \<or> skip_settled deps st (t_id t))"
proof -
  let ?i = "t_id t"
  let ?edges = "filter (\<lambda>d. d_taskId d = ?i) deps"
  have sk: "skips_to st0 st" using g by (simp add: skip_good_def)
  have blk: "list_ex (edge_blocking pol st) ?edges \<longleftrightarrow> list_ex (\<lambda>d. d_taskId d = ?i \<and> edge_blocking pol st0 d) deps"
    by (auto simp: list_ex_iff skips_to_blocking [OF sk])
  show ?thesis
  proof (cases "considered (status_in st ?i)")
    case False
    then have "st' = st" "b' = b" using v by (auto simp: skip_visit_def)
    moreover have "\<not> blocks deps pol st0 ?i"
    proof (cases "st ?i = st0 ?i")
      case True
      with False show ?thesis by (simp add: blocks_def status_in_def)
    next
      case False
      with g show ?thesis by (simp add: skip_good_def)
    qed
    ultimately show ?thesis using g False by (simp add: skip_settled_def)
  next
    case True
    have eq: "st ?i = st0 ?i" by (rule skips_to_considered [OF sk True])
    have b': "b' \<longleftrightarrow> b \<or> blocks deps pol st0 ?i"
      using v True blk eq by (auto simp: skip_visit_def Let_def blocks_def status_in_def split: if_splits prod.splits)
    show ?thesis
    proof (cases "list_ex (edge_unmatched st) ?edges \<and> \<not> b'")
      case True
      with v b' blk eq \<open>considered (status_in st ?i)\<close> have st': "st' = st(?i \<mapsto> TSkipped)" and c': "c'"
        by (auto simp: skip_visit_def Let_def blocks_def status_in_def split: if_splits prod.splits)
      from True obtain d where d: "d \<in> set deps" "d_taskId d = ?i" "edge_unmatched st d"
        by (auto simp: list_ex_iff)
      have "doomed deps st0 ids ?i"
        by (rule unmatched_doomed [OF g i \<open>considered (status_in st ?i)\<close> d])
      moreover have "skips_to st0 st'"
        by (rule skips_to_trans [OF sk skip_visit_skips [OF v]])
      ultimately show ?thesis using g st' c' b' True i by (auto simp: skip_good_def)
    next
      case False
      with v b' blk eq \<open>considered (status_in st ?i)\<close> have st': "st' = st"
        by (auto simp: skip_visit_def Let_def blocks_def status_in_def split: if_splits prod.splits)
      have "b' \<or> skip_settled deps st ?i"
        using False by (auto simp: skip_settled_def list_ex_iff)
      then show ?thesis using g st' b' i by (auto simp: skip_good_def)
    qed
  qed
qed

lemma skip_pass_good:
  "skip_pass E wid prov deps pol ky ts (st, b, c, s) = (ts', st', b', c', s') \<Longrightarrow>
   skip_good deps pol st0 ids st b \<Longrightarrow> t_id ` set ts \<subseteq> ids \<Longrightarrow>
     skip_good deps pol st0 ids st' b' \<and> (b \<longrightarrow> b') \<and> (\<forall>t \<in> set ts. blocks deps pol st0 (t_id t) \<longrightarrow> b')
     \<and> (b' \<or> c' \<or> (\<forall>t \<in> set ts. skip_settled deps st (t_id t)))"
proof (induction ts arbitrary: st b c s ts' st' b' c' s')
  case (Cons t ts)
  from Cons.prems(1) obtain t1 st1 b1 c1 s1 ts1 where
    v: "skip_visit E wid prov deps pol ky t (st, b, c, s) = (t1, st1, b1, c1, s1)"
    and p: "skip_pass E wid prov deps pol ky ts (st1, b1, c1, s1) = (ts1, st', b', c', s')"
    by (auto split: prod.splits)
  from Cons.prems(3) have i: "t_id t \<in> ids" and sub: "t_id ` set ts \<subseteq> ids" by auto
  note V = skip_visit_good [OF v Cons.prems(2) i]
  have g1: "skip_good deps pol st0 ids st1 b1" using V by blast
  note P = Cons.IH [OF p g1 sub]
  have "c1 \<Longrightarrow> c'" using skip_pass_progress [OF p] by auto
  moreover have "st1 = st \<or> c1" using skip_visit_status [OF v] by auto
  ultimately show ?case using V P by auto
qed simp


lemma skip_fixpoint_good:
  "skip_good deps pol st0 ids (fst x) (fst (snd x)) \<Longrightarrow> t_id ` set ts = ids \<Longrightarrow>
   skip_fixpoint E wid prov deps pol ky ts x = (st', b', c', s') \<Longrightarrow>
     skip_good deps pol st0 ids st' b' \<and> ((\<exists>i \<in> ids. blocks deps pol st0 i) \<longrightarrow> b')
     \<and> (b' \<or> (\<forall>i \<in> ids. skip_settled deps st' i))"
proof (induction E wid prov deps pol ky ts x rule: skip_fixpoint.induct)
  case (1 E wid prov deps pol ky ts x)
  let ?x = "(fst x, fst (snd x), False, snd (snd (snd x)))"
  obtain ts1 st1 b1 c1 s1 where p: "skip_pass E wid prov deps pol ky ts ?x = (ts1, st1, b1, c1, s1)"
    by (rule prod_cases5)
  have P: "skip_good deps pol st0 ids st1 b1" "\<forall>t \<in> set ts. blocks deps pol st0 (t_id t) \<longrightarrow> b1"
    "b1 \<or> c1 \<or> (\<forall>t \<in> set ts. skip_settled deps (fst x) (t_id t))"
    using skip_pass_good [OF p "1.prems"(1)] "1.prems"(2) by auto
  show ?case
  proof (cases c1)
    case True
    have ids: "t_id ` set ts1 = ids"
      using skip_pass_ids [OF p] "1.prems"(2) by (metis set_map)
    have "skip_fixpoint E wid prov deps pol ky ts1 (st1, b1, c1, s1) = (st', b', c', s')"
      using "1.prems"(3) True by (subst (asm) skip_fixpoint.simps) (simp add: p)
    moreover have "fst (snd (snd (snd (skip_pass E wid prov deps pol ky ts ?x))))" using p True by simp
    ultimately show ?thesis using "1.IH" [OF refl] P(1) ids by (simp add: p)
  next
    case False
    then have r: "st' = st1" "b' = b1"
      using "1.prems"(3) by (subst (asm) skip_fixpoint.simps, simp add: p)+
    have "st1 = fst x" using skip_pass_progress [OF p] False by auto
    with r P False "1.prems"(2) show ?thesis by auto
  qed
qed

lemma doomed_skipped:
  assumes "doomed deps st0 ids i" and sk: "skips_to st0 st" and settled: "\<forall>i \<in> ids. skip_settled deps st i"
  shows "st i = Some TSkipped"
  using assms(1)
proof (induction rule: doomed.induct)
  case (doomed_edge i d)
  have "st (d_dependsOnTaskId d) = st0 (d_dependsOnTaskId d)"
    using doomed_edge.hyps(5) sk unmatched_not_considered
    unfolding edge_unmatched_def skips_to_def by blast
  with doomed_edge have "edge_unmatched st d" by (simp add: edge_unmatched_def status_in_def)
  with doomed_edge settled have "\<not> considered (status_in st i)"
    by (auto simp: skip_settled_def list_ex_iff)
  with doomed_edge(2) sk show ?case unfolding skips_to_def status_in_def by metis
next
  case (doomed_chain i d)
  then have "edge_unmatched st d" by (simp add: edge_unmatched_def terminal_unmatched_def status_in_def)
  with doomed_chain settled have "\<not> considered (status_in st i)"
    by (auto simp: skip_settled_def list_ex_iff)
  with doomed_chain(2) sk show ?case unfolding skips_to_def status_in_def by metis
qed

lemma skip_fixpoint_exact:
  assumes r: "skip_fixpoint E wid prov deps pol ky ts (st0, False, c, s) = (st', b', c', s')"
  shows "(b' \<longleftrightarrow> (\<exists>t \<in> set ts. blocks deps pol st0 (t_id t)))
    \<and> (b' \<or> (\<forall>i. st' i = (if doomed deps st0 (t_id ` set ts) i then Some TSkipped else st0 i)))"
proof -
  let ?ids = "t_id ` set ts"
  have "skip_good deps pol st0 ?ids (fst (st0, False, c, s)) (fst (snd (st0, False, c, s)))"
    by (simp add: skip_good_def skips_to_refl)
  note G = skip_fixpoint_good [OF this refl r]
  have g: "skip_good deps pol st0 ?ids st' b'" and s: "b' \<or> (\<forall>i \<in> ?ids. skip_settled deps st' i)"
    and b: "b' \<longleftrightarrow> (\<exists>i \<in> ?ids. blocks deps pol st0 i)"
    using G unfolding skip_good_def by blast+
  have "st' i = (if doomed deps st0 ?ids i then Some TSkipped else st0 i)" if "\<not> b'" for i
  proof (cases "doomed deps st0 ?ids i")
    case True
    with s that g show ?thesis unfolding skip_good_def by (simp add: doomed_skipped)
  next
    case False
    with g show ?thesis unfolding skip_good_def by (metis (full_types))
  qed
  with b show ?thesis by (metis (no_types, lifting) imageE imageI)
qed

section \<open>The database follows the status map\<close>

text \<open>Every row of the task's id has the version the loop holds.\<close>

definition synced :: "task_row \<Rightarrow> db \<Rightarrow> bool" where
  "synced t s \<longleftrightarrow> (\<forall>r \<in> set (db_tasks s). t_id r = t_id t \<longrightarrow> t_lockVersion r = t_lockVersion t)"

definition task_view :: "db \<Rightarrow> (ident \<times> task_status) list" where
  "task_view s = map (\<lambda>r. (t_id r, t_status r)) (db_tasks s)"

definition follows :: "(ident \<rightharpoonup> task_status) \<Rightarrow> (ident \<rightharpoonup> task_status) \<Rightarrow> db \<Rightarrow> db \<Rightarrow> bool" where
  "follows st st' s s' \<longleftrightarrow>
     map t_workflowId (db_tasks s') = map t_workflowId (db_tasks s)
     \<and> db_workflows s' = db_workflows s \<and> db_leases s' = db_leases s
     \<and> task_view s' = map (\<lambda>(i, x). (i, if st' i = st i then x else TSkipped)) (task_view s)"

lemma follows_refl: "follows st st s s"
  by (simp add: follows_def)

lemma skips_to_twice:
  "skips_to a b \<Longrightarrow> skips_to b c \<Longrightarrow>
     (if c i = b i then if b i = a i then x else TSkipped else TSkipped) = (if c i = a i then x else TSkipped)"
  unfolding skips_to_def status_in_def by (metis not_considered_skipped nullish_simps(2))

lemma follows_trans:
  assumes "follows a b s s'" and "follows b c s' s''" and "skips_to a b" and "skips_to b c"
  shows "follows a c s s''"
  using assms(1,2) skips_to_twice [OF assms(3,4)] by (auto simp: follows_def)

lemma skip_visit_follows:
  assumes v: "skip_visit E wid prov deps pol ky t (st, b, c, s) = (t', st', b', c', s')" and y: "synced t s"
  shows "synced t' s' \<and> (\<forall>u. t_id u \<noteq> t_id t \<longrightarrow> synced u s \<longrightarrow> synced u s') \<and> follows st st' s s'"
proof (cases "t' = t \<and> st' = st \<and> s' = s")
  case True
  with y show ?thesis by (simp add: follows_refl)
next
  case False
  with v have c: "considered (status_in st (t_id t))" and st': "st' = st(t_id t \<mapsto> TSkipped)"
    and t': "t' = t\<lparr>t_lockVersion := t_lockVersion t + 1\<rparr>"
    and s': "db_tasks s' = update_where (\<lambda>r. t_id r = t_id t \<and> t_lockVersion r = t_lockVersion t)
        (set_task_status E TSkipped (t_lockVersion t)) (db_tasks s)"
    and w': "db_workflows s' = db_workflows s" "db_leases s' = db_leases s"
    by (auto simp: skip_visit_def Let_def split_beta split: if_splits)
  have ne: "st (t_id t) \<noteq> Some TSkipped"
    using c by (auto simp: status_in_def)
  have upd: "update_where (\<lambda>r. t_id r = t_id t \<and> t_lockVersion r = t_lockVersion t) f (db_tasks s) =
      update_where (\<lambda>r. t_id r = t_id t) f (db_tasks s)" for f
    using y by (auto simp: update_where_def synced_def)
  have "task_view s' = map (\<lambda>(i, x). (i, if st' i = st i then x else TSkipped)) (task_view s)"
    unfolding task_view_def s' upd using ne by (auto simp: st' update_where_def)
  moreover have "synced t' s'" and "\<forall>u. t_id u \<noteq> t_id t \<longrightarrow> synced u s \<longrightarrow> synced u s'"
    by (auto simp: synced_def s' upd t' set_update_where)
  moreover have "map t_workflowId (db_tasks s') = map t_workflowId (db_tasks s)"
    by (simp add: s' map_update_where)
  ultimately show ?thesis using w' by (simp add: follows_def)
qed

lemma skip_pass_follows:
  "skip_pass E wid prov deps pol ky ts (st, b, c, s) = (ts', st', b', c', s') \<Longrightarrow>
   distinct (map t_id ts) \<Longrightarrow> \<forall>t \<in> set ts. synced t s \<Longrightarrow>
     (\<forall>t \<in> set ts'. synced t s') \<and> (\<forall>u. t_id u \<notin> t_id ` set ts \<longrightarrow> synced u s \<longrightarrow> synced u s') \<and> follows st st' s s'"
proof (induction ts arbitrary: st b c s ts' st' b' c' s')
  case Nil
  then show ?case by (simp add: follows_refl)
next
  case (Cons t ts)
  from Cons.prems(1) obtain t1 st1 b1 c1 s1 ts1 where
    v: "skip_visit E wid prov deps pol ky t (st, b, c, s) = (t1, st1, b1, c1, s1)"
    and p: "skip_pass E wid prov deps pol ky ts (st1, b1, c1, s1) = (ts1, st', b', c', s')"
    and ts': "ts' = t1 # ts1"
    by (auto split: prod.splits)
  have V: "synced t1 s1" "\<forall>u. t_id u \<noteq> t_id t \<longrightarrow> synced u s \<longrightarrow> synced u s1" "follows st st1 s s1"
    using skip_visit_follows [OF v] Cons.prems(3) by auto
  have id1: "t_id t1 = t_id t" using skip_visit_status [OF v] by simp
  have "\<forall>t \<in> set ts. synced t s1" using V(2) Cons.prems(2,3) by (metis distinct.simps(2) image_eqI list.set_intros(2) list.simps(9) set_map)
  with Cons.IH [OF p] Cons.prems(2)
  have P: "\<forall>t \<in> set ts1. synced t s'" "\<forall>u. t_id u \<notin> t_id ` set ts \<longrightarrow> synced u s1 \<longrightarrow> synced u s'"
    "follows st1 st' s1 s'" by auto
  have "synced t1 s'" using P(2) V(1) id1 Cons.prems(2) by auto
  moreover have "follows st st' s s'"
    by (rule follows_trans [OF V(3) P(3) skip_visit_skips [OF v] skip_pass_skips [OF p]])
  ultimately show ?case using P V ts' by auto
qed

lemma skip_fixpoint_follows:
  "skip_fixpoint E wid prov deps pol ky ts x = (st', b', c', s') \<Longrightarrow>
   distinct (map t_id ts) \<Longrightarrow> \<forall>t \<in> set ts. synced t (snd (snd (snd x))) \<Longrightarrow>
     skips_to (fst x) st' \<and> follows (fst x) st' (snd (snd (snd x))) s'"
proof (induction E wid prov deps pol ky ts x rule: skip_fixpoint.induct)
  case (1 E wid prov deps pol ky ts x)
  let ?x = "(fst x, fst (snd x), False, snd (snd (snd x)))"
  obtain ts1 st1 b1 c1 s1 where p: "skip_pass E wid prov deps pol ky ts ?x = (ts1, st1, b1, c1, s1)"
    by (rule prod_cases5)
  have P: "\<forall>t \<in> set ts1. synced t s1" "follows (fst x) st1 (snd (snd (snd x))) s1"
    using skip_pass_follows [OF p "1.prems"(2,3)] by auto
  have sk: "skips_to (fst x) st1" by (rule skip_pass_skips [OF p])
  show ?case
  proof (cases c1)
    case True
    have "skip_fixpoint E wid prov deps pol ky ts1 (st1, b1, c1, s1) = (st', b', c', s')"
      using "1.prems"(1) True by (subst (asm) skip_fixpoint.simps) (simp add: p)
    moreover have "distinct (map t_id ts1)" using "1.prems"(2) skip_pass_ids [OF p] by metis
    ultimately have "skips_to st1 st' \<and> follows st1 st' s1 s'"
      using "1.IH" [OF refl] True P(1) by (simp add: p)
    then show ?thesis using follows_trans [OF P(2)] skips_to_trans [OF sk] sk by blast
  next
    case False
    then have "st' = st1" "s' = s1"
      using "1.prems"(1) by (subst (asm) skip_fixpoint.simps, simp add: p)+
    with P sk show ?thesis by simp
  qed
qed

section \<open>The whole transaction\<close>

definition start_status :: "db \<Rightarrow> ident \<Rightarrow> ident \<rightharpoonup> task_status" where
  "start_status s wid = js_map (map (\<lambda>t. (t_id t, t_status t)) (tasks_of s wid))"

definition start_policy :: "db \<Rightarrow> ident \<Rightarrow> ident \<rightharpoonup> failure_policy" where
  "start_policy s wid = js_map (map (\<lambda>t. (t_id t, nullish (t_failurePolicy t) FpBlock)) (tasks_of s wid))"

definition doomed_in :: "db \<Rightarrow> ident \<Rightarrow> ident \<Rightarrow> bool" where
  "doomed_in s wid = doomed (deps_of s wid) (start_status s wid) (t_id ` set (tasks_of s wid))"

definition blocked_in :: "db \<Rightarrow> ident \<Rightarrow> bool" where
  "blocked_in s wid \<longleftrightarrow>
     list_ex (\<lambda>t. blocks (deps_of s wid) (start_policy s wid) (start_status s wid) (t_id t)) (tasks_of s wid)"

definition settled_status :: "db \<Rightarrow> ident \<Rightarrow> task_row \<Rightarrow> task_status" where
  "settled_status s wid t = (if doomed_in s wid (t_id t) then TSkipped else t_status t)"

definition rollup_row :: "db \<Rightarrow> ident \<Rightarrow> task_row \<Rightarrow> rollup_input" where
  "rollup_row s wid t =
     \<lparr>ri_status = settled_status s wid t, ri_required = Some (t_required t),
      ri_failurePolicy = Some (nullish (t_failurePolicy t) FpBlock)\<rparr>"

definition final_status :: "db \<Rightarrow> ident \<Rightarrow> workflow_status" where
  "final_status s wid =
     (if blocked_in s wid then WFailed else rollUpWorkflowStatus (map (rollup_row s wid) (tasks_of s wid)))"

lemma find_update_where:
  assumes "find P rs = Some r" and "Q r" and "\<And>x. P (f x) = P x"
  shows "find P (update_where Q f rs) = Some (f r)"
  using assms(1)
proof (induction rs)
  case (Cons x xs)
  show ?case
  proof (cases "P x")
    case True
    with Cons.prems assms show ?thesis by simp
  next
    case False
    with Cons assms(3) show ?thesis by simp
  qed
qed simp

lemma tasks_of_distinct: "distinct (map t_id (db_tasks s)) \<Longrightarrow> distinct (map t_id (tasks_of s wid))"
  by (simp add: tasks_of_def distinct_map_filter)

lemma start_status_of:
  assumes "distinct (map t_id (db_tasks s))" and "t \<in> set (tasks_of s wid)"
  shows "start_status s wid (t_id t) = Some (t_status t)"
proof -
  have "distinct (map fst (map (\<lambda>t. (t_id t, t_status t)) (tasks_of s wid)))"
    using tasks_of_distinct [OF assms(1)] by (simp add: comp_def)
  from js_map_distinct [OF this] map_of_is_SomeI [OF this, of "t_id t" "t_status t"] assms(2)
  show ?thesis by (auto simp: start_status_def)
qed

lemma tasks_synced:
  "distinct (map t_id (db_tasks s)) \<Longrightarrow> t \<in> set (tasks_of s wid) \<Longrightarrow> synced t s"
  by (auto simp: synced_def tasks_of_def distinct_map inj_on_def)

lemma view_tasks_of:
  "map (\<lambda>t. (t_id t, t_status t)) (tasks_of s wid) =
     map snd (filter (\<lambda>(w, v). w = wid) (zip (map t_workflowId (db_tasks s)) (task_view s)))"
  by (simp add: tasks_of_def task_view_def zip_map_map zip_same_conv_map filter_map comp_def)

lemma follows_tasks_of:
  assumes "follows st st' s s'"
  shows "map (\<lambda>t. (t_id t, t_status t)) (tasks_of s' wid) =
     map (\<lambda>t. (t_id t, if st' (t_id t) = st (t_id t) then t_status t else TSkipped)) (tasks_of s wid)"
proof -
  have "map (\<lambda>t. (t_id t, t_status t)) (tasks_of s' wid) =
      map ((\<lambda>(i, x). (i, if st' i = st i then x else TSkipped)) \<circ> snd)
        (filter (\<lambda>(w, v). w = wid) (zip (map t_workflowId (db_tasks s)) (task_view s)))"
    using assms unfolding view_tasks_of follows_def
    by (simp add: zip_map2 filter_map comp_def split_def)
  also have "\<dots> = map (\<lambda>(i, x). (i, if st' i = st i then x else TSkipped))
      (map (\<lambda>t. (t_id t, t_status t)) (tasks_of s wid))"
    unfolding view_tasks_of by simp
  finally show ?thesis by simp
qed

text \<open>What \<open>finalize_status\<close> does in a transaction that holds the workflow row it read.\<close>

lemma finalize_status_effect:
  assumes f: "find_workflow s wid = Some w" and a: "w_status w = WActive"
  shows "fst (finalize_status E wid w prov next s) = (workflow_status_text next, next \<noteq> WActive)
    \<and> map_option w_status (find_workflow (snd (finalize_status E wid w prov next s)) wid) = Some next
    \<and> db_tasks (snd (finalize_status E wid w prov next s)) = db_tasks s
    \<and> (next = WActive \<or> filter (\<lambda>l. l_workflowId l = wid) (db_leases (snd (finalize_status E wid w prov next s))) = [])"
proof (cases "next = WActive")
  case True
  with f a show ?thesis by (simp add: finalize_status_def)
next
  case False
  have won: "fst (cas_workflow wid (w_lockVersion w) (\<lambda>_. True) g s)" for g
    using find_workflow_Some [OF f] by auto
  let ?Q = "\<lambda>x. w_id x = wid \<and> w_lockVersion x = w_lockVersion w \<and> True"
  have "find (\<lambda>x. w_id x = wid) (update_where ?Q (set_workflow_status E next (w_lockVersion w)) (db_workflows s)) =
      Some (set_workflow_status E next (w_lockVersion w) w)"
    by (rule find_update_where) (use f find_workflow_Some [OF f] in \<open>auto simp: find_workflow_def\<close>)
  with False won show ?thesis
    by (simp add: finalize_status_def Let_def split_beta clear_leases_def find_workflow_def
        delete_where_def filter_empty_conv)
qed

lemma finalize_effect:
  assumes f: "find_workflow s wid = Some w" and a: "w_status w = WActive"
    and d: "distinct (map t_id (db_tasks s))"
  shows "fst (finalizeWorkflow E wid s) = (workflow_status_text (final_status s wid), final_status s wid \<noteq> WActive)
    \<and> map_option w_status (find_workflow (snd (finalizeWorkflow E wid s)) wid) = Some (final_status s wid)
    \<and> (blocked_in s wid \<or> map (\<lambda>t. (t_id t, t_status t)) (tasks_of (snd (finalizeWorkflow E wid s)) wid) =
         map (\<lambda>t. (t_id t, settled_status s wid t)) (tasks_of s wid))
    \<and> (final_status s wid = WActive
       \<or> filter (\<lambda>l. l_workflowId l = wid) (db_leases (snd (finalizeWorkflow E wid s))) = [])"
proof -
  let ?ts = "tasks_of s wid" and ?st0 = "start_status s wid"
  let ?ky = "js_map (map (\<lambda>t. (t_id t, t_key t)) ?ts)"
  obtain st b c s1 where
    r: "skip_fixpoint E wid (actor_of w) (deps_of s wid) (start_policy s wid) ?ky ?ts (?st0, False, False, s) = (st, b, c, s1)"
    by (rule prod_cases4)
  note exact = skip_fixpoint_exact [OF r]
  have F: "skips_to ?st0 st" "follows ?st0 st s s1"
    using skip_fixpoint_follows [OF r tasks_of_distinct [OF d]] tasks_synced [OF d] by auto
  have blk: "b \<longleftrightarrow> blocked_in s wid" using exact by (simp add: blocked_in_def list_ex_iff)
  have st: "b \<or> (\<forall>t \<in> set ?ts. status_in st (t_id t) = settled_status s wid t)"
    using exact start_status_of [OF d, of _ wid]
    by (auto simp: settled_status_def doomed_in_def status_in_def)
  have roll: "b \<or> map (rollup_of st) ?ts = map (rollup_row s wid) ?ts"
    using st by (auto simp: rollup_of_def rollup_row_def)
  let ?n = "if b then WFailed else rollUpWorkflowStatus (map (rollup_of st) ?ts)"
  have n: "?n = final_status s wid" using roll blk by (metis final_status_def)
  have fin: "finalizeWorkflow E wid s = finalize_status E wid w (actor_of w) ?n s1"
    using f a r unfolding start_policy_def start_status_def by (simp add: finalizeWorkflow_def)
  have f1: "find_workflow s1 wid = Some w" using f F(2) by (simp add: find_workflow_def follows_def)
  note G = finalize_status_effect [OF f1 a, of E "actor_of w" "final_status s wid"]
  have view: "b \<or> map (\<lambda>t. (t_id t, t_status t)) (tasks_of s1 wid) = map (\<lambda>t. (t_id t, settled_status s wid t)) ?ts"
  proof -
    have "(if st (t_id t) = ?st0 (t_id t) then t_status t else TSkipped) = settled_status s wid t"
      if "\<not> b" "t \<in> set ?ts" for t
      using exact that start_status_of [OF d that(2)]
      by (auto simp: settled_status_def doomed_in_def)
    then show ?thesis by (cases b) (simp_all add: follows_tasks_of [OF F(2)] split del: if_split)
  qed
  have "tasks_of (snd (finalizeWorkflow E wid s)) wid = tasks_of s1 wid"
    using G by (simp add: fin n tasks_of_def)
  with G view blk show ?thesis unfolding fin n by simp
qed


lemma rollup_completed:
  "rollUpWorkflowStatus rs = WCompleted \<Longrightarrow> list_all (\<lambda>r. isTerminalTaskStatus (ri_status r)) rs"
  by (auto simp: rollUpWorkflowStatus_def split: if_splits)

section \<open>Properties\<close>

text \<open>
  C23. The end of a tick in closed form. On an active workflow \<^verbatim>\<open>finalizeWorkflow\<close> terminates, and
  with the rows as read: if a task that is neither terminal nor running has an edge, not on
  failure, to a failed task of block policy, the workflow fails; otherwise exactly the doomed
  tasks are skipped (in the database too) and the workflow takes the roll-up of the resulting
  statuses. The transition is reported exactly when the status leaves active, the row then has
  that status, and no dispatch lease of the workflow remains.
\<close>

theorem finalize_exact:
  assumes "find_workflow s wid = Some w" and "w_status w = WActive" and "distinct (map t_id (db_tasks s))"
  shows "fst (finalizeWorkflow E wid s) = (workflow_status_text (final_status s wid), final_status s wid \<noteq> WActive)
    \<and> map_option w_status (find_workflow (snd (finalizeWorkflow E wid s)) wid) = Some (final_status s wid)
    \<and> (blocked_in s wid \<or> map (\<lambda>t. (t_id t, t_status t)) (tasks_of (snd (finalizeWorkflow E wid s)) wid) =
         map (\<lambda>t. (t_id t, if doomed_in s wid (t_id t) then TSkipped else t_status t)) (tasks_of s wid))
    \<and> (final_status s wid = WActive
       \<or> filter (\<lambda>l. l_workflowId l = wid) (db_leases (snd (finalizeWorkflow E wid s))) = [])"
  using finalize_effect [OF assms, of E] by (simp add: settled_status_def)

text \<open>Two tasks: the first failed under the skip policy, the second waits for its success.\<close>

definition demo_failed :: db where
  "demo_failed = empty_db
     \<lparr>db_workflows := [(new_workflow ''w'' ''o'')\<lparr>w_status := WActive\<rparr>],
      db_tasks := [(new_task ''a'' ''w'' ''a'' ''agent_task'')\<lparr>t_status := TFailed, t_failurePolicy := Some FpSkip\<rparr>,
                   new_task ''b'' ''w'' ''b'' ''manual''],
      db_deps := [\<lparr>d_id = ''d'', d_workflowId = ''w'', d_taskId = ''b'', d_dependsOnTaskId = ''a'',
                   d_outcome = OnSuccess\<rparr>]\<rparr>"

theorem finalize_exact_witness:
  "find_workflow demo_failed ''w'' \<noteq> None
   \<and> map (\<lambda>t. (t_id t, t_status t)) (tasks_of (snd (finalizeWorkflow (demo_env 0) ''w'' demo_failed)) ''w'') =
       [(''a'', TFailed), (''b'', TSkipped)]"
proof -
  let ?w = "(new_workflow ''w'' ''o'')\<lparr>w_status := WActive\<rparr>"
  have f: "find_workflow demo_failed ''w'' = Some ?w"
    by (simp add: demo_failed_def find_workflow_def new_workflow_def)
  have d: "distinct (map t_id (db_tasks demo_failed))"
    by (simp add: demo_failed_def new_task_def)
  have ts: "tasks_of demo_failed ''w'' = db_tasks demo_failed" and ds: "deps_of demo_failed ''w'' = db_deps demo_failed"
    by (simp_all add: demo_failed_def tasks_of_def deps_of_def new_task_def)
  have st: "start_status demo_failed ''w'' = [''a'' \<mapsto> TFailed, ''b'' \<mapsto> TIdle]"
    unfolding start_status_def ts by (auto simp: js_map_def demo_failed_def new_task_def)
  have pol: "start_policy demo_failed ''w'' = [''a'' \<mapsto> FpSkip, ''b'' \<mapsto> FpBlock]"
    unfolding start_policy_def ts by (auto simp: js_map_def demo_failed_def new_task_def)
  have nb: "\<not> blocked_in demo_failed ''w''"
    unfolding blocked_in_def ts ds st pol
    by (auto simp: blocks_def demo_failed_def new_task_def edge_blocking_def status_in_def)
  have b: "doomed_in demo_failed ''w'' ''b''"
    unfolding doomed_in_def ts ds st
    by (rule doomed_edge [where d = "hd (db_deps demo_failed)"])
      (auto simp: demo_failed_def new_task_def considered_def isTerminalTaskStatus_def status_in_def
        edge_unmatched_def terminal_unmatched_def)
  have a: "\<not> doomed_in demo_failed ''w'' ''a''"
  proof
    assume "doomed_in demo_failed ''w'' ''a''"
    then show False unfolding doomed_in_def ts ds st
      by cases (simp_all add: considered_def isTerminalTaskStatus_def status_in_def)
  qed
  show ?thesis
    using finalize_exact [OF f _ d, of "demo_env 0"] nb a b
    by (simp add: f ts new_workflow_def) (simp add: demo_failed_def new_task_def)
qed

text \<open>
  A workflow is reported completed only when every one of its tasks is terminal in the
  database the transaction leaves behind.
\<close>

theorem completed_all_terminal:
  assumes "find_workflow s wid = Some w" and "w_status w = WActive" and "distinct (map t_id (db_tasks s))"
    and "fst (fst (finalizeWorkflow E wid s)) = ''completed''"
  shows "list_all (\<lambda>t. isTerminalTaskStatus (t_status t)) (tasks_of (snd (finalizeWorkflow E wid s)) wid)"
proof -
  note F = finalize_effect [OF assms(1-3), of E]
  from F assms(4) have c: "final_status s wid = WCompleted"
    using workflow_status_text_inj [of "final_status s wid" WCompleted] by simp
  then have nb: "\<not> blocked_in s wid" by (auto simp: final_status_def)
  with c have "rollUpWorkflowStatus (map (rollup_row s wid) (tasks_of s wid)) = WCompleted"
    by (simp add: final_status_def)
  from rollup_completed [OF this]
  have "list_all isTerminalTaskStatus (map snd (map (\<lambda>t. (t_id t, settled_status s wid t)) (tasks_of s wid)))"
    by (simp add: list.pred_map comp_def rollup_row_def)
  with F nb have "list_all isTerminalTaskStatus
      (map snd (map (\<lambda>t. (t_id t, t_status t)) (tasks_of (snd (finalizeWorkflow E wid s)) wid)))" by metis
  then show ?thesis by (simp add: list.pred_map comp_def)
qed

definition demo_done :: db where
  "demo_done = empty_db
     \<lparr>db_workflows := [(new_workflow ''w'' ''o'')\<lparr>w_status := WActive\<rparr>],
      db_tasks := [(new_task ''a'' ''w'' ''a'' ''wait'')\<lparr>t_status := TSucceeded\<rparr>]\<rparr>"

theorem completed_all_terminal_witness:
  "list_all (\<lambda>t. isTerminalTaskStatus (t_status t))
     (tasks_of (snd (finalizeWorkflow (demo_env 0) ''w'' demo_done)) ''w'')"
proof (rule completed_all_terminal)
  show f: "find_workflow demo_done ''w'' = Some ((new_workflow ''w'' ''o'')\<lparr>w_status := WActive\<rparr>)"
    by (simp add: demo_done_def find_workflow_def new_workflow_def)
  show d: "distinct (map t_id (db_tasks demo_done))" by (simp add: demo_done_def)
  have ts: "tasks_of demo_done ''w'' = db_tasks demo_done" and ds: "deps_of demo_done ''w'' = []"
    by (simp_all add: demo_done_def tasks_of_def deps_of_def new_task_def empty_db_def)
  have "\<not> doomed_in demo_done ''w'' i" for i
    unfolding doomed_in_def ds by (rule notI, erule doomed.cases) simp_all
  moreover have "\<not> blocked_in demo_done ''w''"
    unfolding blocked_in_def ds by (simp add: blocks_def list_ex_iff)
  ultimately have "final_status demo_done ''w'' = WCompleted"
    unfolding final_status_def ts
    by (simp add: rollup_row_def settled_status_def demo_done_def rollUpWorkflowStatus_def
        blocking_failure_def isTerminalTaskStatus_def)
  then show "fst (fst (finalizeWorkflow (demo_env 0) ''w'' demo_done)) = ''completed''"
    using finalize_effect [OF f _ d, of "demo_env 0"] by simp
qed simp

end
