(* ===== verification/Wf_Foreach.thy ===== *)
theory Wf_Foreach
  imports Wf_Rows Wf_Time
begin

text \<open>
  The foreach materializer, \<^verbatim>\<open>packages/workflows/src/engine/foreach.ts\<close>: from a foreach declaration
  and the captured output of its source task, the plans of the child tasks with their dependency
  and approval rows, or a structured error.

  Values are JSON; property access looks at own properties only (names a prototype defines, such
  as \<^verbatim>\<open>constructor\<close>, are outside the model). The template has passed the task schema, so its
  enumerated fields and its \<^verbatim>\<open>dependsOn\<close> array have the declared shape; a column of type text takes
  a non-string value as the database driver renders it.
\<close>

section \<open>Values\<close>

text \<open>\<open>String(v)\<close>.\<close>

fun js_string :: "json \<Rightarrow> string" where
  "js_string JNull = ''null''"
| "js_string (JBool b) = (if b then ''true'' else ''false'')"
| "js_string (JNum i) = show_int i"
| "js_string (JStr s) = s"
| "js_string (JArr xs) = js_join '','' (map (\<lambda>x. if x = JNull then [] else js_string x) xs)"
| "js_string (JObj kvs) = ''[object Object]''"

text \<open>\<open>Boolean(v)\<close>.\<close>

fun js_truthy :: "json \<Rightarrow> bool" where
  "js_truthy JNull = False"
| "js_truthy (JBool b) = b"
| "js_truthy (JNum i) = (i \<noteq> 0)"
| "js_truthy (JStr s) = (s \<noteq> [])"
| "js_truthy (JArr _) = True"
| "js_truthy (JObj _) = True"

text \<open>\<open>v ?? null\<close> on an optional property: \<open>None\<close> for undefined and null.\<close>

definition non_null :: "json option \<Rightarrow> json option" where
  "non_null v = (case v of Some JNull \<Rightarrow> None | _ \<Rightarrow> v)"

fun js_get :: "json \<Rightarrow> string \<Rightarrow> json option" where
  "js_get (JObj kvs) k = map_of kvs k"
| "js_get (JArr xs) k =
     (if k = ''length'' then Some (JNum (int (length xs)))
      else map_of (zip (map show_nat [0..<length xs]) xs) k)"
| "js_get _ k = None"

definition text_column :: "json option \<Rightarrow> string option" where
  "text_column v = (case non_null v of None \<Rightarrow> None | Some (JStr s) \<Rightarrow> Some s | Some j \<Rightarrow> Some (json_text j))"

section \<open>Pure helpers\<close>

definition to_lower :: "string \<Rightarrow> string" where
  "to_lower s = map (\<lambda>c. if 65 \<le> (of_char c :: nat) \<and> (of_char c :: nat) \<le> 90
                         then char_of ((of_char c :: nat) + 32) else c) s"

definition slug_char :: "char \<Rightarrow> bool" where
  "slug_char c \<longleftrightarrow>
     (let n = (of_char c :: nat) in 97 \<le> n \<and> n \<le> 122 \<or> 48 \<le> n \<and> n \<le> 57 \<or> n = 95 \<or> n = 45)"

definition slugifyItemKey :: "env \<Rightarrow> json \<Rightarrow> string" where
  "slugifyItemKey E raw =
     (if raw = JNull then []
      else
        (let s = to_lower (js_string raw); cleaned = filter slug_char s
         in if cleaned = [] then []
            else if length cleaned \<le> 32 then cleaned
            else take 26 cleaned @ ''__'' @ take 4 (e_sha256 E s)))"

fun split_on :: "char \<Rightarrow> string \<Rightarrow> string list" where
  "split_on c [] = [[]]"
| "split_on c (x # xs) =
     (if x = c then [] # split_on c xs
      else (case split_on c xs of [] \<Rightarrow> [[x]] | y # ys \<Rightarrow> (x # y) # ys))"

fun get_parts :: "json \<Rightarrow> string list \<Rightarrow> json option" where
  "get_parts cur [] = Some cur"
| "get_parts cur (p # ps) = (case js_get cur p of None \<Rightarrow> None | Some v \<Rightarrow> get_parts v ps)"

text \<open>
  A missing hop makes the remaining hops undefined too: the loop leaves as soon as the current
  value is no object.
\<close>

definition getByPath :: "json \<Rightarrow> string \<Rightarrow> json option" where
  "getByPath obj path = (if path = [] then Some obj else get_parts obj (split_on (CHR ''.'') path))"

record item_ctx =
  ic_index :: nat
  ic_position :: nat
  ic_total :: nat

definition is_space :: "char \<Rightarrow> bool" where
  "is_space c \<longleftrightarrow> (let n = (of_char c :: nat) in 9 \<le> n \<and> n \<le> 13 \<or> n = 32 \<or> n = 160)"

text \<open>\<open>s.trim()\<close> on ASCII text.\<close>

definition js_trim :: "string \<Rightarrow> string" where
  "js_trim s = rev (dropWhile is_space (rev (dropWhile is_space s)))"

definition ident_start :: "char \<Rightarrow> bool" where
  "ident_start c \<longleftrightarrow>
     (let n = (of_char c :: nat) in 97 \<le> n \<and> n \<le> 122 \<or> 65 \<le> n \<and> n \<le> 90 \<or> n = 36)"

definition ident_char :: "char \<Rightarrow> bool" where
  "ident_char c \<longleftrightarrow>
     ident_start c \<or> (let n = (of_char c :: nat) in 48 \<le> n \<and> n \<le> 57 \<or> n = 95)"

text \<open>
  The pattern \<^verbatim>\<open>\{\{\s*([a-zA-Z$][a-zA-Z0-9_$]*(?:\.[a-zA-Z0-9_$.]+)?)\s*\}\}\<close> at the start of a
  text: the expression it captures and the rest. The classes that follow each other are disjoint,
  so the match is the greedy one.
\<close>

definition match_expr :: "string \<Rightarrow> (string \<times> string) option" where
  "match_expr s =
     (case s of
        [] \<Rightarrow> None
      | c # _ \<Rightarrow>
          if \<not> ident_start c then None
          else
            (let name = takeWhile ident_char s; r = dropWhile ident_char s
             in case r of
                  d # r' \<Rightarrow>
                    if d = CHR ''.'' then
                      (let path = takeWhile (\<lambda>x. ident_char x \<or> x = CHR ''.'') r'
                       in if path = [] then Some (name, r)
                          else Some (name @ ''.'' @ path, dropWhile (\<lambda>x. ident_char x \<or> x = CHR ''.'') r'))
                    else Some (name, r)
                | [] \<Rightarrow> Some (name, r)))"

definition match_token :: "string \<Rightarrow> (string \<times> string) option" where
  "match_token s =
     (if \<not> starts_with s ''{{'' then None
      else
        (case match_expr (dropWhile is_space (drop 2 s)) of
           None \<Rightarrow> None
         | Some (expr, r) \<Rightarrow>
             (let r' = dropWhile is_space r
              in if starts_with r' ''}}'' then Some (expr, drop 2 r') else None)))"

definition resolve_var :: "string \<Rightarrow> json \<Rightarrow> item_ctx \<Rightarrow> string \<Rightarrow> json option" where
  "resolve_var asName item ctx expr =
     (if expr = ''$index'' then Some (JNum (int (ic_index ctx)))
      else if expr = ''$position'' then Some (JNum (int (ic_position ctx)))
      else if expr = ''$total'' then Some (JNum (int (ic_total ctx)))
      else if expr = asName then Some item
      else if starts_with expr (asName @ ''.'') then getByPath item (drop (length asName + 1) expr)
      else None)"

lemma match_expr_shorter: "match_expr s = Some (e, r) \<Longrightarrow> length r \<le> length s"
proof (cases s)
  case (Cons c cs)
  have drop: "length (dropWhile P u) \<le> length u" for P and u :: string by (rule length_dropWhile_le)
  assume "match_expr s = Some (e, r)"
  then show ?thesis
    using drop [of ident_char s] drop [of "\<lambda>x. ident_char x \<or> x = CHR ''.''" "tl (dropWhile ident_char s)"] Cons
    by (auto simp: match_expr_def Let_def intro: le_SucI drop split: if_splits list.splits)
qed (simp add: match_expr_def)

lemma match_token_shorter: "match_token s = Some (e, r) \<Longrightarrow> length r < length s"
proof -
  assume m: "match_token s = Some (e, r)"
  then obtain r0 where s: "starts_with s ''{{''" and e: "match_expr (dropWhile is_space (drop 2 s)) = Some (e, r0)"
    and r: "r = drop 2 (dropWhile is_space r0)"
    by (auto simp: match_token_def Let_def split: if_splits option.splits)
  have "length r0 \<le> length (drop 2 s)"
    using match_expr_shorter [OF e] length_dropWhile_le [of is_space "drop 2 s"] by linarith
  then have "length r \<le> length (drop 2 s)"
    using r length_dropWhile_le [of is_space r0] by simp
  moreover have "2 \<le> length s" using s by (auto simp: starts_with_iff)
  ultimately show ?thesis by simp
qed

text \<open>\<open>s.replace(/\<dots>/g, \<dots>)\<close>: the matches from the left, the text between them kept.\<close>

function replace_tokens :: "(string \<Rightarrow> json option) \<Rightarrow> string \<Rightarrow> string" where
  "replace_tokens resolve s =
     (case s of
        [] \<Rightarrow> []
      | c # cs \<Rightarrow>
          (case match_token s of
             None \<Rightarrow> c # replace_tokens resolve cs
           | Some (expr, r) \<Rightarrow>
               (case resolve expr of
                  None \<Rightarrow> take (length s - length r) s
                | Some (JStr v) \<Rightarrow> v
                | Some v \<Rightarrow> json_text v) @ replace_tokens resolve r))"
  by pat_completeness auto
termination
  by (relation "measure (\<lambda>(f, s). length s)") (auto dest: match_token_shorter)

declare replace_tokens.simps [simp del]

definition substituteString :: "string \<Rightarrow> string \<Rightarrow> json \<Rightarrow> item_ctx \<Rightarrow> json" where
  "substituteString s asName item ctx =
     (case match_token s of
        Some (expr, []) \<Rightarrow>
          (case resolve_var asName item ctx expr of None \<Rightarrow> JStr s | Some v \<Rightarrow> v)
      | _ \<Rightarrow> JStr (replace_tokens (resolve_var asName item ctx) s))"

fun substituteValue :: "json \<Rightarrow> string \<Rightarrow> json \<Rightarrow> item_ctx \<Rightarrow> json" where
  "substituteValue (JStr s) asName item ctx = substituteString s asName item ctx"
| "substituteValue (JArr xs) asName item ctx = JArr (map (\<lambda>x. substituteValue x asName item ctx) xs)"
| "substituteValue (JObj kvs) asName item ctx =
     JObj (map (\<lambda>(k, v). (k, substituteValue v asName item ctx)) kvs)"
| "substituteValue JNull asName item ctx = JNull"
| "substituteValue (JBool b) asName item ctx = JBool b"
| "substituteValue (JNum i) asName item ctx = JNum i"

definition deterministicChildTaskId :: "env \<Rightarrow> ident \<Rightarrow> string \<Rightarrow> string \<Rightarrow> ident" where
  "deterministicChildTaskId E wid parentKey stableId =
     ''wtask_'' @ take 24 (e_sha256 E (wid @ ''__'' @ parentKey @ ''__'' @ stableId))"

definition deterministicSidecarId :: "env \<Rightarrow> string \<Rightarrow> ident \<Rightarrow> string \<Rightarrow> ident" where
  "deterministicSidecarId E prefix childTaskId discriminator =
     prefix @ ''_'' @ take 24 (e_sha256 E (childTaskId @ ''__'' @ prefix @ ''__'' @ discriminator))"

section \<open>Structured errors and plans\<close>

datatype foreach_error =
    ForeachInvalidSourceOutput string string string
  | ForeachInvalidItemKey string string nat json
  | ForeachDuplicateItemKey string string string nat nat
  | ForeachMaxFanoutExceeded string string nat int int
  | ForeachUnresolvedDependency string string json

fun foreach_error_code :: "foreach_error \<Rightarrow> string" where
  "foreach_error_code (ForeachInvalidSourceOutput _ _ _) = ''foreach_invalid_source_output''"
| "foreach_error_code (ForeachInvalidItemKey _ _ _ _) = ''foreach_invalid_item_key''"
| "foreach_error_code (ForeachDuplicateItemKey _ _ _ _ _) = ''foreach_duplicate_item_key''"
| "foreach_error_code (ForeachMaxFanoutExceeded _ _ _ _ _) = ''foreach_max_fanout_exceeded''"
| "foreach_error_code (ForeachUnresolvedDependency _ _ _) = ''foreach_unresolved_dependency''"

record child_dependency =
  cd_id :: ident
  cd_workflowId :: ident
  cd_taskKey :: string
  cd_dependsOnTaskKey :: string
  cd_outcome :: dependency_outcome

record child_approval =
  ca_id :: ident
  ca_workflowId :: ident
  ca_taskKey :: string
  ca_requiredScope :: json
  ca_status :: approval_status

record child_plan =
  cp_taskRow :: task_row
  cp_dependencies :: "child_dependency list"
  cp_approval :: "child_approval option"

definition FOREACH_MAX_FANOUT_HARD_CEILING :: int where
  "FOREACH_MAX_FANOUT_HARD_CEILING = 500"

definition FOREACH_MAX_FANOUT_DEFAULT :: int where
  "FOREACH_MAX_FANOUT_DEFAULT = 50"

section \<open>The materializer\<close>

text \<open>The items of the source output; \<open>Inl\<close> the shape received. \<open>None\<close> is a null output.\<close>

definition received_shape :: "json option \<Rightarrow> string" where
  "received_shape out =
     (case out of
        None \<Rightarrow> ''null''
      | Some JNull \<Rightarrow> ''null''
      | Some (JArr _) \<Rightarrow> ''array''
      | Some (JObj kvs) \<Rightarrow> ''object(keys='' @ js_join '','' (map fst kvs) @ '')''
      | Some (JBool _) \<Rightarrow> ''boolean''
      | Some (JNum _) \<Rightarrow> ''number''
      | Some (JStr _) \<Rightarrow> ''string'')"

definition source_items :: "json option \<Rightarrow> string + json list" where
  "source_items out =
     (case out of
        Some (JObj kvs) \<Rightarrow>
          (case map_of kvs ''items'' of Some (JArr items) \<Rightarrow> Inr items | _ \<Rightarrow> Inl (received_shape out))
      | _ \<Rightarrow> Inl (received_shape out))"

definition effective_limit :: "foreach_config \<Rightarrow> int" where
  "effective_limit fe = min (nullish (fe_maxFanout fe) FOREACH_MAX_FANOUT_DEFAULT) FOREACH_MAX_FANOUT_HARD_CEILING"

definition index_id :: "nat \<Rightarrow> string" where
  "index_id i = pad_left 4 (CHR ''0'') (show_nat i)"

text \<open>The stable id of one item; \<open>Inl\<close> the raw value of a key that slugifies to nothing.\<close>

definition stable_id :: "env \<Rightarrow> foreach_config \<Rightarrow> nat \<Rightarrow> json \<Rightarrow> json + string" where
  "stable_id E fe i item =
     (case fe_itemKey fe of
        Some (c # cs) \<Rightarrow>
          (case non_null (getByPath item (c # cs)) of
             None \<Rightarrow> Inr (index_id i)
           | Some raw \<Rightarrow> (let st = slugifyItemKey E raw in if st = [] then Inl raw else Inr st))
      | _ \<Rightarrow> Inr (index_id i))"

text \<open>The loop over the items; \<open>seen\<close> maps the stable ids so far to their indices.\<close>

fun stable_ids ::
  "env \<Rightarrow> foreach_config \<Rightarrow> string \<Rightarrow> nat \<Rightarrow> json list \<Rightarrow> (string \<times> nat) list \<Rightarrow> foreach_error + string list" where
  "stable_ids E fe pkey i [] seen = Inr []"
| "stable_ids E fe pkey i (item # items) seen =
     (case stable_id E fe i item of
        Inl raw \<Rightarrow> Inl (ForeachInvalidItemKey (fe_source fe) pkey i raw)
      | Inr st \<Rightarrow>
          (case map_of seen st of
             Some j \<Rightarrow> Inl (ForeachDuplicateItemKey (fe_source fe) pkey st j i)
           | None \<Rightarrow>
               (case stable_ids E fe pkey (Suc i) items ((st, i) # seen) of
                  Inl e \<Rightarrow> Inl e
                | Inr rest \<Rightarrow> Inr (st # rest))))"

definition child_key :: "string \<Rightarrow> string \<Rightarrow> string" where
  "child_key parentKey sid = parentKey @ ''__'' @ sid"

definition policy_of :: "json option \<Rightarrow> failure_policy option" where
  "policy_of v =
     (if v = Some (JStr ''block'') then Some FpBlock
      else if v = Some (JStr ''skip'') then Some FpSkip else None)"

definition outcome_of :: "json option \<Rightarrow> dependency_outcome" where
  "outcome_of v =
     (if v = Some (JStr ''skipped'') then OnSkipped
      else if v = Some (JStr ''failed'') then OnFailed else OnSuccess)"

definition int_column :: "json option \<Rightarrow> int option" where
  "int_column v = (case v of Some (JNum i) \<Rightarrow> Some i | _ \<Rightarrow> None)"

definition sub_get :: "json option \<Rightarrow> string \<Rightarrow> json option" where
  "sub_get v k = (case v of None \<Rightarrow> None | Some j \<Rightarrow> js_get j k)"

definition template_type :: "json \<Rightarrow> string" where
  "template_type tmpl = (case non_null (js_get tmpl ''type'') of None \<Rightarrow> ''agent_task'' | Some v \<Rightarrow> js_string v)"

definition agent_only :: "string \<Rightarrow> 'a option \<Rightarrow> 'a option" where
  "agent_only ty v = (if ty = ''agent_task'' then v else None)"

definition child_task_row :: "env \<Rightarrow> ident \<Rightarrow> ident \<Rightarrow> string \<Rightarrow> string \<Rightarrow> json \<Rightarrow> task_row" where
  "child_task_row E wid parentId parentKey sid tmpl =
     (let field = js_get tmpl; ty = template_type tmpl
      in (new_task (deterministicChildTaskId E wid parentKey sid) wid (child_key parentKey sid) ty)
         \<lparr>t_title := (case non_null (field ''title'') of None \<Rightarrow> parentKey @ ''/'' @ sid | Some v \<Rightarrow> js_string v),
          t_parentTaskId := Some parentId,
          t_assigneeLevel := text_column (sub_get (field ''assignee'') ''level''),
          t_assigneeId := text_column (sub_get (field ''assignee'') ''id''),
          t_agentPackage := agent_only ty (text_column (sub_get (field ''agentRef'') ''package'')),
          t_agentRef := agent_only ty (non_null (field ''agentRef'')),
          t_input := agent_only ty (non_null (field ''input'')),
          t_schedule := non_null (field ''schedule''),
          t_required := (case field ''required'' of None \<Rightarrow> True | Some v \<Rightarrow> js_truthy v),
          t_failurePolicy := policy_of (field ''failurePolicy''),
          t_missedWindowPolicy := text_column (field ''missedWindowPolicy''),
          t_retryPolicy := non_null (field ''retryPolicy''),
          t_maxAttempts := int_column (field ''maxAttempts''),
          t_cancelPolicy := non_null (field ''cancelPolicy''),
          t_pinned := (case non_null (field ''pinned'') of None \<Rightarrow> False | Some v \<Rightarrow> js_truthy v),
          t_risk := text_column (field ''risk'')\<rparr>)"

text \<open>The dependency rows of one child; \<open>known\<close> are the keys of the workflow and of the batch.\<close>

fun child_dependencies ::
  "env \<Rightarrow> ident \<Rightarrow> string \<Rightarrow> ident \<Rightarrow> (string \<Rightarrow> bool) \<Rightarrow> json list \<Rightarrow> json + child_dependency list" where
  "child_dependencies E wid childKey childId known [] = Inr []"
| "child_dependencies E wid childKey childId known (dep # deps) =
     (case js_get dep ''taskKey'' of
        Some (JStr k) \<Rightarrow>
          if known k
          then
            (case child_dependencies E wid childKey childId known deps of
               Inl e \<Rightarrow> Inl e
             | Inr rest \<Rightarrow>
                 Inr (\<lparr>cd_id = deterministicSidecarId E ''dep'' childId k, cd_workflowId = wid,
                       cd_taskKey = childKey, cd_dependsOnTaskKey = k,
                       cd_outcome = outcome_of (js_get dep ''outcome'')\<rparr> # rest))
          else Inl (JStr k)
      | other \<Rightarrow> Inl (nullish other JNull))"

definition template_deps :: "json \<Rightarrow> json list" where
  "template_deps tmpl = (case js_get tmpl ''dependsOn'' of Some (JArr ds) \<Rightarrow> ds | _ \<Rightarrow> [])"

definition child_approval_of :: "env \<Rightarrow> ident \<Rightarrow> string \<Rightarrow> ident \<Rightarrow> json \<Rightarrow> child_approval option" where
  "child_approval_of E wid childKey childId tmpl =
     (let mk = (\<lambda>scope. Some \<lparr>ca_id = deterministicSidecarId E ''wapp'' childId ''approval'', ca_workflowId = wid,
                              ca_taskKey = childKey, ca_requiredScope = scope, ca_status = ApPending\<rparr>)
      in if template_type tmpl = ''approval'' then
           (case js_get tmpl ''requiredScope'' of
              Some (JObj o') \<Rightarrow> mk (JObj o')
            | Some (JArr xs) \<Rightarrow> mk (JArr xs)
            | _ \<Rightarrow> None)
         else None)"

text \<open>The plans of the items from index \<open>i\<close> on.\<close>

fun child_plans ::
  "env \<Rightarrow> ident \<Rightarrow> ident \<Rightarrow> string \<Rightarrow> foreach_config \<Rightarrow> (string \<Rightarrow> bool) \<Rightarrow> nat \<Rightarrow> nat \<Rightarrow>
   (json \<times> string) list \<Rightarrow> foreach_error + child_plan list" where
  "child_plans E wid parentId parentKey fe known tot i [] = Inr []"
| "child_plans E wid parentId parentKey fe known tot i ((item, sid) # rest) =
     (let ctx = \<lparr>ic_index = i, ic_position = i + 1, ic_total = tot\<rparr>;
          tmpl = substituteValue (JObj (fe_template fe)) (fe_as fe) item ctx;
          row = child_task_row E wid parentId parentKey sid tmpl
      in case child_dependencies E wid (t_key row) (t_id row) known (template_deps tmpl) of
           Inl k \<Rightarrow> Inl (ForeachUnresolvedDependency parentKey sid k)
         | Inr deps \<Rightarrow>
             (case child_plans E wid parentId parentKey fe known tot (Suc i) rest of
                Inl e \<Rightarrow> Inl e
              | Inr plans \<Rightarrow>
                  Inr (\<lparr>cp_taskRow = row, cp_dependencies = deps,
                        cp_approval = child_approval_of E wid (t_key row) (t_id row) tmpl\<rparr> # plans)))"

definition materializeForeachChildren ::
  "env \<Rightarrow> ident \<Rightarrow> ident \<Rightarrow> string \<Rightarrow> foreach_config \<Rightarrow> json option \<Rightarrow> (string \<rightharpoonup> ident) \<Rightarrow>
   foreach_error + child_plan list" where
  "materializeForeachChildren E wid parentId parentKey fe sourceOutput workflowTaskIdByKey =
     (case source_items sourceOutput of
        Inl shape \<Rightarrow> Inl (ForeachInvalidSourceOutput (fe_source fe) parentKey shape)
      | Inr items \<Rightarrow>
          if int (length items) > effective_limit fe
          then Inl (ForeachMaxFanoutExceeded (fe_source fe) parentKey (length items) (effective_limit fe)
                      FOREACH_MAX_FANOUT_HARD_CEILING)
          else
            (case stable_ids E fe parentKey 0 items [] of
               Inl e \<Rightarrow> Inl e
             | Inr stables \<Rightarrow>
                 child_plans E wid parentId parentKey fe
                   (\<lambda>k. workflowTaskIdByKey k \<noteq> None \<or> k \<in> set (map (child_key parentKey) stables))
                   (length items) 0 (zip items stables)))"

section \<open>Lemmas\<close>

lemma child_key_inj [simp]: "child_key p a = child_key p b \<longleftrightarrow> a = b"
  by (simp add: child_key_def)

lemma stable_ids_distinct:
  "stable_ids E fe pkey i items seen = Inr ids \<Longrightarrow>
     distinct ids \<and> set ids \<inter> fst ` set seen = {} \<and> length ids = length items"
proof (induction items arbitrary: i seen ids)
  case (Cons item items)
  from Cons.prems obtain st rest where
    st: "stable_id E fe i item = Inr st" and new: "map_of seen st = None"
    and r: "stable_ids E fe pkey (Suc i) items ((st, i) # seen) = Inr rest" and ids: "ids = st # rest"
    by (auto split: sum.splits option.splits)
  from Cons.IH [OF r] have "distinct rest" "set rest \<inter> insert st (fst ` set seen) = {}" "length rest = length items"
    by auto
  moreover from new have "st \<notin> fst ` set seen" by (simp add: map_of_eq_None_iff)
  ultimately show ?case using ids by auto
qed simp

lemma child_dependencies_known:
  "child_dependencies E wid ck ci known ds = Inr deps \<Longrightarrow>
     list_all (\<lambda>d. known (cd_dependsOnTaskKey d) \<and> cd_taskKey d = ck) deps"
proof (induction ds arbitrary: deps)
  case (Cons d ds)
  then show ?case
    by (auto split: option.splits json.splits if_splits sum.splits)
qed simp

lemma child_task_row_simps [simp]:
  "t_id (child_task_row E wid pi pk st tmpl) = deterministicChildTaskId E wid pk st"
  "t_workflowId (child_task_row E wid pi pk st tmpl) = wid"
  "t_key (child_task_row E wid pi pk st tmpl) = child_key pk st"
  "t_parentTaskId (child_task_row E wid pi pk st tmpl) = Some pi"
  "t_status (child_task_row E wid pi pk st tmpl) = TIdle"
  "t_foreachConfig (child_task_row E wid pi pk st tmpl) = None"
  by (simp_all add: child_task_row_def new_task_def Let_def)

definition plan_ok :: "ident \<Rightarrow> ident \<Rightarrow> (string \<Rightarrow> bool) \<Rightarrow> child_plan \<Rightarrow> bool" where
  "plan_ok wid parentId known p \<longleftrightarrow>
     t_workflowId (cp_taskRow p) = wid \<and> t_parentTaskId (cp_taskRow p) = Some parentId
     \<and> t_status (cp_taskRow p) = TIdle \<and> t_foreachConfig (cp_taskRow p) = None
     \<and> list_all (\<lambda>d. known (cd_dependsOnTaskKey d) \<and> cd_taskKey d = t_key (cp_taskRow p)) (cp_dependencies p)"

lemma child_plans_ok:
  "child_plans E wid pi pk fe known tot i rows = Inr plans \<Longrightarrow>
     map (\<lambda>p. t_key (cp_taskRow p)) plans = map (\<lambda>r. child_key pk (snd r)) rows
     \<and> map (\<lambda>p. t_id (cp_taskRow p)) plans = map (\<lambda>r. deterministicChildTaskId E wid pk (snd r)) rows
     \<and> list_all (plan_ok wid pi known) plans"
proof (induction rows arbitrary: i plans)
  case (Cons r rows)
  obtain item st where r: "r = (item, st)" by (cases r)
  let ?tmpl = "substituteValue (JObj (fe_template fe)) (fe_as fe) item \<lparr>ic_index = i, ic_position = i + 1, ic_total = tot\<rparr>"
  from Cons.prems obtain deps rest where
    d: "child_dependencies E wid (child_key pk st) (deterministicChildTaskId E wid pk st) known (template_deps ?tmpl) = Inr deps"
    and p: "child_plans E wid pi pk fe known tot (Suc i) rows = Inr rest"
    and plans: "plans = \<lparr>cp_taskRow = child_task_row E wid pi pk st ?tmpl, cp_dependencies = deps,
       cp_approval = child_approval_of E wid (child_key pk st) (deterministicChildTaskId E wid pk st) ?tmpl\<rparr> # rest"
    by (auto simp: r Let_def split: sum.splits)
  from Cons.IH [OF p] child_dependencies_known [OF d] show ?case
    by (simp add: plans r plan_ok_def)
qed simp

lemma map_snd_zip_eq: "length xs = length ys \<Longrightarrow> map (\<lambda>r. f (snd r)) (zip xs ys) = map f ys"
  by (induction xs ys rule: list_induct2) auto

lemma index_id_inj: "index_id i = index_id j \<Longrightarrow> i = j"
  by (metis index_id_def pad_left_def read_nat_zeros read_show_nat)

lemma stable_ids_by_index:
  assumes "fe_itemKey fe = None"
  shows "fst ` set seen \<subseteq> index_id ` {..<i} \<Longrightarrow>
    stable_ids E fe pkey i items seen = Inr (map index_id [i..<i + length items])"
proof (induction items arbitrary: i seen)
  case (Cons item items)
  have "map_of seen (index_id i) = None"
    using Cons.prems by (auto simp: map_of_eq_None_iff dest: index_id_inj)
  moreover have "fst ` set ((index_id i, i) # seen) \<subseteq> index_id ` {..<Suc i}"
    using Cons.prems by (auto simp: lessThan_Suc)
  moreover have "[i..<i + length (item # items)] = i # [Suc i..<Suc i + length items]"
    by (subst upt_rec) simp
  ultimately show ?case
    using Cons.IH [of "(index_id i, i) # seen" "Suc i"] assms
    by (simp add: stable_id_def del: upt_Suc)
qed simp

lemma child_plans_no_deps:
  assumes "map_of (fe_template fe) ''dependsOn'' = None"
  shows "\<exists>plans. child_plans E wid pi pk fe known tot i rows = Inr plans"
proof (induction rows arbitrary: i)
  case (Cons r rows)
  obtain item st where r: "r = (item, st)" by (cases r)
  have "template_deps (substituteValue (JObj (fe_template fe)) (fe_as fe) item ctx) = []" for ctx
    using assms by (simp add: template_deps_def map_of_map)
  with Cons.IH [of "Suc i"] show ?case by (auto simp: r Let_def)
qed simp

text \<open>A value without the opening braces of a token.\<close>

fun free_text :: "string \<Rightarrow> bool" where
  "free_text [] \<longleftrightarrow> True"
| "free_text (c # cs) \<longleftrightarrow> \<not> starts_with (c # cs) ''{{'' \<and> free_text cs"

fun token_free :: "json \<Rightarrow> bool" where
  "token_free (JStr s) \<longleftrightarrow> free_text s"
| "token_free (JArr xs) \<longleftrightarrow> list_all token_free xs"
| "token_free (JObj kvs) \<longleftrightarrow> list_all (\<lambda>(k, v). token_free v) kvs"
| "token_free JNull \<longleftrightarrow> True"
| "token_free (JBool b) \<longleftrightarrow> True"
| "token_free (JNum i) \<longleftrightarrow> True"

lemma match_token_free: "free_text s \<Longrightarrow> match_token s = None"
  by (cases s) (auto simp: match_token_def)

lemma replace_tokens_free: "free_text s \<Longrightarrow> replace_tokens f s = s"
proof (induction s)
  case Nil
  then show ?case by (simp add: replace_tokens.simps)
next
  case (Cons c cs)
  have "match_token (c # cs) = None" by (rule match_token_free [OF Cons.prems])
  with Cons show ?case by (subst replace_tokens.simps) simp
qed

lemma substitute_token_free: "token_free v \<Longrightarrow> substituteValue v asName item ctx = v"
proof (induction v rule: token_free.induct)
  case (1 s)
  then show ?case by (simp add: substituteString_def match_token_free replace_tokens_free)
next
  case (2 xs)
  then show ?case by (simp add: list_all_iff map_idI)
next
  case (3 kvs)
  have "map (\<lambda>(k, v). (k, substituteValue v asName item ctx)) kvs = kvs"
    using 3 by (intro map_idI) (auto simp: list_all_iff)
  then show ?case by simp
qed simp_all

lemma match_token_name:
  assumes "name \<noteq> []" and "ident_start (hd name)" and "list_all ident_char name"
  shows "match_token (''{{'' @ name @ ''}}'') = Some (name, [])"
proof -
  obtain c cs where name: "name = c # cs" using assms(1) by (cases name) auto
  have sp: "\<not> is_space c" using assms(2) unfolding name by (auto simp: is_space_def ident_start_def Let_def)
  have br: "\<not> ident_char (CHR ''}'')" "\<not> is_space (CHR ''}'')"
    by (simp_all add: ident_char_def ident_start_def is_space_def)
  have "takeWhile ident_char (name @ ''}}'') = name" "dropWhile ident_char (name @ ''}}'') = ''}}''"
    using assms(3) br by (simp_all add: list_all_iff)
  then have "match_expr (name @ ''}}'') = Some (name, ''}}'')"
    using assms(2) by (simp add: match_expr_def name)
  moreover have "dropWhile is_space (name @ ''}}'') = name @ ''}}''" using sp by (simp add: name)
  ultimately show ?thesis using br by (simp add: match_token_def)
qed

lemma materialize_index_keys:
  assumes "source_items out = Inr items" and "int (length items) \<le> effective_limit fe"
    and "fe_itemKey fe = None" and "map_of (fe_template fe) ''dependsOn'' = None"
  shows "\<exists>plans. materializeForeachChildren E wid parentId parentKey fe out idByKey = Inr plans
    \<and> map (\<lambda>p. t_key (cp_taskRow p)) plans = map (\<lambda>i. parentKey @ ''__'' @ index_id i) [0..<length items]"
proof -
  have s: "stable_ids E fe parentKey 0 items [] = Inr (map index_id [0..<length items])"
    using stable_ids_by_index [OF assms(3), of "[]" 0 E parentKey items] by simp
  let ?known = "\<lambda>k. idByKey k \<noteq> None \<or> k \<in> set (map (child_key parentKey) (map index_id [0..<length items]))"
  obtain plans where p: "child_plans E wid parentId parentKey fe ?known (length items) 0
      (zip items (map index_id [0..<length items])) = Inr plans"
    using child_plans_no_deps [OF assms(4)] by blast
  have len: "length items = length (map index_id [0..<length items])" by simp
  from child_plans_ok [OF p] have "map (\<lambda>p. t_key (cp_taskRow p)) plans =
      map (child_key parentKey) (map index_id [0..<length items])"
    by (simp only: map_snd_zip_eq [OF len])
  with p s assms(1,2) show ?thesis
    by (simp add: materializeForeachChildren_def child_key_def comp_def)
qed

definition demo_foreach :: foreach_config where
  "demo_foreach = \<lparr>fe_source = ''src'', fe_as = ''row'', fe_itemKey = None,
     fe_template = [(''type'', JStr ''manual''), (''title'', JStr ''Ship {{row.name}}'')],
     fe_rollupPolicy = None, fe_maxFanout = None\<rparr>"

lemma demo_foreach_limits:
  "effective_limit demo_foreach = 50" "fe_itemKey demo_foreach = None"
  "map_of (fe_template demo_foreach) ''dependsOn'' = None"
  by (simp_all add: effective_limit_def demo_foreach_def FOREACH_MAX_FANOUT_DEFAULT_def
      FOREACH_MAX_FANOUT_HARD_CEILING_def)

section \<open>Properties\<close>

text \<open>
  What a successful materialization gives: one plan per item of the source output, at most the
  declared fan-out and never more than 500; pairwise distinct task keys \<open>parentKey__stableId\<close>;
  every child idle, in the parent's workflow, linked to the parent, without a foreach of its own;
  and every dependency names a task of the workflow or of the batch.
\<close>

theorem materialize_sound:
  assumes "materializeForeachChildren E wid parentId parentKey fe out idByKey = Inr plans"
  shows "\<exists>items. source_items out = Inr items \<and> length plans = length items
    \<and> int (length plans) \<le> nullish (fe_maxFanout fe) 50 \<and> length plans \<le> 500
    \<and> distinct (map (\<lambda>p. t_key (cp_taskRow p)) plans)
    \<and> list_all (plan_ok wid parentId (\<lambda>k. idByKey k \<noteq> None \<or> k \<in> (\<lambda>p. t_key (cp_taskRow p)) ` set plans)) plans"
proof -
  from assms obtain items sids where
    i: "source_items out = Inr items" and l: "int (length items) \<le> effective_limit fe"
    and s: "stable_ids E fe parentKey 0 items [] = Inr sids"
    and p: "child_plans E wid parentId parentKey fe
       (\<lambda>k. idByKey k \<noteq> None \<or> k \<in> set (map (child_key parentKey) sids)) (length items) 0 (zip items sids) = Inr plans"
    by (auto simp: materializeForeachChildren_def split: sum.splits if_splits)
  from stable_ids_distinct [OF s] have d: "distinct sids" and len: "length items = length sids" by auto
  from child_plans_ok [OF p] have keys: "map (\<lambda>p. t_key (cp_taskRow p)) plans = map (child_key parentKey) sids"
    and ok: "list_all (plan_ok wid parentId (\<lambda>k. idByKey k \<noteq> None \<or> k \<in> set (map (child_key parentKey) sids))) plans"
    by (simp_all add: map_snd_zip_eq [OF len])
  have "length plans = length sids" using keys by (metis length_map)
  moreover have "distinct (map (child_key parentKey) sids)" using d by (simp add: distinct_map inj_on_def)
  moreover have "(\<lambda>p. t_key (cp_taskRow p)) ` set plans = set (map (child_key parentKey) sids)"
    using keys by (metis set_map)
  ultimately show ?thesis
    using i l ok keys len by (simp add: effective_limit_def FOREACH_MAX_FANOUT_DEFAULT_def
        FOREACH_MAX_FANOUT_HARD_CEILING_def)
qed

text \<open>
  Materialization succeeds whenever it should: with a source output of the shape
  \<open>{ items: [\<dots>] }\<close> within the limit, no item key and a template without dependencies, every item
  gets its child, keyed by its zero-padded index in order.
\<close>

theorem materialize_by_index:
  assumes "source_items out = Inr items" and "int (length items) \<le> effective_limit fe"
    and "fe_itemKey fe = None" and "map_of (fe_template fe) ''dependsOn'' = None"
  shows "\<exists>plans. materializeForeachChildren E wid parentId parentKey fe out idByKey = Inr plans
    \<and> map (\<lambda>p. t_key (cp_taskRow p)) plans = map (\<lambda>i. parentKey @ ''__'' @ index_id i) [0..<length items]"
  by (rule materialize_index_keys [OF assms])

theorem materialize_by_index_witness:
  "\<exists>plans. materializeForeachChildren (demo_env 0) ''w'' ''p'' ''fan'' demo_foreach
       (Some (JObj [(''items'', JArr [JObj [(''name'', JStr ''x'')], JNull])])) Map.empty = Inr plans
     \<and> map (\<lambda>p. t_key (cp_taskRow p)) plans =
         map (\<lambda>i. ''fan'' @ ''__'' @ index_id i) [0..<length [JObj [(''name'', JStr ''x'')], JNull]]"
  by (rule materialize_by_index) (simp_all add: demo_foreach_limits source_items_def)

theorem materialize_sound_witness:
  "\<exists>plans. materializeForeachChildren (demo_env 0) ''w'' ''p'' ''fan'' demo_foreach
       (Some (JObj [(''items'', JArr [JNull])])) Map.empty = Inr plans
     \<and> distinct (map (\<lambda>p. t_key (cp_taskRow p)) plans)"
proof -
  have "\<exists>plans. materializeForeachChildren (demo_env 0) ''w'' ''p'' ''fan'' demo_foreach
       (Some (JObj [(''items'', JArr [JNull])])) Map.empty = Inr plans
     \<and> map (\<lambda>p. t_key (cp_taskRow p)) plans = map (\<lambda>i. ''fan'' @ ''__'' @ index_id i) [0..<length [JNull]]"
    by (rule materialize_index_keys) (simp_all add: demo_foreach_limits source_items_def)
  then obtain plans where p: "materializeForeachChildren (demo_env 0) ''w'' ''p'' ''fan'' demo_foreach
       (Some (JObj [(''items'', JArr [JNull])])) Map.empty = Inr plans" by blast
  from materialize_sound [OF p] p show ?thesis by blast
qed

text \<open>
  Template substitution touches placeholders only: a value without \<^verbatim>\<open>{{\<close> comes back unchanged,
  and a text that is exactly one placeholder of the loop variable is replaced by the item itself,
  not by its text.
\<close>

theorem substitution_spec:
  assumes "token_free v"
    and "asName \<noteq> []" and "ident_start (hd asName)" and "list_all ident_char asName"
    and "asName \<notin> {''$index'', ''$position'', ''$total''}"
  shows "substituteValue v asName item ctx = v
    \<and> substituteValue (JStr (''{{'' @ asName @ ''}}'')) asName item ctx = item"
  using substitute_token_free [OF assms(1)] match_token_name [OF assms(2-4)] assms(5)
  by (simp add: substituteString_def resolve_var_def)

theorem substitution_spec_witness:
  "substituteValue (JArr [JStr ''{{row}}'', JStr ''plain'']) ''row'' (JNum 7) \<lparr>ic_index = 0, ic_position = 1, ic_total = 1\<rparr> =
     JArr [JNum 7, JStr ''plain'']"
  using substitution_spec [of "JStr ''plain''" "''row''" "JNum 7" "\<lparr>ic_index = 0, ic_position = 1, ic_total = 1\<rparr>"]
  by (simp add: ident_start_def ident_char_def Let_def)

end
