(* ===== verification/Wf_ForeachReconciler.thy ===== *)
theory Wf_ForeachReconciler
  imports Wf_Passes Wf_Foreach
begin

text \<open>
  The foreach pass of a tick, \<^verbatim>\<open>packages/workflows/src/engine/foreach-reconciler.ts\<close>: materializing
  the children of an idle foreach parent whose source task is terminal, rolling the children of a
  running parent up under its policy, and cancelling children. The pass is one transaction; a
  violated constraint or precondition aborts it (\<open>Inl\<close>), and the database is as before.
\<close>

datatype tx_error =
    UniqueViolation string
  | ForeignKeyViolation string
  | PreconditionViolated foreach_precondition_error

section \<open>Source output and cancellation\<close>

definition readLatestSucceededAttemptOutput :: "ident \<Rightarrow> db \<Rightarrow> json option" where
  "readLatestSucceededAttemptOutput tid s =
     (case top_by a_attemptNo (filter (\<lambda>a. a_taskId a = tid \<and> a_status a = AttSucceeded) (db_attempts s)) of
        None \<Rightarrow> None
      | Some a \<Rightarrow> a_output a)"

datatype cancel_scope = CancelPending | CancelAll

fun cancellable :: "cancel_scope \<Rightarrow> task_status list" where
  "cancellable CancelPending = [TIdle, TScheduled, TPendingApproval]"
| "cancellable CancelAll = [TIdle, TScheduled, TPendingApproval, TRunning]"

definition foreach_event ::
  "env \<Rightarrow> ident \<Rightarrow> ident \<Rightarrow> string \<Rightarrow> string \<Rightarrow> json \<Rightarrow> db \<Rightarrow> db" where
  "foreach_event E wid tid tkey kind payload s =
     insert_event E wid (Some tid) (Some tkey) kind (Some payload) None (Some ''engine.foreach'') None s"

definition cancelForeachChildren ::
  "env \<Rightarrow> ident \<Rightarrow> ident \<Rightarrow> cancel_scope \<Rightarrow> string \<Rightarrow> db \<Rightarrow> (ident list \<times> ident list) \<times> db" where
  "cancelForeachChildren E wid parentId scope reason s =
     (let hit = (\<lambda>t. t_workflowId t = wid \<and> t_parentTaskId t = Some parentId
                     \<and> t_status t \<in> set (cancellable scope));
          cancelled = filter hit (db_tasks s);
          s1 = s\<lparr>db_tasks := update_where hit (\<lambda>t. set_task_status E TCancelled (t_lockVersion t) t) (db_tasks s)\<rparr>
      in if cancelled = [] then (([], []), s1)
         else
           (let s2 = fold (\<lambda>t. foreach_event E wid (t_id t) (t_key t) ''task_cancelled''
                     (JObj [(''reason'', JStr reason), (''parentTaskId'', JStr parentId)])) cancelled s1;
                runs = (if scope = CancelAll
                        then filter (\<lambda>c. c \<noteq> []) (List.map_filter a_childRunId
                               (filter (\<lambda>a. a_taskId a \<in> set (map t_id cancelled) \<and> a_status a = AttRunning)
                                 (db_attempts s2)))
                        else [])
            in ((map t_id cancelled, runs), s2)))"

section \<open>Persisting child plans\<close>

definition insert_child :: "env \<Rightarrow> child_plan \<Rightarrow> db \<Rightarrow> tx_error + db" where
  "insert_child E p s =
     (let row = (cp_taskRow p)\<lparr>t_createdAt := e_wall E, t_updatedAt := e_wall E\<rparr>
      in if list_ex (\<lambda>t. t_workflowId t = t_workflowId row \<and> t_key t = t_key row) (db_tasks s) then Inr s
         else if list_ex (\<lambda>t. t_id t = t_id row) (db_tasks s) then Inl (UniqueViolation ''workflow_task_pkey'')
         else Inr (s\<lparr>db_tasks := db_tasks s @ [row]\<rparr>))"

definition resolveTaskIdByKey :: "ident \<Rightarrow> string \<Rightarrow> db \<Rightarrow> ident option" where
  "resolveTaskIdByKey wid key s =
     map_option t_id (find (\<lambda>t. t_workflowId t = wid \<and> t_key t = key) (db_tasks s))"

definition insert_dependency ::
  "(string \<rightharpoonup> ident) \<Rightarrow> task_row \<Rightarrow> child_dependency \<Rightarrow> db \<Rightarrow> tx_error + db" where
  "insert_dependency batchKeyToId row dep s =
     (case (case batchKeyToId (cd_dependsOnTaskKey dep) of
              Some i \<Rightarrow> Some i
            | None \<Rightarrow> resolveTaskIdByKey (t_workflowId row) (cd_dependsOnTaskKey dep) s) of
        None \<Rightarrow> Inr s
      | Some onId \<Rightarrow>
          if onId = [] then Inr s
          else if list_ex (\<lambda>d. d_id d = cd_id dep) (db_deps s)
            then Inl (UniqueViolation ''workflow_dependency_pkey'')
          else if list_ex (\<lambda>d. d_taskId d = t_id row \<and> d_dependsOnTaskId d = onId) (db_deps s)
            then Inl (UniqueViolation ''workflow_dependency_edge_uniq'')
          else if \<not> list_ex (\<lambda>t. t_id t = t_id row) (db_tasks s) \<or> \<not> list_ex (\<lambda>t. t_id t = onId) (db_tasks s)
            then Inl (ForeignKeyViolation ''workflow_dependency'')
          else Inr (s\<lparr>db_deps := db_deps s @
                  [\<lparr>d_id = cd_id dep, d_workflowId = t_workflowId row, d_taskId = t_id row,
                    d_dependsOnTaskId = onId, d_outcome = cd_outcome dep\<rparr>]\<rparr>))"

definition insert_child_approval :: "env \<Rightarrow> child_plan \<Rightarrow> db \<Rightarrow> tx_error + db" where
  "insert_child_approval E p s =
     (case cp_approval p of
        None \<Rightarrow> Inr s
      | Some ap \<Rightarrow>
          if list_ex (\<lambda>a. ap_id a = ca_id ap) (db_approvals s)
            then Inl (UniqueViolation ''workflow_approval_pkey'')
          else if \<not> list_ex (\<lambda>t. t_id t = t_id (cp_taskRow p)) (db_tasks s)
            then Inl (ForeignKeyViolation ''workflow_approval'')
          else Inr (s\<lparr>db_approvals := db_approvals s @
                  [(new_approval (ca_id ap) (t_workflowId (cp_taskRow p)) (t_id (cp_taskRow p)) (ca_requiredScope ap))
                     \<lparr>ap_status := ca_status ap, ap_createdAt := e_wall E, ap_updatedAt := e_wall E\<rparr>]\<rparr>))"

text \<open>Statements in sequence; the first error aborts.\<close>

fun run_all :: "('a \<Rightarrow> db \<Rightarrow> 'e + db) \<Rightarrow> 'a list \<Rightarrow> db \<Rightarrow> 'e + db" where
  "run_all f [] s = Inr s"
| "run_all f (x # xs) s = (case f x s of Inl e \<Rightarrow> Inl e | Inr s' \<Rightarrow> run_all f xs s')"

definition persistChildPlans :: "env \<Rightarrow> child_plan list \<Rightarrow> db \<Rightarrow> tx_error + db" where
  "persistChildPlans E plans s =
     (let batchKeyToId = js_map (map (\<lambda>p. (t_key (cp_taskRow p), t_id (cp_taskRow p))) plans)
      in case run_all (insert_child E) plans s of
           Inl e \<Rightarrow> Inl e
         | Inr s1 \<Rightarrow>
             (case run_all (\<lambda>p. run_all (insert_dependency batchKeyToId (cp_taskRow p)) (cp_dependencies p)) plans s1 of
                Inl e \<Rightarrow> Inl e
              | Inr s2 \<Rightarrow> run_all (insert_child_approval E) plans s2))"

section \<open>Idle parents\<close>

definition foreach_error_json :: "foreach_error \<Rightarrow> json" where
  "foreach_error_json e =
     (case e of
        ForeachInvalidSourceOutput src p shape \<Rightarrow>
          JObj [(''code'', JStr (foreach_error_code e)), (''sourceTaskKey'', JStr src),
                (''foreachParentKey'', JStr p), (''receivedShape'', JStr shape)]
      | ForeachInvalidItemKey src p i raw \<Rightarrow>
          JObj [(''code'', JStr (foreach_error_code e)), (''sourceTaskKey'', JStr src),
                (''foreachParentKey'', JStr p), (''itemIndex'', JNum (int i)), (''rawValue'', raw)]
      | ForeachDuplicateItemKey src p st i j \<Rightarrow>
          JObj [(''code'', JStr (foreach_error_code e)), (''sourceTaskKey'', JStr src),
                (''foreachParentKey'', JStr p), (''duplicateStableId'', JStr st),
                (''indices'', JArr [JNum (int i), JNum (int j)])]
      | ForeachMaxFanoutExceeded src p n lim ceil \<Rightarrow>
          JObj [(''code'', JStr (foreach_error_code e)), (''sourceTaskKey'', JStr src),
                (''foreachParentKey'', JStr p), (''actual'', JNum (int n)), (''limit'', JNum lim),
                (''hardCeiling'', JNum ceil)]
      | ForeachUnresolvedDependency p st k \<Rightarrow>
          JObj [(''code'', JStr (foreach_error_code e)), (''foreachParentKey'', JStr p),
                (''childStableId'', JStr st), (''attemptedDependencyKey'', k)])"

text \<open>\<open>UPDATE \<dots> SET f, lock_version = lock_version + 1 WHERE id = parent.id AND lock_version = parent.lockVersion\<close>.\<close>

definition cas_parent :: "env \<Rightarrow> task_row \<Rightarrow> (task_row \<Rightarrow> task_row) \<Rightarrow> task_status \<Rightarrow> db \<Rightarrow> db" where
  "cas_parent E parent f st s =
     snd (cas_task (t_id parent) (t_lockVersion parent) (\<lambda>t. f (set_task_status E st (t_lockVersion t) t)) s)"

definition persistForeachMaterializationFailure ::
  "env \<Rightarrow> ident \<Rightarrow> task_row \<Rightarrow> string \<Rightarrow> json \<Rightarrow> db \<Rightarrow> tx_error + db" where
  "persistForeachMaterializationFailure E wid parent errorCode payload s =
     (case assertForeachIdleFail (t_key parent) errorCode of
        Inl e \<Rightarrow> Inl (PreconditionViolated e)
      | Inr _ \<Rightarrow>
          Inr (cas_parent E parent
                 (\<lambda>t. t\<lparr>t_metadata := with_key ''foreach_materialization_error'' (JStr errorCode) (t_metadata t)\<rparr>)
                 TFailed
                 (foreach_event E wid (t_id parent) (t_key parent) ''foreach_materialization_failed'' payload s)))"

definition idle_source_succeeded ::
  "env \<Rightarrow> ident \<Rightarrow> task_row \<Rightarrow> task_row \<Rightarrow> foreach_config \<Rightarrow> (string \<rightharpoonup> ident) \<Rightarrow> db \<Rightarrow> tx_error + db" where
  "idle_source_succeeded E wid parent source fe idByKey s =
     (case materializeForeachChildren E wid (t_id parent) (t_key parent) fe
             (readLatestSucceededAttemptOutput (t_id source) s) idByKey of
        Inl e \<Rightarrow> persistForeachMaterializationFailure E wid parent (foreach_error_code e) (foreach_error_json e) s
      | Inr plans \<Rightarrow>
          if plans = [] then
            (case assertForeachIdleSucceeded (t_key parent) 0 of
               Inl e \<Rightarrow> Inl (PreconditionViolated e)
             | Inr _ \<Rightarrow>
                 Inr (foreach_event E wid (t_id parent) (t_key parent) ''foreach_zero_children''
                        (JObj [(''sourceTaskKey'', JStr (t_key source))])
                        (cas_parent E parent (\<lambda>t. t\<lparr>t_actualStartUtc := Some (e_wall E), t_actualEndUtc := Some (e_wall E)\<rparr>)
                           TSucceeded s)))
          else
            (case persistChildPlans E plans s of
               Inl e \<Rightarrow> Inl e
             | Inr s1 \<Rightarrow>
                 Inr (foreach_event E wid (t_id parent) (t_key parent) ''foreach_materialized''
                        (JObj [(''sourceTaskKey'', JStr (t_key source)), (''childCount'', JNum (int (length plans)))])
                        (cas_parent E parent (\<lambda>t. t\<lparr>t_actualStartUtc := Some (e_wall E)\<rparr>) TRunning s1))))"

definition skip_parent :: "env \<Rightarrow> ident \<Rightarrow> task_row \<Rightarrow> task_row \<Rightarrow> string \<Rightarrow> db \<Rightarrow> db" where
  "skip_parent E wid parent source reason s =
     foreach_event E wid (t_id parent) (t_key parent) ''foreach_skipped''
       (JObj [(''sourceTaskKey'', JStr (t_key source)), (''reason'', JStr reason)])
       (cas_parent E parent id TSkipped s)"

definition handleIdleParent ::
  "env \<Rightarrow> ident \<Rightarrow> task_row \<Rightarrow> task_row \<Rightarrow> foreach_config \<Rightarrow> (string \<rightharpoonup> ident) \<Rightarrow> db \<Rightarrow> tx_error + db" where
  "handleIdleParent E wid parent source fe idByKey s =
     (case t_status source of
        TSucceeded \<Rightarrow> idle_source_succeeded E wid parent source fe idByKey s
      | TFailed \<Rightarrow>
          if nullish (t_failurePolicy parent) FpBlock = FpSkip then
            (case assertForeachIdleSkip (t_key parent) SrcFailed (Some FpSkip) of
               Inl e \<Rightarrow> Inl (PreconditionViolated e)
             | Inr _ \<Rightarrow> Inr (skip_parent E wid parent source ''source_failed_failurePolicy_skip'' s))
          else Inr s
      | TSkipped \<Rightarrow>
          (case assertForeachIdleSkip (t_key parent) SrcSkipped (t_failurePolicy parent) of
             Inl e \<Rightarrow> Inl (PreconditionViolated e)
           | Inr _ \<Rightarrow> Inr (skip_parent E wid parent source ''source_skipped'' s))
      | _ \<Rightarrow> Inr s)"

section \<open>Running parents\<close>

definition has_true :: "(string \<times> json) list \<Rightarrow> string \<Rightarrow> bool" where
  "has_true meta k \<longleftrightarrow> map_of meta k = Some (JBool True)"

definition desired_meta :: "bool \<Rightarrow> bool \<Rightarrow> (string \<times> json) list \<Rightarrow> (string \<times> json) list" where
  "desired_meta anyFailed anySucceeded meta =
     (let m1 = (if anyFailed \<and> \<not> has_true meta ''foreach_has_failure''
                then with_key ''foreach_has_failure'' (JBool True) meta else meta)
      in if anySucceeded \<and> \<not> has_true meta ''foreach_has_success''
         then with_key ''foreach_has_success'' (JBool True) m1 else m1)"

fun policy_text :: "rollup_policy \<Rightarrow> string" where
  "policy_text AnyFails = ''any_fails''"
| "policy_text BestEffort = ''best_effort''"
| "policy_text AllOrNothing = ''all_or_nothing''"

text \<open>The status a parent settles at once all its children are terminal.\<close>

fun settled_parent_status :: "rollup_policy \<Rightarrow> bool \<Rightarrow> bool \<Rightarrow> task_status" where
  "settled_parent_status AnyFails anyFailed anySucceeded = (if anyFailed then TFailed else TSucceeded)"
| "settled_parent_status BestEffort anyFailed anySucceeded = (if anySucceeded then TSucceeded else TFailed)"
| "settled_parent_status AllOrNothing anyFailed anySucceeded = (if anyFailed then TFailed else TSucceeded)"

definition cancel_by_policy :: "env \<Rightarrow> ident \<Rightarrow> ident \<Rightarrow> rollup_policy \<Rightarrow> db \<Rightarrow> ident list \<times> db" where
  "cancel_by_policy E wid parentId policy s =
     (case policy of
        AnyFails \<Rightarrow>
          (let (r, s') = cancelForeachChildren E wid parentId CancelPending ''any_fails_rollup'' s in (snd r, s'))
      | AllOrNothing \<Rightarrow>
          (let (r, s') = cancelForeachChildren E wid parentId CancelAll ''all_or_nothing_rollup'' s in (snd r, s'))
      | BestEffort \<Rightarrow> ([], s))"

definition handleRunningParent ::
  "env \<Rightarrow> ident \<Rightarrow> task_row \<Rightarrow> foreach_config \<Rightarrow> task_row list \<Rightarrow> db \<Rightarrow> ident list \<times> db" where
  "handleRunningParent E wid parent fe allTasks s =
     (let policy = nullish (fe_rollupPolicy fe) AnyFails;
          children = filter (\<lambda>t. t_parentTaskId t = Some (t_id parent)) allTasks
      in if children = [] then ([], s)
         else
           (let allTerminal = list_all (\<lambda>c. isTerminalTaskStatus (t_status c)) children;
                anyFailed = list_ex (\<lambda>c. t_status c = TFailed) children;
                anySucceeded = list_ex (\<lambda>c. t_status c = TSucceeded) children;
                meta = t_metadata parent;
                desired = desired_meta anyFailed anySucceeded meta;
                s1 = (if desired \<noteq> meta
                      then s\<lparr>db_tasks := update_where (\<lambda>t. t_id t = t_id parent)
                             (\<lambda>t. t\<lparr>t_metadata := desired, t_lockVersion := t_lockVersion t + 1,
                                    t_updatedAt := e_wall E\<rparr>) (db_tasks s)\<rparr>
                      else s);
                (cleanup, s2) = (if anyFailed then cancel_by_policy E wid (t_id parent) policy s1 else ([], s1))
            in if \<not> allTerminal then (cleanup, s2)
               else
                 (let final = settled_parent_status policy anyFailed anySucceeded;
                      s3 = s2\<lparr>db_tasks := update_where (\<lambda>t. t_id t = t_id parent \<and> t_status t = TRunning)
                             (\<lambda>t. (set_task_status E final (t_lockVersion t) t)\<lparr>t_actualEndUtc := Some (e_wall E)\<rparr>)
                             (db_tasks s2)\<rparr>
                  in (cleanup,
                      foreach_event E wid (t_id parent) (t_key parent) ''foreach_settled''
                        (JObj [(''policy'', JStr (policy_text policy)), (''finalStatus'', JStr (task_status_text final)),
                               (''anyFailed'', JBool anyFailed), (''anySucceeded'', JBool anySucceeded),
                               (''childCount'', JNum (int (length children)))]) s3))))"

section \<open>The pass\<close>

definition foreach_parent_step ::
  "env \<Rightarrow> ident \<Rightarrow> task_row list \<Rightarrow> task_row \<Rightarrow> ident list \<times> db \<Rightarrow> tx_error + ident list \<times> db" where
  "foreach_parent_step E wid allTasks parent st =
     (let (cleanup, s) = st
      in case t_foreachConfig parent of
           None \<Rightarrow> Inr st
         | Some fe \<Rightarrow>
             (case js_map (map (\<lambda>t. (t_key t, t)) allTasks) (fe_source fe) of
                None \<Rightarrow>
                  map_sum id (Pair cleanup)
                    (persistForeachMaterializationFailure E wid parent ''foreach_invalid_source_output''
                       (JObj [(''receivedShape'', JStr (''unknown_source_key='' @ fe_source fe))]) s)
              | Some source \<Rightarrow>
                  if t_status parent = TIdle then
                    map_sum id (Pair cleanup)
                      (handleIdleParent E wid parent source fe (js_map (map (\<lambda>t. (t_key t, t_id t)) allTasks)) s)
                  else if t_status parent = TRunning then
                    (let (c, s') = handleRunningParent E wid parent fe allTasks s in Inr (cleanup @ c, s'))
                  else Inr st))"

fun foreach_parents_loop ::
  "env \<Rightarrow> ident \<Rightarrow> task_row list \<Rightarrow> task_row list \<Rightarrow> ident list \<times> db \<Rightarrow> tx_error + ident list \<times> db" where
  "foreach_parents_loop E wid allTasks [] st = Inr st"
| "foreach_parents_loop E wid allTasks (p # ps) st =
     (case foreach_parent_step E wid allTasks p st of
        Inl e \<Rightarrow> Inl e
      | Inr st' \<Rightarrow> foreach_parents_loop E wid allTasks ps st')"

definition reconcileForeachParents :: "env \<Rightarrow> ident \<Rightarrow> db \<Rightarrow> tx_error + ident list \<times> db" where
  "reconcileForeachParents E wid s =
     (case find_workflow s wid of
        None \<Rightarrow> Inr ([], s)
      | Some w \<Rightarrow>
          if w_status w \<noteq> WActive then Inr ([], s)
          else
            (let allTasks = tasks_of s wid
             in foreach_parents_loop E wid allTasks (filter (\<lambda>t. t_foreachConfig t \<noteq> None) allTasks) ([], s)))"

end
