(* ===== verification/Wf_Reconcile.thy ===== *)
theory Wf_Reconcile
  imports Wf_Finalize Wf_ForeachReconciler
begin

text \<open>
  The reconcile tick of one workflow (\<^verbatim>\<open>reconcileWorkflow\<close> in
  \<^verbatim>\<open>packages/workflows/src/engine/reconciler.ts\<close>): poll, foreach, rejected approvals, stale
  approvals, the claim-dispatch-record loop of at most 200 rounds, finalize, solicit, notify. The
  host's functions are the record \<open>host\<close>; \<open>h_env\<close> gives the platform of each transaction in turn
  (the wall clock moves between transactions), \<open>h_cancelChildRun\<close> says whether the host cancels child
  runs, and \<open>h_notify\<close>, when present, which notifications its notifier accepts without throwing. A
  pass that throws leaves the database as it was,
  since its transaction rolls back and the tick goes on.
\<close>

record host =
  h_env :: "nat \<Rightarrow> env"
  h_calendar :: calendar
  h_executors :: "string \<rightharpoonup> executor"
  h_getChildRunStatus :: "child_status_fn option"
  h_cancelChildRun :: bool
  h_notify :: "(workflow_notification \<Rightarrow> bool) option"

section \<open>Dispatching\<close>

definition executor_task_of :: "task_row \<Rightarrow> executor_task" where
  "executor_task_of t =
     \<lparr>et_id = t_id t, et_key = t_key t, et_type = t_type t, et_title = t_title t, et_input = t_input t,
      et_agentRef = t_agentRef t, et_assigneeLevel = t_assigneeLevel t, et_assigneeId = t_assigneeId t\<rparr>"

definition dispatch_claim :: "(string \<rightharpoonup> executor) \<Rightarrow> execution_actor \<Rightarrow> claimed_task \<Rightarrow> claimed_task \<times> executor_outcome" where
  "dispatch_claim executors prov c =
     (let task = c_task c;
          exec = nullish (executors (t_type task))
                   (plain_outcome OutRunning (Some (''no executor for '' @ t_type task)));
          input = \<lparr>ei_task = executor_task_of task, ei_provenance = buildChildRunProvenance prov (t_id task),
                   ei_idempotencyKey = c_idempotencyKey c, ei_attemptNo = c_attemptNo c\<rparr>
      in (c, case exec input of
               Inl msg \<Rightarrow> \<lparr>o_status = OutFailed, o_error = Some (JObj [(''message'', JStr msg)]),
                           o_childRunId = None, o_note = None\<rparr>
             | Inr outcome \<Rightarrow> outcome))"

record loop_result =
  lr_total :: nat
  lr_status :: string
  lr_transitioned :: bool
  lr_deadLettered :: "ident list"

text \<open>
  The loop \<^verbatim>\<open>for (let iter = 0; iter < 200; iter++)\<close>: \<open>n\<close> rounds are left, \<open>k\<close> transactions have run.
\<close>

fun dispatch_loop ::
  "host \<Rightarrow> ident \<Rightarrow> instant \<Rightarrow> nat \<Rightarrow> nat \<Rightarrow> nat \<Rightarrow> ident list \<Rightarrow> db \<Rightarrow> loop_result \<times> nat \<times> db" where
  "dispatch_loop H wid now 0 k tot deadLettered s =
     (\<lparr>lr_total = tot, lr_status = ''active'', lr_transitioned = False, lr_deadLettered = deadLettered\<rparr>, k, s)"
| "dispatch_loop H wid now (Suc n) k tot deadLettered s =
     (let (r, s1) = claimReadyTasks (h_env H k) wid now s
      in if cr_inactive r
         then (\<lparr>lr_total = tot, lr_status = cr_status r, lr_transitioned = False,
                lr_deadLettered = deadLettered\<rparr>, k + 1, s1)
         else
           (case (cr_claimed r, cr_provenance r) of
              (c # cs, Some prov) \<Rightarrow>
                (let results = map (dispatch_claim (h_executors H) prov) (c # cs);
                     (dead, s2) = recordOutcomes (h_env H (k + 1)) wid results now prov s1
                 in dispatch_loop H wid now n (k + 2) (tot + length (c # cs)) (deadLettered @ dead) s2)
            | _ \<Rightarrow>
                (let ((status, transitioned), s2) = finalizeWorkflow (h_env H (k + 1)) wid s1
                 in (\<lparr>lr_total = tot, lr_status = status, lr_transitioned = transitioned,
                      lr_deadLettered = deadLettered\<rparr>, k + 2, s2))))"

section \<open>The tick\<close>

text \<open>The notifications of a tick in their order; the first one the notifier throws on ends the list.\<close>

definition reconcile_notifications ::
  "ident \<Rightarrow> string \<Rightarrow> ident list \<Rightarrow> bool \<Rightarrow> ident list \<Rightarrow> workflow_notification list" where
  "reconcile_notifications wid status deadLettered terminalTransitioned solicitedApprovals =
     map (\<lambda>tid. notificationFor NApprovalNeeded wid (Some tid) None) solicitedApprovals
     @ map (\<lambda>tid. notificationFor NTaskFailed wid (Some tid) None) deadLettered
     @ (if terminalTransitioned then
          (if status = ''completed'' then [notificationFor NWorkflowCompleted wid None None]
           else if status = ''failed'' then [notificationFor NWorkflowFailed wid None None] else [])
        else [])"

definition emitReconcileNotifications ::
  "(workflow_notification \<Rightarrow> bool) option \<Rightarrow> ident \<Rightarrow> string \<Rightarrow> ident list \<Rightarrow> bool \<Rightarrow> ident list \<Rightarrow>
   workflow_notification list" where
  "emitReconcileNotifications notify wid status deadLettered terminalTransitioned solicitedApprovals =
     (case notify of
        None \<Rightarrow> []
      | Some accepts \<Rightarrow>
          takeWhile accepts (reconcile_notifications wid status deadLettered terminalTransitioned solicitedApprovals))"

record tick_result =
  tk_dispatched :: nat
  tk_status :: string
  tk_notifications :: "workflow_notification list"
  tk_cancelledRuns :: "ident list"

definition reconcileWorkflow :: "host \<Rightarrow> ident \<Rightarrow> instant \<Rightarrow> db \<Rightarrow> tick_result \<times> db" where
  "reconcileWorkflow H wid now s0 =
     (let (dead, s1) = (case h_getChildRunStatus H of
                          None \<Rightarrow> ([], s0)
                        | Some f \<Rightarrow> pollRunningAgentTasks (h_env H 0) wid now f s0);
          (cleanup, s2) = (case reconcileForeachParents (h_env H 1) wid s1 of
                             Inl _ \<Rightarrow> ([], s1)
                           | Inr r \<Rightarrow> r);
          (runs, s3) = applyRejectedApprovalPolicies (h_env H 2) wid s2;
          s4 = invalidateStaleApprovals (h_env H 3) wid now s3;
          (r, k, s5) = dispatch_loop H wid now 200 4 0 dead s4;
          (solicitedIds, s6) = solicitApprovals (h_env H k) (h_calendar H) wid now s5
      in (\<lparr>tk_dispatched = lr_total r, tk_status = lr_status r,
           tk_notifications = emitReconcileNotifications (h_notify H) wid (lr_status r) (lr_deadLettered r)
             (lr_transitioned r) solicitedIds,
           tk_cancelledRuns = (if h_cancelChildRun H then cleanup @ runs else [])\<rparr>, s6))"

end
