(* ===== verification/Wf_Lifecycle.thy ===== *)
theory Wf_Lifecycle
  imports Wf_Reconcile
begin

text \<open>
  Lifecycle actions, \<^verbatim>\<open>packages/workflows/src/engine/lifecycle.ts\<close>: start, pause, resume and cancel a
  workflow, complete a manual task, the body of the repeatable tick, and stuck-task diagnostics.

  Start, pause, resume and the manual completion read a row and write it back later without the
  advisory lock; the write is a definition of its own that takes the row as read, so that it can
  be applied to a database that has changed since. The specification checks of start (the store
  rebuilds the specification, \<^verbatim>\<open>validateStart\<close> judges it, the host probes agents and approvers) are
  parameters of \<open>startWorkflow\<close>. The notifications, audit entries and cancelled child runs of an action
  are returned as values: what the hooks of \<^verbatim>\<open>LifecycleDeps\<close> are called with, when the host has them.
\<close>

datatype lifecycle_result =
    LifecycleOk
  | LifecycleRefused string
  | LifecycleThrew transition_error

record lifecycle_effects =
  le_notifications :: "workflow_notification list"
  le_audit :: "audit_entry list"
  le_cancelledRuns :: "ident list"

definition no_effects :: lifecycle_effects where
  "no_effects = \<lparr>le_notifications = [], le_audit = [], le_cancelledRuns = []\<rparr>"

section \<open>Start\<close>

record start_task =
  st_key :: string
  st_type :: string
  st_agentRef :: json
  st_requiredScope :: json

text \<open>The probes of the host; an absent probe checks nothing.\<close>

type_synonym probe = "(json \<Rightarrow> ident \<Rightarrow> bool) option"

definition start_task_refused :: "probe \<Rightarrow> probe \<Rightarrow> ident \<Rightarrow> start_task \<Rightarrow> string option" where
  "start_task_refused agentExists approverResolvable orgId t =
     (case agentExists of
        Some f \<Rightarrow> if st_type t = ''agent_task'' \<and> \<not> f (st_agentRef t) orgId
                  then Some ''agent_not_available_at_start'' else
                    (case approverResolvable of
                       Some g \<Rightarrow> if st_type t = ''approval'' \<and> \<not> g (st_requiredScope t) orgId
                                 then Some ''approver_unresolvable_at_start'' else None
                     | None \<Rightarrow> None)
      | None \<Rightarrow>
          (case approverResolvable of
             Some g \<Rightarrow> if st_type t = ''approval'' \<and> \<not> g (st_requiredScope t) orgId
                       then Some ''approver_unresolvable_at_start'' else None
           | None \<Rightarrow> None))"

fun first_refusal :: "('t \<Rightarrow> string option) \<Rightarrow> 't list \<Rightarrow> string option" where
  "first_refusal f [] = None"
| "first_refusal f (t # ts) = (case f t of Some r \<Rightarrow> Some r | None \<Rightarrow> first_refusal f ts)"

text \<open>The write of the row read before, with its event.\<close>

definition start_write :: "env \<Rightarrow> ident \<Rightarrow> workflow_row \<Rightarrow> db \<Rightarrow> lifecycle_result \<times> db" where
  "start_write E wid w s =
     (let (moved, s1) = cas_workflow wid (w_lockVersion w) (\<lambda>r. w_status r = WDraft)
            (set_workflow_status E WActive (w_lockVersion w)) s
      in if \<not> moved then (LifecycleRefused ''stale'', s1)
         else (LifecycleOk, insert_event E wid None None ''workflow_started'' None (w_createdBy w)
                              (Some ''lifecycle'') None s1))"

definition startWorkflow ::
  "env \<Rightarrow> (db \<Rightarrow> ident \<Rightarrow> 'spec option) \<Rightarrow> ('spec \<Rightarrow> bool) \<Rightarrow> ('spec \<Rightarrow> start_task list) \<Rightarrow> bool \<Rightarrow>
   probe \<Rightarrow> probe \<Rightarrow> ident \<Rightarrow> db \<Rightarrow> lifecycle_result \<times> db" where
  "startWorkflow E reconstructSpec validateStart specTasks skipStartValid agentExists approverResolvable wid s =
     (case find_workflow s wid of
        None \<Rightarrow> (LifecycleRefused ''not_found'', s)
      | Some w \<Rightarrow>
          if w_status w \<noteq> WDraft
          then (LifecycleRefused (''not_draft ('' @ workflow_status_text (w_status w) @ '')''), s)
          else
            (case (if skipStartValid then None else reconstructSpec s wid) of
               None \<Rightarrow> start_write E wid w s
             | Some spec \<Rightarrow>
                 if \<not> validateStart spec then (LifecycleRefused ''not_start_valid'', s)
                 else
                   (case first_refusal (start_task_refused agentExists approverResolvable (w_orgId w)) (specTasks spec) of
                      Some r \<Rightarrow> (LifecycleRefused r, s)
                    | None \<Rightarrow> start_write E wid w s)))"

section \<open>Pause and resume\<close>

definition lifecycle_effects_of ::
  "notification_event \<Rightarrow> string \<Rightarrow> ident \<Rightarrow> ident option \<Rightarrow> lifecycle_effects" where
  "lifecycle_effects_of event action wid actorId =
     \<lparr>le_notifications = [notificationFor event wid None None],
      le_audit = [\<lparr>au_action = action, au_workflowId = wid, au_actorId = actorId, au_details = None\<rparr>],
      le_cancelledRuns = []\<rparr>"

definition pause_write ::
  "env \<Rightarrow> ident \<Rightarrow> ident option \<Rightarrow> workflow_row \<Rightarrow> db \<Rightarrow> (lifecycle_result \<times> lifecycle_effects) \<times> db" where
  "pause_write E wid actorId w s =
     (case assertTransition KWorkflow ''active'' ''paused'' of
        Inl e \<Rightarrow> ((LifecycleThrew e, no_effects), s)
      | Inr _ \<Rightarrow>
          (let (moved, s1) = cas_workflow wid (w_lockVersion w) (\<lambda>r. w_status r = WActive)
                 (set_workflow_status E WPaused (w_lockVersion w)) s
           in if \<not> moved then ((LifecycleRefused ''stale'', no_effects), s1)
              else ((LifecycleOk, lifecycle_effects_of NWorkflowPaused ''workflow.pause'' wid actorId),
                    insert_event E wid None None ''workflow_paused'' None actorId (Some ''lifecycle'') None s1)))"

definition pauseWorkflow ::
  "env \<Rightarrow> ident \<Rightarrow> ident option \<Rightarrow> db \<Rightarrow> (lifecycle_result \<times> lifecycle_effects) \<times> db" where
  "pauseWorkflow E wid actorId s =
     (case find_workflow s wid of
        None \<Rightarrow> ((LifecycleRefused ''not_found'', no_effects), s)
      | Some w \<Rightarrow>
          if w_status w \<noteq> WActive
          then ((LifecycleRefused (''not_active ('' @ workflow_status_text (w_status w) @ '')''), no_effects), s)
          else pause_write E wid actorId w s)"

definition resume_write ::
  "env \<Rightarrow> ident \<Rightarrow> ident option \<Rightarrow> workflow_row \<Rightarrow> db \<Rightarrow> (lifecycle_result \<times> lifecycle_effects) \<times> db" where
  "resume_write E wid actorId w s =
     (case assertTransition KWorkflow ''paused'' ''active'' of
        Inl e \<Rightarrow> ((LifecycleThrew e, no_effects), s)
      | Inr _ \<Rightarrow>
          (let (moved, s1) = cas_workflow wid (w_lockVersion w) (\<lambda>r. w_status r = WPaused)
                 (set_workflow_status E WActive (w_lockVersion w)) s
           in if \<not> moved then ((LifecycleRefused ''stale'', no_effects), s1)
              else ((LifecycleOk, lifecycle_effects_of NWorkflowResumed ''workflow.resume'' wid actorId),
                    insert_event E wid None None ''workflow_resumed'' None actorId (Some ''lifecycle'') None s1)))"

definition resumeWorkflow ::
  "env \<Rightarrow> ident \<Rightarrow> ident option \<Rightarrow> db \<Rightarrow> (lifecycle_result \<times> lifecycle_effects) \<times> db" where
  "resumeWorkflow E wid actorId s =
     (case find_workflow s wid of
        None \<Rightarrow> ((LifecycleRefused ''not_found'', no_effects), s)
      | Some w \<Rightarrow>
          if w_status w \<noteq> WPaused
          then ((LifecycleRefused (''not_paused ('' @ workflow_status_text (w_status w) @ '')''), no_effects), s)
          else resume_write E wid actorId w s)"

section \<open>Cancel\<close>

text \<open>The teardown after the workflow row is won, all in the same transaction.\<close>

definition cancel_teardown :: "env \<Rightarrow> ident \<Rightarrow> ident option \<Rightarrow> db \<Rightarrow> ident list \<times> db" where
  "cancel_teardown E wid actorId s =
     (let runs = live_child_runs s wid;
          s1 = cancel_open_tasks E wid s;
          s2 = s1\<lparr>db_approvals := update_where (\<lambda>a. ap_workflowId a = wid \<and> ap_status a = ApPending)
                 (\<lambda>a. a\<lparr>ap_invalidatedAt := Some (e_wall E), ap_updatedAt := e_wall E\<rparr>) (db_approvals s1)\<rparr>;
          s3 = clear_leases wid s2
      in (runs, insert_event E wid None None ''workflow_cancelled''
                  (Some (JObj [(''cancelledChildRuns'', JNum (int (length runs)))])) actorId
                  (Some ''lifecycle'') None s3))"

definition cancelWorkflow ::
  "env \<Rightarrow> ident \<Rightarrow> ident option \<Rightarrow> db \<Rightarrow> (lifecycle_result \<times> lifecycle_effects) \<times> db" where
  "cancelWorkflow E wid actorId s =
     (case find_workflow s wid of
        None \<Rightarrow> ((LifecycleRefused ''not_found'', no_effects), s)
      | Some w \<Rightarrow>
          if w_status w \<noteq> WActive \<and> w_status w \<noteq> WPaused
          then ((LifecycleRefused (''not_cancellable ('' @ workflow_status_text (w_status w) @ '')''), no_effects), s)
          else
            (case assertTransition KWorkflow (workflow_status_text (w_status w)) ''cancelled'' of
               Inl e \<Rightarrow> ((LifecycleThrew e, no_effects), s)
             | Inr _ \<Rightarrow>
                 (let (moved, s1) = cas_workflow wid (w_lockVersion w)
                        (\<lambda>r. w_status r = WActive \<or> w_status r = WPaused)
                        (set_workflow_status E WCancelled (w_lockVersion w)) s
                  in if \<not> moved then ((LifecycleRefused ''stale'', no_effects), s1)
                     else
                       (let (runs, s2) = cancel_teardown E wid actorId s1;
                            details = JObj [(''cancelledChildRuns'', JNum (int (length runs)))]
                        in ((LifecycleOk,
                             \<lparr>le_notifications = [notificationFor NWorkflowCancelled wid None (Some details)],
                              le_audit = [\<lparr>au_action = ''workflow.cancel'', au_workflowId = wid,
                                           au_actorId = actorId, au_details = Some details\<rparr>],
                              le_cancelledRuns = runs\<rparr>), s2)))))"

section \<open>Manual completion\<close>

definition manual_write :: "env \<Rightarrow> ident option \<Rightarrow> task_row \<Rightarrow> db \<Rightarrow> lifecycle_result \<times> db" where
  "manual_write E actorId task s =
     (let (moved, s1) = cas_task (t_id task) (t_lockVersion task)
            (\<lambda>t. (set_task_status E TSucceeded (t_lockVersion task) t)\<lparr>t_actualEndUtc := Some (e_wall E)\<rparr>) s
      in if \<not> moved then (LifecycleRefused ''stale'', s1)
         else (LifecycleOk, insert_event E (t_workflowId task) (Some (t_id task)) (Some (t_key task))
                              ''manual_completed'' None actorId (Some ''user'') None s1))"

definition manual_read :: "ident \<Rightarrow> db \<Rightarrow> string + task_row" where
  "manual_read tid s =
     (case find_task s tid of
        None \<Rightarrow> Inl ''not_found''
      | Some task \<Rightarrow>
          if t_type task \<noteq> ''manual'' then Inl ''not_manual''
          else if t_status task \<noteq> TRunning then Inl (''not_running ('' @ task_status_text (t_status task) @ '')'')
          else Inr task)"

definition markManualDone ::
  "host \<Rightarrow> ident \<Rightarrow> ident option \<Rightarrow> instant \<Rightarrow> db \<Rightarrow> lifecycle_result \<times> db" where
  "markManualDone H tid actorId now s =
     (case manual_read tid s of
        Inl reason \<Rightarrow> (LifecycleRefused reason, s)
      | Inr task \<Rightarrow>
          (let (r, s1) = manual_write (h_env H 0) actorId task s
           in if r \<noteq> LifecycleOk then (r, s1)
              else (LifecycleOk, snd (reconcileWorkflow (H\<lparr>h_env := (\<lambda>k. h_env H (Suc k))\<rparr>) (t_workflowId task) now s1))))"

section \<open>The repeatable tick and diagnostics\<close>

definition due_workflows :: "nat option \<Rightarrow> db \<Rightarrow> ident list" where
  "due_workflows batchCap s =
     map w_id (take (nullish batchCap (op_maxConcurrentActive ENGINE_OPS))
       (sort_key w_updatedAt (filter (\<lambda>w. w_status w = WActive) (db_workflows s))))"

fun reconcile_all :: "(nat \<Rightarrow> host) \<Rightarrow> (nat \<Rightarrow> instant) \<Rightarrow> nat \<Rightarrow> ident list \<Rightarrow> db \<Rightarrow> db" where
  "reconcile_all H now i [] s = s"
| "reconcile_all H now i (w # ws) s = reconcile_all H now (Suc i) ws (snd (reconcileWorkflow (H i) w (now i) s))"

definition reconcileDueWorkflows :: "(nat \<Rightarrow> host) \<Rightarrow> (nat \<Rightarrow> instant) \<Rightarrow> nat option \<Rightarrow> db \<Rightarrow> nat \<times> db" where
  "reconcileDueWorkflows H now batchCap s =
     (let rows = due_workflows batchCap s in (length rows, reconcile_all H now 0 rows s))"

record stuck_task =
  sk_taskId :: ident
  sk_workflowId :: ident
  sk_type :: string
  sk_status :: string
  sk_sinceUtc :: string

definition findStuckTasks :: "env \<Rightarrow> ident list option \<Rightarrow> db \<Rightarrow> stuck_task list" where
  "findStuckTasks E workflowIds s =
     (if workflowIds = Some [] then []
      else
        map (\<lambda>t. \<lparr>sk_taskId = t_id t, sk_workflowId = t_workflowId t, sk_type = t_type t,
                  sk_status = task_status_text (t_status t), sk_sinceUtc = toISOString (t_updatedAt t)\<rparr>)
          (filter (\<lambda>t. t_status t = TRunning \<and> t_updatedAt t < e_wall E - op_stuckRunningMs ENGINE_OPS
                       \<and> (case workflowIds of None \<Rightarrow> True | Some ids \<Rightarrow> t_workflowId t \<in> set ids))
            (db_tasks s)))"

end
