(* ===== verification/Wf_Invariant.thy ===== *)
theory Wf_Invariant
  imports Wf_Lifecycle
begin

text \<open>
  The invariant of the database and what every operation keeps of it. \<open>db_inv\<close> says that ids are
  unique, that the attempts of a task are numbered without gaps, that only the latest one may run,
  that a task which is idle, scheduled or pending approval has none running, that the attempts
  stay within the retry budget, and that every task has at most one lease. \<open>grows\<close> says how a
  database may change: attempts stay, a task row changes its status only together with its
  version and not at all once it is terminal (foreach parents apart), and a workflow row moves
  along the transition matrix. \<open>ok_step\<close> bundles both; there is one lemma for each operation of
  the engine and of the lifecycle.
\<close>

section \<open>The invariant of tasks and attempts\<close>

definition open_status :: "task_status \<Rightarrow> bool" where
  "open_status st \<longleftrightarrow> st = TIdle \<or> st = TScheduled \<or> st = TPendingApproval"

definition attempts_for :: "attempt_row list \<Rightarrow> ident \<Rightarrow> attempt_row list" where
  "attempts_for as tid = filter (\<lambda>a. a_taskId a = tid) as"

definition max_attempts :: "task_row \<Rightarrow> nat" where
  "max_attempts t = nat (max 1 (nullish (t_maxAttempts t) 3))"

definition no_running :: "attempt_row list \<Rightarrow> ident \<Rightarrow> bool" where
  "no_running as tid \<longleftrightarrow> (\<forall>a \<in> set as. a_taskId a = tid \<longrightarrow> a_status a \<noteq> AttRunning)"

text \<open>
  Ids are unique; an attempt belongs to a task of its workflow that is no foreach parent; the
  attempts of a task are numbered from one without gaps; only its latest attempt runs, and only
  while the task is not open; and the attempts stay within the retry budget, counting one more
  for every crash recovery of the task (\<open>rec\<close>).
\<close>

definition rows_ok :: "(ident \<Rightarrow> nat) \<Rightarrow> task_row list \<Rightarrow> attempt_row list \<Rightarrow> bool" where
  "rows_ok rec ts as \<longleftrightarrow>
     distinct (map t_id ts) \<and> distinct (map a_id as)
     \<and> (\<forall>a \<in> set as. \<exists>t \<in> set ts. t_id t = a_taskId a \<and> t_foreachConfig t = None \<and> t_workflowId t = a_workflowId a)
     \<and> (\<forall>tid. map a_attemptNo (attempts_for as tid) = [1..<Suc (length (attempts_for as tid))])
     \<and> (\<forall>a \<in> set as. a_status a = AttRunning \<longrightarrow> a_attemptNo a = length (attempts_for as (a_taskId a)))
     \<and> (\<forall>t \<in> set ts. open_status (t_status t) \<longrightarrow> no_running as (t_id t))
     \<and> (\<forall>t \<in> set ts. length (attempts_for as (t_id t)) \<le> max_attempts t + rec (t_id t)
          \<and> (open_status (t_status t) \<longrightarrow> length (attempts_for as (t_id t)) < max_attempts t + rec (t_id t)))"

lemma rows_okD:
  assumes "rows_ok rec ts as"
  shows "distinct (map t_id ts)" "distinct (map a_id as)"
    "a \<in> set as \<Longrightarrow> \<exists>t \<in> set ts. t_id t = a_taskId a \<and> t_foreachConfig t = None \<and> t_workflowId t = a_workflowId a"
    "map a_attemptNo (attempts_for as tid) = [1..<Suc (length (attempts_for as tid))]"
    "a \<in> set as \<Longrightarrow> a_status a = AttRunning \<Longrightarrow> a_attemptNo a = length (attempts_for as (a_taskId a))"
    "t \<in> set ts \<Longrightarrow> open_status (t_status t) \<Longrightarrow> no_running as (t_id t)"
    "t \<in> set ts \<Longrightarrow> length (attempts_for as (t_id t)) \<le> max_attempts t + rec (t_id t)"
    "t \<in> set ts \<Longrightarrow> open_status (t_status t) \<Longrightarrow> length (attempts_for as (t_id t)) < max_attempts t + rec (t_id t)"
  using assms unfolding rows_ok_def by blast+

text \<open>At most one attempt of a task runs.\<close>

lemma running_unique:
  assumes ok: "rows_ok rec ts as" and a: "a \<in> set as" "b \<in> set as"
    and r: "a_status a = AttRunning" "a_status b = AttRunning" and t: "a_taskId a = a_taskId b"
  shows "a = b"
proof -
  let ?l = "attempts_for as (a_taskId a)"
  have "a \<in> set ?l" "b \<in> set ?l" using a t by (simp_all add: attempts_for_def)
  moreover have "distinct (map a_attemptNo ?l)" by (simp only: rows_okD(4) [OF ok] distinct_upt)
  moreover have "a_attemptNo a = a_attemptNo b"
    using rows_okD(5) [OF ok a(1) r(1)] rows_okD(5) [OF ok a(2) r(2)] t by simp
  ultimately show ?thesis by (simp add: distinct_map inj_on_def)
qed

text \<open>Updating tasks: identity, kind, workflow and budget of a row stay; a row may become open only if no attempt of it runs.\<close>

definition keeps_row :: "(task_row \<Rightarrow> task_row) \<Rightarrow> bool" where
  "keeps_row f \<longleftrightarrow> (\<forall>t. t_id (f t) = t_id t \<and> t_foreachConfig (f t) = t_foreachConfig t
                        \<and> t_workflowId (f t) = t_workflowId t \<and> t_maxAttempts (f t) = t_maxAttempts t)"

lemma rows_ok_tasks:
  assumes ok: "rows_ok rec ts as" and keep: "keeps_row f"
    and run: "\<And>t. t \<in> set ts \<Longrightarrow> P t \<Longrightarrow> open_status (t_status (f t)) \<Longrightarrow> no_running as (t_id t)"
    and bud: "\<And>t. t \<in> set ts \<Longrightarrow> P t \<Longrightarrow> open_status (t_status (f t)) \<Longrightarrow>
                length (attempts_for as (t_id t)) < max_attempts t + rec (t_id t)"
  shows "rows_ok rec (update_where P f ts) as"
proof -
  have mid: "map t_id (update_where P f ts) = map t_id ts"
    by (rule map_update_where) (use keep in \<open>simp add: keeps_row_def\<close>)
  have mx: "max_attempts (f t) = max_attempts t" "t_id (f t) = t_id t" for t
    using keep by (simp_all add: keeps_row_def max_attempts_def)
  have fk: "\<exists>t \<in> set (update_where P f ts). t_id t = a_taskId a \<and> t_foreachConfig t = None \<and> t_workflowId t = a_workflowId a"
    if "a \<in> set as" for a
  proof -
    from rows_okD(3) [OF ok that] obtain t where
      t: "t \<in> set ts" "t_id t = a_taskId a" "t_foreachConfig t = None" "t_workflowId t = a_workflowId a" by blast
    then show ?thesis using keep
      by (intro bexI [of _ "if P t then f t else t"]) (auto simp: keeps_row_def set_update_where)
  qed
  have "no_running as (t_id u) \<and> length (attempts_for as (t_id u)) < max_attempts u + rec (t_id u)"
    if "u \<in> set (update_where P f ts)" "open_status (t_status u)" for u
  proof -
    from that(1) obtain t where t: "t \<in> set ts" "u = (if P t then f t else t)" by (auto simp: set_update_where)
    with that(2) run [OF t(1)] bud [OF t(1)] rows_okD(6,8) [OF ok t(1)] mx show ?thesis
      by (cases "P t") auto
  qed
  moreover have "length (attempts_for as (t_id u)) \<le> max_attempts u + rec (t_id u)"
    if "u \<in> set (update_where P f ts)" for u
    using that rows_okD(7) [OF ok] mx by (auto simp: set_update_where)
  ultimately show ?thesis
    using ok fk unfolding rows_ok_def by (simp add: mid)
qed

text \<open>Updating attempts: the identifying columns stay, and no attempt starts to run.\<close>

definition keeps_attempt :: "(attempt_row \<Rightarrow> attempt_row) \<Rightarrow> bool" where
  "keeps_attempt f \<longleftrightarrow>
     (\<forall>a. a_id (f a) = a_id a \<and> a_taskId (f a) = a_taskId a \<and> a_workflowId (f a) = a_workflowId a
          \<and> a_attemptNo (f a) = a_attemptNo a \<and> a_idempotencyKey (f a) = a_idempotencyKey a)"

lemma attempts_for_update:
  "keeps_attempt f \<Longrightarrow> attempts_for (update_where P f as) tid = update_where P f (attempts_for as tid)"
  by (induction as) (auto simp: attempts_for_def keeps_attempt_def)

lemma rows_ok_attempts:
  assumes ok: "rows_ok rec ts as" and keep: "keeps_attempt f"
    and run: "\<And>a. a \<in> set as \<Longrightarrow> P a \<Longrightarrow> a_status (f a) = AttRunning \<Longrightarrow> a_status a = AttRunning"
  shows "rows_ok rec ts (update_where P f as)"
proof -
  have len: "length (attempts_for (update_where P f as) tid) = length (attempts_for as tid)" for tid
    by (simp add: attempts_for_update [OF keep])
  have nos: "map a_attemptNo (attempts_for (update_where P f as) tid) = map a_attemptNo (attempts_for as tid)" for tid
    unfolding attempts_for_update [OF keep] by (rule map_update_where) (use keep in \<open>simp add: keeps_attempt_def\<close>)
  have mid: "map a_id (update_where P f as) = map a_id as"
    by (rule map_update_where) (use keep in \<open>simp add: keeps_attempt_def\<close>)
  have old: "\<exists>a \<in> set as. a_taskId b = a_taskId a \<and> a_workflowId b = a_workflowId a \<and> a_attemptNo b = a_attemptNo a
      \<and> (a_status b = AttRunning \<longrightarrow> a_status a = AttRunning)"
    if "b \<in> set (update_where P f as)" for b
  proof -
    from that obtain a where a: "a \<in> set as" "b = (if P a then f a else a)" by (auto simp: set_update_where)
    then show ?thesis using keep run [OF a(1)] by (intro bexI [of _ a]) (auto simp: keeps_attempt_def)
  qed
  have nr: "no_running as tid \<Longrightarrow> no_running (update_where P f as) tid" for tid
    unfolding no_running_def using old by metis
  show ?thesis
    unfolding rows_ok_def len nos mid
  proof (intro conjI ballI allI impI)
    show "\<exists>t \<in> set ts. t_id t = a_taskId b \<and> t_foreachConfig t = None \<and> t_workflowId t = a_workflowId b"
      if "b \<in> set (update_where P f as)" for b
      using old [OF that] rows_okD(3) [OF ok] by metis
    show "a_attemptNo b = length (attempts_for as (a_taskId b))"
      if "b \<in> set (update_where P f as)" "a_status b = AttRunning" for b
      using old [OF that(1)] that(2) rows_okD(5) [OF ok] by metis
  qed (use rows_okD [OF ok] nr in auto)
qed

text \<open>Claiming: the next attempt of an open task is appended and the task starts to run.\<close>

lemma rows_ok_claim:
  assumes ok: "rows_ok rec ts as" and keep: "keeps_row f"
    and st: "\<And>u. \<not> open_status (t_status (f u))"
    and t: "t \<in> set ts" "open_status (t_status t)" "t_foreachConfig t = None"
    and hit: "P t" and only: "\<And>u. P u \<Longrightarrow> t_id u = t_id t"
    and a: "a_taskId a = t_id t" "a_workflowId a = t_workflowId t" "a_id a \<notin> a_id ` set as"
      "a_attemptNo a = Suc (length (attempts_for as (t_id t)))"
  shows "rows_ok rec (update_where P f ts) (as @ [a])"
proof -
  have mid: "map t_id (update_where P f ts) = map t_id ts"
    by (rule map_update_where) (use keep in \<open>simp add: keeps_row_def\<close>)
  have mx: "max_attempts (f t) = max_attempts t" "t_id (f t) = t_id t" for t
    using keep by (simp_all add: keeps_row_def max_attempts_def)
  have fors: "attempts_for (as @ [a]) tid = attempts_for as tid @ (if tid = t_id t then [a] else [])" for tid
    using a(1) by (auto simp: attempts_for_def)
  have nr: "no_running as (t_id t)" by (rule rows_okD(6) [OF ok t(1,2)])
  have uniq: "u = t" if "u \<in> set ts" "t_id u = t_id t" for u
    using that t(1) rows_okD(1) [OF ok] by (simp add: distinct_map inj_on_def)
  have new: "u \<in> set (update_where P f ts) \<Longrightarrow> \<exists>u0 \<in> set ts. t_id u = t_id u0 \<and> max_attempts u = max_attempts u0
      \<and> (if t_id u0 = t_id t then \<not> open_status (t_status u) else t_status u = t_status u0)" for u
    using mx only hit uniq st unfolding set_update_where by (smt (verit) imageE)
  show ?thesis
    unfolding rows_ok_def mid
  proof (intro conjI ballI allI impI)
    show "distinct (map a_id (as @ [a]))" using rows_okD(2) [OF ok] a(3) by simp
    show "\<exists>u \<in> set (update_where P f ts). t_id u = a_taskId b \<and> t_foreachConfig u = None \<and> t_workflowId u = a_workflowId b"
      if b: "b \<in> set (as @ [a])" for b
    proof -
      obtain u where u: "u \<in> set ts" "t_id u = a_taskId b" "t_foreachConfig u = None" "t_workflowId u = a_workflowId b"
        using b rows_okD(3) [OF ok, of b] t a by auto
      then show ?thesis using keep
        by (intro bexI [of _ "if P u then f u else u"]) (auto simp: keeps_row_def set_update_where)
    qed
    show "map a_attemptNo (attempts_for (as @ [a]) tid) = [1..<Suc (length (attempts_for (as @ [a]) tid))]" for tid
      using rows_okD(4) [OF ok, of tid] a(4) by (simp add: fors)
    show "a_attemptNo b = length (attempts_for (as @ [a]) (a_taskId b))"
      if "b \<in> set (as @ [a])" "a_status b = AttRunning" for b
      using that nr a rows_okD(5) [OF ok, of b] by (auto simp: fors no_running_def)
    show "no_running (as @ [a]) (t_id u)" if "u \<in> set (update_where P f ts)" "open_status (t_status u)" for u
      using new [OF that(1)] that(2) rows_okD(6) [OF ok] a(1) by (auto simp: no_running_def split: if_splits)
    show "length (attempts_for (as @ [a]) (t_id u)) \<le> max_attempts u + rec (t_id u)"
      if "u \<in> set (update_where P f ts)" for u
      using new [OF that] rows_okD(7,8) [OF ok] t uniq by (fastforce simp: fors split: if_splits)
    show "length (attempts_for (as @ [a]) (t_id u)) < max_attempts u + rec (t_id u)"
      if "u \<in> set (update_where P f ts)" "open_status (t_status u)" for u
      using new [OF that(1)] that(2) rows_okD(8) [OF ok] by (auto simp: fors split: if_splits)
  qed (use rows_okD(1) [OF ok] in simp)
qed

text \<open>A new idle task without attempts, as the foreach pass inserts it.\<close>

lemma rows_ok_new_task:
  assumes ok: "rows_ok rec ts as" and new: "t_id t \<notin> t_id ` set ts"
  shows "rows_ok rec (ts @ [t]) as"
proof -
  have none: "a_taskId a \<noteq> t_id t" if "a \<in> set as" for a
    using rows_okD(3) [OF ok that] new by (metis imageI)
  then have "attempts_for as (t_id t) = []" by (auto simp: attempts_for_def filter_empty_conv)
  moreover have "0 < max_attempts t" by (simp add: max_attempts_def)
  ultimately show ?thesis
    using ok new none unfolding rows_ok_def by (auto simp: no_running_def)
qed

lemma rows_ok_more_recoveries: "rows_ok rec ts as \<Longrightarrow> (\<And>i. rec i \<le> rec' i) \<Longrightarrow> rows_ok rec' ts as"
  unfolding rows_ok_def by (meson add_le_mono le_refl less_le_trans order_trans)

section \<open>The invariant of the database\<close>

definition recoveries :: "db \<Rightarrow> ident \<Rightarrow> nat" where
  "recoveries s tid = length (filter (\<lambda>e. ev_kind e = ''recovered'' \<and> ev_taskId e = Some tid) (db_events s))"

text \<open>The values of \<^verbatim>\<open>randomUUID()\<close> still to come occur in no attempt id and in no lease token.\<close>

definition supply_ok :: "(nat \<Rightarrow> string) \<Rightarrow> db \<Rightarrow> bool" where
  "supply_ok U s \<longleftrightarrow> inj U \<and>
     (\<forall>k \<ge> db_uuids s. (\<forall>a \<in> set (db_attempts s). a_id a \<noteq> ''watt_'' @ U k) \<and> (\<forall>l \<in> set (db_leases s). l_token l \<noteq> U k))"

definition db_inv :: "(nat \<Rightarrow> string) \<Rightarrow> db \<Rightarrow> bool" where
  "db_inv U s \<longleftrightarrow>
     rows_ok (recoveries s) (db_tasks s) (db_attempts s) \<and> distinct (map l_taskId (db_leases s)) \<and> supply_ok U s
     \<and> distinct (map w_id (db_workflows s))"

text \<open>
  What every step keeps: attempts stay with their identifying columns, and a task row stays with
  its fixed columns, changes its status only together with its version, and stays terminal once it
  is terminal, unless it is a foreach parent.
\<close>

definition same_attempt :: "attempt_row \<Rightarrow> attempt_row \<Rightarrow> bool" where
  "same_attempt a b \<longleftrightarrow> a_id b = a_id a \<and> a_taskId b = a_taskId a \<and> a_workflowId b = a_workflowId a
     \<and> a_attemptNo b = a_attemptNo a \<and> a_idempotencyKey b = a_idempotencyKey a"

definition row_evolves :: "task_row \<Rightarrow> task_row \<Rightarrow> bool" where
  "row_evolves r r' \<longleftrightarrow>
     t_id r' = t_id r \<and> t_foreachConfig r' = t_foreachConfig r \<and> t_workflowId r' = t_workflowId r
     \<and> t_maxAttempts r' = t_maxAttempts r \<and> t_type r' = t_type r
     \<and> (t_lockVersion r < t_lockVersion r' \<or> t_lockVersion r = t_lockVersion r' \<and> t_status r' = t_status r)
     \<and> (isTerminalTaskStatus (t_status r) \<and> t_foreachConfig r = None \<longrightarrow> t_status r' = t_status r)"

text \<open>Workflow rows stay, and their status follows the transition matrix.\<close>

definition wf_path :: "workflow_status \<Rightarrow> workflow_status \<Rightarrow> bool" where
  "wf_path = (\<lambda>a b. canTransition KWorkflow (workflow_status_text a) (workflow_status_text b))\<^sup>*\<^sup>*"

definition wf_follow :: "workflow_row list \<Rightarrow> workflow_row list \<Rightarrow> bool" where
  "wf_follow ws ws' \<longleftrightarrow> list_all2 (\<lambda>w w'. w_id w' = w_id w \<and> wf_path (w_status w) (w_status w')) ws ws'"

lemma wf_follow_refl [simp]: "wf_follow ws ws"
  by (simp add: wf_follow_def wf_path_def list.rel_refl)

lemma wf_follow_trans: "wf_follow a b \<Longrightarrow> wf_follow b c \<Longrightarrow> wf_follow a c"
  unfolding wf_follow_def wf_path_def by (rule list_all2_trans) (auto intro: rtranclp_trans)

lemma wf_follow_ids: "wf_follow ws ws' \<Longrightarrow> map w_id ws' = map w_id ws"
  unfolding wf_follow_def by (induction rule: list_all2_induct) simp_all

definition grows :: "db \<Rightarrow> db \<Rightarrow> bool" where
  "grows s s' \<longleftrightarrow> db_uuids s \<le> db_uuids s'
     \<and> (\<forall>a \<in> set (db_attempts s). \<exists>b \<in> set (db_attempts s'). same_attempt a b)
     \<and> (\<forall>r \<in> set (db_tasks s). \<exists>r' \<in> set (db_tasks s'). row_evolves r r')
     \<and> wf_follow (db_workflows s) (db_workflows s')"

lemma same_attempt_refl [simp]: "same_attempt a a"
  by (simp add: same_attempt_def)

lemma row_evolves_refl [simp]: "row_evolves r r"
  by (simp add: row_evolves_def)

lemma row_evolves_trans: "row_evolves a b \<Longrightarrow> row_evolves b c \<Longrightarrow> row_evolves a c"
  unfolding row_evolves_def by auto

lemma grows_refl: "grows s s"
  unfolding grows_def by (auto intro: row_evolves_refl same_attempt_refl)

lemma grows_trans: "grows a b \<Longrightarrow> grows b c \<Longrightarrow> grows a c"
  unfolding grows_def same_attempt_def by (smt (verit) order_trans row_evolves_trans wf_follow_trans)

definition ok_step :: "(nat \<Rightarrow> string) \<Rightarrow> db \<Rightarrow> db \<Rightarrow> bool" where
  "ok_step U s s' \<longleftrightarrow> (db_inv U s \<longrightarrow> db_inv U s' \<and> grows s s')"

lemma ok_refl [intro]: "ok_step U s s"
  by (simp add: ok_step_def grows_refl)

lemma ok_trans: "ok_step U a b \<Longrightarrow> ok_step U b c \<Longrightarrow> ok_step U a c"
  unfolding ok_step_def by (blast intro: grows_trans)

lemma ok_fold:
  "(\<And>x s. x \<in> set xs \<Longrightarrow> ok_step U s (f x s)) \<Longrightarrow> ok_step U s (fold f xs s)"
proof (induction xs arbitrary: s)
  case (Cons x xs)
  then have "ok_step U s (f x s)" by simp
  moreover have "ok_step U (f x s) (fold f xs (f x s))" using Cons by simp
  ultimately show ?case by (auto intro: ok_trans)
qed auto

section \<open>Elementary steps\<close>

lemma update_where_member: "r \<in> set rs \<Longrightarrow> (if P r then f r else r) \<in> set (update_where P f rs)"
  by (simp add: set_update_where)

definition core :: "db \<Rightarrow> task_row list \<times> attempt_row list \<times> lease_row list \<times> workflow_row list" where
  "core s = (db_tasks s, db_attempts s, db_leases s, db_workflows s)"

lemma ok_frame:
  assumes "core s' = core s" and "\<And>i. recoveries s i \<le> recoveries s' i" and "db_uuids s \<le> db_uuids s'"
  shows "ok_step U s s'"
  unfolding ok_step_def
proof
  assume i: "db_inv U s"
  have "db_inv U s'"
    using assms i rows_ok_more_recoveries [of "recoveries s" _ _ "recoveries s'"]
    unfolding db_inv_def supply_ok_def core_def by simp
  moreover have "grows s s'"
    using assms unfolding grows_def core_def by (auto intro: row_evolves_refl same_attempt_refl)
  ultimately show "db_inv U s' \<and> grows s s'" by simp
qed

lemma recoveries_insert_event:
  "recoveries (insert_event E wid ti tk k p a so i s) tid =
     recoveries s tid + (if k = ''recovered'' \<and> ti = Some tid then 1 else 0)"
  by (simp add: recoveries_def insert_event_def new_id_def randomUUID_def)

lemma recoveries_recordEvent:
  "recoveries (recordEvent E wid ti tk k p pr i s) tid =
     recoveries s tid + (if k = ''recovered'' \<and> ti = Some tid then 1 else 0)"
  by (simp add: recordEvent_def recoveries_insert_event)

lemma ok_insert_event: "ok_step U s (insert_event E wid ti tk k p a so i s)"
  by (rule ok_frame) (simp_all add: core_def recoveries_insert_event)

lemma ok_recordEvent: "ok_step U s (recordEvent E wid ti tk k p pr i s)"
  by (rule ok_frame) (simp_all add: core_def recoveries_recordEvent)

lemma persist_gate_frame [simp]:
  "db_tasks (persist_gate E wid tid g s) = db_tasks s"
  "db_attempts (persist_gate E wid tid g s) = db_attempts s"
  "db_leases (persist_gate E wid tid g s) = db_leases s"
  "db_events (persist_gate E wid tid g s) = db_events s"
  "db_workflows (persist_gate E wid tid g s) = db_workflows s"
  "db_uuids (persist_gate E wid tid g s) = Suc (db_uuids s)"
  by (simp_all add: persist_gate_def new_id_def randomUUID_def Let_def)

lemma persistGates_frame [simp]:
  "db_tasks (persistGates E wid tid gs s) = db_tasks s"
  "db_attempts (persistGates E wid tid gs s) = db_attempts s"
  "db_leases (persistGates E wid tid gs s) = db_leases s"
  "db_events (persistGates E wid tid gs s) = db_events s"
  "db_workflows (persistGates E wid tid gs s) = db_workflows s"
  "db_uuids (persistGates E wid tid gs s) = db_uuids s + length gs"
  unfolding persistGates_def by (induction gs arbitrary: s) simp_all

lemma ok_persistGates: "ok_step U s (persistGates E wid tid gs s)"
  by (rule ok_frame) (simp_all add: core_def recoveries_def)

lemma ok_leases:
  assumes "distinct (map l_taskId (db_leases s)) \<Longrightarrow> distinct (map l_taskId ls)"
    and "l_token ` set ls \<subseteq> l_token ` set (db_leases s)"
  shows "ok_step U s (s\<lparr>db_leases := ls\<rparr>)"
  unfolding ok_step_def
proof
  assume i: "db_inv U s"
  have "distinct (map l_taskId ls)" using i assms(1) unfolding db_inv_def by blast
  moreover have "supply_ok U (s\<lparr>db_leases := ls\<rparr>)"
    using i assms(2) unfolding db_inv_def supply_ok_def by fastforce
  moreover have "recoveries (s\<lparr>db_leases := ls\<rparr>) = recoveries s" by (simp add: recoveries_def fun_eq_iff)
  ultimately show "db_inv U (s\<lparr>db_leases := ls\<rparr>) \<and> grows s (s\<lparr>db_leases := ls\<rparr>)"
    using i grows_refl [of s] unfolding db_inv_def grows_def by simp
qed

lemma ok_delete_leases: "ok_step U s (s\<lparr>db_leases := delete_where P (db_leases s)\<rparr>)"
  by (rule ok_leases) (auto simp: delete_where_def distinct_map_filter)

lemma ok_heartbeat: "ok_step U s (heartbeatDispatchLease E tid tok s)"
  unfolding heartbeatDispatchLease_def
  by (rule ok_leases) (auto simp: map_update_where set_update_where)

text \<open>A task update that moves the version of every row it touches.\<close>

definition bumps :: "(task_row \<Rightarrow> bool) \<Rightarrow> (task_row \<Rightarrow> task_row) \<Rightarrow> bool" where
  "bumps P f \<longleftrightarrow> keeps_row f \<and> (\<forall>t. t_type (f t) = t_type t) \<and> (\<forall>t. P t \<longrightarrow> t_lockVersion t < t_lockVersion (f t))"

text \<open>An update that leaves the status of terminal rows alone, foreach parents apart.\<close>

definition lawful :: "db \<Rightarrow> (task_row \<Rightarrow> bool) \<Rightarrow> (task_row \<Rightarrow> task_row) \<Rightarrow> bool" where
  "lawful s P f \<longleftrightarrow> (\<forall>t \<in> set (db_tasks s). P t \<and> isTerminalTaskStatus (t_status t) \<and> t_foreachConfig t = None
      \<longrightarrow> t_status (f t) = t_status t)"

lemma grows_tasks: "bumps P f \<Longrightarrow> lawful s P f \<Longrightarrow> grows s (s\<lparr>db_tasks := update_where P f (db_tasks s)\<rparr>)"
proof -
  assume b: "bumps P f" "lawful s P f"
  have "\<exists>r' \<in> set (update_where P f (db_tasks s)). row_evolves r r'" if "r \<in> set (db_tasks s)" for r
    by (rule bexI [OF _ update_where_member [OF that]])
      (use b that in \<open>auto simp: bumps_def lawful_def keeps_row_def row_evolves_def\<close>)
  then show ?thesis unfolding grows_def by (auto intro: same_attempt_refl)
qed

lemma ok_tasks:
  assumes b: "bumps P f" and l: "lawful s P f"
    and c: "\<And>t. P t \<Longrightarrow> open_status (t_status (f t)) \<Longrightarrow> open_status (t_status t)"
  shows "ok_step U s (s\<lparr>db_tasks := update_where P f (db_tasks s)\<rparr>)"
  unfolding ok_step_def
proof
  assume i: "db_inv U s"
  have "rows_ok (recoveries s) (update_where P f (db_tasks s)) (db_attempts s)"
    by (rule rows_ok_tasks)
      (use i b c rows_okD(6,8) [of "recoveries s" "db_tasks s" "db_attempts s"] in \<open>auto simp: db_inv_def bumps_def\<close>)
  moreover have "recoveries (s\<lparr>db_tasks := x\<rparr>) = recoveries s" for x by (simp add: recoveries_def fun_eq_iff)
  ultimately show "db_inv U (s\<lparr>db_tasks := update_where P f (db_tasks s)\<rparr>)
      \<and> grows s (s\<lparr>db_tasks := update_where P f (db_tasks s)\<rparr>)"
    using i grows_tasks [OF b l] unfolding db_inv_def supply_ok_def by simp
qed

lemma ok_attempts:
  assumes k: "keeps_attempt f" and r: "\<And>a. P a \<Longrightarrow> a_status (f a) = AttRunning \<Longrightarrow> a_status a = AttRunning"
  shows "ok_step U s (s\<lparr>db_attempts := update_where P f (db_attempts s)\<rparr>)"
  unfolding ok_step_def
proof
  assume i: "db_inv U s"
  have "rows_ok (recoveries s) (db_tasks s) (update_where P f (db_attempts s))"
    by (rule rows_ok_attempts) (use i k r in \<open>auto simp: db_inv_def\<close>)
  moreover have "recoveries (s\<lparr>db_attempts := x\<rparr>) = recoveries s" for x by (simp add: recoveries_def fun_eq_iff)
  moreover have "\<exists>b \<in> set (update_where P f (db_attempts s)). same_attempt a b" if "a \<in> set (db_attempts s)" for a
    by (rule bexI [OF _ update_where_member [OF that]])
      (use k in \<open>auto simp: keeps_attempt_def same_attempt_def\<close>)
  then have "grows s (s\<lparr>db_attempts := update_where P f (db_attempts s)\<rparr>)"
    unfolding grows_def by (auto intro: row_evolves_refl)
  moreover have "supply_ok U (s\<lparr>db_attempts := update_where P f (db_attempts s)\<rparr>)"
  proof -
    have "map a_id (update_where P f (db_attempts s)) = map a_id (db_attempts s)"
      by (rule map_update_where) (use k in \<open>simp add: keeps_attempt_def\<close>)
    then have ids: "a_id ` set (update_where P f (db_attempts s)) = a_id ` set (db_attempts s)" by (metis set_map)
    have "\<exists>b \<in> set (db_attempts s). a_id b = a_id a" if "a \<in> set (update_where P f (db_attempts s))" for a
      using that ids by (metis imageE imageI)
    then show ?thesis using i unfolding db_inv_def supply_ok_def by (simp, metis)
  qed
  ultimately show "db_inv U (s\<lparr>db_attempts := update_where P f (db_attempts s)\<rparr>)
      \<and> grows s (s\<lparr>db_attempts := update_where P f (db_attempts s)\<rparr>)"
    using i unfolding db_inv_def by simp
qed

text \<open>
  Reopening: after the running attempts of a task are closed, the task may become open again,
  provided its budget has room.
\<close>

lemma ok_reopen:
  assumes i: "db_inv U s" and b: "bumps P f" and l: "lawful s P f" and only: "\<And>t. P t \<Longrightarrow> t_id t = tid"
    and nr: "no_running (db_attempts s) tid"
    and bud: "\<And>t. t \<in> set (db_tasks s) \<Longrightarrow> P t \<Longrightarrow>
      length (attempts_for (db_attempts s) tid) < max_attempts t + recoveries s tid"
  shows "db_inv U (s\<lparr>db_tasks := update_where P f (db_tasks s)\<rparr>)
    \<and> grows s (s\<lparr>db_tasks := update_where P f (db_tasks s)\<rparr>)"
proof -
  have "rows_ok (recoveries s) (update_where P f (db_tasks s)) (db_attempts s)"
    by (rule rows_ok_tasks) (use i b only nr bud in \<open>auto simp: db_inv_def bumps_def\<close>)
  moreover have "recoveries (s\<lparr>db_tasks := x\<rparr>) = recoveries s" for x by (simp add: recoveries_def fun_eq_iff)
  ultimately show ?thesis using i grows_tasks [OF b l] unfolding db_inv_def supply_ok_def by simp
qed

section \<open>The claim transaction\<close>

text \<open>A row the engine holds in memory: a state of the row at some earlier time.\<close>

definition snap_ok :: "db \<Rightarrow> task_row \<Rightarrow> bool" where
  "snap_ok s t \<longleftrightarrow> (\<exists>r \<in> set (db_tasks s). row_evolves t r)"

lemma snap_grows: "snap_ok s t \<Longrightarrow> grows s s' \<Longrightarrow> snap_ok s' t"
  unfolding snap_ok_def grows_def by (meson row_evolves_trans)

lemma snap_current: "t \<in> set (db_tasks s) \<Longrightarrow> snap_ok s t"
  unfolding snap_ok_def by (auto intro: row_evolves_refl)

lemma snap_same_version:
  assumes i: "db_inv U s" and t: "snap_ok s t" and r: "r \<in> set (db_tasks s)" "t_id r = t_id t"
  shows "row_evolves t r"
proof -
  from t obtain r' where r': "r' \<in> set (db_tasks s)" "row_evolves t r'" by (auto simp: snap_ok_def)
  have "distinct (map t_id (db_tasks s))" using i by (simp add: db_inv_def rows_ok_def)
  with r r' have "r' = r" by (auto simp: row_evolves_def distinct_map inj_on_def)
  with r' show ?thesis by simp
qed

text \<open>A compare-and-set against the version of a row read earlier meets the status read earlier.\<close>

lemma snap_status:
  assumes i: "db_inv U s" and t: "snap_ok s t" and r: "r \<in> set (db_tasks s)" "t_id r = t_id t" "t_lockVersion r = t_lockVersion t"
  shows "t_status r = t_status t"
  using snap_same_version [OF i t r(1,2)] r(3) by (simp add: row_evolves_def)

lemma snap_lawful:
  assumes "db_inv U s" and "snap_ok s t" and "\<not> isTerminalTaskStatus (t_status t)"
  shows "lawful s (\<lambda>x. t_id x = t_id t \<and> t_lockVersion x = t_lockVersion t) f"
  using snap_status [OF assms(1,2)] assms(3) by (auto simp: lawful_def)

definition claim_ok :: "db \<Rightarrow> claimed_task \<Rightarrow> bool" where
  "claim_ok s c \<longleftrightarrow> snap_ok s (c_task c) \<and>
     (\<exists>a \<in> set (db_attempts s). a_id a = c_attemptId c \<and> a_taskId a = t_id (c_task c)
        \<and> a_attemptNo a = c_attemptNo c \<and> a_idempotencyKey a = c_idempotencyKey c)"

lemma claim_grows: "claim_ok s c \<Longrightarrow> grows s s' \<Longrightarrow> claim_ok s' c"
proof -
  assume c: "claim_ok s c" and g: "grows s s'"
  then obtain a where a: "a \<in> set (db_attempts s)" "a_id a = c_attemptId c" "a_taskId a = t_id (c_task c)"
    "a_attemptNo a = c_attemptNo c" "a_idempotencyKey a = c_idempotencyKey c" by (auto simp: claim_ok_def)
  with g obtain b where "b \<in> set (db_attempts s')" "same_attempt a b" unfolding grows_def by blast
  with a have "\<exists>a \<in> set (db_attempts s'). a_id a = c_attemptId c \<and> a_taskId a = t_id (c_task c)
        \<and> a_attemptNo a = c_attemptNo c \<and> a_idempotencyKey a = c_idempotencyKey c"
    by (intro bexI [of _ b]) (auto simp: same_attempt_def)
  with c g snap_grows show ?thesis by (auto simp: claim_ok_def)
qed

text \<open>The token of a claim was drawn between two states.\<close>

definition drawn :: "(nat \<Rightarrow> string) \<Rightarrow> db \<Rightarrow> db \<Rightarrow> claimed_task \<Rightarrow> bool" where
  "drawn U s s' c \<longleftrightarrow> (\<exists>k. db_uuids s \<le> k \<and> k < db_uuids s' \<and> c_leaseToken c = U k)"

lemma bumps_set_status: "bumps (\<lambda>t. t_id t = tid \<and> t_lockVersion t = v) (set_task_status E st v)"
  by (simp add: bumps_def keeps_row_def set_task_status_def)

lemma recover_task_cases:
  assumes "recover_task E wid now prov task st s = (t', st', s')"
  shows "s' = s \<and> t' = task \<or> t_status task = TRunning \<and>
    (\<exists>row \<in> set (db_tasks s). t_id row = t_id task \<and> t_lockVersion row = t_lockVersion task) \<and>
    t' = task\<lparr>t_status := TScheduled, t_lockVersion := t_lockVersion task + 1\<rparr> \<and>
    s' = recordEvent E wid (Some (t_id task)) (Some (t_key task)) ''recovered''
              (JObj [(''reason'', JStr ''crash_mid_dispatch'')]) prov None
          (s\<lparr>db_tasks := update_where (\<lambda>t. t_id t = t_id task \<and> t_lockVersion t = t_lockVersion task)
                (set_task_status E TScheduled (t_lockVersion task)) (db_tasks s),
             db_attempts := update_where (\<lambda>a. a_taskId a = t_id task \<and> a_status a = AttRunning)
                (\<lambda>a. a\<lparr>a_status := AttFailed, a_error := Some (JObj [(''recovered'', JStr ''crash_mid_dispatch'')]),
                   a_completedAt := Some (e_wall E), a_updatedAt := e_wall E\<rparr>) (db_attempts s),
             db_leases := delete_where (\<lambda>l. l_taskId l = t_id task) (db_leases s)\<rparr>)"
proof (cases "\<exists>row \<in> set (db_tasks s). t_id row = t_id task \<and> t_lockVersion row = t_lockVersion task")
  case True
  with assms show ?thesis by (auto simp: recover_task_def Let_def split_beta split: if_splits)
next
  case False
  then have "update_where (\<lambda>t. t_id t = t_id task \<and> t_lockVersion t = t_lockVersion task) f (db_tasks s) = db_tasks s" for f
    by (intro update_where_none) auto
  with False assms show ?thesis by (auto simp: recover_task_def Let_def split_beta split: if_splits)
qed

lemma recover_task_ok:
  assumes i: "db_inv U s" and snap: "snap_ok s task"
    and r: "recover_task E wid now prov task st s = (t', st', s')"
  shows "db_inv U s' \<and> grows s s' \<and> snap_ok s' t' \<and> t_id t' = t_id task \<and> t_workflowId t' = t_workflowId task"
proof (cases "s' = s \<and> t' = task")
  case True
  with i snap show ?thesis by (simp add: grows_refl)
next
  case False
  let ?tid = "t_id task" and ?v = "t_lockVersion task"
  let ?P = "\<lambda>t. t_id t = ?tid \<and> t_lockVersion t = ?v"
  let ?f = "set_task_status E TScheduled ?v"
  define fa :: "attempt_row \<Rightarrow> attempt_row" where "fa = (\<lambda>a. a\<lparr>a_status := AttFailed, a_error := Some (JObj [(''recovered'', JStr ''crash_mid_dispatch'')]),
                   a_completedAt := Some (e_wall E), a_updatedAt := e_wall E\<rparr>)"
  define X where "X = s\<lparr>db_attempts := update_where (\<lambda>a. a_taskId a = ?tid \<and> a_status a = AttRunning) fa (db_attempts s)\<rparr>"
  define Y where "Y = X\<lparr>db_leases := delete_where (\<lambda>l. l_taskId l = ?tid) (db_leases X)\<rparr>"
  define Z where "Z = recordEvent E wid (Some ?tid) (Some (t_key task)) ''recovered''
              (JObj [(''reason'', JStr ''crash_mid_dispatch'')]) prov None Y"
  define W where "W = Z\<lparr>db_tasks := update_where ?P ?f (db_tasks Z)\<rparr>"
  have C: "A \<or> B \<Longrightarrow> \<not> A \<Longrightarrow> B" for A B by blast
  from C [OF recover_task_cases [OF r] False, folded fa_def] obtain row where running: "t_status task = TRunning" and row: "row \<in> set (db_tasks s)" "?P row"
    and t': "t' = task\<lparr>t_status := TScheduled, t_lockVersion := ?v + 1\<rparr>"
    and V: "s' = recordEvent E wid (Some ?tid) (Some (t_key task)) ''recovered''
              (JObj [(''reason'', JStr ''crash_mid_dispatch'')]) prov None
              (s\<lparr>db_tasks := update_where ?P ?f (db_tasks s),
                 db_attempts := update_where (\<lambda>a. a_taskId a = ?tid \<and> a_status a = AttRunning) fa (db_attempts s),
                 db_leases := delete_where (\<lambda>l. l_taskId l = ?tid) (db_leases s)\<rparr>)"
    by (elim conjE bexE) (rule that, (assumption | rule conjI)+)
  have s': "s' = W"
    unfolding V W_def Z_def Y_def X_def
    by (rule db.equality) (simp_all add: recordEvent_def insert_event_def new_id_def randomUUID_def)
  have tsk: "db_tasks Z = db_tasks s" and att: "db_attempts Z = db_attempts X"
    by (simp_all add: Z_def Y_def X_def)
  have kf: "keeps_attempt fa" by (simp add: keeps_attempt_def fa_def)
  have "ok_step U s X" unfolding X_def by (rule ok_attempts [OF kf]) (simp add: fa_def)
  moreover have "ok_step U X Y" unfolding Y_def by (rule ok_delete_leases)
  moreover have "ok_step U Y Z" unfolding Z_def by (rule ok_recordEvent)
  ultimately have "ok_step U s Z" by (blast intro: ok_trans)
  with i have Z: "db_inv U Z" "grows s Z" by (simp_all add: ok_step_def)
  have nr: "no_running (db_attempts Z) ?tid"
    unfolding att by (auto simp: no_running_def X_def set_update_where fa_def)
  have len: "length (attempts_for (db_attempts Z) ?tid) = length (attempts_for (db_attempts s) ?tid)"
    unfolding att by (simp add: X_def attempts_for_update [OF kf])
  have rec: "recoveries Z ?tid = recoveries s ?tid + 1"
    by (simp add: Z_def recoveries_recordEvent) (simp add: recoveries_def Y_def X_def)
  have bud: "length (attempts_for (db_attempts Z) ?tid) < max_attempts t + recoveries Z ?tid"
    if "t \<in> set (db_tasks Z)" "?P t" for t
  proof -
    have "length (attempts_for (db_attempts s) (t_id t)) \<le> max_attempts t + recoveries s (t_id t)"
      using i that(1) unfolding db_inv_def tsk by (blast dest: rows_okD(7))
    with that(2) show ?thesis unfolding len rec by simp
  qed
  have law: "lawful Z ?P ?f"
    by (rule snap_lawful [OF Z(1) snap_grows [OF snap Z(2)]]) (simp add: running isTerminalTaskStatus_def)
  have "db_inv U W \<and> grows Z W"
    unfolding W_def
    by (rule ok_reopen [OF Z(1) bumps_set_status law _ nr bud], erule conjunct1, assumption, assumption)
  then have W: "db_inv U W" "grows Z W" by simp_all
  have "row_evolves task row" by (rule snap_same_version [OF i snap row(1)]) (use row in simp)
  then have "row_evolves t' (?f row)" using row by (simp add: t' row_evolves_def set_task_status_def)
  moreover have "?f row \<in> set (db_tasks W)"
    using update_where_member [OF row(1), of ?P ?f] row(2) by (simp add: W_def tsk)
  ultimately have "snap_ok s' t'" unfolding snap_ok_def s' by blast
  with W grows_trans [OF Z(2)] s' t' show ?thesis by simp
qed

lemma recover_loop_ok:
  "db_inv U s \<Longrightarrow> (\<forall>t \<in> set ts. snap_ok s t \<and> t_workflowId t = wid) \<Longrightarrow>
   recover_loop E wid now prov ts st s = (ts', st', s') \<Longrightarrow>
     db_inv U s' \<and> grows s s' \<and> (\<forall>t \<in> set ts'. snap_ok s' t \<and> t_workflowId t = wid)"
proof (induction ts arbitrary: st s ts' st' s')
  case Nil
  then show ?case by (simp add: grows_refl)
next
  case (Cons t ts)
  from Cons.prems(3) obtain t1 st1 s1 ts1 where
    a: "recover_task E wid now prov t st s = (t1, st1, s1)"
    and b: "recover_loop E wid now prov ts st1 s1 = (ts1, st', s')" and ts': "ts' = t1 # ts1"
    by (auto split: prod.splits)
  have A: "db_inv U s1" "grows s s1" "snap_ok s1 t1" "t_workflowId t1 = wid"
    using recover_task_ok [OF Cons.prems(1) _ a] Cons.prems(2) by auto
  have "\<forall>t \<in> set ts. snap_ok s1 t \<and> t_workflowId t = wid"
    using Cons.prems(2) snap_grows A(2) by auto
  from Cons.IH [OF A(1) this b] A show ?case using ts' by (auto intro: grows_trans snap_grows)
qed

lemma ok_acquire:
  assumes "e_uuid E = U"
  shows "ok_step U s (snd (acquireDispatchLease E wid tid aid s))"
    and "fst (acquireDispatchLease E wid tid aid s) = U (db_uuids s)"
    and "db_uuids (snd (acquireDispatchLease E wid tid aid s)) = db_uuids s + 2"
    and "db_attempts (snd (acquireDispatchLease E wid tid aid s)) = db_attempts s"
    and "db_tasks (snd (acquireDispatchLease E wid tid aid s)) = db_tasks s"
proof -
  let ?s = "snd (acquireDispatchLease E wid tid aid s)"
  have eq: "db_attempts ?s = db_attempts s" "db_tasks ?s = db_tasks s" "db_uuids ?s = db_uuids s + 2"
    "db_events ?s = db_events s" "db_workflows ?s = db_workflows s"
    by (simp_all add: acquireDispatchLease_def Let_def split_beta)
  show "ok_step U s ?s"
    unfolding ok_step_def
  proof
    assume i: "db_inv U s"
    then have inj: "inj U" by (simp add: db_inv_def supply_ok_def)
    have d: "distinct (map l_taskId (db_leases ?s))"
      using i unfolding db_inv_def
      by (auto simp: acquireDispatchLease_def Let_def split_beta map_update_where list_ex_iff)
    have "l_token l = U (db_uuids s) \<or> (\<exists>l' \<in> set (db_leases s). l_token l = l_token l')" if "l \<in> set (db_leases ?s)" for l
      using that assms by (auto simp: acquireDispatchLease_def Let_def split_beta set_update_where split: if_splits)
    then have "supply_ok U ?s"
      using i inj eq unfolding db_inv_def supply_ok_def by (auto dest: injD) (metis Suc_leD add_2_eq_Suc' injD not_less_eq_eq)+
    moreover have "recoveries ?s = recoveries s" by (simp add: recoveries_def fun_eq_iff eq)
    ultimately show "db_inv U ?s \<and> grows s ?s"
      using i d eq grows_refl [of s] unfolding db_inv_def grows_def by simp
  qed
  show "fst (acquireDispatchLease E wid tid aid s) = U (db_uuids s)"
    using assms by (simp add: acquireDispatchLease_def Let_def split_beta)
qed (simp_all add: acquireDispatchLease_def Let_def split_beta)

lemma ok_takeover:
  assumes "e_uuid E = U"
  shows "ok_step U s (snd (takeOverDispatchLease E tid tok s))"
    and "fst (takeOverDispatchLease E tid tok s) = Some x \<Longrightarrow> x = U (db_uuids s)"
    and "db_uuids (snd (takeOverDispatchLease E tid tok s)) = db_uuids s + 1"
    and "db_attempts (snd (takeOverDispatchLease E tid tok s)) = db_attempts s"
    and "db_tasks (snd (takeOverDispatchLease E tid tok s)) = db_tasks s"
proof -
  let ?s = "snd (takeOverDispatchLease E tid tok s)"
  have eq: "db_attempts ?s = db_attempts s" "db_tasks ?s = db_tasks s" "db_uuids ?s = db_uuids s + 1"
    "db_events ?s = db_events s" "db_workflows ?s = db_workflows s"
    by (simp_all add: takeOverDispatchLease_def Let_def split_beta)
  show "ok_step U s ?s"
    unfolding ok_step_def
  proof
    assume i: "db_inv U s"
    then have inj: "inj U" by (simp add: db_inv_def supply_ok_def)
    have d: "distinct (map l_taskId (db_leases ?s))"
      using i unfolding db_inv_def
      by (auto simp: takeOverDispatchLease_def Let_def split_beta map_update_where)
    have "l_token l = U (db_uuids s) \<or> (\<exists>l' \<in> set (db_leases s). l_token l = l_token l')" if "l \<in> set (db_leases ?s)" for l
      using that assms by (auto simp: takeOverDispatchLease_def Let_def split_beta set_update_where split: if_splits)
    then have "supply_ok U ?s"
      using i inj eq unfolding db_inv_def supply_ok_def by (auto dest: injD) (metis Suc_leD injD not_less_eq_eq)+
    moreover have "recoveries ?s = recoveries s" by (simp add: recoveries_def fun_eq_iff eq)
    ultimately show "db_inv U ?s \<and> grows s ?s"
      using i d eq grows_refl [of s] unfolding db_inv_def grows_def by simp
  qed
  show "x = U (db_uuids s)" if "fst (takeOverDispatchLease E tid tok s) = Some x"
    using assms that by (simp add: takeOverDispatchLease_def Let_def split_beta split: if_splits)
qed (simp_all add: takeOverDispatchLease_def Let_def split_beta)

text \<open>What one round of a claiming loop promises.\<close>

definition claim_step_ok :: "(nat \<Rightarrow> string) \<Rightarrow> db \<Rightarrow> claimed_task option \<Rightarrow> db \<Rightarrow> bool" where
  "claim_step_ok U s c s' \<longleftrightarrow> db_inv U s' \<and> grows s s' \<and>
     (case c of None \<Rightarrow> True | Some x \<Rightarrow> claim_ok s' x \<and> drawn U s s' x)"

lemma drawn_mono: "drawn U s s' c \<Longrightarrow> db_uuids s0 \<le> db_uuids s \<Longrightarrow> db_uuids s' \<le> db_uuids s1 \<Longrightarrow> drawn U s0 s1 c"
  unfolding drawn_def by (meson le_trans less_le_trans)

lemma drawn_distinct:
  "inj U \<Longrightarrow> drawn U a b x \<Longrightarrow> drawn U b c y \<Longrightarrow> c_leaseToken x \<noteq> c_leaseToken y"
  unfolding drawn_def by (metis injD leD le_less_trans less_le_trans)

lemma capped_loop_ok:
  assumes body: "\<And>t s c s'. t \<in> set ts \<Longrightarrow> db_inv U s \<Longrightarrow> snap_ok s t \<Longrightarrow> body t s = (c, s') \<Longrightarrow> claim_step_ok U s c s'"
  shows "db_inv U s \<Longrightarrow> \<forall>t \<in> set ts. snap_ok s t \<Longrightarrow> capped_loop cap body ts cs s = (cs', s') \<Longrightarrow>
    db_inv U s' \<and> grows s s' \<and>
    (\<exists>new. cs' = cs @ new \<and> (\<forall>c \<in> set new. claim_ok s' c \<and> drawn U s s' c) \<and> distinct (map c_leaseToken new))"
  using body
proof (induction ts arbitrary: cs s)
  case Nil
  then show ?case by (simp add: grows_refl)
next
  case (Cons t ts)
  show ?case
  proof (cases "cap \<le> length cs")
    case True
    with Cons.prems show ?thesis by (simp add: grows_refl)
  next
    case False
    obtain c s1 where b: "body t s = (c, s1)" by fastforce
    have st: "claim_step_ok U s c s1" using Cons.prems(4) [OF _ Cons.prems(1) _ b] Cons.prems(2) by simp
    then have i1: "db_inv U s1" and g1: "grows s s1" by (simp_all add: claim_step_ok_def)
    let ?cs = "case c of None \<Rightarrow> cs | Some x \<Rightarrow> cs @ [x]"
    have r: "capped_loop cap body ts ?cs s1 = (cs', s')" using Cons.prems(3) False b by simp
    have sn: "\<forall>t \<in> set ts. snap_ok s1 t" using Cons.prems(2) snap_grows [OF _ g1] by simp
    have body': "claim_step_ok U s c s'" if "t' \<in> set ts" "db_inv U s" "snap_ok s t'" "body t' s = (c, s')" for t' s c s'
      by (rule Cons.prems(4) [OF _ that(2-4)]) (use that(1) in simp)
    have IH: "db_inv U s' \<and> grows s1 s' \<and>
      (\<exists>new. cs' = ?cs @ new \<and> (\<forall>c \<in> set new. claim_ok s' c \<and> drawn U s1 s' c) \<and> distinct (map c_leaseToken new))"
      by (rule Cons.IH [OF i1 sn r]) (rule body')
    then obtain new where i': "db_inv U s'" and g': "grows s1 s'"
      and cs': "cs' = ?cs @ new" and n: "\<forall>c \<in> set new. claim_ok s' c \<and> drawn U s1 s' c"
      and d: "distinct (map c_leaseToken new)" by blast
    have u: "db_uuids s \<le> db_uuids s1" "db_uuids s1 \<le> db_uuids s'" using g1 g' by (simp_all add: grows_def)
    have inj: "inj U" using i' by (simp add: db_inv_def supply_ok_def)
    have n': "\<forall>c \<in> set new. claim_ok s' c \<and> drawn U s s' c" using n u drawn_mono by blast
    show ?thesis
    proof (cases c)
      case None
      with i' grows_trans [OF g1 g'] cs' n' d show ?thesis by auto
    next
      case (Some x)
      have x: "claim_ok s' x" "drawn U s s1 x" using st Some claim_grows [OF _ g'] by (auto simp: claim_step_ok_def)
      then have "c_leaseToken x \<notin> c_leaseToken ` set new" using n drawn_distinct [OF inj x(2)] by (metis imageE)
      moreover have "drawn U s s' x" by (rule drawn_mono [OF x(2) le_refl u(2)])
      ultimately show ?thesis using Some i' grows_trans [OF g1 g'] cs' n' d x(1)
        by (intro conjI exI [of _ "x # new"]) auto
    qed
  qed
qed

lemma running_attempt_Some:
  "running_attempt s tid = Some a \<Longrightarrow> a \<in> set (db_attempts s) \<and> a_taskId a = tid \<and> a_status a = AttRunning"
  using top_by_Some [of a_attemptNo _ a] by (fastforce simp: running_attempt_def)

lemma reclaim_task_ok:
  assumes u: "e_uuid E = U" and i: "db_inv U s" and snap: "snap_ok s t"
    and r: "reclaim_task E wid prov t s = (c, s')"
  shows "claim_step_ok U s c s'"
proof (cases "c = None \<and> s' = s")
  case True
  with i show ?thesis by (simp add: claim_step_ok_def grows_refl)
next
  case False
  from False r obtain a where a: "running_attempt s (t_id t) = Some a"
    by (cases "running_attempt s (t_id t)") (simp_all add: reclaim_task_def split: if_splits)
  from False r a obtain l where l: "find_lease s (t_id t) = Some l"
    by (cases "find_lease s (t_id t)") (simp_all add: reclaim_task_def split: if_splits)
  let ?ev = "recordEvent E wid (Some (t_id t)) (Some (t_key t)) ''dispatch_reclaimed''
                 (JObj [(''attemptNo'', JNum (int (a_attemptNo a))), (''idemKey'', JStr (a_idempotencyKey a)),
                        (''expiredHolder'', JStr (l_holderId l))]) prov None"
  from False r a l have x: "(case fst (takeOverDispatchLease E (t_id t) (l_token l) s) of
        None \<Rightarrow> (None, snd (takeOverDispatchLease E (t_id t) (l_token l) s))
      | Some tok \<Rightarrow> (Some \<lparr>c_task = t, c_attemptId = a_id a, c_attemptNo = a_attemptNo a,
             c_idempotencyKey = a_idempotencyKey a, c_leaseToken = tok\<rparr>,
             ?ev (snd (takeOverDispatchLease E (t_id t) (l_token l) s)))) = (c, s')"
    by (simp add: reclaim_task_def Let_def split_beta split: if_splits)
  let ?tk = "takeOverDispatchLease E (t_id t) (l_token l) s"
  have ok: "db_inv U (snd ?tk)" "grows s (snd ?tk)"
    using ok_takeover(1) [OF u] i unfolding ok_step_def by blast+
  show ?thesis
  proof (cases "fst ?tk")
    case None
    with x ok show ?thesis by (auto simp: claim_step_ok_def)
  next
    case (Some tok)
    from running_attempt_Some [OF a] have a': "a \<in> set (db_attempts s)" "a_taskId a = t_id t" by simp_all
    from x Some have c: "c = Some \<lparr>c_task = t, c_attemptId = a_id a, c_attemptNo = a_attemptNo a,
             c_idempotencyKey = a_idempotencyKey a, c_leaseToken = tok\<rparr>"
      and s': "s' = ?ev (snd ?tk)"
      by simp_all
    have S: "db_inv U s'" "grows (snd ?tk) s'"
      using ok_recordEvent ok(1) unfolding s' ok_step_def by blast+
    have g: "grows s s'" by (rule grows_trans [OF ok(2) S(2)])
    have "tok = U (db_uuids s)" by (rule ok_takeover(2) [OF u Some])
    then have "drawn U s s' (the c)"
      unfolding drawn_def c by (intro exI [of _ "db_uuids s"]) (simp add: s' ok_takeover(3) [OF u])
    moreover have "claim_ok s (the c)" using snap a' by (auto simp: claim_ok_def c)
    ultimately show ?thesis using S(1) g claim_grows [OF _ g] by (simp add: claim_step_ok_def c)
  qed
qed

text \<open>The insert of an attempt: the row it appends, and that its id is new.\<close>

lemma insert_attempt_cases:
  assumes u: "e_uuid E = U" and i: "supply_ok U s" and r: "insert_attempt E wid tid s = ((aid, n, key, ins), s')"
  shows "aid = ''watt_'' @ U (db_uuids s) \<and> aid \<notin> a_id ` set (db_attempts s)
    \<and> n = Suc (length (attempts_for (db_attempts s) tid))
    \<and> (if ins then \<exists>a. a_id a = aid \<and> a_taskId a = tid \<and> a_workflowId a = wid \<and> a_attemptNo a = n
            \<and> a_idempotencyKey a = key \<and> s' = s\<lparr>db_uuids := Suc (db_uuids s), db_attempts := db_attempts s @ [a]\<rparr>
       else s' = s\<lparr>db_uuids := Suc (db_uuids s)\<rparr>)"
proof -
  have "''watt_'' @ U (db_uuids s) \<notin> a_id ` set (db_attempts s)"
    using i unfolding supply_ok_def by force
  with u r show ?thesis
    by (cases "list_ex (\<lambda>a. a_idempotencyKey a = idempotency_key wid tid (attempt_count s tid + 1)) (db_attempts s)")
      (simp_all add: insert_attempt_def Let_def split_beta attempt_count_def attempts_for_def,
       auto intro!: exI)
qed

lemma supply_skip: "supply_ok U s \<Longrightarrow> supply_ok U (s\<lparr>db_uuids := Suc (db_uuids s)\<rparr>)"
  by (simp add: supply_ok_def)

lemma ok_uuid: "ok_step U s (s\<lparr>db_uuids := Suc (db_uuids s)\<rparr>)"
  by (rule ok_frame) (simp_all add: core_def recoveries_def)

text \<open>The claim proper: the attempt is inserted and the row of the snapshot's version starts to run.\<close>

lemma claim_rows_ok:
  assumes i: "db_inv U s" and snap: "snap_ok s t" and st: "open_status (t_status t)" "t_foreachConfig t = None"
    and w: "t_workflowId t = wid" and row: "row \<in> set (db_tasks s)" "t_id row = t_id t" "t_lockVersion row = t_lockVersion t"
    and a: "a_id a = ''watt_'' @ U (db_uuids s)" "a_id a \<notin> a_id ` set (db_attempts s)" "a_taskId a = t_id t"
      "a_workflowId a = wid" "a_attemptNo a = Suc (length (attempts_for (db_attempts s) (t_id t)))"
    and f: "keeps_row f" "\<And>x. t_type (f x) = t_type x" "\<And>x. t_status (f x) = TRunning" "\<And>x. t_lockVersion (f x) = t_lockVersion t + 1"
    and s': "s' = s\<lparr>db_uuids := Suc (db_uuids s), db_attempts := db_attempts s @ [a],
       db_tasks := update_where (\<lambda>x. t_id x = t_id t \<and> t_lockVersion x = t_lockVersion t) f (db_tasks s)\<rparr>"
  shows "db_inv U s' \<and> grows s s'"
proof -
  let ?P = "\<lambda>x. t_id x = t_id t \<and> t_lockVersion x = t_lockVersion t"
  have ev: "row_evolves t row" by (rule snap_same_version [OF i snap row(1,2)])
  have b: "bumps ?P f" using f by (simp add: bumps_def)
  have ok: "rows_ok (recoveries s) (db_tasks s) (db_attempts s)" using i by (simp add: db_inv_def)
  have "rows_ok (recoveries s) (update_where ?P f (db_tasks s)) (db_attempts s @ [a])"
    by (rule rows_ok_claim [OF ok f(1), of row])
      (use f(3) ev st w row a in \<open>auto simp: open_status_def row_evolves_def\<close>)
  moreover have "recoveries s' = recoveries s" by (simp add: s' recoveries_def fun_eq_iff)
  moreover have "supply_ok U s'"
    using i a(1) unfolding db_inv_def supply_ok_def s' by (auto dest: injD)
  moreover have "\<not> isTerminalTaskStatus (t_status t)" using st(1) by (auto simp: open_status_def isTerminalTaskStatus_def)
  then have "grows s s'"
    using grows_tasks [OF b snap_lawful [OF i snap]] unfolding grows_def s' by (auto intro: same_attempt_refl)
  ultimately show ?thesis using i unfolding db_inv_def by (simp add: s')
qed

lemma ok_stepD:
  assumes "ok_step U s s'" and "db_inv U s"
  shows "db_inv U s'" and "grows s s'"
  using assms by (simp_all add: ok_step_def)

lemma delete_appended:
  assumes "k a \<notin> k ` set as"
  shows "delete_where (\<lambda>x. k x = k a) (as @ [a]) = as"
proof -
  have "k x \<noteq> k a" if "x \<in> set as" for x using assms that by (metis imageI)
  then show ?thesis by (simp add: delete_where_def filter_id_conv)
qed

lemma claim_task_ok:
  assumes u: "e_uuid E = U" and i: "db_inv U s" and snap: "snap_ok s t" and w: "t_workflowId t = wid"
    and r: "claim_task E wid now prov deps st ks aps t s = (c, s')"
  shows "claim_step_ok U s c s'"
proof (cases "(t_status t \<noteq> TIdle \<and> t_status t \<noteq> TScheduled) \<or> t_foreachConfig t \<noteq> None")
  case True
  then have "claim_task E wid now prov deps st ks aps t s = (None, s)"
    by (elim disjE) (simp_all add: claim_task_def)
  with r have "c = None" "s' = s" by simp_all
  with i show ?thesis by (simp add: claim_step_ok_def grows_refl)
next
  case False
  then have op: "open_status (t_status t)" and fe: "t_foreachConfig t = None" by (auto simp: open_status_def)
  define gates where "gates = gateContextFor t deps st ks aps now"
  define s1 where "s1 = persistGates E wid (t_id t) gates s"
  have "ok_step U s s1" unfolding s1_def by (rule ok_persistGates)
  with i have i1: "db_inv U s1" and g1: "grows s s1" by (simp_all add: ok_step_def)
  have sn1: "snap_ok s1 t" by (rule snap_grows [OF snap g1])
  obtain aid n key ins s2 where ia: "insert_attempt E wid (t_id t) s1 = ((aid, n, key, ins), s2)"
    by (metis prod_cases3 surj_pair)
  define f where "f = (\<lambda>x. (set_task_status E TRunning (t_lockVersion t) x)
                              \<lparr>t_actualStartUtc := Some (nullish (t_actualStartUtc t) (e_wall E))\<rparr>)"
  let ?P = "\<lambda>x. t_id x = t_id t \<and> t_lockVersion x = t_lockVersion t"
  have sup: "supply_ok U s1" using i1 by (simp add: db_inv_def)
  note ic = insert_attempt_cases [OF u sup ia]
  note aid = conjunct1 [OF ic] and fresh = conjunct1 [OF conjunct2 [OF ic]]
    and n = conjunct1 [OF conjunct2 [OF conjunct2 [OF ic]]]
  have no: "(t_status t \<noteq> TIdle \<and> t_status t \<noteq> TScheduled) = False" "(t_foreachConfig t \<noteq> None) = False"
    using False by simp_all
  have R: "(if ge_state (deriveEffectiveGateState gates) \<noteq> Dispatchable then (None, s1)
      else if \<not> ins then (None, s2)
      else if \<not> (\<exists>x \<in> set (db_tasks s2). ?P x)
      then (None, s2\<lparr>db_tasks := update_where ?P f (db_tasks s2),
                 db_attempts := delete_where (\<lambda>a. a_id a = aid) (db_attempts s2)\<rparr>)
      else (let (tok, s4) = acquireDispatchLease E wid (t_id t) aid (s2\<lparr>db_tasks := update_where ?P f (db_tasks s2)\<rparr>)
            in (Some \<lparr>c_task = t\<lparr>t_status := TRunning, t_lockVersion := t_lockVersion t + 1\<rparr>,
                   c_attemptId = aid, c_attemptNo = n, c_idempotencyKey = key, c_leaseToken = tok\<rparr>,
                recordEvent E wid (Some (t_id t)) (Some (t_key t)) ''dispatched''
                  (JObj [(''attemptNo'', JNum (int n)), (''idemKey'', JStr key)]) prov (Some key) s4))) = (c, s')"
    using r ia unfolding claim_task_def f_def gates_def s1_def no if_False
    by (simp add: Let_def split_beta split del: if_split cong: if_cong)
  have skip: "claim_step_ok U s None (s1\<lparr>db_uuids := Suc (db_uuids s1)\<rparr>)"
    using ok_uuid [of U s1] i1 grows_trans [OF g1] by (simp add: ok_step_def claim_step_ok_def)
  consider (blocked) "c = None" "s' = s1" | (dup) "c = None" "s' = s2" "\<not> ins"
    | (lost) "ins" "\<not> (\<exists>x \<in> set (db_tasks s2). ?P x)" "c = None"
        "s' = s2\<lparr>db_tasks := update_where ?P f (db_tasks s2), db_attempts := delete_where (\<lambda>a. a_id a = aid) (db_attempts s2)\<rparr>"
    | (won) "ge_state (deriveEffectiveGateState gates) = Dispatchable" "ins" "\<exists>x \<in> set (db_tasks s2). ?P x"
    using R by (auto split: if_splits)
  then show ?thesis
  proof cases
    case blocked
    with i1 g1 show ?thesis by (simp add: claim_step_ok_def)
  next
    case dup
    with ic skip show ?thesis by simp
  next
    case lost
    with ic obtain a where a: "a_id a = aid" "s2 = s1\<lparr>db_uuids := Suc (db_uuids s1), db_attempts := db_attempts s1 @ [a]\<rparr>"
      by auto
    have "update_where ?P f (db_tasks s2) = db_tasks s2" using lost(2) by (intro update_where_none) auto
    moreover have "delete_where (\<lambda>a. a_id a = aid) (db_attempts s1 @ [a]) = db_attempts s1"
      by (rule delete_appended [of a_id a, unfolded a(1), OF fresh])
    ultimately have "s' = s1\<lparr>db_uuids := Suc (db_uuids s1)\<rparr>" using lost(4) a(2) by simp
    with skip lost(3) show ?thesis by simp
  next
    case won
    with ic obtain a where a: "a_id a = aid" "a_taskId a = t_id t" "a_workflowId a = wid" "a_attemptNo a = n"
      "a_idempotencyKey a = key" and s2: "s2 = s1\<lparr>db_uuids := Suc (db_uuids s1), db_attempts := db_attempts s1 @ [a]\<rparr>"
      by auto
    from won(3) s2 obtain row where row: "row \<in> set (db_tasks s1)" "t_id row = t_id t" "t_lockVersion row = t_lockVersion t" by auto
    define s3 where "s3 = s2\<lparr>db_tasks := update_where ?P f (db_tasks s2)\<rparr>"
    define s4 where "s4 = snd (acquireDispatchLease E wid (t_id t) aid s3)"
    define tok where "tok = fst (acquireDispatchLease E wid (t_id t) aid s3)"
    let ?c = "\<lparr>c_task = t\<lparr>t_status := TRunning, t_lockVersion := t_lockVersion t + 1\<rparr>,
                   c_attemptId = aid, c_attemptNo = n, c_idempotencyKey = key, c_leaseToken = tok\<rparr>"
    have c: "c = Some ?c" and s': "s' = recordEvent E wid (Some (t_id t)) (Some (t_key t)) ''dispatched''
                  (JObj [(''attemptNo'', JNum (int n)), (''idemKey'', JStr key)]) prov (Some key) s4"
      using won R unfolding s4_def tok_def s3_def by (simp_all add: split_beta)
    have "db_inv U s3 \<and> grows s1 s3"
    proof (rule claim_rows_ok [OF i1 sn1 op fe w row trans [OF a(1) aid] _ a(2,3) trans [OF a(4) n]])
      show "a_id a \<notin> a_id ` set (db_attempts s1)" unfolding a(1) by (rule fresh)
      show "s3 = s1\<lparr>db_uuids := Suc (db_uuids s1), db_attempts := db_attempts s1 @ [a],
         db_tasks := update_where ?P f (db_tasks s1)\<rparr>" by (simp add: s3_def s2)
    qed (simp_all add: f_def keeps_row_def set_task_status_def)
    then have i3: "db_inv U s3" and g3: "grows s1 s3" by simp_all
    have i4: "db_inv U s4" and g4: "grows s3 s4"
      unfolding s4_def by (rule ok_stepD [OF ok_acquire(1) [OF u] i3])+
    have i5: "db_inv U s'" and g5: "grows s4 s'" unfolding s' by (rule ok_stepD [OF ok_recordEvent i4])+
    have g: "grows s3 s'" by (rule grows_trans [OF g4 g5])
    have gs: "grows s s'" by (rule grows_trans [OF grows_trans [OF g1 g3] g])
    have ev: "row_evolves t row" by (rule snap_same_version [OF i1 sn1 row(1,2)])
    then have "row_evolves (c_task ?c) (f row)" using row by (simp add: f_def row_evolves_def set_task_status_def)
    moreover have "f row \<in> set (db_tasks s3)"
      using row update_where_member [of row "db_tasks s1" ?P f] by (simp add: s3_def s2)
    ultimately have "snap_ok s3 (c_task ?c)" unfolding snap_ok_def by blast
    moreover have "a \<in> set (db_attempts s3)" by (simp add: s3_def s2)
    ultimately have "claim_ok s3 ?c" using a by (auto simp: claim_ok_def)
    moreover have "drawn U s s' ?c"
    proof -
      have "tok = U (db_uuids s3)" "db_uuids s4 = db_uuids s3 + 2"
        unfolding tok_def s4_def by (rule ok_acquire(2,3) [OF u])+
      moreover have "db_uuids s \<le> db_uuids s3" using grows_trans [OF g1 g3] by (simp add: grows_def)
      ultimately show ?thesis unfolding drawn_def s' by (intro exI [of _ "db_uuids s3"]) simp
    qed
    ultimately show ?thesis using i5 gs claim_grows [OF _ g] by (simp add: claim_step_ok_def c)
  qed
qed

lemma claim_active_ok:
  assumes u: "e_uuid E = U" and i: "db_inv U s" and r: "claim_active E wid now w s = (cs, s')"
  shows "db_inv U s' \<and> grows s s' \<and> (\<forall>c \<in> set cs. claim_ok s' c \<and> drawn U s s' c) \<and> distinct (map c_leaseToken cs)"
proof -
  define deps where "deps = deps_of s wid"
  define st where "st = js_map (map (\<lambda>t. (t_id t, t_status t)) (tasks_of s wid))"
  define ks where "ks = js_map (map (\<lambda>t. (t_id t, t_key t)) (tasks_of s wid))"
  define aps where "aps = js_map (map (\<lambda>a. (ap_taskId a, ap_status a)) (approvals_of s wid))"
  let ?cap = "op_dispatchBatchCap ENGINE_OPS" and ?prov = "actor_of w"
  obtain ts1 st1 s1 where rl: "recover_loop E wid now ?prov (tasks_of s wid) st s = (ts1, st1, s1)" by (metis prod_cases3)
  obtain cs2 s2 where c2: "capped_loop ?cap (reclaim_task E wid ?prov) ts1 [] s1 = (cs2, s2)" by fastforce
  have c3: "capped_loop ?cap (claim_task E wid now ?prov deps st1 ks aps) ts1 cs2 s2 = (cs, s')"
    using r rl c2 unfolding claim_active_def deps_def st_def ks_def aps_def by (simp add: Let_def)
  have A: "db_inv U s1 \<and> grows s s1 \<and> (\<forall>t \<in> set ts1. snap_ok s1 t \<and> t_workflowId t = wid)"
    by (rule recover_loop_ok [OF i _ rl]) (auto simp: tasks_of_def intro: snap_current)
  then have i1: "db_inv U s1" and g1: "grows s s1" and sn1: "\<forall>t \<in> set ts1. snap_ok s1 t"
    and w1: "\<And>t. t \<in> set ts1 \<Longrightarrow> t_workflowId t = wid" by auto
  have B: "db_inv U s2 \<and> grows s1 s2 \<and> (\<exists>new. cs2 = [] @ new \<and> (\<forall>c \<in> set new. claim_ok s2 c \<and> drawn U s1 s2 c)
      \<and> distinct (map c_leaseToken new))"
    by (rule capped_loop_ok [OF _ i1 sn1 c2]) (rule reclaim_task_ok [OF u])
  then have i2: "db_inv U s2" and g2: "grows s1 s2" and cs2: "\<forall>c \<in> set cs2. claim_ok s2 c \<and> drawn U s1 s2 c"
    "distinct (map c_leaseToken cs2)" by auto
  have sn2: "\<forall>t \<in> set ts1. snap_ok s2 t" using sn1 snap_grows [OF _ g2] by blast
  have "db_inv U s' \<and> grows s2 s' \<and> (\<exists>new. cs = cs2 @ new \<and> (\<forall>c \<in> set new. claim_ok s' c \<and> drawn U s2 s' c)
      \<and> distinct (map c_leaseToken new))"
    by (rule capped_loop_ok [OF _ i2 sn2 c3]) (rule claim_task_ok [OF u _ _ w1])
  then obtain new where i3: "db_inv U s'" and g3: "grows s2 s'" and cs: "cs = cs2 @ new"
    and n: "\<forall>c \<in> set new. claim_ok s' c \<and> drawn U s2 s' c" "distinct (map c_leaseToken new)" by blast
  have inj: "inj U" using i3 by (simp add: db_inv_def supply_ok_def)
  have le: "db_uuids s \<le> db_uuids s1" "db_uuids s1 \<le> db_uuids s2" "db_uuids s2 \<le> db_uuids s'"
    using g1 g2 g3 by (simp_all add: grows_def)
  have "\<forall>c \<in> set cs. claim_ok s' c \<and> drawn U s s' c"
    using cs2(1) n(1) claim_grows [OF _ g3] drawn_mono [OF _ le(1) le(3)] drawn_mono [OF _ le_trans [OF le(1,2)] le_refl]
    unfolding cs by auto
  moreover have "c_leaseToken ` set cs2 \<inter> c_leaseToken ` set new = {}"
    using cs2(1) n(1) drawn_distinct [OF inj] by fastforce
  ultimately show ?thesis
    using i3 grows_trans [OF grows_trans [OF g1 g2] g3] cs2(2) n(2) by (simp add: cs)
qed

lemma claimReadyTasks_ok:
  assumes u: "e_uuid E = U" and i: "db_inv U s" and r: "claimReadyTasks E wid now s = (res, s')"
  shows "db_inv U s' \<and> grows s s' \<and> (\<forall>c \<in> set (cr_claimed res). claim_ok s' c \<and> drawn U s s' c)
    \<and> distinct (map c_leaseToken (cr_claimed res))"
proof (cases "\<exists>w. find_workflow s wid = Some w \<and> w_status w = WActive")
  case True
  then obtain w where w: "find_workflow s wid = Some w" "w_status w = WActive" by blast
  obtain cs s1 where c: "claim_active E wid now w s = (cs, s1)" by fastforce
  with w r have "cr_claimed res = cs" "s' = s1" by (auto simp: claimReadyTasks_def)
  with claim_active_ok [OF u i c] show ?thesis by simp
next
  case False
  with r have "s' = s" "cr_claimed res = []" by (auto simp: claimReadyTasks_def split: option.splits if_splits)
  with i show ?thesis by (simp add: grows_refl)
qed

section \<open>Settling\<close>

lemmas row_update_defs = bumps_def keeps_row_def set_task_status_def

lemma set_status_simps [simp]:
  "t_type (set_task_status E st v t) = t_type t" "t_key (set_task_status E st v t) = t_key t"
  by (simp_all add: set_task_status_def)

text \<open>Closing the running attempt of a task.\<close>

lemma close_attempt:
  assumes i: "db_inv U s" and a: "a \<in> set (db_attempts s)" "a_status a = AttRunning" "P a"
    and only: "\<And>x. x \<in> set (db_attempts s) \<Longrightarrow> P x \<Longrightarrow> a_id x = a_id a"
    and f: "keeps_attempt f" "\<And>x. a_status (f x) \<noteq> AttRunning"
    and s': "s' = s\<lparr>db_attempts := update_where P f (db_attempts s)\<rparr>"
  shows "db_inv U s'" "grows s s'" "no_running (db_attempts s') (a_taskId a)"
    "length (attempts_for (db_attempts s') (a_taskId a)) = a_attemptNo a"
proof -
  have ok: "rows_ok (recoveries s) (db_tasks s) (db_attempts s)" using i by (simp add: db_inv_def)
  have "ok_step U s s'" unfolding s' by (rule ok_attempts [OF f(1)]) (use f(2) in simp)
  then show "db_inv U s'" "grows s s'" by (rule ok_stepD [OF _ i])+
  show "no_running (db_attempts s') (a_taskId a)"
  proof (unfold no_running_def, intro ballI impI notI)
    fix b assume b: "b \<in> set (db_attempts s')" "a_taskId b = a_taskId a" "a_status b = AttRunning"
    from b(1) obtain x where x: "x \<in> set (db_attempts s)" "b = (if P x then f x else x)"
      by (auto simp: s' set_update_where)
    with b(3) f(2) have "b = x" "\<not> P x" by (auto split: if_splits)
    moreover have "x = a" by (rule running_unique [OF ok x(1) a(1) _ a(2)]) (use b \<open>b = x\<close> in simp_all)
    ultimately show False using a(3) by simp
  qed
  show "length (attempts_for (db_attempts s') (a_taskId a)) = a_attemptNo a"
    using rows_okD(5) [OF ok a(1,2)] by (simp add: s' attempts_for_update [OF f(1)])
qed

lemma below_budget: "int n < nullish (t_maxAttempts t) (op_defaultMaxAttempts ENGINE_OPS) \<Longrightarrow> n < max_attempts t"
  by (auto simp: max_attempts_def ENGINE_OPS_def)

lemma applyTaskFailure_ok:
  assumes i: "db_inv U s" and t: "t \<in> set (db_tasks s)" "t_status t = TRunning" and nr: "no_running (db_attempts s) (t_id t)"
    and n: "length (attempts_for (db_attempts s) (t_id t)) = n"
  shows "db_inv U (fst (applyTaskFailure E wid t n err now prov (s, dl)))"
    "grows s (fst (applyTaskFailure E wid t n err now prov (s, dl)))"
proof -
  let ?P = "\<lambda>x. t_id x = t_id t \<and> t_lockVersion x = t_lockVersion t"
  have law: "lawful s ?P f" for f
    by (rule snap_lawful [OF i snap_current [OF t(1)]]) (simp add: t(2) isTerminalTaskStatus_def)
  have dist: "distinct (map t_id (db_tasks s))" using i by (simp add: db_inv_def rows_ok_def)
  have "db_inv U (fst (applyTaskFailure E wid t n err now prov (s, dl)))
    \<and> grows s (fst (applyTaskFailure E wid t n err now prov (s, dl)))"
  proof (cases "int n < nullish (t_maxAttempts t) (op_defaultMaxAttempts ENGINE_OPS)")
    case True
    define f where "f = (\<lambda>x. (set_task_status E TScheduled (t_lockVersion t) x)\<lparr>t_dueAtUtc := Some (now + retryBackoffMs n)\<rparr>)"
    define s1 where "s1 = s\<lparr>db_tasks := update_where ?P f (db_tasks s)\<rparr>"
    have "n < max_attempts x + recoveries s (t_id t)" if "x \<in> set (db_tasks s)" "?P x" for x
      using below_budget [OF True] dist that t by (auto simp: distinct_map inj_on_def)
    then have s1: "db_inv U s1 \<and> grows s s1"
      unfolding s1_def by (intro ok_reopen [OF i _ law _ nr]) (simp_all add: f_def row_update_defs n)
    have R: "fst (applyTaskFailure E wid t n err now prov (s, dl)) = recordEvent E wid (Some (t_id t)) (Some (t_key t)) ''retry_scheduled''
                  (JObj [(''attemptNo'', JNum (int n)), (''backoffMs'', JNum (retryBackoffMs n)),
                         (''nextDueAt'', JStr (toISOString (now + retryBackoffMs n)))]) prov None s1"
      using True by (simp add: applyTaskFailure_def Let_def split_beta s1_def f_def)
    show ?thesis unfolding R
      using ok_stepD [OF ok_recordEvent conjunct1 [OF s1]] grows_trans [OF conjunct2 [OF s1]] by blast
  next
    case False
    define f where "f = (\<lambda>x. (set_task_status E TFailed (t_lockVersion t) x)\<lparr>t_actualEndUtc := Some (e_wall E)\<rparr>)"
    define s1 where "s1 = s\<lparr>db_tasks := update_where ?P f (db_tasks s)\<rparr>"
    have "ok_step U s s1" unfolding s1_def
      by (rule ok_tasks [OF _ law]) (simp_all add: f_def row_update_defs open_status_def)
    note s1 = ok_stepD [OF this i]
    have R: "fst (applyTaskFailure E wid t n err now prov (s, dl)) = recordEvent E wid (Some (t_id t)) (Some (t_key t)) ''dead_lettered''
                  (JObj [(''attemptNo'', JNum (int n)), (''error'', nullish err JNull)]) prov None s1"
      using False by (simp add: applyTaskFailure_def Let_def split_beta s1_def f_def)
    show ?thesis unfolding R
      using ok_stepD [OF ok_recordEvent s1(1)] grows_trans [OF s1(2)] by blast
  qed
  then show "db_inv U (fst (applyTaskFailure E wid t n err now prov (s, dl)))"
    "grows s (fst (applyTaskFailure E wid t n err now prov (s, dl)))" by blast+
qed

text \<open>Finishing a task: the row moves to a terminal status at the version read.\<close>

lemma ok_finish:
  assumes "bumps P f" and "lawful s P f" and "\<And>t. P t \<Longrightarrow> open_status (t_status (f t)) \<Longrightarrow> open_status (t_status t)"
  shows "ok_step U s (recordEvent E wid ti tk k p pr i (s\<lparr>db_tasks := update_where P f (db_tasks s)\<rparr>))"
  by (rule ok_trans [OF ok_tasks [OF assms] ok_recordEvent])

lemma settle_outcome_ok:
  assumes i: "db_inv U s" and c: "claim_ok s (fst r)"
  shows "db_inv U (fst (settle_outcome E wid now prov r (s, dl)))
    \<and> grows s (fst (settle_outcome E wid now prov r (s, dl)))"
proof -
  obtain c oc where r: "r = (c, oc)" by fastforce
  let ?tid = "t_id (c_task c)"
  define s1 where "s1 = s\<lparr>db_leases := delete_where (\<lambda>l. l_taskId l = ?tid \<and> l_token l = c_leaseToken c) (db_leases s)\<rparr>"
  have "ok_step U s s1" unfolding s1_def by (rule ok_delete_leases)
  note S1 = ok_stepD [OF this i]
  define hit :: "attempt_row \<Rightarrow> bool" where "hit = (\<lambda>a. a_id a = c_attemptId c \<and> a_status a = AttRunning)"
  define fa :: "attempt_row \<Rightarrow> attempt_row" where "fa = (\<lambda>a. a\<lparr>a_status := attempt_status_of (o_status oc),
                     a_childRunId := o_childRunId oc, a_error := o_error oc,
                     a_completedAt := (if o_status oc = OutRunning then None else Some (e_wall E)),
                     a_updatedAt := e_wall E\<rparr>)"
  define s2 where "s2 = s1\<lparr>db_attempts := update_where hit fa (db_attempts s1)\<rparr>"
  have sa: "settle_attempt E (c_attemptId c) oc s1 = (list_ex hit (db_attempts s1), s2)"
    by (simp add: settle_attempt_def s2_def hit_def fa_def Let_def)
  show ?thesis
  proof (cases "\<exists>l cur. find_lease s ?tid = Some l \<and> l_token l = c_leaseToken c \<and> find_task s1 ?tid = Some cur
      \<and> t_status cur = TRunning \<and> list_ex hit (db_attempts s1)")
    case False
    then have "fst (settle_outcome E wid now prov r (s, dl)) \<in> {s, s1}
        \<or> (fst (settle_outcome E wid now prov r (s, dl)) = s2 \<and> \<not> list_ex hit (db_attempts s1))"
      by (auto simp: settle_outcome_def r Let_def sa [unfolded s1_def] s1_def [symmetric] sa split: option.splits)
    moreover have "s2 = s1" if "\<not> list_ex hit (db_attempts s1)"
      using that update_where_none [of "db_attempts s1" hit fa] by (simp add: s2_def list_ex_iff)
    ultimately show ?thesis using S1 i grows_refl by auto
  next
    case True
    then obtain l cur where l: "find_lease s ?tid = Some l" "l_token l = c_leaseToken c" and cur: "find_task s1 ?tid = Some cur"
      "t_status cur = TRunning" and h: "list_ex hit (db_attempts s1)" by blast
    have E: "settle_outcome E wid now prov r (s, dl) =
      (case o_status oc of
        OutRunning \<Rightarrow> (recordEvent E wid (Some ?tid) (Some (t_key cur)) ''awaiting''
           (JObj (case o_note oc of None \<Rightarrow> [] | Some n \<Rightarrow> [(''note'', JStr n)])) prov None s2, dl)
      | OutSucceeded \<Rightarrow> (recordEvent E wid (Some ?tid) (Some (t_key cur)) ''succeeded''
             (JObj [(''attemptNo'', JNum (int (c_attemptNo c)))]) prov None
             (s2\<lparr>db_tasks := update_where (\<lambda>t. t_id t = ?tid \<and> t_lockVersion t = t_lockVersion cur)
                (\<lambda>t. (set_task_status E TSucceeded (t_lockVersion cur) t)\<lparr>t_actualEndUtc := Some (e_wall E)\<rparr>) (db_tasks s2)\<rparr>), dl)
      | OutFailed \<Rightarrow> applyTaskFailure E wid cur (c_attemptNo c) (o_error oc) now prov (s2, dl))"
      using l cur h sa by (simp add: settle_outcome_def r Let_def s1_def [symmetric] split_beta split: outcome_status.splits)
    from find_task_Some [OF cur(1)] have cm: "cur \<in> set (db_tasks s1)" "t_id cur = ?tid" by auto
    have k: "keeps_attempt fa" by (simp add: keeps_attempt_def fa_def)
    show ?thesis
    proof (cases "o_status oc")
      case OutRunning
      have "ok_step U s1 s2" unfolding s2_def by (rule ok_attempts [OF k]) (simp add: hit_def)
      note S2 = ok_stepD [OF this S1(1)]
      have "ok_step U s2 (fst (settle_outcome E wid now prov r (s, dl)))"
        using OutRunning unfolding E by (simp add: ok_recordEvent)
      note S3 = ok_stepD [OF this S2(1)]
      show ?thesis by (rule conjI [OF S3(1) grows_trans [OF grows_trans [OF S1(2) S2(2)] S3(2)]])
    next
      case OutSucceeded
      have "ok_step U s1 s2" unfolding s2_def by (rule ok_attempts [OF k]) (simp add: hit_def)
      note S2 = ok_stepD [OF this S1(1)]
      have law2: "lawful s2 (\<lambda>t. t_id t = ?tid \<and> t_lockVersion t = t_lockVersion cur) f" for f
        using snap_lawful [OF S2(1) snap_current [of cur]] cm cur(2) by (simp add: s2_def isTerminalTaskStatus_def)
      have "ok_step U s2 (fst (settle_outcome E wid now prov r (s, dl)))"
        using OutSucceeded unfolding E
        by (simp, intro ok_finish law2) (simp_all add: row_update_defs open_status_def)
      note S3 = ok_stepD [OF this S2(1)]
      show ?thesis by (rule conjI [OF S3(1) grows_trans [OF grows_trans [OF S1(2) S2(2)] S3(2)]])
    next
      case OutFailed
      have cl: "claim_ok s1 c" using claim_grows [OF _ S1(2)] assms(2) by (simp add: r)
      then obtain a where a: "a \<in> set (db_attempts s1)" "a_id a = c_attemptId c" "a_taskId a = ?tid" "a_attemptNo a = c_attemptNo c"
        by (auto simp: claim_ok_def)
      have "distinct (map a_id (db_attempts s1))" using S1(1) by (simp add: db_inv_def rows_ok_def)
      with h a(1,2) have "hit a" by (auto simp: list_ex_iff hit_def distinct_map inj_on_def)
      then have ar: "a_status a = AttRunning" by (simp add: hit_def)
      have fr: "\<And>x. a_status (fa x) \<noteq> AttRunning" using OutFailed by (simp add: fa_def)
      note C = close_attempt [where P = hit and f = fa, OF S1(1) a(1) ar \<open>hit a\<close> _ k fr s2_def]
      have only: "\<And>x. x \<in> set (db_attempts s1) \<Longrightarrow> hit x \<Longrightarrow> a_id x = a_id a" using a(2) by (simp add: hit_def)
      have cm2: "cur \<in> set (db_tasks s2)" using cm by (simp add: s2_def)
      have F: "fst (settle_outcome E wid now prov r (s, dl)) =
          fst (applyTaskFailure E wid cur (c_attemptNo c) (o_error oc) now prov (s2, dl))"
        using OutFailed unfolding E by simp
      have nr: "no_running (db_attempts s2) (t_id cur)" "length (attempts_for (db_attempts s2) (t_id cur)) = c_attemptNo c"
        using C(3,4) [OF only] unfolding a(3,4) cm(2) by simp_all
      note A = applyTaskFailure_ok [OF C(1) [OF only] cm2 cur(2) nr]
      show ?thesis unfolding F by (rule conjI [OF A(1) grows_trans [OF grows_trans [OF S1(2) C(2) [OF only]] A(2)]])
    qed
  qed
qed

lemma recordOutcomes_ok:
  assumes i: "db_inv U s" and c: "\<forall>r \<in> set rs. claim_ok s (fst r)"
  shows "db_inv U (snd (recordOutcomes E wid rs now prov s)) \<and> grows s (snd (recordOutcomes E wid rs now prov s))"
proof -
  have "db_inv U (fst (fold (settle_outcome E wid now prov) rs st)) \<and> grows (fst st) (fst (fold (settle_outcome E wid now prov) rs st))"
    if "db_inv U (fst st)" "\<forall>r \<in> set rs. claim_ok (fst st) (fst r)" for st
    using that
  proof (induction rs arbitrary: st)
    case (Cons r rs)
    let ?st = "settle_outcome E wid now prov r st"
    have S: "db_inv U (fst ?st) \<and> grows (fst st) (fst ?st)"
      using settle_outcome_ok [of U "fst st" r E wid now prov "snd st"] Cons.prems by simp
    then have "\<forall>r \<in> set rs. claim_ok (fst ?st) (fst r)" using Cons.prems(2) claim_grows by auto
    with Cons.IH [of ?st] S show ?case by (auto intro: grows_trans)
  qed (simp add: grows_refl)
  from this [of "(s, [])"] i c show ?thesis by (simp add: recordOutcomes_def split_beta)
qed

section \<open>Polled child runs\<close>

definition poll_ok :: "db \<Rightarrow> polled \<Rightarrow> bool" where
  "poll_ok s p \<longleftrightarrow> (\<exists>a \<in> set (db_attempts s). a_id a = p_attemptId p \<and> a_taskId a = t_id (p_task p)
     \<and> a_attemptNo a = p_attemptNo p)"

lemma poll_grows: "poll_ok s p \<Longrightarrow> grows s s' \<Longrightarrow> poll_ok s' p"
  unfolding poll_ok_def grows_def same_attempt_def by metis

lemma pollRead_ok: "p \<in> set (pollRead f wid s) \<Longrightarrow> poll_ok s p"
proof -
  assume "p \<in> set (pollRead f wid s)"
  then obtain t where t: "poll_task f s t = Some p" by (auto simp: pollRead_def map_filter_def)
  then obtain a where a: "top_by a_attemptNo (filter (\<lambda>a. a_taskId a = t_id t \<and> a_status a = AttRunning
               \<and> a_childRunId a \<noteq> None) (db_attempts s)) = Some a"
    by (auto simp: poll_task_def split: option.splits)
  from t a have "p_task p = t" "p_attemptId p = a_id a" "p_attemptNo p = a_attemptNo a"
    by (auto simp: poll_task_def split: option.splits sum.splits if_splits)
  with top_by_Some [OF a] show ?thesis by (auto simp: poll_ok_def)
qed

lemma ok_fold_frame:
  assumes "\<And>x s. core (f x s) = core s \<and> db_events (f x s) = db_events s \<and> db_uuids s \<le> db_uuids (f x s)"
  shows "ok_step U s (fold f xs s)"
  by (rule ok_fold, rule ok_frame) (use assms in \<open>auto simp: recoveries_def\<close>)

lemma settle_child_succeeded_ok:
  assumes i: "db_inv U s" and cur: "cur \<in> set (db_tasks s)" "t_id cur = t_id (p_task p)" "t_status cur = TRunning"
  shows "ok_step U s (settle_child_succeeded E wid prov p cur s)"
proof -
  let ?tid = "t_id (p_task p)"
  let ?P = "\<lambda>t. t_id t = ?tid \<and> t_lockVersion t = t_lockVersion cur"
  define f where "f = (\<lambda>t. (set_task_status E TSucceeded (t_lockVersion cur) t)\<lparr>t_actualEndUtc := Some (e_wall E)\<rparr>)"
  define fa :: "attempt_row \<Rightarrow> attempt_row" where "fa = (\<lambda>a. a\<lparr>a_status := AttSucceeded, a_completedAt := Some (e_wall E),
                         a_output := cs_output (p_childStatus p), a_updatedAt := e_wall E\<rparr>)"
  define s1 where "s1 = s\<lparr>db_tasks := update_where ?P f (db_tasks s)\<rparr>"
  define s2 where "s2 = s1\<lparr>db_attempts := update_where (\<lambda>a. a_id a = p_attemptId p) fa (db_attempts s1)\<rparr>"
  define arts where "arts = (Some ''agent_run'', p_childRunId p) # nullish (cs_artifacts (p_childStatus p)) []"
  define prod where "prod = nullish (cs_producedArtifacts (p_childStatus p)) []"
  define s4 where "s4 = fold (insert_produced E wid ?tid) prod (fold (insert_artifact E wid ?tid) arts s2)"
  have ex: "(\<exists>t \<in> set (db_tasks s). ?P t) = True" using cur(1,2) by blast
  have "settle_child_succeeded E wid prov p cur s = recordEvent E wid (Some ?tid) (Some (t_key cur)) ''succeeded''
                 (JObj [(''attemptNo'', JNum (int (p_attemptNo p))), (''childRunId'', JStr (p_childRunId p)),
                        (''artifacts'', JNum (int (length arts))),
                        (''producedArtifacts'', JNum (int (length prod)))]) prov None s4"
    using ex unfolding settle_child_succeeded_def s4_def s2_def s1_def f_def fa_def arts_def prod_def Let_def split_beta
    by (simp only: cas_task_simps not_True_eq_False if_False)
  moreover have "lawful s ?P f"
    using snap_lawful [OF i snap_current [OF cur(1)]] cur(2,3) by (simp add: isTerminalTaskStatus_def)
  then have "ok_step U s s1" unfolding s1_def
    by (intro ok_tasks) (simp_all add: f_def row_update_defs open_status_def)
  moreover have "ok_step U s1 s2" unfolding s2_def
    by (rule ok_attempts) (simp_all add: keeps_attempt_def fa_def)
  moreover have "ok_step U s2 s4"
    unfolding s4_def
    by (rule ok_trans; rule ok_fold_frame) (auto simp: core_def insert_artifact_def insert_produced_def new_id_def randomUUID_def Let_def)
  ultimately show ?thesis by (simp only:) (rule ok_trans [OF ok_trans [OF ok_trans] ok_recordEvent])
qed

lemma settle_polled_ok:
  assumes i: "db_inv U s" and p: "poll_ok s p"
  shows "db_inv U (fst (settle_polled E wid now prov p (s, dl))) \<and> grows s (fst (settle_polled E wid now prov p (s, dl)))"
proof (cases "\<exists>cur att. find_task s (t_id (p_task p)) = Some cur \<and> t_status cur = TRunning
    \<and> find_attempt s (p_attemptId p) = Some att \<and> a_status att = AttRunning \<and> a_childRunId att = Some (p_childRunId p)")
  case False
  then have "settle_polled E wid now prov p (s, dl) = (s, dl)"
    by (auto simp: settle_polled_def Let_def split: option.splits)
  with i show ?thesis by (simp add: grows_refl)
next
  case True
  then obtain cur att where cur: "find_task s (t_id (p_task p)) = Some cur" "t_status cur = TRunning"
    and att: "find_attempt s (p_attemptId p) = Some att" "a_status att = AttRunning" "a_childRunId att = Some (p_childRunId p)" by blast
  note cm = find_task_Some [OF cur(1)] and am = find_attempt_Some [OF att(1)]
  let ?cs = "p_childStatus p"
  have E: "fst (settle_polled E wid now prov p (s, dl)) =
     (if cs_hitl ?cs \<and> \<not> cs_terminal ?cs then settle_hitl E wid prov p cur att s
      else if \<not> cs_failed ?cs then settle_child_succeeded E wid prov p cur s
      else fst (settle_child_failed E wid now prov p cur (s, dl)))"
    using cur att by (simp add: settle_polled_def Let_def)
  consider (hitl) "cs_hitl ?cs \<and> \<not> cs_terminal ?cs" | (succ) "\<not> (cs_hitl ?cs \<and> \<not> cs_terminal ?cs)" "\<not> cs_failed ?cs"
    | (fail) "\<not> (cs_hitl ?cs \<and> \<not> cs_terminal ?cs)" "cs_failed ?cs" by blast
  then show ?thesis
  proof cases
    case hitl
    have "ok_step U s (settle_hitl E wid prov p cur att s)"
      by (simp add: settle_hitl_def Let_def ok_recordEvent ok_refl)
    with i hitl show ?thesis unfolding E by (simp add: ok_step_def)
  next
    case succ
    have "ok_step U s (settle_child_succeeded E wid prov p cur s)"
      by (rule settle_child_succeeded_ok [OF i]) (use cm cur in auto)
    with i succ show ?thesis unfolding E ok_step_def by (simp only: if_False not_False_eq_True if_True simp_thms)
  next
    case fail
    define fa :: "attempt_row \<Rightarrow> attempt_row" where "fa = (\<lambda>a. a\<lparr>a_status := AttFailed, a_error := cs_error ?cs,
                        a_completedAt := Some (e_wall E), a_updatedAt := e_wall E\<rparr>)"
    define s1 where "s1 = s\<lparr>db_attempts := update_where (\<lambda>a. a_id a = p_attemptId p) fa (db_attempts s)\<rparr>"
    from p obtain a where a: "a \<in> set (db_attempts s)" "a_id a = p_attemptId p" "a_taskId a = t_id (p_task p)"
      "a_attemptNo a = p_attemptNo p" by (auto simp: poll_ok_def)
    have "distinct (map a_id (db_attempts s))" using i by (simp add: db_inv_def rows_ok_def)
    with a(1,2) am have "a = att" by (auto simp: distinct_map inj_on_def)
    with att have ar: "a_status a = AttRunning" by simp
    have k: "keeps_attempt fa" and fr: "\<And>x. a_status (fa x) \<noteq> AttRunning" by (simp_all add: keeps_attempt_def fa_def)
    have only: "\<And>x. x \<in> set (db_attempts s) \<Longrightarrow> a_id x = p_attemptId p \<Longrightarrow> a_id x = a_id a" using a(2) by simp
    note C = close_attempt [OF i a(1) ar a(2) only k fr s1_def]
    have nr: "no_running (db_attempts s1) (t_id cur)" "length (attempts_for (db_attempts s1) (t_id cur)) = p_attemptNo p"
      using C(3,4) a(3,4) cm by simp_all
    have cm1: "cur \<in> set (db_tasks s1)" using cm by (simp add: s1_def)
    note A = applyTaskFailure_ok [OF C(1) cm1 cur(2) nr]
    have F: "fst (settle_polled E wid now prov p (s, dl)) = fst (applyTaskFailure E wid cur (p_attemptNo p)
           (Some (nullish (cs_error ?cs)
              (JObj [(''childRunId'', JStr (p_childRunId p)), (''status'', JStr (cs_status ?cs))])))
           now prov (s1, dl))"
      using fail unfolding E by (simp only: if_False not_False_eq_True not_True_eq_False if_True simp_thms)
        (simp add: settle_child_failed_def Let_def s1_def fa_def)
    show ?thesis unfolding F by (rule conjI [OF A(1) grows_trans [OF C(2) A(2)]])
  qed
qed

lemma pollSettle_ok:
  assumes i: "db_inv U s" and p: "\<forall>p \<in> set ps. poll_ok s p"
  shows "db_inv U (snd (pollSettle E wid now ps s)) \<and> grows s (snd (pollSettle E wid now ps s))"
proof -
  have "db_inv U (fst (fold (settle_polled E wid now prov) ps st)) \<and> grows (fst st) (fst (fold (settle_polled E wid now prov) ps st))"
    if "db_inv U (fst st)" "\<forall>p \<in> set ps. poll_ok (fst st) p" for st prov
    using that
  proof (induction ps arbitrary: st)
    case (Cons p ps)
    let ?st = "settle_polled E wid now prov p st"
    have S: "db_inv U (fst ?st) \<and> grows (fst st) (fst ?st)"
      using settle_polled_ok [of U "fst st" p E wid now prov "snd st"] Cons.prems by simp
    then have "\<forall>p \<in> set ps. poll_ok (fst ?st) p" using Cons.prems(2) poll_grows by auto
    with Cons.IH [of ?st] S show ?case by (auto intro: grows_trans)
  qed (simp add: grows_refl)
  from this [of "(s, [])"] i p show ?thesis
    by (auto simp: pollSettle_def split_beta Let_def grows_refl split: option.splits)
qed

section \<open>Approval passes\<close>

lemma ok_approvals: "ok_step U s (s\<lparr>db_approvals := x\<rparr>)"
  by (rule ok_frame) (simp_all add: core_def recoveries_def)

lemma invalidate_ok: "ok_step U s (invalidateStaleApprovals E wid now s)"
proof -
  have "ok_step U s (invalidate_approval E now tb kb ds ap s)" for tb kb ds ap s
    by (auto simp: invalidate_approval_def Let_def ok_refl intro!: ok_approvals split: option.splits)
  then show ?thesis
    by (auto simp: invalidateStaleApprovals_def Let_def ok_refl intro!: ok_fold split: option.splits)
qed

lemma solicit_ok: "ok_step U s (snd (solicitApprovals E cal wid now s))"
proof -
  have A: "ok_step U (fst st) (fst (solicit_approval E cal now w tb kb sb ds ap st))" for w tb kb sb ds ap st
    by (auto simp: solicit_approval_def Let_def split_beta ok_refl intro!: ok_approvals split: option.splits)
  have "ok_step U (fst st) (fst (fold (solicit_approval E cal now w tb kb sb ds) aps st))" for w tb kb sb ds aps st
  proof (induction aps arbitrary: st)
    case (Cons ap aps)
    show ?case using ok_trans [OF A Cons.IH] by simp
  qed (simp add: ok_refl)
  from this [where st = "(s, [])"] show ?thesis
    by (auto simp: solicitApprovals_def Let_def split_beta ok_refl split: option.splits)
qed

text \<open>The compare-and-set of a workflow status, along the matrix.\<close>

lemma ok_workflow:
  assumes step: "\<And>r. db_inv U s \<Longrightarrow> r \<in> set (db_workflows s) \<Longrightarrow> w_id r = wid \<Longrightarrow> w_lockVersion r = v \<Longrightarrow> g r \<Longrightarrow>
     st \<in> set (WORKFLOW_TRANSITIONS (w_status r))"
  shows "ok_step U s (s\<lparr>db_workflows := update_where (\<lambda>w. w_id w = wid \<and> w_lockVersion w = v \<and> g w)
     (set_workflow_status E st v) (db_workflows s)\<rparr>)"
  unfolding ok_step_def
proof
  let ?ws = "update_where (\<lambda>w. w_id w = wid \<and> w_lockVersion w = v \<and> g w) (set_workflow_status E st v) (db_workflows s)"
  assume i: "db_inv U s"
  have "wf_path (w_status r) st" if "r \<in> set (db_workflows s)" "w_id r = wid" "w_lockVersion r = v" "g r" for r
    unfolding wf_path_def by (rule r_into_rtranclp) (use step [OF i that] in \<open>simp add: canTransition_workflow\<close>)
  then have f: "wf_follow (db_workflows s) ?ws"
    unfolding wf_follow_def update_where_def list.rel_map
    by (intro list.rel_refl_strong) (auto simp: wf_path_def)
  have r: "recoveries (s\<lparr>db_workflows := x\<rparr>) = recoveries s" for x by (simp add: recoveries_def fun_eq_iff)
  have "db_inv U (s\<lparr>db_workflows := ?ws\<rparr>)"
    using i wf_follow_ids [OF f] unfolding db_inv_def supply_ok_def r by simp
  moreover have "grows s (s\<lparr>db_workflows := ?ws\<rparr>)"
    unfolding grows_def using f by (auto intro: row_evolves_refl same_attempt_refl)
  ultimately show "db_inv U (s\<lparr>db_workflows := ?ws\<rparr>) \<and> grows s (s\<lparr>db_workflows := ?ws\<rparr>)" ..
qed

lemma current_workflow:
  assumes "db_inv U s" and "find_workflow s wid = Some w" and "r \<in> set (db_workflows s)" and "w_id r = wid"
  shows "r = w"
  using find_workflow_Some [OF assms(2)] assms(1,3,4) by (auto simp: db_inv_def distinct_map inj_on_def)

lemma ok_cancel_open: "ok_step U s (cancel_open_tasks E wid s)"
  unfolding cancel_open_tasks_def
  by (rule ok_tasks)
    (auto simp: row_update_defs lawful_def open_status_def NON_TERMINAL_TASK_STATUSES_def isTerminalTaskStatus_def)

lemma ok_clear_leases: "ok_step U s (clear_leases wid s)"
  unfolding clear_leases_def by (rule ok_delete_leases)

lemma skip_rejected_ok:
  assumes i: "db_inv U s" and t: "\<And>t. tb (ap_taskId ap) = Some t \<Longrightarrow> snap_ok s t"
  shows "db_inv U (skip_rejected E wid prov tb ap s) \<and> grows s (skip_rejected E wid prov tb ap s)"
proof (cases "\<exists>t. ap_status ap = ApRejected \<and> ap_rejectionPolicy ap = Some ''skip'' \<and> tb (ap_taskId ap) = Some t
    \<and> \<not> isTerminalTaskStatus (t_status t)")
  case True
  then obtain t where T: "ap_status ap = ApRejected" "ap_rejectionPolicy ap = Some ''skip''" "tb (ap_taskId ap) = Some t"
    "\<not> isTerminalTaskStatus (t_status t)" by blast
  have "ok_step U s (recordEvent E wid (Some (t_id t)) (Some (t_key t)) ''skipped''
                     (JObj [(''reason'', JStr ''approval_rejected_skip'')]) prov None
        (s\<lparr>db_tasks := update_where (\<lambda>x. t_id x = t_id t \<and> t_lockVersion x = t_lockVersion t)
           (set_task_status E TSkipped (t_lockVersion t)) (db_tasks s)\<rparr>))"
    by (rule ok_finish [OF bumps_set_status snap_lawful [OF i t [OF T(3)] T(4)]]) (simp add: open_status_def)
  then show ?thesis using T i by (simp add: skip_rejected_def split_beta Let_def ok_step_def)
next
  case False
  then have "skip_rejected E wid prov tb ap s = s" by (auto simp: skip_rejected_def split: option.splits)
  with i show ?thesis by (simp add: grows_refl)
qed

lemma skip_rejected_workflows: "db_workflows (fold (skip_rejected E wid prov tb) aps s) = db_workflows s"
proof (induction aps arbitrary: s)
  case (Cons ap aps)
  have "db_workflows (skip_rejected E wid prov tb ap s) = db_workflows s"
    by (auto simp: skip_rejected_def Let_def split_beta split: option.splits)
  with Cons show ?case by simp
qed simp

lemma ok_if: "ok_step U s a \<Longrightarrow> ok_step U s b \<Longrightarrow> ok_step U s (if c then a else b)"
  by simp

lemma fold_ok:
  assumes step: "\<And>x s. x \<in> set xs \<Longrightarrow> db_inv U s \<Longrightarrow> grows s0 s \<Longrightarrow> db_inv U (f x s) \<and> grows s (f x s)"
  shows "db_inv U s \<Longrightarrow> grows s0 s \<Longrightarrow> db_inv U (fold f xs s) \<and> grows s (fold f xs s)"
  using step
proof (induction xs arbitrary: s)
  case (Cons x xs)
  have S: "db_inv U (f x s) \<and> grows s (f x s)" by (rule Cons.prems(3) [OF _ Cons.prems(1,2)]) simp
  have "db_inv U (fold f xs (f x s)) \<and> grows (f x s) (fold f xs (f x s))"
    by (rule Cons.IH) (use S Cons.prems grows_trans in \<open>auto\<close>)
  with S show ?case by (auto intro: grows_trans)
qed (simp add: grows_refl)

lemma rejected_ok:
  assumes i: "db_inv U s"
  shows "db_inv U (snd (applyRejectedApprovalPolicies E wid s)) \<and> grows s (snd (applyRejectedApprovalPolicies E wid s))"
proof (cases "\<exists>w. find_workflow s wid = Some w \<and> w_status w = WActive")
  case False
  then have "applyRejectedApprovalPolicies E wid s = ([], s)"
    by (auto simp: applyRejectedApprovalPolicies_def split: option.splits)
  with i show ?thesis by (simp add: grows_refl)
next
  case True
  then obtain w where w: "find_workflow s wid = Some w" "w_status w = WActive" by blast
  define tb where "tb = js_map (map (\<lambda>t. (t_id t, t)) (tasks_of s wid))"
  define s1 where "s1 = fold (skip_rejected E wid (actor_of w) tb) (approvals_of s wid) s"
  have mem: "tb k = Some t \<Longrightarrow> t \<in> set (db_tasks s)" for k t
    unfolding tb_def js_map_def by (auto dest!: map_of_SomeD simp: tasks_of_def)
  have S1: "db_inv U s1 \<and> grows s s1"
    unfolding s1_def
    by (rule fold_ok [OF _ i grows_refl], rule skip_rejected_ok) (auto dest!: mem intro: snap_grows snap_current)
  have W: "db_workflows s1 = db_workflows s" unfolding s1_def by (simp add: skip_rejected_workflows)
  have V: "ok_step U s1 (s1\<lparr>db_workflows := update_where (\<lambda>r. w_id r = wid \<and> w_lockVersion r = w_lockVersion w \<and> True)
     (set_workflow_status E WCancelled (w_lockVersion w)) (db_workflows s1)\<rparr>)"
    by (rule ok_workflow) (use current_workflow [OF i w(1)] w(2) in \<open>auto simp: W\<close>)
  have C: "ok_step U s1 (snd (cancel_by_rejection E wid w (actor_of w) s1))"
    unfolding cancel_by_rejection_def Let_def split_beta cas_workflow_simps
    by (simp only: if_distrib [of snd] snd_conv, rule ok_if, rule V)
      (rule ok_trans [OF V ok_trans [OF ok_cancel_open ok_trans [OF ok_clear_leases ok_recordEvent]]])
  have "snd (applyRejectedApprovalPolicies E wid s) \<in> {s1, snd (cancel_by_rejection E wid w (actor_of w) s1)}"
    using w unfolding applyRejectedApprovalPolicies_def tb_def s1_def by (simp add: Let_def)
  with S1 ok_stepD [OF C] show ?thesis by (auto intro: grows_trans)
qed

section \<open>Finalizing\<close>

text \<open>A row the loop would still skip is not terminal.\<close>

definition view_ok :: "(ident \<rightharpoonup> task_status) \<Rightarrow> task_row \<Rightarrow> db \<Rightarrow> bool" where
  "view_ok st t s \<longleftrightarrow> (considered (status_in st (t_id t)) \<longrightarrow>
     (\<forall>r \<in> set (db_tasks s). t_id r = t_id t \<and> t_lockVersion r = t_lockVersion t \<longrightarrow> \<not> isTerminalTaskStatus (t_status r)))"

lemma skip_visit_ok:
  assumes v: "skip_visit E wid prov deps pol ky t (st, b, c, s) = (t', st', b', c', s')"
    and i: "db_inv U s" and y: "view_ok st t s"
  shows "db_inv U s' \<and> grows s s' \<and> view_ok st' t' s' \<and> (\<forall>u. t_id u \<noteq> t_id t \<longrightarrow> view_ok st u s \<longrightarrow> view_ok st' u s')"
proof (cases "t' = t \<and> st' = st \<and> s' = s")
  case True
  with i y show ?thesis by (simp add: grows_refl)
next
  case False
  let ?P = "\<lambda>r. t_id r = t_id t \<and> t_lockVersion r = t_lockVersion t"
  from False v have c: "considered (status_in st (t_id t))" and st': "st' = st(t_id t \<mapsto> TSkipped)"
    and t': "t' = t\<lparr>t_lockVersion := t_lockVersion t + 1\<rparr>"
    and s': "s' = recordEvent E wid (Some (t_id t)) (ky (t_id t)) ''skipped''
                   (JObj [(''reason'', JStr ''upstream terminal-unmatched'')]) prov None
          (s\<lparr>db_tasks := update_where ?P (set_task_status E TSkipped (t_lockVersion t)) (db_tasks s)\<rparr>)"
    by (auto simp: skip_visit_def Let_def split_beta split: if_splits)
  have "lawful s ?P (set_task_status E TSkipped (t_lockVersion t))"
    using y c by (auto simp: view_ok_def lawful_def)
  then have "ok_step U s s'" unfolding s'
    by (intro ok_finish bumps_set_status) (simp_all add: open_status_def)
  moreover have "view_ok st' t' s'" by (simp add: view_ok_def st' t' status_in_def)
  moreover have "view_ok st' u s'" if "t_id u \<noteq> t_id t" "view_ok st u s" for u
    using that by (auto simp: view_ok_def st' s' status_in_def set_update_where split: if_splits)
  ultimately show ?thesis using i unfolding ok_step_def by blast
qed

lemma skip_pass_ok:
  "skip_pass E wid prov deps pol ky ts (st, b, c, s) = (ts', st', b', c', s') \<Longrightarrow>
   distinct (map t_id ts) \<Longrightarrow> db_inv U s \<Longrightarrow> \<forall>t \<in> set ts. view_ok st t s \<Longrightarrow>
     db_inv U s' \<and> grows s s' \<and> (\<forall>t \<in> set ts'. view_ok st' t s')
     \<and> (\<forall>u. t_id u \<notin> t_id ` set ts \<longrightarrow> view_ok st u s \<longrightarrow> view_ok st' u s')"
proof (induction ts arbitrary: st b c s ts' st' b' c' s')
  case Nil
  then show ?case by (simp add: grows_refl)
next
  case (Cons t ts)
  from Cons.prems(1) obtain t1 st1 b1 c1 s1 ts1 where
    v: "skip_visit E wid prov deps pol ky t (st, b, c, s) = (t1, st1, b1, c1, s1)"
    and p: "skip_pass E wid prov deps pol ky ts (st1, b1, c1, s1) = (ts1, st', b', c', s')"
    and ts': "ts' = t1 # ts1"
    by (auto split: prod.splits)
  have V: "db_inv U s1" "grows s s1" "view_ok st1 t1 s1" "\<And>u. t_id u \<noteq> t_id t \<Longrightarrow> view_ok st u s \<Longrightarrow> view_ok st1 u s1"
    using skip_visit_ok [OF v Cons.prems(3)] Cons.prems(4) by auto
  have id1: "t_id t1 = t_id t" using skip_visit_status [OF v] by simp
  have nt: "t_id u \<noteq> t_id t" if "u \<in> set ts" for u
  proof -
    have "t_id t \<notin> t_id ` set ts" using Cons.prems(2) by simp
    with that show ?thesis by (metis imageI)
  qed
  have "\<forall>t \<in> set ts. view_ok st1 t s1" using V(4) [OF nt] Cons.prems(4) by auto
  with Cons.IH [OF p] Cons.prems(2) V(1)
  have P: "db_inv U s'" "grows s1 s'" "\<forall>t \<in> set ts1. view_ok st' t s'"
    "\<And>u. t_id u \<notin> t_id ` set ts \<Longrightarrow> view_ok st1 u s1 \<Longrightarrow> view_ok st' u s'" by auto
  have "view_ok st' t1 s'" by (rule P(4) [OF _ V(3)]) (use id1 Cons.prems(2) in auto)
  then show ?case using P(1,3) grows_trans [OF V(2) P(2)] P(4) [OF _ V(4)] ts' by auto
qed

lemma skip_fixpoint_ok:
  "skip_fixpoint E wid prov deps pol ky ts x = (st', b', c', s') \<Longrightarrow>
   distinct (map t_id ts) \<Longrightarrow> db_inv U (snd (snd (snd x))) \<Longrightarrow> \<forall>t \<in> set ts. view_ok (fst x) t (snd (snd (snd x))) \<Longrightarrow>
     db_inv U s' \<and> grows (snd (snd (snd x))) s'"
proof (induction E wid prov deps pol ky ts x rule: skip_fixpoint.induct)
  case (1 E wid prov deps pol ky ts x)
  let ?x = "(fst x, fst (snd x), False, snd (snd (snd x)))"
  obtain ts1 st1 b1 c1 s1 where p: "skip_pass E wid prov deps pol ky ts ?x = (ts1, st1, b1, c1, s1)"
    by (rule prod_cases5)
  have P: "db_inv U s1" "grows (snd (snd (snd x))) s1" "\<forall>t \<in> set ts1. view_ok st1 t s1"
    using skip_pass_ok [OF p "1.prems"(2,3,4)] by auto
  show ?case
  proof (cases c1)
    case True
    have "skip_fixpoint E wid prov deps pol ky ts1 (st1, b1, c1, s1) = (st', b', c', s')"
      using "1.prems"(1) True by (subst (asm) skip_fixpoint.simps) (simp add: p)
    moreover have "distinct (map t_id ts1)" using "1.prems"(2) skip_pass_ids [OF p] by metis
    ultimately have "db_inv U s' \<and> grows s1 s'"
      using "1.IH" [OF refl] True P by (simp add: p)
    then show ?thesis using grows_trans [OF P(2)] by blast
  next
    case False
    then have "s' = s1" using "1.prems"(1) by (subst (asm) skip_fixpoint.simps, simp add: p)
    with P show ?thesis by simp
  qed
qed

lemma finalize_ok:
  assumes i: "db_inv U s"
  shows "db_inv U (snd (finalizeWorkflow E wid s)) \<and> grows s (snd (finalizeWorkflow E wid s))"
proof (cases "\<exists>w. find_workflow s wid = Some w \<and> w_status w = WActive")
  case False
  then have "snd (finalizeWorkflow E wid s) = s" by (auto simp: finalizeWorkflow_def split: option.splits)
  with i show ?thesis by (simp add: grows_refl)
next
  case True
  then obtain w where w: "find_workflow s wid = Some w" "w_status w = WActive" by blast
  define st0 where "st0 = js_map (map (\<lambda>t. (t_id t, t_status t)) (tasks_of s wid))"
  define ky where "ky = js_map (map (\<lambda>t. (t_id t, t_key t)) (tasks_of s wid))"
  define pol where "pol = js_map (map (\<lambda>t. (t_id t, nullish (t_failurePolicy t) FpBlock)) (tasks_of s wid))"
  obtain st b c s1 where f: "skip_fixpoint E wid (actor_of w) (deps_of s wid) pol ky (tasks_of s wid) (st0, False, False, s) = (st, b, c, s1)"
    by (metis prod_cases4)
  have R: "snd (finalizeWorkflow E wid s) = snd (finalize_status E wid w (actor_of w)
      (if b then WFailed else rollUpWorkflowStatus (map (rollup_of st) (tasks_of s wid))) s1)"
    using w f unfolding finalizeWorkflow_def st0_def ky_def pol_def by (simp add: Let_def)
  have d: "distinct (map t_id (db_tasks s))" using i by (simp add: db_inv_def rows_ok_def)
  have "view_ok st0 t s" if t: "t \<in> set (tasks_of s wid)" for t
  proof -
    have "st0 (t_id t) = Some (t_status t)"
      using start_status_of [OF d t] by (simp add: st0_def start_status_def)
    moreover have "r = t" if "r \<in> set (db_tasks s)" "t_id r = t_id t" for r
      using d that t by (auto simp: tasks_of_def distinct_map inj_on_def)
    ultimately show ?thesis by (auto simp: view_ok_def status_in_def considered_def)
  qed
  with skip_fixpoint_ok [OF f tasks_of_distinct [OF d], of U] i
  have S1: "db_inv U s1" "grows s s1" by simp_all
  have "\<forall>t \<in> set (tasks_of s wid). synced t s" using tasks_synced [OF d] by blast
  with skip_fixpoint_follows [OF f tasks_of_distinct [OF d]] have W: "db_workflows s1 = db_workflows s"
    by (simp add: follows_def)
  let ?nxt = "if b then WFailed else rollUpWorkflowStatus (map (rollup_of st) (tasks_of s wid))"
  have V: "ok_step U s1 (s1\<lparr>db_workflows := update_where (\<lambda>r. w_id r = wid \<and> w_lockVersion r = w_lockVersion w \<and> True)
     (set_workflow_status E ?nxt (w_lockVersion w)) (db_workflows s1)\<rparr>)" if "?nxt \<noteq> WActive"
    by (rule ok_workflow) (use current_workflow [OF i w(1)] w(2) that in \<open>auto simp: W rollUpWorkflowStatus_def split: if_splits\<close>)
  have "ok_step U s1 (snd (finalize_status E wid w (actor_of w) ?nxt s1))"
  proof (cases "?nxt = WActive")
    case False
    show ?thesis
      unfolding finalize_status_def Let_def split_beta cas_workflow_simps if_P [OF False]
      by (simp only: if_distrib [of snd] snd_conv)
        (intro ok_if V [OF False] ok_trans [OF V [OF False] ok_trans [OF ok_clear_leases ok_recordEvent]])
  qed (simp add: finalize_status_def ok_refl)
  from ok_stepD [OF this S1(1)] grows_trans [OF S1(2)] show ?thesis unfolding R by blast
qed

section \<open>Lifecycle writes\<close>

lemma cancel_teardown_ok: "ok_step U s (snd (cancel_teardown E wid actor s))"
  unfolding cancel_teardown_def Let_def snd_conv
  by (rule ok_trans [OF ok_cancel_open ok_trans [OF ok_approvals ok_trans [OF ok_clear_leases ok_insert_event]]])

lemma cancelWorkflow_ok: "ok_step U s (snd (cancelWorkflow E wid actor s))"
proof (cases "find_workflow s wid")
  case None
  then show ?thesis by (simp add: cancelWorkflow_def ok_refl)
next
  case (Some w)
  have V: "ok_step U s (s\<lparr>db_workflows := update_where
      (\<lambda>r. w_id r = wid \<and> w_lockVersion r = w_lockVersion w \<and> (w_status r = WActive \<or> w_status r = WPaused))
      (set_workflow_status E WCancelled (w_lockVersion w)) (db_workflows s)\<rparr>)"
    by (rule ok_workflow) auto
  note C = ok_trans [OF V cancel_teardown_ok]
  show ?thesis
    by (cases "assertTransition KWorkflow (workflow_status_text (w_status w)) ''cancelled''")
      (simp_all add: cancelWorkflow_def Let_def split_beta Some C V ok_refl)
qed

lemma ok_workflow_event:
  assumes "st \<in> set (WORKFLOW_TRANSITIONS st0)"
  shows "ok_step U s (insert_event E wid ti tk k pl a so ide (s\<lparr>db_workflows := update_where
      (\<lambda>r. w_id r = wid \<and> w_lockVersion r = v \<and> w_status r = st0) (set_workflow_status E st v) (db_workflows s)\<rparr>))"
    and "ok_step U s (s\<lparr>db_workflows := update_where
      (\<lambda>r. w_id r = wid \<and> w_lockVersion r = v \<and> w_status r = st0) (set_workflow_status E st v) (db_workflows s)\<rparr>)"
proof -
  show V: "ok_step U s (s\<lparr>db_workflows := update_where
      (\<lambda>r. w_id r = wid \<and> w_lockVersion r = v \<and> w_status r = st0) (set_workflow_status E st v) (db_workflows s)\<rparr>)"
    by (rule ok_workflow) (use assms in auto)
  show "ok_step U s (insert_event E wid ti tk k pl a so ide (s\<lparr>db_workflows := update_where
      (\<lambda>r. w_id r = wid \<and> w_lockVersion r = v \<and> w_status r = st0) (set_workflow_status E st v) (db_workflows s)\<rparr>))"
    by (rule ok_trans [OF V ok_insert_event])
qed

lemma start_write_ok: "ok_step U s (snd (start_write E wid w s))"
  unfolding start_write_def Let_def split_beta by (auto intro!: ok_workflow_event)

lemma pause_write_ok: "ok_step U s (snd (pause_write E wid actor w s))"
  unfolding pause_write_def Let_def split_beta
  by (auto simp: ok_refl split: sum.splits intro!: ok_workflow_event)

lemma resume_write_ok: "ok_step U s (snd (resume_write E wid actor w s))"
  unfolding resume_write_def Let_def split_beta
  by (auto simp: ok_refl split: sum.splits intro!: ok_workflow_event)

lemma manual_write_ok:
  assumes i: "db_inv U s" and t: "snap_ok s t" "t_status t = TRunning"
  shows "db_inv U (snd (manual_write E actor t s)) \<and> grows s (snd (manual_write E actor t s))"
proof -
  have "lawful s (\<lambda>x. t_id x = t_id t \<and> t_lockVersion x = t_lockVersion t) f" for f
    by (rule snap_lawful [OF i t(1)]) (simp add: t(2) isTerminalTaskStatus_def)
  then have T: "ok_step U s (s\<lparr>db_tasks := update_where (\<lambda>x. t_id x = t_id t \<and> t_lockVersion x = t_lockVersion t)
      (\<lambda>x. (set_task_status E TSucceeded (t_lockVersion t) x)\<lparr>t_actualEndUtc := Some (e_wall E)\<rparr>) (db_tasks s)\<rparr>)"
    by (intro ok_tasks) (simp_all add: row_update_defs open_status_def)
  have "ok_step U s (snd (manual_write E actor t s))"
    unfolding manual_write_def Let_def split_beta cas_task_simps
    by (simp only: if_distrib [of snd] snd_conv) (intro ok_if T ok_trans [OF T ok_insert_event])
  with i show ?thesis by (simp add: ok_step_def)
qed

section \<open>The foreach pass\<close>

lemma snap_foreach_lawful:
  assumes "db_inv U s" and "snap_ok s p" and "t_foreachConfig p \<noteq> None" and "\<And>x. P x \<Longrightarrow> t_id x = t_id p"
  shows "lawful s P f"
  unfolding lawful_def
proof (intro ballI impI)
  fix x assume x: "x \<in> set (db_tasks s)" "P x \<and> isTerminalTaskStatus (t_status x) \<and> t_foreachConfig x = None"
  from snap_same_version [OF assms(1,2) x(1)] assms(4) x(2) have "t_foreachConfig x = t_foreachConfig p"
    by (simp add: row_evolves_def)
  with assms(3) x(2) show "t_status (f x) = t_status x" by simp
qed

lemma ok_foreach_event: "ok_step U s (foreach_event E wid tid tkey k pl s)"
  unfolding foreach_event_def by (rule ok_insert_event)

lemma ok_deps: "ok_step U s (s\<lparr>db_deps := x\<rparr>)"
  by (rule ok_frame) (simp_all add: core_def recoveries_def)

lemma insert_child_ok:
  assumes "insert_child E p s = Inr s'"
  shows "ok_step U s s'"
proof -
  let ?row = "(cp_taskRow p)\<lparr>t_createdAt := e_wall E, t_updatedAt := e_wall E\<rparr>"
  have "s' = s \<or> t_id ?row \<notin> t_id ` set (db_tasks s) \<and> s' = s\<lparr>db_tasks := db_tasks s @ [?row]\<rparr>"
    using assms by (auto simp: insert_child_def Let_def list_ex_iff split: if_splits)
  then show ?thesis
  proof
    assume n: "t_id ?row \<notin> t_id ` set (db_tasks s) \<and> s' = s\<lparr>db_tasks := db_tasks s @ [?row]\<rparr>"
    have r: "recoveries s' = recoveries s" using n by (simp add: recoveries_def fun_eq_iff)
    have g: "grows s s'" unfolding grows_def using n
      by (auto intro: row_evolves_refl same_attempt_refl)
    have "db_inv U s'" if "db_inv U s"
      using that n rows_ok_new_task [OF _ conjunct1 [OF n]] unfolding db_inv_def supply_ok_def r by simp
    with g show ?thesis by (simp add: ok_step_def)
  qed (simp add: ok_refl)
qed

lemma run_all_ok:
  "(\<And>x s s'. f x s = Inr s' \<Longrightarrow> ok_step U s s') \<Longrightarrow> run_all f xs s = Inr s' \<Longrightarrow> ok_step U s s'"
proof (induction xs arbitrary: s)
  case (Cons x xs)
  from Cons.prems(2) obtain s1 where a: "f x s = Inr s1" "run_all f xs s1 = Inr s'" by (auto split: sum.splits)
  show ?case by (rule ok_trans [OF Cons.prems(1) [OF a(1)] Cons.IH [OF Cons.prems(1) a(2)]])
qed (simp add: ok_refl)

lemma insert_dependency_ok: "insert_dependency bk row dep s = Inr s' \<Longrightarrow> ok_step U s s'"
  by (auto simp: insert_dependency_def ok_refl split: option.splits if_splits intro: ok_deps)

lemma insert_child_approval_ok: "insert_child_approval E p s = Inr s' \<Longrightarrow> ok_step U s s'"
  by (auto simp: insert_child_approval_def ok_refl split: option.splits if_splits intro: ok_approvals)

lemma persistChildPlans_ok:
  assumes "persistChildPlans E plans s = Inr s'"
  shows "ok_step U s s'"
proof -
  define bk where "bk = js_map (map (\<lambda>p. (t_key (cp_taskRow p), t_id (cp_taskRow p))) plans)"
  obtain s1 s2 where a: "run_all (insert_child E) plans s = Inr s1"
    and b: "run_all (\<lambda>p. run_all (insert_dependency bk (cp_taskRow p)) (cp_dependencies p)) plans s1 = Inr s2"
    and c: "run_all (insert_child_approval E) plans s2 = Inr s'"
    using assms unfolding bk_def by (auto simp: persistChildPlans_def Let_def split: sum.splits)
  have "ok_step U s s1" by (rule run_all_ok [OF insert_child_ok a])
  moreover have "ok_step U s1 s2"
    by (rule run_all_ok [OF run_all_ok [OF insert_dependency_ok] b])
  moreover have "ok_step U s2 s'" by (rule run_all_ok [OF insert_child_approval_ok c])
  ultimately show ?thesis by (blast intro: ok_trans)
qed

lemma cas_parent_ok:
  assumes i: "db_inv U s" and p: "snap_ok s p" "t_foreachConfig p \<noteq> None" and st: "\<not> open_status st"
    and f: "\<And>t. t_status (f t) = t_status t \<and> t_lockVersion (f t) = t_lockVersion t \<and> t_id (f t) = t_id t
      \<and> t_foreachConfig (f t) = t_foreachConfig t \<and> t_workflowId (f t) = t_workflowId t
      \<and> t_maxAttempts (f t) = t_maxAttempts t \<and> t_type (f t) = t_type t"
  shows "ok_step U s (cas_parent E p f st s)"
  unfolding cas_parent_def cas_task_simps
proof (rule ok_tasks)
  show "lawful s (\<lambda>t. t_id t = t_id p \<and> t_lockVersion t = t_lockVersion p) (\<lambda>t. f (set_task_status E st (t_lockVersion t) t))"
    by (rule snap_foreach_lawful [OF i p]) simp
qed (use f st in \<open>simp_all add: row_update_defs\<close>)

lemma failure_ok:
  assumes i: "db_inv U s" and p: "snap_ok s p" "t_foreachConfig p \<noteq> None"
    and r: "persistForeachMaterializationFailure E wid p code pl s = Inr s'"
  shows "db_inv U s' \<and> grows s s'"
proof -
  let ?s = "foreach_event E wid (t_id p) (t_key p) ''foreach_materialization_failed'' pl s"
  let ?f = "\<lambda>t. t\<lparr>t_metadata := with_key ''foreach_materialization_error'' (JStr code) (t_metadata t)\<rparr>"
  have s': "s' = cas_parent E p ?f TFailed ?s"
    using r by (auto simp: persistForeachMaterializationFailure_def split: sum.splits)
  note E = ok_stepD [OF ok_foreach_event i, of E wid "t_id p" "t_key p" "''foreach_materialization_failed''" pl]
  have "ok_step U ?s s'"
    unfolding s' by (rule cas_parent_ok [OF E(1) snap_grows [OF p(1) E(2)] p(2)]) (simp_all add: open_status_def)
  from ok_stepD [OF this E(1)] grows_trans [OF E(2)] show ?thesis by blast
qed

lemma event_parent_ok:
  assumes i: "db_inv U s0" and g: "db_inv U s" "grows s0 s" and p: "snap_ok s0 p" "t_foreachConfig p \<noteq> None" and st: "\<not> open_status st"
    and f: "\<And>t. t_status (f t) = t_status t \<and> t_lockVersion (f t) = t_lockVersion t \<and> t_id (f t) = t_id t
      \<and> t_foreachConfig (f t) = t_foreachConfig t \<and> t_workflowId (f t) = t_workflowId t
      \<and> t_maxAttempts (f t) = t_maxAttempts t \<and> t_type (f t) = t_type t"
  shows "db_inv U (foreach_event E wid tid tk k pl (cas_parent E p f st s)) \<and> grows s0 (foreach_event E wid tid tk k pl (cas_parent E p f st s))"
proof -
  have "ok_step U s (foreach_event E wid tid tk k pl (cas_parent E p f st s))"
    by (rule ok_trans [OF cas_parent_ok [OF g(1) snap_grows [OF p(1) g(2)] p(2) st f] ok_foreach_event])
  from ok_stepD [OF this g(1)] grows_trans [OF g(2)] show ?thesis by blast
qed

lemma handleIdleParent_ok:
  assumes i: "db_inv U s" and p: "snap_ok s p" "t_foreachConfig p \<noteq> None"
    and r: "handleIdleParent E wid p src fe ids s = Inr s'"
  shows "db_inv U s' \<and> grows s s'"
proof -
  have skip: "db_inv U (skip_parent E wid p src reason s) \<and> grows s (skip_parent E wid p src reason s)" for reason
    unfolding skip_parent_def by (rule event_parent_ok [OF i i grows_refl p]) (simp_all add: open_status_def)
  have succ: "db_inv U s' \<and> grows s s'" if "idle_source_succeeded E wid p src fe ids s = Inr s'"
  proof (cases "materializeForeachChildren E wid (t_id p) (t_key p) fe (readLatestSucceededAttemptOutput (t_id src) s) ids")
    case (Inl e)
    with that show ?thesis using failure_ok [OF i p] by (simp add: idle_source_succeeded_def)
  next
    case (Inr plans)
    show ?thesis
    proof (cases "plans = []")
      case True
      from that Inr True have s': "s' = foreach_event E wid (t_id p) (t_key p) ''foreach_zero_children''
                        (JObj [(''sourceTaskKey'', JStr (t_key src))])
                        (cas_parent E p (\<lambda>t. t\<lparr>t_actualStartUtc := Some (e_wall E), t_actualEndUtc := Some (e_wall E)\<rparr>)
                           TSucceeded s)"
        by (auto simp: idle_source_succeeded_def split: sum.splits)
      show ?thesis unfolding s' by (rule event_parent_ok [OF i i grows_refl p]) (simp_all add: open_status_def)
    next
      case False
      with that Inr obtain s1 where s1: "persistChildPlans E plans s = Inr s1"
        and s': "s' = foreach_event E wid (t_id p) (t_key p) ''foreach_materialized''
                        (JObj [(''sourceTaskKey'', JStr (t_key src)), (''childCount'', JNum (int (length plans)))])
                        (cas_parent E p (\<lambda>t. t\<lparr>t_actualStartUtc := Some (e_wall E)\<rparr>) TRunning s1)"
        by (auto simp: idle_source_succeeded_def split: sum.splits)
      note S1 = ok_stepD [OF persistChildPlans_ok [OF s1] i]
      show ?thesis unfolding s' by (rule event_parent_ok [OF i S1 p]) (simp_all add: open_status_def)
    qed
  qed
  from r i succ skip show ?thesis
    by (cases "t_status src") (auto simp: handleIdleParent_def grows_refl split: sum.splits if_splits)
qed

lemma ok_cancelForeachChildren: "ok_step U s (snd (cancelForeachChildren E wid pid scope reason s))"
proof -
  let ?hit = "\<lambda>t. t_workflowId t = wid \<and> t_parentTaskId t = Some pid \<and> t_status t \<in> set (cancellable scope)"
  have nt: "t_status t \<in> set (cancellable scope) \<Longrightarrow> \<not> isTerminalTaskStatus (t_status t)" for t :: task_row
    by (cases scope) (auto simp: isTerminalTaskStatus_def)
  have T: "ok_step U s (s\<lparr>db_tasks := update_where ?hit (\<lambda>t. set_task_status E TCancelled (t_lockVersion t) t) (db_tasks s)\<rparr>)"
    by (rule ok_tasks) (auto simp: row_update_defs lawful_def open_status_def dest: nt)
  show ?thesis unfolding cancelForeachChildren_def Let_def
    by (simp only: if_distrib [of snd] snd_conv) (intro ok_if T ok_trans [OF T ok_fold] ok_foreach_event)
qed

lemma ok_cancel_by_policy: "ok_step U s (snd (cancel_by_policy E wid pid policy s))"
  by (cases policy) (simp_all add: cancel_by_policy_def split_beta Let_def ok_cancelForeachChildren ok_refl)

lemma ok_handleRunningParent: "ok_step U s (snd (handleRunningParent E wid p fe ts s))"
proof (cases "filter (\<lambda>t. t_parentTaskId t = Some (t_id p)) ts = []")
  case True
  then show ?thesis by (simp add: handleRunningParent_def ok_refl)
next
  case False
  let ?cs = "filter (\<lambda>t. t_parentTaskId t = Some (t_id p)) ts"
  define policy where "policy = nullish (fe_rollupPolicy fe) AnyFails"
  define af where "af = list_ex (\<lambda>c. t_status c = TFailed) ?cs"
  define as where "as = list_ex (\<lambda>c. t_status c = TSucceeded) ?cs"
  define s1 where "s1 = (if desired_meta af as (t_metadata p) \<noteq> t_metadata p
                      then s\<lparr>db_tasks := update_where (\<lambda>t. t_id t = t_id p)
                             (\<lambda>t. t\<lparr>t_metadata := desired_meta af as (t_metadata p), t_lockVersion := t_lockVersion t + 1,
                                    t_updatedAt := e_wall E\<rparr>) (db_tasks s)\<rparr>
                      else s)"
  define s2 where "s2 = snd (if af then cancel_by_policy E wid (t_id p) policy s1 else ([], s1))"
  define final where "final = settled_parent_status policy af as"
  define s3 where "s3 = s2\<lparr>db_tasks := update_where (\<lambda>t. t_id t = t_id p \<and> t_status t = TRunning)
                             (\<lambda>t. (set_task_status E final (t_lockVersion t) t)\<lparr>t_actualEndUtc := Some (e_wall E)\<rparr>)
                             (db_tasks s2)\<rparr>"
  have M: "ok_step U s (s\<lparr>db_tasks := update_where (\<lambda>t. t_id t = t_id p)
        (\<lambda>t. t\<lparr>t_metadata := m, t_lockVersion := t_lockVersion t + 1, t_updatedAt := e_wall E\<rparr>) (db_tasks s)\<rparr>)" for m
    by (rule ok_tasks) (simp_all add: row_update_defs lawful_def)
  have 1: "ok_step U s s1" unfolding s1_def by (intro ok_if M ok_refl)
  have 2: "ok_step U s1 s2" unfolding s2_def by (simp add: ok_cancel_by_policy ok_refl)
  have "\<not> open_status final" by (cases policy) (simp_all add: final_def open_status_def)
  then have 3: "ok_step U s2 s3" unfolding s3_def
    by (intro ok_tasks) (auto simp: row_update_defs lawful_def isTerminalTaskStatus_def)
  have R: "snd (handleRunningParent E wid p fe ts s) =
    (if \<not> list_all (\<lambda>c. isTerminalTaskStatus (t_status c)) ?cs then s2
     else foreach_event E wid (t_id p) (t_key p) ''foreach_settled''
                        (JObj [(''policy'', JStr (policy_text policy)), (''finalStatus'', JStr (task_status_text final)),
                               (''anyFailed'', JBool af), (''anySucceeded'', JBool as),
                               (''childCount'', JNum (int (length ?cs)))]) s3)"
    using False unfolding handleRunningParent_def s3_def s2_def s1_def final_def policy_def af_def as_def Let_def split_beta
    by (simp only: if_False if_distrib [of snd] snd_conv)
  show ?thesis unfolding R
    by (intro ok_if ok_trans [OF 1 2] ok_trans [OF ok_trans [OF 1 2] ok_trans [OF 3 ok_foreach_event]])
qed

lemma foreach_parent_step_ok:
  assumes i: "db_inv U (snd st)" and p: "snap_ok (snd st) p"
    and r: "foreach_parent_step E wid ts p st = Inr st'"
  shows "db_inv U (snd st') \<and> grows (snd st) (snd st')"
proof (cases "t_foreachConfig p")
  case None
  with r i show ?thesis by (simp add: foreach_parent_step_def split_beta Let_def grows_refl)
next
  case (Some fe)
  obtain cl s where st: "st = (cl, s)" by fastforce
  have fp: "t_foreachConfig p \<noteq> None" using Some by simp
  have i': "db_inv U s" and p': "snap_ok s p" using i p by (simp_all add: st)
  note R = ok_stepD [OF ok_handleRunningParent i']
  from r Some show ?thesis
    using failure_ok [OF i' p' fp] handleIdleParent_ok [OF i' p' fp] R i' grows_refl
    by (auto simp: foreach_parent_step_def st Let_def split_beta map_sum_def split: option.splits if_splits sum.splits)
qed

lemma foreach_loop_ok:
  "foreach_parents_loop E wid ts ps st = Inr st' \<Longrightarrow> db_inv U (snd st) \<Longrightarrow> \<forall>p \<in> set ps. snap_ok (snd st) p \<Longrightarrow>
     db_inv U (snd st') \<and> grows (snd st) (snd st')"
proof (induction ps arbitrary: st)
  case Nil
  then show ?case by (simp add: grows_refl)
next
  case (Cons p ps)
  from Cons.prems(1) obtain st1 where a: "foreach_parent_step E wid ts p st = Inr st1"
    and b: "foreach_parents_loop E wid ts ps st1 = Inr st'" by (auto split: sum.splits)
  have S: "db_inv U (snd st1)" "grows (snd st) (snd st1)"
    using foreach_parent_step_ok [OF Cons.prems(2) _ a] Cons.prems(3) by simp_all
  have "db_inv U (snd st') \<and> grows (snd st1) (snd st')"
    by (rule Cons.IH [OF b S(1)]) (use Cons.prems(3) snap_grows [OF _ S(2)] in auto)
  then show ?case using grows_trans [OF S(2)] by blast
qed

lemma foreach_ok:
  assumes i: "db_inv U s" and r: "reconcileForeachParents E wid s = Inr (cl, s')"
  shows "db_inv U s' \<and> grows s s'"
proof (cases "\<exists>w. find_workflow s wid = Some w \<and> w_status w = WActive")
  case False
  with r have "s' = s" by (auto simp: reconcileForeachParents_def split: option.splits if_splits)
  with i show ?thesis by (simp add: grows_refl)
next
  case True
  then have "foreach_parents_loop E wid (tasks_of s wid) (filter (\<lambda>t. t_foreachConfig t \<noteq> None) (tasks_of s wid)) ([], s) = Inr (cl, s')"
    using r by (auto simp: reconcileForeachParents_def Let_def)
  from foreach_loop_ok [OF this, of U] i show ?thesis by (auto simp: tasks_of_def intro: snap_current)
qed

end
