(* ===== verification/Wf_System.thy ===== *)
theory Wf_System
  imports Wf_Invariant
begin

text \<open>
  Executions of the engine: workers, pollers, heartbeats and users interleave at the granularity
  of transactions. The step relation \<open>sys_step\<close> has one rule per operation; the invariant of the
  database and of the rows held in memory is kept by every rule, and the theorems state what holds
  in every execution. A reconcile tick is such an execution.
\<close>

section \<open>Executions\<close>

text \<open>
  A state of the running system: the database, the claims handed to dispatchers whose outcome is
  still to be recorded (or recorded already: an outcome may arrive twice), the child runs polled
  outside the lock, and the manual tasks read by a completion that has not written yet.
\<close>

record sys =
  y_db :: db
  y_claims :: "claimed_task list"
  y_polled :: "polled list"
  y_manual :: "task_row list"

text \<open>
  Any number of workers, heartbeats and users act in any order; every transaction is atomic.
  \<open>U\<close> is the stream of \<^verbatim>\<open>randomUUID()\<close> values. Start, pause and resume write a workflow row read at
  any earlier time, so the row they carry is arbitrary. Decisions on approvals (and every other
  edit of the approval table) are arbitrary.
\<close>

inductive sys_step :: "(nat \<Rightarrow> string) \<Rightarrow> sys \<Rightarrow> sys \<Rightarrow> bool" for U where
  step_claim: "e_uuid E = U \<Longrightarrow> claimReadyTasks E wid now (y_db y) = (r, s') \<Longrightarrow>
     sys_step U y (y\<lparr>y_db := s', y_claims := y_claims y @ cr_claimed r\<rparr>)"
| step_outcomes: "set (map fst rs) \<subseteq> set (y_claims y) \<Longrightarrow>
     sys_step U y (y\<lparr>y_db := snd (recordOutcomes E wid rs now prov (y_db y))\<rparr>)"
| step_heartbeat: "c \<in> set (y_claims y) \<Longrightarrow>
     sys_step U y (y\<lparr>y_db := heartbeatDispatchLease E (t_id (c_task c)) (c_leaseToken c) (y_db y)\<rparr>)"
| step_poll_read: "sys_step U y (y\<lparr>y_polled := y_polled y @ pollRead f wid (y_db y)\<rparr>)"
| step_poll_settle: "set ps \<subseteq> set (y_polled y) \<Longrightarrow>
     sys_step U y (y\<lparr>y_db := snd (pollSettle E wid now ps (y_db y))\<rparr>)"
| step_foreach: "reconcileForeachParents E wid (y_db y) = Inr (runs, s') \<Longrightarrow> sys_step U y (y\<lparr>y_db := s'\<rparr>)"
| step_rejected: "sys_step U y (y\<lparr>y_db := snd (applyRejectedApprovalPolicies E wid (y_db y))\<rparr>)"
| step_invalidate: "sys_step U y (y\<lparr>y_db := invalidateStaleApprovals E wid now (y_db y)\<rparr>)"
| step_solicit: "sys_step U y (y\<lparr>y_db := snd (solicitApprovals E cal wid now (y_db y))\<rparr>)"
| step_finalize: "sys_step U y (y\<lparr>y_db := snd (finalizeWorkflow E wid (y_db y))\<rparr>)"
| step_start: "sys_step U y (y\<lparr>y_db := snd (start_write E wid w (y_db y))\<rparr>)"
| step_pause: "sys_step U y (y\<lparr>y_db := snd (pause_write E wid actor w (y_db y))\<rparr>)"
| step_resume: "sys_step U y (y\<lparr>y_db := snd (resume_write E wid actor w (y_db y))\<rparr>)"
| step_cancel: "sys_step U y (y\<lparr>y_db := snd (cancelWorkflow E wid actor (y_db y))\<rparr>)"
| step_manual_begin: "manual_read tid (y_db y) = Inr t \<Longrightarrow> sys_step U y (y\<lparr>y_manual := t # y_manual y\<rparr>)"
| step_manual_end: "t \<in> set (y_manual y) \<Longrightarrow> sys_step U y (y\<lparr>y_db := snd (manual_write E actor t (y_db y))\<rparr>)"
| step_decide: "sys_step U y (y\<lparr>y_db := (y_db y)\<lparr>db_approvals := aps\<rparr>\<rparr>)"

definition sys_inv :: "(nat \<Rightarrow> string) \<Rightarrow> sys \<Rightarrow> bool" where
  "sys_inv U y \<longleftrightarrow> db_inv U (y_db y)
     \<and> (\<forall>c \<in> set (y_claims y). claim_ok (y_db y) c \<and> (\<exists>k < db_uuids (y_db y). c_leaseToken c = U k))
     \<and> distinct (map c_leaseToken (y_claims y))
     \<and> (\<forall>p \<in> set (y_polled y). poll_ok (y_db y) p)
     \<and> (\<forall>t \<in> set (y_manual y). snap_ok (y_db y) t \<and> t_status t = TRunning)"

lemma sys_inv_db:
  assumes "sys_inv U y" and "db_inv U s'" and "grows (y_db y) s'"
  shows "sys_inv U (y\<lparr>y_db := s'\<rparr>)"
proof -
  have "db_uuids (y_db y) \<le> db_uuids s'" using assms(3) by (simp add: grows_def)
  then show ?thesis
    using assms claim_grows [OF _ assms(3)] poll_grows [OF _ assms(3)] snap_grows [OF _ assms(3)]
    unfolding sys_inv_def by simp (meson less_le_trans)
qed

lemma sys_step_inv:
  assumes "sys_step U y y'" and "sys_inv U y"
  shows "sys_inv U y' \<and> grows (y_db y) (y_db y')"
proof -
  have i: "db_inv U (y_db y)" using assms(2) by (simp add: sys_inv_def)
  have db: "sys_inv U (y\<lparr>y_db := s'\<rparr>) \<and> grows (y_db y) (y_db (y\<lparr>y_db := s'\<rparr>))"
    if "db_inv U s' \<and> grows (y_db y) s'" for s'
    using sys_inv_db [OF assms(2)] that by simp
  have ok: "sys_inv U (y\<lparr>y_db := s'\<rparr>) \<and> grows (y_db y) (y_db (y\<lparr>y_db := s'\<rparr>))"
    if "ok_step U (y_db y) s'" for s'
    by (rule db) (use that i in \<open>simp add: ok_step_def\<close>)
  show ?thesis using assms(1)
  proof cases
    case (step_claim E wid now r s')
    from claimReadyTasks_ok [OF step_claim(2) i step_claim(3)]
    have C: "db_inv U s'" "grows (y_db y) s'" "\<forall>c \<in> set (cr_claimed r). claim_ok s' c \<and> drawn U (y_db y) s' c"
      "distinct (map c_leaseToken (cr_claimed r))" by auto
    have Y: "sys_inv U (y\<lparr>y_db := s'\<rparr>)" by (rule sys_inv_db [OF assms(2) C(1,2)])
    have inj: "inj U" using C(1) by (simp add: db_inv_def supply_ok_def)
    have "c_leaseToken c \<noteq> c_leaseToken d" if cd: "c \<in> set (y_claims y)" "d \<in> set (cr_claimed r)" for c d
    proof -
      obtain k where "k < db_uuids (y_db y)" "c_leaseToken c = U k" using cd(1) assms(2) by (auto simp: sys_inv_def)
      moreover obtain k' where "db_uuids (y_db y) \<le> k'" "c_leaseToken d = U k'"
        using cd(2) C(3) by (auto simp: drawn_def)
      ultimately show ?thesis using injD [OF inj] by fastforce
    qed
    then have "c_leaseToken ` set (y_claims y) \<inter> c_leaseToken ` set (cr_claimed r) = {}" by auto
    then show ?thesis using Y C unfolding step_claim(1) sys_inv_def by (auto simp: drawn_def)
  next
    case (step_outcomes rs E wid now prov)
    have "\<forall>r \<in> set rs. claim_ok (y_db y) (fst r)"
      using step_outcomes(2) assms(2) by (auto simp: sys_inv_def)
    from recordOutcomes_ok [OF i this] show ?thesis unfolding step_outcomes(1) by (rule db)
  next
    case (step_poll_read f wid)
    then show ?thesis using assms(2) pollRead_ok by (auto simp: sys_inv_def grows_refl)
  next
    case (step_poll_settle ps E wid now)
    have "\<forall>p \<in> set ps. poll_ok (y_db y) p" using step_poll_settle(2) assms(2) by (auto simp: sys_inv_def)
    from pollSettle_ok [OF i this] show ?thesis unfolding step_poll_settle(1) by (rule db)
  next
    case (step_manual_begin tid t)
    then have "t \<in> set (db_tasks (y_db y))" "t_status t = TRunning"
      by (auto simp: manual_read_def dest!: find_task_Some split: option.splits if_splits)
    then show ?thesis using assms(2) snap_current unfolding step_manual_begin(1) by (simp add: sys_inv_def grows_refl)
  next
    case (step_manual_end t E actor)
    show ?thesis unfolding step_manual_end(1)
      by (rule db, rule manual_write_ok [OF i]) (use step_manual_end(2) assms(2) in \<open>auto simp: sys_inv_def\<close>)
  next
    case (step_decide aps)
    show ?thesis unfolding step_decide(1) by (rule ok) (rule ok_approvals)
  qed (simp_all only: ok [OF ok_heartbeat] ok [OF invalidate_ok] ok [OF solicit_ok] ok [OF start_write_ok] ok [OF pause_write_ok]
        ok [OF resume_write_ok] ok [OF cancelWorkflow_ok] db [OF foreach_ok [OF i]] db [OF rejected_ok [OF i]]
        db [OF finalize_ok [OF i]] simp_thms)
qed

lemma sys_run_inv:
  assumes "(sys_step U)\<^sup>*\<^sup>* y y'" and "sys_inv U y"
  shows "sys_inv U y' \<and> grows (y_db y) (y_db y')"
  using assms
proof (induction rule: rtranclp_induct)
  case (step a b)
  with sys_step_inv [OF step.hyps(2)] show ?case by (blast intro: grows_trans)
qed (simp add: grows_refl)

text \<open>An initial database: nothing has been dispatched yet, and the platform's ids do not repeat.\<close>

definition initial :: "(nat \<Rightarrow> string) \<Rightarrow> db \<Rightarrow> bool" where
  "initial U s \<longleftrightarrow> inj U \<and> db_attempts s = [] \<and> db_leases s = []
     \<and> distinct (map t_id (db_tasks s)) \<and> distinct (map w_id (db_workflows s))"

definition start_sys :: "db \<Rightarrow> sys" where
  "start_sys s = \<lparr>y_db = s, y_claims = [], y_polled = [], y_manual = []\<rparr>"

lemma initial_inv: "initial U s \<Longrightarrow> sys_inv U (start_sys s)"
  by (auto simp: initial_def start_sys_def sys_inv_def db_inv_def rows_ok_def supply_ok_def attempts_for_def no_running_def
      max_attempts_def)

section \<open>Ticks are executions\<close>

abbreviation sys_run :: "(nat \<Rightarrow> string) \<Rightarrow> sys \<Rightarrow> sys \<Rightarrow> bool" where
  "sys_run U \<equiv> (sys_step U)\<^sup>*\<^sup>*"

text \<open>A run from \<open>y\<close> that ends with the database \<open>s\<close>.\<close>

definition leads :: "(nat \<Rightarrow> string) \<Rightarrow> sys \<Rightarrow> db \<Rightarrow> bool" where
  "leads U y s \<longleftrightarrow> (\<exists>y'. sys_run U y y' \<and> y_db y' = s)"

lemma leads_refl: "leads U y (y_db y)"
  by (auto simp: leads_def)

lemma leads_step: "leads U y s \<Longrightarrow> (\<And>z. y_db z = s \<Longrightarrow> leads U z s') \<Longrightarrow> leads U y s'"
  unfolding leads_def by (elim exE conjE) (metis rtranclp_trans)

lemma leads_one: "sys_step U y y' \<Longrightarrow> y_db y' = s \<Longrightarrow> leads U y s"
  by (auto simp: leads_def)

lemma poll_leads: "leads U y (snd (pollRunningAgentTasks E wid now f (y_db y)))"
proof -
  let ?z = "y\<lparr>y_polled := y_polled y @ pollRead f wid (y_db y)\<rparr>"
  have "sys_step U y ?z" by (rule step_poll_read)
  moreover have "sys_step U ?z (?z\<lparr>y_db := snd (pollSettle E wid now (pollRead f wid (y_db y)) (y_db ?z))\<rparr>)"
    by (rule step_poll_settle) simp
  ultimately have "sys_run U y (?z\<lparr>y_db := snd (pollSettle E wid now (pollRead f wid (y_db y)) (y_db ?z))\<rparr>)"
    by (blast intro: rtranclp.rtrancl_into_rtrancl r_into_rtranclp)
  then show ?thesis unfolding leads_def by (intro exI conjI) (assumption, simp add: pollRunningAgentTasks_def)
qed

lemma dispatch_loop_leads:
  assumes u: "\<And>k. e_uuid (h_env H k) = U"
  shows "leads U y (snd (snd (dispatch_loop H wid now n k tot dead (y_db y))))"
proof (induction n arbitrary: y k tot dead)
  case 0
  then show ?case by (simp add: leads_refl)
next
  case (Suc n)
  obtain r s1 where c: "claimReadyTasks (h_env H k) wid now (y_db y) = (r, s1)" by fastforce
  let ?z = "y\<lparr>y_db := s1, y_claims := y_claims y @ cr_claimed r\<rparr>"
  have z: "sys_step U y ?z" by (rule step_claim [OF u c])
  consider (inactive) "cr_inactive r" | (work) c0 cs prov where "\<not> cr_inactive r" "cr_claimed r = c0 # cs" "cr_provenance r = Some prov"
    | (quiet) "\<not> cr_inactive r" "cr_claimed r = [] \<or> cr_provenance r = None"
    by (cases "cr_claimed r"; cases "cr_provenance r") auto
  then show ?case
  proof cases
    case inactive
    then show ?thesis using leads_one [OF z] by (simp add: c)
  next
    case (work c0 cs prov)
    define rs where "rs = map (dispatch_claim (h_executors H) prov) (c0 # cs)"
    obtain dd s2 where ro: "recordOutcomes (h_env H (k + 1)) wid rs now prov s1 = (dd, s2)" by fastforce
    have "map fst rs = c0 # cs" by (simp add: rs_def dispatch_claim_def Let_def comp_def)
    then have "set (map fst rs) \<subseteq> set (y_claims ?z)" using work(2) by auto
    from step_outcomes [OF this, of U "h_env H (k + 1)" wid now prov] ro
    have z2: "sys_step U ?z (?z\<lparr>y_db := s2\<rparr>)" by simp
    have "leads U y s2" using z z2 unfolding leads_def
      by (intro exI [of _ "?z\<lparr>y_db := s2\<rparr>"]) auto
    moreover have "leads U z' (snd (snd (dispatch_loop H wid now (Suc n) k tot dead (y_db y))))" if "y_db z' = s2" for z'
      using Suc.IH [of z' "k + 2" "tot + length (c0 # cs)" "dead @ dd"] work ro that by (simp add: c Let_def rs_def)
    ultimately show ?thesis by (rule leads_step)
  next
    case quiet
    let ?f = "finalizeWorkflow (h_env H (k + 1)) wid s1"
    have "sys_step U ?z (?z\<lparr>y_db := snd (finalizeWorkflow (h_env H (k + 1)) wid (y_db ?z))\<rparr>)" by (rule step_finalize)
    with z have "leads U y (snd ?f)" unfolding leads_def
      by (intro exI [of _ "?z\<lparr>y_db := snd ?f\<rparr>"]) auto
    moreover have "snd (snd (dispatch_loop H wid now (Suc n) k tot dead (y_db y))) = snd ?f"
      using quiet by (auto simp: c Let_def split_beta split: list.splits option.splits)
    ultimately show ?thesis by simp
  qed
qed

lemma tick_leads:
  assumes u: "\<And>k. e_uuid (h_env H k) = U"
  shows "leads U y (snd (reconcileWorkflow H wid now (y_db y)))"
proof -
  define s1 where "s1 = snd (case h_getChildRunStatus H of None \<Rightarrow> ([], y_db y)
                        | Some f \<Rightarrow> pollRunningAgentTasks (h_env H 0) wid now f (y_db y))"
  define d1 where "d1 = fst (case h_getChildRunStatus H of None \<Rightarrow> ([], y_db y)
                        | Some f \<Rightarrow> pollRunningAgentTasks (h_env H 0) wid now f (y_db y))"
  define s2 where "s2 = snd (case reconcileForeachParents (h_env H 1) wid s1 of Inl _ \<Rightarrow> ([], s1) | Inr r \<Rightarrow> r)"
  define s3 where "s3 = snd (applyRejectedApprovalPolicies (h_env H 2) wid s2)"
  define s4 where "s4 = invalidateStaleApprovals (h_env H 3) wid now s3"
  define l where "l = dispatch_loop H wid now 200 4 0 d1 s4"
  have 1: "leads U y s1"
    unfolding s1_def by (cases "h_getChildRunStatus H") (simp_all add: leads_refl poll_leads)
  have 2: "leads U z s2" if z: "y_db z = s1" for z
  proof (cases "reconcileForeachParents (h_env H 1) wid s1")
    case (Inl e)
    with z leads_refl [of U z] show ?thesis by (simp add: s2_def)
  next
    case (Inr r)
    then have "sys_step U z (z\<lparr>y_db := snd r\<rparr>)" by (intro step_foreach [of "h_env H 1" wid z "fst r"]) (simp add: z)
    from leads_one [OF this] Inr show ?thesis by (simp add: s2_def)
  qed
  have 3: "leads U z s3" if "y_db z = s2" for z
    using leads_one [OF step_rejected [of U z "h_env H 2" wid]] that by (simp add: s3_def)
  have 4: "leads U z s4" if "y_db z = s3" for z
    using leads_one [OF step_invalidate [of U z "h_env H 3" wid now]] that by (simp add: s4_def)
  have 5: "leads U z (snd (snd l))" if "y_db z = s4" for z
    using dispatch_loop_leads [OF u, of z wid now 200 4 0 d1] that by (simp add: l_def)
  have 6: "leads U z (snd (solicitApprovals (h_env H (fst (snd l))) (h_calendar H) wid now (snd (snd l))))" if "y_db z = snd (snd l)" for z
    using leads_one [OF step_solicit [of U z "h_env H (fst (snd l))" "h_calendar H" wid now]] that by simp
  have R: "snd (reconcileWorkflow H wid now (y_db y)) =
      snd (solicitApprovals (h_env H (fst (snd l))) (h_calendar H) wid now (snd (snd l)))"
    unfolding reconcileWorkflow_def l_def s4_def s3_def s2_def s1_def d1_def by (simp add: Let_def split_beta)
  show ?thesis unfolding R
    by (rule leads_step [OF leads_step [OF leads_step [OF leads_step [OF leads_step [OF 1 2] 3] 4] 5] 6])
qed

section \<open>What holds in every execution\<close>

lemma reachable_inv:
  assumes "initial U s0" and "sys_run U (start_sys s0) y"
  shows "sys_inv U y"
  using sys_run_inv [OF assms(2) initial_inv [OF assms(1)]] by simp

lemma at_most_one:
  assumes "distinct xs" and "\<And>x y. x \<in> set xs \<Longrightarrow> y \<in> set xs \<Longrightarrow> P x \<Longrightarrow> P y \<Longrightarrow> x = y"
  shows "length (filter P xs) \<le> 1"
proof (rule ccontr)
  assume "\<not> length (filter P xs) \<le> 1"
  then obtain a b r where f: "filter P xs = a # b # r"
    by (cases "filter P xs" rule: remdups_adj.cases) auto
  then have "set (a # b # r) = {x \<in> set xs. P x}" by (metis set_filter)
  then have "a = b" using assms(2) [of a b] by auto
  moreover have "distinct (filter P xs)" using assms(1) by simp
  ultimately show False by (simp add: f)
qed

text \<open>
  C1. Attempts. In every execution the attempts of a task are numbered 1, 2, ... without gaps, at
  most one of them runs, and none runs while the task is idle, scheduled or pending approval; so a
  task is never dispatched while an earlier attempt of it is still open.
\<close>

theorem attempt_discipline:
  assumes "initial U s0" and "sys_run U (start_sys s0) y"
  shows "map a_attemptNo (attempts_for (db_attempts (y_db y)) tid) = [1..<Suc (length (attempts_for (db_attempts (y_db y)) tid))]
    \<and> length (filter (\<lambda>a. a_status a = AttRunning) (attempts_for (db_attempts (y_db y)) tid)) \<le> 1
    \<and> list_all (\<lambda>t. open_status (t_status t) \<longrightarrow> no_running (db_attempts (y_db y)) (t_id t)) (db_tasks (y_db y))"
proof -
  have ok: "rows_ok (recoveries (y_db y)) (db_tasks (y_db y)) (db_attempts (y_db y))"
    using reachable_inv [OF assms] by (simp add: sys_inv_def db_inv_def)
  have "distinct (attempts_for (db_attempts (y_db y)) tid)"
    using rows_okD(2) [OF ok] by (auto simp: attempts_for_def distinct_map)
  then have "length (filter (\<lambda>a. a_status a = AttRunning) (attempts_for (db_attempts (y_db y)) tid)) \<le> 1"
    by (rule at_most_one) (auto simp: attempts_for_def intro: running_unique [OF ok])
  then show ?thesis using rows_okD(4) [OF ok] rows_okD(6) [OF ok] by (simp add: list_all_iff)
qed

text \<open>
  C2. Retry budget. A task has at most \<open>max 1 maxAttempts\<close> attempts (3 where it declares none), plus
  one for each crash recovery recorded for it, which re-schedules the task without looking at
  the budget.
\<close>

theorem retry_budget:
  assumes "initial U s0" and "sys_run U (start_sys s0) y"
  shows "list_all (\<lambda>t. length (attempts_for (db_attempts (y_db y)) (t_id t)) \<le> max_attempts t + recoveries (y_db y) (t_id t))
           (db_tasks (y_db y))"
  using reachable_inv [OF assms] rows_okD(7) by (fastforce simp: sys_inv_def db_inv_def list_all_iff)

text \<open>
  C3. One dispatcher per task. Claims never share a lease token, a task has at most one lease, and so
  of all claims ever handed out for a task at most one can still have its outcome recorded.
\<close>

theorem single_dispatcher:
  assumes "initial U s0" and "sys_run U (start_sys s0) y"
  shows "distinct (map c_leaseToken (y_claims y)) \<and> distinct (map l_taskId (db_leases (y_db y)))
    \<and> length (filter (\<lambda>c. t_id (c_task c) = tid \<and> map_option l_token (find_lease (y_db y) tid) = Some (c_leaseToken c)) (y_claims y)) \<le> 1"
proof -
  have i: "sys_inv U y" by (rule reachable_inv [OF assms])
  then have d: "distinct (map c_leaseToken (y_claims y))" by (simp add: sys_inv_def)
  then have "distinct (y_claims y)" by (simp add: distinct_map)
  then have "length (filter (\<lambda>c. t_id (c_task c) = tid \<and> map_option l_token (find_lease (y_db y) tid) = Some (c_leaseToken c)) (y_claims y)) \<le> 1"
    by (rule at_most_one) (use d in \<open>auto simp: distinct_map inj_on_def\<close>)
  with d i show ?thesis by (simp add: sys_inv_def db_inv_def)
qed

text \<open>
  C4. Terminal tasks. A task that is succeeded, failed, skipped or cancelled keeps that status for
  ever, whatever workers, pollers, late outcomes and users do; foreach parents are exempt.
\<close>

theorem terminal_task_absorbing:
  assumes "initial U s0" and "sys_run U (start_sys s0) y" and "sys_run U y y'"
    and "t \<in> set (db_tasks (y_db y))" and "isTerminalTaskStatus (t_status t)" and "t_foreachConfig t = None"
  shows "map_option t_status (find_task (y_db y') (t_id t)) = Some (t_status t)"
proof -
  have i: "sys_inv U y'" and g: "grows (y_db y) (y_db y')"
    using sys_run_inv [OF assms(3) reachable_inv [OF assms(1,2)]] by auto
  from g assms(4) obtain t' where t': "t' \<in> set (db_tasks (y_db y'))" "row_evolves t t'"
    unfolding grows_def by blast
  then have e: "t_id t' = t_id t" "t_status t' = t_status t" using assms(5,6) by (simp_all add: row_evolves_def)
  have d: "distinct (map t_id (db_tasks (y_db y')))" using i by (simp add: sys_inv_def db_inv_def rows_ok_def)
  from t'(1) e(1) obtain u where u: "find_task (y_db y') (t_id t) = Some u"
    unfolding find_task_def by (metis (mono_tags, lifting) find_None_iff not_None_eq)
  from find_task_Some [OF u] t'(1) e(1) d have "u = t'" by (auto simp: distinct_map inj_on_def)
  with u e show ?thesis by simp
qed

text \<open>
  C5. Workflow status. In every execution the status of a workflow moves along the transition matrix
  only, and a completed, failed or cancelled workflow stays so.
\<close>

theorem workflow_follows_matrix:
  assumes "initial U s0" and "sys_run U (start_sys s0) y" and "sys_run U y y'"
  shows "list_all2 (\<lambda>w w'. w_id w' = w_id w \<and> wf_path (w_status w) (w_status w')
           \<and> (isTerminalWorkflowStatus (w_status w) \<longrightarrow> w_status w' = w_status w))
         (db_workflows (y_db y)) (db_workflows (y_db y'))"
proof -
  have f: "wf_follow (db_workflows (y_db y)) (db_workflows (y_db y'))"
    using sys_run_inv [OF assms(3) reachable_inv [OF assms(1,2)]] by (simp add: grows_def)
  have stay: "b = a" if "wf_path a b" "isTerminalWorkflowStatus a" for a b
    using that unfolding wf_path_def
    by (induction rule: rtranclp_induct)
      (auto simp: canTransition_workflow isTerminalWorkflowStatus_def)
  show ?thesis using f unfolding wf_follow_def by (rule list_all2_mono) (auto dest: stay)
qed


text \<open>A workflow with one checkpoint that is ready: the first claim of an execution.\<close>

definition demo_ready :: db where
  "demo_ready = empty_db
     \<lparr>db_workflows := [(new_workflow ''w'' ''o'')\<lparr>w_status := WActive\<rparr>],
      db_tasks := [new_task ''a'' ''w'' ''a'' ''checkpoint'']\<rparr>"

definition demo_claimed :: sys where
  "demo_claimed = (start_sys demo_ready)
     \<lparr>y_db := snd (claimReadyTasks (demo_env 0) ''w'' 0 demo_ready),
      y_claims := cr_claimed (fst (claimReadyTasks (demo_env 0) ''w'' 0 demo_ready))\<rparr>"

lemma demo_initial: "initial show_nat demo_ready"
  by (simp add: initial_def demo_ready_def empty_db_def new_task_def new_workflow_def inj_def)

lemma demo_gates:
  "ge_state (deriveEffectiveGateState (gateContextFor (new_task ''a'' ''w'' ''a'' ''checkpoint'') [] st ks Map.empty 0)) = Dispatchable"
  by (simp add: gateContextFor_def evaluateTaskGates_def timing_gate_def dependency_gate_def approval_gate_def
      deriveEffectiveGateState_def new_task_def gate_def passed_def Let_def)

text \<open>The claim of the only task of a database without attempts.\<close>

lemma claim_only_task:
  assumes "t_status t = TIdle" and "t_foreachConfig t = None" and "db_attempts s = []" and "db_tasks s = [t]"
    and "ge_state (deriveEffectiveGateState (gateContextFor t deps st ks aps now)) = Dispatchable"
  shows "map (\<lambda>a. (a_taskId a, a_attemptNo a, a_status a)) (db_attempts (snd (claim_task E wid now prov deps st ks aps t s))) =
           [(t_id t, 1, AttRunning)]
    \<and> map (\<lambda>t. (t_id t, t_status t)) (db_tasks (snd (claim_task E wid now prov deps st ks aps t s))) = [(t_id t, TRunning)]
    \<and> map_option (\<lambda>c. t_id (c_task c)) (fst (claim_task E wid now prov deps st ks aps t s)) = Some (t_id t)"
proof -
  define s1 where "s1 = persistGates E wid (t_id t) (gateContextFor t deps st ks aps now) s"
  have s1: "db_attempts s1 = []" "db_tasks s1 = [t]" using assms(3,4) by (simp_all add: s1_def)
  obtain aid n key ins s2 where ia: "insert_attempt E wid (t_id t) s1 = ((aid, n, key, ins), s2)" by (metis prod_cases3 surj_pair)
  then have s2: "n = 1" "ins" "db_tasks s2 = [t]"
    "map (\<lambda>a. (a_taskId a, a_attemptNo a, a_status a)) (db_attempts s2) = [(t_id t, 1, AttRunning)]"
    by (auto simp: insert_attempt_def attempt_count_def s1 Let_def split_beta)
  show ?thesis
    using assms(1,2,5) ia unfolding claim_task_def s1_def
    by (simp add: Let_def split_beta s2 acquireDispatchLease_def)
qed

lemma demo_claim:
  "map (\<lambda>a. (a_taskId a, a_attemptNo a, a_status a)) (db_attempts (snd (claimReadyTasks (demo_env 0) ''w'' 0 demo_ready))) = [(''a'', 1, AttRunning)]
   \<and> map (\<lambda>t. (t_id t, t_status t)) (db_tasks (snd (claimReadyTasks (demo_env 0) ''w'' 0 demo_ready))) = [(''a'', TRunning)]
   \<and> map (\<lambda>c. t_id (c_task c)) (cr_claimed (fst (claimReadyTasks (demo_env 0) ''w'' 0 demo_ready))) = [''a'']"
proof -
  let ?t = "new_task ''a'' ''w'' ''a'' ''checkpoint''" and ?w = "(new_workflow ''w'' ''o'')\<lparr>w_status := WActive\<rparr>"
  have ts: "tasks_of demo_ready ''w'' = [?t]" "deps_of demo_ready ''w'' = []" "approvals_of demo_ready ''w'' = []"
    and db: "db_attempts demo_ready = []" "db_tasks demo_ready = [?t]"
    and w: "find_workflow demo_ready ''w'' = Some ?w"
    by (simp_all add: demo_ready_def empty_db_def tasks_of_def deps_of_def approvals_of_def find_workflow_def new_workflow_def new_task_def)
  have t: "t_status ?t = TIdle" "t_foreachConfig ?t = None" "t_id ?t = ''a''" by (simp_all add: new_task_def)
  let ?C = "claim_task (demo_env 0) ''w'' 0 (actor_of ?w) [] (js_map [(t_id ?t, t_status ?t)]) (js_map [(t_id ?t, t_key ?t)]) Map.empty ?t demo_ready"
  have C: "claim_active (demo_env 0) ''w'' 0 ?w demo_ready =
      (case fst ?C of None \<Rightarrow> [] | Some c \<Rightarrow> [c], snd ?C)"
    using t(1) unfolding claim_active_def
    by (simp add: ts Let_def split_beta recover_task_def reclaim_task_def ENGINE_OPS_def js_map_def split: option.split)
  have "w_status ?w = WActive" by simp
  then have "cr_claimed (fst (claimReadyTasks (demo_env 0) ''w'' 0 demo_ready)) = (case fst ?C of None \<Rightarrow> [] | Some c \<Rightarrow> [c])"
    "snd (claimReadyTasks (demo_env 0) ''w'' 0 demo_ready) = snd ?C"
    by (simp_all add: claimReadyTasks_def w C split_beta)
  then show ?thesis
    using claim_only_task [OF t(1,2) db demo_gates, of "demo_env 0" "''w''" "actor_of ?w" "js_map [(t_id ?t, t_status ?t)]"
        "js_map [(t_id ?t, t_key ?t)]"]
    by (auto simp: t(3) split: option.splits)
qed

lemma demo_claimed_rows:
  "map (\<lambda>a. (a_taskId a, a_attemptNo a, a_status a)) (db_attempts (y_db demo_claimed)) = [(''a'', 1, AttRunning)]
   \<and> map (\<lambda>t. (t_id t, t_status t)) (db_tasks (y_db demo_claimed)) = [(''a'', TRunning)]
   \<and> map (\<lambda>c. t_id (c_task c)) (y_claims demo_claimed) = [''a'']"
  using demo_claim by (simp add: demo_claimed_def start_sys_def)

lemma demo_claim_run: "sys_run show_nat (start_sys demo_ready) demo_claimed"
proof -
  let ?y = "start_sys demo_ready"
  have "sys_step show_nat ?y (?y\<lparr>y_db := snd (claimReadyTasks (demo_env 0) ''w'' 0 (y_db ?y)),
      y_claims := y_claims ?y @ cr_claimed (fst (claimReadyTasks (demo_env 0) ''w'' 0 (y_db ?y)))\<rparr>)"
    by (rule step_claim) (simp_all add: demo_env_def)
  then show ?thesis unfolding demo_claimed_def by (simp add: start_sys_def)
qed

theorem attempt_discipline_witness:
  "map a_attemptNo (attempts_for (db_attempts (y_db demo_claimed)) ''a'') = [1]
   \<and> length (filter (\<lambda>a. a_status a = AttRunning) (attempts_for (db_attempts (y_db demo_claimed)) ''a'')) \<le> 1"
proof -
  have "length (attempts_for (db_attempts (y_db demo_claimed)) ''a'') = 1"
    using demo_claimed_rows by (auto simp: attempts_for_def)
  with attempt_discipline [OF demo_initial demo_claim_run, of "''a''"] show ?thesis by simp
qed

theorem retry_budget_witness:
  "y_claims demo_claimed \<noteq> []
   \<and> list_all (\<lambda>t. length (attempts_for (db_attempts (y_db demo_claimed)) (t_id t)) \<le> max_attempts t + recoveries (y_db demo_claimed) (t_id t))
        (db_tasks (y_db demo_claimed))"
  using retry_budget [OF demo_initial demo_claim_run] demo_claimed_rows by auto

theorem single_dispatcher_witness:
  "map (\<lambda>c. t_id (c_task c)) (y_claims demo_claimed) = [''a''] \<and> distinct (map c_leaseToken (y_claims demo_claimed))"
  using single_dispatcher [OF demo_initial demo_claim_run] demo_claimed_rows by blast

theorem terminal_task_absorbing_witness:
  "map_option t_status (find_task (snd (finalizeWorkflow (demo_env 0) ''w'' demo_failed)) ''a'') = Some TFailed"
proof -
  let ?y = "start_sys demo_failed"
  let ?t = "(new_task ''a'' ''w'' ''a'' ''agent_task'')\<lparr>t_status := TFailed, t_failurePolicy := Some FpSkip\<rparr>"
  have i: "initial show_nat demo_failed"
    by (simp add: initial_def demo_failed_def empty_db_def new_task_def new_workflow_def inj_def)
  have "sys_run show_nat ?y (?y\<lparr>y_db := snd (finalizeWorkflow (demo_env 0) ''w'' (y_db ?y))\<rparr>)"
    by (rule r_into_rtranclp) (rule step_finalize)
  from terminal_task_absorbing [OF i rtranclp.rtrancl_refl this, of ?t] show ?thesis
    by (simp add: start_sys_def demo_failed_def new_task_def isTerminalTaskStatus_def)
qed

theorem workflow_follows_matrix_witness:
  "list_all2 (\<lambda>w w'. w_id w' = w_id w \<and> wf_path (w_status w) (w_status w')
           \<and> (isTerminalWorkflowStatus (w_status w) \<longrightarrow> w_status w' = w_status w))
         (db_workflows demo_ready) (db_workflows (y_db demo_claimed))"
  using workflow_follows_matrix [OF demo_initial rtranclp.rtrancl_refl demo_claim_run] by (simp add: start_sys_def)

text \<open>A host without executors of its own, whose clock stands still.\<close>

definition demo_host :: host where
  "demo_host = \<lparr>h_env = (\<lambda>_. demo_env 0), h_calendar = plain_calendar, h_executors = buildExecutorRegistry None None,
     h_getChildRunStatus = None, h_cancelChildRun = False, h_notify = None\<rparr>"


end
