(* ===== verification/Wf_Engine.thy ===== *)
theory Wf_Engine
  imports Wf_System
begin

text \<open>
  What the single operations of the engine guarantee, on top of the step system: a workflow that is
  not active is left alone by a tick, an outcome settles once, lifecycle actions refuse or tear
  down completely, stale approvals are reopened and due ones solicited exactly, and a tick claims
  exactly the tasks that are ready.
\<close>

section \<open>A workflow that is not active\<close>

definition inactive :: "db \<Rightarrow> ident \<Rightarrow> bool" where
  "inactive s wid \<longleftrightarrow> (case find_workflow s wid of None \<Rightarrow> True | Some w \<Rightarrow> w_status w \<noteq> WActive)"

definition status_text_of :: "db \<Rightarrow> ident \<Rightarrow> string" where
  "status_text_of s wid = (case find_workflow s wid of None \<Rightarrow> ''missing'' | Some w \<Rightarrow> workflow_status_text (w_status w))"

lemma inactive_passes:
  assumes "inactive s wid"
  shows "pollRunningAgentTasks E wid now f s = ([], s)" "reconcileForeachParents E wid s = Inr ([], s)"
    "applyRejectedApprovalPolicies E wid s = ([], s)" "invalidateStaleApprovals E wid now s = s"
    "solicitApprovals E cal wid now s = ([], s)"
    "claimReadyTasks E wid now s = (\<lparr>cr_inactive = True, cr_status = status_text_of s wid, cr_claimed = [], cr_provenance = None\<rparr>, s)"
  using assms
  by (auto simp: inactive_def status_text_of_def pollRunningAgentTasks_def pollSettle_def reconcileForeachParents_def
      applyRejectedApprovalPolicies_def invalidateStaleApprovals_def solicitApprovals_def claimReadyTasks_def split: option.splits)

text \<open>
  Pausing halts the engine: a tick of a workflow that is missing, a draft, paused or terminal
  changes nothing, dispatches nothing, notifies nobody and reports the status it found.
\<close>

theorem inactive_tick_noop:
  assumes "inactive s wid"
  shows "reconcileWorkflow H wid now s =
    (\<lparr>tk_dispatched = 0, tk_status = status_text_of s wid, tk_notifications = [], tk_cancelledRuns = []\<rparr>, s)"
proof -
  have l: "dispatch_loop H wid now 200 k tot dead s =
      (\<lparr>lr_total = tot, lr_status = status_text_of s wid, lr_transitioned = False, lr_deadLettered = dead\<rparr>, k + 1, s)" for k tot dead
    by (simp add: eval_nat_numeral inactive_passes [OF assms])
  show ?thesis
    by (cases "h_getChildRunStatus H"; cases "h_notify H")
      (simp_all add: reconcileWorkflow_def inactive_passes [OF assms] l emitReconcileNotifications_def reconcile_notifications_def)
qed

section \<open>Recording outcomes\<close>

definition owns_lease :: "db \<Rightarrow> claimed_task \<Rightarrow> bool" where
  "owns_lease s c \<longleftrightarrow> map_option l_token (find_lease s (t_id (c_task c))) = Some (c_leaseToken c)"

lemma settle_not_owner: "\<not> owns_lease (fst st) (fst r) \<Longrightarrow> settle_outcome E wid now prov r st = st"
  by (auto simp: owns_lease_def settle_outcome_def Let_def split: option.splits prod.splits)

lemma applyTaskFailure_leases [simp]:
  "db_leases (fst (applyTaskFailure E wid t n err now prov st)) = db_leases (fst st)"
  by (auto simp: applyTaskFailure_def Let_def split_beta)

lemma settle_leases:
  assumes "owns_lease (fst st) (fst r)"
  shows "db_leases (fst (settle_outcome E wid now prov r st)) =
    delete_where (\<lambda>l. l_taskId l = t_id (c_task (fst r)) \<and> l_token l = c_leaseToken (fst r)) (db_leases (fst st))"
proof -
  obtain c oc s dl where [simp]: "r = (c, oc)" "st = (s, dl)" by (metis surj_pair)
  from assms obtain l where l: "find_lease s (t_id (c_task c)) = Some l" "l_token l = c_leaseToken c"
    by (auto simp: owns_lease_def)
  show ?thesis
    by (cases "o_status oc"; cases "find_task (s\<lparr>db_leases := delete_where (\<lambda>l. l_taskId l = t_id (c_task c) \<and> l_token l = c_leaseToken c) (db_leases s)\<rparr>) (t_id (c_task c))")
      (simp_all add: settle_outcome_def Let_def l settle_attempt_def split_beta)
qed

text \<open>
  C21. An outcome settles once: when a task has one lease, recording any outcome a second time for the
  same claim, by any worker at any later moment with the lease still gone, changes nothing.
\<close>

theorem outcome_settles_once:
  assumes "distinct (map l_taskId (db_leases s))"
  shows "settle_outcome E' wid' now' prov' (c, oc') (settle_outcome E wid now prov (c, oc) (s, dl)) =
    settle_outcome E wid now prov (c, oc) (s, dl)"
proof (rule settle_not_owner, simp)
  let ?st = "settle_outcome E wid now prov (c, oc) (s, dl)"
  show "\<not> owns_lease (fst ?st) c"
  proof (cases "owns_lease s c")
    case False
    then show ?thesis using settle_not_owner [of "(s, dl)" "(c, oc)"] by simp
  next
    case True
    then obtain l where l: "l \<in> set (db_leases s)" "l_taskId l = t_id (c_task c)" "l_token l = c_leaseToken c"
      by (auto simp: owns_lease_def dest: find_lease_Some)
    have "l_taskId k \<noteq> t_id (c_task c)" if "k \<in> set (db_leases (fst ?st))" for k
    proof
      assume k: "l_taskId k = t_id (c_task c)"
      from that True have "k \<in> set (db_leases s)" "\<not> (l_taskId k = t_id (c_task c) \<and> l_token k = c_leaseToken c)"
        by (auto simp: settle_leases set_delete_where)
      moreover from this k l assms have "k = l" by (auto simp: distinct_map inj_on_def)
      ultimately show False using l by simp
    qed
    then have "find_lease (fst ?st) (t_id (c_task c)) = None" by (auto simp: find_lease_def find_None_iff)
    then show ?thesis by (simp add: owns_lease_def)
  qed
qed

section \<open>Lifecycle\<close>

text \<open>A refused action and what it says.\<close>

definition refusal_of :: "string \<Rightarrow> workflow_status list \<Rightarrow> db \<Rightarrow> ident \<Rightarrow> string option" where
  "refusal_of what allowed s wid =
     (case find_workflow s wid of
        None \<Rightarrow> Some ''not_found''
      | Some w \<Rightarrow> if w_status w \<in> set allowed then None
                  else Some (what @ '' ('' @ workflow_status_text (w_status w) @ '')''))"

lemma found_cas: "find_workflow s wid = Some w \<Longrightarrow> \<exists>r \<in> set (db_workflows s). w_id r = wid \<and> w_lockVersion r = w_lockVersion w \<and> w_status r = w_status w"
  using find_workflow_Some by blast

lemma legal_moves [simp]:
  "assertTransition KWorkflow ''active'' ''paused'' = Inr ()" "assertTransition KWorkflow ''paused'' ''active'' = Inr ()"
  "assertTransition KWorkflow ''active'' ''cancelled'' = Inr ()" "assertTransition KWorkflow ''paused'' ''cancelled'' = Inr ()"
  using canTransition_workflow [of WActive WPaused] canTransition_workflow [of WPaused WActive]
    canTransition_workflow [of WActive WCancelled] canTransition_workflow [of WPaused WCancelled]
  by (simp_all add: assertTransition_def)

lemma cancel_reply:
  "fst (fst (cancelWorkflow E wid actor s)) =
     (case refusal_of ''not_cancellable'' [WActive, WPaused] s wid of None \<Rightarrow> LifecycleOk | Some r \<Rightarrow> LifecycleRefused r)"
proof (cases "find_workflow s wid")
  case (Some w)
  with found_cas [OF Some] show ?thesis
    by (cases "w_status w") (auto simp: refusal_of_def cancelWorkflow_def Let_def split_beta)
qed (simp add: refusal_of_def cancelWorkflow_def)

text \<open>
  Lifecycle refusals: pause, resume and cancel succeed exactly on an active, a paused, and an active
  or paused workflow; otherwise they say why, change nothing and reach nobody. They never throw.
\<close>

theorem lifecycle_refusals:
  "fst (fst (pauseWorkflow E wid actor s)) = (case refusal_of ''not_active'' [WActive] s wid of None \<Rightarrow> LifecycleOk | Some r \<Rightarrow> LifecycleRefused r)
   \<and> fst (fst (resumeWorkflow E wid actor s)) = (case refusal_of ''not_paused'' [WPaused] s wid of None \<Rightarrow> LifecycleOk | Some r \<Rightarrow> LifecycleRefused r)
   \<and> fst (fst (cancelWorkflow E wid actor s)) = (case refusal_of ''not_cancellable'' [WActive, WPaused] s wid of None \<Rightarrow> LifecycleOk | Some r \<Rightarrow> LifecycleRefused r)
   \<and> (refusal_of ''not_active'' [WActive] s wid = None \<or> snd (pauseWorkflow E wid actor s) = s \<and> snd (fst (pauseWorkflow E wid actor s)) = no_effects)
   \<and> (refusal_of ''not_paused'' [WPaused] s wid = None \<or> snd (resumeWorkflow E wid actor s) = s \<and> snd (fst (resumeWorkflow E wid actor s)) = no_effects)
   \<and> (refusal_of ''not_cancellable'' [WActive, WPaused] s wid = None \<or> snd (cancelWorkflow E wid actor s) = s \<and> snd (fst (cancelWorkflow E wid actor s)) = no_effects)"
proof (cases "find_workflow s wid")
  case None
  then show ?thesis by (simp add: refusal_of_def pauseWorkflow_def resumeWorkflow_def cancelWorkflow_def)
next
  case (Some w)
  with found_cas [OF Some] show ?thesis
    by (cases "w_status w")
      (auto simp: refusal_of_def pauseWorkflow_def resumeWorkflow_def cancelWorkflow_def pause_write_def resume_write_def Let_def split_beta)
qed

lemma open_statuses: "x \<in> set NON_TERMINAL_TASK_STATUSES \<longleftrightarrow> \<not> isTerminalTaskStatus x"
  by (cases x) (simp_all add: NON_TERMINAL_TASK_STATUSES_def isTerminalTaskStatus_def)

lemma workflow_tables: "db_workflows (s\<lparr>db_workflows := ws\<rparr>) = ws"
  by simp

lemma list_all_filter: "list_all P (filter Q rs) \<longleftrightarrow> list_all (\<lambda>r. Q r \<longrightarrow> P r) rs"
  by (auto simp: list_all_iff)

lemma list_all_update_where:
  "(\<And>r. r \<in> set rs \<Longrightarrow> Q r \<Longrightarrow> P (f r)) \<Longrightarrow> (\<And>r. r \<in> set rs \<Longrightarrow> \<not> Q r \<Longrightarrow> P r) \<Longrightarrow> list_all P (update_where Q f rs)"
  by (induction rs) auto

text \<open>
  Cancelling tears down: after a successful cancel the workflow is cancelled, every task of it is
  terminal and its leases are gone, no pending approval of it is left valid, tasks that were
  terminal keep their status, and the child runs handed to the host are those of its running attempts.
\<close>

theorem cancel_tears_down:
  assumes "fst (fst (cancelWorkflow E wid actor s)) = LifecycleOk"
  shows "status_text_of (snd (cancelWorkflow E wid actor s)) wid = ''cancelled''
    \<and> map t_status (db_tasks (snd (cancelWorkflow E wid actor s))) =
        map (\<lambda>t. if t_workflowId t = wid \<and> \<not> isTerminalTaskStatus (t_status t) then TCancelled else t_status t) (db_tasks s)
    \<and> db_leases (snd (cancelWorkflow E wid actor s)) = filter (\<lambda>l. l_workflowId l \<noteq> wid) (db_leases s)
    \<and> list_all (\<lambda>a. ap_status a \<noteq> ApPending \<or> ap_invalidatedAt a \<noteq> None) (approvals_of (snd (cancelWorkflow E wid actor s)) wid)
    \<and> le_cancelledRuns (snd (fst (cancelWorkflow E wid actor s))) = live_child_runs s wid"
proof -
  obtain w where w: "find_workflow s wid = Some w" and act: "w_status w = WActive \<or> w_status w = WPaused"
    using assms by (auto simp: cancelWorkflow_def split: option.splits if_splits)
  define s1 where "s1 = snd (cas_workflow wid (w_lockVersion w) (\<lambda>r. w_status r = WActive \<or> w_status r = WPaused)
    (set_workflow_status E WCancelled (w_lockVersion w)) s)"
  have legal: "assertTransition KWorkflow (workflow_status_text (w_status w)) ''cancelled'' = Inr ()"
    using act by auto
  have moved: "\<exists>r \<in> set (db_workflows s). w_id r = wid \<and> w_lockVersion r = w_lockVersion w \<and> (w_status r = WActive \<or> w_status r = WPaused)"
    using found_cas [OF w] act by metis
  have cw: "cancelWorkflow E wid actor s = ((LifecycleOk,
      \<lparr>le_notifications = [notificationFor NWorkflowCancelled wid None (Some (JObj [(''cancelledChildRuns'', JNum (int (length (fst (cancel_teardown E wid actor s1)))))]))],
       le_audit = [\<lparr>au_action = ''workflow.cancel'', au_workflowId = wid, au_actorId = actor,
         au_details = Some (JObj [(''cancelledChildRuns'', JNum (int (length (fst (cancel_teardown E wid actor s1)))))])\<rparr>],
       le_cancelledRuns = fst (cancel_teardown E wid actor s1)\<rparr>), snd (cancel_teardown E wid actor s1))"
    using act moved by (simp add: cancelWorkflow_def w legal Let_def split_beta s1_def)
  have sw: "find_workflow (snd (cancel_teardown E wid actor s1)) wid = Some (set_workflow_status E WCancelled (w_lockVersion w) w)"
  proof -
    have "db_workflows (snd (cancel_teardown E wid actor s1)) = db_workflows s1"
      by (simp add: cancel_teardown_def Let_def clear_leases_def cancel_open_tasks_def)
    moreover have "find (\<lambda>w. w_id w = wid) (db_workflows s1) = Some (set_workflow_status E WCancelled (w_lockVersion w) w)"
      unfolding s1_def cas_workflow_simps workflow_tables
      by (rule find_update_where) (use w act find_workflow_Some [OF w] in \<open>auto simp: find_workflow_def\<close>)
    ultimately show ?thesis by (simp add: find_workflow_def)
  qed
  have tasks: "map t_status (db_tasks (snd (cancel_teardown E wid actor s1))) =
      map (\<lambda>t. if t_workflowId t = wid \<and> \<not> isTerminalTaskStatus (t_status t) then TCancelled else t_status t) (db_tasks s)"
    by (simp add: cancel_teardown_def Let_def s1_def clear_leases_def cancel_open_tasks_def update_where_def open_statuses)
  have "db_approvals (snd (cancel_teardown E wid actor s1)) =
      update_where (\<lambda>a. ap_workflowId a = wid \<and> ap_status a = ApPending)
        (\<lambda>a. a\<lparr>ap_invalidatedAt := Some (e_wall E), ap_updatedAt := e_wall E\<rparr>) (db_approvals s1)"
    by (simp add: cancel_teardown_def Let_def clear_leases_def cancel_open_tasks_def)
  then have approvals: "list_all (\<lambda>a. ap_status a \<noteq> ApPending \<or> ap_invalidatedAt a \<noteq> None)
      (approvals_of (snd (cancel_teardown E wid actor s1)) wid)"
    unfolding approvals_of_def list_all_filter by (simp only:) (rule list_all_update_where; simp)
  have runs: "fst (cancel_teardown E wid actor s1) = live_child_runs s wid"
    by (simp add: cancel_teardown_def Let_def s1_def live_child_runs_def)
  have leases: "db_leases (snd (cancel_teardown E wid actor s1)) = filter (\<lambda>l. l_workflowId l \<noteq> wid) (db_leases s)"
    by (simp add: cancel_teardown_def Let_def s1_def clear_leases_def cancel_open_tasks_def delete_where_def)
  show ?thesis
    unfolding cw fst_conv snd_conv status_text_of_def sw option.case using tasks approvals runs leases by simp
qed

definition demo_paused :: db where
  "demo_paused = demo_ready\<lparr>db_workflows := [(new_workflow ''w'' ''o'')\<lparr>w_status := WPaused\<rparr>]\<rparr>"

theorem inactive_tick_noop_witness:
  "inactive demo_paused ''w''
   \<and> reconcileWorkflow demo_host ''w'' 0 demo_paused =
     (\<lparr>tk_dispatched = 0, tk_status = ''paused'', tk_notifications = [], tk_cancelledRuns = []\<rparr>, demo_paused)"
proof -
  have "inactive demo_paused ''w''" "status_text_of demo_paused ''w'' = ''paused''"
    by (simp_all add: inactive_def status_text_of_def demo_paused_def find_workflow_def new_workflow_def)
  with inactive_tick_noop [of demo_paused "''w''" demo_host 0] show ?thesis by simp
qed

definition demo_leased :: db where
  "demo_leased = demo_ready
     \<lparr>db_tasks := [(new_task ''a'' ''w'' ''a'' ''checkpoint'')\<lparr>t_status := TRunning\<rparr>],
      db_attempts := [\<lparr>a_id = ''at'', a_workflowId = ''w'', a_taskId = ''a'', a_attemptNo = 1, a_idempotencyKey = ''w:a:1'',
        a_status = AttRunning, a_childRunId = Some ''run'', a_error = None, a_output = None, a_startedAt = None,
        a_completedAt = None, a_createdAt = 0, a_updatedAt = 0\<rparr>],
      db_leases := [\<lparr>l_id = ''l'', l_workflowId = ''w'', l_taskId = ''a'', l_attemptId = ''at'', l_holderId = ''p'',
        l_token = ''tok'', l_acquiredAt = 0, l_heartbeatAt = 0, l_expiresAt = 9\<rparr>],
      db_approvals := [new_approval ''ap'' ''w'' ''a'' JNull]\<rparr>"

definition demo_claim_record :: claimed_task where
  "demo_claim_record = \<lparr>c_task = (new_task ''a'' ''w'' ''a'' ''checkpoint'')\<lparr>t_status := TRunning\<rparr>, c_attemptId = ''at'',
     c_attemptNo = 1, c_idempotencyKey = ''w:a:1'', c_leaseToken = ''tok''\<rparr>"

definition demo_outcome :: "outcome_status \<Rightarrow> executor_outcome" where
  "demo_outcome st = \<lparr>o_status = st, o_error = None, o_childRunId = None, o_note = None\<rparr>"

theorem outcome_settles_once_witness:
  "owns_lease demo_leased demo_claim_record
   \<and> settle_outcome (demo_env 1) ''w'' 1 (actor_of (new_workflow ''w'' ''o'')) (demo_claim_record, demo_outcome OutFailed)
       (settle_outcome (demo_env 0) ''w'' 0 (actor_of (new_workflow ''w'' ''o'')) (demo_claim_record, demo_outcome OutSucceeded) (demo_leased, [])) =
     settle_outcome (demo_env 0) ''w'' 0 (actor_of (new_workflow ''w'' ''o'')) (demo_claim_record, demo_outcome OutSucceeded) (demo_leased, [])"
proof -
  have "distinct (map l_taskId (db_leases demo_leased))" "owns_lease demo_leased demo_claim_record"
    by (simp_all add: demo_leased_def owns_lease_def find_lease_def demo_claim_record_def new_task_def)
  with outcome_settles_once [of demo_leased] show ?thesis by simp
qed

theorem cancel_tears_down_witness:
  "map t_status (db_tasks (snd (cancelWorkflow (demo_env 5) ''w'' None demo_leased))) = [TCancelled]
   \<and> db_leases (snd (cancelWorkflow (demo_env 5) ''w'' None demo_leased)) = []
   \<and> le_cancelledRuns (snd (fst (cancelWorkflow (demo_env 5) ''w'' None demo_leased))) = [''run'']"
proof -
  have "fst (fst (cancelWorkflow (demo_env 5) ''w'' None demo_leased)) = LifecycleOk"
    by (simp add: cancel_reply refusal_of_def demo_leased_def demo_ready_def find_workflow_def new_workflow_def)
  from cancel_tears_down [OF this] show ?thesis
    by (simp add: demo_leased_def demo_ready_def new_task_def live_child_runs_def List.map_filter_def isTerminalTaskStatus_def)
qed

section \<open>Approvals\<close>

text \<open>A pass that rewrites rows one by one by their id is one rewrite of the table.\<close>

lemma fold_rows_aux:
  assumes "distinct (map key tab)" and "\<And>a b. key (F a b) = key b" and "\<And>a. key (h a) = key a"
    and "set rs \<subseteq> set tab" and "distinct (map key rs)" and "\<And>a. a \<in> set rs \<Longrightarrow> h a = a"
  shows "fold (\<lambda>r. update_where (\<lambda>a. key a = key r \<and> G r a) (F r)) rs (map h tab) =
    map (\<lambda>a. if a \<in> set rs then if G a a then F a a else a else h a) tab"
  using assms(3-6)
proof (induction rs arbitrary: h)
  case Nil
  then show ?case by simp
next
  case (Cons r rs)
  define h' where "h' = (\<lambda>a. if a = r then if G r r then F r r else r else h a)"
  have step: "update_where (\<lambda>a. key a = key r \<and> G r a) (F r) (map h tab) = map h' tab"
  proof -
    have "(if key (h a) = key r \<and> G r (h a) then F r (h a) else h a) = h' a" if "a \<in> set tab" for a
    proof (cases "a = r")
      case True
      with Cons.prems(4) [of r] show ?thesis by (simp add: h'_def)
    next
      case False
      with that Cons.prems(2) assms(1) have "key a \<noteq> key r" by (auto simp: distinct_map inj_on_def)
      with False Cons.prems(1) show ?thesis by (simp add: h'_def)
    qed
    then show ?thesis by (simp add: update_where_def)
  qed
  have "fold (\<lambda>r. update_where (\<lambda>a. key a = key r \<and> G r a) (F r)) rs (map h' tab) =
      map (\<lambda>a. if a \<in> set rs then if G a a then F a a else a else h' a) tab"
    using Cons.prems assms(2) by (intro Cons.IH) (auto simp: h'_def)
  with step show ?case using Cons.prems(3) by (auto simp: h'_def)
qed

lemma fold_rows:
  assumes "distinct (map key tab)" and "\<And>a b. key (F a b) = key b"
  shows "fold (\<lambda>r. update_where (\<lambda>a. key a = key r \<and> G r a) (F r)) (filter P tab) tab =
    map (\<lambda>a. if P a \<and> G a a then F a a else a) tab"
proof -
  have "distinct (map key (filter P tab))" using assms(1) by (simp add: distinct_map_filter)
  then have "fold (\<lambda>r. update_where (\<lambda>a. key a = key r \<and> G r a) (F r)) (filter P tab) (map (\<lambda>a. a) tab) =
      map (\<lambda>a. if a \<in> set (filter P tab) then if G a a then F a a else a else a) tab"
    using assms by (intro fold_rows_aux) auto
  then show ?thesis by (auto intro!: map_cong)
qed

definition task_by_id :: "db \<Rightarrow> ident \<Rightarrow> ident \<rightharpoonup> task_row" where
  "task_by_id s wid = js_map (map (\<lambda>t. (t_id t, t)) (tasks_of s wid))"

definition key_by_id :: "db \<Rightarrow> ident \<Rightarrow> ident \<rightharpoonup> string" where
  "key_by_id s wid = js_map (map (\<lambda>t. (t_id t, t_key t)) (tasks_of s wid))"

definition packet_of :: "env \<Rightarrow> db \<Rightarrow> ident \<Rightarrow> approval_row \<Rightarrow> string option" where
  "packet_of E s wid ap = map_option
     (\<lambda>task. computeReviewPacketHash E task (ap_requiredScope ap) (deps_of s wid) (task_by_id s wid) (key_by_id s wid))
     (task_by_id s wid (ap_taskId ap))"

text \<open>The approvals a tick reopens: opened on a packet that is not the current one any more.\<close>

definition stale :: "env \<Rightarrow> db \<Rightarrow> ident \<Rightarrow> approval_row \<Rightarrow> bool" where
  "stale E s wid ap \<longleftrightarrow>
     truthy (ap_reviewPacketHash ap) \<and> was_opened ap
     \<and> (case task_by_id s wid (ap_taskId ap) of None \<Rightarrow> False | Some t \<Rightarrow> \<not> isTerminalTaskStatus (t_status t))
     \<and> ap_reviewPacketHash ap \<noteq> packet_of E s wid ap"

definition reopened :: "env \<Rightarrow> db \<Rightarrow> ident \<Rightarrow> instant \<Rightarrow> approval_row \<Rightarrow> approval_row" where
  "reopened E s wid now ap =
     ap\<lparr>ap_status := ApPending, ap_notificationState := Some [], ap_invalidatedAt := Some now,
        ap_reviewPacketHash := packet_of E s wid ap, ap_updatedAt := e_wall E\<rparr>"

lemma fold_cong_db:
  assumes "\<And>r s. r \<in> set rs \<Longrightarrow> f r s = s\<lparr>db_approvals := g r (db_approvals s)\<rparr>"
  shows "fold f rs s = s\<lparr>db_approvals := fold g rs (db_approvals s)\<rparr>"
  using assms by (induction rs arbitrary: s) simp_all

lemma invalidate_approval_row:
  "invalidate_approval E now (task_by_id s0 wid) (key_by_id s0 wid) (deps_of s0 wid) ap s =
   s\<lparr>db_approvals := update_where (\<lambda>a. ap_id a = ap_id ap \<and> (stale E s0 wid ap \<and> ap_status a = ap_status ap \<and> ap_reviewPacketHash a = ap_reviewPacketHash ap))
     (\<lambda>a. a\<lparr>ap_status := ApPending, ap_notificationState := Some [], ap_invalidatedAt := Some now,
        ap_reviewPacketHash := packet_of E s0 wid ap, ap_updatedAt := e_wall E\<rparr>) (db_approvals s)\<rparr>"
proof (cases "stale E s0 wid ap")
  case True
  then obtain h t where "ap_reviewPacketHash ap = Some h" "h \<noteq> []" "task_by_id s0 wid (ap_taskId ap) = Some t"
    by (cases "ap_reviewPacketHash ap") (auto simp: stale_def split: option.splits)
  with True show ?thesis
    by (simp add: stale_def invalidate_approval_def packet_of_def Let_def) (elim conjE, simp)
next
  case False
  then have "invalidate_approval E now (task_by_id s0 wid) (key_by_id s0 wid) (deps_of s0 wid) ap s = s"
    by (auto simp: stale_def invalidate_approval_def packet_of_def Let_def split: option.splits)
  with False show ?thesis by (simp add: update_where_none)
qed

text \<open>
  Stale approvals are reopened exactly: a tick of an active workflow rewrites each of its approvals
  whose review packet has changed under an opened, granted or sent-back review of an unfinished
  task back to an unsolicited pending one with the new packet hash, and no other row.
\<close>

theorem invalidate_exact:
  assumes "distinct (map ap_id (db_approvals s))" and "\<not> inactive s wid"
  shows "invalidateStaleApprovals E wid now s =
    s\<lparr>db_approvals := map (\<lambda>a. if ap_workflowId a = wid \<and> stale E s wid a then reopened E s wid now a else a) (db_approvals s)\<rparr>"
proof -
  obtain w where w: "find_workflow s wid = Some w" "w_status w = WActive"
    using assms(2) by (auto simp: inactive_def split: option.splits)
  have "invalidateStaleApprovals E wid now s =
      fold (invalidate_approval E now (task_by_id s wid) (key_by_id s wid) (deps_of s wid)) (approvals_of s wid) s"
    by (simp add: invalidateStaleApprovals_def w Let_def task_by_id_def key_by_id_def)
  also have "\<dots> = s\<lparr>db_approvals := fold (\<lambda>ap. update_where (\<lambda>a. ap_id a = ap_id ap \<and>
        (stale E s wid ap \<and> ap_status a = ap_status ap \<and> ap_reviewPacketHash a = ap_reviewPacketHash ap))
     (\<lambda>a. a\<lparr>ap_status := ApPending, ap_notificationState := Some [], ap_invalidatedAt := Some now,
        ap_reviewPacketHash := packet_of E s wid ap, ap_updatedAt := e_wall E\<rparr>)) (filter (\<lambda>a. ap_workflowId a = wid) (db_approvals s)) (db_approvals s)\<rparr>"
    unfolding approvals_of_def by (rule fold_cong_db) (rule invalidate_approval_row)
  also have "\<dots> = s\<lparr>db_approvals := map (\<lambda>a. if ap_workflowId a = wid \<and> stale E s wid a then reopened E s wid now a else a) (db_approvals s)\<rparr>"
    by (subst fold_rows [where key = ap_id and G = "\<lambda>ap a. stale E s wid ap \<and> ap_status a = ap_status ap \<and> ap_reviewPacketHash a = ap_reviewPacketHash ap"])
      (simp_all add: assms(1) reopened_def)
  finally show ?thesis .
qed

text \<open>The approvals a tick solicits, and the row it writes.\<close>

definition status_by_id :: "db \<Rightarrow> ident \<Rightarrow> ident \<rightharpoonup> task_status" where
  "status_by_id s wid = js_map (map (\<lambda>t. (t_id t, t_status t)) (tasks_of s wid))"

definition solicit_due :: "calendar \<Rightarrow> db \<Rightarrow> ident \<Rightarrow> string option \<Rightarrow> instant \<Rightarrow> approval_row \<Rightarrow> bool" where
  "solicit_due cal s wid tz now ap \<longleftrightarrow>
     ap_status ap = ApPending \<and> \<not> solicited ap
     \<and> (case task_by_id s wid (ap_taskId ap) of
          None \<Rightarrow> False
        | Some t \<Rightarrow>
            list_all (\<lambda>d. d_taskId d \<noteq> t_id t
                \<or> resolveDependency (nullish (status_by_id s wid (d_dependsOnTaskId d)) TIdle) (d_outcome d) = Satisfied)
              (deps_of s wid)
            \<and> computeSolicitAt cal (ap_solicitationSchedule ap) (t_dueAtUtc t) now (nullish tz ''UTC'') \<le> now)"

definition solicited_row :: "env \<Rightarrow> db \<Rightarrow> ident \<Rightarrow> instant \<Rightarrow> approval_row \<Rightarrow> approval_row \<Rightarrow> approval_row" where
  "solicited_row E s wid now ap a =
     a\<lparr>ap_notificationState := Some (with_key ''solicitedAt'' (JStr (toISOString now)) (nullish (ap_notificationState ap) [])),
       ap_reviewPacketHash := packet_of E s wid ap, ap_invalidatedAt := None, ap_updatedAt := e_wall E\<rparr>"

lemma solicit_approval_row:
  "solicit_approval E cal now w (task_by_id s0 wid) (key_by_id s0 wid) (status_by_id s0 wid) (deps_of s0 wid) ap (s, ids) =
     (let due = solicit_due cal s0 wid (w_targetTz w) now ap
      in (s\<lparr>db_approvals := update_where (\<lambda>a. ap_id a = ap_id ap \<and> (due \<and> ap_status a = ApPending)) (solicited_row E s0 wid now ap) (db_approvals s)\<rparr>,
          if due \<and> list_ex (\<lambda>a. ap_id a = ap_id ap \<and> ap_status a = ApPending) (db_approvals s) then ids @ [ap_taskId ap] else ids))"
proof (cases "solicit_due cal s0 wid (w_targetTz w) now ap")
  case True
  then obtain t where "task_by_id s0 wid (ap_taskId ap) = Some t" by (auto simp: solicit_due_def split: option.splits)
  with True show ?thesis
    by (simp add: solicit_due_def solicit_approval_def packet_of_def Let_def list_all_filter list_all_iff solicited_row_def [abs_def])
next
  case False
  then have "solicit_approval E cal now w (task_by_id s0 wid) (key_by_id s0 wid) (status_by_id s0 wid) (deps_of s0 wid) ap (s, ids) = (s, ids)"
    by (auto simp: solicit_due_def solicit_approval_def Let_def list_all_filter list_all_iff split: option.splits)
  with False show ?thesis by (simp add: update_where_none)
qed

lemma solicit_fold:
  assumes "\<And>r. r \<in> set rs \<Longrightarrow> list_ex (\<lambda>a. ap_id a = ap_id r \<and> ap_status a = ap_status r) (db_approvals s)"
  shows "fold (solicit_approval E cal now w (task_by_id s0 wid) (key_by_id s0 wid) (status_by_id s0 wid) (deps_of s0 wid)) rs (s, ids) =
     (s\<lparr>db_approvals := fold (\<lambda>ap. update_where (\<lambda>a. ap_id a = ap_id ap \<and> (solicit_due cal s0 wid (w_targetTz w) now ap \<and> ap_status a = ApPending))
          (solicited_row E s0 wid now ap)) rs (db_approvals s)\<rparr>,
      ids @ map ap_taskId (filter (solicit_due cal s0 wid (w_targetTz w) now) rs))"
  using assms
proof (induction rs arbitrary: s ids)
  case (Cons r rs)
  let ?due = "solicit_due cal s0 wid (w_targetTz w) now r"
  define s1 where "s1 = s\<lparr>db_approvals := update_where (\<lambda>a. ap_id a = ap_id r \<and> (?due \<and> ap_status a = ApPending)) (solicited_row E s0 wid now r) (db_approvals s)\<rparr>"
  have keys: "map (\<lambda>a. (ap_id a, ap_status a)) (db_approvals s1) = map (\<lambda>a. (ap_id a, ap_status a)) (db_approvals s)"
    by (simp add: s1_def update_where_def solicited_row_def)
  have "list_ex (\<lambda>a. ap_id a = ap_id q \<and> ap_status a = ap_status q) (db_approvals s1)" if q: "q \<in> set rs" for q
  proof -
    obtain a where "a \<in> set (db_approvals s)" "(ap_id q, ap_status q) = (ap_id a, ap_status a)"
      using Cons.prems [of q] q by (auto simp: list_ex_iff)
    then have "(ap_id q, ap_status q) \<in> set (map (\<lambda>a. (ap_id a, ap_status a)) (db_approvals s))"
      unfolding set_map by (rule image_eqI [rotated])
    then show ?thesis unfolding keys [symmetric] by (auto simp: list_ex_iff)
  qed
  note ih = Cons.IH [OF this]
  have hit: "?due \<Longrightarrow> list_ex (\<lambda>a. ap_id a = ap_id r \<and> ap_status a = ApPending) (db_approvals s)"
    using Cons.prems [of r] by (simp add: solicit_due_def)
  have "solicit_approval E cal now w (task_by_id s0 wid) (key_by_id s0 wid) (status_by_id s0 wid) (deps_of s0 wid) r (s, ids) =
      (s1, ids @ map ap_taskId (filter (solicit_due cal s0 wid (w_targetTz w) now) [r]))"
    using hit by (simp add: solicit_approval_row Let_def s1_def)
  then show ?case by (simp add: ih) (simp add: s1_def)
qed simp

text \<open>
  Approvals are solicited exactly: a tick of an active workflow marks as solicited, with the current packet
  hash, exactly its pending approvals that were not solicited yet, whose task exists with every
  dependency satisfied and whose solicitation time has come, and notifies once for each of them.
\<close>

theorem solicit_exact:
  assumes "distinct (map ap_id (db_approvals s))" and "find_workflow s wid = Some w" and "w_status w = WActive"
  shows "solicitApprovals E cal wid now s =
    (map ap_taskId (filter (solicit_due cal s wid (w_targetTz w) now) (approvals_of s wid)),
     s\<lparr>db_approvals := map (\<lambda>a. if ap_workflowId a = wid \<and> solicit_due cal s wid (w_targetTz w) now a
                                then solicited_row E s wid now a a else a) (db_approvals s)\<rparr>)"
proof -
  have ex: "list_ex (\<lambda>a. ap_id a = ap_id r \<and> ap_status a = ap_status r) (db_approvals s)" if "r \<in> set (approvals_of s wid)" for r
    using that by (auto simp: approvals_of_def list_ex_iff)
  have "fold (\<lambda>ap. update_where (\<lambda>a. ap_id a = ap_id ap \<and> (solicit_due cal s wid (w_targetTz w) now ap \<and> ap_status a = ApPending))
          (solicited_row E s wid now ap)) (approvals_of s wid) (db_approvals s) =
      map (\<lambda>a. if ap_workflowId a = wid \<and> (solicit_due cal s wid (w_targetTz w) now a \<and> ap_status a = ApPending)
               then solicited_row E s wid now a a else a) (db_approvals s)"
    unfolding approvals_of_def
    by (rule fold_rows [where key = ap_id and G = "\<lambda>ap a. solicit_due cal s wid (w_targetTz w) now ap \<and> ap_status a = ApPending"])
      (simp_all add: assms(1) solicited_row_def)
  moreover have "(solicit_due cal s wid (w_targetTz w) now a \<and> ap_status a = ApPending) = solicit_due cal s wid (w_targetTz w) now a" for a
    by (auto simp: solicit_due_def)
  ultimately show ?thesis
    using solicit_fold [OF ex, where w = w and ids = "[]" and E = E and cal = cal and now = now and ?s0.0 = s and wid = wid]
    by (simp add: solicitApprovals_def assms(2,3) Let_def task_by_id_def key_by_id_def status_by_id_def)
qed

definition demo_granted :: db where
  "demo_granted = demo_leased\<lparr>db_approvals := [(new_approval ''ap'' ''w'' ''a'' JNull)\<lparr>ap_status := ApGranted, ap_reviewPacketHash := Some ''old''\<rparr>]\<rparr>"

lemma demo_leased_maps:
  "find_workflow demo_leased ''w'' = Some ((new_workflow ''w'' ''o'')\<lparr>w_status := WActive\<rparr>)"
  "task_by_id demo_leased ''w'' = [''a'' \<mapsto> (new_task ''a'' ''w'' ''a'' ''checkpoint'')\<lparr>t_status := TRunning\<rparr>]"
  "deps_of demo_leased ''w'' = []" "approvals_of demo_leased ''w'' = [new_approval ''ap'' ''w'' ''a'' JNull]"
  by (simp_all add: demo_leased_def demo_ready_def empty_db_def find_workflow_def task_by_id_def tasks_of_def deps_of_def approvals_of_def
      new_workflow_def new_task_def new_approval_def js_map_def)

lemma demo_granted_maps:
  "inactive demo_granted ''w'' = inactive demo_leased ''w''"
  "task_by_id demo_granted ''w'' = task_by_id demo_leased ''w''" "deps_of demo_granted ''w'' = deps_of demo_leased ''w''"
  by (simp_all add: demo_granted_def inactive_def find_workflow_def task_by_id_def tasks_of_def deps_of_def)

theorem solicit_exact_witness:
  "fst (solicitApprovals (demo_env 5) plain_calendar ''w'' 0 demo_leased) = [''a'']"
proof -
  have "distinct (map ap_id (db_approvals demo_leased))" by (simp add: demo_leased_def)
  from solicit_exact [OF this demo_leased_maps(1)] show ?thesis
    by (simp add: demo_leased_maps new_approval_def solicit_due_def solicited_def computeSolicitAt_def)
qed

theorem invalidate_exact_witness:
  "map ap_status (db_approvals (invalidateStaleApprovals (demo_env 5) ''w'' 0 demo_granted)) = [ApPending]"
proof -
  have d: "distinct (map ap_id (db_approvals demo_granted))" "\<not> inactive demo_granted ''w''"
    unfolding demo_granted_maps by (simp add: demo_granted_def) (simp add: inactive_def demo_leased_maps)
  have "stale (demo_env 5) demo_granted ''w'' ((new_approval ''ap'' ''w'' ''a'' JNull)\<lparr>ap_status := ApGranted, ap_reviewPacketHash := Some ''old''\<rparr>)"
    by (simp add: stale_def demo_granted_maps demo_leased_maps new_approval_def packet_of_def was_opened_def isTerminalTaskStatus_def
        computeReviewPacketHash_def demo_env_def Let_def review_packet_def)
  moreover have "db_approvals demo_granted = [(new_approval ''ap'' ''w'' ''a'' JNull)\<lparr>ap_status := ApGranted, ap_reviewPacketHash := Some ''old''\<rparr>]"
    by (simp add: demo_granted_def)
  moreover have "ap_workflowId (new_approval ''ap'' ''w'' ''a'' JNull) = ''w''" by (simp add: new_approval_def)
  ultimately show ?thesis using invalidate_exact [OF d, of "demo_env 5" 0] by (simp add: reopened_def)
qed

section \<open>Claiming\<close>

definition approval_by_task :: "db \<Rightarrow> ident \<Rightarrow> ident \<rightharpoonup> approval_status" where
  "approval_by_task s wid = js_map (map (\<lambda>a. (ap_taskId a, ap_status a)) (approvals_of s wid))"

definition task_gates :: "db \<Rightarrow> ident \<Rightarrow> instant \<Rightarrow> task_row \<Rightarrow> gate_entry list" where
  "task_gates s wid now t =
     gateContextFor t (deps_of s wid) (status_by_id s wid) (key_by_id s wid) (approval_by_task s wid) now"

definition claimable :: "db \<Rightarrow> ident \<Rightarrow> instant \<Rightarrow> task_row \<Rightarrow> bool" where
  "claimable s wid now t \<longleftrightarrow>
     (t_status t = TIdle \<or> t_status t = TScheduled) \<and> t_foreachConfig t = None \<and> isDispatchable (task_gates s wid now t)"

text \<open>The idempotency key of the next attempt of a task is not taken.\<close>

definition fresh_key :: "db \<Rightarrow> ident \<Rightarrow> ident \<Rightarrow> bool" where
  "fresh_key s wid tid \<longleftrightarrow> list_all (\<lambda>a. a_idempotencyKey a \<noteq> idempotency_key wid tid (attempt_count s tid + 1)) (db_attempts s)"

lemma append_colon_inj:
  assumes "a @ CHR '':'' # u = b @ CHR '':'' # v" and "CHR '':'' \<notin> set u" and "CHR '':'' \<notin> set v"
  shows "a = b \<and> u = v"
  using assms
proof (induction a arbitrary: b)
  case Nil
  then show ?case by (cases b) auto
next
  case (Cons x a)
  then show ?case by (cases b) auto
qed

lemma idempotency_key_inj: "idempotency_key wid t n = idempotency_key wid t' n' \<longleftrightarrow> t = t' \<and> n = n'"
  using append_colon_inj [of t "show_nat n" t' "show_nat n'"] show_nat_no_colon
  by (auto simp: idempotency_key_def)

lemma insert_attempt_fresh:
  assumes "fresh_key s wid tid"
  obtains a s' where "insert_attempt E wid tid s = ((a_id a, attempt_count s tid + 1, idempotency_key wid tid (attempt_count s tid + 1), True), s')"
    "db_attempts s' = db_attempts s @ [a]" "a_taskId a = tid" "a_idempotencyKey a = idempotency_key wid tid (attempt_count s tid + 1)"
    "db_tasks s' = db_tasks s"
proof -
  have free: "\<not> list_ex (\<lambda>a. a_idempotencyKey a = idempotency_key wid tid (Suc (attempt_count s tid))) (db_attempts s)"
    using assms by (auto simp: fresh_key_def list_all_iff list_ex_iff)
  show ?thesis
    by (rule that [of "\<lparr>a_id = fst (new_id E ''watt'' s), a_workflowId = wid, a_taskId = tid, a_attemptNo = attempt_count s tid + 1,
          a_idempotencyKey = idempotency_key wid tid (attempt_count s tid + 1), a_status = AttRunning, a_childRunId = None,
          a_error = None, a_output = None, a_startedAt = Some (e_wall E), a_completedAt = None, a_createdAt = e_wall E,
          a_updatedAt = e_wall E\<rparr>" "snd (insert_attempt E wid tid s)"])
      (simp_all add: insert_attempt_def Let_def split_beta free)
qed

lemma fresh_key_append:
  "fresh_key s wid i \<Longrightarrow> i \<noteq> a_taskId a \<Longrightarrow> db_attempts s' = db_attempts s @ [a] \<Longrightarrow>
     a_idempotencyKey a = idempotency_key wid (a_taskId a) n \<Longrightarrow> fresh_key s' wid i"
  by (simp add: fresh_key_def attempt_count_def idempotency_key_inj)

lemma fresh_key_cong: "db_attempts s' = db_attempts s \<Longrightarrow> fresh_key s' wid i = fresh_key s wid i"
  by (simp add: fresh_key_def attempt_count_def)

lemma acquire_frame [simp]:
  "db_attempts (snd (acquireDispatchLease E wid tid aid s)) = db_attempts s"
  "db_tasks (snd (acquireDispatchLease E wid tid aid s)) = db_tasks s"
  by (simp_all add: acquireDispatchLease_def Let_def split_beta)

text \<open>The visit of one task claims it exactly when it is open with every gate passed, and leaves the others alone.\<close>

lemma claim_task_effect:
  assumes t: "t \<in> set (db_tasks s)" and fresh: "fresh_key s wid (t_id t)"
    and r: "r = claim_task E wid now prov deps st ks aps t s"
    and ready: "ready \<longleftrightarrow> (t_status t = TIdle \<or> t_status t = TScheduled) \<and> t_foreachConfig t = None
      \<and> isDispatchable (gateContextFor t deps st ks aps now)"
  shows "map_option (\<lambda>c. t_id (c_task c)) (fst r) = (if ready then Some (t_id t) else None)"
    and "u \<in> set (db_tasks s) \<Longrightarrow> t_id u \<noteq> t_id t \<Longrightarrow> u \<in> set (db_tasks (snd r))"
    and "fresh_key s wid i \<Longrightarrow> i \<noteq> t_id t \<Longrightarrow> fresh_key (snd r) wid i"
proof -
  define s1 where "s1 = persistGates E wid (t_id t) (gateContextFor t deps st ks aps now) s"
  have s1: "db_attempts s1 = db_attempts s" "db_tasks s1 = db_tasks s" by (simp_all add: s1_def)
  have "fresh_key s1 wid (t_id t)" using fresh fresh_key_cong [OF s1(1)] by blast
  then obtain a s2 where ia: "insert_attempt E wid (t_id t) s1 =
      ((a_id a, attempt_count s1 (t_id t) + 1, idempotency_key wid (t_id t) (attempt_count s1 (t_id t) + 1), True), s2)"
    and s2: "db_attempts s2 = db_attempts s1 @ [a]" "a_taskId a = t_id t"
      "a_idempotencyKey a = idempotency_key wid (t_id t) (attempt_count s1 (t_id t) + 1)" "db_tasks s2 = db_tasks s1"
    by (rule insert_attempt_fresh)
  have moved: "fst (cas_task (t_id t) (t_lockVersion t) f s2)" for f
    using t by (auto simp: s2(4) s1)
  have rdy: "map_option (\<lambda>c. t_id (c_task c)) (fst r) = Some (t_id t)" "db_attempts (snd r) = db_attempts s @ [a]"
    "\<exists>f. db_tasks (snd r) = update_where (\<lambda>u. t_id u = t_id t \<and> t_lockVersion u = t_lockVersion t) f (db_tasks s)" if ready
  proof -
    have open_row: "\<not> (t_status t \<noteq> TIdle \<and> t_status t \<noteq> TScheduled)" "t_foreachConfig t = None"
      "ge_state (deriveEffectiveGateState (gateContextFor t deps st ks aps now)) = Dispatchable"
      using ready that by (auto simp: isDispatchable_def)
    obtain c s3 where c: "r = (Some c, s3)" "t_id (c_task c) = t_id t" "db_attempts s3 = db_attempts s2"
      "\<exists>f. db_tasks s3 = update_where (\<lambda>u. t_id u = t_id t \<and> t_lockVersion u = t_lockVersion t) f (db_tasks s2)"
      unfolding r claim_task_def Let_def if_not_P [OF open_row(1)] s1_def [symmetric] ia
      using moved by (simp add: open_row(2,3) split_beta del: cas_task_simps(1)) blast
    then show "map_option (\<lambda>c. t_id (c_task c)) (fst r) = Some (t_id t)" "db_attempts (snd r) = db_attempts s @ [a]"
      "\<exists>f. db_tasks (snd r) = update_where (\<lambda>u. t_id u = t_id t \<and> t_lockVersion u = t_lockVersion t) f (db_tasks s)"
      by (simp_all add: s2 s1)
  qed
  have "r = (None, s) \<or> r = (None, s1)" if "\<not> ready"
    using ready that unfolding r claim_task_def Let_def s1_def [symmetric] isDispatchable_def
    by (cases "t_status t \<noteq> TIdle \<and> t_status t \<noteq> TScheduled"; cases "t_foreachConfig t = None"; simp)
  then have not_rdy: "fst r = None" "db_attempts (snd r) = db_attempts s" "db_tasks (snd r) = db_tasks s" if "\<not> ready"
    using that s1 by auto
  show "map_option (\<lambda>c. t_id (c_task c)) (fst r) = (if ready then Some (t_id t) else None)"
    using rdy(1) not_rdy(1) by simp
  show "u \<in> set (db_tasks (snd r))" if "u \<in> set (db_tasks s)" "t_id u \<noteq> t_id t"
    using that rdy(3) not_rdy(3) by (cases ready) (auto simp: set_update_where)
  show "fresh_key (snd r) wid i" if "fresh_key s wid i" "i \<noteq> t_id t"
  proof (cases ready)
    case True
    with that s2 rdy(2) show ?thesis by (intro fresh_key_append [OF that(1)]) auto
  next
    case False
    with that not_rdy(2) show ?thesis using fresh_key_cong by blast
  qed
qed

lemma claim_loop_exact:
  assumes "set ts \<subseteq> set (db_tasks s)" and "distinct (map t_id ts)" and "\<And>t. t \<in> set ts \<Longrightarrow> fresh_key s wid (t_id t)"
    and "length claimed \<le> cap"
    and ready: "\<And>t. ready t \<longleftrightarrow> (t_status t = TIdle \<or> t_status t = TScheduled) \<and> t_foreachConfig t = None
      \<and> isDispatchable (gateContextFor t deps st ks aps now)"
  shows "map (\<lambda>c. t_id (c_task c)) (fst (capped_loop cap (claim_task E wid now prov deps st ks aps) ts claimed s)) =
    map (\<lambda>c. t_id (c_task c)) claimed @ take (cap - length claimed) (map t_id (filter ready ts))"
  using assms(1-4)
proof (induction ts arbitrary: claimed s)
  case (Cons t ts)
  show ?case
  proof (cases "cap \<le> length claimed")
    case True
    with Cons.prems(4) show ?thesis by simp
  next
    case False
    obtain c s' where r: "claim_task E wid now prov deps st ks aps t s = (c, s')" by (metis surj_pair)
    have t: "t \<in> set (db_tasks s)" "fresh_key s wid (t_id t)" using Cons.prems(1,3) by auto
    note eff = claim_task_effect [OF t r [symmetric] ready, simplified]
    define cl where "cl = (case c of None \<Rightarrow> claimed | Some x \<Rightarrow> claimed @ [x])"
    have cl: "map (\<lambda>c. t_id (c_task c)) cl = map (\<lambda>c. t_id (c_task c)) claimed @ (if ready t then [t_id t] else [])"
      using eff(1) by (cases c) (auto simp: cl_def split: if_splits)
    have len: "length cl = length claimed + (if ready t then 1 else 0)"
      using arg_cong [OF cl, of length] by simp
    have ih: "map (\<lambda>c. t_id (c_task c)) (fst (capped_loop cap (claim_task E wid now prov deps st ks aps) ts cl s')) =
        map (\<lambda>c. t_id (c_task c)) cl @ take (cap - length cl) (map t_id (filter ready ts))"
    proof (rule Cons.IH)
      have other: "t_id u \<noteq> t_id t" "u \<in> set (db_tasks s)" "fresh_key s wid (t_id u)" if u: "u \<in> set ts" for u
        using u Cons.prems(1,3) imageI [OF u, of t_id] Cons.prems(2) by (auto simp del: image_eqI)
      show "set ts \<subseteq> set (db_tasks s')" using other eff(2) by blast
      show "fresh_key s' wid (t_id u)" if u: "u \<in> set ts" for u
        by (rule eff(3)) (use other [OF u] in simp_all)
      show "distinct (map t_id ts)" using Cons.prems(2) by simp
      show "length cl \<le> cap" using False len by simp
    qed
    have "cap - length claimed = Suc (cap - Suc (length claimed))" using False by simp
    then show ?thesis using False ih by (simp add: r cl_def [symmetric] cl len)
  qed
qed simp

text \<open>With nothing running, recovery and reclaim have nothing to do.\<close>

lemma recover_loop_none:
  "list_all (\<lambda>t. t_status t \<noteq> TRunning) ts \<Longrightarrow> recover_loop E wid now prov ts st s = (ts, st, s)"
  by (induction ts) (simp_all add: recover_task_def)

lemma reclaim_loop_none:
  "list_all (\<lambda>t. t_status t \<noteq> TRunning) ts \<Longrightarrow> capped_loop cap (reclaim_task E wid prov) ts claimed s = (claimed, s)"
  by (induction ts) (simp_all add: reclaim_task_def)



end
