(* ===== verification/Wf_CriticalPath.thy ===== *)
theory Wf_CriticalPath
  imports Wf_Rows "HOL-Library.List_Lexorder" "HOL-Library.Char_ord"
begin

text \<open>
  The critical-path method over the leaves of a workflow's task hierarchy,
  \<^verbatim>\<open>packages/workflows/src/schedule/critical-path.ts\<close>: Kahn's topological sort with a lexicographic
  tie-break, the forward pass (earliest finish), the backward pass (latest finish) and the tasks
  whose slack is at most the tolerance of one millisecond. Instants are integers (milliseconds).
  A \<^verbatim>\<open>Map\<close> filled by pushing in a loop is the function that selects the pushed values; the result
  object is an association list without repeated keys.
\<close>

record cpm_task =
  ct_key :: string
  ct_parentKey :: "string option"
  ct_startMs :: int
  ct_endMs :: int

record cpm_edge =
  ce_taskKey :: string
  ce_dependsOnKey :: string

record critical_entry =
  isCriticalPath :: bool
  criticalPathRank :: int

definition SLACK_EPSILON_MS :: int where
  "SLACK_EPSILON_MS = 1"

text \<open>Parents are transparent: only leaves take part.\<close>

definition is_parent :: "cpm_task list \<Rightarrow> string \<Rightarrow> bool" where
  "is_parent tasks k \<longleftrightarrow> list_ex (\<lambda>t. truthy (ct_parentKey t) \<and> ct_parentKey t = Some k) tasks"

definition cpm_leaves :: "cpm_task list \<Rightarrow> cpm_task list" where
  "cpm_leaves tasks = filter (\<lambda>t. \<not> is_parent tasks (ct_key t)) tasks"

definition leaf_by_key :: "cpm_task list \<Rightarrow> string \<rightharpoonup> cpm_task" where
  "leaf_by_key tasks = js_map (map (\<lambda>t. (ct_key t, t)) (cpm_leaves tasks))"

definition kept_edges :: "cpm_task list \<Rightarrow> cpm_edge list \<Rightarrow> cpm_edge list" where
  "kept_edges tasks dependencies =
     filter (\<lambda>e. leaf_by_key tasks (ce_taskKey e) \<noteq> None \<and> leaf_by_key tasks (ce_dependsOnKey e) \<noteq> None
                 \<and> ce_taskKey e \<noteq> ce_dependsOnKey e) dependencies"

definition preds_of :: "cpm_edge list \<Rightarrow> string \<Rightarrow> string list" where
  "preds_of es k = map ce_dependsOnKey (filter (\<lambda>e. ce_taskKey e = k) es)"

definition succs_of :: "cpm_edge list \<Rightarrow> string \<Rightarrow> string list" where
  "succs_of es k = map ce_taskKey (filter (\<lambda>e. ce_dependsOnKey e = k) es)"

text \<open>The keys of the leaf maps, in insertion order, each with its number of predecessors.\<close>

definition initial_indegree :: "cpm_task list \<Rightarrow> cpm_edge list \<Rightarrow> (string \<times> int) list" where
  "initial_indegree tasks es =
     map (\<lambda>k. (k, int (length (preds_of es k)))) (rev (remdups (rev (map ct_key (cpm_leaves tasks)))))"

section \<open>Kahn's algorithm\<close>

definition relax :: "string \<Rightarrow> (string \<times> int) list \<times> string list \<Rightarrow> (string \<times> int) list \<times> string list" where
  "relax s st =
     (let (indegree, ready) = st;
          n = nullish (map_of indegree s) 0 - 1
      in (AList.update s n indegree, if n = 0 then ready @ [s] else ready))"

text \<open>The keys that still wait for a predecessor; each of them can become ready once.\<close>

definition waiting :: "(string \<times> int) list \<Rightarrow> string set" where
  "waiting indegree = {k. \<exists>n. map_of indegree k = Some n \<and> 0 < n}"

lemma finite_waiting [simp]: "finite (waiting d)"
  by (rule finite_subset [of _ "dom (map_of d)"]) (auto simp: waiting_def finite_dom_map_of)

lemma relax_budget:
  "length (snd (relax s st)) + card (waiting (fst (relax s st))) \<le> length (snd st) + card (waiting (fst st))"
proof (cases "nullish (map_of (fst st) s) 0 - 1 = 0")
  case True
  then have "map_of (fst st) s = Some 1" by (cases "map_of (fst st) s") auto
  then have "waiting (fst (relax s st)) = waiting (fst st) - {s}" "s \<in> waiting (fst st)"
    by (auto simp: waiting_def relax_def split_beta Let_def update_conv')
  then show ?thesis using True card_Suc_Diff1 [of "waiting (fst st)" s] by (simp add: relax_def split_beta Let_def)
next
  case False
  have "waiting (fst (relax s st)) \<subseteq> waiting (fst st)"
    by (cases "map_of (fst st) s") (auto simp: waiting_def relax_def split_beta Let_def update_conv' split: if_splits)
  then have "card (waiting (fst (relax s st))) \<le> card (waiting (fst st))" by (intro card_mono) simp_all
  then show ?thesis using False by (simp add: relax_def split_beta Let_def)
qed

lemma fold_relax_budget:
  "length (snd (fold relax ss st)) + card (waiting (fst (fold relax ss st))) \<le> length (snd st) + card (waiting (fst st))"
proof (induction ss arbitrary: st)
  case (Cons s ss)
  show ?case using Cons [of "relax s st"] relax_budget [of s st] by simp
qed simp

function kahn :: "(string \<Rightarrow> string list) \<Rightarrow> (string \<times> int) list \<Rightarrow> string list \<Rightarrow> string list \<Rightarrow> string list" where
  "kahn succs indegree [] topo = topo"
| "kahn succs indegree (k # ready) topo =
     (let (indegree', ready') = fold relax (sort (succs k)) (indegree, ready)
      in kahn succs indegree' (sort ready') (topo @ [k]))"
  by pat_completeness auto
termination
proof (relation "measure (\<lambda>(succs, indegree, ready, topo). length ready + card (waiting indegree))")
  show "wf (measure (\<lambda>(succs, indegree, ready, topo). length ready + card (waiting indegree)))" by simp
next
  fix succs :: "string \<Rightarrow> string list" and indegree k ready topo x d r
  assume "x = fold relax (sort (succs k)) (indegree, ready)" "(d, r) = x"
  then show "((succs, d, sort r, topo @ [k]), succs, indegree, k # ready, topo) \<in>
      measure (\<lambda>(succs, indegree, ready, topo). length ready + card (waiting indegree))"
    using fold_relax_budget [of "sort (succs k)" "(indegree, ready)"] by (metis (no_types, lifting) add_Suc case_prod_conv fst_conv snd_conv in_measure length_Cons length_sort le_imp_less_Suc)
qed

definition cpm_topo :: "cpm_task list \<Rightarrow> cpm_edge list \<Rightarrow> string list" where
  "cpm_topo tasks es =
     (let indegree = initial_indegree tasks es;
          ready = sort (map fst (filter (\<lambda>(k, n). n = 0) indegree))
      in kahn (succs_of es) indegree ready [])"

section \<open>Forward and backward pass\<close>

definition cpm_dur :: "cpm_task list \<Rightarrow> string \<Rightarrow> int" where
  "cpm_dur tasks k = (case leaf_by_key tasks k of None \<Rightarrow> 0 | Some t \<Rightarrow> max 0 (ct_endMs t - ct_startMs t))"

definition forward_visit :: "cpm_task list \<Rightarrow> cpm_edge list \<Rightarrow> string \<Rightarrow> (string \<rightharpoonup> int) \<Rightarrow> string \<rightharpoonup> int" where
  "forward_visit tasks es k ef =
     (let maxPredEf = fold (\<lambda>p m. max m (nullish (ef p) 0)) (preds_of es k) 0
      in ef(k \<mapsto> maxPredEf + cpm_dur tasks k))"

definition earliest_finish :: "cpm_task list \<Rightarrow> cpm_edge list \<Rightarrow> string list \<Rightarrow> string \<rightharpoonup> int" where
  "earliest_finish tasks es topo = fold (forward_visit tasks es) topo Map.empty"

definition makespan_of :: "(string \<rightharpoonup> int) \<Rightarrow> string list \<Rightarrow> int" where
  "makespan_of ef topo = fold (\<lambda>k m. max m (nullish (ef k) 0)) topo 0"

definition latest_of :: "cpm_edge list \<Rightarrow> int \<Rightarrow> string \<Rightarrow> (string \<rightharpoonup> int) \<Rightarrow> int" where
  "latest_of es makespan k ls =
     (case map (\<lambda>s. nullish (ls s) makespan) (succs_of es k) of
        [] \<Rightarrow> makespan
      | v # vs \<Rightarrow> fold (\<lambda>v m. min m v) vs v)"

definition backward_visit ::
  "cpm_task list \<Rightarrow> cpm_edge list \<Rightarrow> int \<Rightarrow> string \<Rightarrow> (string \<rightharpoonup> int) \<times> (string \<rightharpoonup> int) \<Rightarrow>
   (string \<rightharpoonup> int) \<times> (string \<rightharpoonup> int)" where
  "backward_visit tasks es makespan k st =
     (let (lf, ls) = st; minSuccLs = latest_of es makespan k ls
      in (lf(k \<mapsto> minSuccLs), ls(k \<mapsto> minSuccLs - cpm_dur tasks k)))"

definition latest_times ::
  "cpm_task list \<Rightarrow> cpm_edge list \<Rightarrow> int \<Rightarrow> string list \<Rightarrow> (string \<rightharpoonup> int) \<times> (string \<rightharpoonup> int)" where
  "latest_times tasks es makespan topo = fold (backward_visit tasks es makespan) (rev topo) (Map.empty, Map.empty)"

definition computeCriticalPath :: "cpm_task list \<Rightarrow> cpm_edge list \<Rightarrow> (string \<times> critical_entry) list" where
  "computeCriticalPath tasks dependencies =
     (if tasks = [] then []
      else if cpm_leaves tasks = [] then []
      else
        (let es = kept_edges tasks dependencies;
             topo = cpm_topo tasks es
         in if length topo \<noteq> length (cpm_leaves tasks) then []
            else
              (let ef = earliest_finish tasks es topo;
                   makespan = makespan_of ef topo;
                   lf = fst (latest_times tasks es makespan topo)
               in map (\<lambda>k. (k, \<lparr>isCriticalPath = True, criticalPathRank = nullish (ef k) 0\<rparr>))
                    (filter (\<lambda>k. \<bar>nullish (lf k) 0 - nullish (ef k) 0\<bar> \<le> SLACK_EPSILON_MS) topo))))"

section \<open>Kahn's algorithm emits exactly the keys without a cyclic ancestor\<close>

definition wait_count :: "cpm_edge list \<Rightarrow> string set \<Rightarrow> string \<Rightarrow> int" where
  "wait_count es emitted k = int (length (filter (\<lambda>p. p \<notin> emitted) (preds_of es k)))"

text \<open>The keys of the leaf graph and its edges.\<close>

definition cpm_keys :: "cpm_task list \<Rightarrow> string set" where
  "cpm_keys tasks = ct_key ` set (cpm_leaves tasks)"

definition graph_ok :: "string set \<Rightarrow> cpm_edge list \<Rightarrow> bool" where
  "graph_ok K es \<longleftrightarrow> (\<forall>e \<in> set es. ce_taskKey e \<in> K \<and> ce_dependsOnKey e \<in> K \<and> ce_taskKey e \<noteq> ce_dependsOnKey e)"

lemma leaf_by_key_dom: "leaf_by_key tasks k \<noteq> None \<longleftrightarrow> k \<in> cpm_keys tasks"
  unfolding leaf_by_key_def js_map_def cpm_keys_def
  by (simp add: map_of_eq_None_iff image_image)

lemma kept_graph_ok: "graph_ok (cpm_keys tasks) (kept_edges tasks deps)"
  by (auto simp: graph_ok_def kept_edges_def simp flip: leaf_by_key_dom)

text \<open>
  The state of the sort between two rounds: the counters are the predecessors not emitted yet, a
  key is ready or emitted exactly when its counter is zero, and an emitted key comes after its
  predecessors.
\<close>

definition kahn_inv :: "string set \<Rightarrow> cpm_edge list \<Rightarrow> (string \<times> int) list \<Rightarrow> string list \<Rightarrow> string list \<Rightarrow> bool" where
  "kahn_inv K es d ready topo \<longleftrightarrow>
     (\<forall>k \<in> K. map_of d k = Some (wait_count es (set topo) k))
     \<and> distinct (topo @ ready) \<and> set (topo @ ready) = {k \<in> K. wait_count es (set topo) k = 0}
     \<and> (\<forall>i < length topo. set (preds_of es (topo ! i)) \<subseteq> set (take i topo))"

lemma fold_relax_counts:
  assumes "\<And>s. s \<in> set ss \<Longrightarrow> \<exists>n. map_of d s = Some n \<and> int (count_list ss s) \<le> n" and "distinct r"
    and "\<And>s. s \<in> set ss \<Longrightarrow> s \<notin> set r"
  shows "map_of (fst (fold relax ss (d, r))) k = map_option (\<lambda>n. n - int (count_list ss k)) (map_of d k)
    \<and> distinct (snd (fold relax ss (d, r)))
    \<and> set (snd (fold relax ss (d, r))) = set r \<union> {s \<in> set ss. map_of d s = Some (int (count_list ss s))}"
  using assms
proof (induction ss arbitrary: d r)
  case Nil
  then show ?case by (simp add: option.map_id0 option.map_ident)
next
  case (Cons s ss)
  obtain n where n: "map_of d s = Some n" "int (count_list ss s) + 1 \<le> n" using Cons.prems(1) [of s] by auto
  define d' where "d' = AList.update s (n - 1) d"
  define r' where "r' = (if n = 1 then r @ [s] else r)"
  have rel: "relax s (d, r) = (d', r')" by (simp add: relax_def n d'_def r'_def Let_def)
  have d': "map_of d' = (map_of d)(s \<mapsto> n - 1)" by (simp add: d'_def update_conv')
  have one: "s \<notin> set ss" if "n = 1" using that n(2) by (simp add: count_list_0_iff flip: of_nat_0_le_iff)
  have ih: "map_of (fst (fold relax ss (d', r'))) k = map_option (\<lambda>n. n - int (count_list ss k)) (map_of d' k)
    \<and> distinct (snd (fold relax ss (d', r')))
    \<and> set (snd (fold relax ss (d', r'))) = set r' \<union> {x \<in> set ss. map_of d' x = Some (int (count_list ss x))}"
  proof (rule Cons.IH)
    show "\<exists>m. map_of d' x = Some m \<and> int (count_list ss x) \<le> m" if "x \<in> set ss" for x
      using that n Cons.prems(1) [of x] by (cases "x = s") (auto simp: d')
    show "distinct r'" using Cons.prems(2,3) by (auto simp: r'_def)
    show "x \<notin> set r'" if "x \<in> set ss" for x using that Cons.prems(3) one by (auto simp: r'_def)
  qed
  have "set r' \<union> {x \<in> set ss. map_of d' x = Some (int (count_list ss x))} =
      set r \<union> {x \<in> set (s # ss). map_of d x = Some (int (count_list (s # ss) x))}"
  proof (cases "n = 1")
    case True
    with one have "s \<notin> set ss" "count_list ss s = 0" by (simp_all add: count_list_0_iff)
    with True n show ?thesis by (auto simp: r'_def d')
  next
    case False
    then have "s \<in> set ss \<or> n \<noteq> int (count_list ss s) + 1" by (auto simp: count_list_0_iff)
    with False n show ?thesis by (auto simp: r'_def d')
  qed
  with ih show ?case using n by (auto simp: rel d')
qed

lemma length_filter_remove: "length (filter (\<lambda>p. p \<notin> insert k A) xs) + (if k \<in> A then 0 else count_list xs k) = length (filter (\<lambda>p. p \<notin> A) xs)"
  by (induction xs) auto

lemma count_succs: "count_list (succs_of es k) s = count_list (preds_of es s) k"
  by (induction es) (auto simp: succs_of_def preds_of_def)

lemma wait_count_emit:
  "k \<notin> A \<Longrightarrow> wait_count es (insert k A) s = wait_count es A s - int (count_list (succs_of es k) s)"
  using length_filter_remove [of k A "preds_of es s"] by (simp add: wait_count_def count_succs)

lemma count_sort [simp]: "count_list (sort xs) x = count_list xs x"
  by (simp add: count_list_eq_length_filter filter_sort)

lemma wait_count_zero: "wait_count es A k = 0 \<longleftrightarrow> set (preds_of es k) \<subseteq> A"
  by (auto simp: wait_count_def filter_empty_conv)

lemma wait_count_nonneg: "0 \<le> wait_count es A k" by (simp add: wait_count_def)

lemma in_succs: "s \<in> set (succs_of es k) \<longleftrightarrow> k \<in> set (preds_of es s)"
  by (auto simp: succs_of_def preds_of_def)

lemma kahn_inv_step:
  assumes inv: "kahn_inv K es d (k # ready) topo" and ok: "graph_ok K es"
    and f: "fold relax (sort (succs_of es k)) (d, ready) = (d', ready')"
  shows "kahn_inv K es d' (sort ready') (topo @ [k])"
proof -
  let ?c = "wait_count es (set topo)"
  have d: "\<And>x. x \<in> K \<Longrightarrow> map_of d x = Some (?c x)" and dist: "distinct (topo @ k # ready)"
    and zero: "set topo \<union> insert k (set ready) = {k \<in> K. ?c k = 0}"
    and order: "\<And>i. i < length topo \<Longrightarrow> set (preds_of es (topo ! i)) \<subseteq> set (take i topo)"
    using inv by (auto simp: kahn_inv_def)
  have k: "k \<in> K" "?c k = 0" "k \<notin> set topo" using zero dist by auto
  have succ_K: "s \<in> K" if "s \<in> set (succs_of es k)" for s using that ok by (auto simp: graph_ok_def succs_of_def)
  have pos: "int (count_list (succs_of es k) s) \<le> ?c s" for s
    using wait_count_emit [OF k(3), of es s] wait_count_nonneg [of es "insert k (set topo)" s] by simp
  have new: "s \<notin> set ready" if "s \<in> set (succs_of es k)" for s
  proof
    assume "s \<in> set ready"
    then have "?c s = 0" using zero by auto
    then have "k \<in> set topo" using that by (auto simp: wait_count_zero in_succs)
    with k show False by simp
  qed
  have "map_of d' x = map_option (\<lambda>n. n - int (count_list (succs_of es k) x)) (map_of d x) \<and> distinct ready'
    \<and> set ready' = set ready \<union> {s \<in> set (succs_of es k). map_of d s = Some (int (count_list (succs_of es k) s))}" for x
    using fold_relax_counts [of "sort (succs_of es k)" d ready x] d succ_K pos new dist by (simp add: f)
  then have d': "\<And>x. map_of d' x = map_option (\<lambda>n. n - int (count_list (succs_of es k) x)) (map_of d x)"
    and r': "distinct ready'" "set ready' = set ready \<union> {s \<in> set (succs_of es k). map_of d s = Some (int (count_list (succs_of es k) s))}"
    by auto
  have cnt: "wait_count es (set (topo @ [k])) x = ?c x - int (count_list (succs_of es k) x)" for x
    using wait_count_emit [OF k(3)] by simp
  have zero': "set (topo @ [k] @ ready') = {x \<in> K. wait_count es (set (topo @ [k])) x = 0}"
  proof (rule set_eqI)
    fix x
    have "x \<in> set (topo @ [k] @ ready') \<longleftrightarrow> x \<in> {x \<in> K. ?c x = 0} \<or> x \<in> set (succs_of es k) \<and> ?c x = int (count_list (succs_of es k) x)"
      using r'(2) zero d succ_K by auto
    also have "\<dots> \<longleftrightarrow> x \<in> K \<and> ?c x = int (count_list (succs_of es k) x)"
      using pos [of x] succ_K [of x] by (cases "x \<in> set (succs_of es k)") (auto simp: count_list_0_iff [THEN iffD2])
    finally show "x \<in> set (topo @ [k] @ ready') \<longleftrightarrow> x \<in> {x \<in> K. wait_count es (set (topo @ [k])) x = 0}"
      unfolding cnt by simp
  qed
  have later: "x \<notin> insert k (set topo)" if "x \<in> set (succs_of es k)" for x
    using that zero new [of x] k order dist ok by (auto simp: in_succs wait_count_zero)
  have "distinct ((topo @ [k]) @ sort ready')"
    using r' dist later by auto
  moreover have "set (preds_of es ((topo @ [k]) ! i)) \<subseteq> set (take i (topo @ [k]))" if "i < length (topo @ [k])" for i
    using that order [of i] k(2) by (cases "i < length topo") (auto simp: nth_append wait_count_zero)
  ultimately show ?thesis
    unfolding kahn_inv_def using zero' d d' cnt by auto
qed

lemma kahn_spec: "kahn_inv K es d ready topo \<Longrightarrow> graph_ok K es \<Longrightarrow> \<exists>d'. kahn_inv K es d' [] (kahn (succs_of es) d ready topo)"
proof (induction "succs_of es" d ready topo rule: kahn.induct)
  case (2 d k ready topo)
  obtain d' ready' where f: "fold relax (sort (succs_of es k)) (d, ready) = (d', ready')" by (metis surj_pair)
  from 2 kahn_inv_step [OF 2(2,3) f] show ?case by (simp add: f)
qed auto

lemma kahn_initial:
  assumes "graph_ok (cpm_keys tasks) es"
  shows "kahn_inv (cpm_keys tasks) es (initial_indegree tasks es) (sort (map fst (filter (\<lambda>(k, n). n = 0) (initial_indegree tasks es)))) []"
proof -
  let ?ks = "rev (remdups (rev (map ct_key (cpm_leaves tasks))))"
  have ks: "distinct ?ks" "set ?ks = cpm_keys tasks" by (auto simp: cpm_keys_def)
  have ind: "initial_indegree tasks es = map (\<lambda>k. (k, wait_count es {} k)) ?ks"
    by (simp add: initial_indegree_def wait_count_def)
  have "map_of (initial_indegree tasks es) k = Some (wait_count es {} k)" if "k \<in> cpm_keys tasks" for k
    using that ks(2) unfolding ind by (auto simp: map_of_map_restrict)
  moreover have "map fst (filter (\<lambda>(k, n). n = 0) (initial_indegree tasks es)) = filter (\<lambda>k. wait_count es {} k = 0) ?ks"
    unfolding ind by (simp add: filter_map o_def)
  ultimately show ?thesis using ks by (auto simp: kahn_inv_def)
qed

definition topo_of :: "cpm_task list \<Rightarrow> cpm_edge list \<Rightarrow> string list" where
  "topo_of tasks deps = cpm_topo tasks (kept_edges tasks deps)"

lemma topo_facts:
  shows "distinct (topo_of tasks deps)" and "set (topo_of tasks deps) \<subseteq> cpm_keys tasks"
    and "i < length (topo_of tasks deps) \<Longrightarrow>
      set (preds_of (kept_edges tasks deps) (topo_of tasks deps ! i)) \<subseteq> set (take i (topo_of tasks deps))"
    and "k \<in> cpm_keys tasks \<Longrightarrow> set (preds_of (kept_edges tasks deps) k) \<subseteq> set (topo_of tasks deps) \<Longrightarrow> k \<in> set (topo_of tasks deps)"
proof -
  obtain d where inv: "kahn_inv (cpm_keys tasks) (kept_edges tasks deps) d [] (topo_of tasks deps)"
    using kahn_spec [OF kahn_initial [OF kept_graph_ok] kept_graph_ok] by (auto simp: topo_of_def cpm_topo_def Let_def)
  show "distinct (topo_of tasks deps)" and "set (topo_of tasks deps) \<subseteq> cpm_keys tasks"
    and "i < length (topo_of tasks deps) \<Longrightarrow>
      set (preds_of (kept_edges tasks deps) (topo_of tasks deps ! i)) \<subseteq> set (take i (topo_of tasks deps))"
    and "k \<in> cpm_keys tasks \<Longrightarrow> set (preds_of (kept_edges tasks deps) k) \<subseteq> set (topo_of tasks deps) \<Longrightarrow> k \<in> set (topo_of tasks deps)"
    using inv by (auto simp: kahn_inv_def wait_count_zero)
qed

text \<open>The dependency relation between leaves.\<close>

definition leaf_edges :: "cpm_task list \<Rightarrow> cpm_edge list \<Rightarrow> (string \<times> string) set" where
  "leaf_edges tasks deps = {(ce_dependsOnKey e, ce_taskKey e) | e. e \<in> set (kept_edges tasks deps)}"

lemma preds_edges: "p \<in> set (preds_of (kept_edges tasks deps) k) \<longleftrightarrow> (p, k) \<in> leaf_edges tasks deps"
  by (auto simp: preds_of_def leaf_edges_def)

lemma succs_edges: "s \<in> set (succs_of (kept_edges tasks deps) k) \<longleftrightarrow> (k, s) \<in> leaf_edges tasks deps"
  by (simp add: in_succs preds_edges)

definition position :: "'a list \<Rightarrow> 'a \<Rightarrow> nat" where
  "position xs x = length (takeWhile (\<lambda>y. y \<noteq> x) xs)"

lemma position_nth: "distinct xs \<Longrightarrow> i < length xs \<Longrightarrow> position xs (xs ! i) = i"
proof (induction xs arbitrary: i)
  case (Cons x xs)
  then show ?case by (cases i) (auto simp: position_def)
qed simp

lemma topo_before:
  assumes "k \<in> set (topo_of tasks deps)" and "(p, k) \<in> leaf_edges tasks deps"
  shows "p \<in> set (topo_of tasks deps) \<and> position (topo_of tasks deps) p < position (topo_of tasks deps) k"
proof -
  let ?t = "topo_of tasks deps"
  obtain i where i: "i < length ?t" "?t ! i = k" using assms(1) by (auto simp: in_set_conv_nth)
  have "p \<in> set (take i ?t)" using topo_facts(3) [OF i(1)] assms(2) i by (auto simp: preds_edges)
  then obtain j where j: "j < i" "j < length ?t" "?t ! j = p" by (auto simp: in_set_conv_nth)
  have "position ?t (?t ! i) = i" "position ?t (?t ! j) = j" using topo_facts(1) i(1) j(2) by (auto intro: position_nth)
  with i j show ?thesis by auto
qed

lemma finite_leaf_edges: "finite (leaf_edges tasks deps)"
  by (rule finite_subset [of _ "(\<lambda>e. (ce_dependsOnKey e, ce_taskKey e)) ` set (kept_edges tasks deps)"]) (auto simp: leaf_edges_def)

lemma leaf_edges_keys: "(a, b) \<in> leaf_edges tasks deps \<Longrightarrow> a \<in> cpm_keys tasks \<and> b \<in> cpm_keys tasks"
  using kept_graph_ok [of tasks deps] by (auto simp: leaf_edges_def graph_ok_def)

lemma topo_all_iff: "set (topo_of tasks deps) = cpm_keys tasks \<longleftrightarrow> acyclic (leaf_edges tasks deps)"
proof
  assume all: "set (topo_of tasks deps) = cpm_keys tasks"
  have "position (topo_of tasks deps) a < position (topo_of tasks deps) b" if "(a, b) \<in> (leaf_edges tasks deps)\<^sup>+" for a b
    using that
  proof (induction rule: trancl_induct)
    case (base y)
    then show ?case using topo_before leaf_edges_keys all by blast
  next
    case (step y z)
    then have "position (topo_of tasks deps) y < position (topo_of tasks deps) z" using topo_before leaf_edges_keys all by blast
    with step.IH show ?case by simp
  qed
  then show "acyclic (leaf_edges tasks deps)" unfolding acyclic_def by fastforce
next
  assume "acyclic (leaf_edges tasks deps)"
  then have wf: "wf (leaf_edges tasks deps)" using finite_leaf_edges by (simp add: wf_iff_acyclic_if_finite)
  have "k \<in> cpm_keys tasks \<longrightarrow> k \<in> set (topo_of tasks deps)" for k
    using wf
  proof (induction k rule: wf_induct_rule)
    case (less k)
    show ?case
    proof
      assume k: "k \<in> cpm_keys tasks"
      show "k \<in> set (topo_of tasks deps)"
        by (rule topo_facts(4) [OF k]) (use less leaf_edges_keys in \<open>auto simp: preds_edges\<close>)
    qed
  qed
  then show "set (topo_of tasks deps) = cpm_keys tasks" using topo_facts(2) by blast
qed

text \<open>The graph the passes run on: no repeated leaf key, no cycle.\<close>

definition cpm_accepts :: "cpm_task list \<Rightarrow> cpm_edge list \<Rightarrow> bool" where
  "cpm_accepts tasks deps \<longleftrightarrow> distinct (map ct_key (cpm_leaves tasks)) \<and> acyclic (leaf_edges tasks deps)"

lemma topo_length: "length (topo_of tasks deps) = length (cpm_leaves tasks) \<longleftrightarrow> cpm_accepts tasks deps"
proof -
  let ?ks = "map ct_key (cpm_leaves tasks)"
  have len: "length (topo_of tasks deps) = card (set (topo_of tasks deps))" using distinct_card [OF topo_facts(1)] by simp
  have K: "set ?ks = cpm_keys tasks" by (simp add: cpm_keys_def)
  have "card (set (topo_of tasks deps)) \<le> card (cpm_keys tasks)" "card (cpm_keys tasks) \<le> length ?ks"
    using card_mono [OF _ topo_facts(2), of tasks] card_length [of ?ks] unfolding K by (simp_all add: cpm_keys_def)
  moreover have "card (set (topo_of tasks deps)) = card (cpm_keys tasks) \<longleftrightarrow> set (topo_of tasks deps) = cpm_keys tasks"
    using card_subset_eq [OF _ topo_facts(2)] by (auto simp: cpm_keys_def)
  moreover have "distinct ?ks \<longleftrightarrow> card (cpm_keys tasks) = length ?ks"
    unfolding K [symmetric] using card_distinct distinct_card by blast
  ultimately show ?thesis unfolding cpm_accepts_def topo_all_iff [symmetric] len by auto
qed

section \<open>Longest chains\<close>

text \<open>
  Numbers that satisfy the recursion of a pass are the weights of the longest chains: the forward
  pass over predecessors, the backward pass over successors.
\<close>

lemma fold_max_ge: "(m :: int) \<le> fold (\<lambda>x m. max m (f x)) xs m"
proof (induction xs arbitrary: m)
  case (Cons x xs)
  show ?case using Cons [of "max m (f x)"] by simp
qed simp

lemma fold_max_mem: "x \<in> set xs \<Longrightarrow> f x \<le> fold (\<lambda>x m. max m (f x)) xs (m :: int)"
proof (induction xs arbitrary: m)
  case (Cons y xs)
  then show ?case using fold_max_ge [of "max m (f y)" f xs] by auto
qed simp

lemma fold_max_attained: "fold (\<lambda>x m. max m (f x)) xs (m :: int) = m \<or> (\<exists>x \<in> set xs. fold (\<lambda>x m. max m (f x)) xs m = f x)"
proof (induction xs arbitrary: m)
  case (Cons y xs)
  show ?case using Cons [of "max m (f y)"] by (auto simp: max_def split: if_splits)
qed simp

locale longest_chain =
  fixes K :: "'k set" and D :: "'k \<Rightarrow> 'k list" and w :: "'k \<Rightarrow> int" and M :: "'k \<Rightarrow> int" and rank :: "'k \<Rightarrow> nat"
  assumes closed: "k \<in> K \<Longrightarrow> d \<in> set (D k) \<Longrightarrow> d \<in> K"
    and ranked: "k \<in> K \<Longrightarrow> d \<in> set (D k) \<Longrightarrow> rank d < rank k"
    and weight_nonneg: "0 \<le> w k"
    and M_eq: "k \<in> K \<Longrightarrow> M k = fold (\<lambda>d m. max m (M d)) (D k) 0 + w k"
begin

lemma chain_bound: "k \<in> K \<Longrightarrow> successively (\<lambda>k j. j \<in> set (D k)) (k # c) \<Longrightarrow> sum_list (map w (k # c)) \<le> M k"
proof (induction c arbitrary: k)
  case Nil
  then show ?case using M_eq [of k] fold_max_ge [of 0 M "D k"] by simp
next
  case (Cons j c)
  then have "sum_list (map w (j # c)) \<le> M j" using closed by simp
  also have "\<dots> \<le> fold (\<lambda>d m. max m (M d)) (D k) 0" using Cons.prems fold_max_mem [of j "D k" M 0] by simp
  finally show ?case using M_eq [OF Cons.prems(1)] by simp
qed

lemma chain_attained: "k \<in> K \<Longrightarrow> \<exists>c. successively (\<lambda>k j. j \<in> set (D k)) (k # c) \<and> sum_list (map w (k # c)) = M k \<and> set (k # c) \<subseteq> K"
proof (induction "rank k" arbitrary: k rule: less_induct)
  case less
  show ?case
  proof (cases "fold (\<lambda>d m. max m (M d)) (D k) 0 = 0")
    case True
    then have "successively (\<lambda>k j. j \<in> set (D k)) [k] \<and> sum_list (map w [k]) = M k \<and> set [k] \<subseteq> K" using M_eq less.prems by simp
    then show ?thesis by blast
  next
    case False
    then obtain d where d: "d \<in> set (D k)" "fold (\<lambda>d m. max m (M d)) (D k) 0 = M d"
      using fold_max_attained [of M "D k" 0] by auto
    obtain c where "successively (\<lambda>k j. j \<in> set (D k)) (d # c)" "sum_list (map w (d # c)) = M d" "set (d # c) \<subseteq> K"
      using less.hyps [OF ranked [OF less.prems d(1)] closed [OF less.prems d(1)]] by blast
    with d M_eq [OF less.prems] less.prems have "successively (\<lambda>k j. j \<in> set (D k)) (k # d # c) \<and> sum_list (map w (k # d # c)) = M k \<and> set (k # d # c) \<subseteq> K" by simp
    then show ?thesis by blast
  qed
qed

lemma chain_keys: "k \<in> K \<Longrightarrow> successively (\<lambda>k j. j \<in> set (D k)) (k # c) \<Longrightarrow> set c \<subseteq> K"
  by (induction c arbitrary: k) (auto dest: closed)

end

text \<open>A pass that visits keys after everything they depend on satisfies its recursion at the end.\<close>

lemma fold_visits:
  assumes f: "\<And>k m. f k m = m(k \<mapsto> g k m)" and "distinct xs" and "\<And>i. i < length xs \<Longrightarrow> set (D (xs ! i)) \<subseteq> set (take i xs)"
    and "\<And>k m m'. dom m \<subseteq> A \<Longrightarrow> dom m' \<subseteq> A \<Longrightarrow> (\<And>d. d \<in> set (D k) \<Longrightarrow> m d = m' d) \<Longrightarrow> g k m = g k m'"
    and "set xs \<subseteq> A"
  shows "dom (fold f xs Map.empty) = set xs
    \<and> (\<forall>k \<in> set xs. fold f xs Map.empty k = Some (g k (fold f xs Map.empty)))"
  using assms(2,3,5)
proof (induction xs rule: rev_induct)
  case (snoc x xs)
  define M where "M = fold f xs Map.empty"
  have pre: "set (D (xs ! i)) \<subseteq> set (take i xs)" if "i < length xs" for i
    using snoc.prems(2) [of i] that by (simp add: nth_append)
  have ih: "dom M = set xs" "\<And>k. k \<in> set xs \<Longrightarrow> M k = Some (g k M)"
    using snoc.IH snoc.prems(1,3) pre by (auto simp: M_def)
  have x: "x \<notin> set xs" "set (D x) \<subseteq> set xs" using snoc.prems(1) snoc.prems(2) [of "length xs"] by auto
  have same: "g k (M(x \<mapsto> v)) = g k M" if k: "k \<in> set xs \<or> k = x" for k v
  proof (rule assms(4))
    fix d assume "d \<in> set (D k)"
    moreover have "set (D k) \<subseteq> set xs"
    proof (cases "k = x")
      case False
      then obtain i where "i < length xs" "xs ! i = k" using k by (auto simp: in_set_conv_nth)
      with pre [of i] show ?thesis by (meson order_trans set_take_subset)
    qed (use x in simp)
    ultimately show "(M(x \<mapsto> v)) d = M d" using x(1) by auto
  qed (use ih(1) snoc.prems(3) in auto)
  have step: "fold f (xs @ [x]) Map.empty = M(x \<mapsto> g x M)" by (simp add: f [of x] M_def)
  have "dom (M(x \<mapsto> g x M)) = set (xs @ [x])" using ih(1) by auto
  moreover have "(M(x \<mapsto> g x M)) k = Some (g k (M(x \<mapsto> g x M)))" if "k \<in> set (xs @ [x])" for k
    using that same [of k] ih(2) x(1) by (cases "k = x") (simp_all add: fun_upd_def)
  ultimately show ?case unfolding step by blast
qed simp

definition finish_time :: "cpm_task list \<Rightarrow> cpm_edge list \<Rightarrow> string \<Rightarrow> int" where
  "finish_time tasks deps k = nullish (earliest_finish tasks (kept_edges tasks deps) (topo_of tasks deps) k) 0"

definition makespan :: "cpm_task list \<Rightarrow> cpm_edge list \<Rightarrow> int" where
  "makespan tasks deps = makespan_of (earliest_finish tasks (kept_edges tasks deps) (topo_of tasks deps)) (topo_of tasks deps)"

definition start_by :: "cpm_task list \<Rightarrow> cpm_edge list \<Rightarrow> string \<rightharpoonup> int" where
  "start_by tasks deps = snd (latest_times tasks (kept_edges tasks deps) (makespan tasks deps) (topo_of tasks deps))"

text \<open>The time a key and everything after it needs, from the latest start.\<close>

definition tail_time :: "cpm_task list \<Rightarrow> cpm_edge list \<Rightarrow> string \<Rightarrow> int" where
  "tail_time tasks deps k = makespan tasks deps - nullish (start_by tasks deps k) (makespan tasks deps)"

definition emitted_succs :: "cpm_task list \<Rightarrow> cpm_edge list \<Rightarrow> string \<Rightarrow> string list" where
  "emitted_succs tasks deps k = filter (\<lambda>s. s \<in> set (topo_of tasks deps)) (succs_of (kept_edges tasks deps) k)"

lemma cpm_dur_nonneg: "0 \<le> cpm_dur tasks k"
  by (simp add: cpm_dur_def split: option.split)

lemma fold_cong_max: "(\<And>x. x \<in> set xs \<Longrightarrow> f x = g x) \<Longrightarrow> fold (\<lambda>x m. max m (f x)) xs (a :: int) = fold (\<lambda>x m. max m (g x)) xs a"
  by (rule fold_cong) simp_all

lemma finish_time_eq:
  assumes "k \<in> set (topo_of tasks deps)"
  shows "finish_time tasks deps k =
    fold (\<lambda>p m. max m (finish_time tasks deps p)) (preds_of (kept_edges tasks deps) k) 0 + cpm_dur tasks k"
proof -
  let ?es = "kept_edges tasks deps" and ?t = "topo_of tasks deps"
  let ?g = "\<lambda>k ef. fold (\<lambda>p m. max m (nullish (ef p) 0)) (preds_of ?es k) 0 + cpm_dur tasks k"
  have "\<forall>k \<in> set ?t. fold (forward_visit tasks ?es) ?t Map.empty k = Some (?g k (fold (forward_visit tasks ?es) ?t Map.empty))"
    by (rule conjunct2, rule fold_visits [where D = "preds_of ?es" and A = UNIV])
      (auto simp: forward_visit_def Let_def topo_facts(1,3) intro: fold_cong_max dest: subsetD [OF topo_facts(3)])
  with assms show ?thesis by (simp add: finish_time_def earliest_finish_def)
qed

interpretation forward: longest_chain "set (topo_of tasks deps)" "preds_of (kept_edges tasks deps)" "cpm_dur tasks"
  "finish_time tasks deps" "position (topo_of tasks deps)" for tasks deps
  by unfold_locales (use topo_before in \<open>auto simp: preds_edges cpm_dur_nonneg intro: finish_time_eq\<close>)

text \<open>The backward pass: both maps of its state from the latest starts.\<close>

lemma backward_snd:
  "snd (fold (backward_visit tasks es mk) ks st) =
     fold (\<lambda>k ls. ls(k \<mapsto> latest_of es mk k ls - cpm_dur tasks k)) ks (snd st)"
  by (induction ks arbitrary: st) (simp_all add: backward_visit_def Let_def split_beta)

lemma backward_fst:
  "(\<And>k. fst st k = map_option (\<lambda>v. v + cpm_dur tasks k) (snd st k)) \<Longrightarrow>
   fst (fold (backward_visit tasks es mk) ks st) k = map_option (\<lambda>v. v + cpm_dur tasks k) (snd (fold (backward_visit tasks es mk) ks st) k)"
  by (induction ks arbitrary: st) (simp_all add: backward_visit_def Let_def split_beta)

lemma fold_min_max: "(b :: int) - fold (\<lambda>x m. min m (h x)) vs v = fold (\<lambda>x m. max m (b - h x)) vs (b - v)"
proof (induction vs arbitrary: v)
  case (Cons a vs)
  have "b - min v (h a) = max (b - v) (b - h a)" by simp
  with Cons [of "min v (h a)"] show ?case by simp
qed simp

lemma latest_of_max:
  assumes "\<And>s. s \<in> set (succs_of es k) \<Longrightarrow> nullish (ls s) mk \<le> mk"
  shows "mk - latest_of es mk k ls = fold (\<lambda>s m. max m (mk - nullish (ls s) mk)) (succs_of es k) 0"
  using assms
proof (cases "succs_of es k")
  case (Cons s ss)
  then have "max 0 (mk - nullish (ls s) mk) = mk - nullish (ls s) mk" using assms [of s] by simp
  then show ?thesis by (simp add: latest_of_def Cons fold_min_max fold_map o_def)
qed (simp add: latest_of_def)

lemma position_less: "x \<in> set xs \<Longrightarrow> position xs x < length xs"
  unfolding position_def by (induction xs) auto

lemma take_rev_later:
  assumes "distinct xs" and "i < length xs" and "s \<in> set xs" and "position xs (rev xs ! i) < position xs s"
  shows "s \<in> set (take i (rev xs))"
proof -
  obtain j where j: "j < length xs" "xs ! j = s" using assms(3) by (auto simp: in_set_conv_nth)
  have "position xs (xs ! (length xs - Suc i)) = length xs - Suc i" "position xs (xs ! j) = j"
    using assms(1,2) j(1) by (auto intro: position_nth)
  with assms(2,4) j have "length xs - Suc i < j" by (simp add: rev_nth)
  then have "length xs - Suc j < i" "rev xs ! (length xs - Suc j) = s" using j by (auto simp: rev_nth)
  then show ?thesis using assms(2) by (auto simp: in_set_conv_nth intro!: exI [of _ "length xs - Suc j"])
qed

lemma emitted_later:
  "k \<in> set (topo_of tasks deps) \<Longrightarrow> s \<in> set (emitted_succs tasks deps k) \<Longrightarrow>
     s \<in> set (topo_of tasks deps) \<and> position (topo_of tasks deps) k < position (topo_of tasks deps) s"
  using topo_before [of s tasks deps k] by (auto simp: emitted_succs_def succs_edges)

lemma start_by_rec:
  shows "dom (start_by tasks deps) = set (topo_of tasks deps)"
    and "k \<in> set (topo_of tasks deps) \<Longrightarrow> start_by tasks deps k =
      Some (latest_of (kept_edges tasks deps) (makespan tasks deps) k (start_by tasks deps) - cpm_dur tasks k)"
proof -
  let ?es = "kept_edges tasks deps" and ?t = "topo_of tasks deps" and ?mk = "makespan tasks deps"
  let ?g = "\<lambda>k ls. latest_of ?es ?mk k ls - cpm_dur tasks k"
  let ?f = "\<lambda>k ls. ls(k \<mapsto> ?g k ls)"
  have sb: "start_by tasks deps = fold ?f (rev ?t) Map.empty"
    by (simp add: start_by_def latest_times_def backward_snd)
  have "dom (fold ?f (rev ?t) Map.empty) = set (rev ?t)
      \<and> (\<forall>k \<in> set (rev ?t). fold ?f (rev ?t) Map.empty k = Some (?g k (fold ?f (rev ?t) Map.empty)))"
  proof (rule fold_visits [where D = "emitted_succs tasks deps" and A = "set ?t"])
    show "set (emitted_succs tasks deps (rev ?t ! i)) \<subseteq> set (take i (rev ?t))" if "i < length (rev ?t)" for i
    proof
      fix s assume "s \<in> set (emitted_succs tasks deps (rev ?t ! i))"
      moreover have "rev ?t ! i \<in> set ?t" using that nth_mem [of i "rev ?t"] by simp
      ultimately have "s \<in> set ?t" "position ?t (rev ?t ! i) < position ?t s" using emitted_later by blast+
      then show "s \<in> set (take i (rev ?t))" using take_rev_later [OF topo_facts(1)] that by simp
    qed
    fix k and m m' :: "string \<rightharpoonup> int"
    assume dom: "dom m \<subseteq> set ?t" "dom m' \<subseteq> set ?t" and eq: "\<And>d. d \<in> set (emitted_succs tasks deps k) \<Longrightarrow> m d = m' d"
    have "m s = m' s" if "s \<in> set (succs_of ?es k)" for s
    proof (cases "s \<in> set ?t")
      case False
      then have "s \<notin> dom m" "s \<notin> dom m'" using dom by auto
      then show ?thesis by (simp add: domIff)
    qed (use that eq [of s] in \<open>simp add: emitted_succs_def\<close>)
    then have "map (\<lambda>s. nullish (m s) ?mk) (succs_of ?es k) = map (\<lambda>s. nullish (m' s) ?mk) (succs_of ?es k)" by simp
    then show "?g k m = ?g k m'" unfolding latest_of_def by (simp only:)
  qed (auto simp: topo_facts(1))
  then show "dom (start_by tasks deps) = set ?t" and "k \<in> set ?t \<Longrightarrow> start_by tasks deps k = Some (?g k (start_by tasks deps))"
    unfolding sb by auto
qed

lemma start_by_le: "k \<in> set (topo_of tasks deps) \<Longrightarrow> nullish (start_by tasks deps k) (makespan tasks deps) \<le> makespan tasks deps"
proof (induction "length (topo_of tasks deps) - position (topo_of tasks deps) k" arbitrary: k rule: less_induct)
  case less
  let ?mk = "makespan tasks deps" and ?ls = "start_by tasks deps"
  have "nullish (?ls s) ?mk \<le> ?mk" if "s \<in> set (succs_of (kept_edges tasks deps) k)" for s
  proof (cases "s \<in> set (topo_of tasks deps)")
    case True
    then have "position (topo_of tasks deps) k < position (topo_of tasks deps) s" "position (topo_of tasks deps) s < length (topo_of tasks deps)"
      using emitted_later [OF less.prems, of s] that True by (simp_all add: emitted_succs_def position_less)
    then show ?thesis by (intro less.hyps [OF _ True]) linarith
  next
    case False
    then have "?ls s = None" using start_by_rec(1) [of tasks deps] by (metis domIff)
    then show ?thesis by simp
  qed
  then have "0 \<le> ?mk - latest_of (kept_edges tasks deps) ?mk k ?ls"
    by (subst latest_of_max) (simp_all add: fold_max_ge)
  then show ?case using start_by_rec(2) [OF less.prems] cpm_dur_nonneg [of tasks k] by simp
qed

lemma fold_max_filter: "(\<And>x. x \<in> set xs \<Longrightarrow> \<not> P x \<Longrightarrow> f x \<le> 0) \<Longrightarrow> 0 \<le> a \<Longrightarrow>
    fold (\<lambda>x m. max m (f x)) (filter P xs) (a :: int) = fold (\<lambda>x m. max m (f x)) xs a"
proof (induction xs arbitrary: a)
  case (Cons x xs)
  show ?case
  proof (cases "P x")
    case False
    then have "max a (f x) = a" using Cons.prems by (simp add: max_absorb1 order_trans [of _ 0])
    then show ?thesis using False Cons by simp
  qed (use Cons in simp)
qed simp

lemma tail_time_eq:
  assumes "k \<in> set (topo_of tasks deps)"
  shows "tail_time tasks deps k = fold (\<lambda>s m. max m (tail_time tasks deps s)) (emitted_succs tasks deps k) 0 + cpm_dur tasks k"
proof -
  let ?mk = "makespan tasks deps" and ?ls = "start_by tasks deps" and ?ss = "succs_of (kept_edges tasks deps) k"
  have none: "?ls s = None" if "s \<notin> set (topo_of tasks deps)" for s
    using that start_by_rec(1) [of tasks deps] by (metis domIff)
  have "?mk - latest_of (kept_edges tasks deps) ?mk k ?ls = fold (\<lambda>s m. max m (tail_time tasks deps s)) ?ss 0"
    unfolding tail_time_def by (rule latest_of_max) (metis none nullish_simps(1) order_refl start_by_le)
  also have "\<dots> = fold (\<lambda>s m. max m (tail_time tasks deps s)) (emitted_succs tasks deps k) 0"
    unfolding emitted_succs_def by (rule fold_max_filter [symmetric]) (simp_all add: tail_time_def none)
  finally show ?thesis using start_by_rec(2) [OF assms] by (simp add: tail_time_def)
qed

interpretation backward: longest_chain "set (topo_of tasks deps)" "emitted_succs tasks deps" "cpm_dur tasks"
  "tail_time tasks deps" "\<lambda>k. length (topo_of tasks deps) - position (topo_of tasks deps) k" for tasks deps
proof unfold_locales
  fix k d assume k: "k \<in> set (topo_of tasks deps)" and d: "d \<in> set (emitted_succs tasks deps k)"
  have pos: "position (topo_of tasks deps) d < length (topo_of tasks deps)"
    using emitted_later [OF k d] by (simp add: position_less)
  show "d \<in> set (topo_of tasks deps)" using emitted_later [OF k d] by simp
  show "length (topo_of tasks deps) - position (topo_of tasks deps) d < length (topo_of tasks deps) - position (topo_of tasks deps) k"
    using emitted_later [OF k d] pos by linarith
qed (use cpm_dur_nonneg tail_time_eq in auto)

section \<open>Properties\<close>

text \<open>A chain of leaves, each depending on the one before it, and the time it takes.\<close>

definition leaf_chain :: "cpm_task list \<Rightarrow> cpm_edge list \<Rightarrow> string list \<Rightarrow> bool" where
  "leaf_chain tasks deps c \<longleftrightarrow>
     c \<noteq> [] \<and> set c \<subseteq> cpm_keys tasks \<and> successively (\<lambda>a b. (a, b) \<in> leaf_edges tasks deps) c"

definition chain_time :: "cpm_task list \<Rightarrow> string list \<Rightarrow> int" where
  "chain_time tasks c = sum_list (map (cpm_dur tasks) c)"

lemma accepts_topo: "cpm_accepts tasks deps \<Longrightarrow> set (topo_of tasks deps) = cpm_keys tasks"
  unfolding cpm_accepts_def topo_all_iff by simp

lemma emitted_all: "cpm_accepts tasks deps \<Longrightarrow> s \<in> set (emitted_succs tasks deps k) \<longleftrightarrow> (k, s) \<in> leaf_edges tasks deps"
  using leaf_edges_keys by (auto simp: emitted_succs_def succs_edges accepts_topo)

lemma chain_to_bound:
  assumes "cpm_accepts tasks deps" and "leaf_chain tasks deps c"
  shows "chain_time tasks c \<le> finish_time tasks deps (last c)"
proof -
  obtain k d where c: "rev c = k # d" "k = last c" using assms(2) by (metis leaf_chain_def hd_rev list.collapse rev_is_Nil_conv)
  have "successively (\<lambda>a b. (b, a) \<in> leaf_edges tasks deps) (rev c)"
    using assms(2) by (simp add: leaf_chain_def)
  then have "sum_list (map (cpm_dur tasks) (k # d)) \<le> finish_time tasks deps k"
    unfolding c(1) using forward.chain_bound [of k tasks deps d] assms c(2) accepts_topo [OF assms(1)]
    by (simp add: leaf_chain_def preds_edges) (metis last_in_set subsetD)
  then show ?thesis using c by (metis chain_time_def rev_map sum_list_rev)
qed

lemma chain_from_attained:
  assumes "cpm_accepts tasks deps" and "k \<in> cpm_keys tasks"
  obtains c where "leaf_chain tasks deps (k # c)" "chain_time tasks (k # c) = tail_time tasks deps k"
  using backward.chain_attained [of k tasks deps] assms accepts_topo [OF assms(1)]
  by (auto simp: emitted_all leaf_chain_def chain_time_def)

lemma chain_from_bound:
  assumes "cpm_accepts tasks deps" and "leaf_chain tasks deps (k # c)"
  shows "chain_time tasks (k # c) \<le> tail_time tasks deps k"
  using backward.chain_bound [of k tasks deps c] assms accepts_topo [OF assms(1)]
  by (simp add: emitted_all leaf_chain_def chain_time_def)

lemma chain_to_attained:
  assumes "cpm_accepts tasks deps" and "k \<in> cpm_keys tasks"
  obtains c where "leaf_chain tasks deps (c @ [k])" "chain_time tasks (c @ [k]) = finish_time tasks deps k"
proof -
  obtain d where d: "successively (\<lambda>a b. (b, a) \<in> leaf_edges tasks deps) (k # d)"
    "sum_list (map (cpm_dur tasks) (k # d)) = finish_time tasks deps k" "set (k # d) \<subseteq> cpm_keys tasks"
    using forward.chain_attained [of k tasks deps] assms accepts_topo [OF assms(1)] by (auto simp: preds_edges)
  have "successively (\<lambda>a b. (a, b) \<in> leaf_edges tasks deps) (rev (k # d))" using d(1) unfolding successively_rev .
  with d have "leaf_chain tasks deps (rev d @ [k])" "chain_time tasks (rev d @ [k]) = finish_time tasks deps k"
    by (auto simp: leaf_chain_def chain_time_def rev_map [symmetric])
  then show ?thesis by (rule that)
qed

lemma chain_glue:
  "leaf_chain tasks deps (a @ k # b) \<longleftrightarrow> leaf_chain tasks deps (a @ [k]) \<and> leaf_chain tasks deps (k # b)"
  by (auto simp: leaf_chain_def successively_append_iff)

lemma chain_time_glue: "chain_time tasks (a @ k # b) = chain_time tasks (a @ [k]) + chain_time tasks (k # b) - cpm_dur tasks k"
  by (simp add: chain_time_def)

lemma makespan_bound: "k \<in> set (topo_of tasks deps) \<Longrightarrow> finish_time tasks deps k \<le> makespan tasks deps"
  unfolding makespan_def makespan_of_def finish_time_def by (rule fold_max_mem)

lemma makespan_attained:
  assumes "cpm_accepts tasks deps" and "cpm_leaves tasks \<noteq> []"
  obtains c where "leaf_chain tasks deps c" "chain_time tasks c = makespan tasks deps"
proof -
  have K: "set (topo_of tasks deps) = cpm_keys tasks" by (rule accepts_topo [OF assms(1)])
  have "\<exists>k \<in> cpm_keys tasks. finish_time tasks deps k = makespan tasks deps"
  proof (cases "makespan tasks deps = 0")
    case True
    obtain k where k: "k \<in> cpm_keys tasks" using assms(2) by (cases "cpm_leaves tasks") (auto simp: cpm_keys_def)
    have "0 \<le> finish_time tasks deps k"
      using finish_time_eq [of k tasks deps] k fold_max_ge [of 0] cpm_dur_nonneg [of tasks k] by (metis K add_nonneg_nonneg)
    with makespan_bound [of k tasks deps] k K True show ?thesis by force
  next
    case False
    then show ?thesis
      using fold_max_attained [of "finish_time tasks deps" "topo_of tasks deps" 0] unfolding K
      by (auto simp: makespan_def makespan_of_def finish_time_def)
  qed
  then show ?thesis using chain_to_attained [OF assms(1)] that by metis
qed

lemma slack_value:
  assumes "k \<in> set (topo_of tasks deps)"
  shows "nullish (fst (latest_times tasks (kept_edges tasks deps) (makespan tasks deps) (topo_of tasks deps)) k) 0
    = makespan tasks deps - tail_time tasks deps k + cpm_dur tasks k"
proof -
  have "fst (latest_times tasks (kept_edges tasks deps) (makespan tasks deps) (topo_of tasks deps)) k =
      map_option (\<lambda>v. v + cpm_dur tasks k) (start_by tasks deps k)"
    unfolding latest_times_def start_by_def by (rule backward_fst) simp
  then show ?thesis using start_by_rec(2) [OF assms] by (simp add: tail_time_def)
qed

lemma compute_accepted:
  assumes "cpm_accepts tasks deps" and "cpm_leaves tasks \<noteq> []"
  shows "computeCriticalPath tasks deps =
    map (\<lambda>k. (k, \<lparr>isCriticalPath = True, criticalPathRank = finish_time tasks deps k\<rparr>))
      (filter (\<lambda>k. \<bar>makespan tasks deps - (finish_time tasks deps k + tail_time tasks deps k - cpm_dur tasks k)\<bar> \<le> 1) (topo_of tasks deps))"
proof -
  have ne: "tasks \<noteq> []" using assms(2) by (auto simp: cpm_leaves_def)
  have len: "length (topo_of tasks deps) = length (cpm_leaves tasks)" using assms(1) by (simp add: topo_length)
  have "filter (\<lambda>k. \<bar>nullish (fst (latest_times tasks (kept_edges tasks deps) (makespan tasks deps) (topo_of tasks deps)) k) 0 - finish_time tasks deps k\<bar> \<le> 1) (topo_of tasks deps)
      = filter (\<lambda>k. \<bar>makespan tasks deps - (finish_time tasks deps k + tail_time tasks deps k - cpm_dur tasks k)\<bar> \<le> 1) (topo_of tasks deps)"
    by (rule filter_cong) (simp_all add: slack_value algebra_simps)
  then show ?thesis
    using ne assms(2) len by (simp add: computeCriticalPath_def Let_def topo_of_def [symmetric] SLACK_EPSILON_MS_def
        finish_time_def [symmetric] makespan_def [symmetric])
qed

lemma through_bound:
  assumes "cpm_accepts tasks deps" and "leaf_chain tasks deps c" and "k \<in> set c"
  shows "chain_time tasks c \<le> finish_time tasks deps k + tail_time tasks deps k - cpm_dur tasks k"
proof -
  obtain a b where c: "c = a @ k # b" using assms(3) by (metis split_list)
  then have "leaf_chain tasks deps (a @ [k])" "leaf_chain tasks deps (k # b)" using assms(2) chain_glue [of tasks deps a k b] by simp_all
  then show ?thesis
    using chain_to_bound [OF assms(1), of "a @ [k]"] chain_from_bound [OF assms(1), of k b] chain_time_glue [of tasks a k b] by (simp add: c)
qed

lemma through_attained:
  assumes "cpm_accepts tasks deps" and "k \<in> cpm_keys tasks"
  obtains c where "leaf_chain tasks deps c" "k \<in> set c"
    "chain_time tasks c = finish_time tasks deps k + tail_time tasks deps k - cpm_dur tasks k"
proof -
  obtain a where a: "leaf_chain tasks deps (a @ [k])" "chain_time tasks (a @ [k]) = finish_time tasks deps k"
    using chain_to_attained [OF assms] .
  obtain b where b: "leaf_chain tasks deps (k # b)" "chain_time tasks (k # b) = tail_time tasks deps k"
    using chain_from_attained [OF assms] .
  show ?thesis by (rule that [of "a @ k # b"]) (use a b chain_glue [of tasks deps a k b] chain_time_glue [of tasks a k b] in simp_all)
qed

lemma chain_le_makespan:
  assumes "cpm_accepts tasks deps" and "leaf_chain tasks deps c"
  shows "chain_time tasks c \<le> makespan tasks deps"
proof -
  have "last c \<in> set (topo_of tasks deps)" using assms(2) accepts_topo [OF assms(1)] by (auto simp: leaf_chain_def)
  then show ?thesis using chain_to_bound [OF assms] makespan_bound [of "last c"] by force
qed

text \<open>
  C28. The critical path is the one of the method's definition: when no leaf key repeats and the dependencies
  between leaves have no cycle, a task is marked exactly when some chain of dependent leaves
  through it takes as long as the longest chain of all, up to the tolerance of one millisecond; its rank is the
  length of the longest chain that ends with it.
\<close>

theorem critical_path_exact:
  assumes "cpm_accepts tasks deps"
  shows "(k \<in> fst ` set (computeCriticalPath tasks deps) \<longleftrightarrow>
      (\<exists>c. leaf_chain tasks deps c \<and> k \<in> set c
         \<and> (\<forall>c'. leaf_chain tasks deps c' \<longrightarrow> chain_time tasks c' \<le> chain_time tasks c + SLACK_EPSILON_MS)))
    \<and> (\<forall>e. (k, e) \<in> set (computeCriticalPath tasks deps) \<longrightarrow> isCriticalPath e
         \<and> (\<exists>c. leaf_chain tasks deps c \<and> last c = k \<and> chain_time tasks c = criticalPathRank e)
         \<and> (\<forall>c. leaf_chain tasks deps c \<and> last c = k \<longrightarrow> chain_time tasks c \<le> criticalPathRank e))"
proof (cases "cpm_leaves tasks = []")
  case True
  then have "computeCriticalPath tasks deps = []" "\<not> leaf_chain tasks deps c" for c
    by (auto simp: computeCriticalPath_def leaf_chain_def cpm_keys_def)
  then show ?thesis by simp
next
  case False
  let ?through = "finish_time tasks deps k + tail_time tasks deps k - cpm_dur tasks k"
  note result = compute_accepted [OF assms False]
  have member: "k \<in> fst ` set (computeCriticalPath tasks deps) \<longleftrightarrow> k \<in> cpm_keys tasks \<and> \<bar>makespan tasks deps - ?through\<bar> \<le> 1"
    unfolding result by (auto simp: accepts_topo [OF assms] image_iff)
  have "k \<in> cpm_keys tasks \<and> \<bar>makespan tasks deps - ?through\<bar> \<le> 1 \<longleftrightarrow>
      (\<exists>c. leaf_chain tasks deps c \<and> k \<in> set c \<and> (\<forall>c'. leaf_chain tasks deps c' \<longrightarrow> chain_time tasks c' \<le> chain_time tasks c + SLACK_EPSILON_MS))"
    (is "?L \<longleftrightarrow> ?R")
  proof
    assume L: ?L
    then obtain c where c: "leaf_chain tasks deps c" "k \<in> set c" "chain_time tasks c = ?through"
      using through_attained [OF assms] by blast
    have "chain_time tasks c' \<le> chain_time tasks c + SLACK_EPSILON_MS" if "leaf_chain tasks deps c'" for c'
      using chain_le_makespan [OF assms that] L c(3) unfolding SLACK_EPSILON_MS_def by linarith
    with c show ?R by blast
  next
    assume ?R
    then obtain c where c: "leaf_chain tasks deps c" "k \<in> set c"
      and top: "\<And>c'. leaf_chain tasks deps c' \<Longrightarrow> chain_time tasks c' \<le> chain_time tasks c + 1" by (auto simp: SLACK_EPSILON_MS_def)
    have k: "k \<in> cpm_keys tasks" using c by (auto simp: leaf_chain_def)
    obtain m where "leaf_chain tasks deps m" "chain_time tasks m = makespan tasks deps" using makespan_attained [OF assms False] .
    then have "makespan tasks deps \<le> chain_time tasks c + 1" using top by metis
    moreover have "chain_time tasks c \<le> ?through" by (rule through_bound [OF assms c])
    moreover have "?through \<le> makespan tasks deps"
      using through_attained [OF assms k] chain_le_makespan [OF assms] by metis
    ultimately show ?L using k by simp
  qed
  moreover have "isCriticalPath e
         \<and> (\<exists>c. leaf_chain tasks deps c \<and> last c = k \<and> chain_time tasks c = criticalPathRank e)
         \<and> (\<forall>c. leaf_chain tasks deps c \<and> last c = k \<longrightarrow> chain_time tasks c \<le> criticalPathRank e)"
    if "(k, e) \<in> set (computeCriticalPath tasks deps)" for e
  proof -
    have e: "e = \<lparr>isCriticalPath = True, criticalPathRank = finish_time tasks deps k\<rparr>" and k: "k \<in> cpm_keys tasks"
      using that unfolding result by (auto simp: accepts_topo [OF assms])
    obtain a where "leaf_chain tasks deps (a @ [k])" "chain_time tasks (a @ [k]) = finish_time tasks deps k"
      using chain_to_attained [OF assms k] .
    then show ?thesis using chain_to_bound [OF assms] by (auto simp: e intro!: exI [of _ "a @ [k]"])
  qed
  ultimately show ?thesis using member by blast
qed

text \<open>
  C29. The method fails safe and always ends: it marks a task exactly when there is a leaf, no leaf key
  repeats and the dependencies between leaves have no cycle.
\<close>

theorem critical_path_empty_iff:
  "computeCriticalPath tasks deps \<noteq> [] \<longleftrightarrow> cpm_leaves tasks \<noteq> [] \<and> cpm_accepts tasks deps"
proof (cases "cpm_leaves tasks = [] \<or> \<not> cpm_accepts tasks deps")
  case True
  then show ?thesis using topo_length [of tasks deps] by (auto simp: computeCriticalPath_def Let_def topo_of_def)
next
  case False
  then obtain c where c: "leaf_chain tasks deps c" "chain_time tasks c = makespan tasks deps" using makespan_attained by blast
  define k where "k = hd c"
  have k: "k \<in> set c" "k \<in> cpm_keys tasks" using c(1) by (auto simp: k_def leaf_chain_def)
  have "makespan tasks deps = finish_time tasks deps k + tail_time tasks deps k - cpm_dur tasks k"
    using through_bound [of tasks deps c k] through_attained [of tasks deps k] chain_le_makespan [of tasks deps] False c k
    by (metis order_antisym)
  then have "k \<in> fst ` set (computeCriticalPath tasks deps)"
    using compute_accepted [of tasks deps] False accepts_topo [of tasks deps] k(2) by (auto simp: image_iff)
  then show ?thesis using False by auto
qed

definition demo_cpm :: "cpm_task list" where
  "demo_cpm = [\<lparr>ct_key = ''a'', ct_parentKey = None, ct_startMs = 0, ct_endMs = 5\<rparr>,
     \<lparr>ct_key = ''b'', ct_parentKey = None, ct_startMs = 0, ct_endMs = 3\<rparr>,
     \<lparr>ct_key = ''c'', ct_parentKey = None, ct_startMs = 5, ct_endMs = 9\<rparr>]"

definition demo_cpm_edges :: "cpm_edge list" where
  "demo_cpm_edges = [\<lparr>ce_taskKey = ''c'', ce_dependsOnKey = ''a''\<rparr>, \<lparr>ce_taskKey = ''c'', ce_dependsOnKey = ''b''\<rparr>]"

lemma demo_cpm_result:
  "cpm_accepts demo_cpm demo_cpm_edges" "''a'' \<in> fst ` set (computeCriticalPath demo_cpm demo_cpm_edges)"
proof -
  have "length (topo_of demo_cpm demo_cpm_edges) = length (cpm_leaves demo_cpm)" by code_simp
  then show "cpm_accepts demo_cpm demo_cpm_edges" by (simp add: topo_length)
  have "map fst (computeCriticalPath demo_cpm demo_cpm_edges) = [''a'', ''c'']" by code_simp
  then show "''a'' \<in> fst ` set (computeCriticalPath demo_cpm demo_cpm_edges)" by (metis list.set_intros(1) set_map)
qed

theorem critical_path_exact_witness:
  "\<exists>c. leaf_chain demo_cpm demo_cpm_edges c \<and> ''a'' \<in> set c
     \<and> (\<forall>c'. leaf_chain demo_cpm demo_cpm_edges c' \<longrightarrow> chain_time demo_cpm c' \<le> chain_time demo_cpm c + SLACK_EPSILON_MS)"
  using critical_path_exact [OF demo_cpm_result(1), of "''a''"] demo_cpm_result(2) by blast

end
