(* ===== verification/Wf_SpecData.thy ===== *)
theory Wf_SpecData
  imports Wf_Rows Wf_Time
begin

text \<open>
  Workflow specifications, \<^verbatim>\<open>packages/workflows/src/spec/schema.ts\<close> and \<^verbatim>\<open>spec/types.ts\<close>. A
  specification is the JSON value that the schema has accepted; the functions below read the
  fields the engine uses, with the value of an absent optional field as the code reads it
  (\<open>?? []\<close>, \<open>undefined\<close>). The Zod parser itself is a package: it is a parameter of the validators.
  Strings are ASCII, so that their length is the number of bytes and of UTF-16 units.
\<close>

type_synonym task_spec = json
type_synonym workflow_spec = json

definition get :: "json \<Rightarrow> string \<Rightarrow> json option" where
  "get j k = (case j of JObj kvs \<Rightarrow> map_of kvs k | _ \<Rightarrow> None)"

definition get_str :: "json \<Rightarrow> string \<Rightarrow> string option" where
  "get_str j k = (case get j k of Some (JStr s) \<Rightarrow> Some s | _ \<Rightarrow> None)"

definition get_list :: "json \<Rightarrow> string \<Rightarrow> json list" where
  "get_list j k = (case get j k of Some (JArr xs) \<Rightarrow> xs | _ \<Rightarrow> [])"

definition get_true :: "json \<Rightarrow> string \<Rightarrow> bool" where
  "get_true j k \<longleftrightarrow> get j k = Some (JBool True)"

definition TARGET_ANCHOR :: string where
  "TARGET_ANCHOR = ''target''"

section \<open>Schedules\<close>

record schedule_common =
  sm_tz :: "string option"
  sm_anchorPoint :: "string option"
  sm_duration :: "string option"

datatype schedule_spec =
    AbsoluteSchedule (sc_at: string) (sc_common: schedule_common)
  | RelativeSchedule (sc_anchor: string) (sc_offset: string) (sc_direction: string)
      (sc_localTime: "string option") (sc_common: schedule_common)

definition schedule_common_of :: "json \<Rightarrow> schedule_common" where
  "schedule_common_of s = \<lparr>sm_tz = get_str s ''tz'', sm_anchorPoint = get_str s ''anchorPoint'',
                           sm_duration = get_str s ''durationIso8601''\<rparr>"

definition schedule_of :: "json \<Rightarrow> schedule_spec option" where
  "schedule_of s =
     (if get_str s ''mode'' = Some ''absolute''
      then Some (AbsoluteSchedule (nullish (get_str s ''at'') []) (schedule_common_of s))
      else if get_str s ''mode'' = Some ''relative''
      then Some (RelativeSchedule (nullish (get_str s ''anchor'') []) (nullish (get_str s ''offsetIso8601'') [])
                   (nullish (get_str s ''direction'') []) (get_str s ''localTime'') (schedule_common_of s))
      else None)"

section \<open>Tasks and specifications\<close>

definition task_key :: "task_spec \<Rightarrow> string" where
  "task_key t = nullish (get_str t ''key'') []"

definition task_type :: "task_spec \<Rightarrow> string" where
  "task_type t = nullish (get_str t ''type'') []"

definition task_title :: "task_spec \<Rightarrow> string" where
  "task_title t = nullish (get_str t ''title'') []"

definition task_parent :: "task_spec \<Rightarrow> string option" where
  "task_parent t = get_str t ''parent''"

definition task_pinned :: "task_spec \<Rightarrow> bool" where
  "task_pinned t \<longleftrightarrow> get_true t ''pinned''"

definition task_schedule :: "task_spec \<Rightarrow> schedule_spec option" where
  "task_schedule t = Option.bind (get t ''schedule'') schedule_of"

definition task_depKeys :: "task_spec \<Rightarrow> string list" where
  "task_depKeys t = map (\<lambda>d. nullish (get_str d ''taskKey'') []) (get_list t ''dependsOn'')"

definition spec_tasks :: "workflow_spec \<Rightarrow> task_spec list" where
  "spec_tasks spec = get_list spec ''tasks''"

definition target_at :: "workflow_spec \<Rightarrow> string option" where
  "target_at spec = Option.bind (get spec ''target'') (\<lambda>t. get_str t ''at'')"

definition target_tz :: "workflow_spec \<Rightarrow> string option" where
  "target_tz spec = Option.bind (get spec ''target'') (\<lambda>t. get_str t ''tz'')"

definition spec_keys :: "workflow_spec \<Rightarrow> string list" where
  "spec_keys spec = map task_key (spec_tasks spec)"

end
