(* ===== verification/Wf_Limits.thy ===== *)
theory Wf_Limits
  imports Wf_SpecData
begin

text \<open>
  Resource limits of a specification, \<^verbatim>\<open>packages/workflows/src/spec/limits.ts\<close>. An error has its
  code, path, limit and actual value; messages are left out. Durations are compared in seconds, the
  exact value of the program's fractional days.
\<close>

record spec_limits =
  li_maxTasks :: nat
  li_maxDependencies :: nat
  li_maxApprovals :: nat
  li_maxArtifactsPerTask :: nat
  li_maxTitleLength :: nat
  li_maxInputBytes :: nat
  li_maxJsonDepth :: nat
  li_maxTotalSpecBytes :: nat
  li_maxScheduleHorizonDays :: int
  li_maxOffsetDays :: int

definition SPEC_LIMITS :: spec_limits where
  "SPEC_LIMITS =
     \<lparr>li_maxTasks = 200, li_maxDependencies = 1000, li_maxApprovals = 100, li_maxArtifactsPerTask = 50,
      li_maxTitleLength = 200, li_maxInputBytes = 32768, li_maxJsonDepth = 10, li_maxTotalSpecBytes = 262144,
      li_maxScheduleHorizonDays = 730, li_maxOffsetDays = 365\<rparr>"

record spec_error =
  se_code :: string
  se_path :: "string option"
  se_limit :: "int option"
  se_actual :: "int option"

definition plain_error :: "string \<Rightarrow> spec_error" where
  "plain_error code = \<lparr>se_code = code, se_path = None, se_limit = None, se_actual = None\<rparr>"

definition error_at :: "string \<Rightarrow> string \<Rightarrow> spec_error" where
  "error_at code path = \<lparr>se_code = code, se_path = Some path, se_limit = None, se_actual = None\<rparr>"

definition limit_error :: "string \<Rightarrow> string option \<Rightarrow> int \<Rightarrow> int \<Rightarrow> spec_error" where
  "limit_error code path limit actual = \<lparr>se_code = code, se_path = path, se_limit = Some limit, se_actual = Some actual\<rparr>"

text \<open>\<open>tasks[i]\<close> followed by a field path.\<close>

definition task_path :: "nat \<Rightarrow> string \<Rightarrow> string" where
  "task_path i p = ''tasks['' @ show_nat i @ '']'' @ p"

section \<open>Measures\<close>

definition approx_seconds :: "string \<Rightarrow> int option" where
  "approx_seconds d = map_option
     (\<lambda>u. int (86400 * (du_years u * 365 + du_months u * 30 + du_weeks u * 7 + du_days u)
               + 3600 * du_hours u + 60 * du_minutes u + du_seconds u)) (parseIsoDuration d)"

text \<open>\<^verbatim>\<open>Math.round\<close> of a number of seconds in days.\<close>

definition round_days :: "int \<Rightarrow> int" where
  "round_days secs = (2 * secs + 86400) div (2 * 86400)"

definition is_container :: "json \<Rightarrow> bool" where
  "is_container v \<longleftrightarrow> (case v of JArr _ \<Rightarrow> True | JObj _ \<Rightarrow> True | _ \<Rightarrow> False)"

fun jsonDepth :: "json \<Rightarrow> nat \<Rightarrow> nat" where
  "jsonDepth (JArr xs) current = fold max (map (\<lambda>v. jsonDepth v (current + 1)) xs) current"
| "jsonDepth (JObj kvs) current =
     fold max (map (\<lambda>(k, v). if k = ''template'' \<and> is_container v then jsonDepth v 1 else jsonDepth v (current + 1)) kvs)
       current"
| "jsonDepth _ current = current"

definition byteLength :: "json \<Rightarrow> nat" where
  "byteLength v = length (json_text v)"

section \<open>The checks\<close>

definition title_limit :: "nat \<Rightarrow> task_spec \<Rightarrow> spec_error list" where
  "title_limit i t =
     (if li_maxTitleLength SPEC_LIMITS < length (task_title t)
      then [limit_error ''TITLE_TOO_LONG'' (Some (task_path i ''.title'')) (int (li_maxTitleLength SPEC_LIMITS))
              (int (length (task_title t)))]
      else [])"

definition input_limit :: "nat \<Rightarrow> task_spec \<Rightarrow> spec_error list" where
  "input_limit i t =
     (case get t ''input'' of
        Some v \<Rightarrow>
          if task_type t = ''agent_task'' \<and> li_maxInputBytes SPEC_LIMITS < byteLength v
          then [limit_error ''INPUT_TOO_LARGE'' (Some (task_path i ''.input'')) (int (li_maxInputBytes SPEC_LIMITS))
                  (int (byteLength v))]
          else []
      | None \<Rightarrow> [])"

definition duration_limit :: "string \<Rightarrow> string \<Rightarrow> string \<Rightarrow> spec_error list" where
  "duration_limit code path d =
     (case approx_seconds d of
        Some secs \<Rightarrow>
          if li_maxOffsetDays SPEC_LIMITS * 86400 < secs
          then [limit_error code (Some path) (li_maxOffsetDays SPEC_LIMITS) (round_days secs)]
          else []
      | None \<Rightarrow> [])"

definition schedule_limits :: "nat \<Rightarrow> task_spec \<Rightarrow> spec_error list" where
  "schedule_limits i t =
     (case task_schedule t of
        None \<Rightarrow> []
      | Some s \<Rightarrow>
          (case s of
             RelativeSchedule _ offset _ _ _ \<Rightarrow>
               duration_limit ''OFFSET_TOO_LARGE'' (task_path i ''.schedule.offsetIso8601'') offset
           | AbsoluteSchedule _ _ \<Rightarrow> [])
          @ (case sm_duration (sc_common s) of
               Some d \<Rightarrow> if d = [] then []
                         else duration_limit ''DURATION_TOO_LARGE'' (task_path i ''.schedule.durationIso8601'') d
             | None \<Rightarrow> []))"

definition count_limit :: "string \<Rightarrow> nat \<Rightarrow> nat \<Rightarrow> spec_error list" where
  "count_limit code limit actual = (if limit < actual then [limit_error code None (int limit) (int actual)] else [])"

definition checkLimits :: "workflow_spec \<Rightarrow> spec_error list" where
  "checkLimits spec =
     (let tasks = spec_tasks spec
      in count_limit ''TOO_MANY_TASKS'' (li_maxTasks SPEC_LIMITS) (length tasks)
         @ count_limit ''TOO_MANY_DEPENDENCIES'' (li_maxDependencies SPEC_LIMITS)
             (sum_list (map (\<lambda>t. length (task_depKeys t)) tasks))
         @ count_limit ''TOO_MANY_APPROVALS'' (li_maxApprovals SPEC_LIMITS)
             (length (filter (\<lambda>t. task_type t = ''approval'') tasks))
         @ concat (map (\<lambda>(i, t). title_limit i t @ input_limit i t @ schedule_limits i t) (enumerate 0 tasks))
         @ count_limit ''JSON_TOO_DEEP'' (li_maxJsonDepth SPEC_LIMITS) (jsonDepth spec 1)
         @ count_limit ''SPEC_TOO_LARGE'' (li_maxTotalSpecBytes SPEC_LIMITS) (byteLength spec))"

end
