(* ===== verification/Wf_Schedule.thy ===== *)
theory Wf_Schedule
  imports Wf_SpecData
begin

text \<open>
  The schedule resolver, \<^verbatim>\<open>packages/workflows/src/schedule/resolver.ts\<close> from \<^verbatim>\<open>applyLocalTime\<close> on:
  anchors, offsets and bars, the memoized recursion along anchors with its cycle guard, the
  windows of summary parents, the result and the cascade preview.

  An instant is \<open>None\<close> when the program has a number that is not finite: an invalid date
  propagates through the arithmetic as NaN, and \<^verbatim>\<open>toISOString\<close> throws on it, which is the error
  value of \<open>resolveSchedule\<close>. Messages of warnings are left out. The calendar is the parameter of
  theory \<open>Wf_Time\<close>; \<open>now\<close> is what \<^verbatim>\<open>Date.now()\<close> returns.
\<close>

record bar =
  bar_start :: "instant option"
  bar_end :: "instant option"
  bar_due :: "instant option"

datatype frozen =
    FrozenDue string
  | FrozenBar (fz_due: string) (fz_start: string) (fz_end: string)

record resolve_options =
  ro_targetAtUtc :: "string option"
  ro_frozenDueAt :: "string \<rightharpoonup> frozen"

record resolve_warning =
  rw_taskKey :: string
  rw_code :: string

record resolved_task =
  rt_plannedStartUtc :: string
  rt_plannedEndUtc :: string
  rt_dueAtUtc :: string

record resolve_result =
  rr_tasks :: "string \<rightharpoonup> resolved_task"
  rr_warnings :: "resolve_warning list"

datatype schedule_error = InvalidTimeValue

section \<open>One task\<close>

definition shift :: "calendar \<Rightarrow> bool \<Rightarrow> string \<Rightarrow> instant option \<Rightarrow> duration \<Rightarrow> instant option" where
  "shift cal forwards tz ms d =
     map_option (\<lambda>m. if forwards then cal_add cal m (Some tz) d else cal_sub cal m (Some tz) d) ms"

definition applyLocalTime :: "calendar \<Rightarrow> instant option \<Rightarrow> int \<Rightarrow> int \<Rightarrow> string \<Rightarrow> instant option \<times> bool" where
  "applyLocalTime cal ms h mi tz =
     (case ms of
        None \<Rightarrow> (None, True)
      | Some m \<Rightarrow> (let (m', gap) = cal_setHours cal m h mi tz in (Some m', gap)))"

definition tzOf :: "workflow_spec \<Rightarrow> schedule_spec option \<Rightarrow> string" where
  "tzOf spec schedule =
     nullish (Option.bind schedule (\<lambda>s. sm_tz (sc_common s))) (nullish (target_tz spec) ''UTC'')"

definition applyBar :: "calendar \<Rightarrow> instant option \<Rightarrow> schedule_spec option \<Rightarrow> string \<Rightarrow> bar" where
  "applyBar cal anchorInstant schedule tz =
     (let barDur = (case Option.bind schedule (\<lambda>s. sm_duration (sc_common s)) of
                      Some d \<Rightarrow> if d = [] then None else parseIsoDuration d
                    | None \<Rightarrow> None);
          anchorPoint = nullish (Option.bind schedule (\<lambda>s. sm_anchorPoint (sc_common s))) ''due''
      in if anchorPoint = ''start''
         then
           (let e = (case barDur of Some d \<Rightarrow> shift cal True tz anchorInstant d | None \<Rightarrow> anchorInstant)
            in \<lparr>bar_start = anchorInstant, bar_end = e, bar_due = e\<rparr>)
         else
           (let b = (case barDur of Some d \<Rightarrow> shift cal False tz anchorInstant d | None \<Rightarrow> anchorInstant)
            in \<lparr>bar_start = b, bar_end = anchorInstant, bar_due = anchorInstant\<rparr>))"

text \<open>The two numbers of a local time \<open>HH:mm\<close>.\<close>

definition local_time_parts :: "string \<Rightarrow> int \<times> int" where
  "local_time_parts s =
     (int (read_nat (takeWhile (\<lambda>c. c \<noteq> CHR '':'') s)), int (read_nat (drop 1 (dropWhile (\<lambda>c. c \<noteq> CHR '':'') s))))"

definition relative_instant ::
  "calendar \<Rightarrow> string \<Rightarrow> string \<Rightarrow> string \<Rightarrow> string \<Rightarrow> string option \<Rightarrow> instant option \<Rightarrow>
   instant option \<times> resolve_warning list" where
  "relative_instant cal key tz offset direction localTime anchorMs =
     (let dur = nullish (parseIsoDuration offset) no_duration;
          ms = shift cal (direction \<noteq> ''before'') tz anchorMs dur
      in case localTime of
           None \<Rightarrow> (ms, [])
         | Some lt \<Rightarrow>
             if lt = [] then (ms, [])
             else
               (let (h, mi) = local_time_parts lt; (ms', gap) = applyLocalTime cal ms h mi tz
                in (ms', if gap then [\<lparr>rw_taskKey = key, rw_code = ''DST_GAP''\<rparr>] else [])))"

section \<open>The recursion along anchors\<close>

record resolver =
  rv_cal :: calendar
  rv_spec :: workflow_spec
  rv_targetMs :: "instant option"
  rv_frozen :: "string \<rightharpoonup> frozen"

record resolve_state =
  rs_memo :: "string \<rightharpoonup> bar"
  rs_warnings :: "resolve_warning list"

definition by_key :: "workflow_spec \<Rightarrow> string \<rightharpoonup> task_spec" where
  "by_key spec = js_map (map (\<lambda>t. (task_key t, t)) (spec_tasks spec))"

definition schedule_at :: "resolver \<Rightarrow> string \<Rightarrow> schedule_spec option" where
  "schedule_at R key = Option.bind (by_key (rv_spec R) key) task_schedule"

definition frozen_bar :: "calendar \<Rightarrow> frozen \<Rightarrow> bar" where
  "frozen_bar cal f =
     (case f of
        FrozenDue s \<Rightarrow> (let ms = dateParse cal s in \<lparr>bar_start = ms, bar_end = ms, bar_due = ms\<rparr>)
      | FrozenBar d s e \<Rightarrow> \<lparr>bar_start = dateParse cal s, bar_end = dateParse cal e, bar_due = dateParse cal d\<rparr>)"

text \<open>The memo entry and the warnings of a visited task.\<close>

definition finish :: "string \<Rightarrow> bar \<Rightarrow> resolve_warning list \<Rightarrow> resolve_state \<Rightarrow> instant option \<times> resolve_state" where
  "finish key b ws st =
     (bar_due b, \<lparr>rs_memo = (rs_memo st)(key \<mapsto> b), rs_warnings = rs_warnings st @ ws\<rparr>)"

lemma by_key_Some: "by_key spec k = Some t \<Longrightarrow> t \<in> set (spec_tasks spec) \<and> task_key t = k"
  unfolding by_key_def js_map_def by (auto dest!: map_of_SomeD)

lemma schedule_at_Some: "schedule_at R k = Some s \<Longrightarrow> k \<in> set (spec_keys (rv_spec R))"
  unfolding schedule_at_def spec_keys_def by (auto simp: bind_eq_Some_conv dest!: by_key_Some)

function resolveDueMs ::
  "resolver \<Rightarrow> string \<Rightarrow> string list \<Rightarrow> resolve_state \<Rightarrow> instant option \<times> resolve_state" where
  "resolveDueMs R key stack st =
     (case rs_memo st key of
        Some b \<Rightarrow> (bar_due b, st)
      | None \<Rightarrow>
          (case rv_frozen R key of
             Some f \<Rightarrow> finish key (frozen_bar (rv_cal R) f) [] st
           | None \<Rightarrow>
               if key \<in> set stack then (rv_targetMs R, st)
               else
                 (let sch = schedule_at R key; tz = tzOf (rv_spec R) sch
                  in case sch of
                       None \<Rightarrow>
                         finish key (applyBar (rv_cal R) (rv_targetMs R) None tz)
                           [\<lparr>rw_taskKey = key, rw_code = ''UNSCHEDULED_DEFAULTED_TO_RELEASE''\<rparr>] st
                     | Some (AbsoluteSchedule at c) \<Rightarrow>
                         finish key (applyBar (rv_cal R) (parseInstantMs (rv_cal R) at tz) sch tz) [] st
                     | Some (RelativeSchedule anchor offset direction localTime c) \<Rightarrow>
                         (let (anchorMs, st1) =
                                (if anchor = TARGET_ANCHOR then (rv_targetMs R, st)
                                 else resolveDueMs R anchor (key # stack) st);
                              (ms, ws) = relative_instant (rv_cal R) key tz offset direction localTime anchorMs
                          in finish key (applyBar (rv_cal R) ms sch tz) ws st1))))"
  by pat_completeness auto
termination
proof (relation "measure (\<lambda>(R, key, stack, st). card (set (spec_keys (rv_spec R)) - set stack))", goal_cases)
  case 1
  show ?case by simp
next
  case prems: (2 R key stack st sch tz s anchor offset direction localTime c)
  then have "key \<in> set (spec_keys (rv_spec R)) - set stack"
    using schedule_at_Some [of R key s] by simp
  then have "card (set (spec_keys (rv_spec R)) - set stack - {key}) < card (set (spec_keys (rv_spec R)) - set stack)"
    by (intro psubset_card_mono) auto
  moreover have "set (spec_keys (rv_spec R)) - set (key # stack) = set (spec_keys (rv_spec R)) - set stack - {key}" by auto
  ultimately show ?case by (simp only: in_measure case_prod_conv)
qed

declare resolveDueMs.simps [simp del]

definition resolve_all :: "resolver \<Rightarrow> resolve_state \<Rightarrow> resolve_state" where
  "resolve_all R st = fold (\<lambda>t st. snd (resolveDueMs R (task_key t) [] st)) (spec_tasks (rv_spec R)) st"

section \<open>Windows of summary parents\<close>

definition children_of :: "workflow_spec \<Rightarrow> string \<Rightarrow> string list" where
  "children_of spec p = map task_key (filter (\<lambda>t. truthy (task_parent t) \<and> task_parent t = Some p) (spec_tasks spec))"

definition parent_keys :: "workflow_spec \<Rightarrow> string set" where
  "parent_keys spec = {p. children_of spec p \<noteq> []}"

lemma finite_parent_keys [simp]: "finite (parent_keys spec)"
  by (rule finite_subset [of _ "the ` task_parent ` set (spec_tasks spec)"])
    (force simp: parent_keys_def children_of_def filter_empty_conv)+

text \<open>The window collected over the children so far; \<open>None\<close> is the infinity a bound starts with.\<close>

definition lower :: "instant option \<Rightarrow> instant option \<Rightarrow> instant option" where
  "lower a v = (case v of None \<Rightarrow> a | Some x \<Rightarrow> (case a of None \<Rightarrow> Some x | Some y \<Rightarrow> Some (if x < y then x else y)))"

definition raise :: "instant option \<Rightarrow> instant option \<Rightarrow> instant option" where
  "raise a v = (case v of None \<Rightarrow> a | Some x \<Rightarrow> (case a of None \<Rightarrow> Some x | Some y \<Rightarrow> Some (if y < x then x else y)))"

definition widen :: "bar \<Rightarrow> bar option \<Rightarrow> bar" where
  "widen w cb =
     (case cb of
        None \<Rightarrow> w
      | Some b \<Rightarrow> \<lparr>bar_start = lower (bar_start w) (bar_start b), bar_end = raise (bar_end w) (bar_end b),
                   bar_due = raise (bar_due w) (bar_due b)\<rparr>)"

definition no_window :: bar where
  "no_window = \<lparr>bar_start = None, bar_end = None, bar_due = None\<rparr>"

definition set_window :: "string \<Rightarrow> bar \<Rightarrow> (string \<rightharpoonup> bar) \<Rightarrow> string \<rightharpoonup> bar" where
  "set_window key w memo = (if bar_start w \<noteq> None then memo(key \<mapsto> w) else memo)"

text \<open>
  The loop over a list of keys that calls \<^verbatim>\<open>recomputeParent\<close> on each and widens the window with the
  key's bar afterwards; the recursive call is written out. The state is \<^verbatim>\<open>parentDone\<close> and the memo.
\<close>

function parent_loop ::
  "workflow_spec \<Rightarrow> string list \<Rightarrow> bar \<Rightarrow> string set \<Rightarrow> (string \<rightharpoonup> bar) \<Rightarrow> bar \<times> string set \<times> (string \<rightharpoonup> bar)" where
  "parent_loop spec [] w dn memo = (w, dn, memo)"
| "parent_loop spec (c # cs) w dn memo =
     (if c \<in> dn then parent_loop spec cs (widen w (memo c)) dn memo
      else if children_of spec c = [] then parent_loop spec cs (widen w (memo c)) (insert c dn) memo
      else
        (case parent_loop spec (children_of spec c) no_window (insert c dn) memo of
           (w', dn', memo') \<Rightarrow>
             (let memo'' = set_window c w' memo'
              in parent_loop spec cs (widen w (memo'' c)) dn' memo'')))"
  by pat_completeness auto

lemma parent_loop_done: "parent_loop_dom (spec, cs, w, dn, memo) \<Longrightarrow> dn \<subseteq> fst (snd (parent_loop spec cs w dn memo))"
proof (induction spec cs w dn memo rule: parent_loop.pinduct)
  case (1 spec w dn memo)
  then show ?case by (simp add: parent_loop.psimps)
next
  case (2 spec c cs w dn memo)
  obtain w' dn' memo' where r: "parent_loop spec (children_of spec c) no_window (insert c dn) memo = (w', dn', memo')"
    by (metis prod_cases3)
  show ?case
    using 2 r by (auto simp: parent_loop.psimps Let_def) (meson subsetD)
qed

termination parent_loop
proof (relation "inv_image (finite_psubset <*lex*> less_than)
    (\<lambda>(spec, cs, w, dn, memo). (parent_keys spec - dn, length cs))", goal_cases)
  case 1
  show ?case by auto
next
  case (2 spec c cs w dn memo)
  then show ?case by simp
next
  case (3 spec c cs w dn memo)
  then show ?case by (auto simp: finite_psubset_def parent_keys_def)
next
  case (4 spec c cs w dn memo)
  then have "c \<in> parent_keys spec" by (simp add: parent_keys_def)
  with 4 show ?case by (auto simp: finite_psubset_def)
next
  case (5 spec c cs w dn memo w' p dn' memo' memo'')
  then have "parent_loop spec (children_of spec c) no_window (insert c dn) memo = (w', dn', memo')" by simp
  with 5 parent_loop_done [of spec "children_of spec c" no_window "insert c dn" memo] have "dn \<subseteq> dn'" by auto
  then have "parent_keys spec - dn' \<subseteq> parent_keys spec - dn" by blast
  then show ?case by (auto simp: finite_psubset_def)
qed

definition parent_windows :: "workflow_spec \<Rightarrow> (string \<rightharpoonup> bar) \<Rightarrow> string \<rightharpoonup> bar" where
  "parent_windows spec memo = snd (snd (parent_loop spec (spec_keys spec) no_window {} memo))"

section \<open>The result\<close>

definition bar_text :: "bar \<Rightarrow> resolved_task option" where
  "bar_text b =
     (case (bar_start b, bar_end b, bar_due b) of
        (Some s, Some e, Some d) \<Rightarrow>
          Some \<lparr>rt_plannedStartUtc = toISOString s, rt_plannedEndUtc = toISOString e, rt_dueAtUtc = toISOString d\<rparr>
      | _ \<Rightarrow> None)"

definition make_resolver :: "calendar \<Rightarrow> instant \<Rightarrow> workflow_spec \<Rightarrow> resolve_options \<Rightarrow> resolver" where
  "make_resolver cal now spec opts =
     (let targetTz = nullish (target_tz spec) ''UTC'';
          targetIso = (case ro_targetAtUtc opts of Some x \<Rightarrow> Some x | None \<Rightarrow> target_at spec)
      in \<lparr>rv_cal = cal, rv_spec = spec,
          rv_targetMs = (case targetIso of
                           Some x \<Rightarrow> if x = [] then Some now else parseInstantMs cal x targetTz
                         | None \<Rightarrow> Some now),
          rv_frozen = ro_frozenDueAt opts\<rparr>)"

text \<open>The bars of all tasks before they are rendered.\<close>

definition resolved_bars :: "resolver \<Rightarrow> string \<rightharpoonup> bar" where
  "resolved_bars R = parent_windows (rv_spec R) (rs_memo (resolve_all R \<lparr>rs_memo = Map.empty, rs_warnings = []\<rparr>))"

definition resolveSchedule ::
  "calendar \<Rightarrow> instant \<Rightarrow> workflow_spec \<Rightarrow> resolve_options \<Rightarrow> schedule_error + resolve_result" where
  "resolveSchedule cal now spec opts =
     (let R = make_resolver cal now spec opts;
          st = resolve_all R \<lparr>rs_memo = Map.empty, rs_warnings = []\<rparr>;
          memo = parent_windows spec (rs_memo st);
          warnings = filter (\<lambda>w. \<not> (rw_code w = ''UNSCHEDULED_DEFAULTED_TO_RELEASE''
                                     \<and> children_of spec (rw_taskKey w) \<noteq> [])) (rs_warnings st);
          rows = map (\<lambda>k. (k, Option.bind (memo k) bar_text)) (spec_keys spec)
      in if list_ex (\<lambda>(k, r). r = None) rows then Inl InvalidTimeValue
         else Inr \<lparr>rr_tasks = js_map (map (\<lambda>(k, r). (k, the r)) rows), rr_warnings = warnings\<rparr>)"

section \<open>The cascade preview\<close>

record cascade_entry =
  cd_taskKey :: string
  cd_oldDueAtUtc :: string
  cd_newDueAtUtc :: string

definition frozen_pins :: "workflow_spec \<Rightarrow> (string \<rightharpoonup> resolved_task) \<Rightarrow> string \<rightharpoonup> frozen" where
  "frozen_pins spec before =
     js_map (List.map_filter
       (\<lambda>t. if task_pinned t then map_option (\<lambda>r. (task_key t, FrozenDue (rt_dueAtUtc r))) (before (task_key t)) else None)
       (spec_tasks spec))"

definition cascade_row ::
  "workflow_spec \<Rightarrow> (string \<rightharpoonup> resolved_task) \<Rightarrow> (string \<rightharpoonup> resolved_task) \<Rightarrow> task_spec \<Rightarrow> cascade_entry option" where
  "cascade_row spec before after t =
     (if task_pinned t then None
      else if children_of spec (task_key t) \<noteq> [] then None
      else
        (case (before (task_key t), after (task_key t)) of
           (Some old, Some new) \<Rightarrow>
             if rt_dueAtUtc old \<noteq> [] \<and> rt_dueAtUtc new \<noteq> [] \<and> rt_dueAtUtc old \<noteq> rt_dueAtUtc new
             then Some \<lparr>cd_taskKey = task_key t, cd_oldDueAtUtc = rt_dueAtUtc old, cd_newDueAtUtc = rt_dueAtUtc new\<rparr>
             else None
         | _ \<Rightarrow> None))"

definition computeCascadeDiff ::
  "calendar \<Rightarrow> instant \<Rightarrow> instant \<Rightarrow> workflow_spec \<Rightarrow> string option \<Rightarrow> schedule_error + cascade_entry list" where
  "computeCascadeDiff cal now now' spec newTarget =
     (case resolveSchedule cal now spec \<lparr>ro_targetAtUtc = None, ro_frozenDueAt = Map.empty\<rparr> of
        Inl e \<Rightarrow> Inl e
      | Inr before \<Rightarrow>
          (case resolveSchedule cal now' spec
                  \<lparr>ro_targetAtUtc = newTarget, ro_frozenDueAt = frozen_pins spec (rr_tasks before)\<rparr> of
             Inl e \<Rightarrow> Inl e
           | Inr after \<Rightarrow>
               Inr (List.map_filter (cascade_row spec (rr_tasks before) (rr_tasks after)) (spec_tasks spec))))"

section \<open>The anchor equation\<close>

definition due_of :: "(string \<rightharpoonup> bar) \<Rightarrow> string \<Rightarrow> instant option" where
  "due_of M a = (case M a of None \<Rightarrow> None | Some b \<Rightarrow> bar_due b)"

text \<open>The bar of a task from the due instants of the others, without memo, stack or order.\<close>

definition own_bar :: "resolver \<Rightarrow> (string \<Rightarrow> instant option) \<Rightarrow> string \<Rightarrow> bar" where
  "own_bar R due k =
     (case rv_frozen R k of
        Some f \<Rightarrow> frozen_bar (rv_cal R) f
      | None \<Rightarrow>
          (let sch = schedule_at R k; tz = tzOf (rv_spec R) sch
           in case sch of
                None \<Rightarrow> applyBar (rv_cal R) (rv_targetMs R) None tz
              | Some (AbsoluteSchedule at c) \<Rightarrow> applyBar (rv_cal R) (parseInstantMs (rv_cal R) at tz) sch tz
              | Some (RelativeSchedule a offset direction localTime c) \<Rightarrow>
                  applyBar (rv_cal R) (fst (relative_instant (rv_cal R) k tz offset direction localTime
                    (if a = TARGET_ANCHOR then rv_targetMs R else due a))) sch tz))"

text \<open>The anchor a task follows.\<close>

definition follows_anchor :: "resolver \<Rightarrow> string \<Rightarrow> string option" where
  "follows_anchor R k =
     (if rv_frozen R k \<noteq> None then None
      else (case schedule_at R k of
              Some (RelativeSchedule a offset direction localTime c) \<Rightarrow> if a = TARGET_ANCHOR then None else Some a
            | _ \<Rightarrow> None))"

definition anchor_rel :: "resolver \<Rightarrow> (string \<times> string) set" where
  "anchor_rel R = {(a, k). follows_anchor R k = Some a}"

lemma own_bar_cong: "(\<And>a. follows_anchor R k = Some a \<Longrightarrow> d a = d' a) \<Longrightarrow> own_bar R d k = own_bar R d' k"
  by (auto simp: own_bar_def follows_anchor_def Let_def split: option.splits schedule_spec.splits if_splits)

text \<open>A memo whose entries satisfy the equation and contain their anchors.\<close>

definition memo_ok :: "resolver \<Rightarrow> (string \<rightharpoonup> bar) \<Rightarrow> bool" where
  "memo_ok R M \<longleftrightarrow> (\<forall>k b. M k = Some b \<longrightarrow> b = own_bar R (due_of M) k \<and> (\<forall>a. follows_anchor R k = Some a \<longrightarrow> a \<in> dom M))"

lemma memo_ok_extend:
  assumes "memo_ok R M" and "\<And>a. follows_anchor R k = Some a \<Longrightarrow> a \<in> dom M"
    and "b = own_bar R (due_of M) k"
  shows "memo_ok R (M(k \<mapsto> b)) \<and> M \<subseteq>\<^sub>m M(k \<mapsto> b)"
proof (cases "k \<in> dom M")
  case True
  with assms(1,3) have "M(k \<mapsto> b) = M" by (auto simp: memo_ok_def)
  with assms(1) show ?thesis by simp
next
  case new: False
  have same: "due_of (M(k \<mapsto> b)) a = due_of M a" if "a \<in> dom M" for a
    using that new by (auto simp: due_of_def)
  have eq: "own_bar R (due_of (M(k \<mapsto> b))) j = own_bar R (due_of M) j" if "\<And>a. follows_anchor R j = Some a \<Longrightarrow> a \<in> dom M" for j
    by (rule own_bar_cong) (rule same [OF that])
  have "memo_ok R (M(k \<mapsto> b))"
    unfolding memo_ok_def
  proof (intro allI impI)
    fix j c assume j: "(M(k \<mapsto> b)) j = Some c"
    have a: "a \<in> dom M" if "follows_anchor R j = Some a" for a
      using that j assms(1,2) by (cases "j = k") (auto simp: memo_ok_def)
    have "c = own_bar R (due_of M) j"
      using j assms(1,3) by (cases "j = k") (auto simp: memo_ok_def)
    then show "c = own_bar R (due_of (M(k \<mapsto> b))) j \<and> (\<forall>a. follows_anchor R j = Some a \<longrightarrow> a \<in> dom (M(k \<mapsto> b)))"
      using eq [OF a] a by auto
  qed
  moreover have "M \<subseteq>\<^sub>m M(k \<mapsto> b)" using new by (auto simp: map_le_def)
  ultimately show ?thesis by simp
qed

text \<open>What a visit guarantees.\<close>

definition visited :: "resolver \<Rightarrow> string \<Rightarrow> resolve_state \<Rightarrow> instant option \<times> resolve_state \<Rightarrow> bool" where
  "visited R key st r \<longleftrightarrow>
     memo_ok R (rs_memo (snd r)) \<and> rs_memo st \<subseteq>\<^sub>m rs_memo (snd r) \<and> key \<in> dom (rs_memo (snd r))
     \<and> fst r = due_of (rs_memo (snd r)) key"

lemma visited_finish:
  assumes "memo_ok R (rs_memo st)" and "\<And>a. follows_anchor R k = Some a \<Longrightarrow> a \<in> dom (rs_memo st)"
    and "b = own_bar R (due_of (rs_memo st)) k"
  shows "visited R k st (finish k b ws st)"
  using memo_ok_extend [OF assms] by (simp add: visited_def finish_def due_of_def)

lemma resolve_visited:
  "acyclic (anchor_rel R) \<Longrightarrow> memo_ok R (rs_memo st) \<Longrightarrow> (\<And>s. s \<in> set stack \<Longrightarrow> (key, s) \<in> (anchor_rel R)\<^sup>+) \<Longrightarrow>
    visited R key st (resolveDueMs R key stack st)"
proof (induction R key stack st rule: resolveDueMs.induct)
  case (1 R key stack st)
  note ok = "1.prems"(2)
  have not_on_stack: "key \<notin> set stack" using "1.prems"(1,3) by (auto simp: acyclic_def)
  show ?case
  proof (cases "rs_memo st key")
    case (Some b)
    with ok show ?thesis by (auto simp: resolveDueMs.simps [of R key stack st] visited_def due_of_def)
  next
    case fresh: None
    show ?thesis
    proof (cases "rv_frozen R key")
      case (Some f)
      have "visited R key st (finish key (frozen_bar (rv_cal R) f) [] st)"
        by (rule visited_finish [OF ok]) (simp_all add: follows_anchor_def own_bar_def Some)
      then show ?thesis by (simp add: resolveDueMs.simps [of R key stack st] fresh Some)
    next
      case free: None
      let ?tz = "tzOf (rv_spec R) (schedule_at R key)"
      show ?thesis
      proof (cases "schedule_at R key")
        case None
        show ?thesis
          unfolding resolveDueMs.simps [of R key stack st] fresh free using not_on_stack None
          by (auto simp: Let_def follows_anchor_def own_bar_def free intro!: visited_finish ok)
      next
        case (Some s)
        show ?thesis
        proof (cases s)
          case (AbsoluteSchedule at c)
          show ?thesis
            unfolding resolveDueMs.simps [of R key stack st] fresh free using not_on_stack Some AbsoluteSchedule
            by (auto simp: Let_def follows_anchor_def own_bar_def free intro!: visited_finish ok)
        next
          case (RelativeSchedule a offset direction localTime c)
          define r where "r = (if a = TARGET_ANCHOR then (rv_targetMs R, st) else resolveDueMs R a (key # stack) st)"
          obtain d st1 where r1: "r = (d, st1)" by (metis surj_pair)
          have anchor: "follows_anchor R key = (if a = TARGET_ANCHOR then None else Some a)"
            by (simp add: follows_anchor_def free Some RelativeSchedule)
          have st1: "memo_ok R (rs_memo st1)" "rs_memo st \<subseteq>\<^sub>m rs_memo st1"
            "a \<noteq> TARGET_ANCHOR \<Longrightarrow> a \<in> dom (rs_memo st1)" "d = (if a = TARGET_ANCHOR then rv_targetMs R else due_of (rs_memo st1) a)"
          proof -
            have "visited R a st r" if na: "a \<noteq> TARGET_ANCHOR"
            proof -
              have e: "(a, key) \<in> anchor_rel R" using anchor na by (simp add: anchor_rel_def)
              have "visited R a st (resolveDueMs R a (key # stack) st)"
                by (rule "1.IH" [OF fresh free not_on_stack refl refl _ RelativeSchedule na "1.prems"(1) ok])
                  (use Some e "1.prems"(3) in \<open>auto intro: trancl_into_trancl2\<close>)
              then show ?thesis by (simp add: r_def na)
            qed
            then show "memo_ok R (rs_memo st1)" "rs_memo st \<subseteq>\<^sub>m rs_memo st1"
              "a \<noteq> TARGET_ANCHOR \<Longrightarrow> a \<in> dom (rs_memo st1)" "d = (if a = TARGET_ANCHOR then rv_targetMs R else due_of (rs_memo st1) a)"
              using ok r1 by (auto simp: r_def visited_def split: if_splits)
          qed
          have fin: "visited R key st1 (finish key (applyBar (rv_cal R) (fst (relative_instant (rv_cal R) key ?tz offset direction localTime d)) (schedule_at R key) ?tz)
              (snd (relative_instant (rv_cal R) key ?tz offset direction localTime d)) st1)"
            by (rule visited_finish [OF st1(1)]) (use anchor st1(3,4) in \<open>auto simp: own_bar_def free Some RelativeSchedule Let_def split: if_splits\<close>)
          have "resolveDueMs R key stack st = finish key (applyBar (rv_cal R) (fst (relative_instant (rv_cal R) key ?tz offset direction localTime d)) (schedule_at R key) ?tz)
              (snd (relative_instant (rv_cal R) key ?tz offset direction localTime d)) st1"
            unfolding resolveDueMs.simps [of R key stack st] fresh free using not_on_stack Some RelativeSchedule r1
            by (simp add: Let_def split_beta r_def)
          then show ?thesis using fin st1(2) by (auto simp: visited_def intro: map_le_trans)
        qed
      qed
    qed
  qed
qed

lemma fold_resolve:
  assumes "acyclic (anchor_rel R)" and "memo_ok R (rs_memo st)"
    and "st' = fold (\<lambda>t st. snd (resolveDueMs R (task_key t) [] st)) ts st"
  shows "memo_ok R (rs_memo st') \<and> rs_memo st \<subseteq>\<^sub>m rs_memo st' \<and> task_key ` set ts \<subseteq> dom (rs_memo st')"
  using assms(2) unfolding assms(3)
proof (induction ts arbitrary: st)
  case (Cons t ts)
  let ?st = "snd (resolveDueMs R (task_key t) [] st)"
  have v: "visited R (task_key t) st (resolveDueMs R (task_key t) [] st)"
    by (rule resolve_visited [OF assms(1) Cons.prems]) simp
  then have "memo_ok R (rs_memo ?st)" by (simp add: visited_def)
  note ih = Cons.IH [OF this]
  have "rs_memo st \<subseteq>\<^sub>m rs_memo (fold (\<lambda>t st. snd (resolveDueMs R (task_key t) [] st)) ts ?st)"
    "task_key t \<in> dom (rs_memo (fold (\<lambda>t st. snd (resolveDueMs R (task_key t) [] st)) ts ?st))"
    using v ih by (auto simp: visited_def intro: map_le_trans dest: map_le_implies_dom_le)
  with ih show ?case by simp
qed simp

definition leaf_bars :: "resolver \<Rightarrow> string \<rightharpoonup> bar" where
  "leaf_bars R = rs_memo (resolve_all R \<lparr>rs_memo = Map.empty, rs_warnings = []\<rparr>)"

lemma leaf_bars_ok:
  assumes "acyclic (anchor_rel R)"
  shows "memo_ok R (leaf_bars R)" and "set (spec_keys (rv_spec R)) \<subseteq> dom (leaf_bars R)"
  using fold_resolve [OF assms, of "\<lparr>rs_memo = Map.empty, rs_warnings = []\<rparr>" _ "spec_tasks (rv_spec R)"]
  by (auto simp: leaf_bars_def resolve_all_def memo_ok_def spec_keys_def)

section \<open>Parent windows\<close>

definition child_rel :: "workflow_spec \<Rightarrow> (string \<times> string) set" where
  "child_rel spec = {(p, c). c \<in> set (children_of spec p)}"

definition window_of :: "workflow_spec \<Rightarrow> (string \<rightharpoonup> bar) \<Rightarrow> string \<Rightarrow> bar" where
  "window_of spec M p = fold (\<lambda>c w. widen w (M c)) (children_of spec p) no_window"

text \<open>The value a key has once it is done: its derived window, or its own bar.\<close>

definition windowed :: "workflow_spec \<Rightarrow> (string \<rightharpoonup> bar) \<Rightarrow> (string \<rightharpoonup> bar) \<Rightarrow> string \<Rightarrow> bool" where
  "windowed spec M0 M p \<longleftrightarrow>
     M p = (if children_of spec p \<noteq> [] \<and> bar_start (window_of spec M p) \<noteq> None then Some (window_of spec M p) else M0 p)"

definition pass_ok :: "workflow_spec \<Rightarrow> (string \<rightharpoonup> bar) \<Rightarrow> string set \<Rightarrow> string set \<Rightarrow> (string \<rightharpoonup> bar) \<Rightarrow> bool" where
  "pass_ok spec M0 G dn M \<longleftrightarrow>
     (\<forall>p \<in> dn - G. windowed spec M0 M p \<and> set (children_of spec p) \<subseteq> dn - G)
     \<and> (\<forall>p. p \<notin> dn - G \<longrightarrow> M p = M0 p)"

lemma window_of_cong: "(\<And>c. c \<in> set (children_of spec p) \<Longrightarrow> M c = M' c) \<Longrightarrow> window_of spec M p = window_of spec M' p"
  unfolding window_of_def by (rule fold_cong) simp_all

lemma fold_widen_cong: "(\<And>c. c \<in> set cs \<Longrightarrow> M c = M' c) \<Longrightarrow> fold (\<lambda>c w. widen w (M c)) cs w = fold (\<lambda>c w. widen w (M' c)) cs w"
  by (rule fold_cong) simp_all

lemma parent_loop_spec:
  "acyclic (child_rel spec) \<Longrightarrow> pass_ok spec M0 G dn memo \<Longrightarrow>
   (\<And>c g. c \<in> set cs \<Longrightarrow> g \<in> G \<Longrightarrow> (g, c) \<in> (child_rel spec)\<^sup>+) \<Longrightarrow>
   parent_loop spec cs w dn memo = (w', dn', memo') \<Longrightarrow>
   pass_ok spec M0 G dn' memo' \<and> dn \<subseteq> dn' \<and> set cs \<subseteq> dn' - G \<and> (\<forall>p \<in> dn - G. memo' p = memo p)
   \<and> w' = fold (\<lambda>c w. widen w (memo' c)) cs w"
proof (induction spec cs w dn memo arbitrary: G w' dn' memo' rule: parent_loop.induct)
  case (1 spec w dn memo)
  then show ?case by simp
next
  case (2 spec c cs w dn memo)
  have cG: "c \<notin> G" using "2.prems"(3) [of c c] "2.prems"(1) unfolding acyclic_def by (meson list.set_intros(1))
  have rest: "\<And>c' g. c' \<in> set cs \<Longrightarrow> g \<in> G \<Longrightarrow> (g, c') \<in> (child_rel spec)\<^sup>+" using "2.prems"(3) by simp
  show ?case
  proof (cases "c \<in> dn")
    case True
    have r: "parent_loop spec cs (widen w (memo c)) dn memo = (w', dn', memo')" using "2.prems"(4) True by simp
    have ih: "pass_ok spec M0 G dn' memo' \<and> dn \<subseteq> dn' \<and> set cs \<subseteq> dn' - G \<and> (\<forall>p \<in> dn - G. memo' p = memo p)
      \<and> w' = fold (\<lambda>c w. widen w (memo' c)) cs (widen w (memo c))"
      by (rule "2.IH"(1) [OF True "2.prems"(1,2) rest r])
    then have "memo' c = memo c" using True cG by blast
    moreover have "c \<in> dn'" using ih True by blast
    ultimately show ?thesis using ih cG by simp
  next
    case new: False
    show ?thesis
    proof (cases "children_of spec c = []")
      case True
      have r: "parent_loop spec cs (widen w (memo c)) (insert c dn) memo = (w', dn', memo')" using "2.prems"(4) True new by simp
      have "pass_ok spec M0 G (insert c dn) memo"
      proof -
        have "memo c = M0 c" using "2.prems"(2) new unfolding pass_ok_def by blast
        then have "windowed spec M0 memo c" by (simp add: windowed_def True)
        then show ?thesis using "2.prems"(2) True unfolding pass_ok_def by auto
      qed
      then have ih: "pass_ok spec M0 G dn' memo' \<and> insert c dn \<subseteq> dn' \<and> set cs \<subseteq> dn' - G \<and> (\<forall>p \<in> insert c dn - G. memo' p = memo p)
        \<and> w' = fold (\<lambda>c w. widen w (memo' c)) cs (widen w (memo c))"
        by (rule "2.IH"(2) [OF new True "2.prems"(1) _ rest r])
      then have "memo' c = memo c" using cG by blast
      moreover have "c \<in> dn'" using ih by blast
      ultimately show ?thesis using ih cG by simp
    next
      case False
      obtain w1 dn1 memo1 where inner: "parent_loop spec (children_of spec c) no_window (insert c dn) memo = (w1, dn1, memo1)"
        by (metis prod_cases3)
      define memo2 where "memo2 = set_window c w1 memo1"
      have r: "parent_loop spec cs (widen w (memo2 c)) dn1 memo2 = (w', dn', memo')"
        using "2.prems"(4) False new inner by (simp add: memo2_def Let_def)
      have "pass_ok spec M0 (insert c G) (insert c dn) memo"
      proof -
        have "insert c dn - insert c G = dn - G" using new cG by blast
        then show ?thesis using "2.prems"(2) unfolding pass_ok_def by simp
      qed
      moreover have "(g, c') \<in> (child_rel spec)\<^sup>+" if "c' \<in> set (children_of spec c)" "g \<in> insert c G" for c' g
      proof -
        have e: "(c, c') \<in> child_rel spec" using that by (simp add: child_rel_def)
        with that(2) "2.prems"(3) show ?thesis by (auto intro: trancl_into_trancl)
      qed
      ultimately have i1: "pass_ok spec M0 (insert c G) dn1 memo1 \<and> insert c dn \<subseteq> dn1 \<and> set (children_of spec c) \<subseteq> dn1 - insert c G
        \<and> (\<forall>p \<in> insert c dn - insert c G. memo1 p = memo p) \<and> w1 = fold (\<lambda>c w. widen w (memo1 c)) (children_of spec c) no_window"
        by (rule "2.IH"(3) [OF new False "2.prems"(1) _ _ inner])
      have other: "memo2 p = memo1 p" if "p \<noteq> c" for p using that by (simp add: memo2_def set_window_def)
      have kids: "set (children_of spec p) \<subseteq> dn1 - insert c G" if "p \<in> insert c (dn1 - insert c G)" for p
        using that i1 unfolding pass_ok_def by (cases "p = c") blast+
      have win: "window_of spec memo2 p = window_of spec memo1 p" if p: "p \<in> insert c (dn1 - insert c G)" for p
        by (rule window_of_cong) (rule other, use kids [OF p] in blast)
      have w1: "w1 = window_of spec memo1 c" using i1 by (simp add: window_of_def)
      have memo1_c: "memo1 c = M0 c" using i1 unfolding pass_ok_def by blast
      have ok2: "pass_ok spec M0 G dn1 memo2"
        unfolding pass_ok_def
      proof (intro conjI ballI allI impI)
        fix p assume p: "p \<in> dn1 - G"
        then have p': "p \<in> insert c (dn1 - insert c G)" by blast
        show "set (children_of spec p) \<subseteq> dn1 - G" using kids [OF p'] by blast
        show "windowed spec M0 memo2 p"
        proof (cases "p = c")
          case True
          then show ?thesis
            unfolding windowed_def win [OF p'] using False w1 memo1_c by (simp add: memo2_def set_window_def)
        next
          case pc: False
          then have "windowed spec M0 memo1 p" using i1 p by (simp add: pass_ok_def)
          then show ?thesis unfolding windowed_def win [OF p'] other [OF pc] .
        qed
      next
        fix p assume p: "p \<notin> dn1 - G"
        then have "p \<noteq> c" using i1 cG by blast
        moreover have "memo1 p = M0 p" using i1 p unfolding pass_ok_def by blast
        ultimately show "memo2 p = M0 p" by (simp add: other)
      qed
      have i2: "pass_ok spec M0 G dn' memo' \<and> dn1 \<subseteq> dn' \<and> set cs \<subseteq> dn' - G \<and> (\<forall>p \<in> dn1 - G. memo' p = memo2 p)
        \<and> w' = fold (\<lambda>c w. widen w (memo' c)) cs (widen w (memo2 c))"
        by (rule "2.IH"(4) [OF new False inner [symmetric] refl memo2_def "2.prems"(1) ok2 rest r])
      have c1: "c \<in> dn1 - G" using i1 cG by blast
      have "memo' p = memo p" if p: "p \<in> dn - G" for p
      proof -
        have "p \<noteq> c" "p \<in> dn1 - G" "p \<in> insert c dn - insert c G" using p new i1 by blast+
        then show ?thesis using i1 i2 other by metis
      qed
      moreover have "w' = fold (\<lambda>c w. widen w (memo' c)) (c # cs) w" using i2 c1 by simp
      moreover have "dn \<subseteq> dn'" "set (c # cs) \<subseteq> dn' - G" using i1 i2 c1 by auto
      ultimately show ?thesis using i2 by blast
    qed
  qed
qed

text \<open>The result: every task that is a parent has the window of its children, the others keep their bars.\<close>

lemma parent_windows_spec:
  assumes "acyclic (child_rel spec)" and "p \<in> set (spec_keys spec)"
  shows "windowed spec M0 (parent_windows spec M0) p"
proof -
  obtain w' dn' memo' where r: "parent_loop spec (spec_keys spec) no_window {} M0 = (w', dn', memo')" by (metis prod_cases3)
  have "pass_ok spec M0 {} {} M0" by (simp add: pass_ok_def)
  from parent_loop_spec [OF assms(1) this _ r] assms(2) show ?thesis
    by (auto simp: parent_windows_def r pass_ok_def)
qed

section \<open>Properties\<close>

definition no_options :: resolve_options where
  "no_options = \<lparr>ro_targetAtUtc = None, ro_frozenDueAt = Map.empty\<rparr>"

lemma make_resolver_simps [simp]:
  "rv_cal (make_resolver cal now spec opts) = cal" "rv_spec (make_resolver cal now spec opts) = spec"
  "rv_frozen (make_resolver cal now spec opts) = ro_frozenDueAt opts"
  by (simp_all add: make_resolver_def Let_def)

lemma resolveSchedule_rows:
  assumes "resolveSchedule cal now spec opts = Inr r" and "k \<in> set (spec_keys spec)"
  shows "rr_tasks r k = Option.bind (resolved_bars (make_resolver cal now spec opts) k) bar_text \<and> rr_tasks r k \<noteq> None"
proof -
  let ?row = "\<lambda>k. Option.bind (resolved_bars (make_resolver cal now spec opts) k) bar_text"
  have r: "rr_tasks r = js_map (map (\<lambda>k. (k, the (?row k))) (spec_keys spec))" and ok: "?row k \<noteq> None"
    using assms by (auto simp: resolveSchedule_def Let_def resolved_bars_def list_ex_iff o_def split: if_splits)
  have "map_of (rev (map (\<lambda>k. (k, the (?row k))) (spec_keys spec))) k = Some (the (?row k))"
    using assms(2) by (simp add: rev_map map_of_map_restrict)
  with r ok show ?thesis by (simp add: js_map_def)
qed

text \<open>
  C30. What a schedule resolves to: if the anchors and the hierarchy have no cycle, there are bars such that every
  task's own bar follows from its schedule and the due instant of the task it is anchored to
  (visiting order and memo do not matter), a summary parent has the window of its children, and the result
  renders these bars.
\<close>

theorem schedule_exact:
  assumes "resolveSchedule cal now spec opts = Inr r" and "acyclic (anchor_rel (make_resolver cal now spec opts))"
    and "acyclic (child_rel spec)"
  shows "\<exists>own final.
    (\<forall>k \<in> set (spec_keys spec). own k = Some (own_bar (make_resolver cal now spec opts) (due_of own) k)
      \<and> final k = (if children_of spec k \<noteq> [] \<and> bar_start (window_of spec final k) \<noteq> None then Some (window_of spec final k) else own k)
      \<and> rr_tasks r k = Option.bind (final k) bar_text)"
proof -
  let ?R = "make_resolver cal now spec opts"
  have "leaf_bars ?R k = Some (own_bar ?R (due_of (leaf_bars ?R)) k)" if "k \<in> set (spec_keys spec)" for k
    using leaf_bars_ok [OF assms(2)] that by (force simp: memo_ok_def dom_def)
  moreover have "windowed spec (leaf_bars ?R) (resolved_bars ?R) k" if "k \<in> set (spec_keys spec)" for k
    using parent_windows_spec [OF assms(3) that] by (simp add: resolved_bars_def leaf_bars_def)
  ultimately show ?thesis
    using resolveSchedule_rows [OF assms(1)] unfolding windowed_def
    by (intro exI [of _ "leaf_bars ?R"] exI [of _ "resolved_bars ?R"]) simp
qed

text \<open>A task anchored to a summary parent follows the target, not the parent's window.\<close>

lemma anchor_to_unscheduled:
  assumes "acyclic (anchor_rel R)" and "a \<in> set (spec_keys (rv_spec R))" and "rv_frozen R a = None" and "schedule_at R a = None"
  shows "due_of (leaf_bars R) a = rv_targetMs R"
proof -
  have "leaf_bars R a = Some (own_bar R (due_of (leaf_bars R)) a)"
    using leaf_bars_ok [OF assms(1)] assms(2) by (force simp: memo_ok_def dom_def)
  then show ?thesis using assms(3,4) by (simp add: due_of_def own_bar_def applyBar_def Let_def)
qed

section \<open>The cascade\<close>

definition pinned_key :: "workflow_spec \<Rightarrow> string \<Rightarrow> bool" where
  "pinned_key spec k \<longleftrightarrow> list_ex (\<lambda>t. task_key t = k \<and> task_pinned t) (spec_tasks spec)"

text \<open>The tasks that move with the target: through unpinned tasks, their anchors lead to the target or to an unscheduled task.\<close>

inductive tracks_target :: "workflow_spec \<Rightarrow> string \<Rightarrow> bool" for spec where
  tracks_unscheduled: "Option.bind (by_key spec k) task_schedule = None \<Longrightarrow> \<not> pinned_key spec k \<Longrightarrow>
     tracks_target spec k"
| tracks_anchor: "Option.bind (by_key spec k) task_schedule = Some (RelativeSchedule a offset direction localTime c) \<Longrightarrow>
     \<not> pinned_key spec k \<Longrightarrow> a = TARGET_ANCHOR \<or> tracks_target spec a \<Longrightarrow> tracks_target spec k"

lemma childless_keeps:
  "children_of spec k = [] \<Longrightarrow> snd (snd (parent_loop spec cs w dn memo)) k = memo k"
proof (induction spec cs w dn memo rule: parent_loop.induct)
  case (2 spec c cs w dn memo)
  obtain w1 dn1 memo1 where inner: "parent_loop spec (children_of spec c) no_window (insert c dn) memo = (w1, dn1, memo1)"
    by (metis prod_cases3)
  show ?case
    using 2 inner by (auto simp: Let_def set_window_def)
qed simp

lemma childless_bar: "children_of (rv_spec R) k = [] \<Longrightarrow> resolved_bars R k = leaf_bars R k"
  by (simp add: resolved_bars_def parent_windows_def childless_keeps leaf_bars_def)

definition year_of :: "instant \<Rightarrow> int" where
  "year_of t = fst (civil_of_days (t div 86400000))"

definition years_ok :: "resolver \<Rightarrow> bool" where
  "years_ok R \<longleftrightarrow> list_all (\<lambda>k. case Option.bind (resolved_bars R k) bar_due of
      None \<Rightarrow> True | Some d \<Rightarrow> 0 \<le> year_of d \<and> year_of d \<le> 9999) (spec_keys (rv_spec R))"

definition pins_on_leaves :: "workflow_spec \<Rightarrow> bool" where
  "pins_on_leaves spec \<longleftrightarrow> list_all (\<lambda>t. task_pinned t \<longrightarrow> children_of spec (task_key t) = []) (spec_tasks spec)"

lemma frozen_pins_None: "\<not> pinned_key spec k \<Longrightarrow> frozen_pins spec before k = None"
  by (force simp: frozen_pins_def js_map_def pinned_key_def list_ex_iff map_of_eq_None_iff List.map_filter_def split: if_splits)

lemma frozen_pins_Some:
  assumes "pinned_key spec k" and "before k = Some r"
  shows "frozen_pins spec before k = Some (FrozenDue (rt_dueAtUtc r))"
proof -
  let ?es = "List.map_filter (\<lambda>t. if task_pinned t then map_option (\<lambda>r. (task_key t, FrozenDue (rt_dueAtUtc r))) (before (task_key t)) else None) (spec_tasks spec)"
  have v: "v = FrozenDue (rt_dueAtUtc r)" if "(k, v) \<in> set ?es" for v
    using that assms(2) by (auto simp: List.map_filter_def split: if_splits)
  obtain t where "t \<in> set (spec_tasks spec)" "task_key t = k" "task_pinned t" using assms(1) by (auto simp: pinned_key_def list_ex_iff)
  then have "(k, FrozenDue (rt_dueAtUtc r)) \<in> set ?es" using assms(2) by (force simp: List.map_filter_def)
  then obtain v where "map_of (rev ?es) k = Some v"
    by (metis (no_types, lifting) map_of_eq_None_iff not_Some_eq set_rev image_eqI fst_conv)
  moreover from this have "(k, v) \<in> set ?es" by (auto dest: map_of_SomeD)
  ultimately show ?thesis using v by (simp add: frozen_pins_def js_map_def)
qed

lemma finite_anchor_rel: "finite (anchor_rel R)"
proof (rule finite_subset)
  show "anchor_rel R \<subseteq> (\<lambda>k. (the (follows_anchor R k), k)) ` set (spec_keys (rv_spec R))"
  proof
    fix e assume "e \<in> anchor_rel R"
    then obtain a k where e: "e = (a, k)" "follows_anchor R k = Some a" by (auto simp: anchor_rel_def)
    then have "schedule_at R k \<noteq> None" by (auto simp: follows_anchor_def split: if_splits option.splits)
    then have "k \<in> set (spec_keys (rv_spec R))" using schedule_at_Some by blast
    with e show "e \<in> (\<lambda>k. (the (follows_anchor R k), k)) ` set (spec_keys (rv_spec R))" by (simp add: image_iff)
  qed
qed simp

lemma leaf_bar_eq:
  "acyclic (anchor_rel R) \<Longrightarrow> k \<in> dom (leaf_bars R) \<Longrightarrow> leaf_bars R k = Some (own_bar R (due_of (leaf_bars R)) k)"
  "acyclic (anchor_rel R) \<Longrightarrow> k \<in> dom (leaf_bars R) \<Longrightarrow> follows_anchor R k = Some a \<Longrightarrow> a \<in> dom (leaf_bars R)"
  using leaf_bars_ok(1) [of R] by (force simp: memo_ok_def dom_def)+

text \<open>The due instant rendered for a childless task is the one its anchored tasks see.\<close>

lemma rendered_due:
  assumes "resolveSchedule cal now spec opts = Inr b" and "k \<in> set (spec_keys spec)" and "children_of spec k = []"
  obtains d r where "due_of (leaf_bars (make_resolver cal now spec opts)) k = Some d" "rr_tasks b k = Some r" "rt_dueAtUtc r = toISOString d"
proof -
  have "resolved_bars (make_resolver cal now spec opts) k = leaf_bars (make_resolver cal now spec opts) k"
    using childless_bar [of "make_resolver cal now spec opts" k] assms(3) by simp
  then have eq: "rr_tasks b k = Option.bind (leaf_bars (make_resolver cal now spec opts) k) bar_text"
    using conjunct1 [OF resolveSchedule_rows [OF assms(1,2)]] by simp
  obtain r where r: "rr_tasks b k = Some r" using resolveSchedule_rows [OF assms(1,2)] by blast
  with eq have "Option.bind (leaf_bars (make_resolver cal now spec opts) k) bar_text = Some r" by simp
  then obtain br where "leaf_bars (make_resolver cal now spec opts) k = Some br" "bar_text br = Some r"
    by (auto simp: bind_eq_Some_conv)
  moreover from this obtain d where "bar_due br = Some d" "rt_dueAtUtc r = toISOString d"
    by (auto simp: bar_text_def split: option.splits)
  ultimately show ?thesis using r by (intro that [of d r]) (simp_all add: due_of_def)
qed

lemma pinned_stays:
  assumes b: "resolveSchedule cal now spec no_options = Inr b" and R: "R = make_resolver cal now spec no_options"
    and R': "R' = make_resolver cal now' spec \<lparr>ro_targetAtUtc = tgt, ro_frozenDueAt = frozen_pins spec (rr_tasks b)\<rparr>"
    and acyc: "acyclic (anchor_rel R')" and yrs: "years_ok R" and pins: "pins_on_leaves spec"
    and pin: "pinned_key spec k"
  shows "due_of (leaf_bars R') k = due_of (leaf_bars R) k"
proof -
  obtain t where t: "t \<in> set (spec_tasks spec)" "task_key t = k" "task_pinned t" using pin by (auto simp: pinned_key_def list_ex_iff)
  have k: "k \<in> set (spec_keys spec)" "children_of spec k = []" using t pins by (auto simp: spec_keys_def pins_on_leaves_def list_all_iff)
  obtain d r where d: "due_of (leaf_bars R) k = Some d" "rr_tasks b k = Some r" "rt_dueAtUtc r = toISOString d"
    using rendered_due [OF b k] unfolding R [symmetric] .
  have "resolved_bars R k = leaf_bars R k" using childless_bar [of R k] k(2) by (simp add: R)
  then have "0 \<le> year_of d" "year_of d \<le> 9999"
    using yrs k(1) d(1) by (auto simp: years_ok_def list_all_iff R due_of_def split: option.splits)
  then have "dateParse cal (toISOString d) = Some d" using iso_parse_toISOString [of d] by (simp add: year_of_def dateParse_def)
  moreover have "leaf_bars R' k = Some (own_bar R' (due_of (leaf_bars R')) k)"
    by (rule leaf_bar_eq(1) [OF acyc]) (use leaf_bars_ok(2) [OF acyc] k(1) in \<open>auto simp: R'\<close>)
  moreover have "rv_frozen R' k = Some (FrozenDue (toISOString d))" using frozen_pins_Some [of spec k "rr_tasks b" r] pin d(2,3) by (simp add: R')
  ultimately show ?thesis using d(1) by (simp add: due_of_def own_bar_def frozen_bar_def R' Let_def)
qed

lemma untracked_stays:
  assumes b: "resolveSchedule cal now spec no_options = Inr b" and R: "R = make_resolver cal now spec no_options"
    and R': "R' = make_resolver cal now' spec \<lparr>ro_targetAtUtc = tgt, ro_frozenDueAt = frozen_pins spec (rr_tasks b)\<rparr>"
    and acyc: "acyclic (anchor_rel R)" and yrs: "years_ok R" and pins: "pins_on_leaves spec"
  shows "k \<in> dom (leaf_bars R) \<Longrightarrow> k \<in> dom (leaf_bars R') \<Longrightarrow> \<not> tracks_target spec k \<Longrightarrow> due_of (leaf_bars R') k = due_of (leaf_bars R) k"
proof -
  have sch: "schedule_at R' = schedule_at R" "schedule_at R j = Option.bind (by_key spec j) task_schedule" for j
    by (simp_all add: R R' schedule_at_def fun_eq_iff)
  have same: "rv_cal R' = rv_cal R" "rv_spec R' = rv_spec R" by (simp_all add: R R')
  have free: "rv_frozen R j = None" for j by (simp add: R no_options_def)
  have anch: "follows_anchor R' j = (if rv_frozen R' j = None then follows_anchor R j else None)" for j
    by (simp add: follows_anchor_def sch free)
  have acyc': "acyclic (anchor_rel R')"
    by (rule acyclic_subset [OF acyc]) (auto simp: anchor_rel_def anch split: if_splits)
  have wf: "wf (anchor_rel R)" using acyc finite_anchor_rel by (simp add: wf_iff_acyclic_if_finite)
  show "k \<in> dom (leaf_bars R) \<Longrightarrow> k \<in> dom (leaf_bars R') \<Longrightarrow> \<not> tracks_target spec k \<Longrightarrow> due_of (leaf_bars R') k = due_of (leaf_bars R) k"
    using wf
  proof (induction k rule: wf_induct_rule)
    case (less k)
    show ?case
    proof (cases "pinned_key spec k")
      case True
      then show ?thesis by (rule pinned_stays [OF b R R' acyc' yrs pins])
    next
      case False
      then have free': "rv_frozen R' k = None" using frozen_pins_None [of spec k] by (simp add: R')
      have "\<exists>s. schedule_at R k = Some s" using less.prems(3) False tracks_unscheduled by (auto simp: sch(2))
      then obtain s where s: "schedule_at R k = Some s" by blast
      have due: "due_of (leaf_bars R') a = due_of (leaf_bars R) a"
        if rel: "s = RelativeSchedule a offset direction localTime c" and na: "a \<noteq> TARGET_ANCHOR" for a offset direction localTime c
      proof (rule less.IH)
        have f: "follows_anchor R k = Some a" using s rel na free by (simp add: follows_anchor_def)
        then show "(a, k) \<in> anchor_rel R" by (simp add: anchor_rel_def)
        show "a \<in> dom (leaf_bars R)" by (rule leaf_bar_eq(2) [OF acyc less.prems(1) f])
        show "a \<in> dom (leaf_bars R')" by (rule leaf_bar_eq(2) [OF acyc' less.prems(2)]) (simp add: anch free' f)
        show "\<not> tracks_target spec a" using less.prems(3) s rel False tracks_anchor by (auto simp: sch(2))
      qed
      have not_target: "a \<noteq> TARGET_ANCHOR" if "s = RelativeSchedule a offset direction localTime c" for a offset direction localTime c
        using that less.prems(3) s False tracks_anchor [of spec k a offset direction localTime c] by (auto simp: sch(2))
      have "own_bar R' (due_of (leaf_bars R')) k = own_bar R (due_of (leaf_bars R)) k"
        using s due not_target free free' by (cases s) (auto simp: own_bar_def sch(1) Let_def same)
      then show ?thesis using leaf_bar_eq(1) [OF acyc less.prems(1)] leaf_bar_eq(1) [OF acyc' less.prems(2)] by (simp add: due_of_def)
    qed
  qed
qed

text \<open>
  The cascade moves only what it should: every entry of a preview belongs to an unpinned task without
  children whose due date really changes and whose anchors, followed through unpinned tasks, lead to the
  target (or to an unscheduled task, which stands at it). Pinned tasks, what is anchored
  behind them and what is anchored to absolute dates stay.
\<close>

theorem cascade_scope:
  assumes "computeCascadeDiff cal now now' spec newTarget = Inr diff"
    and "acyclic (anchor_rel (make_resolver cal now spec no_options))"
    and "years_ok (make_resolver cal now spec no_options)" and "pins_on_leaves spec"
  shows "list_all (\<lambda>e. list_ex (\<lambda>t. task_key t = cd_taskKey e \<and> \<not> task_pinned t) (spec_tasks spec)
      \<and> children_of spec (cd_taskKey e) = [] \<and> cd_oldDueAtUtc e \<noteq> cd_newDueAtUtc e \<and> tracks_target spec (cd_taskKey e)) diff"
proof -
  obtain b where b: "resolveSchedule cal now spec no_options = Inr b"
    using assms(1) by (auto simp: computeCascadeDiff_def no_options_def split: sum.splits)
  let ?o = "\<lparr>ro_targetAtUtc = newTarget, ro_frozenDueAt = frozen_pins spec (rr_tasks b)\<rparr>"
  obtain a where a: "resolveSchedule cal now' spec ?o = Inr a"
    and diff: "diff = List.map_filter (cascade_row spec (rr_tasks b) (rr_tasks a)) (spec_tasks spec)"
    using assms(1) b by (auto simp: computeCascadeDiff_def no_options_def split: sum.splits)
  let ?R = "make_resolver cal now spec no_options" and ?R' = "make_resolver cal now' spec ?o"
  have acyc': "acyclic (anchor_rel ?R')"
    by (rule acyclic_subset [OF assms(2)]) (auto simp: anchor_rel_def follows_anchor_def schedule_at_def no_options_def split: if_splits)
  have "list_ex (\<lambda>t. task_key t = cd_taskKey e \<and> \<not> task_pinned t) (spec_tasks spec)
      \<and> children_of spec (cd_taskKey e) = [] \<and> cd_oldDueAtUtc e \<noteq> cd_newDueAtUtc e \<and> tracks_target spec (cd_taskKey e)"
    if e: "e \<in> set diff" for e
  proof -
    obtain t where t: "t \<in> set (spec_tasks spec)" and row: "cascade_row spec (rr_tasks b) (rr_tasks a) t = Some e"
      using e by (auto simp: diff List.map_filter_def)
    then obtain old new where e': "\<not> task_pinned t" "children_of spec (task_key t) = []" "rr_tasks b (task_key t) = Some old"
      "rr_tasks a (task_key t) = Some new" "rt_dueAtUtc old \<noteq> rt_dueAtUtc new" "cd_taskKey e = task_key t"
      "cd_oldDueAtUtc e = rt_dueAtUtc old" "cd_newDueAtUtc e = rt_dueAtUtc new"
      by (auto simp: cascade_row_def split: if_splits option.splits)
    have k: "task_key t \<in> set (spec_keys spec)" using t by (simp add: spec_keys_def)
    obtain d r where d: "due_of (leaf_bars ?R) (task_key t) = Some d" "rr_tasks b (task_key t) = Some r" "rt_dueAtUtc r = toISOString d"
      by (rule rendered_due [OF b k e'(2)])
    obtain d' r' where d': "due_of (leaf_bars ?R') (task_key t) = Some d'" "rr_tasks a (task_key t) = Some r'" "rt_dueAtUtc r' = toISOString d'"
      by (rule rendered_due [OF a k e'(2)])
    have "due_of (leaf_bars ?R') (task_key t) \<noteq> due_of (leaf_bars ?R) (task_key t)" using d d' e'(3-5) by auto
    then have "tracks_target spec (task_key t)"
      using untracked_stays [OF b refl refl assms(2-4), of "task_key t" now' newTarget] leaf_bars_ok(2) [OF assms(2)] leaf_bars_ok(2) [OF acyc'] k by auto
    with t e' show ?thesis by (auto simp: list_ex_iff)
  qed
  then show ?thesis by (simp add: list_all_iff)
qed

definition demo_task :: "string \<Rightarrow> (string \<times> json) list \<Rightarrow> json" where
  "demo_task k fs = JObj ((''key'', JStr k) # (''type'', JStr ''manual'') # (''title'', JStr k) # fs)"

definition demo_schedule :: "string \<Rightarrow> string \<Rightarrow> json" where
  "demo_schedule anchor offset = JObj [(''mode'', JStr ''relative''), (''anchor'', JStr anchor),
     (''offsetIso8601'', JStr offset), (''direction'', JStr ''before'')]"

text \<open>A draft three days, a pinned review two days and a launch one day before the target; a check hangs on the review.\<close>

definition demo_spec :: json where
  "demo_spec = JObj [(''name'', JStr ''demo''),
     (''target'', JObj [(''at'', JStr ''2026-01-10T00:00:00Z''), (''tz'', JStr ''UTC'')]),
     (''tasks'', JArr [demo_task ''draft'' [(''schedule'', demo_schedule ''target'' ''P3D'')],
        demo_task ''review'' [(''schedule'', demo_schedule ''target'' ''P2D''), (''pinned'', JBool True)],
        demo_task ''check'' [(''schedule'', demo_schedule ''review'' ''PT6H'')]])]"

lemma demo_tasks:
  "spec_tasks demo_spec = [demo_task ''draft'' [(''schedule'', demo_schedule ''target'' ''P3D'')],
     demo_task ''review'' [(''schedule'', demo_schedule ''target'' ''P2D''), (''pinned'', JBool True)],
     demo_task ''check'' [(''schedule'', demo_schedule ''review'' ''PT6H'')]]"
  by (simp add: demo_spec_def spec_tasks_def get_list_def get_def)

lemma demo_fields [simp]:
  "task_key (demo_task k fs) = k" "task_schedule (demo_task k [(''schedule'', s)]) = schedule_of s"
  "task_schedule (demo_task k [(''schedule'', s), x]) = schedule_of s"
  "task_pinned (demo_task k [(''schedule'', s)]) = False" "task_pinned (demo_task k [(''schedule'', s), (''pinned'', JBool True)]) = True"
  "task_parent (demo_task k [(''schedule'', s)]) = None" "task_parent (demo_task k [(''schedule'', s), (''pinned'', JBool True)]) = None"
  "schedule_of (demo_schedule a off) = Some (RelativeSchedule a off ''before'' None \<lparr>sm_tz = None, sm_anchorPoint = None, sm_duration = None\<rparr>)"
  by (simp_all add: demo_task_def demo_schedule_def task_key_def task_schedule_def task_pinned_def task_parent_def get_true_def get_str_def get_def
      schedule_of_def schedule_common_of_def)

lemma demo_keys: "spec_keys demo_spec = [''draft'', ''review'', ''check'']"
  by (simp add: spec_keys_def demo_tasks)

lemma demo_by_key:
  "by_key demo_spec ''draft'' = Some (demo_task ''draft'' [(''schedule'', demo_schedule ''target'' ''P3D'')])"
  "by_key demo_spec ''review'' = Some (demo_task ''review'' [(''schedule'', demo_schedule ''target'' ''P2D''), (''pinned'', JBool True)])"
  "by_key demo_spec ''check'' = Some (demo_task ''check'' [(''schedule'', demo_schedule ''review'' ''PT6H'')])"
  by (simp_all add: by_key_def js_map_def demo_tasks)

lemma demo_childless: "children_of demo_spec k = []"
  by (simp add: children_of_def demo_tasks)

lemma demo_durations:
  "parseIsoDuration ''P3D'' = Some (no_duration\<lparr>du_days := 3\<rparr>)" "parseIsoDuration ''P2D'' = Some (no_duration\<lparr>du_days := 2\<rparr>)"
  "parseIsoDuration ''PT6H'' = Some (no_duration\<lparr>du_hours := 6\<rparr>)"
  by code_simp+

lemma demo_instant: "parseInstantMs cal ''2026-01-10T00:00:00Z'' tz = Some 1768003200000" "parseInstantMs cal ''2026-02-10T00:00:00Z'' tz = Some 1770681600000"
proof -
  have "iso_parse ''2026-01-10T00:00:00Z'' = Some 1768003200000" "iso_parse ''2026-02-10T00:00:00Z'' = Some 1770681600000" by code_simp+
  then show "parseInstantMs cal ''2026-01-10T00:00:00Z'' tz = Some 1768003200000" "parseInstantMs cal ''2026-02-10T00:00:00Z'' tz = Some 1770681600000"
    by (simp_all add: parseInstantMs_def has_offset_def dateParse_def)
qed

lemma demo_target: "target_at demo_spec = Some ''2026-01-10T00:00:00Z''" "target_tz demo_spec = Some ''UTC''"
  by (simp_all add: target_at_def target_tz_def demo_spec_def get_str_def get_def)

definition point :: "instant \<Rightarrow> bar" where
  "point t = \<lparr>bar_start = Some t, bar_end = Some t, bar_due = Some t\<rparr>"

lemmas demo_eval = resolve_all_def demo_tasks resolveDueMs.simps schedule_at_def demo_by_key TARGET_ANCHOR_def Let_def finish_def
  applyBar_def relative_instant_def demo_durations shift_def plain_calendar_def duration_ms_def no_duration_def demo_childless

lemma demo_leaf:
  "leaf_bars (make_resolver plain_calendar 0 demo_spec no_options) = [''draft'' \<mapsto> point 1767744000000, ''review'' \<mapsto> point 1767830400000, ''check'' \<mapsto> point 1767808800000]"
  by (simp add: leaf_bars_def demo_eval no_options_def make_resolver_def demo_target demo_instant point_def)

definition stamp :: "instant \<Rightarrow> resolved_task" where
  "stamp t = \<lparr>rt_plannedStartUtc = toISOString t, rt_plannedEndUtc = toISOString t, rt_dueAtUtc = toISOString t\<rparr>"

lemma demo_rows:
  assumes "leaf_bars (make_resolver cal now demo_spec opts) = [''draft'' \<mapsto> point a, ''review'' \<mapsto> point b, ''check'' \<mapsto> point c]"
  obtains ws where "resolveSchedule cal now demo_spec opts =
    Inr \<lparr>rr_tasks = [''draft'' \<mapsto> stamp a, ''review'' \<mapsto> stamp b, ''check'' \<mapsto> stamp c], rr_warnings = ws\<rparr>"
proof -
  have "resolved_bars (make_resolver cal now demo_spec opts) = leaf_bars (make_resolver cal now demo_spec opts)"
    by (rule ext) (rule childless_bar, simp add: demo_childless)
  then have bars: "parent_windows demo_spec (rs_memo (resolve_all (make_resolver cal now demo_spec opts) \<lparr>rs_memo = Map.empty, rs_warnings = []\<rparr>)) =
      [''draft'' \<mapsto> point a, ''review'' \<mapsto> point b, ''check'' \<mapsto> point c]"
    using assms by (simp add: resolved_bars_def)
  have shown: "bar_text (point t) = Some (stamp t)" for t by (simp add: bar_text_def point_def stamp_def)
  show ?thesis
    by (rule that) (simp add: resolveSchedule_def Let_def bars demo_keys shown js_map_def fun_upd_twist)
qed

lemma demo_stamps:
  "toISOString 1767744000000 = ''2026-01-07T00:00:00.000Z''" "toISOString 1767830400000 = ''2026-01-08T00:00:00.000Z''"
  "toISOString 1770422400000 = ''2026-02-07T00:00:00.000Z''" "toISOString 1767808800000 = ''2026-01-07T18:00:00.000Z''"
  by code_simp+

lemma demo_pins:
  "b = [''draft'' \<mapsto> stamp a, ''review'' \<mapsto> stamp 1767830400000, ''check'' \<mapsto> stamp c] \<Longrightarrow>
     frozen_pins demo_spec b = [''review'' \<mapsto> FrozenDue ''2026-01-08T00:00:00.000Z'']"
  by (simp add: frozen_pins_def demo_tasks List.map_filter_def js_map_def stamp_def demo_stamps)

lemma demo_leaf_moved:
  "leaf_bars (make_resolver plain_calendar 0 demo_spec \<lparr>ro_targetAtUtc = Some ''2026-02-10T00:00:00Z'',
     ro_frozenDueAt = [''review'' \<mapsto> FrozenDue ''2026-01-08T00:00:00.000Z'']\<rparr>) =
   [''draft'' \<mapsto> point 1770422400000, ''review'' \<mapsto> point 1767830400000, ''check'' \<mapsto> point 1767808800000]"
proof -
  have "iso_parse ''2026-01-08T00:00:00.000Z'' = Some 1767830400000" by code_simp
  then have "dateParse plain_calendar ''2026-01-08T00:00:00.000Z'' = Some 1767830400000" by (simp add: dateParse_def)
  then show ?thesis
    by (simp add: leaf_bars_def demo_eval make_resolver_def demo_target demo_instant point_def frozen_bar_def [unfolded plain_calendar_def])
qed

lemma demo_diff:
  "computeCascadeDiff plain_calendar 0 0 demo_spec (Some ''2026-02-10T00:00:00Z'') =
   Inr [\<lparr>cd_taskKey = ''draft'', cd_oldDueAtUtc = ''2026-01-07T00:00:00.000Z'', cd_newDueAtUtc = ''2026-02-07T00:00:00.000Z''\<rparr>]"
proof -
  obtain ws where b: "resolveSchedule plain_calendar 0 demo_spec no_options =
      Inr \<lparr>rr_tasks = [''draft'' \<mapsto> stamp 1767744000000, ''review'' \<mapsto> stamp 1767830400000, ''check'' \<mapsto> stamp 1767808800000], rr_warnings = ws\<rparr>"
    by (rule demo_rows [OF demo_leaf])
  obtain ws' where a: "resolveSchedule plain_calendar 0 demo_spec \<lparr>ro_targetAtUtc = Some ''2026-02-10T00:00:00Z'',
      ro_frozenDueAt = [''review'' \<mapsto> FrozenDue ''2026-01-08T00:00:00.000Z'']\<rparr> =
      Inr \<lparr>rr_tasks = [''draft'' \<mapsto> stamp 1770422400000, ''review'' \<mapsto> stamp 1767830400000, ''check'' \<mapsto> stamp 1767808800000], rr_warnings = ws'\<rparr>"
    by (rule demo_rows [OF demo_leaf_moved])
  have pins: "frozen_pins demo_spec [''draft'' \<mapsto> stamp 1767744000000, ''review'' \<mapsto> stamp 1767830400000, ''check'' \<mapsto> stamp 1767808800000] =
      [''review'' \<mapsto> FrozenDue ''2026-01-08T00:00:00.000Z'']"
    by (rule demo_pins) simp
  show ?thesis
    unfolding computeCascadeDiff_def no_options_def [symmetric] b sum.case resolve_result.simps pins a
    by (simp add: demo_tasks List.map_filter_def cascade_row_def demo_childless stamp_def demo_stamps)
qed

lemma demo_anchors: "acyclic (anchor_rel (make_resolver plain_calendar 0 demo_spec no_options))"
proof -
  let ?R = "make_resolver plain_calendar 0 demo_spec no_options"
  have only: "a = ''review'' \<and> k = ''check''" if f: "follows_anchor ?R k = Some a" for a k
  proof -
    have "schedule_at ?R k \<noteq> None" using f by (auto simp: follows_anchor_def split: if_splits option.splits)
    then have "k \<in> set (spec_keys demo_spec)" using schedule_at_Some [of ?R k] by auto
    then have "k = ''draft'' \<or> k = ''review'' \<or> k = ''check''" by (simp add: demo_keys)
    then show ?thesis using f by (auto simp: follows_anchor_def schedule_at_def demo_by_key TARGET_ANCHOR_def split: if_splits)
  qed
  have "anchor_rel ?R \<subseteq> measure (\<lambda>k. if k = ''check'' then 1 else 0)"
    by (auto simp: anchor_rel_def dest!: only)
  then show ?thesis by (rule wf_acyclic [OF wf_subset [OF wf_measure]])
qed

lemma demo_years: "years_ok (make_resolver plain_calendar 0 demo_spec no_options)"
proof -
  have "resolved_bars (make_resolver plain_calendar 0 demo_spec no_options) = leaf_bars (make_resolver plain_calendar 0 demo_spec no_options)"
    by (rule ext) (rule childless_bar, simp add: demo_childless)
  moreover have "year_of 1767744000000 = 2026" "year_of 1767830400000 = 2026" "year_of 1767808800000 = 2026" by code_simp+
  ultimately show ?thesis by (simp add: years_ok_def demo_keys demo_leaf point_def)
qed

theorem cascade_scope_witness:
  "computeCascadeDiff plain_calendar 0 0 demo_spec (Some ''2026-02-10T00:00:00Z'') =
     Inr [\<lparr>cd_taskKey = ''draft'', cd_oldDueAtUtc = ''2026-01-07T00:00:00.000Z'', cd_newDueAtUtc = ''2026-02-07T00:00:00.000Z''\<rparr>]
   \<and> tracks_target demo_spec ''draft''"
proof -
  have "pins_on_leaves demo_spec" by (simp add: pins_on_leaves_def demo_childless list_all_iff)
  then show ?thesis using cascade_scope [OF demo_diff demo_anchors demo_years] demo_diff by simp
qed

theorem schedule_exact_witness:
  "\<exists>own final. final ''review'' = own ''review''
     \<and> own ''check'' = Some (own_bar (make_resolver plain_calendar 0 demo_spec no_options) (due_of own) ''check'')"
proof -
  obtain r where r: "resolveSchedule plain_calendar 0 demo_spec no_options = Inr r" by (rule demo_rows [OF demo_leaf])
  have "acyclic (child_rel demo_spec)" by (simp add: child_rel_def acyclic_def demo_childless)
  from schedule_exact [OF r demo_anchors this] show ?thesis
    unfolding demo_keys demo_childless by auto
qed

end
