(* ===== verification/Wf_Validate.thy ===== *)
theory Wf_Validate
  imports Wf_Limits Wf_Schedule Wf_Graph Wf_Foreach
begin

text \<open>
  The three validation tiers of a specification, \<^verbatim>\<open>packages/workflows/src/spec/validate.ts\<close>:
  template, draft and start. Each check is one list of errors, in the order the code pushes them;
  messages are left out. The Zod parser, the time zone data and the calendar are parameters:
  \<open>va_safeParse\<close> is the issues or the parsed specification, \<open>va_validTz\<close> whether \<^verbatim>\<open>Intl.DateTimeFormat\<close>
  accepts a zone.
\<close>

record zod_issue =
  zi_code :: string
  zi_path :: "string list"

record validator =
  va_safeParse :: "json \<Rightarrow> zod_issue list + workflow_spec"
  va_validTz :: "string \<Rightarrow> bool"
  va_calendar :: calendar
  va_now :: instant

record validation_result =
  vr_ok :: bool
  vr_tier :: string
  vr_errors :: "spec_error list"
  vr_spec :: "workflow_spec option"

definition isValidTimeZone :: "validator \<Rightarrow> string \<Rightarrow> bool" where
  "isValidTimeZone V tz \<longleftrightarrow> tz \<noteq> [] \<and> va_validTz V tz"

definition to_upper :: "string \<Rightarrow> string" where
  "to_upper s = map (\<lambda>c. if 97 \<le> (of_char c :: nat) \<and> (of_char c :: nat) \<le> 122
                         then char_of ((of_char c :: nat) - 32) else c) s"

definition zodErrorsToStructured :: "zod_issue list \<Rightarrow> spec_error list" where
  "zodErrorsToStructured issues =
     map (\<lambda>i. error_at (to_upper (''SCHEMA_'' @ zi_code i)) (js_join ''.'' (zi_path i))) issues"

section \<open>Tokens in strings\<close>

text \<open>
  A token \<open>{{ name }}\<close> at the start of a text, with the class of the first and the later characters
  of the name; \<open>path\<close> tells whether the optional group \<^verbatim>\<open>(?:\.[^}\s]+)?\<close> follows the name. Classes that
  follow each other are disjoint, so the match is the greedy one.
\<close>

definition segment_char :: "char \<Rightarrow> bool" where
  "segment_char c \<longleftrightarrow> c \<noteq> CHR ''}'' \<and> \<not> is_space c"

definition skip_path :: "string \<Rightarrow> string" where
  "skip_path s =
     (case s of
        [] \<Rightarrow> []
      | d # r \<Rightarrow> if d = CHR ''.'' \<and> takeWhile segment_char r \<noteq> [] then dropWhile segment_char r else s)"

definition match_braced :: "(char \<Rightarrow> bool) \<Rightarrow> (char \<Rightarrow> bool) \<Rightarrow> bool \<Rightarrow> string \<Rightarrow> (string \<times> string) option" where
  "match_braced start later path s =
     (if \<not> starts_with s ''{{'' then None
      else
        (case dropWhile is_space (drop 2 s) of
           [] \<Rightarrow> None
         | c # r \<Rightarrow>
             if \<not> start c then None
             else
               (let r1 = dropWhile later r; r2 = (if path then skip_path r1 else r1); r3 = dropWhile is_space r2
                in if starts_with r3 ''}}'' then Some (c # takeWhile later r, drop 2 r3) else None)))"

lemma skip_path_shorter: "length (skip_path s) \<le> length s"
  by (auto simp: skip_path_def intro: le_SucI length_dropWhile_le split: list.split)

lemma match_braced_shorter: "match_braced start later path s = Some (e, r) \<Longrightarrow> length r < length s"
proof -
  assume m: "match_braced start later path s = Some (e, r)"
  then obtain c u where s: "starts_with s ''{{''" and cu: "dropWhile is_space (drop 2 s) = c # u"
    and r: "r = drop 2 (dropWhile is_space (if path then skip_path (dropWhile later u) else dropWhile later u))"
    by (auto simp: match_braced_def Let_def split: if_splits list.splits)
  have "length (dropWhile is_space (if path then skip_path (dropWhile later u) else dropWhile later u)) \<le> length u"
    by (auto intro: order_trans [OF length_dropWhile_le] order_trans [OF skip_path_shorter])
  moreover have "length (c # u) \<le> length (drop 2 s)" by (metis cu length_dropWhile_le)
  ultimately show ?thesis using r s by (auto simp: starts_with_iff)
qed

text \<open>The names of all tokens, from the left, as \<^verbatim>\<open>matchAll\<close> and the \<^verbatim>\<open>exec\<close> loop find them.\<close>

function scan_tokens :: "(char \<Rightarrow> bool) \<Rightarrow> (char \<Rightarrow> bool) \<Rightarrow> bool \<Rightarrow> string \<Rightarrow> string list" where
  "scan_tokens start later path s =
     (case s of
        [] \<Rightarrow> []
      | c # cs \<Rightarrow>
          (case match_braced start later path s of
             None \<Rightarrow> scan_tokens start later path cs
           | Some (name, r) \<Rightarrow> name # scan_tokens start later path r))"
  by pat_completeness auto
termination
  by (relation "measure (\<lambda>(f, g, p, s). length s)") (auto dest: match_braced_shorter)

declare scan_tokens.simps [simp del]

definition letter :: "char \<Rightarrow> bool" where
  "letter c \<longleftrightarrow> (let n = (of_char c :: nat) in 97 \<le> n \<and> n \<le> 122 \<or> 65 \<le> n \<and> n \<le> 90)"

definition name_char :: "char \<Rightarrow> bool" where
  "name_char c \<longleftrightarrow> letter c \<or> (let n = (of_char c :: nat) in 48 \<le> n \<and> n \<le> 57 \<or> n = 95)"

definition placeholder_tokens :: "string \<Rightarrow> string list" where
  "placeholder_tokens = scan_tokens letter name_char False"

definition foreach_tokens :: "string \<Rightarrow> string list" where
  "foreach_tokens = scan_tokens ident_start ident_char True"

definition RESERVED_VARS :: "string list" where
  "RESERVED_VARS = [''$index'', ''$position'', ''$total'']"

section \<open>Unresolved placeholders\<close>

definition template_scope :: "(string \<times> json) list \<Rightarrow> string list \<Rightarrow> string list" where
  "template_scope fe scope =
     scope @ (case map_of fe ''as'' of Some (JStr a) \<Rightarrow> if a = [] then [] else [a] | _ \<Rightarrow> []) @ RESERVED_VARS"

text \<open>An array under the key \<^verbatim>\<open>foreach\<close> has no template and is walked like any other array.\<close>

fun collectPlaceholderUsages :: "json \<Rightarrow> string list \<Rightarrow> (string \<times> string list) list" where
  "collectPlaceholderUsages (JStr s) scope = map (\<lambda>tok. (tok, scope)) (placeholder_tokens s)"
| "collectPlaceholderUsages (JArr xs) scope = concat (map (\<lambda>v. collectPlaceholderUsages v scope) xs)"
| "collectPlaceholderUsages (JObj kvs) scope =
     concat (map
       (\<lambda>(k, v).
          case v of
            JObj fe \<Rightarrow>
              if k = ''foreach''
              then concat (map (\<lambda>(fk, fv). if fk = ''template'' then [] else collectPlaceholderUsages fv scope) fe)
                   @ concat (map (\<lambda>(fk, fv). if fk = ''template'' \<and> js_truthy fv
                                             then collectPlaceholderUsages fv (template_scope fe scope) else []) fe)
              else collectPlaceholderUsages v scope
          | _ \<Rightarrow> collectPlaceholderUsages v scope) kvs)"
| "collectPlaceholderUsages _ scope = []"

definition findUnresolvedPlaceholders :: "workflow_spec \<Rightarrow> string list" where
  "findUnresolvedPlaceholders spec =
     first_occurrences (map fst (filter (\<lambda>(tok, scope). tok \<notin> set scope) (collectPlaceholderUsages spec [])))"

section \<open>Template checks\<close>

definition error_when :: "bool \<Rightarrow> spec_error \<Rightarrow> spec_error list" where
  "error_when b e = (if b then [e] else [])"

text \<open>The errors of a check that runs over the tasks with their index.\<close>

definition per_task :: "(nat \<Rightarrow> task_spec \<Rightarrow> spec_error list) \<Rightarrow> workflow_spec \<Rightarrow> spec_error list" where
  "per_task f spec = concat (map (\<lambda>(i, t). f i t) (enumerate 0 (spec_tasks spec)))"

fun duplicate_keys :: "string list \<Rightarrow> string list \<Rightarrow> string list \<Rightarrow> string list" where
  "duplicate_keys keys dupes [] = dupes"
| "duplicate_keys keys dupes (k # ks) =
     duplicate_keys (k # keys) (if k \<in> set keys \<and> k \<notin> set dupes then dupes @ [k] else dupes) ks"

definition key_errors :: "workflow_spec \<Rightarrow> spec_error list" where
  "key_errors spec =
     error_when (spec_tasks spec = []) (plain_error ''EMPTY_SPEC'')
     @ map (\<lambda>k. plain_error ''DUPLICATE_TASK_KEY'') (duplicate_keys [] [] (spec_keys spec))"

text \<open>
  An adjacency map starts with an empty list for every key; the edges of the tasks are appended in
  the order of the tasks. Tasks that share a key share its list.
\<close>

definition adjacency_of :: "(task_spec \<Rightarrow> string list) \<Rightarrow> workflow_spec \<Rightarrow> string adjacency" where
  "adjacency_of edges spec =
     map (\<lambda>k. (k, concat (map edges (filter (\<lambda>t. task_key t = k) (spec_tasks spec))))) (first_occurrences (spec_keys spec))"

definition dependency_edges :: "workflow_spec \<Rightarrow> task_spec \<Rightarrow> string list" where
  "dependency_edges spec t = filter (\<lambda>d. d \<in> set (spec_keys spec)) (task_depKeys t)"

definition dep_path :: "nat \<Rightarrow> nat \<Rightarrow> string" where
  "dep_path i j = task_path i (''.dependsOn['' @ show_nat j @ '']'')"

definition dependency_errors :: "workflow_spec \<Rightarrow> spec_error list" where
  "dependency_errors spec =
     per_task (\<lambda>i t. concat (map
       (\<lambda>(j, d). error_when (d \<notin> set (spec_keys spec)) (error_at ''UNKNOWN_DEPENDENCY'' (dep_path i j @ ''.taskKey''))
                 @ error_when (d = task_key t) (error_at ''SELF_DEPENDENCY'' (dep_path i j @ ''.taskKey'')))
       (enumerate 0 (task_depKeys t)))) spec
     @ error_when (hasCycle (adjacency_of (dependency_edges spec) spec)) (plain_error ''DEPENDENCY_CYCLE'')"

text \<open>The anchor of a relative schedule.\<close>

definition task_anchor :: "task_spec \<Rightarrow> string option" where
  "task_anchor t =
     (case task_schedule t of Some (RelativeSchedule anchor _ _ _ _) \<Rightarrow> Some anchor | _ \<Rightarrow> None)"

definition anchor_edges :: "workflow_spec \<Rightarrow> task_spec \<Rightarrow> string list" where
  "anchor_edges spec t =
     (case task_anchor t of
        Some anchor \<Rightarrow>
          if anchor = TARGET_ANCHOR \<or> anchor \<notin> set (spec_keys spec) \<or> anchor = task_key t then [] else [anchor]
      | None \<Rightarrow> [])"

definition anchor_errors :: "workflow_spec \<Rightarrow> spec_error list" where
  "anchor_errors spec =
     per_task (\<lambda>i t.
       case task_anchor t of
         None \<Rightarrow> []
       | Some anchor \<Rightarrow>
           if anchor = TARGET_ANCHOR then []
           else if anchor \<notin> set (spec_keys spec) then [error_at ''UNKNOWN_ANCHOR'' (task_path i ''.schedule.anchor'')]
           else if anchor = task_key t then [error_at ''SELF_ANCHOR'' (task_path i ''.schedule.anchor'')]
           else []) spec
     @ error_when (hasCycle (adjacency_of (anchor_edges spec) spec)) (plain_error ''ANCHOR_CYCLE'')"

definition parent_edges :: "workflow_spec \<Rightarrow> task_spec \<Rightarrow> string list" where
  "parent_edges spec t =
     (case task_parent t of
        Some p \<Rightarrow> if p \<notin> set (spec_keys spec) \<or> p = task_key t then [] else [p]
      | None \<Rightarrow> [])"

definition parent_errors :: "workflow_spec \<Rightarrow> spec_error list" where
  "parent_errors spec =
     per_task (\<lambda>i t.
       case task_parent t of
         None \<Rightarrow> []
       | Some p \<Rightarrow>
           if p \<notin> set (spec_keys spec) then [error_at ''UNKNOWN_PARENT'' (task_path i ''.parent'')]
           else if p = task_key t then [error_at ''SELF_PARENT'' (task_path i ''.parent'')]
           else []) spec
     @ error_when (hasCycle (adjacency_of (parent_edges spec) spec)) (plain_error ''PARENT_CYCLE'')"

definition has_children :: "workflow_spec \<Rightarrow> string \<Rightarrow> bool" where
  "has_children spec k \<longleftrightarrow>
     list_ex (\<lambda>t. truthy (task_parent t) \<and> nullish (task_parent t) [] \<in> set (spec_keys spec) \<and> task_parent t = Some k)
       (spec_tasks spec)"

definition summary_errors :: "workflow_spec \<Rightarrow> spec_error list" where
  "summary_errors spec =
     per_task (\<lambda>i t.
       if \<not> has_children spec (task_key t) then []
       else error_when (task_schedule t \<noteq> None) (error_at ''PARENT_HAS_SCHEDULE'' (task_path i ''.schedule''))
            @ error_when (task_pinned t) (error_at ''PINNED_PARENT_INVALID'' (task_path i ''.pinned''))) spec"

definition parent_by_key :: "workflow_spec \<Rightarrow> string \<rightharpoonup> string" where
  "parent_by_key spec k = Option.bind (js_map (map (\<lambda>t. (task_key t, task_parent t)) (spec_tasks spec)) k) id"

fun ancestors_loop :: "(string \<rightharpoonup> string) \<Rightarrow> nat \<Rightarrow> string option \<Rightarrow> string list \<Rightarrow> string list" where
  "ancestors_loop parent 0 cur acc = acc"
| "ancestors_loop parent (Suc hops) cur acc =
     (case cur of
        None \<Rightarrow> acc
      | Some c \<Rightarrow> if c = [] \<or> c \<in> set acc then acc else ancestors_loop parent hops (parent c) (acc @ [c]))"

definition ancestorsOf :: "workflow_spec \<Rightarrow> string \<Rightarrow> string list" where
  "ancestorsOf spec key =
     ancestors_loop (parent_by_key spec) (li_maxTasks SPEC_LIMITS) (parent_by_key spec key) []"

definition hierarchy_errors :: "workflow_spec \<Rightarrow> spec_error list" where
  "hierarchy_errors spec =
     per_task (\<lambda>i t.
       case task_anchor t of
         None \<Rightarrow> []
       | Some anchor \<Rightarrow>
           error_when (anchor \<noteq> TARGET_ANCHOR \<and> anchor \<in> set (ancestorsOf spec (task_key t)))
             (error_at ''HIERARCHY_SCHEDULE_CYCLE'' (task_path i ''.schedule.anchor''))) spec"

section \<open>Foreach declarations\<close>

definition task_foreach :: "task_spec \<Rightarrow> json option" where
  "task_foreach t = (case get t ''foreach'' of Some f \<Rightarrow> if js_truthy f then Some f else None | None \<Rightarrow> None)"

definition order_by_key :: "workflow_spec \<Rightarrow> string \<rightharpoonup> nat" where
  "order_by_key spec = js_map (map (\<lambda>(i, t). (task_key t, i)) (enumerate 0 (spec_tasks spec)))"

definition source_errors :: "workflow_spec \<Rightarrow> nat \<Rightarrow> task_spec \<Rightarrow> json \<Rightarrow> spec_error list" where
  "source_errors spec i t fe =
     (let source = nullish (get_str fe ''source'') []; path = task_path i ''.foreach.source''
      in if source \<notin> set (spec_keys spec) then [error_at ''FOREACH_UNKNOWN_SOURCE'' path]
         else if source = task_key t then [error_at ''FOREACH_SOURCE_SELF'' path]
         else
           (case order_by_key spec source of
              Some idx \<Rightarrow> error_when (i \<le> idx) (error_at ''FOREACH_SOURCE_NOT_PRIOR'' path)
            | None \<Rightarrow> [error_at ''FOREACH_SOURCE_NOT_PRIOR'' path]))"

lemma get_smaller: "get j k = Some v \<Longrightarrow> size v < size j"
proof (cases j)
  case (JObj kvs)
  assume "get j k = Some v"
  with JObj have "(k, v) \<in> set kvs" by (auto simp: get_def dest: map_of_SomeD)
  then have "size_prod (\<lambda>_. 0) size (k, v) \<le> size_list (size_prod (\<lambda>_. 0) size) kvs"
    by (rule size_list_estimation') simp
  with JObj show ?thesis by simp
qed (auto simp: get_def)

text \<open>The template nested in the foreach declaration of a template.\<close>

definition nested_template :: "json \<Rightarrow> json option" where
  "nested_template node =
     (case Option.bind (get node ''foreach'') (\<lambda>f. get f ''template'') of
        Some v \<Rightarrow> if js_truthy v then Some v else None
      | None \<Rightarrow> None)"

lemma nested_template_smaller: "nested_template node = Some v \<Longrightarrow> size v < size node"
  by (auto simp: nested_template_def bind_eq_Some_conv split: option.splits if_splits dest!: get_smaller intro: less_trans)

function visitTemplateDeps :: "string \<Rightarrow> nat \<Rightarrow> json \<Rightarrow> string \<Rightarrow> spec_error list" where
  "visitTemplateDeps key i node p =
     map (\<lambda>d. error_at ''FOREACH_TEMPLATE_DEPENDS_ON_PARENT'' (task_path i (''.foreach.'' @ p @ ''.dependsOn'')))
       (filter (\<lambda>d. d = key) (task_depKeys node))
     @ (case nested_template node of
          None \<Rightarrow> []
        | Some v \<Rightarrow> visitTemplateDeps key i v (p @ ''.foreach.template''))"
  by pat_completeness auto
termination
  by (relation "measure (\<lambda>(key, i, node, p). size node)") (auto dest: nested_template_smaller)

function visitTemplate :: "nat \<Rightarrow> json \<Rightarrow> string \<Rightarrow> spec_error list" where
  "visitTemplate i node p =
     (case get node ''foreach'' of
        None \<Rightarrow> []
      | Some f \<Rightarrow>
          if \<not> is_container f then []
          else error_at ''FOREACH_NESTED_NOT_SUPPORTED'' (task_path i (''.foreach.'' @ p @ ''.foreach''))
               # (case nested_template node of
                    None \<Rightarrow> []
                  | Some v \<Rightarrow> visitTemplate i v (p @ ''.foreach.template'')))"
  by pat_completeness auto
termination
  by (relation "measure (\<lambda>(i, node, p). size node)") (auto dest: nested_template_smaller)

declare visitTemplateDeps.simps [simp del] visitTemplate.simps [simp del]

text \<open>
  \<open>spec.placeholders[v]\<close> is truthy for a declared placeholder, and for the names that every object
  inherits.
\<close>

definition OBJECT_PROTOTYPE :: "string list" where
  "OBJECT_PROTOTYPE =
     [''constructor'', ''hasOwnProperty'', ''isPrototypeOf'', ''propertyIsEnumerable'', ''toLocaleString'', ''toString'',
      ''valueOf'', ''__proto__'', ''__defineGetter__'', ''__defineSetter__'', ''__lookupGetter__'', ''__lookupSetter__'']"

definition declared_placeholder :: "workflow_spec \<Rightarrow> string \<Rightarrow> bool" where
  "declared_placeholder spec v \<longleftrightarrow>
     (case get spec ''placeholders'' of
        Some ps \<Rightarrow> (case get ps v of Some decl \<Rightarrow> js_truthy decl | None \<Rightarrow> v \<in> set OBJECT_PROTOTYPE)
      | None \<Rightarrow> False)"

definition var_allowed :: "workflow_spec \<Rightarrow> string \<Rightarrow> string \<Rightarrow> bool" where
  "var_allowed spec asName v \<longleftrightarrow> v = asName \<or> v \<in> set RESERVED_VARS \<or> declared_placeholder spec v"

text \<open>The paths at which a variable is not allowed; the caller makes an error of each.\<close>

fun scanForBadVars :: "(string \<Rightarrow> bool) \<Rightarrow> json \<Rightarrow> string \<Rightarrow> string list"
  and scan_array :: "(string \<Rightarrow> bool) \<Rightarrow> json list \<Rightarrow> nat \<Rightarrow> string \<Rightarrow> string list"
  and scan_entries :: "(string \<Rightarrow> bool) \<Rightarrow> (string \<times> json) list \<Rightarrow> string \<Rightarrow> string list" where
  "scanForBadVars allowed (JStr s) p = map (\<lambda>_. p) (filter (\<lambda>v. \<not> allowed v) (foreach_tokens s))"
| "scanForBadVars allowed (JArr xs) p = scan_array allowed xs 0 p"
| "scanForBadVars allowed (JObj kvs) p = scan_entries allowed kvs p"
| "scanForBadVars allowed _ p = []"
| "scan_array allowed [] idx p = []"
| "scan_array allowed (v # vs) idx p =
     scanForBadVars allowed v (p @ ''['' @ show_nat idx @ '']'') @ scan_array allowed vs (Suc idx) p"
| "scan_entries allowed [] p = []"
| "scan_entries allowed ((k, v) # kvs) p = scanForBadVars allowed v (p @ ''.'' @ k) @ scan_entries allowed kvs p"

definition foreach_task_errors :: "workflow_spec \<Rightarrow> nat \<Rightarrow> task_spec \<Rightarrow> spec_error list" where
  "foreach_task_errors spec i t =
     (case task_foreach t of
        None \<Rightarrow> []
      | Some fe \<Rightarrow>
          (let template = nullish (get fe ''template'') JNull; asName = nullish (get_str fe ''as'') []
           in source_errors spec i t fe
              @ visitTemplateDeps (task_key t) i template ''template''
              @ visitTemplate i template ''template''
              @ map (\<lambda>p. error_at ''FOREACH_INVALID_VARIABLE_BINDING'' (task_path i (''.foreach.'' @ p)))
                  (scanForBadVars (var_allowed spec asName) template ''template'')))"

definition foreach_errors :: "workflow_spec \<Rightarrow> spec_error list" where
  "foreach_errors spec = per_task (foreach_task_errors spec) spec"

section \<open>The template tier\<close>

definition duplicate_errors :: "workflow_spec \<Rightarrow> spec_error list" where
  "duplicate_errors spec =
     per_task (\<lambda>i t. concat (map
       (\<lambda>(j, d). error_when (d \<in> set (take j (task_depKeys t))) (error_at ''DUPLICATE_DEPENDENCY'' (dep_path i j)))
       (enumerate 0 (task_depKeys t)))) spec"

definition tz_check :: "validator \<Rightarrow> string option \<Rightarrow> string \<Rightarrow> spec_error list" where
  "tz_check V tz path =
     error_when (truthy tz \<and> \<not> isValidTimeZone V (nullish tz [])) (error_at ''INVALID_TIMEZONE'' path)"

definition timezone_errors :: "validator \<Rightarrow> workflow_spec \<Rightarrow> spec_error list" where
  "timezone_errors V spec =
     tz_check V (target_tz spec) ''target.tz''
     @ per_task (\<lambda>i t. tz_check V (Option.bind (task_schedule t) (\<lambda>s. sm_tz (sc_common s))) (task_path i ''.schedule.tz'')) spec"

definition template_errors :: "validator \<Rightarrow> workflow_spec \<Rightarrow> spec_error list" where
  "template_errors V spec =
     checkLimits spec @ key_errors spec @ dependency_errors spec @ anchor_errors spec @ parent_errors spec
     @ summary_errors spec @ hierarchy_errors spec @ foreach_errors spec @ duplicate_errors spec @ timezone_errors V spec"

definition validateTemplate :: "validator \<Rightarrow> json \<Rightarrow> validation_result" where
  "validateTemplate V input =
     (case va_safeParse V input of
        Inl issues \<Rightarrow>
          \<lparr>vr_ok = False, vr_tier = ''template'', vr_errors = zodErrorsToStructured issues, vr_spec = None\<rparr>
      | Inr spec \<Rightarrow>
          (let errors = template_errors V spec
           in \<lparr>vr_ok = (errors = []), vr_tier = ''template'', vr_errors = errors, vr_spec = Some spec\<rparr>))"

section \<open>The draft tier\<close>

definition target_errors :: "workflow_spec \<Rightarrow> spec_error list" where
  "target_errors spec =
     error_when (\<not> truthy (target_at spec) \<or> \<not> truthy (target_tz spec)) (error_at ''MISSING_TARGET_DATE'' ''target'')"

definition placeholder_errors :: "workflow_spec \<Rightarrow> spec_error list" where
  "placeholder_errors spec = map (\<lambda>name. plain_error ''UNRESOLVED_PLACEHOLDER'') (findUnresolvedPlaceholders spec)"

definition schedule_by_key :: "workflow_spec \<Rightarrow> string \<Rightarrow> schedule_spec option" where
  "schedule_by_key spec k = Option.bind (by_key spec k) task_schedule"

lemma schedule_by_key_Some: "schedule_by_key spec k = Some s \<Longrightarrow> k \<in> set (spec_keys spec)"
  unfolding schedule_by_key_def spec_keys_def by (auto simp: bind_eq_Some_conv dest!: by_key_Some)

function resolvable :: "workflow_spec \<Rightarrow> string \<Rightarrow> string list \<Rightarrow> bool" where
  "resolvable spec cursor seen =
     (if cursor = [] \<or> cursor \<in> set seen then False
      else
        (case schedule_by_key spec cursor of
           None \<Rightarrow> False
         | Some (AbsoluteSchedule _ _) \<Rightarrow> True
         | Some (RelativeSchedule anchor _ _ _ _) \<Rightarrow>
             if anchor = TARGET_ANCHOR then truthy (target_at spec)
             else resolvable spec anchor (cursor # seen)))"
  by pat_completeness auto
termination
proof (relation "measure (\<lambda>(spec, cursor, seen). card (set (spec_keys spec) - set seen))", goal_cases)
  case 1
  show ?case by simp
next
  case prems: (2 spec cursor seen)
  then have "cursor \<in> set (spec_keys spec) - set seen"
    using schedule_by_key_Some [of spec cursor] by simp
  then have "card (set (spec_keys spec) - set seen - {cursor}) < card (set (spec_keys spec) - set seen)"
    by (intro psubset_card_mono) auto
  moreover have "set (spec_keys spec) - set (cursor # seen) = set (spec_keys spec) - set seen - {cursor}" by auto
  ultimately show ?case by (simp only: in_measure case_prod_conv)
qed

declare resolvable.simps [simp del]

definition resolvability_errors :: "workflow_spec \<Rightarrow> spec_error list" where
  "resolvability_errors spec =
     per_task (\<lambda>i t. error_when (task_anchor t \<noteq> None \<and> \<not> resolvable spec (task_key t) [])
                       (error_at ''UNRESOLVABLE_SCHEDULE'' (task_path i ''.schedule''))) spec"

text \<open>\<^verbatim>\<open>Math.abs(...)/86_400_000\<close> is compared and rounded exactly; \<open>None\<close> is NaN, which exceeds nothing.\<close>

definition horizon_error :: "validator \<Rightarrow> instant option \<Rightarrow> nat \<Rightarrow> resolved_task \<Rightarrow> spec_error list" where
  "horizon_error V targetMs i r =
     (case (dateParse (va_calendar V) (rt_dueAtUtc r), targetMs) of
        (Some due, Some target) \<Rightarrow>
          error_when (li_maxScheduleHorizonDays SPEC_LIMITS * 86400000 < \<bar>due - target\<bar>)
            (limit_error ''SCHEDULE_HORIZON_EXCEEDED'' (Some (task_path i ''.schedule''))
               (li_maxScheduleHorizonDays SPEC_LIMITS) ((2 * \<bar>due - target\<bar> + 86400000) div (2 * 86400000)))
      | _ \<Rightarrow> [])"

definition horizon_errors :: "validator \<Rightarrow> workflow_spec \<Rightarrow> schedule_error + spec_error list" where
  "horizon_errors V spec =
     (let targetMs = parseInstantMs (va_calendar V) (nullish (target_at spec) []) (nullish (target_tz spec) [])
      in case resolveSchedule (va_calendar V) (va_now V) spec no_options of
           Inl e \<Rightarrow> Inl e
         | Inr res \<Rightarrow>
             Inr (per_task (\<lambda>i t. case rr_tasks res (task_key t) of None \<Rightarrow> [] | Some r \<Rightarrow> horizon_error V targetMs i r) spec))"

definition draft_static_errors :: "workflow_spec \<Rightarrow> spec_error list" where
  "draft_static_errors spec = target_errors spec @ placeholder_errors spec @ resolvability_errors spec"

definition draft_errors :: "validator \<Rightarrow> workflow_spec \<Rightarrow> schedule_error + spec_error list" where
  "draft_errors V spec =
     (let errors = draft_static_errors spec
      in if errors = [] \<and> truthy (target_at spec) \<and> truthy (target_tz spec)
         then (case horizon_errors V spec of Inl e \<Rightarrow> Inl e | Inr hs \<Rightarrow> Inr (errors @ hs))
         else Inr errors)"

text \<open>\<open>{ ...base, tier }\<close> when the lower tier failed, else its errors followed by the own ones.\<close>

definition next_tier ::
  "string \<Rightarrow> validation_result \<Rightarrow> (workflow_spec \<Rightarrow> schedule_error + spec_error list) \<Rightarrow> schedule_error + validation_result" where
  "next_tier tier base check =
     (case vr_spec base of
        Some spec \<Rightarrow>
          if \<not> vr_ok base then Inr (base\<lparr>vr_tier := tier\<rparr>)
          else
            (case check spec of
               Inl e \<Rightarrow> Inl e
             | Inr errors \<Rightarrow>
                 Inr \<lparr>vr_ok = (errors = []), vr_tier = tier, vr_errors = vr_errors base @ errors, vr_spec = Some spec\<rparr>)
      | None \<Rightarrow> Inr (base\<lparr>vr_tier := tier\<rparr>))"

definition validateDraft :: "validator \<Rightarrow> json \<Rightarrow> schedule_error + validation_result" where
  "validateDraft V input = next_tier ''draft'' (validateTemplate V input) (draft_errors V)"

section \<open>The start tier\<close>

definition start_errors :: "(json option \<Rightarrow> bool) option \<Rightarrow> workflow_spec \<Rightarrow> spec_error list" where
  "start_errors agentExists spec =
     error_when (list_ex (\<lambda>t. truthy (task_parent t) \<and> nullish (task_parent t) [] \<in> set (spec_keys spec)) (spec_tasks spec))
       (error_at ''HIERARCHY_NOT_RUNNABLE'' ''tasks'')
     @ (case agentExists of
          None \<Rightarrow> []
        | Some exists \<Rightarrow>
            per_task (\<lambda>i t. error_when (task_type t = ''agent_task'' \<and> \<not> exists (get t ''agentRef''))
                              (error_at ''AGENT_NOT_FOUND'' (task_path i ''.agentRef''))) spec)"

definition validateStart ::
  "validator \<Rightarrow> (json option \<Rightarrow> bool) option \<Rightarrow> json \<Rightarrow> schedule_error + validation_result" where
  "validateStart V agentExists input =
     (case validateDraft V input of
        Inl e \<Rightarrow> Inl e
      | Inr base \<Rightarrow> next_tier ''start'' base (\<lambda>spec. Inr (start_errors agentExists spec)))"

end
