(* ===== verification/Wf_Validation.thy ===== *)
theory Wf_Validation
  imports Wf_Validate
begin

text \<open>
  What the validation tiers of theory \<open>Wf_Validate\<close> accept, stated without the algorithms: the links
  between tasks are relations, the cycle checks are acyclicity, the walk up the hierarchy is a
  transitive closure. The draft tier is connected with the schedule resolver: what it accepts
  resolves, and satisfies the hypotheses of the resolver's theorems.
\<close>

section \<open>What the template tier accepts\<close>

text \<open>The links a specification declares between task keys.\<close>

definition links :: "(task_spec \<Rightarrow> string list) \<Rightarrow> workflow_spec \<Rightarrow> (string \<times> string) set" where
  "links f spec = {(k, v). \<exists>t \<in> set (spec_tasks spec). task_key t = k \<and> v \<in> set (f t)}"

definition anchor_list :: "task_spec \<Rightarrow> string list" where
  "anchor_list t = (case task_anchor t of Some a \<Rightarrow> if a = TARGET_ANCHOR then [] else [a] | None \<Rightarrow> [])"

definition parent_list :: "task_spec \<Rightarrow> string list" where
  "parent_list t = (case task_parent t of Some p \<Rightarrow> [p] | None \<Rightarrow> [])"

abbreviation dependency_links :: "workflow_spec \<Rightarrow> (string \<times> string) set" where
  "dependency_links \<equiv> links task_depKeys"

abbreviation anchor_links :: "workflow_spec \<Rightarrow> (string \<times> string) set" where
  "anchor_links \<equiv> links anchor_list"

abbreviation parent_links :: "workflow_spec \<Rightarrow> (string \<times> string) set" where
  "parent_links \<equiv> links parent_list"

text \<open>All links lead to tasks of the specification, and following them ends.\<close>

definition sound_links :: "(string \<times> string) set \<Rightarrow> workflow_spec \<Rightarrow> bool" where
  "sound_links L spec \<longleftrightarrow> Range L \<subseteq> set (spec_keys spec) \<and> acyclic L"

fun collectStrings :: "json \<Rightarrow> string list" where
  "collectStrings (JStr s) = [s]"
| "collectStrings (JArr xs) = concat (map collectStrings xs)"
| "collectStrings (JObj kvs) = concat (map (\<lambda>(k, v). collectStrings v) kvs)"
| "collectStrings _ = []"

text \<open>
  A foreach declaration is sound when its source is an earlier task, its template has no foreach
  declaration and does not depend on the task itself, and every variable in the template's
  strings is the item, a reserved variable or a placeholder.
\<close>

definition sound_foreach :: "workflow_spec \<Rightarrow> nat \<Rightarrow> bool" where
  "sound_foreach spec i \<longleftrightarrow>
     (let t = spec_tasks spec ! i
      in case task_foreach t of
           None \<Rightarrow> True
         | Some fe \<Rightarrow>
             (let template = nullish (get fe ''template'') JNull
              in (\<exists>j < i. task_key (spec_tasks spec ! j) = nullish (get_str fe ''source'') [])
                 \<and> \<not> (\<exists>f. get template ''foreach'' = Some f \<and> is_container f)
                 \<and> task_key t \<notin> set (task_depKeys template)
                 \<and> (\<forall>s \<in> set (collectStrings template). \<forall>v \<in> set (foreach_tokens s).
                      var_allowed spec (nullish (get_str fe ''as'') []) v)))"

definition sound_tz :: "validator \<Rightarrow> string option \<Rightarrow> bool" where
  "sound_tz V tz \<longleftrightarrow> (\<forall>z. tz = Some z \<longrightarrow> z = [] \<or> va_validTz V z)"

definition sound_template :: "validator \<Rightarrow> workflow_spec \<Rightarrow> bool" where
  "sound_template V spec \<longleftrightarrow>
     checkLimits spec = [] \<and> spec_tasks spec \<noteq> [] \<and> distinct (spec_keys spec)
     \<and> sound_links (dependency_links spec) spec \<and> sound_links (anchor_links spec) spec \<and> sound_links (parent_links spec) spec
     \<and> (\<forall>t \<in> set (spec_tasks spec).
          distinct (task_depKeys t)
          \<and> (task_key t \<in> Range (parent_links spec) \<longrightarrow> task_schedule t = None \<and> \<not> task_pinned t)
          \<and> sound_tz V (Option.bind (task_schedule t) (\<lambda>s. sm_tz (sc_common s))))
     \<and> anchor_links spec \<inter> (parent_links spec)\<^sup>+ = {}
     \<and> (\<forall>i < length (spec_tasks spec). sound_foreach spec i)
     \<and> sound_tz V (target_tz spec)"

section \<open>Error lists\<close>

lemma error_when_Nil [simp]: "error_when b e = [] \<longleftrightarrow> \<not> b"
  by (simp add: error_when_def)

lemma set_enumerate: "set (enumerate 0 xs) = (\<lambda>i. (i, xs ! i)) ` {..< length xs}"
  by (auto simp: in_set_enumerate_eq image_iff)

lemma enumerate_errors_Nil:
  "concat (map (\<lambda>(i, x). f i x) (enumerate 0 xs)) = [] \<longleftrightarrow> (\<forall>i < length xs. f i (xs ! i) = [])"
  by (auto simp: set_enumerate)

lemma per_task_Nil: "per_task f spec = [] \<longleftrightarrow> (\<forall>i < length (spec_tasks spec). f i (spec_tasks spec ! i) = [])"
  unfolding per_task_def by (rule enumerate_errors_Nil)

lemma per_task_const_Nil:
  assumes "\<And>i t. f i t = [] \<longleftrightarrow> P t"
  shows "per_task f spec = [] \<longleftrightarrow> (\<forall>t \<in> set (spec_tasks spec). P t)"
  unfolding per_task_Nil assms by (metis in_set_conv_nth)

lemma duplicate_keys_Nil: "duplicate_keys seen dupes ks = [] \<longleftrightarrow> dupes = [] \<and> distinct ks \<and> set ks \<inter> set seen = {}"
  by (induction ks arbitrary: seen dupes) (auto split: if_splits)

lemma key_errors_Nil: "key_errors spec = [] \<longleftrightarrow> spec_tasks spec \<noteq> [] \<and> distinct (spec_keys spec)"
  by (simp add: key_errors_def duplicate_keys_Nil)

lemma adj_rel_adjacency: "adj_rel (adjacency_of f spec) = links f spec"
proof -
  have "succs (adjacency_of f spec) k = concat (map f (filter (\<lambda>t. task_key t = k) (spec_tasks spec)))" for k
  proof (cases "k \<in> set (spec_keys spec)")
    case True
    then show ?thesis by (simp add: succs_def adjacency_of_def map_of_map_restrict)
  next
    case False
    then have "filter (\<lambda>t. task_key t = k) (spec_tasks spec) = []" by (auto simp: spec_keys_def filter_empty_conv)
    with False show ?thesis by (simp add: succs_def adjacency_of_def map_of_map_restrict)
  qed
  then show ?thesis by (auto simp: adj_rel_def links_def)
qed

lemma hasCycle_links: "hasCycle (adjacency_of f spec) \<longleftrightarrow> \<not> acyclic (links f spec)"
  by (simp add: hasCycle_correct adj_rel_adjacency acyclic_def)

lemma links_cong: "(\<And>t. t \<in> set (spec_tasks spec) \<Longrightarrow> set (f t) = set (g t)) \<Longrightarrow> links f spec = links g spec"
  by (auto simp: links_def)

lemma Range_links: "Range (links f spec) = (\<Union>t \<in> set (spec_tasks spec). set (f t))"
  by (auto simp: links_def)

lemma acyclic_irrefl: "acyclic R \<Longrightarrow> (x, x) \<notin> R"
  by (auto simp: acyclic_def)

lemma dependency_errors_Nil: "dependency_errors spec = [] \<longleftrightarrow> sound_links (dependency_links spec) spec"
proof -
  have t: "concat (map (\<lambda>(j, d). error_when (d \<notin> set (spec_keys spec)) (e1 i j)
                 @ error_when (d = task_key t) (e2 i j)) (enumerate 0 (task_depKeys t))) = []
      \<longleftrightarrow> (\<forall>d \<in> set (task_depKeys t). d \<in> set (spec_keys spec) \<and> d \<noteq> task_key t)" for i t and e1 e2 :: "nat \<Rightarrow> nat \<Rightarrow> spec_error"
    unfolding enumerate_errors_Nil by (simp add: all_set_conv_all_nth)
  have same: "links (dependency_edges spec) spec = dependency_links spec" if "Range (dependency_links spec) \<subseteq> set (spec_keys spec)"
    using that by (intro links_cong) (auto simp: dependency_edges_def Range_links)
  have "dependency_errors spec = [] \<longleftrightarrow>
      (\<forall>t \<in> set (spec_tasks spec). \<forall>d \<in> set (task_depKeys t). d \<in> set (spec_keys spec) \<and> d \<noteq> task_key t)
      \<and> acyclic (links (dependency_edges spec) spec)"
    unfolding dependency_errors_def append_is_Nil_conv error_when_Nil hasCycle_links not_not
    by (subst per_task_const_Nil [OF t]) simp
  also have "\<dots> \<longleftrightarrow> sound_links (dependency_links spec) spec"
  proof -
    let ?ok = "\<forall>t \<in> set (spec_tasks spec). \<forall>d \<in> set (task_depKeys t). d \<in> set (spec_keys spec) \<and> d \<noteq> task_key t"
    have "?ok \<Longrightarrow> Range (dependency_links spec) \<subseteq> set (spec_keys spec)" by (auto simp: Range_links)
    moreover have ?ok if "Range (dependency_links spec) \<subseteq> set (spec_keys spec)" "acyclic (dependency_links spec)"
    proof (intro ballI)
      fix t d assume t: "t \<in> set (spec_tasks spec)" "d \<in> set (task_depKeys t)"
      then have d: "(task_key t, d) \<in> dependency_links spec" by (auto simp: links_def)
      with that have "d \<noteq> task_key t" by (auto dest: acyclic_irrefl)
      with d that(1) show "d \<in> set (spec_keys spec) \<and> d \<noteq> task_key t" by auto
    qed
    ultimately show ?thesis unfolding sound_links_def using same by metis
  qed
  finally show ?thesis .
qed

text \<open>The checks on anchors and parents have the same shape: at most one link per task, a self link is its own error.\<close>

lemma single_link_errors:
  assumes "\<And>i t. e i t = [] \<longleftrightarrow> (\<forall>a \<in> set (f t). a \<in> set (spec_keys spec) \<and> a \<noteq> task_key t)"
    and "\<And>t. set (g t) = {a \<in> set (f t). a \<in> set (spec_keys spec) \<and> a \<noteq> task_key t}"
  shows "per_task e spec @ error_when (hasCycle (adjacency_of g spec)) c = [] \<longleftrightarrow> sound_links (links f spec) spec"
proof -
  let ?ok = "\<forall>t \<in> set (spec_tasks spec). \<forall>a \<in> set (f t). a \<in> set (spec_keys spec) \<and> a \<noteq> task_key t"
  have same: "links g spec = links f spec" if ?ok
    using that by (intro links_cong) (auto simp: assms(2))
  have "per_task e spec @ error_when (hasCycle (adjacency_of g spec)) c = [] \<longleftrightarrow> ?ok \<and> acyclic (links g spec)"
    using per_task_const_Nil [of e, OF assms(1)] by (simp add: hasCycle_links)
  also have "\<dots> \<longleftrightarrow> ?ok \<and> acyclic (links f spec)" using same by auto
  also have "\<dots> \<longleftrightarrow> sound_links (links f spec) spec"
    unfolding sound_links_def Range_links by (auto simp: links_def dest: acyclic_irrefl [of _ "task_key _"])
  finally show ?thesis .
qed

lemma anchor_errors_Nil: "anchor_errors spec = [] \<longleftrightarrow> sound_links (anchor_links spec) spec"
  unfolding anchor_errors_def
  by (rule single_link_errors) (auto simp: anchor_list_def anchor_edges_def split: option.splits)

lemma parent_errors_Nil: "parent_errors spec = [] \<longleftrightarrow> sound_links (parent_links spec) spec"
  unfolding parent_errors_def
  by (rule single_link_errors) (auto simp: parent_list_def parent_edges_def split: option.splits)

lemma summary_errors_Nil:
  assumes "[] \<notin> set (spec_keys spec)" and "Range (parent_links spec) \<subseteq> set (spec_keys spec)"
  shows "summary_errors spec = [] \<longleftrightarrow>
    (\<forall>t \<in> set (spec_tasks spec). task_key t \<in> Range (parent_links spec) \<longrightarrow> task_schedule t = None \<and> \<not> task_pinned t)"
proof -
  have known: "p \<in> set (spec_keys spec) \<and> p \<noteq> []" if "t \<in> set (spec_tasks spec)" "task_parent t = Some p" for t p
    using that assms(2) assms(1) by (force simp: Range_links parent_list_def)
  have "has_children spec k \<longleftrightarrow> k \<in> Range (parent_links spec)" for k
  proof -
    have "k \<in> Range (parent_links spec) \<longleftrightarrow> (\<exists>t \<in> set (spec_tasks spec). task_parent t = Some k)"
      by (auto simp: Range_links parent_list_def split: option.splits) (metis option.inject)
    then show ?thesis
      using known [of _ k] unfolding has_children_def list_ex_iff by (metis nullish_simps(2) truthy_simps(2))
  qed
  then show ?thesis unfolding summary_errors_def
    by (subst per_task_const_Nil [where P = "\<lambda>t. task_key t \<in> Range (parent_links spec) \<longrightarrow> task_schedule t = None \<and> \<not> task_pinned t"]) auto
qed

text \<open>The walk up the hierarchy finds all ancestors within the hops it may take.\<close>

lemma ancestors_loop_exact:
  assumes "acyclic {(k, a). p k = Some a}" and "finite K" and "\<And>k a. p k = Some a \<Longrightarrow> a \<in> K" and "[] \<notin> K"
  shows "(\<And>c. cur = Some c \<Longrightarrow> c \<in> K \<and> (\<forall>x \<in> set acc. (x, c) \<in> {(k, a). p k = Some a}\<^sup>+)) \<Longrightarrow>
    card (K - set acc) \<le> n \<Longrightarrow>
    set (ancestors_loop p n cur acc) = set acc \<union> {a. \<exists>c. cur = Some c \<and> (c, a) \<in> {(k, a). p k = Some a}\<^sup>*}"
proof (induction n arbitrary: cur acc)
  case 0
  then have "K \<subseteq> set acc" using assms(2) by simp
  with 0(1) assms(1) have "cur = None" by (cases cur) (auto simp: acyclic_def)
  then show ?case by simp
next
  case (Suc n)
  show ?case
  proof (cases cur)
    case None
    then show ?thesis by simp
  next
    case (Some c)
    let ?L = "{(k, a). p k = Some a}"
    have c: "c \<in> K" "c \<noteq> []" "c \<notin> set acc" using Suc.prems(1) [OF Some] assms(1,4) by (auto simp: acyclic_def)
    have "card (K - set (acc @ [c])) < card (K - set acc)"
      using c assms(2) by (intro psubset_card_mono) auto
    then have n: "card (K - set (acc @ [c])) \<le> n" using Suc.prems(2) by linarith
    have next_ok: "d \<in> K \<and> (\<forall>x \<in> set (acc @ [c]). (x, d) \<in> ?L\<^sup>+)" if d: "p c = Some d" for d
    proof -
      have "(c, d) \<in> ?L" using d by simp
      then show ?thesis using Suc.prems(1) [OF Some] assms(3) [OF d] by (auto intro: trancl_into_trancl)
    qed
    have "set (ancestors_loop p n (p c) (acc @ [c])) = set (acc @ [c]) \<union> {a. \<exists>d. p c = Some d \<and> (d, a) \<in> ?L\<^sup>*}"
      by (rule Suc.IH [OF next_ok n])
    moreover have "(c, a) \<in> ?L\<^sup>* \<longleftrightarrow> a = c \<or> (\<exists>d. p c = Some d \<and> (d, a) \<in> ?L\<^sup>*)" for a
      by (subst rtrancl_eq_or_trancl, subst trancl_unfold_left) auto
    ultimately show ?thesis using Some c by auto
  qed
qed

lemma parent_by_key_links:
  assumes "distinct (spec_keys spec)"
  shows "{(k, a). parent_by_key spec k = Some a} = parent_links spec"
proof -
  have "js_map (map (\<lambda>t. (task_key t, task_parent t)) (spec_tasks spec)) k = Some v
      \<longleftrightarrow> (\<exists>t \<in> set (spec_tasks spec). task_key t = k \<and> task_parent t = v)" for k v
  proof -
    have "distinct (map fst (rev (map (\<lambda>t. (task_key t, task_parent t)) (spec_tasks spec))))"
      using assms by (simp add: spec_keys_def rev_map [symmetric] o_def)
    then have "map_of (rev (map (\<lambda>t. (task_key t, task_parent t)) (spec_tasks spec))) k = Some v
        \<longleftrightarrow> (k, v) \<in> set (map (\<lambda>t. (task_key t, task_parent t)) (spec_tasks spec))"
      by (subst map_of_eq_Some_iff) auto
    then show ?thesis unfolding js_map_def by auto
  qed
  then show ?thesis
    by (auto simp: parent_by_key_def bind_eq_Some_conv links_def parent_list_def split: option.splits)
qed

lemma ancestorsOf_exact:
  assumes "distinct (spec_keys spec)" and "sound_links (parent_links spec) spec" and "[] \<notin> set (spec_keys spec)"
    and "length (spec_tasks spec) \<le> li_maxTasks SPEC_LIMITS"
  shows "set (ancestorsOf spec k) = {a. (k, a) \<in> (parent_links spec)\<^sup>+}"
proof -
  note L = parent_by_key_links [OF assms(1)]
  have known: "a \<in> set (spec_keys spec)" if "parent_by_key spec k = Some a" for k a
  proof -
    have "(k, a) \<in> parent_links spec" using that by (simp flip: L)
    with assms(2) show ?thesis by (auto simp: sound_links_def)
  qed
  have "card (set (spec_keys spec) - set []) \<le> li_maxTasks SPEC_LIMITS"
    using card_length [of "spec_keys spec"] assms(4) by (simp add: spec_keys_def)
  then have "set (ancestorsOf spec k) = {a. \<exists>c. parent_by_key spec k = Some c \<and> (c, a) \<in> (parent_links spec)\<^sup>*}"
    unfolding ancestorsOf_def
    using ancestors_loop_exact [of "parent_by_key spec" "set (spec_keys spec)" "parent_by_key spec k" "[]"] assms(2,3) known
    by (simp add: L sound_links_def)
  also have "\<dots> = {a. (k, a) \<in> (parent_links spec)\<^sup>+}"
    unfolding L [symmetric] by (auto simp: trancl_unfold_left)
  finally show ?thesis .
qed

lemma hierarchy_errors_Nil:
  assumes "distinct (spec_keys spec)" and "sound_links (parent_links spec) spec" and "[] \<notin> set (spec_keys spec)"
    and "length (spec_tasks spec) \<le> li_maxTasks SPEC_LIMITS"
  shows "hierarchy_errors spec = [] \<longleftrightarrow> anchor_links spec \<inter> (parent_links spec)\<^sup>+ = {}"
proof -
  have "hierarchy_errors spec = [] \<longleftrightarrow>
      (\<forall>t \<in> set (spec_tasks spec). \<forall>a \<in> set (anchor_list t). (task_key t, a) \<notin> (parent_links spec)\<^sup>+)"
    unfolding hierarchy_errors_def
    by (rule per_task_const_Nil) (auto simp: anchor_list_def ancestorsOf_exact [OF assms] split: option.splits)
  then show ?thesis by (auto simp: links_def)
qed

lemma checkLimits_tasks: "checkLimits spec = [] \<Longrightarrow> length (spec_tasks spec) \<le> li_maxTasks SPEC_LIMITS"
  by (simp add: checkLimits_def Let_def count_limit_def split: if_splits)

section \<open>Foreach declarations\<close>

lemma order_by_key_exact:
  assumes "distinct (spec_keys spec)"
  shows "order_by_key spec k = Some i \<longleftrightarrow> i < length (spec_tasks spec) \<and> task_key (spec_tasks spec ! i) = k"
proof -
  let ?es = "map (\<lambda>(i, t). (task_key t, i)) (enumerate 0 (spec_tasks spec))"
  have "map fst ?es = spec_keys spec"
    by (rule nth_equalityI) (simp_all add: spec_keys_def nth_enumerate_eq)
  then have "distinct (map fst (rev ?es))" using assms by (simp add: rev_map [symmetric])
  then have "map_of (rev ?es) k = Some i \<longleftrightarrow> (k, i) \<in> set ?es" by (subst map_of_eq_Some_iff) auto
  then show ?thesis unfolding order_by_key_def js_map_def by (auto simp: set_enumerate)
qed

lemma source_errors_Nil:
  assumes "distinct (spec_keys spec)" and "i < length (spec_tasks spec)"
  shows "source_errors spec i (spec_tasks spec ! i) fe = [] \<longleftrightarrow>
    (\<exists>j < i. task_key (spec_tasks spec ! j) = nullish (get_str fe ''source'') [])"
proof -
  let ?s = "nullish (get_str fe ''source'') []"
  have other: "task_key (spec_tasks spec ! j) \<noteq> task_key (spec_tasks spec ! i)" if "j < i" for j
    using assms that nth_eq_iff_index_eq [of "spec_keys spec" j i] by (simp add: spec_keys_def)
  show ?thesis
  proof (cases "order_by_key spec ?s")
    case None
    then have "task_key (spec_tasks spec ! j) \<noteq> ?s" if "j < length (spec_tasks spec)" for j
      using order_by_key_exact [OF assms(1), of ?s j] that by auto
    then show ?thesis using assms(2) None by (auto simp: source_errors_def Let_def spec_keys_def in_set_conv_nth)
  next
    case (Some idx)
    then have idx: "idx < length (spec_tasks spec)" "task_key (spec_tasks spec ! idx) = ?s"
      by (simp_all add: order_by_key_exact [OF assms(1)])
    have uniq: "j = idx" if "j < length (spec_tasks spec)" "task_key (spec_tasks spec ! j) = ?s" for j
      using order_by_key_exact [OF assms(1), of ?s j] that Some by simp
    have k: "?s \<in> set (spec_keys spec)" using idx by (metis imageI nth_mem set_map spec_keys_def)
    have "source_errors spec i (spec_tasks spec ! i) fe = [] \<longleftrightarrow> ?s \<noteq> task_key (spec_tasks spec ! i) \<and> idx < i"
      using Some k by (auto simp: source_errors_def Let_def)
    also have "\<dots> \<longleftrightarrow> (\<exists>j < i. task_key (spec_tasks spec ! j) = ?s)"
      using idx uniq other assms(2) by (metis less_trans)
    finally show ?thesis .
  qed
qed

lemma nested_template_foreach: "nested_template node = Some v \<Longrightarrow> \<exists>f. get node ''foreach'' = Some f \<and> is_container f"
  by (auto simp: nested_template_def bind_eq_Some_conv is_container_def get_def split: option.splits if_splits json.splits)

lemma visitTemplate_Nil: "visitTemplate i node p = [] \<longleftrightarrow> \<not> (\<exists>f. get node ''foreach'' = Some f \<and> is_container f)"
  by (subst visitTemplate.simps) (auto split: option.splits)

lemma visitTemplateDeps_Nil:
  "\<not> (\<exists>f. get node ''foreach'' = Some f \<and> is_container f) \<Longrightarrow>
     visitTemplateDeps key i node p = [] \<longleftrightarrow> key \<notin> set (task_depKeys node)"
  by (subst visitTemplateDeps.simps) (auto simp: filter_empty_conv split: option.splits dest: nested_template_foreach)

lemma scanForBadVars_Nil:
  "scanForBadVars allowed node p = [] \<longleftrightarrow> (\<forall>s \<in> set (collectStrings node). \<forall>v \<in> set (foreach_tokens s). allowed v)"
  "scan_array allowed vs idx p = [] \<longleftrightarrow> (\<forall>s \<in> set (concat (map collectStrings vs)). \<forall>v \<in> set (foreach_tokens s). allowed v)"
  "scan_entries allowed kvs p = [] \<longleftrightarrow>
     (\<forall>s \<in> set (concat (map (\<lambda>(k, v). collectStrings v) kvs)). \<forall>v \<in> set (foreach_tokens s). allowed v)"
  by (induction allowed node p and allowed vs idx p and allowed kvs p rule: scanForBadVars_scan_array_scan_entries.induct)
    (simp_all add: filter_empty_conv ball_Un del: append_assoc)

lemma foreach_errors_Nil:
  assumes "distinct (spec_keys spec)"
  shows "foreach_errors spec = [] \<longleftrightarrow> (\<forall>i < length (spec_tasks spec). sound_foreach spec i)"
  unfolding foreach_errors_def per_task_Nil
proof (intro all_cong)
  fix i assume i: "i < length (spec_tasks spec)"
  show "foreach_task_errors spec i (spec_tasks spec ! i) = [] \<longleftrightarrow> sound_foreach spec i"
    using source_errors_Nil [OF assms i]
    by (auto simp: foreach_task_errors_def sound_foreach_def Let_def visitTemplate_Nil visitTemplateDeps_Nil scanForBadVars_Nil
        split: option.splits)
qed

lemma duplicate_errors_Nil: "duplicate_errors spec = [] \<longleftrightarrow> (\<forall>t \<in> set (spec_tasks spec). distinct (task_depKeys t))"
  unfolding duplicate_errors_def
proof (rule per_task_const_Nil)
  fix i t
  have "(\<forall>j < length (task_depKeys t). task_depKeys t ! j \<notin> set (take j (task_depKeys t))) \<longleftrightarrow> distinct (task_depKeys t)"
    by (auto simp: distinct_conv_nth in_set_conv_nth) (metis less_linear less_trans)
  then show "concat (map (\<lambda>(j, d). error_when (d \<in> set (take j (task_depKeys t))) (error_at ''DUPLICATE_DEPENDENCY'' (dep_path i j)))
      (enumerate 0 (task_depKeys t))) = [] \<longleftrightarrow> distinct (task_depKeys t)"
    unfolding enumerate_errors_Nil by simp
qed

lemma timezone_errors_Nil:
  "timezone_errors V spec = [] \<longleftrightarrow> sound_tz V (target_tz spec)
     \<and> (\<forall>t \<in> set (spec_tasks spec). sound_tz V (Option.bind (task_schedule t) (\<lambda>s. sm_tz (sc_common s))))"
proof -
  have c: "tz_check V tz path = [] \<longleftrightarrow> sound_tz V tz" for tz path
    by (cases tz) (auto simp: tz_check_def sound_tz_def isValidTimeZone_def)
  show ?thesis unfolding timezone_errors_def append_is_Nil_conv c by (subst per_task_const_Nil [OF c]) simp
qed

section \<open>The template tier\<close>

lemma template_errors_Nil:
  assumes "[] \<notin> set (spec_keys spec)"
  shows "template_errors V spec = [] \<longleftrightarrow> sound_template V spec"
proof -
  have "template_errors V spec = [] \<longleftrightarrow>
      checkLimits spec = [] \<and> spec_tasks spec \<noteq> [] \<and> distinct (spec_keys spec)
      \<and> sound_links (dependency_links spec) spec \<and> sound_links (anchor_links spec) spec \<and> sound_links (parent_links spec) spec
      \<and> summary_errors spec = [] \<and> hierarchy_errors spec = [] \<and> foreach_errors spec = [] \<and> duplicate_errors spec = []
      \<and> timezone_errors V spec = []"
    by (auto simp: template_errors_def key_errors_Nil dependency_errors_Nil anchor_errors_Nil parent_errors_Nil)
  also have "\<dots> \<longleftrightarrow> sound_template V spec"
    unfolding sound_template_def
    using summary_errors_Nil [OF assms] hierarchy_errors_Nil [OF _ _ assms] checkLimits_tasks [of spec] foreach_errors_Nil [of spec]
    unfolding duplicate_errors_Nil timezone_errors_Nil sound_links_def by blast
  finally show ?thesis .
qed

section \<open>What the higher tiers accept\<close>

text \<open>A task whose chain of anchors ends at an absolute schedule or at the target.\<close>

inductive grounded :: "workflow_spec \<Rightarrow> string \<Rightarrow> bool" for spec where
  grounded_absolute: "schedule_by_key spec k = Some (AbsoluteSchedule at c) \<Longrightarrow> grounded spec k"
| grounded_anchor: "schedule_by_key spec k = Some (RelativeSchedule a offset direction localTime c) \<Longrightarrow>
     a = TARGET_ANCHOR \<or> grounded spec a \<Longrightarrow> grounded spec k"

lemma resolvable_grounded: "resolvable spec cursor seen \<Longrightarrow> grounded spec cursor"
proof (induction spec cursor seen rule: resolvable.induct)
  case (1 spec cursor seen)
  from "1.prems" have c: "cursor \<noteq> []" "cursor \<notin> set seen" by (subst (asm) resolvable.simps; auto split: if_splits)+
  show ?case
  proof (cases "schedule_by_key spec cursor")
    case None
    with "1.prems" c show ?thesis by (subst (asm) resolvable.simps) simp
  next
    case (Some s)
    show ?thesis
    proof (cases s)
      case (AbsoluteSchedule at cm)
      with Some show ?thesis by (auto intro: grounded_absolute)
    next
      case (RelativeSchedule a offset direction localTime cm)
      then have "a = TARGET_ANCHOR \<or> grounded spec a"
        using "1.prems" [unfolded resolvable.simps [of spec cursor seen]] "1.IH" c Some by (auto split: if_splits)
      with Some RelativeSchedule show ?thesis by (auto intro: grounded_anchor)
    qed
  qed
qed

definition sound_draft :: "validator \<Rightarrow> workflow_spec \<Rightarrow> bool" where
  "sound_draft V spec \<longleftrightarrow> sound_template V spec \<and> draft_static_errors spec = [] \<and> horizon_errors V spec = Inr []"

lemma validateTemplate_ok:
  assumes "\<And>spec. va_safeParse V input = Inr spec \<Longrightarrow> [] \<notin> set (spec_keys spec)"
  shows "vr_ok (validateTemplate V input) \<and> vr_spec (validateTemplate V input) = Some spec \<longleftrightarrow>
    va_safeParse V input = Inr spec \<and> sound_template V spec"
  using assms by (auto simp: validateTemplate_def Let_def template_errors_Nil split: sum.splits)

lemma next_tier_ok:
  "(\<exists>r. next_tier tier base check = Inr r \<and> vr_ok r \<and> vr_spec r = Some spec) \<longleftrightarrow>
     vr_ok base \<and> vr_spec base = Some spec \<and> check spec = Inr []"
  by (auto simp: next_tier_def split: option.splits sum.splits)

lemma next_tier_spec: "next_tier tier base check = Inr r \<Longrightarrow> vr_spec r = vr_spec base"
  by (auto simp: next_tier_def split: option.splits if_splits sum.splits)

lemma target_errors_Nil: "target_errors spec = [] \<longleftrightarrow> truthy (target_at spec) \<and> truthy (target_tz spec)"
  by (auto simp: target_errors_def)

lemma draft_errors_Nil: "draft_errors V spec = Inr [] \<longleftrightarrow> draft_static_errors spec = [] \<and> horizon_errors V spec = Inr []"
proof -
  have "truthy (target_at spec) \<and> truthy (target_tz spec)" if "draft_static_errors spec = []"
    using that by (simp add: draft_static_errors_def target_errors_Nil)
  then show ?thesis by (auto simp: draft_errors_def Let_def split: sum.splits)
qed

lemma validateDraft_ok:
  assumes "\<And>spec. va_safeParse V input = Inr spec \<Longrightarrow> [] \<notin> set (spec_keys spec)"
  shows "(\<exists>r. validateDraft V input = Inr r \<and> vr_ok r \<and> vr_spec r = Some spec) \<longleftrightarrow>
    va_safeParse V input = Inr spec \<and> sound_draft V spec"
  unfolding validateDraft_def next_tier_ok draft_errors_Nil sound_draft_def
  using validateTemplate_ok [of V input spec, OF assms] by blast

lemma ok_has_spec: "validateDraft V input = Inr r \<Longrightarrow> vr_ok r \<Longrightarrow> \<exists>spec. vr_spec r = Some spec"
  by (auto simp: validateDraft_def validateTemplate_def next_tier_def Let_def split: option.splits if_splits sum.splits)

section \<open>The resolver on accepted specifications\<close>

lemma by_key_task:
  assumes "distinct (spec_keys spec)" and "t \<in> set (spec_tasks spec)"
  shows "by_key spec (task_key t) = Some t"
proof -
  have "distinct (map fst (rev (map (\<lambda>t. (task_key t, t)) (spec_tasks spec))))"
    using assms(1) by (simp add: spec_keys_def rev_map [symmetric] o_def)
  then have "map_of (rev (map (\<lambda>t. (task_key t, t)) (spec_tasks spec))) (task_key t) = Some t"
    using assms(2) by (subst map_of_eq_Some_iff) auto
  then show ?thesis by (simp add: by_key_def js_map_def)
qed

lemma anchor_rel_links:
  "anchor_rel (make_resolver cal now spec opts) \<subseteq> (anchor_links spec)\<inverse>"
proof clarify
  fix a k assume "(a, k) \<in> anchor_rel (make_resolver cal now spec opts)"
  then have f: "follows_anchor (make_resolver cal now spec opts) k = Some a" by (simp add: anchor_rel_def)
  then obtain t where t: "by_key spec k = Some t" "task_anchor t = Some a" "a \<noteq> TARGET_ANCHOR"
    by (auto simp: follows_anchor_def schedule_at_def task_anchor_def bind_eq_Some_conv
        split: if_splits option.splits schedule_spec.splits)
  then have "a \<in> set (anchor_list t)" by (simp add: anchor_list_def)
  with by_key_Some [OF t(1)] show "(k, a) \<in> anchor_links spec" unfolding links_def by blast
qed

lemma child_rel_links: "child_rel spec \<subseteq> (parent_links spec)\<inverse>"
  by (auto simp: child_rel_def children_of_def links_def parent_list_def)

lemma acyclic_converse_subset: "acyclic R \<Longrightarrow> S \<subseteq> R\<inverse> \<Longrightarrow> acyclic S"
  by (metis acyclic_converse acyclic_subset)

lemma sound_template_acyclic:
  assumes "sound_template V spec"
  shows "acyclic (anchor_rel (make_resolver cal now spec opts))" and "acyclic (child_rel spec)" and "pins_on_leaves spec"
proof -
  show "acyclic (anchor_rel (make_resolver cal now spec opts))"
    using assms by (intro acyclic_converse_subset [OF _ anchor_rel_links]) (simp add: sound_template_def sound_links_def)
  show "acyclic (child_rel spec)"
    using assms by (intro acyclic_converse_subset [OF _ child_rel_links]) (simp add: sound_template_def sound_links_def)
  have "task_key t \<in> Range (parent_links spec)" if ch: "children_of spec (task_key t) \<noteq> []" for t
  proof -
    obtain c where "(task_key t, c) \<in> child_rel spec"
      using ch by (cases "children_of spec (task_key t)") (auto simp: child_rel_def)
    with child_rel_links show ?thesis by blast
  qed
  then show "pins_on_leaves spec"
    using assms by (auto simp: sound_template_def pins_on_leaves_def list_all_iff)
qed

section \<open>Properties\<close>

text \<open>
  C32. The template tier accepts exactly the specifications whose keys are unique, whose dependency,
  anchor and parent links lead to known tasks without cycles, whose summary parents have neither
  schedule nor pin and are no anchor of a descendant, whose foreach declarations have an earlier
  source and a template without foreach, without a dependency on the task itself and without foreign
  variables, and that keep the limits, repeat no dependency and name known time zones. (The key
  pattern of the schema excludes the empty key.)
\<close>

theorem template_ok_iff:
  assumes "\<And>spec. va_safeParse V input = Inr spec \<Longrightarrow> [] \<notin> set (spec_keys spec)"
  shows "vr_ok (validateTemplate V input) \<longleftrightarrow> (\<exists>spec. va_safeParse V input = Inr spec \<and> sound_template V spec)"
proof -
  have "vr_ok (validateTemplate V input) \<Longrightarrow> \<exists>spec. vr_spec (validateTemplate V input) = Some spec"
    by (auto simp: validateTemplate_def Let_def split: sum.splits)
  then show ?thesis using validateTemplate_ok [of V input, OF assms] by blast
qed

lemma horizon_errors_Nil:
  assumes "horizon_errors V spec = Inr []"
  obtains res where "resolveSchedule (va_calendar V) (va_now V) spec no_options = Inr res"
    and "\<forall>t r i. t \<in> set (spec_tasks spec) \<longrightarrow> rr_tasks res (task_key t) = Some r \<longrightarrow>
      horizon_error V (parseInstantMs (va_calendar V) (nullish (target_at spec) []) (nullish (target_tz spec) [])) i r = []"
proof -
  let ?tgt = "parseInstantMs (va_calendar V) (nullish (target_at spec) []) (nullish (target_tz spec) [])"
  obtain res where res: "resolveSchedule (va_calendar V) (va_now V) spec no_options = Inr res"
    and p: "per_task (\<lambda>i t. case rr_tasks res (task_key t) of None \<Rightarrow> [] | Some r \<Rightarrow> horizon_error V ?tgt i r) spec = []"
    using assms by (auto simp: horizon_errors_def Let_def split: sum.splits)
  have any: "horizon_error V ?tgt i r = [] \<longleftrightarrow> horizon_error V ?tgt 0 r = []" for i r
    by (simp add: horizon_error_def split: option.split)
  have "(case rr_tasks res (task_key t) of None \<Rightarrow> [] | Some r \<Rightarrow> horizon_error V ?tgt i r) = []
      \<longleftrightarrow> (\<forall>r. rr_tasks res (task_key t) = Some r \<longrightarrow> horizon_error V ?tgt 0 r = [])" for i t
    using any [of i] by (simp split: option.split)
  from per_task_const_Nil [where f = "\<lambda>i t. case rr_tasks res (task_key t) of None \<Rightarrow> [] | Some r \<Rightarrow> horizon_error V ?tgt i r", OF this] p
  have "\<forall>t \<in> set (spec_tasks spec). \<forall>r. rr_tasks res (task_key t) = Some r \<longrightarrow> horizon_error V ?tgt 0 r = []" by simp
  with any res show ?thesis by (intro that [of res]) blast+
qed

text \<open>What an accepted draft guarantees of one task, from its bar and the target instant.\<close>

definition draft_task_ok :: "resolver \<Rightarrow> (string \<rightharpoonup> bar) \<Rightarrow> (string \<rightharpoonup> bar) \<Rightarrow> (string \<rightharpoonup> resolved_task) \<Rightarrow> task_spec \<Rightarrow> bool" where
  "draft_task_ok R own final rows t \<longleftrightarrow>
     (let k = task_key t; spec = rv_spec R
      in own k = Some (own_bar R (due_of own) k)
         \<and> final k = (if children_of spec k \<noteq> [] \<and> bar_start (window_of spec final k) \<noteq> None
                      then Some (window_of spec final k) else own k)
         \<and> rows k = Option.bind (final k) bar_text \<and> rows k \<noteq> None
         \<and> (task_schedule t \<noteq> None \<longrightarrow> grounded spec k)
         \<and> (\<forall>due target. Option.bind (final k) bar_due = Some due \<and> rv_targetMs R = Some target
              \<and> 0 \<le> year_of due \<and> year_of due \<le> 9999 \<longrightarrow> \<bar>due - target\<bar> \<le> 730 * 86400000))"

lemma draft_grounded:
  assumes "sound_draft V spec" and t: "t \<in> set (spec_tasks spec)" and s: "task_schedule t \<noteq> None"
  shows "grounded spec (task_key t)"
proof -
  have dist: "distinct (spec_keys spec)" using assms(1) by (simp add: sound_draft_def sound_template_def)
  have sch: "schedule_by_key spec (task_key t) = task_schedule t" using by_key_task [OF dist t] by (simp add: schedule_by_key_def)
  have res: "\<forall>t \<in> set (spec_tasks spec). \<not> (task_anchor t \<noteq> None \<and> \<not> resolvable spec (task_key t) [])"
    using assms(1) per_task_const_Nil [where f = "\<lambda>i t. error_when (task_anchor t \<noteq> None \<and> \<not> resolvable spec (task_key t) [])
      (error_at ''UNRESOLVABLE_SCHEDULE'' (task_path i ''.schedule''))", OF error_when_Nil]
    by (simp add: sound_draft_def draft_static_errors_def resolvability_errors_def)
  show ?thesis
  proof (cases "task_schedule t")
    case (Some x)
    then show ?thesis
    proof (cases x)
      case (AbsoluteSchedule at c)
      with Some sch show ?thesis by (auto intro: grounded_absolute)
    next
      case (RelativeSchedule a offset direction localTime c)
      with Some have "task_anchor t \<noteq> None" by (simp add: task_anchor_def)
      with res t show ?thesis by (blast intro: resolvable_grounded)
    qed
  qed (use s in simp)
qed

lemma draft_target:
  assumes "sound_draft V spec"
  shows "rv_targetMs (make_resolver cal now spec no_options) = parseInstantMs cal (nullish (target_at spec) []) (nullish (target_tz spec) [])"
proof -
  have "truthy (target_at spec)" "truthy (target_tz spec)"
    using assms by (simp_all add: sound_draft_def draft_static_errors_def target_errors_Nil)
  then show ?thesis
    by (cases "target_at spec"; cases "target_tz spec") (simp_all add: make_resolver_def no_options_def Let_def)
qed

lemma draft_tasks_ok:
  assumes d: "sound_draft V spec" and R: "R = make_resolver (va_calendar V) (va_now V) spec no_options"
  obtains res where "resolveSchedule (va_calendar V) (va_now V) spec no_options = Inr res"
    and "list_all (draft_task_ok R (leaf_bars R) (resolved_bars R) (rr_tasks res)) (spec_tasks spec)"
proof -
  have s: "sound_template V spec" and h: "horizon_errors V spec = Inr []" using d by (simp_all add: sound_draft_def)
  obtain res where res: "resolveSchedule (va_calendar V) (va_now V) spec no_options = Inr res"
    and hz: "\<forall>t r i. t \<in> set (spec_tasks spec) \<longrightarrow> rr_tasks res (task_key t) = Some r \<longrightarrow>
      horizon_error V (parseInstantMs (va_calendar V) (nullish (target_at spec) []) (nullish (target_tz spec) [])) i r = []"
    by (rule horizon_errors_Nil [OF h])
  note acyc = sound_template_acyclic [OF s]
  have RS: "rv_spec R = spec" by (simp add: R)
  have "draft_task_ok R (leaf_bars R) (resolved_bars R) (rr_tasks res) t" if t: "t \<in> set (spec_tasks spec)" for t
  proof -
    define k where "k = task_key t"
    have k: "k \<in> set (spec_keys spec)" using t by (simp add: k_def spec_keys_def)
    have own: "leaf_bars R k = Some (own_bar R (due_of (leaf_bars R)) k)"
      using leaf_bars_ok [OF acyc(1), of "va_calendar V" "va_now V" no_options] k unfolding R by (force simp: memo_ok_def dom_def)
    have win: "windowed spec (leaf_bars R) (resolved_bars R) k"
      using parent_windows_spec [OF acyc(2) k] by (simp add: resolved_bars_def leaf_bars_def R)
    have row: "rr_tasks res k = Option.bind (resolved_bars R k) bar_text" "rr_tasks res k \<noteq> None"
      unfolding R using resolveSchedule_rows [OF res k] by blast+
    have "\<bar>due - target\<bar> \<le> 730 * 86400000"
      if due: "Option.bind (resolved_bars R k) bar_due = Some due" and tgt: "rv_targetMs R = Some target"
        and y: "0 \<le> year_of due" "year_of due \<le> 9999" for due target
    proof -
      obtain b r where b: "resolved_bars R k = Some b" "bar_text b = Some r" "bar_due b = Some due"
        using row due by (auto simp: bind_eq_Some_conv)
      then have "rt_dueAtUtc r = toISOString due" by (auto simp: bar_text_def split: option.splits)
      moreover have "dateParse (va_calendar V) (toISOString due) = Some due"
        using iso_parse_toISOString [of due] y by (simp add: year_of_def dateParse_def)
      moreover have "horizon_error V (Some target) 0 r = []"
        using hz t row(1) b tgt unfolding k_def R draft_target [OF d] by simp
      ultimately show ?thesis by (simp add: horizon_error_def SPEC_LIMITS_def)
    qed
    with own win row draft_grounded [OF d t] show ?thesis
      unfolding draft_task_ok_def Let_def RS k_def [symmetric] windowed_def by blast
  qed
  then have "list_all (draft_task_ok R (leaf_bars R) (resolved_bars R) (rr_tasks res)) (spec_tasks spec)"
    by (simp add: list_all_iff)
  with res show ?thesis by (rule that)
qed

text \<open>
  C33. A draft that validates resolves without error: every task's bar follows from its schedule and
  the due instant of its anchor, summary parents have the window of their children, every chain of
  anchors ends at an absolute date or at the target, and no task is due more than 730 days from the
  target. No assumption on cycles is needed: the template tier has excluded them.
\<close>

theorem draft_ok_resolves:
  assumes "\<And>spec. va_safeParse V input = Inr spec \<Longrightarrow> [] \<notin> set (spec_keys spec)"
    and "validateDraft V input = Inr r" and "vr_ok r"
  shows "\<exists>spec res own final. vr_spec r = Some spec
    \<and> resolveSchedule (va_calendar V) (va_now V) spec no_options = Inr res
    \<and> list_all (draft_task_ok (make_resolver (va_calendar V) (va_now V) spec no_options) own final (rr_tasks res)) (spec_tasks spec)"
proof -
  obtain spec where spec: "vr_spec r = Some spec" using ok_has_spec [OF assms(2,3)] by blast
  have d: "sound_draft V spec" using validateDraft_ok [of V input spec, OF assms(1)] assms(2,3) spec by blast
  define R where "R = make_resolver (va_calendar V) (va_now V) spec no_options"
  obtain res where "resolveSchedule (va_calendar V) (va_now V) spec no_options = Inr res"
    "list_all (draft_task_ok R (leaf_bars R) (resolved_bars R) (rr_tasks res)) (spec_tasks spec)"
    by (rule draft_tasks_ok [OF d R_def])
  with spec show ?thesis unfolding R_def by blast
qed

lemma set_parent_list: "set (parent_list t) = {p. task_parent t = Some p}"
  by (cases "task_parent t") (simp_all add: parent_list_def)

text \<open>
  The start tier is the draft tier with two more conditions: no task has a parent, and every agent task's
  agent exists (when the caller can tell). It ends without a result exactly when the draft tier does.
\<close>

theorem start_ok_iff:
  assumes "\<And>spec. va_safeParse V input = Inr spec \<Longrightarrow> [] \<notin> set (spec_keys spec)"
  shows "((\<exists>r. validateStart V agentExists input = Inr r \<and> vr_ok r \<and> vr_spec r = Some spec) \<longleftrightarrow>
      (\<exists>d. validateDraft V input = Inr d \<and> vr_ok d \<and> vr_spec d = Some spec) \<and> parent_links spec = {}
      \<and> list_all (\<lambda>t. task_type t = ''agent_task'' \<longrightarrow>
           (case agentExists of Some exists \<Rightarrow> exists (get t ''agentRef'') | None \<Rightarrow> True)) (spec_tasks spec))
    \<and> (isl (validateStart V agentExists input) \<longleftrightarrow> isl (validateDraft V input))"
proof
  have stage: "(\<exists>r. validateStart V agentExists input = Inr r \<and> vr_ok r \<and> vr_spec r = Some spec) \<longleftrightarrow>
      (\<exists>d. validateDraft V input = Inr d \<and> vr_ok d \<and> vr_spec d = Some spec) \<and> start_errors agentExists spec = []"
    unfolding validateStart_def
    by (cases "validateDraft V input") (simp_all add: next_tier_ok)
  have agents: "(case agentExists of None \<Rightarrow> [] | Some ex \<Rightarrow>
      per_task (\<lambda>i t. error_when (task_type t = ''agent_task'' \<and> \<not> ex (get t ''agentRef''))
                              (error_at ''AGENT_NOT_FOUND'' (task_path i ''.agentRef''))) spec) = [] \<longleftrightarrow>
      list_all (\<lambda>t. task_type t = ''agent_task'' \<longrightarrow>
           (case agentExists of Some exists \<Rightarrow> exists (get t ''agentRef'') | None \<Rightarrow> True)) (spec_tasks spec)"
  proof (cases agentExists)
    case (Some ex)
    then show ?thesis
      using per_task_const_Nil [where f = "\<lambda>i t. error_when (task_type t = ''agent_task'' \<and> \<not> ex (get t ''agentRef''))
        (error_at ''AGENT_NOT_FOUND'' (task_path i ''.agentRef''))", OF error_when_Nil, of spec]
      by (simp add: list_all_iff)
  qed (simp add: list_all_iff)
  have flat: "list_ex (\<lambda>t. truthy (task_parent t) \<and> nullish (task_parent t) [] \<in> set (spec_keys spec)) (spec_tasks spec)
      \<longleftrightarrow> parent_links spec \<noteq> {}"
    if d: "\<exists>d. validateDraft V input = Inr d \<and> vr_ok d \<and> vr_spec d = Some spec"
  proof -
    have p: "va_safeParse V input = Inr spec" "sound_template V spec"
      using validateDraft_ok [of V input spec, OF assms] d by (auto simp: sound_draft_def)
    have known: "p \<in> set (spec_keys spec)" if "t \<in> set (spec_tasks spec)" "task_parent t = Some p" for t p
    proof -
      have "(task_key t, p) \<in> parent_links spec" using that by (auto simp: links_def parent_list_def)
      then show ?thesis using p(2) by (auto simp: sound_template_def sound_links_def)
    qed
    have "parent_links spec \<noteq> {} \<longleftrightarrow> (\<exists>t \<in> set (spec_tasks spec). \<exists>p. task_parent t = Some p)"
      by (auto simp: links_def set_parent_list)
    then show ?thesis using known assms [OF p(1)] unfolding list_ex_iff by (metis nullish_simps(2) truthy_simps(1,2) not_None_eq)
  qed
  show "(\<exists>r. validateStart V agentExists input = Inr r \<and> vr_ok r \<and> vr_spec r = Some spec) \<longleftrightarrow>
      (\<exists>d. validateDraft V input = Inr d \<and> vr_ok d \<and> vr_spec d = Some spec) \<and> parent_links spec = {}
      \<and> list_all (\<lambda>t. task_type t = ''agent_task'' \<longrightarrow>
           (case agentExists of Some exists \<Rightarrow> exists (get t ''agentRef'') | None \<Rightarrow> True)) (spec_tasks spec)"
    unfolding stage start_errors_def append_is_Nil_conv error_when_Nil agents using flat by blast
  show "isl (validateStart V agentExists input) \<longleftrightarrow> isl (validateDraft V input)"
    by (auto simp: validateStart_def next_tier_def split: sum.splits option.splits)
qed

lemma demo_task_fields:
  "task_depKeys (demo_task k [(''schedule'', s)]) = []" "task_depKeys (demo_task k [(''schedule'', s), (''pinned'', JBool True)]) = []"
  "task_foreach (demo_task k [(''schedule'', s)]) = None" "task_foreach (demo_task k [(''schedule'', s), (''pinned'', JBool True)]) = None"
  "task_anchor (demo_task k [(''schedule'', demo_schedule a off)]) = Some a"
  "task_anchor (demo_task k [(''schedule'', demo_schedule a off), (''pinned'', JBool True)]) = Some a"
  "task_type (demo_task k fs) = ''manual''" "task_title (demo_task k fs) = k"
  "get (demo_task k [(''schedule'', s)]) ''input'' = None" "get (demo_task k [(''schedule'', s), (''pinned'', JBool True)]) ''input'' = None"
proof -
  show "task_anchor (demo_task k [(''schedule'', demo_schedule a off)]) = Some a"
    "task_anchor (demo_task k [(''schedule'', demo_schedule a off), (''pinned'', JBool True)]) = Some a"
    by (simp_all add: task_anchor_def)
qed (simp_all add: demo_task_def task_depKeys_def task_foreach_def get_list_def get_def task_type_def task_title_def get_str_def)

lemma json_string_plain:
  "list_all (\<lambda>c. 32 \<le> (of_char c :: nat) \<and> (of_char c :: nat) \<noteq> 34 \<and> (of_char c :: nat) \<noteq> 92) s \<Longrightarrow>
     length (json_string s) = length s + 2"
  by (induction s) (auto simp: json_string_def json_char_def Let_def)

lemma demo_limits: "checkLimits demo_spec = []"
proof -
  have "jsonDepth demo_spec 1 = 5" by (simp add: demo_spec_def demo_task_def demo_schedule_def is_container_def)
  moreover have "byteLength demo_spec \<le> 262144"
    by (simp add: demo_spec_def demo_task_def demo_schedule_def byteLength_def json_string_plain)
  ultimately show ?thesis
    by (simp add: checkLimits_def Let_def count_limit_def SPEC_LIMITS_def demo_tasks demo_task_fields title_limit_def input_limit_def
        schedule_limits_def duration_limit_def approx_seconds_def demo_durations no_duration_def)
qed

lemma demo_keys_checks: "key_errors demo_spec = []" "dependency_errors demo_spec = []" "duplicate_errors demo_spec = []"
  "foreach_errors demo_spec = []"
proof -
  show "key_errors demo_spec = []" by (simp add: key_errors_Nil demo_keys demo_tasks)
  have "dependency_links demo_spec = {}" by (auto simp: links_def demo_tasks demo_task_fields)
  then show "dependency_errors demo_spec = []" by (simp add: dependency_errors_Nil sound_links_def acyclic_def)
  show "duplicate_errors demo_spec = []" by (simp add: duplicate_errors_Nil demo_tasks demo_task_fields)
  show "foreach_errors demo_spec = []"
    by (simp add: foreach_errors_def per_task_def demo_tasks foreach_task_errors_def demo_task_fields)
qed

lemma demo_anchor_links: "anchor_links demo_spec = {(''check'', ''review'')}" "parent_links demo_spec = {}"
  by (auto simp: links_def demo_tasks demo_task_fields anchor_list_def parent_list_def TARGET_ANCHOR_def)

lemma demo_graph_checks: "anchor_errors demo_spec = []" "parent_errors demo_spec = []" "summary_errors demo_spec = []"
  "hierarchy_errors demo_spec = []"
proof -
  have "acyclic {(''check'', ''review'')}" by (rule acyclic_insert [THEN iffD2]) (simp add: acyclic_def)
  then show "anchor_errors demo_spec = []" by (simp add: anchor_errors_Nil sound_links_def demo_anchor_links demo_keys)
  show "parent_errors demo_spec = []" by (simp add: parent_errors_Nil sound_links_def demo_anchor_links acyclic_def)
  show "summary_errors demo_spec = []"
    by (simp add: summary_errors_def per_task_def demo_tasks has_children_def)
  have "parent_by_key demo_spec k = None" for k by (simp add: parent_by_key_def js_map_def demo_tasks)
  then have "ancestorsOf demo_spec k = []" for k
    unfolding ancestorsOf_def by (cases "li_maxTasks SPEC_LIMITS") simp_all
  then show "hierarchy_errors demo_spec = []" by (simp add: hierarchy_errors_def per_task_def demo_tasks demo_task_fields)
qed

lemma demo_timezones: "timezone_errors V demo_spec = []" if "va_validTz V ''UTC''"
  using that by (simp add: timezone_errors_Nil sound_tz_def demo_tasks demo_target)

lemma demo_static: "draft_static_errors demo_spec = []"
proof -
  have "target_errors demo_spec = []" by (simp add: target_errors_Nil demo_target)
  moreover have "findUnresolvedPlaceholders demo_spec = []"
    by code_simp
  moreover have "resolvability_errors demo_spec = []"
    by (simp add: resolvability_errors_def per_task_def demo_tasks demo_task_fields error_when_def resolvable.simps schedule_by_key_def
        demo_by_key TARGET_ANCHOR_def demo_target)
  ultimately show ?thesis by (simp add: draft_static_errors_def placeholder_errors_def)
qed

definition demo_validator :: validator where
  "demo_validator = \<lparr>va_safeParse = Inr, va_validTz = (\<lambda>tz. tz = ''UTC''), va_calendar = plain_calendar, va_now = 0\<rparr>"

lemma demo_template: "validateTemplate demo_validator demo_spec =
    \<lparr>vr_ok = True, vr_tier = ''template'', vr_errors = [], vr_spec = Some demo_spec\<rparr>"
proof -
  have "va_validTz demo_validator ''UTC''" by (simp add: demo_validator_def)
  then have "template_errors demo_validator demo_spec = []"
    by (simp add: template_errors_def demo_limits demo_keys_checks demo_graph_checks demo_timezones)
  then show ?thesis unfolding validateTemplate_def by (simp add: demo_validator_def)
qed

lemma demo_horizon: "horizon_errors demo_validator demo_spec = Inr []"
proof -
  obtain ws where r: "resolveSchedule plain_calendar 0 demo_spec no_options =
      Inr \<lparr>rr_tasks = [''draft'' \<mapsto> stamp 1767744000000, ''review'' \<mapsto> stamp 1767830400000, ''check'' \<mapsto> stamp 1767808800000], rr_warnings = ws\<rparr>"
    by (rule demo_rows [OF demo_leaf])
  have iso: "iso_parse (toISOString 1767744000000) = Some 1767744000000" "iso_parse (toISOString 1767830400000) = Some 1767830400000"
    "iso_parse (toISOString 1767808800000) = Some 1767808800000" by code_simp+
  have v: "va_calendar demo_validator = plain_calendar" "va_now demo_validator = 0" by (simp_all add: demo_validator_def)
  show ?thesis
    unfolding horizon_errors_def Let_def v r sum.case
    by (simp add: per_task_def demo_tasks horizon_error_def v dateParse_def stamp_def iso demo_target demo_instant error_when_def SPEC_LIMITS_def)
qed

lemma demo_draft: "validateDraft demo_validator demo_spec =
    Inr \<lparr>vr_ok = True, vr_tier = ''draft'', vr_errors = [], vr_spec = Some demo_spec\<rparr>"
proof -
  have "draft_errors demo_validator demo_spec = Inr []" by (simp add: draft_errors_Nil demo_static demo_horizon)
  then show ?thesis by (simp add: validateDraft_def next_tier_def demo_template)
qed

lemma demo_named: "va_safeParse demo_validator demo_spec = Inr spec \<Longrightarrow> [] \<notin> set (spec_keys spec)"
  by (auto simp: demo_validator_def demo_keys)

theorem template_ok_iff_witness: "sound_template demo_validator demo_spec"
proof -
  have "vr_ok (validateTemplate demo_validator demo_spec)" by (simp add: demo_template)
  moreover have "va_safeParse demo_validator demo_spec = Inr demo_spec" by (simp add: demo_validator_def)
  ultimately show ?thesis using template_ok_iff [of demo_validator demo_spec, OF demo_named] by auto
qed

theorem draft_ok_resolves_witness:
  "\<exists>res own final. resolveSchedule plain_calendar 0 demo_spec no_options = Inr res
     \<and> list_all (draft_task_ok (make_resolver plain_calendar 0 demo_spec no_options) own final (rr_tasks res)) (spec_tasks demo_spec)"
  using draft_ok_resolves [OF demo_named demo_draft] by (simp add: demo_validator_def)

theorem start_ok_iff_witness:
  "\<exists>r. validateStart demo_validator (Some (\<lambda>_. False)) demo_spec = Inr r \<and> vr_ok r \<and> vr_spec r = Some demo_spec"
proof -
  have "list_all (\<lambda>t. task_type t = ''agent_task'' \<longrightarrow> False) (spec_tasks demo_spec)"
    by (simp add: demo_tasks demo_task_fields)
  then show ?thesis
    using start_ok_iff [of demo_validator demo_spec "Some (\<lambda>_. False)" demo_spec, OF demo_named] demo_draft demo_anchor_links(2) by simp
qed

end
