(* ===== verification/Wf_StoreRows.thy ===== *)
theory Wf_StoreRows
  imports Wf_ForeachReconciler Wf_Schedule
begin

text \<open>
  The two directions between a specification and its rows, \<^verbatim>\<open>packages/workflows/src/store.ts\<close>: the
  columns of a task, the insertion of all rows of a specification, the creation of a workflow, and the
  reconstruction of a specification from the rows.

  A transaction is a function on the database with an error sum; on \<open>Inl\<close> it is rolled back and
  the database is as before. A select without an order returns the rows in the order of the table.
  \<^verbatim>\<open>new Date(text)\<close> is \<open>dateParse\<close>; an invalid date makes the driver throw (\<open>InvalidDate\<close>). The dates
  that the resolver has rendered are valid, so they are read without that case.
\<close>

datatype store_error =
    UnknownParentKey string
  | UnknownDependencyKey string
  | InvalidDate
  | ConstraintFailed tx_error
  | SpecApplyRejected string

text \<open>\<open>x ? new Date(x) : null\<close> as the value of a timestamp column.\<close>

definition date_column :: "calendar \<Rightarrow> string option \<Rightarrow> store_error + instant option" where
  "date_column cal txt =
     (case txt of
        None \<Rightarrow> Inr None
      | Some x \<Rightarrow>
          if x = [] then Inr None
          else (case dateParse cal x of None \<Rightarrow> Inl InvalidDate | Some d \<Rightarrow> Inr (Some d)))"

section \<open>The columns of a task\<close>

definition rollup_policy_of :: "json option \<Rightarrow> rollup_policy option" where
  "rollup_policy_of v =
     (if v = Some (JStr ''any_fails'') then Some AnyFails
      else if v = Some (JStr ''best_effort'') then Some BestEffort
      else if v = Some (JStr ''all_or_nothing'') then Some AllOrNothing else None)"

text \<open>The foreach declaration as the engine reads it from its column, and back.\<close>

definition foreach_config_of :: "json \<Rightarrow> foreach_config" where
  "foreach_config_of j =
     \<lparr>fe_source = nullish (get_str j ''source'') [], fe_as = nullish (get_str j ''as'') [],
      fe_itemKey = get_str j ''itemKey'',
      fe_template = (case get j ''template'' of Some (JObj kvs) \<Rightarrow> kvs | _ \<Rightarrow> []),
      fe_rollupPolicy = rollup_policy_of (get j ''rollupPolicy''), fe_maxFanout = int_column (get j ''maxFanout'')\<rparr>"

definition json_field :: "string \<Rightarrow> json option \<Rightarrow> (string \<times> json) list" where
  "json_field k v = (case v of None \<Rightarrow> [] | Some x \<Rightarrow> [(k, x)])"

definition foreach_config_json :: "foreach_config \<Rightarrow> json" where
  "foreach_config_json fe =
     JObj ([(''source'', JStr (fe_source fe)), (''as'', JStr (fe_as fe))]
           @ json_field ''itemKey'' (map_option JStr (fe_itemKey fe))
           @ [(''template'', JObj (fe_template fe))]
           @ json_field ''rollupPolicy'' (map_option (\<lambda>p. JStr (policy_text p)) (fe_rollupPolicy fe))
           @ json_field ''maxFanout'' (map_option JNum (fe_maxFanout fe)))"

definition spec_foreach :: "task_spec \<Rightarrow> foreach_config option" where
  "spec_foreach t =
     (case get t ''foreach'' of Some j \<Rightarrow> if js_truthy j then Some (foreach_config_of j) else None | None \<Rightarrow> None)"

definition anchor_column :: "task_spec \<Rightarrow> json option" where
  "anchor_column t =
     (case task_schedule t of
        Some (RelativeSchedule anchor _ _ _ c) \<Rightarrow>
          Some (JObj [(''anchor'', JStr anchor), (''point'', JStr (nullish (sm_anchorPoint c) ''due''))])
      | _ \<Rightarrow> None)"

definition date_of :: "calendar \<Rightarrow> (resolved_task \<Rightarrow> string) \<Rightarrow> resolved_task option \<Rightarrow> instant option" where
  "date_of cal f r = Option.bind r (\<lambda>x. dateParse cal (f x))"

text \<open>The column builder that the insertion and the in-place update share.\<close>

definition buildCols :: "calendar \<Rightarrow> (string \<rightharpoonup> resolved_task) \<Rightarrow> task_spec \<Rightarrow> task_row \<Rightarrow> task_row" where
  "buildCols cal resolved t row =
     (let r = resolved (task_key t); agent = agent_only (task_type t)
      in row\<lparr>t_key := task_key t, t_type := task_type t, t_title := task_title t,
             t_assigneeLevel := Option.bind (get t ''assignee'') (\<lambda>a. get_str a ''level''),
             t_assigneeId := Option.bind (get t ''assignee'') (\<lambda>a. get_str a ''id''),
             t_agentPackage := agent_only (task_type t) (Option.bind (get t ''agentRef'') (\<lambda>a. get_str a ''package'')),
             t_agentRef := agent (get t ''agentRef''),
             t_input := agent (non_null (get t ''input'')),
             t_schedule := non_null (get t ''schedule''),
             t_anchor := anchor_column t,
             t_plannedStartUtc := date_of cal rt_plannedStartUtc r,
             t_plannedEndUtc := date_of cal rt_plannedEndUtc r,
             t_dueAtUtc := date_of cal rt_dueAtUtc r,
             t_required := (case non_null (get t ''required'') of None \<Rightarrow> True | Some v \<Rightarrow> js_truthy v),
             t_failurePolicy := policy_of (get t ''failurePolicy''),
             t_missedWindowPolicy := get_str t ''missedWindowPolicy'',
             t_retryPolicy := non_null (get t ''retryPolicy''),
             t_maxAttempts := int_column (get t ''maxAttempts''),
             t_cancelPolicy := non_null (get t ''cancelPolicy''),
             t_pinned := task_pinned t,
             t_risk := get_str t ''risk'',
             t_foreachConfig := spec_foreach t\<rparr>)"

definition inserted_task :: "env \<Rightarrow> calendar \<Rightarrow> ident \<Rightarrow> (string \<rightharpoonup> resolved_task) \<Rightarrow> ident \<Rightarrow> task_spec \<Rightarrow> task_row" where
  "inserted_task E cal wid resolved tid t =
     buildCols cal resolved t
       ((new_task tid wid (task_key t) (task_type t))\<lparr>t_createdAt := e_wall E, t_updatedAt := e_wall E\<rparr>)"

section \<open>Inserting a specification\<close>

text \<open>\<open>for (const t of spec.tasks) taskIdByKey.set(t.key, id("wtask"))\<close>.\<close>

fun draw_ids :: "env \<Rightarrow> task_spec list \<Rightarrow> db \<Rightarrow> (string \<times> ident) list \<times> db" where
  "draw_ids E [] s = ([], s)"
| "draw_ids E (t # ts) s =
     (let (i, s1) = new_id E ''wtask'' s; (rest, s2) = draw_ids E ts s1
      in ((task_key t, i) # rest, s2))"

definition insert_task :: "task_row \<Rightarrow> db \<Rightarrow> store_error + db" where
  "insert_task row s =
     (if list_ex (\<lambda>r. t_workflowId r = t_workflowId row \<and> t_key r = t_key row) (db_tasks s)
      then Inl (ConstraintFailed (UniqueViolation ''workflow_task_workflow_id_key_uniq''))
      else Inr (s\<lparr>db_tasks := db_tasks s @ [row]\<rparr>))"

definition set_parent :: "(string \<rightharpoonup> ident) \<Rightarrow> ident option \<Rightarrow> task_spec \<Rightarrow> db \<Rightarrow> db" where
  "set_parent idByKey parent t s =
     s\<lparr>db_tasks := update_where (\<lambda>r. Some (t_id r) = idByKey (task_key t)) (\<lambda>r. r\<lparr>t_parentTaskId := parent\<rparr>) (db_tasks s)\<rparr>"

definition insert_parent :: "(string \<rightharpoonup> ident) \<Rightarrow> task_spec \<Rightarrow> db \<Rightarrow> store_error + db" where
  "insert_parent idByKey t s =
     (case task_parent t of
        None \<Rightarrow> Inr s
      | Some p \<Rightarrow>
          (case idByKey p of
             None \<Rightarrow> Inl (UnknownParentKey p)
           | Some pid \<Rightarrow> if pid = [] then Inl (UnknownParentKey p) else Inr (set_parent idByKey (Some pid) t s)))"

text \<open>The dependencies of a task as pairs of key and outcome.\<close>

definition task_deps :: "task_spec \<Rightarrow> (string \<times> dependency_outcome) list" where
  "task_deps t = map (\<lambda>d. (nullish (get_str d ''taskKey'') [], outcome_of (get d ''outcome''))) (get_list t ''dependsOn'')"

definition insert_spec_dep ::
  "env \<Rightarrow> ident \<Rightarrow> (string \<rightharpoonup> ident) \<Rightarrow> task_spec \<Rightarrow> string \<times> dependency_outcome \<Rightarrow> db \<Rightarrow> store_error + db" where
  "insert_spec_dep E wid idByKey t dep s =
     (case idByKey (fst dep) of
        None \<Rightarrow> Inl (UnknownDependencyKey (fst dep))
      | Some onId \<Rightarrow>
          if onId = [] then Inl (UnknownDependencyKey (fst dep))
          else
            (let (i, s1) = new_id E ''wdep'' s; tid = nullish (idByKey (task_key t)) []
             in if list_ex (\<lambda>d. d_taskId d = tid \<and> d_dependsOnTaskId d = onId) (db_deps s1)
                then Inl (ConstraintFailed (UniqueViolation ''workflow_dependency_edge_uniq''))
                else Inr (s1\<lparr>db_deps := db_deps s1 @
                       [\<lparr>d_id = i, d_workflowId = wid, d_taskId = tid, d_dependsOnTaskId = onId, d_outcome = snd dep\<rparr>]\<rparr>)))"

definition solicitation_column :: "task_spec \<Rightarrow> (string \<times> json) list option" where
  "solicitation_column t = (case get t ''solicitation'' of Some (JObj kvs) \<Rightarrow> Some kvs | _ \<Rightarrow> None)"

definition insert_spec_approval :: "env \<Rightarrow> calendar \<Rightarrow> ident \<Rightarrow> (string \<rightharpoonup> ident) \<Rightarrow> task_spec \<Rightarrow> db \<Rightarrow> store_error + db" where
  "insert_spec_approval E cal wid idByKey t s =
     (if task_type t \<noteq> ''approval'' then Inr s
      else
        (let (i, s1) = new_id E ''wapr'' s
         in case date_column cal (get_str t ''deadlineIso8601'') of
              Inl e \<Rightarrow> Inl e
            | Inr deadline \<Rightarrow>
                Inr (s1\<lparr>db_approvals := db_approvals s1 @
                  [(new_approval i wid (nullish (idByKey (task_key t)) []) (nullish (get t ''requiredScope'') JNull))
                     \<lparr>ap_solicitationSchedule := solicitation_column t, ap_deadlineUtc := deadline,
                      ap_rejectionPolicy := get_str t ''rejectionPolicy'',
                      ap_createdAt := e_wall E, ap_updatedAt := e_wall E\<rparr>]\<rparr>)))"

definition insert_links ::
  "env \<Rightarrow> calendar \<Rightarrow> ident \<Rightarrow> (string \<rightharpoonup> ident) \<Rightarrow> task_spec \<Rightarrow> db \<Rightarrow> store_error + db" where
  "insert_links E cal wid idByKey t s =
     (case run_all (insert_spec_dep E wid idByKey t) (task_deps t) s of
        Inl e \<Rightarrow> Inl e
      | Inr s1 \<Rightarrow> insert_spec_approval E cal wid idByKey t s1)"

definition insertSpecRows ::
  "env \<Rightarrow> calendar \<Rightarrow> ident \<Rightarrow> workflow_spec \<Rightarrow> (string \<rightharpoonup> frozen) \<Rightarrow> db \<Rightarrow> store_error + db" where
  "insertSpecRows E cal wid spec frozenDueAt s =
     (case resolveSchedule cal (e_wall E) spec \<lparr>ro_targetAtUtc = None, ro_frozenDueAt = frozenDueAt\<rparr> of
        Inl e \<Rightarrow> Inl InvalidDate
      | Inr res \<Rightarrow>
          (let (ids, s1) = draw_ids E (spec_tasks spec) s; idByKey = js_map ids
           in case run_all (\<lambda>t. insert_task (inserted_task E cal wid (rr_tasks res) (nullish (idByKey (task_key t)) []) t))
                     (spec_tasks spec) s1 of
                Inl e \<Rightarrow> Inl e
              | Inr s2 \<Rightarrow>
                  (case run_all (insert_parent idByKey) (spec_tasks spec) s2 of
                     Inl e \<Rightarrow> Inl e
                   | Inr s3 \<Rightarrow> run_all (insert_links E cal wid idByKey) (spec_tasks spec) s3)))"

section \<open>Creating a workflow\<close>

record create_input =
  ci_spec :: workflow_spec
  ci_name :: string
  ci_product :: "string option"
  ci_status :: "workflow_status option"
  ci_sourceTemplateId :: "ident option"
  ci_sourceTemplateVersion :: "int option"
  ci_createdBy :: "ident option"
  ci_ownerLevel :: "string option"
  ci_ownerId :: "ident option"
  ci_orgId :: ident
  ci_projectId :: "ident option"

definition created_workflow :: "env \<Rightarrow> create_input \<Rightarrow> ident \<Rightarrow> instant option \<Rightarrow> workflow_row" where
  "created_workflow E input wid targetAt =
     (new_workflow wid (ci_orgId input))
       \<lparr>w_sourceTemplateId := ci_sourceTemplateId input, w_sourceTemplateVersion := ci_sourceTemplateVersion input,
        w_name := ci_name input, w_product := ci_product input, w_targetAtUtc := targetAt,
        w_targetTz := target_tz (ci_spec input), w_status := nullish (ci_status input) WDraft,
        w_ownerLevel := ci_ownerLevel input, w_ownerId := ci_ownerId input, w_projectId := ci_projectId input,
        w_createdBy := ci_createdBy input, w_createdAt := e_wall E, w_updatedAt := e_wall E\<rparr>"

definition createWorkflowFromSpec ::
  "env \<Rightarrow> calendar \<Rightarrow> create_input \<Rightarrow> db \<Rightarrow> store_error + ident \<times> db" where
  "createWorkflowFromSpec E cal input s =
     (let (wid, s0) = new_id E ''wf'' s
      in case date_column cal (target_at (ci_spec input)) of
           Inl e \<Rightarrow> Inl e
         | Inr targetAt \<Rightarrow>
             (case insertSpecRows E cal wid (ci_spec input) Map.empty
                     (s0\<lparr>db_workflows := db_workflows s0 @ [created_workflow E input wid targetAt]\<rparr>) of
                Inl e \<Rightarrow> Inl e
              | Inr s1 \<Rightarrow> Inr (wid, s1)))"

section \<open>Reading a workflow\<close>

record workflow_detail =
  wd_workflow :: workflow_row
  wd_tasks :: "task_row list"
  wd_dependencies :: "dependency_row list"
  wd_approvals :: "approval_row list"

definition readWorkflow :: "db \<Rightarrow> ident \<Rightarrow> workflow_detail option" where
  "readWorkflow s wid =
     map_option (\<lambda>w. \<lparr>wd_workflow = w, wd_tasks = tasks_of s wid, wd_dependencies = deps_of s wid,
                      wd_approvals = approvals_of s wid\<rparr>) (find_workflow s wid)"

text \<open>\<open>...(v ? { k: v } : {})\<close>.\<close>

definition truthy_field :: "string \<Rightarrow> json option \<Rightarrow> (string \<times> json) list" where
  "truthy_field k v = (case v of Some x \<Rightarrow> if js_truthy x then [(k, x)] else [] | None \<Rightarrow> [])"

fun failure_policy_text :: "failure_policy \<Rightarrow> string" where
  "failure_policy_text FpBlock = ''block''"
| "failure_policy_text FpSkip = ''skip''"

definition dependency_json :: "(ident \<rightharpoonup> string) \<Rightarrow> dependency_row \<Rightarrow> json" where
  "dependency_json keyById d =
     JObj [(''taskKey'', JStr (nullish (keyById (d_dependsOnTaskId d)) (d_dependsOnTaskId d))),
           (''outcome'', JStr (outcome_text (d_outcome d)))]"

definition type_fields :: "approval_row option \<Rightarrow> task_row \<Rightarrow> (string \<times> json) list" where
  "type_fields ap t =
     (if t_type t = ''agent_task'' then truthy_field ''agentRef'' (t_agentRef t) @ truthy_field ''input'' (t_input t)
      else if t_type t = ''approval'' then
        [(''requiredScope'', nullish (map_option ap_requiredScope ap) (JObj [(''level'', JStr ''organization'')]))]
        @ truthy_field ''rejectionPolicy'' (map_option JStr (Option.bind ap ap_rejectionPolicy))
        @ json_field ''deadlineIso8601'' (map_option (\<lambda>d. JStr (toISOString d)) (Option.bind ap ap_deadlineUtc))
        @ json_field ''solicitation'' (map_option JObj (Option.bind ap ap_solicitationSchedule))
      else [])"

definition reconstruct_task ::
  "(ident \<rightharpoonup> string) \<Rightarrow> dependency_row list \<Rightarrow> (ident \<rightharpoonup> approval_row) \<Rightarrow> task_row \<Rightarrow> task_spec" where
  "reconstruct_task keyById deps approvalByTaskId t =
     (let mine = filter (\<lambda>d. d_taskId d = t_id t) deps
      in JObj
        ([(''key'', JStr (t_key t)), (''type'', JStr (t_type t)), (''title'', JStr (t_title t))]
         @ (if truthy (t_parentTaskId t)
            then truthy_field ''parent'' (map_option JStr (Option.bind (t_parentTaskId t) keyById)) else [])
         @ truthy_field ''schedule'' (t_schedule t)
         @ (if mine = [] then [] else [(''dependsOn'', JArr (map (dependency_json keyById) mine))])
         @ (if truthy (t_assigneeLevel t) \<and> truthy (t_assigneeId t)
            then [(''assignee'', JObj [(''level'', JStr (nullish (t_assigneeLevel t) [])), (''id'', JStr (nullish (t_assigneeId t) []))])]
            else [])
         @ (if t_required t then [] else [(''required'', JBool False)])
         @ (if t_pinned t then [(''pinned'', JBool True)] else [])
         @ truthy_field ''risk'' (map_option JStr (t_risk t))
         @ json_field ''failurePolicy'' (map_option (\<lambda>p. JStr (failure_policy_text p)) (t_failurePolicy t))
         @ truthy_field ''missedWindowPolicy'' (map_option JStr (t_missedWindowPolicy t))
         @ truthy_field ''retryPolicy'' (t_retryPolicy t)
         @ json_field ''maxAttempts'' (map_option JNum (t_maxAttempts t))
         @ truthy_field ''cancelPolicy'' (t_cancelPolicy t)
         @ json_field ''foreach'' (map_option foreach_config_json (t_foreachConfig t))
         @ type_fields (approvalByTaskId (t_id t)) t))"

definition reconstructSpec :: "db \<Rightarrow> ident \<Rightarrow> workflow_spec option" where
  "reconstructSpec s wid =
     (case readWorkflow s wid of
        None \<Rightarrow> None
      | Some d \<Rightarrow>
          (let wf = wd_workflow d;
               approvalByTaskId = js_map (map (\<lambda>a. (ap_taskId a, a)) (wd_approvals d));
               keyById = js_map (map (\<lambda>t. (t_id t, t_key t)) (wd_tasks d))
           in Some (JObj
             ([(''name'', JStr (w_name wf))]
              @ json_field ''product'' (map_option JStr (w_product wf))
              @ (case (w_targetAtUtc wf, w_targetTz wf) of
                   (Some at, Some tz) \<Rightarrow>
                     if tz = [] then []
                     else [(''target'', JObj [(''at'', JStr (toISOString at)), (''tz'', JStr tz)])]
                 | _ \<Rightarrow> [])
              @ [(''tasks'', JArr (map (reconstruct_task keyById (wd_dependencies d) approvalByTaskId) (wd_tasks d)))]))))"

end
