(* ===== verification/Wf_StoreUpdate.thy ===== *)
theory Wf_StoreUpdate
  imports Wf_StoreRows Wf_Passes
begin

text \<open>
  Replacing the specification of a draft or paused workflow, \<^verbatim>\<open>packages/workflows/src/store.ts\<close>: the
  canonical text of a value, the execution identity that is frozen once a task has run, the
  in-place application of a specification to a paused workflow, and \<^verbatim>\<open>updateWorkflowDraftSpec\<close> with its
  read before the transaction and its compare-and-set inside.

  Keys of tasks are looked up as own keys of the frozen map; the inherited names of a JavaScript
  object (a task keyed \<^verbatim>\<open>constructor\<close>) are outside the model. Foreign keys and unique indexes are checked
  by the statements they constrain.
\<close>

section \<open>The frozen identity\<close>

fun canonicalize :: "json \<Rightarrow> string" where
  "canonicalize (JArr xs) = ''['' @ js_join '','' (map canonicalize xs) @ '']''"
| "canonicalize (JObj kvs) =
     ''{'' @ js_join '',''
       (map (\<lambda>(k, c). json_string k @ '':'' @ c) (sort_key fst (map (\<lambda>(k, v). (k, canonicalize v)) kvs))) @ ''}''"
| "canonicalize v = json_text v"

text \<open>The values of the columns \<^verbatim>\<open>FROZEN_TASK_IDENTITY_KEYS\<close>, with \<open>null\<close> for an absent one.\<close>

definition FROZEN_TASK_IDENTITY :: "task_row \<Rightarrow> json list" where
  "FROZEN_TASK_IDENTITY t =
     [JStr (t_type t), json_of_string (t_agentPackage t), nullish (t_agentRef t) JNull, nullish (t_input t) JNull,
      JBool (t_required t), json_of_string (map_option failure_policy_text (t_failurePolicy t)),
      json_of_string (t_missedWindowPolicy t), nullish (t_retryPolicy t) JNull,
      nullish (map_option JNum (t_maxAttempts t)) JNull, nullish (t_cancelPolicy t) JNull,
      nullish (t_schedule t) JNull, nullish (t_anchor t) JNull]"

definition hasEvidence :: "db \<Rightarrow> ident \<Rightarrow> ident \<Rightarrow> bool" where
  "hasEvidence s wid tid \<longleftrightarrow>
     list_ex (\<lambda>a. a_workflowId a = wid \<and> a_taskId a = tid) (db_attempts s)
     \<or> list_ex (\<lambda>a. ar_workflowId a = wid \<and> ar_taskId a = tid) (db_artifacts s)"

definition approvalIsEvidence :: "approval_row \<Rightarrow> bool" where
  "approvalIsEvidence ap \<longleftrightarrow>
     ap_status ap \<noteq> ApPending \<or> ap_decidedAt ap \<noteq> None \<or> ap_invalidatedAt ap \<noteq> None \<or> solicited ap"

definition isFrozen :: "db \<Rightarrow> ident \<Rightarrow> task_row \<Rightarrow> approval_row option \<Rightarrow> bool" where
  "isFrozen s wid existing prevAp \<longleftrightarrow>
     hasEvidence s wid (t_id existing)
     \<or> t_status existing \<noteq> TIdle \<and> t_status existing \<noteq> TScheduled
     \<or> (case prevAp of Some ap \<Rightarrow> approvalIsEvidence ap | None \<Rightarrow> False)"

text \<open>The maps over the rows as they are before the edit.\<close>

definition old_by_key :: "db \<Rightarrow> ident \<Rightarrow> string \<rightharpoonup> task_row" where
  "old_by_key s wid = js_map (map (\<lambda>t. (t_key t, t)) (tasks_of s wid))"

definition old_by_id :: "db \<Rightarrow> ident \<Rightarrow> ident \<rightharpoonup> task_row" where
  "old_by_id s wid = js_map (map (\<lambda>t. (t_id t, t)) (tasks_of s wid))"

definition old_approval :: "db \<Rightarrow> ident \<Rightarrow> string \<rightharpoonup> approval_row" where
  "old_approval s wid =
     js_map (List.map_filter (\<lambda>ap. map_option (\<lambda>t. (t_key t, ap)) (old_by_id s wid (ap_taskId ap))) (approvals_of s wid))"

definition edge_text :: "string \<Rightarrow> dependency_outcome \<Rightarrow> string" where
  "edge_text k oc = k @ '':'' @ outcome_text oc"

definition old_edges :: "db \<Rightarrow> ident \<Rightarrow> ident \<Rightarrow> string list" where
  "old_edges s wid tid =
     map (\<lambda>d. edge_text (case old_by_id s wid (d_dependsOnTaskId d) of Some t \<Rightarrow> t_key t | None \<Rightarrow> d_dependsOnTaskId d)
                (d_outcome d))
       (filter (\<lambda>d. d_taskId d = tid) (deps_of s wid))"

definition new_edges :: "task_spec \<Rightarrow> string list" where
  "new_edges t = map (\<lambda>(k, oc). edge_text k oc) (task_deps t)"

text \<open>The tuple of a task that keeps its committed dates.\<close>

definition frozen_tuple :: "task_row \<Rightarrow> instant \<Rightarrow> frozen" where
  "frozen_tuple t due =
     FrozenBar (toISOString due) (toISOString (nullish (t_plannedStartUtc t) due)) (toISOString (nullish (t_plannedEndUtc t) due))"

definition freeze_kept :: "db \<Rightarrow> ident \<Rightarrow> string list \<Rightarrow> task_row \<Rightarrow> (string \<rightharpoonup> frozen) \<Rightarrow> string \<rightharpoonup> frozen" where
  "freeze_kept s wid newKeys ot fz =
     (case t_dueAtUtc ot of
        None \<Rightarrow> fz
      | Some due \<Rightarrow>
          if t_key ot \<in> set newKeys \<and> fz (t_key ot) = None \<and> isFrozen s wid ot (old_approval s wid (t_key ot))
          then fz(t_key ot \<mapsto> frozen_tuple ot due) else fz)"

definition frozen_dates :: "db \<Rightarrow> ident \<Rightarrow> workflow_spec \<Rightarrow> (string \<rightharpoonup> frozen) \<Rightarrow> string \<rightharpoonup> frozen" where
  "frozen_dates s wid spec frozenDueAt = fold (freeze_kept s wid (spec_keys spec)) (tasks_of s wid) frozenDueAt"

fun first_error :: "('a \<Rightarrow> 'e option) \<Rightarrow> 'a list \<Rightarrow> 'e option" where
  "first_error f [] = None"
| "first_error f (x # xs) = (case f x of Some e \<Rightarrow> Some e | None \<Rightarrow> first_error f xs)"

text \<open>A removed task that is frozen rejects the edit.\<close>

definition delete_check :: "db \<Rightarrow> ident \<Rightarrow> task_row \<Rightarrow> store_error option" where
  "delete_check s wid t =
     (let ap = old_approval s wid (t_key t)
      in if \<not> isFrozen s wid t ap then None
         else if hasEvidence s wid (t_id t) \<or> (case ap of Some a \<Rightarrow> approvalIsEvidence a | None \<Rightarrow> False)
              then Some (SpecApplyRejected ''task_has_attempts'')
              else Some (SpecApplyRejected ''task_immutable''))"

definition approval_check :: "calendar \<Rightarrow> task_spec \<Rightarrow> approval_row \<Rightarrow> store_error option" where
  "approval_check cal t prev =
     (case date_column cal (get_str t ''deadlineIso8601'') of
        Inl e \<Rightarrow> Some e
      | Inr newDeadline \<Rightarrow>
          if canonicalize (ap_requiredScope prev) \<noteq> canonicalize (nullish (get t ''requiredScope'') JNull)
             \<or> canonicalize (nullish (map_option JObj (ap_solicitationSchedule prev)) JNull)
               \<noteq> canonicalize (nullish (get t ''solicitation'') JNull)
             \<or> map_option toISOString (ap_deadlineUtc prev) \<noteq> map_option toISOString newDeadline
             \<or> ap_rejectionPolicy prev \<noteq> get_str t ''rejectionPolicy''
          then Some (SpecApplyRejected ''task_immutable'') else None)"

definition freeze_check ::
  "calendar \<Rightarrow> (string \<rightharpoonup> resolved_task) \<Rightarrow> db \<Rightarrow> ident \<Rightarrow> task_spec \<Rightarrow> store_error option" where
  "freeze_check cal resolved s wid t =
     (case old_by_key s wid (task_key t) of
        None \<Rightarrow> None
      | Some existing \<Rightarrow>
          (let prevAp = old_approval s wid (task_key t)
           in if \<not> isFrozen s wid existing prevAp then None
              else if map canonicalize (FROZEN_TASK_IDENTITY existing)
                      \<noteq> map canonicalize (FROZEN_TASK_IDENTITY (buildCols cal resolved t existing))
                   then Some (SpecApplyRejected ''task_immutable'')
              else if set (old_edges s wid (t_id existing)) \<noteq> set (new_edges t)
                   then Some (SpecApplyRejected ''task_immutable'')
              else
                (case prevAp of
                   Some prev \<Rightarrow> if task_type t = ''approval'' then approval_check cal t prev else None
                 | None \<Rightarrow> None)))"

section \<open>Deleting tasks\<close>

text \<open>
  \<open>DELETE FROM workflow_task\<close>: attempts, artifacts and approvals restrict, dependencies, gates and leases
  cascade, children lose their parent.
\<close>

definition delete_tasks :: "(task_row \<Rightarrow> bool) \<Rightarrow> db \<Rightarrow> store_error + db" where
  "delete_tasks P s =
     (let gone = map t_id (filter P (db_tasks s))
      in if list_ex (\<lambda>a. a_taskId a \<in> set gone) (db_attempts s)
            \<or> list_ex (\<lambda>a. ar_taskId a \<in> set gone) (db_artifacts s)
            \<or> list_ex (\<lambda>a. ap_taskId a \<in> set gone) (db_approvals s)
         then Inl (ConstraintFailed (ForeignKeyViolation ''workflow_task''))
         else Inr (s\<lparr>db_tasks := map (\<lambda>t. if (case t_parentTaskId t of Some p \<Rightarrow> p \<in> set gone | None \<Rightarrow> False)
                                         then t\<lparr>t_parentTaskId := None\<rparr> else t) (delete_where P (db_tasks s)),
                     db_deps := delete_where (\<lambda>d. d_taskId d \<in> set gone \<or> d_dependsOnTaskId d \<in> set gone) (db_deps s),
                     db_gates := delete_where (\<lambda>g. gr_taskId g \<in> set gone) (db_gates s),
                     db_leases := delete_where (\<lambda>l. l_taskId l \<in> set gone) (db_leases s)\<rparr>))"

definition delete_deps :: "ident \<Rightarrow> db \<Rightarrow> db" where
  "delete_deps wid s = s\<lparr>db_deps := delete_where (\<lambda>d. d_workflowId d = wid) (db_deps s)\<rparr>"

definition delete_approvals :: "ident \<Rightarrow> db \<Rightarrow> db" where
  "delete_approvals wid s = s\<lparr>db_approvals := delete_where (\<lambda>a. ap_workflowId a = wid) (db_approvals s)\<rparr>"

section \<open>Applying a specification in place\<close>

fun kept_or_new_ids :: "env \<Rightarrow> (string \<rightharpoonup> task_row) \<Rightarrow> task_spec list \<Rightarrow> db \<Rightarrow> (string \<times> ident) list \<times> db" where
  "kept_or_new_ids E old [] s = ([], s)"
| "kept_or_new_ids E old (t # ts) s =
     (let (i, s1) = (case old (task_key t) of Some r \<Rightarrow> (t_id r, s) | None \<Rightarrow> new_id E ''wtask'' s);
          (rest, s2) = kept_or_new_ids E old ts s1
      in ((task_key t, i) # rest, s2))"

definition apply_task ::
  "env \<Rightarrow> calendar \<Rightarrow> ident \<Rightarrow> (string \<rightharpoonup> resolved_task) \<Rightarrow> (string \<rightharpoonup> task_row) \<Rightarrow> (string \<rightharpoonup> ident) \<Rightarrow> task_spec \<Rightarrow> db \<Rightarrow>
   store_error + db" where
  "apply_task E cal wid resolved old idByKey t s =
     (let tid = nullish (idByKey (task_key t)) []
      in case old (task_key t) of
           Some existing \<Rightarrow>
             Inr (s\<lparr>db_tasks := update_where (\<lambda>r. t_id r = tid)
                      (\<lambda>r. (buildCols cal resolved t r)\<lparr>t_lockVersion := t_lockVersion existing + 1, t_updatedAt := e_wall E\<rparr>)
                      (db_tasks s)\<rparr>)
         | None \<Rightarrow> insert_task (inserted_task E cal wid resolved tid t) s)"

definition apply_parent :: "(string \<rightharpoonup> ident) \<Rightarrow> task_spec \<Rightarrow> db \<Rightarrow> store_error + db" where
  "apply_parent idByKey t s =
     (case task_parent t of
        None \<Rightarrow> Inr (set_parent idByKey None t s)
      | Some p \<Rightarrow>
          (case idByKey p of
             None \<Rightarrow> Inl (UnknownParentKey p)
           | Some pid \<Rightarrow> if pid = [] then Inl (UnknownParentKey p) else Inr (set_parent idByKey (Some pid) t s)))"

text \<open>The new graph as the review packet reads it.\<close>

definition packet_task :: "ident \<Rightarrow> (string \<rightharpoonup> ident) \<Rightarrow> task_spec \<Rightarrow> task_row" where
  "packet_task wid idByKey t =
     (new_task (nullish (idByKey (task_key t)) []) wid (task_key t) (task_type t))\<lparr>t_title := task_title t\<rparr>"

definition packet_deps :: "ident \<Rightarrow> (string \<rightharpoonup> ident) \<Rightarrow> workflow_spec \<Rightarrow> dependency_row list" where
  "packet_deps wid idByKey spec =
     concat (map (\<lambda>t. List.map_filter
       (\<lambda>(k, oc). case idByKey k of
          Some onId \<Rightarrow> if onId = [] then None
                       else Some \<lparr>d_id = [], d_workflowId = wid, d_taskId = nullish (idByKey (task_key t)) [],
                                  d_dependsOnTaskId = onId, d_outcome = oc\<rparr>
        | None \<Rightarrow> None) (task_deps t)) (spec_tasks spec))"

definition new_packet_hash :: "env \<Rightarrow> ident \<Rightarrow> workflow_spec \<Rightarrow> (string \<rightharpoonup> ident) \<Rightarrow> task_spec \<Rightarrow> string" where
  "new_packet_hash E wid spec idByKey t =
     (let rows = map (packet_task wid idByKey) (spec_tasks spec)
      in computeReviewPacketHash E (packet_task wid idByKey t) (nullish (get t ''requiredScope'') JNull)
           (packet_deps wid idByKey spec) (js_map (map (\<lambda>r. (t_id r, r)) rows)) (js_map (map (\<lambda>r. (t_id r, t_key r)) rows)))"

text \<open>An approval that was opened and whose task has not settled is compared with the packet of the new graph.\<close>

definition reopens :: "task_row option \<Rightarrow> approval_row \<Rightarrow> bool" where
  "reopens existing prev \<longleftrightarrow>
     truthy (ap_reviewPacketHash prev)
     \<and> \<not> (case existing of Some t \<Rightarrow> isTerminalTaskStatus (t_status t) | None \<Rightarrow> False)
     \<and> was_opened prev"

definition rebuilt_approval ::
  "env \<Rightarrow> ident \<Rightarrow> workflow_spec \<Rightarrow> (string \<rightharpoonup> ident) \<Rightarrow> task_row option \<Rightarrow> task_spec \<Rightarrow> instant option \<Rightarrow> approval_row \<Rightarrow> approval_row" where
  "rebuilt_approval E wid spec idByKey existing t deadline prev =
     (let hash = (if reopens existing prev then Some (new_packet_hash E wid spec idByKey t) else ap_reviewPacketHash prev);
          stale = (hash \<noteq> ap_reviewPacketHash prev)
      in prev\<lparr>ap_workflowId := wid, ap_taskId := nullish (idByKey (task_key t)) [],
              ap_requiredScope := nullish (get t ''requiredScope'') JNull,
              ap_solicitationSchedule := solicitation_column t, ap_deadlineUtc := deadline,
              ap_rejectionPolicy := get_str t ''rejectionPolicy'', ap_reviewPacketHash := hash,
              ap_status := (if stale then ApPending else ap_status prev),
              ap_notificationState := (if stale then Some [] else ap_notificationState prev),
              ap_decidedBy := (if stale then None else ap_decidedBy prev),
              ap_decidedAt := (if stale then None else ap_decidedAt prev),
              ap_reason := (if stale then None else ap_reason prev),
              ap_invalidatedAt := (if stale then Some (e_wall E) else ap_invalidatedAt prev)\<rparr>)"

definition apply_approval ::
  "env \<Rightarrow> calendar \<Rightarrow> ident \<Rightarrow> workflow_spec \<Rightarrow> (string \<rightharpoonup> ident) \<Rightarrow> (string \<rightharpoonup> task_row) \<Rightarrow> (string \<rightharpoonup> approval_row) \<Rightarrow>
   task_spec \<Rightarrow> db \<Rightarrow> store_error + db" where
  "apply_approval E cal wid spec idByKey old oldAp t s =
     (if task_type t \<noteq> ''approval'' then Inr s
      else
        (case oldAp (task_key t) of
           None \<Rightarrow> insert_spec_approval E cal wid idByKey t s
         | Some prev \<Rightarrow>
             (case date_column cal (get_str t ''deadlineIso8601'') of
                Inl e \<Rightarrow> Inl e
              | Inr deadline \<Rightarrow>
                  Inr (s\<lparr>db_approvals := db_approvals s @
                    [rebuilt_approval E wid spec idByKey (old (task_key t)) t deadline prev]\<rparr>))))"

definition apply_links ::
  "env \<Rightarrow> calendar \<Rightarrow> ident \<Rightarrow> workflow_spec \<Rightarrow> (string \<rightharpoonup> ident) \<Rightarrow> (string \<rightharpoonup> task_row) \<Rightarrow> (string \<rightharpoonup> approval_row) \<Rightarrow>
   task_spec \<Rightarrow> db \<Rightarrow> store_error + db" where
  "apply_links E cal wid spec idByKey old oldAp t s =
     (case run_all (insert_spec_dep E wid idByKey t) (task_deps t) s of
        Inl e \<Rightarrow> Inl e
      | Inr s1 \<Rightarrow> apply_approval E cal wid spec idByKey old oldAp t s1)"

text \<open>The tasks the edit removes.\<close>

definition removed_tasks :: "db \<Rightarrow> ident \<Rightarrow> workflow_spec \<Rightarrow> task_row list" where
  "removed_tasks s wid spec = filter (\<lambda>t. t_key t \<notin> set (spec_keys spec)) (tasks_of s wid)"

text \<open>The checks that come before any mutation; on success the resolved dates.\<close>

definition diff_checks ::
  "env \<Rightarrow> calendar \<Rightarrow> ident \<Rightarrow> workflow_spec \<Rightarrow> (string \<rightharpoonup> frozen) \<Rightarrow> db \<Rightarrow> store_error + (string \<rightharpoonup> resolved_task)" where
  "diff_checks E cal wid spec frozenDueAt s =
     (case resolveSchedule cal (e_wall E) spec
             \<lparr>ro_targetAtUtc = None, ro_frozenDueAt = frozen_dates s wid spec frozenDueAt\<rparr> of
        Inl e \<Rightarrow> Inl InvalidDate
      | Inr res \<Rightarrow>
          (case first_error (delete_check s wid) (removed_tasks s wid spec) of
             Some e \<Rightarrow> Inl e
           | None \<Rightarrow>
               (case first_error (freeze_check cal (rr_tasks res) s wid) (spec_tasks spec) of
                  Some e \<Rightarrow> Inl e
                | None \<Rightarrow> Inr (rr_tasks res))))"

definition diff_writes ::
  "env \<Rightarrow> calendar \<Rightarrow> ident \<Rightarrow> workflow_spec \<Rightarrow> (string \<rightharpoonup> resolved_task) \<Rightarrow> db \<Rightarrow> store_error + db" where
  "diff_writes E cal wid spec resolved s =
     (let old = old_by_key s wid; oldAp = old_approval s wid
      in case run_all (\<lambda>t. delete_tasks (\<lambda>r. t_id r = t_id t)) (removed_tasks s wid spec)
                (delete_approvals wid (delete_deps wid s)) of
           Inl e \<Rightarrow> Inl e
         | Inr s1 \<Rightarrow>
             (let (ids, s2) = kept_or_new_ids E old (spec_tasks spec) s1; idByKey = js_map ids
              in case run_all (apply_task E cal wid resolved old idByKey) (spec_tasks spec) s2 of
                   Inl e \<Rightarrow> Inl e
                 | Inr s3 \<Rightarrow>
                     (case run_all (apply_parent idByKey) (spec_tasks spec) s3 of
                        Inl e \<Rightarrow> Inl e
                      | Inr s4 \<Rightarrow> run_all (apply_links E cal wid spec idByKey old oldAp) (spec_tasks spec) s4)))"

definition diffApplySpecRows ::
  "env \<Rightarrow> calendar \<Rightarrow> ident \<Rightarrow> workflow_spec \<Rightarrow> (string \<rightharpoonup> frozen) \<Rightarrow> db \<Rightarrow> store_error + db" where
  "diffApplySpecRows E cal wid spec frozenDueAt s =
     (case diff_checks E cal wid spec frozenDueAt s of
        Inl e \<Rightarrow> Inl e
      | Inr resolved \<Rightarrow> diff_writes E cal wid spec resolved s)"

section \<open>Updating a draft or paused workflow\<close>

record update_input =
  ui_workflowId :: ident
  ui_spec :: workflow_spec
  ui_name :: "string option"
  ui_product :: "string option"
  ui_expectedLockVersion :: int
  ui_excludeFromFreeze :: "string list"

datatype update_result =
    UpdateOk int
  | UpdateRefused string
  | UpdateThrew store_error

definition editable :: "workflow_row \<Rightarrow> bool" where
  "editable w \<longleftrightarrow> w_status w = WDraft \<or> w_status w = WPaused"

text \<open>The checks on the row read before the transaction.\<close>

definition update_precheck :: "update_input \<Rightarrow> db \<Rightarrow> string option" where
  "update_precheck input s =
     (case find_workflow s (ui_workflowId input) of
        None \<Rightarrow> Some ''not_found''
      | Some w \<Rightarrow>
          if \<not> editable w then Some ''not_draft''
          else if w_lockVersion w \<noteq> ui_expectedLockVersion input then Some ''stale'' else None)"

definition updated_workflow :: "env \<Rightarrow> update_input \<Rightarrow> instant option \<Rightarrow> workflow_row \<Rightarrow> workflow_row" where
  "updated_workflow E input targetAt w =
     w\<lparr>w_name := nullish (ui_name input) (nullish (get_str (ui_spec input) ''name'') []),
       w_product := (case ui_product input of Some p \<Rightarrow> Some p | None \<Rightarrow> get_str (ui_spec input) ''product''),
       w_targetAtUtc := targetAt, w_targetTz := target_tz (ui_spec input),
       w_lockVersion := ui_expectedLockVersion input + 1, w_specVersion := w_specVersion w + 1,
       w_updatedAt := e_wall E\<rparr>"

text \<open>The committed dates of the pinned tasks that the edit does not move itself.\<close>

definition pinned_dates :: "update_input \<Rightarrow> db \<Rightarrow> string \<rightharpoonup> frozen" where
  "pinned_dates input s =
     (let oldByKey = js_map (List.map_filter (\<lambda>r. map_option (\<lambda>due. (t_key r, frozen_tuple r due)) (t_dueAtUtc r))
                       (tasks_of s (ui_workflowId input)))
      in js_map (List.map_filter
           (\<lambda>t. if task_pinned t \<and> task_key t \<notin> set (ui_excludeFromFreeze input)
                then map_option (Pair (task_key t)) (oldByKey (task_key t)) else None)
           (spec_tasks (ui_spec input))))"

definition replace_rows ::
  "env \<Rightarrow> calendar \<Rightarrow> ident \<Rightarrow> workflow_spec \<Rightarrow> (string \<rightharpoonup> frozen) \<Rightarrow> db \<Rightarrow> store_error + db" where
  "replace_rows E cal wid spec frozenDueAt s =
     (case delete_tasks (\<lambda>t. t_workflowId t = wid) (delete_approvals wid s) of
        Inl e \<Rightarrow> Inl e
      | Inr s1 \<Rightarrow> insertSpecRows E cal wid spec frozenDueAt s1)"

text \<open>The transaction: whether the compare-and-set won, and the database.\<close>

definition update_tx :: "env \<Rightarrow> calendar \<Rightarrow> update_input \<Rightarrow> db \<Rightarrow> store_error + bool \<times> db" where
  "update_tx E cal input s =
     (let wid = ui_workflowId input; spec = ui_spec input
      in case find_workflow s wid of
           None \<Rightarrow> Inr (False, s)
         | Some w \<Rightarrow>
             (case date_column cal (target_at spec) of
                Inl e \<Rightarrow> Inl e
              | Inr targetAt \<Rightarrow>
                  (let (won, s1) = cas_workflow wid (ui_expectedLockVersion input) editable
                                     (updated_workflow E input targetAt) s
                   in if \<not> won then Inr (False, s1)
                      else
                        (let frozenDueAt = pinned_dates input s1
                         in map_sum id (Pair True)
                              (if w_status w = WPaused then diffApplySpecRows E cal wid spec frozenDueAt s1
                               else replace_rows E cal wid spec frozenDueAt s1)))))"

text \<open>The row is read on \<open>s0\<close>, the transaction runs on \<open>s\<close>, which may have changed since.\<close>

definition updateWorkflowDraftSpec :: "env \<Rightarrow> calendar \<Rightarrow> update_input \<Rightarrow> db \<Rightarrow> db \<Rightarrow> update_result \<times> db" where
  "updateWorkflowDraftSpec E cal input s0 s =
     (case update_precheck input s0 of
        Some r \<Rightarrow> (UpdateRefused r, s)
      | None \<Rightarrow>
          (case update_tx E cal input s of
             Inl (SpecApplyRejected r) \<Rightarrow> (UpdateRefused r, s)
           | Inl e \<Rightarrow> (UpdateThrew e, s)
           | Inr (won, s1) \<Rightarrow>
               if won then (UpdateOk (ui_expectedLockVersion input + 1), s1) else (UpdateRefused ''stale'', s1)))"

end
