(* ===== verification/Wf_StoreEdit.thy ===== *)
theory Wf_StoreEdit
  imports Wf_StoreUpdate Wf_Validate
begin

text \<open>
  The narrow edits of a draft or paused workflow, \<^verbatim>\<open>packages/workflows/src/store.ts\<close> from
  \<^verbatim>\<open>msToIsoDuration\<close> on, with the trigger lint of \<^verbatim>\<open>lint/trigger-bundling.ts\<close>: move a task or the target, set a task's
  window, delete a task, add and remove a dependency. Each rebuilds the specification from the
  rows, patches it, validates the patched specification and hands it to the update. It reads on the
  database \<open>s0\<close> and writes on \<open>s\<close>, which may have changed since.
\<close>

section \<open>The trigger lint\<close>

text \<open>\<^verbatim>\<open>/(^|\/)trigger(-agent)?$|@cinatra-ai\/trigger/i\<close> on a text.\<close>

definition last_segment :: "string \<Rightarrow> string" where
  "last_segment s = last (split_on (CHR ''/'') s)"

fun contains :: "string \<Rightarrow> string \<Rightarrow> bool" where
  "contains p [] \<longleftrightarrow> p = []"
| "contains p (c # cs) \<longleftrightarrow> starts_with (c # cs) p \<or> contains p cs"

definition trigger_package :: "string \<Rightarrow> bool" where
  "trigger_package pkg \<longleftrightarrow>
     (let s = to_lower pkg
      in last_segment s = ''trigger'' \<or> last_segment s = ''trigger-agent'' \<or> contains ''@cinatra-ai/trigger'' s)"

definition TRIGGER_INPUT_KEYS :: "string list" where
  "TRIGGER_INPUT_KEYS = [''triggerConfig'', ''trigger_config'', ''trigger'', ''cron'', ''schedule_trigger'']"

definition trigger_findings :: "nat \<Rightarrow> task_spec \<Rightarrow> spec_error list" where
  "trigger_findings i t =
     (if task_type t \<noteq> ''agent_task'' then []
      else
        error_when (trigger_package (nullish (Option.bind (get t ''agentRef'') (\<lambda>a. get_str a ''package'')) []))
          (error_at ''TRIGGER_BUNDLING'' (task_path i ''.agentRef.package''))
        @ (case get t ''input'' of
             Some j \<Rightarrow>
               if is_container j
               then map (\<lambda>k. error_at ''TRIGGER_BUNDLING'' (task_path i (''.input.'' @ k)))
                      (filter (\<lambda>k. get j k \<noteq> None) TRIGGER_INPUT_KEYS)
               else []
           | None \<Rightarrow> []))"

definition lintWorkflowSpecForTriggerBundling :: "workflow_spec \<Rightarrow> spec_error list" where
  "lintWorkflowSpecForTriggerBundling = per_task trigger_findings"

text \<open>The lint of a package manifest, on the names of its dependencies.\<close>

definition lintManifestForTriggerBundling :: "string list \<Rightarrow> spec_error list" where
  "lintManifestForTriggerBundling deps =
     map (\<lambda>d. error_at ''TRIGGER_BUNDLING'' (''dependencies.'' @ d)) (filter trigger_package deps)"

section \<open>Durations and results\<close>

definition duration_part :: "int \<Rightarrow> char \<Rightarrow> string" where
  "duration_part n unit = (if 0 < n then show_int n @ [unit] else [])"

definition msToIsoDuration :: "int \<Rightarrow> string" where
  "msToIsoDuration absMs =
     (if absMs \<le> 0 then ''PT0S''
      else
        (let s = (2 * absMs + 1000) div 2000;
             days = s div 86400; s1 = s - days * 86400;
             hours = s1 div 3600; s2 = s1 - hours * 3600;
             minutes = s2 div 60; seconds = s2 - minutes * 60;
             date = ''P'' @ duration_part days (CHR ''D'')
         in if 0 < hours \<or> 0 < minutes \<or> 0 < seconds \<or> date = ''P''
            then
              (let time = date @ ''T'' @ duration_part hours (CHR ''H'') @ duration_part minutes (CHR ''M'')
               in if 0 < seconds \<or> time = ''PT'' then time @ show_int seconds @ ''S'' else time)
            else date))"

datatype edit_result =
    EditOk int
  | EditRefused (er_reason: string) (er_errors: "spec_error list") (er_dependents: "string list")
  | EditThrew store_error

definition refused :: "string \<Rightarrow> edit_result" where
  "refused r = EditRefused r [] []"

definition validatePatchedSpec :: "validator \<Rightarrow> json \<Rightarrow> spec_error list + workflow_spec" where
  "validatePatchedSpec V raw =
     (let tpl = validateTemplate V raw
      in case vr_spec tpl of
           Some spec \<Rightarrow>
             if \<not> vr_ok tpl then Inl (vr_errors tpl)
             else if lintWorkflowSpecForTriggerBundling spec \<noteq> [] then Inl (lintWorkflowSpecForTriggerBundling spec)
             else Inr spec
         | None \<Rightarrow> Inl (vr_errors tpl))"

text \<open>The end of every edit: validate the patched specification and update the workflow.\<close>

definition commit_patch ::
  "env \<Rightarrow> validator \<Rightarrow> ident \<Rightarrow> int \<Rightarrow> string list \<Rightarrow> json \<Rightarrow> db \<Rightarrow> db \<Rightarrow> edit_result \<times> db" where
  "commit_patch E V wid expected exclude patched s0 s =
     (case validatePatchedSpec V patched of
        Inl errors \<Rightarrow> (EditRefused ''invalid_spec'' errors [], s)
      | Inr spec \<Rightarrow>
          (let (r, s1) = updateWorkflowDraftSpec E (va_calendar V)
                 \<lparr>ui_workflowId = wid, ui_spec = spec, ui_name = None, ui_product = None,
                  ui_expectedLockVersion = expected, ui_excludeFromFreeze = exclude\<rparr> s0 s
           in (case r of UpdateOk v \<Rightarrow> EditOk v | UpdateRefused x \<Rightarrow> refused x | UpdateThrew e \<Rightarrow> EditThrew e, s1)))"

section \<open>Patching\<close>

text \<open>\<open>{ ...o, k: v }\<close> and \<open>{ ...o, k: undefined }\<close>.\<close>

definition put :: "string \<Rightarrow> json \<Rightarrow> json \<Rightarrow> json" where
  "put k v j = (case j of JObj kvs \<Rightarrow> JObj (AList.update k v kvs) | _ \<Rightarrow> j)"

definition drop_field :: "string \<Rightarrow> json \<Rightarrow> json" where
  "drop_field k j = (case j of JObj kvs \<Rightarrow> JObj (filter (\<lambda>(x, v). x \<noteq> k) kvs) | _ \<Rightarrow> j)"

definition put_tasks :: "(task_spec list \<Rightarrow> task_spec list) \<Rightarrow> workflow_spec \<Rightarrow> workflow_spec" where
  "put_tasks f spec = put ''tasks'' (JArr (f (spec_tasks spec))) spec"

definition put_task :: "string \<Rightarrow> (task_spec \<Rightarrow> task_spec) \<Rightarrow> workflow_spec \<Rightarrow> workflow_spec" where
  "put_task key f spec = put_tasks (map (\<lambda>t. if task_key t = key then f t else t)) spec"

definition task_in :: "workflow_spec \<Rightarrow> string \<Rightarrow> task_spec option" where
  "task_in spec key = find (\<lambda>t. task_key t = key) (spec_tasks spec)"

section \<open>Moving a task\<close>

datatype reschedule_mode = Pin | Reoffset

text \<open>\<open>cur.k\<close> on the current schedule of a task, an object or absent.\<close>

definition cur_field :: "json option \<Rightarrow> string \<Rightarrow> json option" where
  "cur_field cur k = Option.bind cur (\<lambda>j. get j k)"

definition cur_truthy :: "json option \<Rightarrow> string \<Rightarrow> bool" where
  "cur_truthy cur k \<longleftrightarrow> (case cur_field cur k of Some v \<Rightarrow> js_truthy v | None \<Rightarrow> False)"

text \<open>The instant of the current anchor, or the refusal.\<close>

definition anchor_instant :: "env \<Rightarrow> calendar \<Rightarrow> workflow_spec \<Rightarrow> json option \<Rightarrow> edit_result + instant" where
  "anchor_instant E cal spec cur =
     (let unresolvable = Inl (refused ''anchor_unresolvable'');
          from_text = (\<lambda>txt. case dateParse cal txt of Some ms \<Rightarrow> Inr ms | None \<Rightarrow> unresolvable)
      in case cur_field cur ''anchor'' of
           Some (JStr anchor) \<Rightarrow>
             if anchor = TARGET_ANCHOR then
               (if truthy (target_at spec) then from_text (nullish (target_at spec) []) else Inl (refused ''no_target''))
             else
               (case resolveSchedule cal (e_wall E) spec no_options of
                  Inl e \<Rightarrow> Inl (EditThrew InvalidDate)
                | Inr res \<Rightarrow>
                    (case rr_tasks res anchor of
                       None \<Rightarrow> unresolvable
                     | Some r \<Rightarrow> if rt_dueAtUtc r = [] then unresolvable else from_text (rt_dueAtUtc r)))
         | _ \<Rightarrow> unresolvable)"

definition reoffset :: "json \<Rightarrow> instant \<Rightarrow> instant \<Rightarrow> json" where
  "reoffset cur due anchorMs =
     put ''direction'' (JStr (if 0 \<le> due - anchorMs then ''after'' else ''before''))
       (put ''offsetIso8601'' (JStr (msToIsoDuration \<bar>due - anchorMs\<bar>)) cur)"

definition pinned_schedule :: "json option \<Rightarrow> instant \<Rightarrow> json" where
  "pinned_schedule cur due =
     JObj ([(''mode'', JStr ''absolute''), (''at'', JStr (toISOString due))]
           @ (if cur_field cur ''mode'' = Some (JStr ''absolute'')
              then truthy_field ''tz'' (cur_field cur ''tz'') @ truthy_field ''durationIso8601'' (cur_field cur ''durationIso8601'')
                   @ truthy_field ''anchorPoint'' (cur_field cur ''anchorPoint'')
              else []))"

definition new_schedule ::
  "env \<Rightarrow> calendar \<Rightarrow> workflow_spec \<Rightarrow> json option \<Rightarrow> reschedule_mode \<Rightarrow> instant \<Rightarrow> edit_result + json" where
  "new_schedule E cal spec cur mode due =
     (case mode of
        Pin \<Rightarrow> Inr (pinned_schedule cur due)
      | Reoffset \<Rightarrow>
          (case cur of
             Some j \<Rightarrow>
               if get j ''mode'' = Some (JStr ''relative'')
               then (case anchor_instant E cal spec cur of Inl e \<Rightarrow> Inl e | Inr ms \<Rightarrow> Inr (reoffset j due ms))
               else Inl (refused ''not_relative'')
           | None \<Rightarrow> Inl (refused ''not_relative'')))"

definition rescheduleWorkflowTask ::
  "env \<Rightarrow> validator \<Rightarrow> ident \<Rightarrow> string \<Rightarrow> string \<Rightarrow> reschedule_mode \<Rightarrow> int \<Rightarrow> db \<Rightarrow> db \<Rightarrow> edit_result \<times> db" where
  "rescheduleWorkflowTask E V wid key newDueAtUtc mode expected s0 s =
     (case dateParse (va_calendar V) newDueAtUtc of
        None \<Rightarrow> (refused ''invalid_target'', s)
      | Some newDue \<Rightarrow>
          (case reconstructSpec s0 wid of
             None \<Rightarrow> (refused ''not_found'', s)
           | Some spec \<Rightarrow>
               (case task_in spec key of
                  None \<Rightarrow> (refused ''task_not_found'', s)
                | Some task \<Rightarrow>
                    (let cur = get task ''schedule''
                     in if cur_field cur ''anchorPoint'' = Some (JStr ''start'') \<or> cur_truthy cur ''durationIso8601''
                        then (refused ''unsupported_in_slice'', s)
                        else
                          (case new_schedule E (va_calendar V) spec cur mode newDue of
                             Inl e \<Rightarrow> (e, s)
                           | Inr sched \<Rightarrow>
                               commit_patch E V wid expected [key]
                                 (put_task key (\<lambda>t. put ''pinned'' (JBool (mode = Pin)) (put ''schedule'' sched t)) spec) s0 s)))))"

section \<open>Moving the target\<close>

definition rescheduleWorkflow ::
  "env \<Rightarrow> validator \<Rightarrow> ident \<Rightarrow> string \<Rightarrow> int \<Rightarrow> db \<Rightarrow> db \<Rightarrow> edit_result \<times> db" where
  "rescheduleWorkflow E V wid newTargetAt expected s0 s =
     (case dateParse (va_calendar V) newTargetAt of
        None \<Rightarrow> (refused ''invalid_target'', s)
      | Some newTarget \<Rightarrow>
          (case reconstructSpec s0 wid of
             None \<Rightarrow> (refused ''not_found'', s)
           | Some spec \<Rightarrow>
               (case get spec ''target'' of
                  None \<Rightarrow> (refused ''no_target'', s)
                | Some target \<Rightarrow>
                    commit_patch E V wid expected []
                      (put ''target'' (put ''at'' (JStr (toISOString newTarget)) target) spec) s0 s)))"

section \<open>Deleting a task\<close>

definition dependents_of :: "workflow_spec \<Rightarrow> string \<Rightarrow> string list" where
  "dependents_of spec key =
     sort (remdups (map task_key (filter (\<lambda>t. task_key t \<noteq> key \<and> key \<in> set (task_depKeys t)) (spec_tasks spec))))"

definition anchored_at :: "string \<Rightarrow> task_spec \<Rightarrow> bool" where
  "anchored_at key t \<longleftrightarrow>
     (let cur = get t ''schedule''
      in cur_field cur ''mode'' = Some (JStr ''relative'') \<and> cur_field cur ''anchor'' = Some (JStr key))"

definition anchor_dependents_of :: "workflow_spec \<Rightarrow> string \<Rightarrow> string list" where
  "anchor_dependents_of spec key =
     sort (remdups (map task_key (filter (\<lambda>t. task_key t \<noteq> key \<and> anchored_at key t) (spec_tasks spec))))"

definition without_task :: "string \<Rightarrow> workflow_spec \<Rightarrow> workflow_spec" where
  "without_task key spec =
     put_tasks (\<lambda>ts. map (\<lambda>t. if task_parent t = Some key then drop_field ''parent'' t else t)
                       (filter (\<lambda>t. task_key t \<noteq> key) ts)) spec"

definition deleteWorkflowTask :: "env \<Rightarrow> validator \<Rightarrow> ident \<Rightarrow> string \<Rightarrow> int \<Rightarrow> db \<Rightarrow> db \<Rightarrow> edit_result \<times> db" where
  "deleteWorkflowTask E V wid key expected s0 s =
     (case reconstructSpec s0 wid of
        None \<Rightarrow> (refused ''not_found'', s)
      | Some spec \<Rightarrow>
          if task_in spec key = None then (refused ''task_not_found'', s)
          else if dependents_of spec key \<noteq> [] then (EditRefused ''has_dependents'' [] (dependents_of spec key), s)
          else if anchor_dependents_of spec key \<noteq> [] then (EditRefused ''has_anchors'' [] (anchor_dependents_of spec key), s)
          else commit_patch E V wid expected [] (without_task key spec) s0 s)"

section \<open>The window of a task\<close>

definition absolute_window :: "json option \<Rightarrow> instant \<Rightarrow> instant \<Rightarrow> json" where
  "absolute_window cur startMs endMs =
     JObj ([(''mode'', JStr ''absolute''), (''at'', JStr (toISOString endMs))]
           @ truthy_field ''tz'' (cur_field cur ''tz'')
           @ (if 60000 \<le> endMs - startMs then [(''durationIso8601'', JStr (msToIsoDuration (endMs - startMs)))] else []))"

definition window_schedule ::
  "env \<Rightarrow> calendar \<Rightarrow> workflow_spec \<Rightarrow> json option \<Rightarrow> instant \<Rightarrow> instant \<Rightarrow> edit_result + json" where
  "window_schedule E cal spec cur startMs endMs =
     (if cur_field cur ''mode'' = Some (JStr ''relative'')
      then
        (if cur_truthy cur ''durationIso8601''
            \<or> cur_truthy cur ''anchorPoint'' \<and> cur_field cur ''anchorPoint'' \<noteq> Some (JStr ''due'')
         then Inl (refused ''unsupported_in_slice'')
         else (case anchor_instant E cal spec cur of
                 Inl e \<Rightarrow> Inl e
               | Inr ms \<Rightarrow> Inr (reoffset (nullish cur JNull) endMs ms)))
      else Inr (absolute_window cur startMs endMs))"

definition started_task :: "db \<Rightarrow> ident \<Rightarrow> string \<Rightarrow> bool" where
  "started_task s wid key \<longleftrightarrow>
     (case find (\<lambda>t. t_workflowId t = wid \<and> t_key t = key) (db_tasks s) of
        Some t \<Rightarrow> t_status t \<noteq> TIdle \<and> t_status t \<noteq> TScheduled
      | None \<Rightarrow> False)"

definition applyWorkflowTaskWindow ::
  "env \<Rightarrow> validator \<Rightarrow> ident \<Rightarrow> string \<Rightarrow> string \<Rightarrow> string \<Rightarrow> int \<Rightarrow> db \<Rightarrow> db \<Rightarrow> edit_result \<times> db" where
  "applyWorkflowTaskWindow E V wid key startAtUtc endAtUtc expected s0 s =
     (case (dateParse (va_calendar V) startAtUtc, dateParse (va_calendar V) endAtUtc) of
        (Some startMs, Some endMs) \<Rightarrow>
          if endMs < startMs then (refused ''invalid_target'', s)
          else
            (case reconstructSpec s0 wid of
               None \<Rightarrow> (refused ''not_found'', s)
             | Some spec \<Rightarrow>
                 (case task_in spec key of
                    None \<Rightarrow> (refused ''task_not_found'', s)
                  | Some task \<Rightarrow>
                      if started_task s0 wid key then (refused ''task_not_editable'', s)
                      else
                        (case window_schedule E (va_calendar V) spec (get task ''schedule'') startMs endMs of
                           Inl e \<Rightarrow> (e, s)
                         | Inr sched \<Rightarrow> commit_patch E V wid expected [key] (put_task key (put ''schedule'' sched) spec) s0 s)))
      | _ \<Rightarrow> (refused ''invalid_target'', s))"

section \<open>Dependencies\<close>

definition depends_on :: "string \<Rightarrow> json" where
  "depends_on key = JObj [(''taskKey'', JStr key)]"

definition addWorkflowDependency ::
  "env \<Rightarrow> validator \<Rightarrow> ident \<Rightarrow> string \<Rightarrow> string \<Rightarrow> int \<Rightarrow> db \<Rightarrow> db \<Rightarrow> edit_result \<times> db" where
  "addWorkflowDependency E V wid key dependsOnKey expected s0 s =
     (if key = dependsOnKey then (refused ''self_loop'', s)
      else
        (case reconstructSpec s0 wid of
           None \<Rightarrow> (refused ''not_found'', s)
         | Some spec \<Rightarrow>
             (case (task_in spec key, task_in spec dependsOnKey) of
                (Some task, Some dep) \<Rightarrow>
                  if dependsOnKey \<in> set (task_depKeys task) then (refused ''duplicate'', s)
                  else commit_patch E V wid expected []
                         (put_task key (put ''dependsOn'' (JArr (get_list task ''dependsOn'' @ [depends_on dependsOnKey]))) spec) s0 s
              | _ \<Rightarrow> (refused ''task_not_found'', s))))"

definition removeWorkflowDependency ::
  "env \<Rightarrow> validator \<Rightarrow> ident \<Rightarrow> string \<Rightarrow> string \<Rightarrow> int \<Rightarrow> db \<Rightarrow> db \<Rightarrow> edit_result \<times> db" where
  "removeWorkflowDependency E V wid key dependsOnKey expected s0 s =
     (case reconstructSpec s0 wid of
        None \<Rightarrow> (refused ''not_found'', s)
      | Some spec \<Rightarrow>
          if task_in spec key = None then (refused ''task_not_found'', s)
          else commit_patch E V wid expected []
                 (put_task key
                   (\<lambda>t. put ''dependsOn'' (JArr (filter (\<lambda>d. nullish (get_str d ''taskKey'') [] \<noteq> dependsOnKey)
                                               (get_list t ''dependsOn''))) t) spec) s0 s)"

end
