(* ===== verification/Wf_StoreOps.thy ===== *)
theory Wf_StoreOps
  imports Wf_StoreRows Wf_Passes
begin

text \<open>
  The other operations of \<^verbatim>\<open>packages/workflows/src/store.ts\<close>: templates, decisions on approvals and the
  approval inbox, compare-and-set of status and name, and the lists. The templates are a table of
  their own, passed beside the database. An operation that reads before its transaction takes
  what it read as an argument of the second half.
\<close>

section \<open>Templates\<close>

record template_row =
  tp_id :: ident
  tp_key :: string
  tp_version :: int
  tp_name :: string
  tp_description :: "string option"
  tp_definition :: workflow_spec
  tp_ownerLevel :: "string option"
  tp_ownerId :: "ident option"
  tp_orgId :: ident
  tp_projectId :: "ident option"
  tp_origin :: "json option"
  tp_visibility :: "string option"
  tp_packageName :: "string option"
  tp_createdBy :: "ident option"
  tp_createdAt :: instant
  tp_updatedAt :: instant

definition same_version :: "ident \<Rightarrow> string \<Rightarrow> int \<Rightarrow> template_row \<Rightarrow> bool" where
  "same_version org key version t \<longleftrightarrow> tp_orgId t = org \<and> tp_key t = key \<and> tp_version t = version"

text \<open>\<open>input\<close> carries the values to insert; identifier and timestamps are set here.\<close>

definition createWorkflowTemplate ::
  "env \<Rightarrow> template_row \<Rightarrow> template_row list \<Rightarrow> db \<Rightarrow> tx_error + template_row \<times> template_row list \<times> db" where
  "createWorkflowTemplate E input ts s =
     (let (i, s1) = new_id E ''wft'' s;
          row = input\<lparr>tp_id := i, tp_createdAt := e_wall E, tp_updatedAt := e_wall E\<rparr>
      in if list_ex (same_version (tp_orgId row) (tp_key row) (tp_version row)) ts
         then Inl (UniqueViolation ''workflow_template_org_key_version_uniq'')
         else Inr (row, ts @ [row], s1))"

definition readWorkflowTemplate :: "ident \<Rightarrow> template_row list \<Rightarrow> template_row option" where
  "readWorkflowTemplate tid ts = find (\<lambda>t. tp_id t = tid) ts"

definition listWorkflowTemplates :: "ident \<Rightarrow> template_row list \<Rightarrow> template_row list" where
  "listWorkflowTemplates org ts = filter (\<lambda>t. tp_orgId t = org) ts"

definition listWorkflowTemplatesForOrgIds :: "ident list \<Rightarrow> template_row list \<Rightarrow> template_row list" where
  "listWorkflowTemplatesForOrgIds orgs ts = (if orgs = [] then [] else filter (\<lambda>t. tp_orgId t \<in> set orgs) ts)"

record template_manifest =
  tm_key :: string
  tm_version :: int
  tm_name :: string
  tm_description :: "string option"
  tm_definition :: workflow_spec

record install_scope =
  is_orgId :: ident
  is_ownerLevel :: "string option"
  is_ownerId :: "ident option"
  is_createdBy :: "ident option"
  is_sourcePackage :: "string option"

definition source_package :: "install_scope \<Rightarrow> string option" where
  "source_package scope = (if truthy (is_sourcePackage scope) then is_sourcePackage scope else None)"

definition manifest_row :: "env \<Rightarrow> template_manifest \<Rightarrow> install_scope \<Rightarrow> ident \<Rightarrow> template_row" where
  "manifest_row E m scope i =
     \<lparr>tp_id = i, tp_key = tm_key m, tp_version = tm_version m, tp_name = tm_name m,
      tp_description = tm_description m, tp_definition = tm_definition m,
      tp_ownerLevel = Some (nullish (is_ownerLevel scope) ''organization''),
      tp_ownerId = Some (nullish (is_ownerId scope) (is_orgId scope)), tp_orgId = is_orgId scope,
      tp_projectId = None,
      tp_origin = Some (JObj ((''source'', JStr ''marketplace'')
                         # json_field ''package'' (map_option JStr (source_package scope)))),
      tp_visibility = Some ''workspace'', tp_packageName = is_sourcePackage scope,
      tp_createdBy = is_createdBy scope, tp_createdAt = e_wall E, tp_updatedAt = e_wall E\<rparr>"

text \<open>The upsert on organization, key and version: an existing row keeps its identity, owner and origin.\<close>

definition materializeTemplateFromManifest ::
  "env \<Rightarrow> template_manifest \<Rightarrow> install_scope \<Rightarrow> template_row list \<Rightarrow> db \<Rightarrow> template_row list \<times> db" where
  "materializeTemplateFromManifest E m scope ts s =
     (let (i, s1) = new_id E ''wft'' s; same = same_version (is_orgId scope) (tm_key m) (tm_version m)
      in (if list_ex same ts
          then update_where same
                 (\<lambda>t. t\<lparr>tp_name := tm_name m, tp_description := tm_description m, tp_definition := tm_definition m,
                        tp_packageName := is_sourcePackage scope, tp_updatedAt := e_wall E\<rparr>) ts
          else ts @ [manifest_row E m scope i], s1))"

definition findWorkflowTemplate :: "ident \<Rightarrow> string \<Rightarrow> int \<Rightarrow> template_row list \<Rightarrow> template_row option" where
  "findWorkflowTemplate org key version ts = find (same_version org key version) ts"

definition in_use_status :: "workflow_status \<Rightarrow> bool" where
  "in_use_status st \<longleftrightarrow> st = WDraft \<or> st = WActive"

definition isTemplateInUse :: "ident \<Rightarrow> db \<Rightarrow> bool" where
  "isTemplateInUse tid s \<longleftrightarrow>
     list_ex (\<lambda>w. w_sourceTemplateId w = Some tid \<and> in_use_status (w_status w)) (db_workflows s)"

definition arePackageTemplatesInUse :: "ident \<Rightarrow> string \<Rightarrow> template_row list \<Rightarrow> db \<Rightarrow> bool" where
  "arePackageTemplatesInUse org pkg ts s \<longleftrightarrow>
     list_ex (\<lambda>w. in_use_status (w_status w)
                  \<and> list_ex (\<lambda>t. w_sourceTemplateId w = Some (tp_id t) \<and> tp_orgId t = org \<and> tp_packageName t = Some pkg) ts)
       (db_workflows s)"

definition deleteWorkflowTemplate :: "ident \<Rightarrow> template_row list \<Rightarrow> db \<Rightarrow> bool \<times> template_row list" where
  "deleteWorkflowTemplate tid ts s =
     (if isTemplateInUse tid s then (False, ts) else (True, delete_where (\<lambda>t. tp_id t = tid) ts))"

section \<open>Approvals\<close>

text \<open>\<open>(notification_state ->> 'solicitedAt') IS NOT NULL\<close>: present and not the JSON null.\<close>

definition solicited_in_sql :: "approval_row \<Rightarrow> bool" where
  "solicited_in_sql ap \<longleftrightarrow> non_null (map_of (nullish (ap_notificationState ap) []) ''solicitedAt'') \<noteq> None"

definition decidable :: "approval_row \<Rightarrow> bool" where
  "decidable ap \<longleftrightarrow> ap_status ap = ApPending \<and> ap_invalidatedAt ap = None \<and> solicited_in_sql ap"

record decide_input =
  de_approvalId :: ident
  de_decidedBy :: ident
  de_approve :: bool
  de_reason :: "string option"

datatype decide_result =
    Decided (dr_workflowId: ident) (dr_taskId: ident) (dr_rejectionPolicy: "string option")
  | DecideRefused string

definition find_approval :: "db \<Rightarrow> ident \<Rightarrow> approval_row option" where
  "find_approval s aid = find (\<lambda>a. ap_id a = aid) (db_approvals s)"

definition decided_policy :: "bool \<Rightarrow> string option \<Rightarrow> string" where
  "decided_policy approve rp = (if approve then ''needs_revision'' else nullish rp ''needs_revision'')"

definition decided_status :: "bool \<Rightarrow> string option \<Rightarrow> approval_status" where
  "decided_status approve rp =
     (if approve then ApGranted
      else if decided_policy approve rp = ''needs_revision'' then ApNeedsRevision else ApRejected)"

text \<open>The transaction; \<open>rp\<close> is the rejection policy read before the lock was taken.\<close>

definition decide_write :: "env \<Rightarrow> decide_input \<Rightarrow> string option \<Rightarrow> db \<Rightarrow> decide_result \<times> db" where
  "decide_write E input rp s =
     (let hit = (\<lambda>a. ap_id a = de_approvalId input \<and> decidable a);
          s1 = s\<lparr>db_approvals := update_where hit
                   (\<lambda>a. a\<lparr>ap_status := decided_status (de_approve input) rp, ap_decidedBy := Some (de_decidedBy input),
                          ap_decidedAt := Some (e_wall E), ap_reason := de_reason input, ap_updatedAt := e_wall E\<rparr>)
                   (db_approvals s)\<rparr>
      in case find hit (db_approvals s) of
           Some row \<Rightarrow>
             (Decided (ap_workflowId row) (ap_taskId row)
                (if de_approve input then None else Some (decided_policy (de_approve input) rp)), s1)
         | None \<Rightarrow>
             (case find_approval s (de_approvalId input) of
                None \<Rightarrow> (DecideRefused ''not_found'', s)
              | Some existing \<Rightarrow>
                  if ap_status existing \<noteq> ApPending then (DecideRefused ''not_pending'', s)
                  else if ap_invalidatedAt existing \<noteq> None then (DecideRefused ''invalidated'', s)
                  else (DecideRefused ''not_opened'', s)))"

definition decideWorkflowApproval :: "env \<Rightarrow> decide_input \<Rightarrow> db \<Rightarrow> decide_result \<times> db" where
  "decideWorkflowApproval E input s =
     (case find_approval s (de_approvalId input) of
        None \<Rightarrow> (DecideRefused ''not_found'', s)
      | Some appr \<Rightarrow> decide_write E input (ap_rejectionPolicy appr) s)"

record pending_summary =
  ps_approvalId :: ident
  ps_workflowId :: ident
  ps_workflowName :: string
  ps_taskId :: ident
  ps_taskKey :: string
  ps_taskTitle :: string
  ps_requiredScope :: json
  ps_deadlineUtc :: "instant option"
  ps_createdAt :: instant

definition summary_of :: "db \<Rightarrow> ident \<Rightarrow> approval_row \<Rightarrow> pending_summary list" where
  "summary_of s org a =
     concat (map (\<lambda>w. map (\<lambda>t.
         \<lparr>ps_approvalId = ap_id a, ps_workflowId = ap_workflowId a, ps_workflowName = w_name w, ps_taskId = ap_taskId a,
          ps_taskKey = t_key t, ps_taskTitle = t_title t, ps_requiredScope = ap_requiredScope a,
          ps_deadlineUtc = ap_deadlineUtc a, ps_createdAt = ap_createdAt a\<rparr>)
       (filter (\<lambda>t. t_id t = ap_taskId a) (db_tasks s)))
     (filter (\<lambda>w. w_id w = ap_workflowId a \<and> w_orgId w = org) (db_workflows s)))"

definition listPendingApprovalsForOrg :: "ident \<Rightarrow> db \<Rightarrow> pending_summary list" where
  "listPendingApprovalsForOrg org s =
     sort_key ps_createdAt (concat (map (summary_of s org) (filter decidable (db_approvals s))))"

definition countPendingWorkflowApprovalsForOrg :: "ident \<Rightarrow> db \<Rightarrow> nat" where
  "countPendingWorkflowApprovalsForOrg org s =
     length (concat (map (\<lambda>a. filter (\<lambda>w. w_id w = ap_workflowId a \<and> w_orgId w = org) (db_workflows s))
       (filter decidable (db_approvals s))))"

definition readApprovalForTask :: "ident \<Rightarrow> ident \<Rightarrow> db \<Rightarrow> approval_row option" where
  "readApprovalForTask wid tid s = find (\<lambda>a. ap_workflowId a = wid \<and> ap_taskId a = tid) (db_approvals s)"

definition persistResolvedApprovers :: "env \<Rightarrow> ident \<Rightarrow> ident list \<Rightarrow> db \<Rightarrow> db" where
  "persistResolvedApprovers E aid users s =
     s\<lparr>db_approvals := update_where (\<lambda>a. ap_id a = aid)
          (\<lambda>a. a\<lparr>ap_resolvedApproverIds := Some users, ap_updatedAt := e_wall E\<rparr>) (db_approvals s)\<rparr>"

section \<open>Status and name\<close>

text \<open>\<open>Inl\<close> is the thrown illegal transition; the row read first is the one of the database \<open>s0\<close>.\<close>

definition updateWorkflowStatusCas ::
  "env \<Rightarrow> ident \<Rightarrow> workflow_status \<Rightarrow> int \<Rightarrow> db \<Rightarrow> db \<Rightarrow> transition_error + bool \<times> db" where
  "updateWorkflowStatusCas E wid toStatus expected s0 s =
     (case find_workflow s0 wid of
        None \<Rightarrow> Inr (False, s)
      | Some current \<Rightarrow>
          if w_lockVersion current \<noteq> expected then Inr (False, s)
          else
            (case assertTransition KWorkflow (workflow_status_text (w_status current)) (workflow_status_text toStatus) of
               Inl e \<Rightarrow> Inl e
             | Inr _ \<Rightarrow> Inr (cas_workflow wid expected (\<lambda>_. True) (set_workflow_status E toStatus expected) s)))"

datatype rename_result = Renamed int | RenameRefused string

definition renameWorkflowCas :: "env \<Rightarrow> ident \<Rightarrow> string \<Rightarrow> int \<Rightarrow> db \<Rightarrow> db \<Rightarrow> rename_result \<times> db" where
  "renameWorkflowCas E wid newName expected s0 s =
     (let trimmed = js_trim newName
      in if trimmed = [] then (RenameRefused ''invalid_name'', s)
         else
           (case find_workflow s0 wid of
              None \<Rightarrow> (RenameRefused ''not_found'', s)
            | Some current \<Rightarrow>
                if w_lockVersion current \<noteq> expected then (RenameRefused ''stale'', s)
                else
                  (let (won, s1) = cas_workflow wid expected (\<lambda>_. True)
                         (\<lambda>w. w\<lparr>w_name := trimmed, w_lockVersion := expected + 1, w_updatedAt := e_wall E\<rparr>) s
                   in (if won then Renamed (expected + 1) else RenameRefused ''stale'', s1))))"

section \<open>Lists\<close>

record workflow_window =
  ww_workflowId :: ident
  ww_start :: "instant option"
  ww_end :: "instant option"

definition min_date :: "instant list \<Rightarrow> instant option" where
  "min_date xs = (case xs of [] \<Rightarrow> None | x # ys \<Rightarrow> Some (fold min ys x))"

definition max_date :: "instant list \<Rightarrow> instant option" where
  "max_date xs = (case xs of [] \<Rightarrow> None | x # ys \<Rightarrow> Some (fold max ys x))"

text \<open>\<open>GROUP BY workflow_id\<close>: one row per workflow that has a task.\<close>

definition listWorkflowWindows :: "ident list \<Rightarrow> db \<Rightarrow> workflow_window list" where
  "listWorkflowWindows wids s =
     (let ts = filter (\<lambda>t. t_workflowId t \<in> set wids) (db_tasks s)
      in map (\<lambda>w. \<lparr>ww_workflowId = w,
                   ww_start = min_date (List.map_filter t_plannedStartUtc (filter (\<lambda>t. t_workflowId t = w) ts)),
                   ww_end = max_date (List.map_filter t_plannedEndUtc (filter (\<lambda>t. t_workflowId t = w) ts))\<rparr>)
           (remdups (map t_workflowId ts)))"

definition listWorkflows :: "ident \<Rightarrow> string option \<Rightarrow> ident option \<Rightarrow> db \<Rightarrow> workflow_row list" where
  "listWorkflows org status project s =
     filter (\<lambda>w. w_orgId w = org
                 \<and> (truthy status \<longrightarrow> status = Some (workflow_status_text (w_status w)))
                 \<and> (truthy project \<longrightarrow> w_projectId w = project)) (db_workflows s)"

text \<open>\<open>ORDER BY created_at DESC LIMIT n\<close>.\<close>

definition newest_events :: "event_row list \<Rightarrow> event_row list" where
  "newest_events es = sort_key (\<lambda>e. - ev_createdAt e) es"

definition listWorkflowEvents :: "ident \<Rightarrow> int \<Rightarrow> db \<Rightarrow> event_row list" where
  "listWorkflowEvents wid limit s =
     take (nat (max 1 (min 500 limit))) (newest_events (filter (\<lambda>e. ev_workflowId e = wid) (db_events s)))"

record hitl_event =
  he_id :: ident
  he_taskKey :: "string option"
  he_childRunId :: "string option"
  he_childRunStatus :: "string option"
  he_createdAt :: instant

definition listAgentHitlEvents :: "ident \<Rightarrow> db \<Rightarrow> hitl_event list" where
  "listAgentHitlEvents wid s =
     map (\<lambda>e. \<lparr>he_id = ev_id e, he_taskKey = ev_taskKey e,
               he_childRunId = Option.bind (ev_payload e) (\<lambda>p. get_str p ''childRunId''),
               he_childRunStatus = Option.bind (ev_payload e) (\<lambda>p. get_str p ''status''),
               he_createdAt = ev_createdAt e\<rparr>)
       (newest_events (filter (\<lambda>e. ev_workflowId e = wid \<and> ev_kind e = ''agent_hitl'') (db_events s)))"

definition listWorkflowArtifacts :: "ident \<Rightarrow> ident option \<Rightarrow> db \<Rightarrow> artifact_row list" where
  "listWorkflowArtifacts wid tid s =
     filter (\<lambda>a. ar_workflowId a = wid \<and> (truthy tid \<longrightarrow> Some (ar_taskId a) = tid)) (db_artifacts s)"

end
