(* ===== verification/Wf_StoreFacts.thy ===== *)
theory Wf_StoreFacts
  imports Wf_StoreEdit Wf_StoreOps Wf_Validation Wf_Engine
begin

text \<open>
  Correctness of the store, \<^verbatim>\<open>packages/workflows/src/store.ts\<close>: decisions on approvals, what the writes of a
  specification leave alone, and optimistic concurrency of the edits.
\<close>

section \<open>Updates are all or nothing\<close>

lemma cas_workflow_lost: "cas_workflow wid v g f s = (False, s') \<Longrightarrow> s' = s"
  using workflow_cas.loser_changes_nothing [of wid v g f "db_workflows s"]
  by (auto simp: cas_workflow_def Let_def split: prod.splits)

lemma map_sum_Inr: "map_sum id f x = Inr y \<longleftrightarrow> (\<exists>z. x = Inr z \<and> y = f z)"
  by (cases x) auto

lemma update_tx_lost: "update_tx E cal input s = Inr (False, s') \<Longrightarrow> s' = s"
  by (auto simp: update_tx_def Let_def map_sum_Inr split: option.splits sum.splits prod.splits if_splits dest: cas_workflow_lost)

lemma cas_workflow_won:
  assumes "cas_workflow wid v g f s = (True, s')"
  shows "s' = s\<lparr>db_workflows := update_where (\<lambda>r. w_id r = wid \<and> w_lockVersion r = v \<and> g r) f (db_workflows s)\<rparr>
    \<and> (\<exists>w \<in> set (db_workflows s). w_id w = wid \<and> w_lockVersion w = v \<and> g w)"
  using assms by (auto simp: cas_workflow_def cas_update_def Let_def list_ex_iff)

lemma update_tx_won:
  assumes "update_tx E cal input s = Inr (True, s')"
  obtains w w' targetAt s1 where "find_workflow s (ui_workflowId input) = Some w"
    "date_column cal (target_at (ui_spec input)) = Inr targetAt"
    "w' \<in> set (db_workflows s)" "w_id w' = ui_workflowId input" "w_lockVersion w' = ui_expectedLockVersion input" "editable w'"
    "s1 = s\<lparr>db_workflows := update_where (\<lambda>r. w_id r = ui_workflowId input \<and> w_lockVersion r = ui_expectedLockVersion input \<and> editable r)
        (updated_workflow E input targetAt) (db_workflows s)\<rparr>"
    "(if w_status w = WPaused then diffApplySpecRows E cal (ui_workflowId input) (ui_spec input) (pinned_dates input s1) s1
      else replace_rows E cal (ui_workflowId input) (ui_spec input) (pinned_dates input s1) s1) = Inr s'"
proof -
  obtain w where w: "find_workflow s (ui_workflowId input) = Some w"
    using assms by (auto simp: update_tx_def Let_def split: option.splits)
  obtain targetAt where t: "date_column cal (target_at (ui_spec input)) = Inr targetAt"
    using assms w by (auto simp: update_tx_def Let_def split: sum.splits)
  obtain won s1 where c: "cas_workflow (ui_workflowId input) (ui_expectedLockVersion input) editable (updated_workflow E input targetAt) s = (won, s1)"
    by fastforce
  have won: "won" using assms w t c by (auto simp: update_tx_def Let_def split: if_splits)
  then have "map_sum id (Pair True)
      (if w_status w = WPaused then diffApplySpecRows E cal (ui_workflowId input) (ui_spec input) (pinned_dates input s1) s1
      else replace_rows E cal (ui_workflowId input) (ui_spec input) (pinned_dates input s1) s1) = Inr (True, s')"
    using assms w t c by (simp add: update_tx_def Let_def)
  then have r: "(if w_status w = WPaused then diffApplySpecRows E cal (ui_workflowId input) (ui_spec input) (pinned_dates input s1) s1
      else replace_rows E cal (ui_workflowId input) (ui_spec input) (pinned_dates input s1) s1) = Inr s'"
    by (cases "if w_status w = WPaused then diffApplySpecRows E cal (ui_workflowId input) (ui_spec input) (pinned_dates input s1) s1
      else replace_rows E cal (ui_workflowId input) (ui_spec input) (pinned_dates input s1) s1") simp_all
  show ?thesis
    using cas_workflow_won [of "ui_workflowId input"  "ui_expectedLockVersion input" editable "updated_workflow E input targetAt" s s1] c won w t r by (auto intro: that)
qed

lemma run_all_invariant:
  "run_all f xs s = Inr s' \<Longrightarrow> P s \<Longrightarrow> (\<And>x s s'. x \<in> set xs \<Longrightarrow> P s \<Longrightarrow> f x s = Inr s' \<Longrightarrow> P s') \<Longrightarrow> P s'"
proof (induction xs arbitrary: s)
  case (Cons x xs)
  then obtain s1 where "f x s = Inr s1" "run_all f xs s1 = Inr s'" by (auto split: sum.splits)
  moreover from this have "P s1" using Cons.prems(2,3) by auto
  ultimately show ?case using Cons.IH [of s1] Cons.prems(3) by auto
qed simp

section \<open>Decisions on approvals\<close>

lemma find_the_only: "a \<in> set xs \<Longrightarrow> P a \<Longrightarrow> \<forall>r \<in> set xs. P r \<longrightarrow> r = a \<Longrightarrow> find P xs = Some a"
proof (cases "find P xs")
  case (Some y)
  assume only: "\<forall>r \<in> set xs. P r \<longrightarrow> r = a"
  from Some have "y \<in> set xs" "P y" unfolding find_Some_iff by (blast intro: nth_mem, blast)
  with only Some show ?thesis by blast
next
  case None
  assume "a \<in> set xs" "P a"
  with None show ?thesis unfolding find_None_iff by blast
qed

lemma find_unique: "a \<in> set xs \<Longrightarrow> P a \<Longrightarrow> (\<And>r. r \<in> set xs \<Longrightarrow> P r \<Longrightarrow> r = a) \<Longrightarrow> find P xs = Some a"
  by (rule find_the_only) blast+

text \<open>
  C22. An approval can be decided exactly while it is in the inbox of its organization: opened, pending and not
  invalidated. The decision then changes this row only, to granted, needs-revision or rejected as the policy
  says, and a second decision on it, by whomever, is refused. In every other case the decision is refused
  and nothing changes.
\<close>

theorem approval_decision:
  assumes "distinct (map ap_id (db_approvals s))" and "a \<in> set (db_approvals s)" and "ap_id a = de_approvalId input"
    and "w \<in> set (db_workflows s)" and "w_id w = ap_workflowId a"
    and "t \<in> set (db_tasks s)" and "t_id t = ap_taskId a"
  shows "(ap_id a \<in> ps_approvalId ` set (listPendingApprovalsForOrg (w_orgId w) s) \<longleftrightarrow> decidable a)
    \<and> (if decidable a
       then \<exists>s'. decideWorkflowApproval E input s =
              (Decided (ap_workflowId a) (ap_taskId a)
                 (if de_approve input then None else Some (nullish (ap_rejectionPolicy a) ''needs_revision'')), s')
            \<and> s' = s\<lparr>db_approvals := map (\<lambda>r. if r = a
                then a\<lparr>ap_status := (if de_approve input then ApGranted
                                      else if nullish (ap_rejectionPolicy a) ''needs_revision'' = ''needs_revision'' then ApNeedsRevision
                                      else ApRejected),
                       ap_decidedBy := Some (de_decidedBy input), ap_decidedAt := Some (e_wall E),
                       ap_reason := de_reason input, ap_updatedAt := e_wall E\<rparr>
                else r) (db_approvals s)\<rparr>
            \<and> (\<forall>E' input'. de_approvalId input' = de_approvalId input \<longrightarrow>
                 decideWorkflowApproval E' input' s' = (DecideRefused ''not_pending'', s'))
       else \<exists>r. decideWorkflowApproval E input s = (DecideRefused r, s))"
proof -
  have uniq: "r = a" if "r \<in> set (db_approvals s)" "ap_id r = ap_id a" for r
    using assms(1,2) that by (simp add: distinct_map inj_on_def)
  define d where "d r = r\<lparr>ap_status := decided_status (de_approve input) (ap_rejectionPolicy a), ap_decidedBy := Some (de_decidedBy input),
    ap_decidedAt := Some (e_wall E), ap_reason := de_reason input, ap_updatedAt := e_wall E\<rparr>" for r :: approval_row
  have found: "find_approval s (de_approvalId input) = Some a"
    unfolding find_approval_def
  proof (rule find_unique)
    show "r = a" if "r \<in> set (db_approvals s)" "ap_id r = de_approvalId input" for r
      by (rule uniq) (use that assms(3) in simp_all)
  qed (use assms(2,3) in simp_all)
  have inbox: "ap_id a \<in> ps_approvalId ` set (listPendingApprovalsForOrg (w_orgId w) s) \<longleftrightarrow> decidable a"
  proof
    assume "ap_id a \<in> ps_approvalId ` set (listPendingApprovalsForOrg (w_orgId w) s)"
    then obtain r where "r \<in> set (db_approvals s)" "decidable r" "ap_id r = ap_id a"
      by (auto simp: listPendingApprovalsForOrg_def summary_of_def)
    with uniq show "decidable a" by blast
  next
    assume d: "decidable a"
    define p where "p = \<lparr>ps_approvalId = ap_id a, ps_workflowId = ap_workflowId a, ps_workflowName = w_name w, ps_taskId = ap_taskId a,
      ps_taskKey = t_key t, ps_taskTitle = t_title t, ps_requiredScope = ap_requiredScope a,
      ps_deadlineUtc = ap_deadlineUtc a, ps_createdAt = ap_createdAt a\<rparr>"
    have "p \<in> set (summary_of s (w_orgId w) a)" using assms(4-7) by (auto simp: summary_of_def p_def)
    then have "p \<in> set (listPendingApprovalsForOrg (w_orgId w) s)"
      using d assms(2) by (auto simp: listPendingApprovalsForOrg_def)
    moreover have "ps_approvalId p = ap_id a" by (simp add: p_def)
    ultimately show "ap_id a \<in> ps_approvalId ` set (listPendingApprovalsForOrg (w_orgId w) s)" by force
  qed
  show ?thesis
  proof (cases "decidable a")
    case True
    have hit: "find (\<lambda>r. ap_id r = de_approvalId input \<and> decidable r) (db_approvals s) = Some a"
    proof (rule find_unique)
      show "r = a" if "r \<in> set (db_approvals s)" "ap_id r = de_approvalId input \<and> decidable r" for r
        by (rule uniq) (use that assms(3) in simp_all)
    qed (use assms(2,3) True in simp_all)
    define s' where "s' = s\<lparr>db_approvals := map (\<lambda>r. if r = a then d a else r) (db_approvals s)\<rparr>"
    have rows: "update_where (\<lambda>r. ap_id r = de_approvalId input \<and> decidable r) d (db_approvals s) = map (\<lambda>r. if r = a then d a else r) (db_approvals s)"
      unfolding update_where_def
    proof (rule map_cong [OF refl])
      fix r assume "r \<in> set (db_approvals s)"
      then have "ap_id r = de_approvalId input \<longleftrightarrow> r = a" using uniq [of r] assms(3) by metis
      then show "(if ap_id r = de_approvalId input \<and> decidable r then d r else r) = (if r = a then d a else r)"
        using True by auto
    qed
    have first: "decideWorkflowApproval E input s =
        (Decided (ap_workflowId a) (ap_taskId a) (if de_approve input then None else Some (nullish (ap_rejectionPolicy a) ''needs_revision'')), s')"
      using found hit rows by (simp add: decideWorkflowApproval_def decide_write_def Let_def d_def [abs_def] s'_def decided_policy_def)
    have da: "ap_id (d a) = ap_id a" "ap_status (d a) \<noteq> ApPending"
      by (simp_all add: d_def decided_status_def)
    have found': "find_approval s' (de_approvalId input) = Some (d a)"
      unfolding find_approval_def
    proof (rule find_unique)
      have "(if a = a then d a else a) \<in> set (db_approvals s')" using assms(2) unfolding s'_def by force
      then show "d a \<in> set (db_approvals s')" by simp
      show "ap_id (d a) = de_approvalId input" using da assms(3) by simp
      fix r assume r: "r \<in> set (db_approvals s')" "ap_id r = de_approvalId input"
      then obtain x where x: "x \<in> set (db_approvals s)" "r = (if x = a then d a else x)" by (auto simp: s'_def)
      then have "x = a" using uniq [of x] r(2) da assms(3) by (metis)
      with x show "r = d a" by simp
    qed
    have "find (\<lambda>r. ap_id r = de_approvalId input \<and> decidable r) (db_approvals s') = None"
      unfolding find_None_iff
    proof (rule notI, elim bexE exE conjE)
      fix r assume r: "r \<in> set (db_approvals s')" "ap_id r = de_approvalId input" "decidable r"
      then obtain x where x: "x \<in> set (db_approvals s)" "r = (if x = a then d a else x)" by (auto simp: s'_def)
      then have "x = a" using uniq [of x] r(2) da assms(3) by (metis)
      with x r(3) da show False by (simp add: decidable_def)
    qed
    then have "decideWorkflowApproval E' input' s' = (DecideRefused ''not_pending'', s')" if "de_approvalId input' = de_approvalId input" for E' input'
      using found' da that by (simp add: decideWorkflowApproval_def decide_write_def Let_def)
    moreover have "d a = a\<lparr>ap_status := (if de_approve input then ApGranted
        else if nullish (ap_rejectionPolicy a) ''needs_revision'' = ''needs_revision'' then ApNeedsRevision else ApRejected),
        ap_decidedBy := Some (de_decidedBy input), ap_decidedAt := Some (e_wall E), ap_reason := de_reason input, ap_updatedAt := e_wall E\<rparr>"
      by (simp add: d_def decided_status_def decided_policy_def)
    ultimately show ?thesis using inbox True first s'_def by auto
  next
    case False
    have "find (\<lambda>r. ap_id r = de_approvalId input \<and> decidable r) (db_approvals s) = None"
      unfolding find_None_iff using uniq assms(3) False by metis
    with found inbox False show ?thesis by (simp add: decideWorkflowApproval_def decide_write_def Let_def)
  qed
qed

definition demo_asked :: db where
  "demo_asked = demo_leased\<lparr>db_approvals :=
     [(new_approval ''ap'' ''w'' ''a'' JNull)\<lparr>ap_notificationState := Some [(''solicitedAt'', JNum 0)]\<rparr>]\<rparr>"

definition demo_decision :: "bool \<Rightarrow> decide_input" where
  "demo_decision b = \<lparr>de_approvalId = ''ap'', de_decidedBy = ''u'', de_approve = b, de_reason = None\<rparr>"

theorem approval_decision_witness:
  "\<exists>s'. decideWorkflowApproval (demo_env 3) (demo_decision True) demo_asked = (Decided ''w'' ''a'' None, s')
     \<and> map ap_status (db_approvals s') = [ApGranted]
     \<and> decideWorkflowApproval (demo_env 4) (demo_decision False) s' = (DecideRefused ''not_pending'', s')"
proof -
  define a where "a = (new_approval ''ap'' ''w'' ''a'' JNull)\<lparr>ap_notificationState := Some [(''solicitedAt'', JNum 0)]\<rparr>"
  have rows: "db_approvals demo_asked = [a]" by (simp add: demo_asked_def a_def)
  have a: "ap_id a = ''ap''" "ap_workflowId a = ''w''" "ap_taskId a = ''a''" "decidable a"
    by (simp_all add: a_def new_approval_def decidable_def solicited_in_sql_def non_null_def)
  have w: "(new_workflow ''w'' ''o'')\<lparr>w_status := WActive\<rparr> \<in> set (db_workflows demo_asked)"
    and t: "(new_task ''a'' ''w'' ''a'' ''checkpoint'')\<lparr>t_status := TRunning\<rparr> \<in> set (db_tasks demo_asked)"
    by (simp_all add: demo_asked_def demo_leased_def demo_ready_def)
  note apply_it = approval_decision [OF _ _ _ w _ t, of a "demo_decision True" "demo_env 3"]
  have "distinct (map ap_id (db_approvals demo_asked))" "a \<in> set (db_approvals demo_asked)" "ap_id a = de_approvalId (demo_decision True)"
    by (simp_all add: rows a demo_decision_def)
  from apply_it [OF this] obtain s' where
    "decideWorkflowApproval (demo_env 3) (demo_decision True) demo_asked = (Decided ''w'' ''a'' None, s')"
    "map ap_status (db_approvals s') = [ApGranted]"
    "\<forall>E' input'. de_approvalId input' = de_approvalId (demo_decision True) \<longrightarrow> decideWorkflowApproval E' input' s' = (DecideRefused ''not_pending'', s')"
    by (auto simp: a rows demo_decision_def new_workflow_def new_task_def)
  then show ?thesis by (auto simp: demo_decision_def)
qed

section \<open>What the writes leave alone\<close>

definition same_history :: "db \<Rightarrow> db \<Rightarrow> bool" where
  "same_history s s' \<longleftrightarrow>
     db_workflows s' = db_workflows s \<and> db_attempts s' = db_attempts s \<and> db_artifacts s' = db_artifacts s
     \<and> db_events s' = db_events s"

lemma same_history_refl [simp]: "same_history s s"
  by (simp add: same_history_def)

lemma same_history_trans [trans]: "same_history a b \<Longrightarrow> same_history b c \<Longrightarrow> same_history a c"
  by (simp add: same_history_def)

lemma same_history_updates [simp]:
  "same_history s (s\<lparr>db_tasks := ts\<rparr>)" "same_history s (s\<lparr>db_deps := ds\<rparr>)"
  "same_history s (s\<lparr>db_approvals := as\<rparr>)" "same_history s (s\<lparr>db_uuids := n\<rparr>)"
  by (simp_all add: same_history_def)

lemma new_id_state: "new_id E p s = (i, s') \<Longrightarrow> i = p @ ''_'' @ e_uuid E (db_uuids s) \<and> s' = s\<lparr>db_uuids := Suc (db_uuids s)\<rparr>"
  by (auto simp: new_id_def randomUUID_def)

lemma run_all_history:
  assumes "run_all f xs s = Inr s'" and "\<And>x a b. f x a = Inr b \<Longrightarrow> same_history a b"
  shows "same_history s s'"
proof (rule run_all_invariant [OF assms(1), of "same_history s"])
  show "same_history s b" if "same_history s a" "f x a = Inr b" for x a b
    by (rule same_history_trans [OF that(1) assms(2) [OF that(2)]])
qed simp

lemma draw_ids_history: "draw_ids E ts s = (ids, s') \<Longrightarrow> same_history s s'"
proof (induction ts arbitrary: s s' ids)
  case (Cons t ts)
  obtain i s1 where i: "new_id E ''wtask'' s = (i, s1)" by fastforce
  obtain r s2 where r: "draw_ids E ts s1 = (r, s2)" by fastforce
  have "same_history s s1" using new_id_state [OF i] by simp
  moreover have "same_history s1 s2" by (rule Cons.IH [OF r])
  moreover have "s' = s2" using Cons.prems i r by simp
  ultimately show ?case using same_history_trans by blast
qed simp

lemma kept_or_new_ids_history: "kept_or_new_ids E old ts s = (ids, s') \<Longrightarrow> same_history s s'"
proof (induction ts arbitrary: s s' ids)
  case (Cons t ts)
  obtain i s1 where i: "(case old (task_key t) of Some r \<Rightarrow> (t_id r, s) | None \<Rightarrow> new_id E ''wtask'' s) = (i, s1)" by fastforce
  obtain r s2 where r: "kept_or_new_ids E old ts s1 = (r, s2)" by fastforce
  have "same_history s s1" using i new_id_state [of E "''wtask''" s i s1] by (auto split: option.splits)
  moreover have "same_history s1 s2" by (rule Cons.IH [OF r])
  moreover have "s' = s2" using Cons.prems i r by simp
  ultimately show ?case using same_history_trans by blast
qed simp

lemma insert_task_history: "insert_task row s = Inr s' \<Longrightarrow> same_history s s'"
  by (auto simp: insert_task_def split: if_splits)

lemma set_parent_history [simp]: "same_history s (set_parent m p t s)"
  by (simp add: set_parent_def)

lemma insert_parent_history: "insert_parent m t s = Inr s' \<Longrightarrow> same_history s s'"
  by (auto simp: insert_parent_def split: option.splits if_splits)

lemma apply_parent_history: "apply_parent m t s = Inr s' \<Longrightarrow> same_history s s'"
  by (auto simp: apply_parent_def split: option.splits if_splits)

lemma apply_task_history: "apply_task E cal wid res old m t s = Inr s' \<Longrightarrow> same_history s s'"
  by (auto simp: apply_task_def Let_def split: option.splits dest: insert_task_history)

lemma insert_spec_dep_history: "insert_spec_dep E wid m t d s = Inr s' \<Longrightarrow> same_history s s'"
  by (auto simp: insert_spec_dep_def new_id_def randomUUID_def Let_def same_history_def split: option.splits if_splits)

lemma insert_spec_approval_history: "insert_spec_approval E cal wid m t s = Inr s' \<Longrightarrow> same_history s s'"
  by (auto simp: insert_spec_approval_def new_id_def randomUUID_def Let_def same_history_def split: sum.splits if_splits)

lemma apply_approval_history: "apply_approval E cal wid spec m old oap t s = Inr s' \<Longrightarrow> same_history s s'"
  unfolding apply_approval_def by (auto split: if_splits option.splits sum.splits dest: insert_spec_approval_history)

lemma insert_links_history: "insert_links E cal wid m t s = Inr s' \<Longrightarrow> same_history s s'"
  unfolding insert_links_def
  by (auto split: sum.splits dest!: insert_spec_approval_history run_all_history intro: same_history_trans insert_spec_dep_history)

lemma apply_links_history: "apply_links E cal wid spec m old oap t s = Inr s' \<Longrightarrow> same_history s s'"
  unfolding apply_links_def
  by (auto split: sum.splits dest!: apply_approval_history run_all_history intro: same_history_trans insert_spec_dep_history)

lemma delete_tasks_history: "delete_tasks P s = Inr s' \<Longrightarrow> same_history s s'"
  unfolding delete_tasks_def Let_def by (split if_split_asm) (auto simp: same_history_def)

lemma delete_links_history [simp]: "same_history s (delete_deps wid s)" "same_history s (delete_approvals wid s)"
  by (simp_all add: delete_deps_def delete_approvals_def)

lemma insertSpecRows_history:
  assumes "insertSpecRows E cal wid spec fz s = Inr s'"
  shows "same_history s s'"
proof -
  obtain ids s1 where ids: "draw_ids E (spec_tasks spec) s = (ids, s1)" by fastforce
  from assms ids obtain res s2 s3 where
    "run_all (\<lambda>t. insert_task (inserted_task E cal wid res (nullish (js_map ids (task_key t)) []) t)) (spec_tasks spec) s1 = Inr s2"
    "run_all (insert_parent (js_map ids)) (spec_tasks spec) s2 = Inr s3"
    "run_all (insert_links E cal wid (js_map ids)) (spec_tasks spec) s3 = Inr s'"
    unfolding insertSpecRows_def Let_def by (auto split: sum.splits)
  note steps = this
  have "same_history s s1" by (rule draw_ids_history [OF ids])
  also have "same_history s1 s2" by (rule run_all_history [OF steps(1) insert_task_history])
  also have "same_history s2 s3" by (rule run_all_history [OF steps(2) insert_parent_history])
  also have "same_history s3 s'" by (rule run_all_history [OF steps(3) insert_links_history])
  finally show ?thesis .
qed

lemma diff_writes_steps:
  assumes "diff_writes E cal wid spec res s = Inr s'"
  obtains s1 ids s2 s3 s4 where
    "run_all (\<lambda>t. delete_tasks (\<lambda>r. t_id r = t_id t)) (removed_tasks s wid spec) (delete_approvals wid (delete_deps wid s)) = Inr s1"
    "kept_or_new_ids E (old_by_key s wid) (spec_tasks spec) s1 = (ids, s2)"
    "run_all (apply_task E cal wid res (old_by_key s wid) (js_map ids)) (spec_tasks spec) s2 = Inr s3"
    "run_all (apply_parent (js_map ids)) (spec_tasks spec) s3 = Inr s4"
    "run_all (apply_links E cal wid spec (js_map ids) (old_by_key s wid) (old_approval s wid)) (spec_tasks spec) s4 = Inr s'"
  using assms unfolding diff_writes_def Let_def by (auto split: sum.splits prod.splits)

lemma diff_writes_history:
  assumes "diff_writes E cal wid spec res s = Inr s'"
  shows "same_history s s'"
proof -
  from assms obtain s1 ids s2 s3 s4 where
    steps: "run_all (\<lambda>t. delete_tasks (\<lambda>r. t_id r = t_id t)) (removed_tasks s wid spec) (delete_approvals wid (delete_deps wid s)) = Inr s1"
    "kept_or_new_ids E (old_by_key s wid) (spec_tasks spec) s1 = (ids, s2)"
    "run_all (apply_task E cal wid res (old_by_key s wid) (js_map ids)) (spec_tasks spec) s2 = Inr s3"
    "run_all (apply_parent (js_map ids)) (spec_tasks spec) s3 = Inr s4"
    "run_all (apply_links E cal wid spec (js_map ids) (old_by_key s wid) (old_approval s wid)) (spec_tasks spec) s4 = Inr s'"
    by (rule diff_writes_steps)
  have "same_history s (delete_deps wid s)" by simp
  also have "same_history (delete_deps wid s) (delete_approvals wid (delete_deps wid s))" by simp
  also have "same_history (delete_approvals wid (delete_deps wid s)) s1" by (rule run_all_history [OF steps(1) delete_tasks_history])
  also have "same_history s1 s2" by (rule kept_or_new_ids_history [OF steps(2)])
  also have "same_history s2 s3" by (rule run_all_history [OF steps(3) apply_task_history])
  also have "same_history s3 s4" by (rule run_all_history [OF steps(4) apply_parent_history])
  also have "same_history s4 s'" by (rule run_all_history [OF steps(5) apply_links_history])
  finally show ?thesis .
qed

lemma diffApply_history: "diffApplySpecRows E cal wid spec fz s = Inr s' \<Longrightarrow> same_history s s'"
  unfolding diffApplySpecRows_def by (auto split: sum.splits dest: diff_writes_history)

lemma replace_rows_history: "replace_rows E cal wid spec fz s = Inr s' \<Longrightarrow> same_history s s'"
  unfolding replace_rows_def
  by (auto split: sum.splits dest!: delete_tasks_history insertSpecRows_history
      intro: same_history_trans delete_links_history)

section \<open>Optimistic concurrency\<close>

lemma update_tx_history:
  assumes "update_tx E cal input s = Inr (True, s')"
  obtains targetAt where "db_workflows s' =
      update_where (\<lambda>r. w_id r = ui_workflowId input \<and> w_lockVersion r = ui_expectedLockVersion input \<and> editable r)
        (updated_workflow E input targetAt) (db_workflows s)"
    "db_attempts s' = db_attempts s" "db_artifacts s' = db_artifacts s" "db_events s' = db_events s"
    "\<exists>w \<in> set (db_workflows s). w_id w = ui_workflowId input \<and> w_lockVersion w = ui_expectedLockVersion input \<and> editable w"
proof -
  from assms obtain w w' targetAt s1 where
    "find_workflow s (ui_workflowId input) = Some w" "date_column cal (target_at (ui_spec input)) = Inr targetAt"
    and w': "w' \<in> set (db_workflows s)" "w_id w' = ui_workflowId input" "w_lockVersion w' = ui_expectedLockVersion input" "editable w'"
    and s1: "s1 = s\<lparr>db_workflows := update_where (\<lambda>r. w_id r = ui_workflowId input \<and> w_lockVersion r = ui_expectedLockVersion input \<and> editable r)
        (updated_workflow E input targetAt) (db_workflows s)\<rparr>"
    and rows: "(if w_status w = WPaused then diffApplySpecRows E cal (ui_workflowId input) (ui_spec input) (pinned_dates input s1) s1
      else replace_rows E cal (ui_workflowId input) (ui_spec input) (pinned_dates input s1) s1) = Inr s'"
    by (rule update_tx_won)
  have "same_history s1 s'"
    using rows diffApply_history replace_rows_history by (cases "w_status w = WPaused") simp_all
  then show thesis using that [of targetAt] w' s1 by (auto simp: same_history_def)
qed

lemma update_result_cases:
  assumes "updateWorkflowDraftSpec E cal input s0 s = (r, s')"
  obtains (ok) "r = UpdateOk (ui_expectedLockVersion input + 1)" "update_tx E cal input s = Inr (True, s')" "update_precheck input s0 = None"
  | (refused) x where "r = UpdateRefused x" "s' = s"
  | (threw) e where "r = UpdateThrew e" "s' = s"
proof (cases "update_precheck input s0")
  case None
  show thesis
  proof (cases "update_tx E cal input s")
    case (Inl e)
    with assms None show thesis by (cases e) (auto simp: updateWorkflowDraftSpec_def intro: refused threw)
  next
    case (Inr y)
    obtain won s1 where y: "y = (won, s1)" by fastforce
    show thesis
    proof (cases won)
      case True
      with assms None Inr y show thesis by (auto simp: updateWorkflowDraftSpec_def intro: ok)
    next
      case False
      then have "s1 = s" using Inr y update_tx_lost by simp
      with assms None Inr y False show thesis by (auto simp: updateWorkflowDraftSpec_def intro: refused)
    qed
  qed
qed (use assms refused in \<open>auto simp: updateWorkflowDraftSpec_def\<close>)

lemma unique_workflow:
  "distinct (map w_id ws) \<Longrightarrow> w \<in> set ws \<Longrightarrow> find (\<lambda>r. w_id r = w_id w) ws = Some w"
proof (rule find_the_only)
  assume d: "distinct (map w_id ws)" and w: "w \<in> set ws"
  show "\<forall>r \<in> set ws. w_id r = w_id w \<longrightarrow> r = w" using inj_onD [OF distinct_map [THEN iffD1, OF d, THEN conjunct2]] w by blast
qed simp_all

text \<open>
  C8. Lost updates are impossible: an edit of a draft or paused workflow succeeds only on the version it expects, it
  then moves the row of this workflow to the next version and leaves its status, the rows of the other workflows and the history alone, and from
  then on every edit that expects the old version fails without any effect, whatever it read before. An edit
  that does not succeed changes nothing.
\<close>

theorem no_lost_update:
  assumes "distinct (map w_id (db_workflows s))" and "updateWorkflowDraftSpec E cal input s0 s = (r, s')"
  shows "(case r of
      UpdateOk v \<Rightarrow>
        v = ui_expectedLockVersion input + 1
        \<and> (\<exists>w w'. find_workflow s (ui_workflowId input) = Some w \<and> editable w \<and> w_lockVersion w = ui_expectedLockVersion input
             \<and> find_workflow s' (ui_workflowId input) = Some w' \<and> w_lockVersion w' = v \<and> w_status w' = w_status w)
        \<and> (\<forall>w. w_id w \<noteq> ui_workflowId input \<longrightarrow> (w \<in> set (db_workflows s') \<longleftrightarrow> w \<in> set (db_workflows s)))
        \<and> db_attempts s' = db_attempts s \<and> db_artifacts s' = db_artifacts s \<and> db_events s' = db_events s
        \<and> (\<forall>E' cal' input' s0' r' s''. ui_workflowId input' = ui_workflowId input
             \<and> ui_expectedLockVersion input' = ui_expectedLockVersion input
             \<and> updateWorkflowDraftSpec E' cal' input' s0' s' = (r', s'') \<longrightarrow> s'' = s' \<and> (\<forall>u. r' \<noteq> UpdateOk u))
    | _ \<Rightarrow> s' = s)"
  using assms(2)
proof (cases rule: update_result_cases)
  case ok
  let ?wid = "ui_workflowId input" and ?v = "ui_expectedLockVersion input"
  from ok(2) obtain targetAt where ws: "db_workflows s' =
      update_where (\<lambda>r. w_id r = ?wid \<and> w_lockVersion r = ?v \<and> editable r) (updated_workflow E input targetAt) (db_workflows s)"
    and hist: "db_attempts s' = db_attempts s" "db_artifacts s' = db_artifacts s" "db_events s' = db_events s"
    and won: "\<exists>w \<in> set (db_workflows s). w_id w = ?wid \<and> w_lockVersion w = ?v \<and> editable w"
    by (rule update_tx_history)
  define f where "f r = (if w_id r = ?wid \<and> w_lockVersion r = ?v \<and> editable r then updated_workflow E input targetAt r else r)" for r
  have img: "db_workflows s' = map f (db_workflows s)" by (simp add: ws update_where_def f_def)
  have f: "w_id (f r) = w_id r" "w_status (f r) = w_status r" "w_id r \<noteq> ?wid \<Longrightarrow> f r = r" for r
    by (simp_all add: f_def updated_workflow_def)
  from won obtain w where w: "w \<in> set (db_workflows s)" "w_id w = ?wid" "w_lockVersion w = ?v" "editable w" by blast
  have fw: "w_lockVersion (f w) = ?v + 1" using w by (simp add: f_def updated_workflow_def)
  have d': "distinct (map w_id (db_workflows s'))" using assms(1) by (simp add: img comp_def f)
  have found: "find_workflow s ?wid = Some w" using unique_workflow [OF assms(1) w(1)] w(2) by (simp add: find_workflow_def)
  have found': "find_workflow s' ?wid = Some (f w)"
    using unique_workflow [OF d', of "f w"] w(1,2) f by (simp add: find_workflow_def img)
  have others: "w \<in> set (db_workflows s') \<longleftrightarrow> w \<in> set (db_workflows s)" if "w_id w \<noteq> ?wid" for w
    using that f(1,3) by (auto simp: img image_iff) metis
  have later: "s'' = s' \<and> (\<forall>u. r' \<noteq> UpdateOk u)"
    if same: "ui_workflowId input' = ?wid" "ui_expectedLockVersion input' = ?v"
      and run: "updateWorkflowDraftSpec E' cal' input' s0' s' = (r', s'')" for E' cal' input' s0' r' s''
    using run
  proof (cases rule: update_result_cases)
    case ok
    from ok(2) obtain x where x: "x \<in> set (db_workflows s')" "w_id x = ?wid" "w_lockVersion x = ?v"
      using same by (elim update_tx_history) auto
    then have "find_workflow s' ?wid = Some x" using unique_workflow [OF d' x(1)] by (simp add: find_workflow_def)
    with found' fw x(3) show ?thesis by simp
  qed simp_all
  have later_all: "\<forall>E' cal' input' s0' r' s''. ui_workflowId input' = ?wid \<and> ui_expectedLockVersion input' = ?v
      \<and> updateWorkflowDraftSpec E' cal' input' s0' s' = (r', s'') \<longrightarrow> s'' = s' \<and> (\<forall>u. r' \<noteq> UpdateOk u)"
    using later by blast
  show ?thesis
    unfolding ok(1) update_result.case
  proof (intro conjI)
    show "\<exists>w w'. find_workflow s ?wid = Some w \<and> editable w \<and> w_lockVersion w = ?v
        \<and> find_workflow s' ?wid = Some w' \<and> w_lockVersion w' = ?v + 1 \<and> w_status w' = w_status w"
      using found found' fw w(3,4) f(2) by blast
  qed (use others hist later_all in blast)+
qed simp_all

section \<open>A workflow with one task\<close>

definition solo_task :: task_spec where
  "solo_task = JObj [(''key'', JStr ''a''), (''type'', JStr ''checkpoint''), (''title'', JStr ''A'')]"

definition solo_spec :: workflow_spec where
  "solo_spec = JObj [(''name'', JStr ''n''), (''tasks'', JArr [solo_task])]"

lemma solo_fields [simp]:
  "spec_tasks solo_spec = [solo_task]" "task_key solo_task = ''a''" "task_type solo_task = ''checkpoint''" "task_title solo_task = ''A''"
  "task_parent solo_task = None" "task_schedule solo_task = None" "task_pinned solo_task = False" "task_deps solo_task = []"
  "spec_keys solo_spec = [''a'']" "target_at solo_spec = None" "target_tz solo_spec = None" "get_str solo_spec ''name'' = Some ''n''"
  "get_str solo_spec ''product'' = None"
  by (simp_all add: solo_spec_def solo_task_def spec_tasks_def get_list_def get_def task_key_def get_str_def task_type_def task_title_def
      task_parent_def task_schedule_def task_pinned_def get_true_def task_deps_def spec_keys_def target_at_def target_tz_def)

lemma solo_graph [simp]: "by_key solo_spec = [''a'' \<mapsto> solo_task]" "children_of solo_spec k = []"
  by (simp_all add: by_key_def js_map_def children_of_def)

lemma solo_cols:
  "buildCols cal [''a'' \<mapsto> stamp u] solo_task row =
     row\<lparr>t_key := ''a'', t_type := ''checkpoint'', t_title := ''A'', t_assigneeLevel := None, t_assigneeId := None,
         t_agentPackage := None, t_agentRef := None, t_input := None, t_schedule := None, t_anchor := None,
         t_plannedStartUtc := dateParse cal (toISOString u), t_plannedEndUtc := dateParse cal (toISOString u),
         t_dueAtUtc := dateParse cal (toISOString u), t_required := True, t_failurePolicy := None, t_missedWindowPolicy := None,
         t_retryPolicy := None, t_maxAttempts := None, t_cancelPolicy := None, t_pinned := False, t_risk := None, t_foreachConfig := None\<rparr>"
  by (simp add: buildCols_def Let_def agent_only_def date_of_def stamp_def anchor_column_def policy_of_def int_column_def spec_foreach_def)
    (simp add: solo_task_def get_def get_str_def non_null_def)

lemma solo_leaf:
  assumes "ro_frozenDueAt opts ''a'' = None \<and> u = now \<or> (\<exists>x. ro_frozenDueAt opts ''a'' = Some (FrozenBar x x x) \<and> dateParse cal x = Some u)"
    and "ro_targetAtUtc opts = None"
  shows "leaf_bars (make_resolver cal now solo_spec opts) = [''a'' \<mapsto> point u]"
  using assms by (auto simp: leaf_bars_def resolve_all_def resolveDueMs.simps make_resolver_def Let_def schedule_at_def finish_def applyBar_def
      frozen_bar_def point_def)

lemma solo_resolved:
  assumes "ro_frozenDueAt opts ''a'' = None \<and> u = now \<or> (\<exists>x. ro_frozenDueAt opts ''a'' = Some (FrozenBar x x x) \<and> dateParse cal x = Some u)"
    and "ro_targetAtUtc opts = None"
  obtains ws where "resolveSchedule cal now solo_spec opts = Inr \<lparr>rr_tasks = [''a'' \<mapsto> stamp u], rr_warnings = ws\<rparr>"
proof -
  have "resolved_bars (make_resolver cal now solo_spec opts) = leaf_bars (make_resolver cal now solo_spec opts)"
    by (rule ext) (rule childless_bar, simp)
  then have bars: "parent_windows solo_spec (rs_memo (resolve_all (make_resolver cal now solo_spec opts) \<lparr>rs_memo = Map.empty, rs_warnings = []\<rparr>)) =
      [''a'' \<mapsto> point u]"
    using solo_leaf [OF assms] by (simp add: resolved_bars_def make_resolver_def)
  have shown: "bar_text (point t) = Some (stamp t)" for t by (simp add: bar_text_def point_def stamp_def)
  show ?thesis
    by (rule that) (simp add: resolveSchedule_def Let_def bars shown js_map_def)
qed

definition solo_update :: update_input where
  "solo_update = \<lparr>ui_workflowId = ''w'', ui_spec = solo_spec, ui_name = None, ui_product = None,
     ui_expectedLockVersion = 0, ui_excludeFromFreeze = []\<rparr>"

definition demo_draft :: db where
  "demo_draft = empty_db\<lparr>db_workflows := [new_workflow ''w'' ''o''], db_tasks := [new_task ''x'' ''w'' ''x'' ''checkpoint'']\<rparr>"

lemma solo_update_fields [simp]:
  "ui_workflowId solo_update = ''w''" "ui_spec solo_update = solo_spec" "ui_expectedLockVersion solo_update = 0"
  "ui_name solo_update = None" "ui_product solo_update = None" "pinned_dates solo_update s = Map.empty"
  by (simp_all add: solo_update_def pinned_dates_def js_map_def List.map_filter_def Let_def)

lemma solo_task_bare [simp]: "task_type solo_task \<noteq> ''approval''"
  by simp

lemma solo_inserted:
  assumes "db_tasks s = []"
  shows "\<exists>s'. insertSpecRows (demo_env 5) plain_calendar wid solo_spec Map.empty s = Inr s' \<and> map t_key (db_tasks s') = [''a'']"
proof -
  obtain ws where r: "resolveSchedule plain_calendar 5 solo_spec \<lparr>ro_targetAtUtc = None, ro_frozenDueAt = Map.empty\<rparr> =
      Inr \<lparr>rr_tasks = [''a'' \<mapsto> stamp 5], rr_warnings = ws\<rparr>"
    by (rule solo_resolved [of "\<lparr>ro_targetAtUtc = None, ro_frozenDueAt = Map.empty\<rparr>" 5 5 plain_calendar]) auto
  have now: "e_wall (demo_env 5) = 5" by (simp add: demo_env_def)
  have ids: "draw_ids (demo_env 5) [solo_task] s =
      ([(''a'', ''wtask_'' @ show_nat (db_uuids s))], s\<lparr>db_uuids := Suc (db_uuids s)\<rparr>)"
    by (simp add: Let_def new_id_def randomUUID_def demo_env_def)
  show ?thesis
    by (simp add: insertSpecRows_def r now ids Let_def js_map_def insert_task_def assms insert_parent_def insert_links_def
        insert_spec_approval_def inserted_task_def solo_cols new_task_def
        del: draw_ids.simps)
qed

text \<open>The update succeeds on a draft without history whose rows are all of the workflow.\<close>

lemma fresh_draft_update:
  assumes w0: "db_workflows s = [w0]" "w_id w0 = ''w''" "w_lockVersion w0 = 0" "w_status w0 = WDraft"
    and bare: "list_all (\<lambda>t. t_workflowId t = ''w'') (db_tasks s)" "db_attempts s = []" "db_artifacts s = []" "db_approvals s = []"
  shows "\<exists>s'. updateWorkflowDraftSpec (demo_env 5) plain_calendar solo_update s s = (UpdateOk 1, s')
     \<and> map t_key (db_tasks s') = [''a'']"
proof -
  define s1 where "s1 = s\<lparr>db_workflows := update_where (\<lambda>r. w_id r = ''w'' \<and> w_lockVersion r = 0 \<and> editable r)
      (updated_workflow (demo_env 5) solo_update None) (db_workflows s)\<rparr>"
  have w: "find_workflow s ''w'' = Some w0" using w0 by (simp add: find_workflow_def)
  have ed: "editable w0" using w0 by (simp add: editable_def)
  have cas: "cas_workflow ''w'' 0 editable (updated_workflow (demo_env 5) solo_update None) s = (True, s1)"
    by (simp add: cas_workflow_def cas_update_def Let_def s1_def w0 ed)
  define s2 where "s2 = s1\<lparr>db_tasks := [], db_deps := delete_where (\<lambda>d. d_taskId d \<in> set (map t_id (db_tasks s)) \<or> d_dependsOnTaskId d \<in> set (map t_id (db_tasks s))) (db_deps s),
      db_gates := delete_where (\<lambda>g. gr_taskId g \<in> set (map t_id (db_tasks s))) (db_gates s),
      db_leases := delete_where (\<lambda>l. l_taskId l \<in> set (map t_id (db_tasks s))) (db_leases s)\<rparr>"
  have all: "filter (\<lambda>t. t_workflowId t = ''w'') (db_tasks s) = db_tasks s" "delete_where (\<lambda>t. t_workflowId t = ''w'') (db_tasks s) = []"
    using bare(1) by (simp_all add: list_all_iff delete_where_def filter_id_conv filter_empty_conv)
  have "delete_approvals ''w'' s1 = s1" by (simp add: delete_approvals_def s1_def bare(4) delete_where_def)
  then have "delete_tasks (\<lambda>t. t_workflowId t = ''w'') (delete_approvals ''w'' s1) = Inr s2"
    by (simp add: delete_tasks_def s1_def s2_def bare(2-4) all)
  moreover obtain s' where "insertSpecRows (demo_env 5) plain_calendar ''w'' solo_spec Map.empty s2 = Inr s'" "map t_key (db_tasks s') = [''a'']"
    using solo_inserted [of s2 "''w''"] by (auto simp: s2_def)
  ultimately have rows: "replace_rows (demo_env 5) plain_calendar ''w'' solo_spec Map.empty s1 = Inr s'" "map t_key (db_tasks s') = [''a'']"
    by (simp_all add: replace_rows_def)
  have "update_tx (demo_env 5) plain_calendar solo_update s = Inr (True, s')"
    by (simp add: update_tx_def w date_column_def cas w0 rows)
  then show ?thesis
    using rows(2) by (simp add: updateWorkflowDraftSpec_def update_precheck_def w ed w0)
qed

lemma draft_update:
  "\<exists>s'. updateWorkflowDraftSpec (demo_env 5) plain_calendar solo_update demo_draft demo_draft = (UpdateOk 1, s')
     \<and> map t_key (db_tasks s') = [''a'']"
  by (rule fresh_draft_update [of _ "new_workflow ''w'' ''o''"])
    (simp_all add: demo_draft_def empty_db_def new_workflow_def new_task_def)

theorem no_lost_update_witness:
  "\<exists>s'. fst (updateWorkflowDraftSpec (demo_env 5) plain_calendar solo_update demo_draft demo_draft) = UpdateOk 1
     \<and> s' = snd (updateWorkflowDraftSpec (demo_env 5) plain_calendar solo_update demo_draft demo_draft)
     \<and> snd (updateWorkflowDraftSpec (demo_env 7) plain_calendar solo_update demo_draft s') = s'"
proof -
  obtain s' where run: "updateWorkflowDraftSpec (demo_env 5) plain_calendar solo_update demo_draft demo_draft = (UpdateOk 1, s')"
    using draft_update by blast
  have d: "distinct (map w_id (db_workflows demo_draft))" by (simp add: demo_draft_def)
  obtain r s'' where again: "updateWorkflowDraftSpec (demo_env 7) plain_calendar solo_update demo_draft s' = (r, s'')" by fastforce
  from no_lost_update [OF d run]
  have "\<forall>E' cal' input' s0' r' s''. ui_workflowId input' = ui_workflowId solo_update
      \<and> ui_expectedLockVersion input' = ui_expectedLockVersion solo_update
      \<and> updateWorkflowDraftSpec E' cal' input' s0' s' = (r', s'') \<longrightarrow> s'' = s' \<and> (\<forall>u. r' \<noteq> UpdateOk u)"
    unfolding update_result.case by (elim conjE)
  with again have "s'' = s'" by blast
  with run again show ?thesis by simp
qed

end
