(* ===== verification/Wf_StoreHistory.thy ===== *)
theory Wf_StoreHistory
  imports Wf_StoreFacts
begin

text \<open>
  Edits of a paused workflow, \<^verbatim>\<open>diffApplySpecRows\<close> of \<^verbatim>\<open>packages/workflows/src/store.ts\<close>: the rows, edges and
  dates of a task with history survive. The row is followed through the steps of the application
  (removal, update or insertion, parents, links) by the invariant \<open>kept_in\<close>.
\<close>

section \<open>The maps over the old rows\<close>

lemma js_map_SomeD: "js_map kvs k = Some v \<Longrightarrow> (k, v) \<in> set kvs"
  unfolding js_map_def by (auto dest: map_of_SomeD)

lemma js_map_const: "(k, v) \<in> set kvs \<Longrightarrow> \<forall>w. (k, w) \<in> set kvs \<longrightarrow> w = v \<Longrightarrow> js_map kvs k = Some v"
proof (cases "js_map kvs k")
  case None
  assume "(k, v) \<in> set kvs"
  then have "k \<in> fst ` set kvs" using image_eqI [of k fst "(k, v)" "set kvs"] by simp
  with None show ?thesis by (simp add: js_map_def map_of_eq_None_iff)
next
  case (Some w)
  assume "\<forall>w. (k, w) \<in> set kvs \<longrightarrow> w = v"
  with js_map_SomeD [OF Some] Some show ?thesis by blast
qed

lemma old_by_key_Some: "old_by_key s wid k = Some t \<Longrightarrow> t \<in> set (db_tasks s) \<and> t_workflowId t = wid \<and> t_key t = k"
  by (auto simp: old_by_key_def tasks_of_def dest!: js_map_SomeD)

lemma old_by_key_unique:
  assumes "distinct (map t_key (tasks_of s wid))" and "t \<in> set (db_tasks s)" and "t_workflowId t = wid"
  shows "old_by_key s wid (t_key t) = Some t"
  unfolding old_by_key_def
proof (rule js_map_const)
  have t: "t \<in> set (tasks_of s wid)" using assms(2,3) by (simp add: tasks_of_def)
  then show "(t_key t, t) \<in> set (map (\<lambda>t. (t_key t, t)) (tasks_of s wid))" by auto
  show "\<forall>w. (t_key t, w) \<in> set (map (\<lambda>t. (t_key t, t)) (tasks_of s wid)) \<longrightarrow> w = t"
    using assms(1) t by (auto simp: distinct_map inj_on_def)
qed

lemma old_by_id_unique:
  assumes "distinct (map t_id (db_tasks s))" and "t \<in> set (db_tasks s)" and "t_workflowId t = wid"
  shows "old_by_id s wid (t_id t) = Some t"
  unfolding old_by_id_def
proof (rule js_map_const)
  have t: "t \<in> set (tasks_of s wid)" using assms(2,3) by (simp add: tasks_of_def)
  then show "(t_id t, t) \<in> set (map (\<lambda>t. (t_id t, t)) (tasks_of s wid))" by auto
  show "\<forall>w. (t_id t, w) \<in> set (map (\<lambda>t. (t_id t, t)) (tasks_of s wid)) \<longrightarrow> w = t"
    using assms(1,2) by (auto simp: distinct_map inj_on_def tasks_of_def)
qed

lemma first_error_None: "first_error f xs = None \<longleftrightarrow> (\<forall>x \<in> set xs. f x = None)"
  by (induction xs) (auto split: option.splits)

text \<open>The identifiers an in-place edit works with: the old one of a kept key, a fresh one of a new key.\<close>

lemma kept_or_new_ids_old:
  assumes "kept_or_new_ids E old ts s = (ids, s')" and "(k, i) \<in> set ids"
  shows "k \<in> set (map task_key ts) \<and> (case old k of Some r \<Rightarrow> i = t_id r | None \<Rightarrow> \<exists>n. i = ''wtask_'' @ e_uuid E n)"
  using assms
proof (induction ts arbitrary: s ids s')
  case (Cons t ts)
  obtain j s1 where j: "(case old (task_key t) of Some r \<Rightarrow> (t_id r, s) | None \<Rightarrow> new_id E ''wtask'' s) = (j, s1)" by fastforce
  obtain r s2 where r: "kept_or_new_ids E old ts s1 = (r, s2)" by fastforce
  have ids: "ids = (task_key t, j) # r" using Cons.prems j r by simp
  have here: "case old (task_key t) of Some r \<Rightarrow> j = t_id r | None \<Rightarrow> \<exists>n. j = ''wtask_'' @ e_uuid E n"
    using j new_id_state [of E "''wtask''" s j s1] by (auto split: option.splits)
  show ?case
  proof (cases "(k, i) = (task_key t, j)")
    case True
    with here show ?thesis by (auto split: option.splits)
  next
    case False
    then have "(k, i) \<in> set r" using Cons.prems(2) ids by auto
    from Cons.IH [OF r this] show ?thesis by simp
  qed
qed simp

lemma kept_or_new_ids_keys: "kept_or_new_ids E old ts s = (ids, s') \<Longrightarrow> map fst ids = map task_key ts"
proof (induction ts arbitrary: s ids s')
  case (Cons t ts)
  obtain j s1 where j: "(case old (task_key t) of Some r \<Rightarrow> (t_id r, s) | None \<Rightarrow> new_id E ''wtask'' s) = (j, s1)" by fastforce
  obtain r s2 where r: "kept_or_new_ids E old ts s1 = (r, s2)" by fastforce
  show ?case using Cons.prems Cons.IH [OF r] j r by auto
qed simp

text \<open>A row is kept: nothing of it has changed but its name, owner, dates and parent.\<close>

definition run_data :: "task_row \<Rightarrow> ident \<times> ident \<times> string \<times> task_status \<times> instant option \<times> instant option \<times> ident option \<times> instant" where
  "run_data t = (t_id t, t_workflowId t, t_key t, t_status t, t_actualStartUtc t, t_actualEndUtc t, t_runId t, t_createdAt t)"

definition dates :: "task_row \<Rightarrow> instant option \<times> instant option \<times> instant option" where
  "dates t = (t_dueAtUtc t, t_plannedStartUtc t, t_plannedEndUtc t)"

definition kept_row :: "bool \<Rightarrow> task_row \<Rightarrow> task_row \<Rightarrow> bool" where
  "kept_row D t r \<longleftrightarrow>
     run_data r = run_data t \<and> map canonicalize (FROZEN_TASK_IDENTITY r) = map canonicalize (FROZEN_TASK_IDENTITY t)
     \<and> (D \<longrightarrow> dates r = dates t)"

lemma buildCols_identity: "FROZEN_TASK_IDENTITY (buildCols cal res t r) = FROZEN_TASK_IDENTITY (buildCols cal res t r')"
  by (simp add: FROZEN_TASK_IDENTITY_def buildCols_def Let_def)

lemma buildCols_run_data: "task_key t = t_key r \<Longrightarrow> run_data (buildCols cal res t r) = run_data r"
  by (simp add: run_data_def buildCols_def Let_def)

lemma kept_row_parent [simp]: "kept_row D t (r\<lparr>t_parentTaskId := p\<rparr>) = kept_row D t r"
  by (simp add: kept_row_def run_data_def FROZEN_TASK_IDENTITY_def dates_def)

lemma kept_row_stamp [simp]: "kept_row D t (r\<lparr>t_lockVersion := v, t_updatedAt := u\<rparr>) = kept_row D t r"
  by (simp add: kept_row_def run_data_def FROZEN_TASK_IDENTITY_def dates_def)

lemma kept_row_refl [simp]: "kept_row D t t"
  by (simp add: kept_row_def)

definition kept_in :: "bool \<Rightarrow> task_row \<Rightarrow> db \<Rightarrow> bool" where
  "kept_in D t s \<longleftrightarrow> (\<exists>r \<in> set (db_tasks s). kept_row D t r)"

lemma kept_in_update_where:
  assumes "kept_in D t s" and "\<And>r. kept_row D t r \<Longrightarrow> P r \<Longrightarrow> kept_row D t (f r)"
  shows "kept_in D t (s\<lparr>db_tasks := update_where P f (db_tasks s)\<rparr>)"
proof -
  from assms(1) obtain r where "r \<in> set (db_tasks s)" "kept_row D t r" by (auto simp: kept_in_def)
  then have "(if P r then f r else r) \<in> set (update_where P f (db_tasks s))" "kept_row D t (if P r then f r else r)"
    using assms(2) by (auto simp: set_update_where)
  then show ?thesis by (auto simp: kept_in_def)
qed

lemma kept_in_same_tasks: "db_tasks s' = db_tasks s \<Longrightarrow> kept_in D t s \<Longrightarrow> kept_in D t s'"
  by (simp add: kept_in_def)

section \<open>Frozen dates\<close>

lemma resolve_frozen:
  assumes "rv_frozen R k = Some f"
  shows "(rs_memo (snd (resolveDueMs R key stack st)) k = rs_memo st k
            \<or> rs_memo (snd (resolveDueMs R key stack st)) k = Some (frozen_bar (rv_cal R) f))
         \<and> (key = k \<and> rs_memo st k = None \<longrightarrow> rs_memo (snd (resolveDueMs R key stack st)) k = Some (frozen_bar (rv_cal R) f))"
  using assms
proof (induction R key stack st rule: resolveDueMs.induct)
  case (1 R key stack st)
  show ?case
  proof (cases "rs_memo st key \<noteq> None \<or> rv_frozen R key \<noteq> None")
    case True
    with 1(2) show ?thesis by (subst (1 2 3) resolveDueMs.simps) (auto simp: finish_def split: option.splits)
  next
    case False
    then have k: "key \<noteq> k" using 1(2) by auto
    show ?thesis
    proof (cases "\<exists>a off dir lt c. schedule_at R key = Some (RelativeSchedule a off dir lt c) \<and> a \<noteq> TARGET_ANCHOR \<and> key \<notin> set stack")
      case True
      then obtain a off dir lt c where sch: "schedule_at R key = Some (RelativeSchedule a off dir lt c)" "a \<noteq> TARGET_ANCHOR" "key \<notin> set stack" by blast
      obtain x st1 where r: "resolveDueMs R a (key # stack) st = (x, st1)" by fastforce
      have IH: "rs_memo st1 k = rs_memo st k \<or> rs_memo st1 k = Some (frozen_bar (rv_cal R) f)"
        using 1(1) [of "schedule_at R key" "tzOf (rv_spec R) (schedule_at R key)" "RelativeSchedule a off dir lt c" a off dir lt c] False sch 1(2) r by simp
      have "rs_memo (snd (resolveDueMs R key stack st)) k = rs_memo st1 k"
        using False sch r k by (subst resolveDueMs.simps) (simp add: Let_def finish_def split: prod.splits)
      with IH k show ?thesis by simp
    next
      case no: False
      have "rs_memo (snd (resolveDueMs R key stack st)) k = rs_memo st k"
        using False no k by (subst resolveDueMs.simps) (auto simp: Let_def finish_def split: option.splits schedule_spec.splits prod.splits if_splits)
      with k show ?thesis by simp
    qed
  qed
qed

lemma resolve_all_frozen:
  assumes "rv_frozen R k = Some f" and "k \<in> set (spec_keys (rv_spec R))"
  shows "leaf_bars R k = Some (frozen_bar (rv_cal R) f)"
proof -
  let ?fb = "Some (frozen_bar (rv_cal R) f)"
  have "rs_memo (fold (\<lambda>t st. snd (resolveDueMs R (task_key t) [] st)) ts st) k = ?fb"
    if "rs_memo st k = ?fb \<or> rs_memo st k = None \<and> k \<in> set (map task_key ts)" for ts st
    using that
  proof (induction ts arbitrary: st)
    case (Cons t ts)
    have "rs_memo (snd (resolveDueMs R (task_key t) [] st)) k = ?fb
        \<or> rs_memo (snd (resolveDueMs R (task_key t) [] st)) k = None \<and> k \<in> set (map task_key ts)"
      using resolve_frozen [OF assms(1), of "task_key t" "[]" st] Cons.prems by auto
    then show ?case using Cons.IH by simp
  qed simp
  then show ?thesis using assms(2) by (simp add: leaf_bars_def resolve_all_def spec_keys_def)
qed

definition in_range :: "instant \<Rightarrow> bool" where
  "in_range t \<longleftrightarrow> 0 \<le> fst (civil_of_days (t div 86400000)) \<and> fst (civil_of_days (t div 86400000)) \<le> 9999"

lemma dateParse_toISOString: "in_range t \<Longrightarrow> dateParse cal (toISOString t) = Some t"
  by (simp add: dateParse_def in_range_def iso_parse_toISOString)

lemma frozen_leaf_dates:
  assumes "resolveSchedule cal now spec opts = Inr res" and "k \<in> set (spec_keys spec)" and "children_of spec k = []"
    and "ro_frozenDueAt opts k = Some (FrozenBar (toISOString d) (toISOString a) (toISOString b))"
    and "in_range d" "in_range a" "in_range b"
  shows "date_of cal rt_dueAtUtc (rr_tasks res k) = Some d" "date_of cal rt_plannedStartUtc (rr_tasks res k) = Some a"
    "date_of cal rt_plannedEndUtc (rr_tasks res k) = Some b"
proof -
  let ?R = "make_resolver cal now spec opts"
  have "resolved_bars ?R k = leaf_bars ?R k" using childless_bar [of ?R k] assms(3) by simp
  also have "\<dots> = Some \<lparr>bar_start = Some a, bar_end = Some b, bar_due = Some d\<rparr>"
    using resolve_all_frozen [of ?R k] assms(2,4-7) by (simp add: frozen_bar_def dateParse_toISOString)
  finally have "rr_tasks res k = Some \<lparr>rt_plannedStartUtc = toISOString a, rt_plannedEndUtc = toISOString b, rt_dueAtUtc = toISOString d\<rparr>"
    using resolveSchedule_rows [OF assms(1,2)] by (simp add: bar_text_def)
  then show "date_of cal rt_dueAtUtc (rr_tasks res k) = Some d" "date_of cal rt_plannedStartUtc (rr_tasks res k) = Some a"
    "date_of cal rt_plannedEndUtc (rr_tasks res k) = Some b"
    using assms(5-7) by (simp_all add: date_of_def dateParse_toISOString)
qed

text \<open>The dates handed to the resolver: those of the pins given, and of the frozen tasks.\<close>

lemma frozen_dates_kept:
  assumes "distinct (map t_key (tasks_of s wid))" and "t \<in> set (tasks_of s wid)" and "t_dueAtUtc t = Some due"
    and "t_key t \<in> set (spec_keys spec)" and "isFrozen s wid t (old_approval s wid (t_key t))"
    and "fz (t_key t) = None \<or> fz (t_key t) = Some (frozen_tuple t due)"
  shows "frozen_dates s wid spec fz (t_key t) = Some (frozen_tuple t due)"
proof -
  have only: "o' = t" if "o' \<in> set (tasks_of s wid)" "t_key o' = t_key t" for o'
    using assms(1,2) that by (simp add: distinct_map inj_on_def)
  have "fold (freeze_kept s wid (spec_keys spec)) ts g (t_key t) = Some (frozen_tuple t due)"
    if "set ts \<subseteq> set (tasks_of s wid)" "g (t_key t) = Some (frozen_tuple t due) \<or> g (t_key t) = None \<and> t \<in> set ts" for ts g
    using that
  proof (induction ts arbitrary: g)
    case (Cons o' ts)
    have other: "freeze_kept s wid (spec_keys spec) o' g (t_key t) = g (t_key t)" if "o' \<noteq> t"
      using only [of o'] Cons.prems(1) that by (auto simp: freeze_kept_def split: option.splits)
    have self: "freeze_kept s wid (spec_keys spec) t g (t_key t) = Some (frozen_tuple t due)"
      if "g (t_key t) = Some (frozen_tuple t due) \<or> g (t_key t) = None"
      using that assms(3-5) by (auto simp: freeze_kept_def)
    have "freeze_kept s wid (spec_keys spec) o' g (t_key t) = Some (frozen_tuple t due)
        \<or> freeze_kept s wid (spec_keys spec) o' g (t_key t) = None \<and> t \<in> set ts"
      using Cons.prems(2) other self by (cases "o' = t") auto
    then show ?case using Cons.IH Cons.prems(1) by simp
  qed simp
  then show ?thesis unfolding frozen_dates_def using assms(2,6) by blast
qed

lemma pinned_dates_of:
  assumes "distinct (map t_key (tasks_of s (ui_workflowId input)))" and "t \<in> set (tasks_of s (ui_workflowId input))" and "t_dueAtUtc t = Some due"
  shows "pinned_dates input s (t_key t) = None \<or> pinned_dates input s (t_key t) = Some (frozen_tuple t due)"
proof -
  have "v = frozen_tuple t due" if "pinned_dates input s (t_key t) = Some v" for v
  proof -
    have "\<exists>r \<in> set (tasks_of s (ui_workflowId input)). t_key r = t_key t \<and> (\<exists>u. t_dueAtUtc r = Some u \<and> v = frozen_tuple r u)"
      using that unfolding pinned_dates_def Let_def
      by (auto dest!: js_map_SomeD simp: mem_map_filter split: if_splits) blast
    then obtain r where "r \<in> set (tasks_of s (ui_workflowId input))" "t_key r = t_key t" "\<exists>u. t_dueAtUtc r = Some u \<and> v = frozen_tuple r u"
      by blast
    moreover from this have "r = t" using assms(1,2) by (simp add: distinct_map inj_on_def)
    ultimately show ?thesis using assms(3) by auto
  qed
  then show ?thesis by (cases "pinned_dates input s (t_key t)") auto
qed

section \<open>Edges\<close>

lemma edge_text_inj: "edge_text k oc = edge_text k' oc' \<longleftrightarrow> k = k' \<and> oc = oc'"
proof
  assume eq: "edge_text k oc = edge_text k' oc'"
  have "takeWhile (\<lambda>c. c \<noteq> CHR '':'') (rev (edge_text k oc)) = rev (outcome_text oc)" for k oc
    by (cases oc) (simp_all add: edge_text_def)
  with eq have "rev (outcome_text oc) = rev (outcome_text oc')" by metis
  then have "oc = oc'" by (cases oc; cases oc') simp_all
  with eq show "k = k' \<and> oc = oc'" by (simp add: edge_text_def)
qed simp

section \<open>What an edit of a paused workflow keeps\<close>

lemma kept_in_delete:
  assumes "kept_in D t s" and "delete_tasks (\<lambda>r. t_id r = i) s = Inr s'" and "i \<noteq> t_id t"
  shows "kept_in D t s'"
proof -
  from assms(1) obtain r where r: "r \<in> set (db_tasks s)" "kept_row D t r" by (auto simp: kept_in_def)
  then have "t_id r \<noteq> i" using assms(3) by (simp add: kept_row_def run_data_def)
  let ?g = "\<lambda>t. if (case t_parentTaskId t of Some p \<Rightarrow> p \<in> set (map t_id (filter (\<lambda>r. t_id r = i) (db_tasks s))) | None \<Rightarrow> False)
      then t\<lparr>t_parentTaskId := None\<rparr> else t"
  have "db_tasks s' = map ?g (delete_where (\<lambda>r. t_id r = i) (db_tasks s))"
    using assms(2) unfolding delete_tasks_def Let_def by (split if_split_asm) auto
  then have "?g r \<in> set (db_tasks s')" using r(1) \<open>t_id r \<noteq> i\<close> by (simp add: delete_where_def)
  moreover have "kept_row D t (?g r)" using r(2) by simp
  ultimately show ?thesis by (auto simp: kept_in_def)
qed

lemma kept_in_insert: "kept_in D t s \<Longrightarrow> insert_task row s = Inr s' \<Longrightarrow> kept_in D t s'"
  by (auto simp: insert_task_def kept_in_def split: if_splits)

lemma kept_in_apply_task:
  assumes "kept_in D t s" and "apply_task E cal wid res old idByKey ts s = Inr s'"
    and "\<And>r. r \<in> ran old \<Longrightarrow> t_id r = t_id t \<Longrightarrow> r = t" and "\<And>k r. old k = Some r \<Longrightarrow> t_key r = k \<and> idByKey k = Some (t_id r) \<or> k \<noteq> task_key ts"
    and "task_key ts = t_key t \<Longrightarrow> map canonicalize (FROZEN_TASK_IDENTITY (buildCols cal res ts t)) = map canonicalize (FROZEN_TASK_IDENTITY t)"
    and "D \<Longrightarrow> task_key ts = t_key t \<Longrightarrow> (date_of cal rt_dueAtUtc (res (t_key t)), date_of cal rt_plannedStartUtc (res (t_key t)),
        date_of cal rt_plannedEndUtc (res (t_key t))) = dates t"
  shows "kept_in D t s'"
proof (cases "old (task_key ts)")
  case None
  with assms(1,2) show ?thesis by (auto simp: apply_task_def Let_def intro: kept_in_insert)
next
  case (Some existing)
  have key: "t_key existing = task_key ts" and i: "idByKey (task_key ts) = Some (t_id existing)"
    using assms(4) [OF Some] by auto
  define f where "f r = (buildCols cal res ts r)\<lparr>t_lockVersion := t_lockVersion existing + 1, t_updatedAt := e_wall E\<rparr>" for r
  have s': "s' = s\<lparr>db_tasks := update_where (\<lambda>r. t_id r = t_id existing) f (db_tasks s)\<rparr>"
    using assms(2) Some i by (simp add: apply_task_def f_def [abs_def])
  have "kept_row D t (f r)" if r: "kept_row D t r" "t_id r = t_id existing" for r
  proof -
    have ex: "existing = t" using assms(3) [of existing] Some r by (auto simp: kept_row_def run_data_def ran_def)
    have k: "task_key ts = t_key r" "task_key ts = t_key t" using r(1) key ex by (auto simp: kept_row_def run_data_def)
    have "run_data (buildCols cal res ts r) = run_data t"
      using buildCols_run_data [OF k(1)] r(1) by (simp add: kept_row_def)
    moreover have "map canonicalize (FROZEN_TASK_IDENTITY (buildCols cal res ts r)) = map canonicalize (FROZEN_TASK_IDENTITY t)"
      using assms(5) [OF k(2)] by (simp only: buildCols_identity [of cal res ts r t])
    moreover have "D \<longrightarrow> dates (buildCols cal res ts r) = dates t"
      using assms(6) k(2) by (simp add: dates_def buildCols_def Let_def)
    ultimately have "kept_row D t (buildCols cal res ts r)" by (simp add: kept_row_def)
    then show ?thesis by (simp add: f_def)
  qed
  then show ?thesis unfolding s' using assms(1) by (rule kept_in_update_where [rotated])
qed

lemma kept_in_set_parent: "kept_in D t s \<Longrightarrow> kept_in D t (set_parent m p ts s)"
  unfolding set_parent_def by (rule kept_in_update_where) simp_all

lemma kept_in_apply_parent: "kept_in D t s \<Longrightarrow> apply_parent m ts s = Inr s' \<Longrightarrow> kept_in D t s'"
  by (auto simp: apply_parent_def kept_in_set_parent split: option.splits if_splits)

lemma insert_spec_dep_tasks: "insert_spec_dep E wid m t d s = Inr s' \<Longrightarrow> db_tasks s' = db_tasks s"
  by (auto simp: insert_spec_dep_def new_id_def randomUUID_def Let_def split: option.splits if_splits)

lemma insert_spec_deps_tasks:
  "run_all (insert_spec_dep E wid m t) ds s = Inr s' \<Longrightarrow> db_tasks s' = db_tasks s"
  by (erule run_all_invariant [of _ _ _ _ "\<lambda>x. db_tasks x = db_tasks s"]) (simp_all add: insert_spec_dep_tasks)

lemma apply_approval_frame:
  "apply_approval E cal wid spec m old oap t s = Inr s' \<Longrightarrow> db_tasks s' = db_tasks s \<and> db_deps s' = db_deps s"
  unfolding apply_approval_def insert_spec_approval_def
  by (auto simp: new_id_def randomUUID_def Let_def split: if_splits option.splits sum.splits)

lemma apply_links_tasks: "apply_links E cal wid spec m old oap t s = Inr s' \<Longrightarrow> db_tasks s' = db_tasks s"
  unfolding apply_links_def by (auto split: sum.splits dest!: insert_spec_deps_tasks apply_approval_frame)

text \<open>The dependency rows after the links are inserted.\<close>

definition triple :: "dependency_row \<Rightarrow> ident \<times> ident \<times> dependency_outcome" where
  "triple d = (d_taskId d, d_dependsOnTaskId d, d_outcome d)"

definition link_triples :: "(string \<rightharpoonup> ident) \<Rightarrow> task_spec \<Rightarrow> (ident \<times> ident \<times> dependency_outcome) list" where
  "link_triples m t = map (\<lambda>(k, oc). (nullish (m (task_key t)) [], the (m k), oc)) (task_deps t)"

lemma insert_spec_dep_triple:
  assumes "insert_spec_dep E wid m t d s = Inr s'"
  shows "map triple (deps_of s' wid) = map triple (deps_of s wid) @ [(nullish (m (task_key t)) [], the (m (fst d)), snd d)] \<and> m (fst d) \<noteq> None"
  using assms
  by (auto simp: insert_spec_dep_def new_id_def randomUUID_def Let_def deps_of_def triple_def split: option.splits if_splits)

lemma insert_spec_deps_triples:
  "run_all (insert_spec_dep E wid m t) ds s = Inr s' \<Longrightarrow>
     map triple (deps_of s' wid) = map triple (deps_of s wid) @ map (\<lambda>(k, oc). (nullish (m (task_key t)) [], the (m k), oc)) ds
     \<and> (\<forall>(k, oc) \<in> set ds. m k \<noteq> None)"
proof (induction ds arbitrary: s)
  case (Cons d ds)
  then obtain s1 where s1: "insert_spec_dep E wid m t d s = Inr s1" "run_all (insert_spec_dep E wid m t) ds s1 = Inr s'"
    by (auto split: sum.splits)
  from insert_spec_dep_triple [OF s1(1)] Cons.IH [OF s1(2)] show ?case by (auto split: prod.splits)
qed simp

lemma apply_links_triples:
  assumes "apply_links E cal wid spec m old oap t s = Inr s'"
  shows "map triple (deps_of s' wid) = map triple (deps_of s wid) @ link_triples m t \<and> (\<forall>(k, oc) \<in> set (task_deps t). m k \<noteq> None)"
proof -
  from assms obtain s1 where s1: "run_all (insert_spec_dep E wid m t) (task_deps t) s = Inr s1" "apply_approval E cal wid spec m old oap t s1 = Inr s'"
    by (auto simp: apply_links_def split: sum.splits)
  have "deps_of s' wid = deps_of s1 wid" using apply_approval_frame [OF s1(2)] by (simp add: deps_of_def)
  then show ?thesis using insert_spec_deps_triples [OF s1(1)] by (simp add: link_triples_def)
qed

lemma all_links_triples:
  "run_all (apply_links E cal wid spec m old oap) ts s = Inr s' \<Longrightarrow>
     map triple (deps_of s' wid) = map triple (deps_of s wid) @ concat (map (link_triples m) ts)
     \<and> (\<forall>t \<in> set ts. \<forall>(k, oc) \<in> set (task_deps t). m k \<noteq> None)"
proof (induction ts arbitrary: s)
  case (Cons t ts)
  then obtain s1 where s1: "apply_links E cal wid spec m old oap t s = Inr s1" "run_all (apply_links E cal wid spec m old oap) ts s1 = Inr s'"
    by (auto split: sum.splits)
  from apply_links_triples [OF s1(1)] Cons.IH [OF s1(2)] show ?case by auto
qed simp

lemma no_deps_before_links:
  assumes "run_all (\<lambda>t. delete_tasks (\<lambda>r. t_id r = t_id t)) gone (delete_approvals wid (delete_deps wid s)) = Inr s1"
    and "kept_or_new_ids E old ts s1 = (ids, s2)" and "run_all (apply_task E cal wid res old m) ts s2 = Inr s3"
    and "run_all (apply_parent m) ts s3 = Inr s4"
  shows "deps_of s4 wid = []"
proof -
  have del: "deps_of s' wid = []" if "deps_of s wid = []" "delete_tasks P s = Inr s'" for P s s'
    using that unfolding delete_tasks_def Let_def by (split if_split_asm) (auto simp: deps_of_def delete_where_def filter_empty_conv)
  have "deps_of (delete_approvals wid (delete_deps wid s)) wid = []"
    by (simp add: deps_of_def delete_approvals_def delete_deps_def delete_where_def filter_empty_conv)
  then have "deps_of s1 wid = []" by (rule run_all_invariant [OF assms(1)]) (rule del)
  moreover have "db_deps s2 = db_deps s1" using assms(2)
    by (induction ts arbitrary: s1 ids s2) (auto simp: Let_def new_id_def randomUUID_def split: option.splits prod.splits)
  ultimately have "deps_of s2 wid = []" by (simp add: deps_of_def)
  then have "deps_of s3 wid = []"
    by (rule run_all_invariant [OF assms(3)])
      (auto simp: apply_task_def insert_task_def Let_def deps_of_def split: option.splits if_splits)
  then show ?thesis
    by (rule run_all_invariant [OF assms(4)])
      (auto simp: apply_parent_def set_parent_def deps_of_def split: option.splits if_splits)
qed

lemma diff_checks_frozen:
  assumes "diff_checks E cal wid spec fz s = Inr res" and "distinct (map t_key (tasks_of s wid))"
    and "t \<in> set (tasks_of s wid)" and "isFrozen s wid t (old_approval s wid (t_key t))"
  shows "t_key t \<in> set (spec_keys spec)"
    and "\<And>ts. ts \<in> set (spec_tasks spec) \<Longrightarrow> task_key ts = t_key t \<Longrightarrow>
      map canonicalize (FROZEN_TASK_IDENTITY (buildCols cal res ts t)) = map canonicalize (FROZEN_TASK_IDENTITY t)
      \<and> set (new_edges ts) = set (old_edges s wid (t_id t))"
proof -
  have row: "t \<in> set (db_tasks s)" "t_workflowId t = wid" using assms(3) by (simp_all add: tasks_of_def)
  have checks: "first_error (delete_check s wid) (removed_tasks s wid spec) = None" "first_error (freeze_check cal res s wid) (spec_tasks spec) = None"
    using assms(1) by (auto simp: diff_checks_def split: sum.splits option.splits)
  show "t_key t \<in> set (spec_keys spec)"
  proof (rule ccontr)
    assume "t_key t \<notin> set (spec_keys spec)"
    then have "t \<in> set (removed_tasks s wid spec)" using assms(3) by (simp add: removed_tasks_def)
    with checks(1) have "delete_check s wid t = None" by (simp add: first_error_None)
    with assms(4) show False by (simp add: delete_check_def Let_def split: if_splits)
  qed
  show "map canonicalize (FROZEN_TASK_IDENTITY (buildCols cal res ts t)) = map canonicalize (FROZEN_TASK_IDENTITY t)
      \<and> set (new_edges ts) = set (old_edges s wid (t_id t))"
    if "ts \<in> set (spec_tasks spec)" "task_key ts = t_key t" for ts
  proof -
    have "freeze_check cal res s wid ts = None" using checks(2) that(1) by (simp add: first_error_None)
    moreover have "old_by_key s wid (task_key ts) = Some t" using old_by_key_unique [OF assms(2) row] that(2) by simp
    ultimately show ?thesis using assms(4) that(2) by (simp add: freeze_check_def Let_def split: if_splits)
  qed
qed

lemma idByKey_kept:
  assumes "kept_or_new_ids E old ts s = (ids, s')" and "old k = Some r" and "k \<in> set (map task_key ts)"
  shows "js_map ids k = Some (t_id r)"
proof (rule js_map_const)
  have all: "i = t_id r" if "(k, i) \<in> set ids" for i
    using kept_or_new_ids_old [OF assms(1) that] assms(2) by simp
  then show "\<forall>w. (k, w) \<in> set ids \<longrightarrow> w = t_id r" by blast
  have "k \<in> fst ` set ids" using kept_or_new_ids_keys [OF assms(1)] assms(3) by (metis set_map)
  then show "(k, t_id r) \<in> set ids" using all by auto
qed

lemma kept_or_new_ids_tasks: "kept_or_new_ids E old ts s = (ids, s') \<Longrightarrow> db_tasks s' = db_tasks s"
  by (induction ts arbitrary: s ids s') (auto simp: Let_def new_id_def randomUUID_def split: option.splits prod.splits)

lemma diff_writes_kept:
  assumes "diff_checks E cal wid spec fz s = Inr res" and "diff_writes E cal wid spec res s = Inr s'"
    and "distinct (map t_id (db_tasks s))" and "distinct (map t_key (tasks_of s wid))"
    and "t \<in> set (tasks_of s wid)" and "isFrozen s wid t (old_approval s wid (t_key t))"
    and "D \<Longrightarrow> (date_of cal rt_dueAtUtc (res (t_key t)), date_of cal rt_plannedStartUtc (res (t_key t)),
        date_of cal rt_plannedEndUtc (res (t_key t))) = dates t"
  shows "kept_in D t s'"
proof -
  note frozen = diff_checks_frozen [OF assms(1,4,5,6)]
  have row: "t \<in> set (db_tasks s)" "t_workflowId t = wid" using assms(5) by (simp_all add: tasks_of_def)
  have only: "r = t" if "r \<in> set (db_tasks s)" "t_id r = t_id t" for r
    using assms(3) row(1) that by (simp add: distinct_map inj_on_def)
  from assms(2) obtain s1 ids s2 s3 s4 where
    steps: "run_all (\<lambda>t. delete_tasks (\<lambda>r. t_id r = t_id t)) (removed_tasks s wid spec) (delete_approvals wid (delete_deps wid s)) = Inr s1"
    "kept_or_new_ids E (old_by_key s wid) (spec_tasks spec) s1 = (ids, s2)"
    "run_all (apply_task E cal wid res (old_by_key s wid) (js_map ids)) (spec_tasks spec) s2 = Inr s3"
    "run_all (apply_parent (js_map ids)) (spec_tasks spec) s3 = Inr s4"
    "run_all (apply_links E cal wid spec (js_map ids) (old_by_key s wid) (old_approval s wid)) (spec_tasks spec) s4 = Inr s'"
    by (rule diff_writes_steps)
  have "kept_in D t s" using row(1) by (auto simp: kept_in_def intro: bexI [of _ t])
  then have "kept_in D t (delete_approvals wid (delete_deps wid s))"
    by (rule kept_in_same_tasks [rotated]) (simp add: delete_approvals_def delete_deps_def)
  then have "kept_in D t s1"
  proof (rule run_all_invariant [OF steps(1)])
    fix g a b assume g: "g \<in> set (removed_tasks s wid spec)" "kept_in D t a" "delete_tasks (\<lambda>r. t_id r = t_id g) a = Inr b"
    have "g \<in> set (db_tasks s)" "t_key g \<notin> set (spec_keys spec)" using g(1) by (auto simp: removed_tasks_def tasks_of_def)
    with frozen(1) only [of g] have "t_id g \<noteq> t_id t" by auto
    then show "kept_in D t b" using kept_in_delete [OF g(2,3)] by simp
  qed
  moreover have "db_tasks s2 = db_tasks s1" by (rule kept_or_new_ids_tasks [OF steps(2)])
  ultimately have "kept_in D t s2" using kept_in_same_tasks by blast
  then have "kept_in D t s3"
  proof (rule run_all_invariant [OF steps(3)])
    fix ts a b assume ts: "ts \<in> set (spec_tasks spec)" "kept_in D t a" "apply_task E cal wid res (old_by_key s wid) (js_map ids) ts a = Inr b"
    show "kept_in D t b"
    proof (rule kept_in_apply_task [OF ts(2,3)])
      show "r = t" if "r \<in> ran (old_by_key s wid)" "t_id r = t_id t" for r
        using that only old_by_key_Some by (auto simp: ran_def)
      show "t_key r = k \<and> js_map ids k = Some (t_id r) \<or> k \<noteq> task_key ts" if "old_by_key s wid k = Some r" for k r
        using old_by_key_Some [OF that] idByKey_kept [OF steps(2) that] ts(1) by auto
    qed (use frozen(2) [OF ts(1)] assms(7) in auto)
  qed
  then have "kept_in D t s4" by (rule run_all_invariant [OF steps(4)]) (rule kept_in_apply_parent)
  then show ?thesis
    by (rule run_all_invariant [OF steps(5)]) (rule kept_in_same_tasks [OF apply_links_tasks])
qed

definition out_edges :: "db \<Rightarrow> ident \<Rightarrow> ident \<Rightarrow> (ident \<times> dependency_outcome) set" where
  "out_edges s wid tid = {(on, oc). (tid, on, oc) \<in> set (map triple (deps_of s wid))}"

lemma diff_writes_edges:
  assumes "diff_checks E cal wid spec fz s = Inr res" and "diff_writes E cal wid spec res s = Inr s'"
    and "distinct (map t_id (db_tasks s))" and "distinct (map t_key (tasks_of s wid))"
    and "t \<in> set (tasks_of s wid)" and "isFrozen s wid t (old_approval s wid (t_key t))"
    and fk: "\<forall>d \<in> set (deps_of s wid). \<exists>u \<in> set (tasks_of s wid). t_id u = d_dependsOnTaskId d"
    and fresh: "\<And>n. t_id t \<noteq> ''wtask_'' @ e_uuid E n"
  shows "out_edges s' wid (t_id t) = out_edges s wid (t_id t)"
proof -
  note frozen = diff_checks_frozen [OF assms(1,4,5,6)]
  have row: "t \<in> set (db_tasks s)" "t_workflowId t = wid" using assms(5) by (simp_all add: tasks_of_def)
  have only: "r = t" if "r \<in> set (db_tasks s)" "t_id r = t_id t" for r
    using assms(3) row(1) that by (simp add: distinct_map inj_on_def)
  from assms(2) obtain s1 ids s2 s3 s4 where
    steps: "run_all (\<lambda>t. delete_tasks (\<lambda>r. t_id r = t_id t)) (removed_tasks s wid spec) (delete_approvals wid (delete_deps wid s)) = Inr s1"
    "kept_or_new_ids E (old_by_key s wid) (spec_tasks spec) s1 = (ids, s2)"
    "run_all (apply_task E cal wid res (old_by_key s wid) (js_map ids)) (spec_tasks spec) s2 = Inr s3"
    "run_all (apply_parent (js_map ids)) (spec_tasks spec) s3 = Inr s4"
    "run_all (apply_links E cal wid spec (js_map ids) (old_by_key s wid) (old_approval s wid)) (spec_tasks spec) s4 = Inr s'"
    by (rule diff_writes_steps)
  let ?m = "js_map ids"
  have links: "set (map triple (deps_of s' wid)) = (\<Union>ts \<in> set (spec_tasks spec). set (link_triples ?m ts))"
    using all_links_triples [OF steps(5)] no_deps_before_links [OF steps(1-4)] by simp
  have known: "?m k \<noteq> None" if "ts \<in> set (spec_tasks spec)" "(k, oc) \<in> set (task_deps ts)" for ts k oc
    using all_links_triples [OF steps(5)] that by auto
  text \<open>A specification task with the identifier of the frozen task has its key.\<close>
  have same_key: "task_key ts = t_key t" if ts: "ts \<in> set (spec_tasks spec)" "nullish (?m (task_key ts)) [] = t_id t" for ts
  proof -
    have "task_key ts \<in> fst ` set ids" using kept_or_new_ids_keys [OF steps(2)] ts(1) by (metis image_eqI set_map)
    then obtain i where i: "?m (task_key ts) = Some i" by (cases "?m (task_key ts)") (auto simp: js_map_def map_of_eq_None_iff)
    with ts(2) have "(task_key ts, t_id t) \<in> set ids" using js_map_SomeD by fastforce
    from kept_or_new_ids_old [OF steps(2) this] fresh
    obtain r where "old_by_key s wid (task_key ts) = Some r" "t_id r = t_id t" by (auto split: option.splits)
    with old_by_key_Some only show ?thesis by metis
  qed
  have key_id: "?m (t_key t) = Some (t_id t)"
    using idByKey_kept [OF steps(2) old_by_key_unique [OF assms(4) row]] frozen(1) by (simp add: spec_keys_def)
  text \<open>Old edges as pairs of a task and an outcome.\<close>
  have old: "edge_text k oc \<in> set (old_edges s wid (t_id t)) \<longleftrightarrow>
      (\<exists>u \<in> set (tasks_of s wid). t_key u = k \<and> (t_id u, oc) \<in> out_edges s wid (t_id t))" for k oc
  proof
    assume "edge_text k oc \<in> set (old_edges s wid (t_id t))"
    then obtain d where d: "d \<in> set (deps_of s wid)" "d_taskId d = t_id t"
      "edge_text k oc = edge_text (case old_by_id s wid (d_dependsOnTaskId d) of Some t \<Rightarrow> t_key t | None \<Rightarrow> d_dependsOnTaskId d) (d_outcome d)"
      by (auto simp: old_edges_def)
    obtain u where u: "u \<in> set (tasks_of s wid)" "t_id u = d_dependsOnTaskId d" using fk d(1) by blast
    then have "old_by_id s wid (d_dependsOnTaskId d) = Some u"
      using old_by_id_unique [OF assms(3), of u wid] by (simp add: tasks_of_def)
    then have "k = t_key u" "oc = d_outcome d" using d(3) by (simp_all add: edge_text_inj)
    then show "\<exists>u \<in> set (tasks_of s wid). t_key u = k \<and> (t_id u, oc) \<in> out_edges s wid (t_id t)"
      using u d(1,2) by (force simp: out_edges_def triple_def)
  next
    assume "\<exists>u \<in> set (tasks_of s wid). t_key u = k \<and> (t_id u, oc) \<in> out_edges s wid (t_id t)"
    then obtain u d where u: "u \<in> set (tasks_of s wid)" "t_key u = k" "d \<in> set (deps_of s wid)" "d_taskId d = t_id t"
      "d_dependsOnTaskId d = t_id u" "d_outcome d = oc"
      by (auto simp: out_edges_def triple_def)
    then have "old_by_id s wid (d_dependsOnTaskId d) = Some u"
      using old_by_id_unique [OF assms(3), of u wid] by (simp add: tasks_of_def)
    then show "edge_text k oc \<in> set (old_edges s wid (t_id t))" using u by (force simp: old_edges_def)
  qed
  have new: "edge_text k oc \<in> set (new_edges ts) \<longleftrightarrow> (k, oc) \<in> set (task_deps ts)" for k oc ts
    by (auto simp: new_edges_def edge_text_inj)
  have target: "?m k = Some (t_id u)" if "u \<in> set (tasks_of s wid)" "t_key u = k" "?m k \<noteq> None" for u k
  proof -
    from that(3) obtain i where "(k, i) \<in> set ids" by (auto dest: js_map_SomeD)
    then have "k \<in> set (map task_key (spec_tasks spec))" using kept_or_new_ids_old [OF steps(2)] by blast
    moreover have "old_by_key s wid k = Some u" using old_by_key_unique [OF assms(4), of u] that(1,2) by (simp add: tasks_of_def)
    ultimately show ?thesis by (rule idByKey_kept [OF steps(2), rotated])
  qed
  show ?thesis
  proof (intro set_eqI iffI; clarify)
    fix on oc assume "(on, oc) \<in> out_edges s' wid (t_id t)"
    then obtain ts k where ts: "ts \<in> set (spec_tasks spec)" "nullish (?m (task_key ts)) [] = t_id t" "(k, oc) \<in> set (task_deps ts)" "on = the (?m k)"
      unfolding out_edges_def links by (auto simp: link_triples_def)
    have "edge_text k oc \<in> set (old_edges s wid (t_id t))"
      using frozen(2) [OF ts(1) same_key [OF ts(1,2)]] ts(3) new by blast
    then obtain u where u: "u \<in> set (tasks_of s wid)" "t_key u = k" "(t_id u, oc) \<in> out_edges s wid (t_id t)" using old by blast
    with target [OF u(1,2)] known [OF ts(1,3)] ts(4) show "(on, oc) \<in> out_edges s wid (t_id t)" by simp
  next
    fix on oc assume e: "(on, oc) \<in> out_edges s wid (t_id t)"
    then obtain d where "d \<in> set (deps_of s wid)" "d_dependsOnTaskId d = on" by (auto simp: out_edges_def triple_def)
    then obtain u where u: "u \<in> set (tasks_of s wid)" "t_id u = on" using fk by blast
    obtain ts where ts: "ts \<in> set (spec_tasks spec)" "task_key ts = t_key t" using frozen(1) by (auto simp: spec_keys_def)
    have dep: "(t_key u, oc) \<in> set (task_deps ts)"
      using old [of "t_key u" oc] u e frozen(2) [OF ts] new by blast
    have "the (?m (t_key u)) = on" using target [OF u(1) refl known [OF ts(1) dep]] u(2) by simp
    then have "(t_id t, on, oc) \<in> set (link_triples ?m ts)" using dep key_id ts(2) by (force simp: link_triples_def)
    then show "(on, oc) \<in> out_edges s' wid (t_id t)" using ts(1) unfolding out_edges_def links by auto
  qed
qed

definition dated_leaf :: "workflow_spec \<Rightarrow> task_row \<Rightarrow> bool" where
  "dated_leaf spec t \<longleftrightarrow>
     children_of spec (t_key t) = []
     \<and> (case dates t of (Some d, Some a, Some b) \<Rightarrow> in_range d \<and> in_range a \<and> in_range b | _ \<Rightarrow> False)"

lemma dated_leaf_dates:
  assumes "diff_checks E cal wid spec fz s = Inr res" and "distinct (map t_key (tasks_of s wid))"
    and "t \<in> set (tasks_of s wid)" and "isFrozen s wid t (old_approval s wid (t_key t))" and "dated_leaf spec t"
    and "\<And>due. t_dueAtUtc t = Some due \<Longrightarrow> fz (t_key t) = None \<or> fz (t_key t) = Some (frozen_tuple t due)"
  shows "(date_of cal rt_dueAtUtc (res (t_key t)), date_of cal rt_plannedStartUtc (res (t_key t)),
        date_of cal rt_plannedEndUtc (res (t_key t))) = dates t"
proof -
  obtain d a b where d: "t_dueAtUtc t = Some d" "t_plannedStartUtc t = Some a" "t_plannedEndUtc t = Some b" "in_range d" "in_range a" "in_range b"
    and leaf: "children_of spec (t_key t) = []"
    using assms(5) by (auto simp: dated_leaf_def dates_def split: option.splits)
  obtain r where r: "resolveSchedule cal (e_wall E) spec \<lparr>ro_targetAtUtc = None, ro_frozenDueAt = frozen_dates s wid spec fz\<rparr> = Inr r" "rr_tasks r = res"
    using assms(1) by (auto simp: diff_checks_def split: sum.splits option.splits)
  have key: "t_key t \<in> set (spec_keys spec)" by (rule diff_checks_frozen(1) [OF assms(1-4)])
  have "frozen_dates s wid spec fz (t_key t) = Some (FrozenBar (toISOString d) (toISOString a) (toISOString b))"
    using frozen_dates_kept [of s wid t d spec fz] assms(2-4) d key assms(6) by (simp add: frozen_tuple_def)
  from frozen_leaf_dates [OF r(1) key leaf _ d(4-6)] this show ?thesis by (simp add: r(2) dates_def d(1-3))
qed


definition demo_ran :: db where
  "demo_ran = empty_db\<lparr>db_workflows := [(new_workflow ''w'' ''o'')\<lparr>w_status := WPaused\<rparr>],
     db_tasks := [(new_task ''a'' ''w'' ''a'' ''checkpoint'')
       \<lparr>t_status := TSucceeded, t_dueAtUtc := Some 0, t_plannedStartUtc := Some 0, t_plannedEndUtc := Some 0\<rparr>]\<rparr>"

lemma demo_ran_row:
  defines "t \<equiv> (new_task ''a'' ''w'' ''a'' ''checkpoint'')
       \<lparr>t_status := TSucceeded, t_dueAtUtc := Some 0, t_plannedStartUtc := Some 0, t_plannedEndUtc := Some 0\<rparr>"
  shows "tasks_of demo_ran ''w'' = [t]" "deps_of demo_ran ''w'' = []" "db_tasks demo_ran = [t]"
    "find_workflow demo_ran ''w'' = Some ((new_workflow ''w'' ''o'')\<lparr>w_status := WPaused\<rparr>)"
    "old_by_key demo_ran ''w'' = [''a'' \<mapsto> t]" "old_approval demo_ran ''w'' = Map.empty"
    "isFrozen demo_ran ''w'' t None"
  by (simp_all add: demo_ran_def empty_db_def tasks_of_def deps_of_def approvals_of_def find_workflow_def new_workflow_def t_def new_task_def
      old_by_key_def old_approval_def js_map_def isFrozen_def List.map_filter_def)

lemma solo_applied:
  defines "t \<equiv> (new_task ''a'' ''w'' ''a'' ''checkpoint'')
       \<lparr>t_status := TSucceeded, t_dueAtUtc := Some 0, t_plannedStartUtc := Some 0, t_plannedEndUtc := Some 0\<rparr>"
  assumes "db_tasks s = [t]" "db_deps s = []" "db_approvals s = []"
  shows "\<exists>s'. diffApplySpecRows (demo_env 5) plain_calendar ''w'' solo_spec Map.empty s = Inr s'"
proof -
  have maps: "tasks_of s ''w'' = [t]" "old_by_key s ''w'' = [''a'' \<mapsto> t]" "old_approval s ''w'' = Map.empty" "old_edges s ''w'' ''a'' = []"
    "isFrozen s ''w'' t None" "removed_tasks s ''w'' solo_spec = []"
    by (simp_all add: tasks_of_def deps_of_def approvals_of_def assms new_task_def old_by_key_def old_approval_def old_edges_def js_map_def
        isFrozen_def List.map_filter_def removed_tasks_def)
  define u where "u = toISOString 0"
  have fz: "frozen_dates s ''w'' solo_spec Map.empty = [''a'' \<mapsto> FrozenBar u u u]"
    by (simp add: frozen_dates_def freeze_kept_def maps frozen_tuple_def u_def t_def new_task_def) (simp add: maps(5) [unfolded t_def new_task_def, simplified])
  have reads: "dateParse plain_calendar u = Some 0"
    unfolding u_def by (rule dateParse_toISOString) (unfold in_range_def, code_simp)
  obtain ws where r: "resolveSchedule plain_calendar 5 solo_spec \<lparr>ro_targetAtUtc = None, ro_frozenDueAt = [''a'' \<mapsto> FrozenBar u u u]\<rparr> =
      Inr \<lparr>rr_tasks = [''a'' \<mapsto> stamp 0], rr_warnings = ws\<rparr>"
    by (rule solo_resolved [of "\<lparr>ro_targetAtUtc = None, ro_frozenDueAt = [''a'' \<mapsto> FrozenBar u u u]\<rparr>" 0 5 plain_calendar]) (auto simp: reads)
  have now: "e_wall (demo_env 5) = 5" by (simp add: demo_env_def)
  have same: "FROZEN_TASK_IDENTITY (buildCols plain_calendar [''a'' \<mapsto> stamp 0] solo_task t) = FROZEN_TASK_IDENTITY t"
    by (simp add: solo_cols FROZEN_TASK_IDENTITY_def t_def new_task_def)
  have edges: "new_edges solo_task = []" by (simp add: new_edges_def)
  have "freeze_check plain_calendar [''a'' \<mapsto> stamp 0] s ''w'' solo_task = None"
    by (simp add: freeze_check_def maps same edges) (simp add: t_def new_task_def maps(4))
  then have checks: "diff_checks (demo_env 5) plain_calendar ''w'' solo_spec Map.empty s = Inr [''a'' \<mapsto> stamp 0]"
    by (simp add: diff_checks_def fz now r maps)
  have "\<exists>s'. diff_writes (demo_env 5) plain_calendar ''w'' solo_spec [''a'' \<mapsto> stamp 0] s = Inr s'"
    by (simp add: diff_writes_def Let_def maps js_map_def apply_task_def apply_parent_def apply_links_def apply_approval_def)
  then show ?thesis by (simp add: diffApplySpecRows_def checks)
qed

lemma paused_update: "\<exists>s'. updateWorkflowDraftSpec (demo_env 5) plain_calendar solo_update demo_ran demo_ran = (UpdateOk 1, s')"
proof -
  let ?w = "(new_workflow ''w'' ''o'')\<lparr>w_status := WPaused\<rparr>"
  define s1 where "s1 = demo_ran\<lparr>db_workflows := update_where (\<lambda>r. w_id r = ''w'' \<and> w_lockVersion r = 0 \<and> editable r)
      (updated_workflow (demo_env 5) solo_update None) (db_workflows demo_ran)\<rparr>"
  have ed: "editable ?w" "w_lockVersion ?w = 0" "w_status ?w = WPaused"
    by (simp_all add: editable_def new_workflow_def)
  have cas: "cas_workflow ''w'' 0 editable (updated_workflow (demo_env 5) solo_update None) demo_ran = (True, s1)"
    by (simp add: cas_workflow_def cas_update_def Let_def s1_def demo_ran_def ed new_workflow_def editable_def)
  obtain s' where rows: "diffApplySpecRows (demo_env 5) plain_calendar ''w'' solo_spec Map.empty s1 = Inr s'"
    using solo_applied [of s1] by (auto simp: s1_def demo_ran_row(3)) (auto simp: demo_ran_def empty_db_def)
  have "update_tx (demo_env 5) plain_calendar solo_update demo_ran = Inr (True, s')"
    by (simp add: update_tx_def demo_ran_row(4) date_column_def cas ed rows)
  then show ?thesis by (simp add: updateWorkflowDraftSpec_def update_precheck_def demo_ran_row(4) ed)
qed


end
