(* ===== verification/Wf_Bpmn.thy ===== *)
theory Wf_Bpmn
  imports Wf_StoreEdit Wf_StoreOps
begin

text \<open>
  BPMN processes as workflow specifications, \<^verbatim>\<open>packages/workflows/src/bpmn/profile.ts\<close> and
  \<^verbatim>\<open>bpmn/compile.ts\<close>. An element is the object that the parser of the package \<^verbatim>\<open>bpmn-moddle\<close> returns; a
  reference to another element (\<^verbatim>\<open>sourceRef\<close>, \<^verbatim>\<open>targetRef\<close>) is that object, of which only the identifier is
  read. An error carries its code and the element; its text is left out. \<^verbatim>\<open>JSON.parse\<close> and \<^verbatim>\<open>Number\<close> on a
  string are the parameters of \<open>js_env\<close>; numbers are integers, as in all JSON values of the model.
\<close>

type_synonym element = json

record js_env =
  js_parse :: "string \<Rightarrow> json option"
  js_Number :: "string \<Rightarrow> int option"

datatype bpmn_code = StructureInvalid | TaskInputInvalidJson | PlaceholderDuplicate

record bpmn_error =
  be_code :: bpmn_code
  be_element :: "string option"

type_synonym 'a compiled = "bpmn_error + 'a"

definition fail :: "bpmn_code \<Rightarrow> string option \<Rightarrow> 'a compiled" where
  "fail code el = Inl \<lparr>be_code = code, be_element = el\<rparr>"

text \<open>A statement that may throw, followed by the rest.\<close>

definition try_then :: "'a compiled \<Rightarrow> ('a \<Rightarrow> 'b compiled) \<Rightarrow> 'b compiled" where
  "try_then x f = (case x of Inl e \<Rightarrow> Inl e | Inr v \<Rightarrow> f v)"

fun map_all :: "('a \<Rightarrow> 'b compiled) \<Rightarrow> 'a list \<Rightarrow> 'b list compiled" where
  "map_all f [] = Inr []"
| "map_all f (x # xs) = try_then (f x) (\<lambda>y. try_then (map_all f xs) (\<lambda>ys. Inr (y # ys)))"

section \<open>Elements\<close>

definition el_type :: "element \<Rightarrow> string" where
  "el_type e = nullish (get_str e ''$type'') []"

definition TASK_TYPES :: "string list" where
  "TASK_TYPES = [''bpmn:UserTask'', ''bpmn:ServiceTask'', ''bpmn:ManualTask'', ''bpmn:SendTask'']"

definition extValues :: "element option \<Rightarrow> element list" where
  "extValues el =
     (case Option.bind el (\<lambda>e. get e ''extensionElements'') of Some ext \<Rightarrow> get_list ext ''values'' | None \<Rightarrow> [])"

definition findExt :: "element option \<Rightarrow> string \<Rightarrow> element option" where
  "findExt el ty = find (\<lambda>v. el_type v = ty) (extValues el)"

text \<open>\<open>str(el?.k)\<close>: a non-empty string, or undefined.\<close>

definition str_field :: "element option \<Rightarrow> string \<Rightarrow> string option" where
  "str_field el k = (case Option.bind el (\<lambda>e. get_str e k) of Some s \<Rightarrow> if s = [] then None else Some s | None \<Rightarrow> None)"

definition toInt :: "js_env \<Rightarrow> json option \<Rightarrow> int option" where
  "toInt J v =
     (case v of
        Some (JNum n) \<Rightarrow> Some n
      | Some (JStr s) \<Rightarrow> if js_trim s \<noteq> [] then js_Number J s else None
      | _ \<Rightarrow> None)"

definition toBool :: "json option \<Rightarrow> bool option" where
  "toBool v =
     (case v of
        Some (JBool b) \<Rightarrow> Some b
      | Some (JStr s) \<Rightarrow> if s = ''true'' then Some True else if s = ''false'' then Some False else None
      | _ \<Rightarrow> None)"

definition processes :: "element \<Rightarrow> element list" where
  "processes defs = filter (\<lambda>e. el_type e = ''bpmn:Process'') (get_list defs ''rootElements'')"

definition processOf :: "element \<Rightarrow> element compiled" where
  "processOf defs = (case processes defs of [p] \<Rightarrow> Inr p | _ \<Rightarrow> fail StructureInvalid None)"

definition flowElements :: "element \<Rightarrow> element list" where
  "flowElements process = get_list process ''flowElements''"

section \<open>Placeholders\<close>

definition coerceDefault :: "js_env \<Rightarrow> string option \<Rightarrow> string \<Rightarrow> json option compiled" where
  "coerceDefault J raw ty =
     (case raw of
        None \<Rightarrow> Inr None
      | Some x \<Rightarrow>
          if ty = ''number'' then
            (case js_Number J x of None \<Rightarrow> fail StructureInvalid None | Some n \<Rightarrow> Inr (Some (JNum n)))
          else if ty = ''boolean'' then
            (case toBool (Some (JStr x)) of None \<Rightarrow> fail StructureInvalid None | Some b \<Rightarrow> Inr (Some (JBool b)))
          else Inr (Some (JStr x)))"

definition placeholder_decl :: "js_env \<Rightarrow> element \<Rightarrow> json compiled" where
  "placeholder_decl J p =
     (let ty = nullish (str_field (Some p) ''type'') ''string''
      in try_then (coerceDefault J (str_field (Some p) ''default'') ty)
           (\<lambda>def. Inr (JObj ([(''type'', JStr ty)]
              @ json_field ''required'' (map_option JBool (toBool (get p ''required'')))
              @ json_field ''description'' (map_option JStr (str_field (Some p) ''description''))
              @ json_field ''default'' def))))"

text \<open>
  The loop, with the declarations and the hints so far; \<open>name in placeholders\<close> also finds the names every
  JavaScript object inherits.
\<close>

fun placeholder_loop ::
  "js_env \<Rightarrow> element list \<Rightarrow> (string \<times> json) list \<times> (string \<times> json) list \<Rightarrow>
   ((string \<times> json) list \<times> (string \<times> json) list) compiled" where
  "placeholder_loop J [] acc = Inr acc"
| "placeholder_loop J (p # ps) (decls, hints) =
     (case str_field (Some p) ''name'' of
        None \<Rightarrow> fail StructureInvalid (get_str p ''id'')
      | Some name \<Rightarrow>
          if name \<in> set (map fst decls) \<or> name \<in> set OBJECT_PROTOTYPE then fail PlaceholderDuplicate None
          else
            try_then (placeholder_decl J p)
              (\<lambda>decl. placeholder_loop J ps
                 (decls @ [(name, decl)],
                  (case str_field (get p ''hint'') ''kind'' of
                     Some kind \<Rightarrow> AList.update name (JObj [(''kind'', JStr kind)]) hints
                   | None \<Rightarrow> hints))))"

definition compilePlaceholders :: "js_env \<Rightarrow> element \<Rightarrow> ((string \<times> json) list \<times> (string \<times> json) list) compiled" where
  "compilePlaceholders J process =
     (case findExt (Some process) ''cinatra:Placeholders'' of
        None \<Rightarrow> Inr ([], [])
      | Some block \<Rightarrow> placeholder_loop J (get_list block ''placeholders'') ([], []))"

section \<open>Schedules\<close>

definition str_fields :: "element \<Rightarrow> string list \<Rightarrow> (string \<times> json) list" where
  "str_fields s ks = concat (map (\<lambda>k. json_field k (map_option JStr (str_field (Some s) k))) ks)"

definition compileSchedule :: "element \<Rightarrow> json option compiled" where
  "compileSchedule task =
     (case findExt (Some task) ''cinatra:TaskSchedule'' of
        None \<Rightarrow> Inr None
      | Some s \<Rightarrow>
          (let mode = str_field (Some s) ''mode''; bad = fail StructureInvalid (get_str task ''id'')
           in if mode = Some ''absolute'' then
                (if str_field (Some s) ''at'' = None then bad
                 else Inr (Some (JObj ((''mode'', JStr ''absolute'')
                                       # str_fields s [''at'', ''tz'', ''anchorPoint'', ''durationIso8601'']))))
              else if mode = Some ''relative'' then
                (if str_field (Some s) ''anchor'' = None \<or> str_field (Some s) ''offsetIso8601'' = None
                    \<or> str_field (Some s) ''direction'' = None
                 then bad
                 else Inr (Some (JObj ((''mode'', JStr ''relative'')
                        # str_fields s [''anchor'', ''offsetIso8601'', ''direction'', ''localTime'', ''tz'', ''anchorPoint'', ''durationIso8601'']))))
              else if mode \<noteq> None then bad else Inr None))"

section \<open>Dependencies\<close>

text \<open>\<open>new Map\<close> over the flow elements that have an identifier.\<close>

definition byId :: "element \<Rightarrow> string \<rightharpoonup> element" where
  "byId process =
     js_map (List.map_filter (\<lambda>e. map_option (\<lambda>i. (i, e)) (str_field (Some e) ''id'')) (flowElements process))"

definition incoming :: "element \<Rightarrow> string \<Rightarrow> element list" where
  "incoming process target =
     filter (\<lambda>e. el_type e = ''bpmn:SequenceFlow'' \<and> str_field (get e ''targetRef'') ''id'' = Some target) (flowElements process)"

type_synonym dep = "string \<times> string option"

text \<open>One edge per upstream task; the same task with two outcomes is rejected.\<close>

fun collapse :: "string \<Rightarrow> dep list \<Rightarrow> dep list \<Rightarrow> dep list compiled" where
  "collapse target acc [] = Inr acc"
| "collapse target acc ((k, oc) # ds) =
     (case map_of acc k of
        None \<Rightarrow> collapse target (acc @ [(k, oc)]) ds
      | Some oc' \<Rightarrow> if oc' \<noteq> oc then fail StructureInvalid (Some target) else collapse target acc ds)"

definition flow_outcome :: "element \<Rightarrow> string option" where
  "flow_outcome flow = str_field (findExt (Some flow) ''cinatra:TransitionOutcome'') ''outcome''"

text \<open>The source of a flow, when it is a known element.\<close>

definition flow_source :: "element \<Rightarrow> element \<Rightarrow> (string \<times> element) option" where
  "flow_source process flow =
     (case str_field (get flow ''sourceRef'') ''id'' of
        None \<Rightarrow> None
      | Some i \<Rightarrow> map_option (Pair i) (byId process i))"

definition flow_ids :: "element \<Rightarrow> string list" where
  "flow_ids process = List.map_filter (\<lambda>e. str_field (Some e) ''id'') (flowElements process)"

lemma byId_ids: "byId process i = Some e \<Longrightarrow> i \<in> set (flow_ids process)"
  unfolding byId_def flow_ids_def js_map_def
  by (auto dest!: map_of_SomeD simp: mem_map_filter)

text \<open>The loop over the flows; a gateway is followed to the flows into it.\<close>

function walk :: "element \<Rightarrow> string list \<Rightarrow> element list \<Rightarrow> dep list compiled" where
  "walk process seen [] = Inr []"
| "walk process seen (flow # flows) =
     (case flow_source process flow of
        None \<Rightarrow> walk process seen flows
      | Some (i, src) \<Rightarrow>
          if el_type src = ''bpmn:StartEvent'' then walk process seen flows
          else if el_type src \<in> set TASK_TYPES then
            try_then (walk process seen flows) (\<lambda>ds. Inr ((i, flow_outcome flow) # ds))
          else if el_type src = ''bpmn:ParallelGateway'' then
            (if i \<in> set seen then walk process seen flows
             else if findExt (Some flow) ''cinatra:TransitionOutcome'' \<noteq> None then fail StructureInvalid (Some i)
             else
               try_then (try_then (walk process (i # seen) (incoming process i)) (collapse i []))
                 (\<lambda>ds. try_then (walk process seen flows) (\<lambda>ds'. Inr (ds @ ds'))))
          else walk process seen flows)"
  by pat_completeness auto
termination walk
proof (relation "inv_image (less_than <*lex*> less_than)
    (\<lambda>(process, seen, flows). (card (set (flow_ids process) - set seen), length flows))", goal_cases)
  case (6 process seen flow flows x i src)
  then have "i \<in> set (flow_ids process) - set seen"
    by (auto simp: flow_source_def split: option.splits dest: byId_ids)
  then have "card (set (flow_ids process) - set seen - {i}) < card (set (flow_ids process) - set seen)"
    by (intro psubset_card_mono) auto
  moreover have "set (flow_ids process) - set (i # seen) = set (flow_ids process) - set seen - {i}" by auto
  ultimately show ?case by simp
qed auto

definition dependsOn :: "element \<Rightarrow> string \<Rightarrow> dep list compiled" where
  "dependsOn process taskId = try_then (walk process [] (incoming process taskId)) (collapse taskId [])"

definition dep_json :: "dep \<Rightarrow> json" where
  "dep_json d = JObj ((''taskKey'', JStr (fst d)) # json_field ''outcome'' (map_option JStr (snd d)))"

section \<open>Tasks\<close>

definition compileForeach :: "js_env \<Rightarrow> element \<Rightarrow> (string \<times> json) list \<Rightarrow> json option compiled" where
  "compileForeach J task base =
     (case get task ''loopCharacteristics'' of
        None \<Rightarrow> Inr None
      | Some loop \<Rightarrow>
          if el_type loop \<noteq> ''bpmn:MultiInstanceLoopCharacteristics'' then Inr None
          else
            (case findExt (Some loop) ''cinatra:ForeachSource'' of
               None \<Rightarrow> Inr None
             | Some fs \<Rightarrow>
                 if str_field (Some fs) ''source'' = None \<or> str_field (Some fs) ''as'' = None
                 then fail StructureInvalid (get_str task ''id'')
                 else Inr (Some (JObj (str_fields fs [''source'', ''as''] @ [(''template'', JObj base)]
                        @ str_fields fs [''itemKey'', ''rollupPolicy'']
                        @ json_field ''maxFanout'' (map_option JNum (toInt J (get fs ''maxFanout'')))))))
)"

definition head_fields :: "string \<Rightarrow> string \<Rightarrow> string \<Rightarrow> (string \<times> json) list" where
  "head_fields key title ty = [(''key'', JStr key), (''title'', JStr title), (''type'', JStr ty)]"

definition agent_core :: "js_env \<Rightarrow> string \<Rightarrow> string \<Rightarrow> element \<Rightarrow> (string \<times> json) list compiled" where
  "agent_core J key title task =
     (case findExt (Some task) ''cinatra:AgentRef'' of
        None \<Rightarrow> fail StructureInvalid (Some key)
      | Some agent \<Rightarrow>
          if str_field (Some agent) ''package'' = None then fail StructureInvalid (Some key)
          else
            (let base = head_fields key title ''agent_task''
                        @ [(''agentRef'', JObj (str_fields agent [''package'', ''name'', ''version'', ''templateId'']))]
             in case str_field (findExt (Some task) ''cinatra:TaskInput'') ''value'' of
                  None \<Rightarrow> Inr base
                | Some body \<Rightarrow>
                    (case js_parse J body of
                       None \<Rightarrow> fail TaskInputInvalidJson (Some key)
                     | Some v \<Rightarrow> Inr (base @ [(''input'', v)]))))"

definition user_core :: "string \<Rightarrow> string \<Rightarrow> element \<Rightarrow> (string \<times> json) list compiled" where
  "user_core key title task =
     (let kind = str_field (findExt (Some task) ''cinatra:TaskKind'') ''value'';
          cfg = findExt (Some task) ''cinatra:ApprovalConfig''
      in if kind = Some ''approval'' then
           (case str_field cfg ''level'' of
              None \<Rightarrow> fail StructureInvalid (Some key)
            | Some level \<Rightarrow>
                Inr (head_fields key title ''approval''
                     @ [(''requiredScope'', JObj ((''level'', JStr level) # json_field ''id'' (map_option JStr (str_field cfg ''id''))))]
                     @ json_field ''rejectionPolicy'' (map_option JStr (str_field cfg ''rejectionPolicy''))))
         else if kind = Some ''checkpoint'' then Inr (head_fields key title ''checkpoint'')
         else fail StructureInvalid (Some key))"

definition compileCore :: "js_env \<Rightarrow> string \<Rightarrow> string \<Rightarrow> element \<Rightarrow> (string \<times> json) list compiled" where
  "compileCore J key title task =
     (if el_type task = ''bpmn:ServiceTask'' then agent_core J key title task
      else if el_type task = ''bpmn:UserTask'' then user_core key title task
      else if el_type task = ''bpmn:ManualTask'' then Inr (head_fields key title ''manual'')
      else if el_type task = ''bpmn:SendTask'' then
        Inr (head_fields key title ''notification''
             @ json_field ''message'' (map_option JStr (str_field (findExt (Some task) ''cinatra:MessageBody'') ''value'')))
      else fail StructureInvalid (Some key))"

definition policy_fields :: "js_env \<Rightarrow> element \<Rightarrow> (string \<times> json) list" where
  "policy_fields J task =
     (case findExt (Some task) ''cinatra:TaskPolicy'' of
        None \<Rightarrow> []
      | Some p \<Rightarrow> str_fields p [''failurePolicy''] @ json_field ''maxAttempts'' (map_option JNum (toInt J (get p ''maxAttempts''))))"

text \<open>\<open>key\<close> and \<open>title\<close> come first in both parts of the result and have the same values in both.\<close>

definition compileTask :: "js_env \<Rightarrow> element \<Rightarrow> element \<Rightarrow> json compiled" where
  "compileTask J process task =
     (case (str_field (Some task) ''id'', str_field (Some task) ''name'') of
        (None, _) \<Rightarrow> fail StructureInvalid None
      | (Some key, None) \<Rightarrow> fail StructureInvalid (Some key)
      | (Some key, Some title) \<Rightarrow>
          try_then (compileSchedule task) (\<lambda>schedule.
          try_then (dependsOn process key) (\<lambda>deps.
          try_then (compileCore J key title task) (\<lambda>base.
          try_then (compileForeach J task base) (\<lambda>foreach.
            Inr (JObj (base @ json_field ''schedule'' schedule
                       @ (if deps = [] then [] else [(''dependsOn'', JArr (map dep_json deps))])
                       @ policy_fields J task @ json_field ''foreach'' foreach)))))))"

section \<open>The specification\<close>

definition task_elements :: "element \<Rightarrow> element list" where
  "task_elements process = filter (\<lambda>e. el_type e \<in> set TASK_TYPES) (flowElements process)"

definition spec_name :: "element \<Rightarrow> string" where
  "spec_name process =
     nullish (str_field (findExt (Some process) ''cinatra:WorkflowMeta'') ''name'')
       (nullish (str_field (Some process) ''name'') (nullish (str_field (Some process) ''id'') ''Workflow''))"

definition target_field :: "element \<Rightarrow> (string \<times> json) list" where
  "target_field process =
     (let target = Option.bind (findExt (Some process) ''cinatra:WorkflowMeta'') (\<lambda>m. get m ''target'')
      in case str_field target ''tz'' of
           None \<Rightarrow> []
         | Some tz \<Rightarrow>
             [(''target'', JObj ((''tz'', JStr tz) # json_field ''at'' (map_option JStr (str_field target ''at''))))])"

definition compiled_spec :: "js_env \<Rightarrow> element \<Rightarrow> json compiled" where
  "compiled_spec J process =
     try_then (compilePlaceholders J process) (\<lambda>(decls, hints).
     try_then (map_all (compileTask J process) (task_elements process)) (\<lambda>tasks.
       Inr (JObj (json_field ''key'' (map_option JStr (str_field (Some process) ''id''))
         @ [(''name'', JStr (spec_name process)), (''tasks'', JArr tasks)]
         @ json_field ''product'' (map_option JStr (str_field (findExt (Some process) ''cinatra:WorkflowMeta'') ''product''))
         @ target_field process
         @ (if decls = [] then [] else [(''placeholders'', JObj decls)])
         @ (if hints = [] then [] else [(''metadata'', JObj [(''placeholderHints'', JObj hints)])])))))"

definition compileBpmnToWorkflowSpec :: "js_env \<Rightarrow> validator \<Rightarrow> element \<Rightarrow> workflow_spec compiled" where
  "compileBpmnToWorkflowSpec J V defs =
     try_then (processOf defs) (\<lambda>process.
     try_then (compiled_spec J process) (\<lambda>spec.
       case va_safeParse V spec of
         Inl issues \<Rightarrow> fail StructureInvalid (str_field (Some process) ''id'')
       | Inr parsed \<Rightarrow> Inr parsed))"

end
