(* ===== verification/Wf_BpmnProfile.thy ===== *)
theory Wf_BpmnProfile
  imports Wf_Bpmn
begin

text \<open>
  Profile 1.0, \<^verbatim>\<open>packages/workflows/src/bpmn/profile.ts\<close>: the validator of a parsed process and the guard that a
  specification stays within the fields the profile can express; the package manifest,
  \<^verbatim>\<open>manifest.ts\<close>; and the sidecar parser, \<^verbatim>\<open>bpmn/sidecar.ts\<close>, over a tree of files. An error carries the element and a
  tag for its reason.
\<close>

section \<open>The profile of a process\<close>

datatype construct_reason =
    UnsupportedRoot
  | TypedStartEvent
  | TypedEndEvent
  | ConditionExpression
  | OutcomeOffTask
  | UnsupportedLoop
  | LoopWithoutForeach
  | UnsupportedElement

record construct_error =
  ce_elementId :: "string option"
  ce_elementType :: string
  ce_reason :: construct_reason

datatype structure_error = NoProcess | ManyProcesses nat | StartCount nat | EndCount nat

definition unsupported :: "element \<Rightarrow> construct_reason \<Rightarrow> construct_error" where
  "unsupported el r = \<lparr>ce_elementId = get_str el ''id'', ce_elementType = el_type el, ce_reason = r\<rparr>"

definition typeById :: "element \<Rightarrow> string \<rightharpoonup> string" where
  "typeById process =
     js_map (List.map_filter (\<lambda>e. map_option (\<lambda>i. (i, el_type e)) (get_str e ''id'')) (flowElements process))"

definition has_ext :: "element \<Rightarrow> string \<Rightarrow> bool" where
  "has_ext el ty \<longleftrightarrow> list_ex (\<lambda>v. el_type v = ty) (extValues (Some el))"

definition present :: "element \<Rightarrow> string \<Rightarrow> bool" where
  "present el k \<longleftrightarrow> (case get el k of Some v \<Rightarrow> js_truthy v | None \<Rightarrow> False)"

definition event_errors :: "construct_reason \<Rightarrow> element \<Rightarrow> construct_error list" where
  "event_errors r el = (if get_list el ''eventDefinitions'' \<noteq> [] then [unsupported el r] else [])"

definition flow_errors :: "element \<Rightarrow> element \<Rightarrow> construct_error list" where
  "flow_errors process el =
     (if present el ''conditionExpression'' then [unsupported el ConditionExpression] else [])
     @ (if has_ext el ''cinatra:TransitionOutcome''
           \<and> (case typeById process (nullish (Option.bind (get el ''sourceRef'') (\<lambda>s. get_str s ''id'')) []) of
                Some ty \<Rightarrow> ty \<notin> set TASK_TYPES | None \<Rightarrow> True)
        then [unsupported el OutcomeOffTask] else [])"

definition loop_errors :: "element \<Rightarrow> construct_error list" where
  "loop_errors el =
     (case get el ''loopCharacteristics'' of
        None \<Rightarrow> []
      | Some loop \<Rightarrow>
          if el_type loop \<noteq> ''bpmn:MultiInstanceLoopCharacteristics'' then [unsupported loop UnsupportedLoop]
          else if \<not> has_ext loop ''cinatra:ForeachSource'' then [unsupported loop LoopWithoutForeach] else [])"

definition element_errors :: "element \<Rightarrow> element \<Rightarrow> construct_error list" where
  "element_errors process el =
     (if el_type el = ''bpmn:StartEvent'' then event_errors TypedStartEvent el
      else if el_type el = ''bpmn:EndEvent'' then event_errors TypedEndEvent el
      else if el_type el = ''bpmn:SequenceFlow'' then flow_errors process el
      else if el_type el \<in> set TASK_TYPES then loop_errors el
      else if el_type el = ''bpmn:ParallelGateway'' then []
      else [unsupported el UnsupportedElement])"

definition count_type :: "string \<Rightarrow> element \<Rightarrow> nat" where
  "count_type ty process = length (filter (\<lambda>e. el_type e = ty) (flowElements process))"

record profile_result =
  pr_errors :: "construct_error list"
  pr_structure :: "structure_error list"

definition pr_ok :: "profile_result \<Rightarrow> bool" where
  "pr_ok r \<longleftrightarrow> pr_errors r = [] \<and> pr_structure r = []"

definition validateBpmnAgainstProfile :: "element \<Rightarrow> profile_result" where
  "validateBpmnAgainstProfile defs =
     (let roots = map (\<lambda>e. unsupported e UnsupportedRoot)
                    (filter (\<lambda>e. el_type e \<noteq> ''bpmn:Process'') (get_list defs ''rootElements''))
      in case processes defs of
           [] \<Rightarrow> \<lparr>pr_errors = roots, pr_structure = [NoProcess]\<rparr>
         | process # others \<Rightarrow>
             \<lparr>pr_errors = roots @ concat (map (element_errors process) (flowElements process)),
              pr_structure =
                (if others \<noteq> [] then [ManyProcesses (Suc (length others))] else [])
                @ (if count_type ''bpmn:StartEvent'' process \<noteq> 1 then [StartCount (count_type ''bpmn:StartEvent'' process)] else [])
                @ (if count_type ''bpmn:EndEvent'' process < 1 then [EndCount 0] else [])\<rparr>)"

section \<open>What a specification may use\<close>

record lossy_error =
  le_field :: string
  le_taskKey :: "string option"

definition lossy_when :: "bool \<Rightarrow> string \<Rightarrow> task_spec \<Rightarrow> lossy_error list" where
  "lossy_when b f t = (if b then [\<lparr>le_field = f, le_taskKey = get_str t ''key''\<rparr>] else [])"

definition given :: "task_spec \<Rightarrow> string \<Rightarrow> bool" where
  "given t k \<longleftrightarrow> non_null (get t k) \<noteq> None"

definition nonempty_text :: "task_spec \<Rightarrow> string \<Rightarrow> bool" where
  "nonempty_text t k \<longleftrightarrow> (case get_str t k of Some s \<Rightarrow> s \<noteq> [] | None \<Rightarrow> False)"

definition own_lossiness :: "task_spec \<Rightarrow> lossy_error list" where
  "own_lossiness t =
     lossy_when (get t ''required'' = Some (JBool False)) ''required'' t
     @ lossy_when (get_true t ''pinned'') ''pinned'' t
     @ lossy_when (nonempty_text t ''risk'') ''risk'' t
     @ lossy_when (given t ''parent'') ''parent'' t
     @ lossy_when (given t ''assignee'') ''assignee'' t
     @ lossy_when (given t ''missedWindowPolicy'') ''missedWindowPolicy'' t
     @ lossy_when (given t ''retryPolicy'') ''retryPolicy'' t
     @ lossy_when (given t ''cancelPolicy'') ''cancelPolicy'' t
     @ lossy_when (task_type t = ''wait'') ''type'' t
     @ lossy_when (task_type t = ''approval'' \<and> given t ''solicitation'') ''approval.solicitation'' t
     @ lossy_when (task_type t = ''approval'' \<and> given t ''deadlineIso8601'') ''approval.deadlineIso8601'' t
     @ lossy_when (task_type t = ''manual'' \<and> nonempty_text t ''instructions'') ''manual.instructions'' t
     @ lossy_when (task_type t = ''notification'' \<and> get_list t ''recipients'' \<noteq> []) ''notification.recipients'' t"

definition foreach_template :: "task_spec \<Rightarrow> json option" where
  "foreach_template t =
     (case Option.bind (get t ''foreach'') (\<lambda>f. get f ''template'') of
        Some v \<Rightarrow> if js_truthy v then Some v else None
      | None \<Rightarrow> None)"

lemma foreach_template_smaller: "foreach_template t = Some v \<Longrightarrow> size v < size t"
  by (auto simp: foreach_template_def split: option.splits if_splits Option.bind_splits dest!: get_smaller)

function checkTaskLossiness :: "task_spec \<Rightarrow> lossy_error list" where
  "checkTaskLossiness t =
     own_lossiness t @ (case foreach_template t of Some v \<Rightarrow> checkTaskLossiness v | None \<Rightarrow> [])"
  by pat_completeness auto
termination checkTaskLossiness
  by (relation "measure size") (auto dest: foreach_template_smaller)

declare checkTaskLossiness.simps [simp del]

definition validateWorkflowSpecAgainstBpmnProfile :: "workflow_spec \<Rightarrow> lossy_error list" where
  "validateWorkflowSpecAgainstBpmnProfile spec = concat (map checkTaskLossiness (spec_tasks spec))"

section \<open>Manifests\<close>

text \<open>The manifest schema, on a manifest of the right types; the definition goes through the specification schema.\<close>

definition manifest_schema :: "validator \<Rightarrow> template_manifest \<Rightarrow> template_manifest option" where
  "manifest_schema V m =
     (case va_safeParse V (tm_definition m) of
        Inl issues \<Rightarrow> None
      | Inr spec \<Rightarrow> if tm_key m = [] \<or> tm_name m = [] \<or> tm_version m \<le> 0 then None else Some (m\<lparr>tm_definition := spec\<rparr>))"

datatype manifest_error = SchemaRejected | TemplateErrors "spec_error list" | LintErrors "spec_error list"

definition parseWorkflowTemplateManifest :: "validator \<Rightarrow> template_manifest \<Rightarrow> manifest_error + template_manifest" where
  "parseWorkflowTemplateManifest V raw =
     (case manifest_schema V raw of
        None \<Rightarrow> Inl SchemaRejected
      | Some m \<Rightarrow>
          (let tpl = validateTemplate V (tm_definition m); lint = lintWorkflowSpecForTriggerBundling (tm_definition m)
           in if \<not> vr_ok tpl then Inl (TemplateErrors (vr_errors tpl))
              else if lint \<noteq> [] then Inl (LintErrors lint) else Inr m))"

text \<open>\<^verbatim>\<open>/^@[a-z0-9][a-z0-9-]*\/[a-z0-9][a-z0-9-]*-workflow$/\<close>.\<close>

definition slug_head :: "char \<Rightarrow> bool" where
  "slug_head c \<longleftrightarrow> is_digit c \<or> (97 \<le> (of_char c :: nat) \<and> (of_char c :: nat) \<le> 122)"

definition slug :: "string \<Rightarrow> bool" where
  "slug s \<longleftrightarrow> s \<noteq> [] \<and> slug_head (hd s) \<and> list_all (\<lambda>c. slug_head c \<or> c = CHR ''-'') s"

definition workflow_package_name :: "string \<Rightarrow> bool" where
  "workflow_package_name s \<longleftrightarrow>
     (case split_on (CHR ''/'') s of
        [scope, name] \<Rightarrow>
          scope \<noteq> [] \<and> hd scope = CHR ''@'' \<and> slug (tl scope)
          \<and> starts_with (rev name) (rev ''-workflow'') \<and> slug (take (length name - 9) name)
      | _ \<Rightarrow> False)"

datatype package_error = BadName | BadKind | InlineDefinition | BadVersion | UnexpectedKey string

definition positive_integer :: "json option \<Rightarrow> bool" where
  "positive_integer v \<longleftrightarrow> (case v of Some (JNum n) \<Rightarrow> 0 < n | _ \<Rightarrow> False)"

definition validateWorkflowExtensionPackage :: "json \<Rightarrow> package_error list" where
  "validateWorkflowExtensionPackage pkg =
     (let cinatra = nullish (non_null (get pkg ''cinatra'')) (JObj [])
      in (if (case get_str pkg ''name'' of Some n \<Rightarrow> \<not> workflow_package_name n | None \<Rightarrow> True) then [BadName] else [])
         @ (if get_str cinatra ''kind'' \<noteq> Some ''workflow'' then [BadKind] else [])
         @ (if get cinatra ''workflow'' \<noteq> None then [InlineDefinition] else [])
         @ (if positive_integer (get cinatra ''workflowVersion'') then [] else [BadVersion])
         @ map UnexpectedKey
             (filter (\<lambda>k. k \<notin> {''kind'', ''apiVersion'', ''workflowVersion'', ''dependencies'', ''roles''})
                (case cinatra of JObj kvs \<Rightarrow> map fst kvs | _ \<Rightarrow> [])))"

section \<open>The sidecar\<close>

text \<open>A directory entry; a directory may be unreadable, a file too.\<close>

datatype fs_node =
    FsFile "string option"
  | FsDir "(string \<times> fs_node) list option"
  | FsOther

definition SKIP_DIRS :: "string list" where
  "SKIP_DIRS = [''node_modules'', ''.git'', ''dist'', ''.next'', ''.turbo'']"

text \<open>\<open>rel\<close> is the path from the root to the directory; a hit is the path of the file.\<close>

fun sidecar_hits :: "string list \<Rightarrow> string \<times> fs_node \<Rightarrow> string list list" where
  "sidecar_hits rel (name, FsDir entries) =
     (if name \<in> set SKIP_DIRS then []
      else (case entries of None \<Rightarrow> [] | Some es \<Rightarrow> concat (map (sidecar_hits (rel @ [name])) es)))"
| "sidecar_hits rel (name, FsFile content) =
     (if name = ''workflow.bpmn'' \<and> rel \<noteq> [] \<and> last rel = ''cinatra'' then [rel @ [name]] else [])"
| "sidecar_hits rel (name, FsOther) = []"

definition findAllSidecars :: "(string \<times> fs_node) list \<Rightarrow> string list list" where
  "findAllSidecars root = concat (map (sidecar_hits []) root)"

text \<open>The content of \<^verbatim>\<open>cinatra/workflow.bpmn\<close>, when it can be read.\<close>

definition canonical_sidecar :: "(string \<times> fs_node) list \<Rightarrow> string option" where
  "canonical_sidecar root =
     (case map_of root ''cinatra'' of
        Some (FsDir (Some es)) \<Rightarrow> (case map_of es ''workflow.bpmn'' of Some (FsFile c) \<Rightarrow> c | _ \<Rightarrow> None)
      | _ \<Rightarrow> None)"

datatype sidecar_error =
    InlineDefinitionForbidden
  | WorkflowVersionMissing
  | SidecarMissing
  | SidecarDuplicate "string list list"
  | ParseError
  | UnsupportedConstruct construct_error
  | Structure structure_error
  | CompileFailed bpmn_code
  | TemplateRejected manifest_error

record bpmn_parser =
  bp_fromXML :: "string \<Rightarrow> element option"  \<comment> \<open>\<open>bpmn-moddle\<close>; \<open>None\<close> on an error or a warning\<close>
  bp_js :: js_env
  bp_validator :: validator

definition sidecar_preconditions :: "json \<Rightarrow> (string \<times> fs_node) list \<Rightarrow> sidecar_error list" where
  "sidecar_preconditions pkg root =
     (if get pkg ''workflow'' \<noteq> None then [InlineDefinitionForbidden] else [])
     @ (if positive_integer (get pkg ''workflowVersion'') then [] else [WorkflowVersionMissing])
     @ (if canonical_sidecar root = None then [SidecarMissing]
        else if 1 < length (findAllSidecars root) then [SidecarDuplicate (findAllSidecars root)] else [])"

definition documentation_text :: "element \<Rightarrow> string option" where
  "documentation_text process =
     (case get_list process ''documentation'' of [] \<Rightarrow> None | d # _ \<Rightarrow> get_str d ''text'')"

definition sidecar_manifest :: "element \<Rightarrow> int \<Rightarrow> workflow_spec \<Rightarrow> template_manifest" where
  "sidecar_manifest defs version definition_spec =
     (let process = (case processes defs of p # _ \<Rightarrow> Some p | [] \<Rightarrow> None); descr = Option.bind process documentation_text
      in \<lparr>tm_key = nullish (Option.bind process (\<lambda>p. get_str p ''id'')) (nullish (get_str definition_spec ''key'') []),
          tm_version = version,
          tm_name = nullish (Option.bind process (\<lambda>p. get_str p ''name'')) (nullish (get_str definition_spec ''name'') []),
          tm_description = (if truthy descr then descr else None), tm_definition = definition_spec\<rparr>)"

definition compile_sidecar :: "bpmn_parser \<Rightarrow> int \<Rightarrow> element \<Rightarrow> sidecar_error list + template_manifest" where
  "compile_sidecar B version defs =
     (let profile = validateBpmnAgainstProfile defs
      in if \<not> pr_ok profile then Inl (map UnsupportedConstruct (pr_errors profile) @ map Structure (pr_structure profile))
         else
           (case compileBpmnToWorkflowSpec (bp_js B) (bp_validator B) defs of
              Inl e \<Rightarrow> Inl [CompileFailed (be_code e)]
            | Inr spec \<Rightarrow>
                (case parseWorkflowTemplateManifest (bp_validator B) (sidecar_manifest defs version spec) of
                   Inl e \<Rightarrow> Inl [TemplateRejected e]
                 | Inr m \<Rightarrow> Inr m)))"

definition parseWorkflowBpmnSidecar :: "bpmn_parser \<Rightarrow> json \<Rightarrow> (string \<times> fs_node) list \<Rightarrow> sidecar_error list + template_manifest" where
  "parseWorkflowBpmnSidecar B pkg root =
     (if sidecar_preconditions pkg root \<noteq> [] then Inl (sidecar_preconditions pkg root)
      else
        (case Option.bind (canonical_sidecar root) (bp_fromXML B) of
           None \<Rightarrow> Inl [ParseError]
         | Some defs \<Rightarrow> compile_sidecar B (nullish (int_column (get pkg ''workflowVersion'')) 0) defs))"

end
