(* ===== verification/Wf_Mcp.thy ===== *)
theory Wf_Mcp
  imports Wf_StoreEdit Wf_StoreOps Wf_Scope
begin

text \<open>
  The tools of the assistant, \<^verbatim>\<open>packages/workflows/src/mcp/handlers.ts\<close>, and how the registry calls
  them, \<^verbatim>\<open>mcp/registry.ts\<close>. A handler reads the database and the template table as they are in \<open>s0\<close> and \<open>ts0\<close>
  (all reads of one call see one state) and writes to the ones it is given last; what the host injects is the record
  \<open>mcp_deps\<close>. The arguments are of the types that the tool schemas (a package) have checked; an absent specification
  is \<open>JNull\<close>, which the specification schema rejects as it rejects \<^verbatim>\<open>undefined\<close>.
\<close>

section \<open>Actors, gates and replies\<close>

text \<open>A gate of the host that throws; \<open>None\<close> is a thrown value that is not an \<^verbatim>\<open>Error\<close>.\<close>

datatype host_gate = Pass | Deny "string option"

record mcp_deps =
  md_assertProjectWritable :: "(ident \<Rightarrow> host_gate) option"
  md_assertProjectWriteAccess :: "(workflow_actor \<Rightarrow> ident \<Rightarrow> string \<Rightarrow> host_gate) option"
  md_agentExists :: "(json option \<Rightarrow> ident \<Rightarrow> bool) option"
  md_approverResolvable :: "(json option \<Rightarrow> ident \<Rightarrow> bool) option"
  md_assertExtensionAccess :: "(workflow_actor \<Rightarrow> string \<Rightarrow> string \<Rightarrow> host_gate) option"
  md_assertDependencyClosure :: "(workflow_actor \<Rightarrow> string \<Rightarrow> host_gate) option"

text \<open>What a handler can throw: an error of the store, a refused insertion, an invalid date, an error of the host.\<close>

datatype thrown =
    StoreThrew store_error
  | InsertThrew tx_error
  | DateThrew
  | HostThrew "string option"

datatype 'a reply =
    Answer 'a
  | Refused string "string option"  \<comment> \<open>\<open>error\<close> and \<open>code\<close>\<close>
  | InvalidSpec string "spec_error list"
  | PlaceholdersMissing "string list"
  | Threw thrown

definition NOT_FOUND :: "'a reply" where
  "NOT_FOUND = Refused ''Workflow not found.'' (Some ''NOT_FOUND'')"

definition TEMPLATE_NOT_FOUND :: "'a reply" where
  "TEMPLATE_NOT_FOUND = Refused ''Template not found.'' (Some ''NOT_FOUND'')"

definition ORG_REQUIRED :: "'a reply" where
  "ORG_REQUIRED = Refused ''Active organization required.'' None"

definition USER_REQUIRED :: "'a reply" where
  "USER_REQUIRED = Refused ''Active organization + user required.'' None"

definition strings_of :: "json option \<Rightarrow> string list option" where
  "strings_of v =
     (case v of
        Some (JArr xs) \<Rightarrow> Some (List.map_filter (\<lambda>x. case x of JStr s \<Rightarrow> Some s | _ \<Rightarrow> None) xs)
      | _ \<Rightarrow> None)"

definition getActor :: "json \<Rightarrow> workflow_actor" where
  "getActor actor =
     \<lparr>wa_organizationId = get_str actor ''orgId'', wa_userId = get_str actor ''userId'',
      wa_teamIds = strings_of (get actor ''teamIds''), wa_projectIds = strings_of (get actor ''projectIds''),
      wa_orgRole = get_str actor ''orgRole'', wa_platformRole = get_str actor ''platformRole''\<rparr>"

definition rowScope :: "workflow_row \<Rightarrow> scoped_row" where
  "rowScope w = \<lparr>sr_orgId = w_orgId w, sr_ownerLevel = w_ownerLevel w, sr_ownerId = w_ownerId w, sr_projectId = w_projectId w\<rparr>"

definition templateScope :: "template_row \<Rightarrow> scoped_row" where
  "templateScope t =
     \<lparr>sr_orgId = tp_orgId t, sr_ownerLevel = tp_ownerLevel t, sr_ownerId = tp_ownerId t, sr_projectId = tp_projectId t\<rparr>"

definition readable_workflows :: "workflow_actor \<Rightarrow> workflow_row list \<Rightarrow> workflow_row list" where
  "readable_workflows actor ws = filter (\<lambda>w. isReadable (rowScope w) actor) ws"

definition readable_templates :: "workflow_actor \<Rightarrow> template_row list \<Rightarrow> template_row list" where
  "readable_templates actor ts = filter (\<lambda>t. isReadable (templateScope t) actor) ts"

text \<open>\<open>readWorkflow\<close> followed by the visibility check: an unreadable workflow is as a missing one.\<close>

definition visible_workflow :: "workflow_actor \<Rightarrow> db \<Rightarrow> ident \<Rightarrow> workflow_detail option" where
  "visible_workflow actor s wid =
     (case readWorkflow s wid of
        None \<Rightarrow> None
      | Some d \<Rightarrow> if isReadable (rowScope (wd_workflow d)) actor then Some d else None)"

definition visible_template :: "workflow_actor \<Rightarrow> template_row list \<Rightarrow> ident \<Rightarrow> template_row option" where
  "visible_template actor ts tid =
     (case readWorkflowTemplate tid ts of
        None \<Rightarrow> None
      | Some t \<Rightarrow> if isReadable (templateScope t) actor then Some t else None)"

definition templateSourcePackage :: "template_row \<Rightarrow> string option" where
  "templateSourcePackage t =
     (case Option.bind (tp_origin t) (\<lambda>j. get_str j ''package'') of Some p \<Rightarrow> if p = [] then None else Some p | None \<Rightarrow> None)"

text \<open>The access gate for templates that come from an extension.\<close>

definition extension_gate :: "mcp_deps \<Rightarrow> workflow_actor \<Rightarrow> string \<Rightarrow> template_row \<Rightarrow> host_gate" where
  "extension_gate D actor op t =
     (case (templateSourcePackage t, md_assertExtensionAccess D) of
        (Some p, Some assertAccess) \<Rightarrow> assertAccess actor p op
      | _ \<Rightarrow> Pass)"

record handoff =
  ho_workflowId :: ident
  ho_deepLink :: string
  ho_renderHint :: string

record validated_handoff = handoff +
  vh_draftValid :: bool
  vh_errors :: "spec_error list"

definition handoff_to :: "ident \<Rightarrow> handoff" where
  "handoff_to wid = \<lparr>ho_workflowId = wid, ho_deepLink = ''/workflows/'' @ wid, ho_renderHint = ''gantt''\<rparr>"

definition validated_to :: "ident \<Rightarrow> validation_result \<Rightarrow> validated_handoff" where
  "validated_to wid d =
     handoff.extend (handoff_to wid) (validated_handoff.fields (vr_ok d) (vr_errors d))"

section \<open>Accepting a specification\<close>

datatype materialized =
    SpecErrors "spec_error list"
  | SpecThrew
  | SpecOk workflow_spec validation_result

definition materializeSpec :: "validator \<Rightarrow> json \<Rightarrow> materialized" where
  "materializeSpec V raw =
     (let tpl = validateTemplate V raw
      in if \<not> vr_ok tpl then SpecErrors (vr_errors tpl)
         else
           (case vr_spec tpl of
              None \<Rightarrow> SpecErrors (vr_errors tpl)
            | Some spec \<Rightarrow>
                (let lint = lintWorkflowSpecForTriggerBundling spec
                 in if lint \<noteq> [] then SpecErrors lint
                    else (case validateDraft V spec of Inl e \<Rightarrow> SpecThrew | Inr d \<Rightarrow> SpecOk spec d))))"

definition specName :: "workflow_spec \<Rightarrow> string" where
  "specName spec = nullish (get_str spec ''name'') []"

text \<open>\<open>String.replace\<close> over the placeholder tokens: a name that the inputs have is replaced.\<close>

function fill_text :: "(string \<times> json) list \<Rightarrow> string \<Rightarrow> string" where
  "fill_text inputs s =
     (case s of
        [] \<Rightarrow> []
      | c # cs \<Rightarrow>
          (case match_braced letter name_char False s of
             None \<Rightarrow> c # fill_text inputs cs
           | Some (name, r) \<Rightarrow>
               (case map_of inputs name of
                  Some v \<Rightarrow> js_string v
                | None \<Rightarrow> take (length s - length r) s) @ fill_text inputs r))"
  by pat_completeness auto
termination fill_text
  by (relation "measure (\<lambda>(inputs, s). length s)") (auto dest: match_braced_shorter)

declare fill_text.simps [simp del]

fun fillPlaceholders :: "(string \<times> json) list \<Rightarrow> json \<Rightarrow> json" where
  "fillPlaceholders inputs (JStr s) = JStr (fill_text inputs s)"
| "fillPlaceholders inputs (JArr xs) = JArr (map (fillPlaceholders inputs) xs)"
| "fillPlaceholders inputs (JObj kvs) = JObj (map (\<lambda>(k, v). (k, fillPlaceholders inputs v)) kvs)"
| "fillPlaceholders inputs v = v"

definition quoted :: "string \<Rightarrow> string" where
  "quoted s = [CHR 34] @ s @ [CHR 34]"

text \<open>Agents and approvers must exist in the organization of the actor.\<close>

definition reauthorizeReferences :: "mcp_deps \<Rightarrow> workflow_spec \<Rightarrow> ident \<Rightarrow> (string \<times> string) option" where
  "reauthorizeReferences D spec org =
     (case Option.bind (md_agentExists D)
             (\<lambda>exists. find (\<lambda>t. task_type t = ''agent_task'' \<and> \<not> exists (get t ''agentRef'') org) (spec_tasks spec)) of
        Some t \<Rightarrow> Some (''Agent for task '' @ quoted (task_key t) @ '' is not available in this organization.'', ''AGENT_NOT_FOUND'')
      | None \<Rightarrow>
          (case Option.bind (md_approverResolvable D)
                  (\<lambda>canResolve. find (\<lambda>t. task_type t = ''approval'' \<and> \<not> canResolve (get t ''requiredScope'') org) (spec_tasks spec)) of
             Some t \<Rightarrow> Some (''Approver scope for task '' @ quoted (task_key t) @ '' cannot be resolved.'', ''APPROVER_UNRESOLVABLE'')
           | None \<Rightarrow> None))"

section \<open>What a reply shows\<close>

definition ALLOWED_METADATA_KEYS :: "string list" where
  "ALLOWED_METADATA_KEYS = [''foreach_materialization_error'', ''foreach_has_failure'', ''foreach_has_success'']"

definition pickPublicMetadata :: "(string \<times> json) list \<Rightarrow> (string \<times> json) list" where
  "pickPublicMetadata meta = concat (map (\<lambda>k. json_field k (map_of meta k)) ALLOWED_METADATA_KEYS)"

text \<open>The task without \<^verbatim>\<open>foreach_config\<close>, assignee, attempts policy and internal metadata.\<close>

record public_task =
  pt_id :: ident
  pt_key :: string
  pt_type :: string
  pt_title :: string
  pt_status :: task_status
  pt_parentTaskId :: "ident option"
  pt_plannedStartUtc :: "instant option"
  pt_plannedEndUtc :: "instant option"
  pt_actualStartUtc :: "instant option"
  pt_actualEndUtc :: "instant option"
  pt_dueAtUtc :: "instant option"
  pt_required :: bool
  pt_failurePolicy :: "failure_policy option"
  pt_missedWindowPolicy :: "string option"
  pt_pinned :: bool
  pt_risk :: "string option"
  pt_agentPackage :: "string option"
  pt_agentRef :: "json option"
  pt_input :: "json option"
  pt_schedule :: "json option"
  pt_anchor :: "json option"
  pt_metadata :: "(string \<times> json) list"

definition toPublicTaskDto :: "task_row \<Rightarrow> public_task" where
  "toPublicTaskDto t =
     \<lparr>pt_id = t_id t, pt_key = t_key t, pt_type = t_type t, pt_title = t_title t, pt_status = t_status t,
      pt_parentTaskId = t_parentTaskId t, pt_plannedStartUtc = t_plannedStartUtc t, pt_plannedEndUtc = t_plannedEndUtc t,
      pt_actualStartUtc = t_actualStartUtc t, pt_actualEndUtc = t_actualEndUtc t, pt_dueAtUtc = t_dueAtUtc t,
      pt_required = t_required t, pt_failurePolicy = t_failurePolicy t, pt_missedWindowPolicy = t_missedWindowPolicy t,
      pt_pinned = t_pinned t, pt_risk = t_risk t, pt_agentPackage = t_agentPackage t, pt_agentRef = t_agentRef t,
      pt_input = t_input t, pt_schedule = t_schedule t, pt_anchor = t_anchor t,
      pt_metadata = pickPublicMetadata (t_metadata t)\<rparr>"

record task_summary =
  sy_key :: string
  sy_type :: string
  sy_title :: string
  sy_status :: task_status
  sy_plannedStartUtc :: "instant option"
  sy_plannedEndUtc :: "instant option"
  sy_dueAtUtc :: "instant option"
  sy_metadata :: "(string \<times> json) list"

record status_summary =
  su_id :: ident
  su_name :: string
  su_status :: workflow_status
  su_targetAtUtc :: "instant option"
  su_lockVersion :: int
  su_tasks :: "task_summary list"

definition statusSummary :: "workflow_detail \<Rightarrow> status_summary" where
  "statusSummary d =
     (let wf = wd_workflow d
      in \<lparr>su_id = w_id wf, su_name = w_name wf, su_status = w_status wf, su_targetAtUtc = w_targetAtUtc wf,
          su_lockVersion = w_lockVersion wf,
          su_tasks = map (\<lambda>t. \<lparr>sy_key = t_key t, sy_type = t_type t, sy_title = t_title t, sy_status = t_status t,
                         sy_plannedStartUtc = t_plannedStartUtc t, sy_plannedEndUtc = t_plannedEndUtc t,
                         sy_dueAtUtc = t_dueAtUtc t, sy_metadata = pickPublicMetadata (t_metadata t)\<rparr>) (wd_tasks d)\<rparr>)"

record workflow_item =
  wi_id :: ident
  wi_name :: string
  wi_status :: workflow_status
  wi_targetAtUtc :: "instant option"

definition workflow_item_of :: "workflow_row \<Rightarrow> workflow_item" where
  "workflow_item_of w = \<lparr>wi_id = w_id w, wi_name = w_name w, wi_status = w_status w, wi_targetAtUtc = w_targetAtUtc w\<rparr>"

section \<open>Templates\<close>

record template_item =
  ti_id :: ident
  ti_key :: string
  ti_version :: int
  ti_name :: string

definition template_item_of :: "template_row \<Rightarrow> template_item" where
  "template_item_of t = \<lparr>ti_id = tp_id t, ti_key = tp_key t, ti_version = tp_version t, ti_name = tp_name t\<rparr>"

definition workflow_template_list :: "mcp_deps \<Rightarrow> workflow_actor \<Rightarrow> template_row list \<Rightarrow> template_item list reply" where
  "workflow_template_list D actor ts =
     (if \<not> truthy (wa_organizationId actor) then ORG_REQUIRED
      else Answer (map template_item_of
             (filter (\<lambda>t. extension_gate D actor ''list'' t = Pass)
                (readable_templates actor (listWorkflowTemplates (nullish (wa_organizationId actor) []) ts)))))"

record template_view = template_item +
  tv_placeholders :: json
  tv_metadata :: json

definition template_view_of :: "template_row \<Rightarrow> template_view" where
  "template_view_of t =
     template_item.extend (template_item_of t)
       (template_view.fields (nullish (non_null (get (tp_definition t) ''placeholders'')) (JObj []))
          (nullish (non_null (get (tp_definition t) ''metadata'')) (JObj [])))"

definition workflow_template_get ::
  "mcp_deps \<Rightarrow> workflow_actor \<Rightarrow> string option \<Rightarrow> template_row list \<Rightarrow> template_view reply" where
  "workflow_template_get D actor templateId ts =
     (if \<not> truthy (wa_organizationId actor) then ORG_REQUIRED
      else if \<not> truthy templateId then Refused ''templateId is required.'' None
      else
        (case visible_template actor ts (nullish templateId []) of
           None \<Rightarrow> TEMPLATE_NOT_FOUND
         | Some t \<Rightarrow>
             if extension_gate D actor ''read'' t \<noteq> Pass then TEMPLATE_NOT_FOUND else Answer (template_view_of t)))"

section \<open>Drafts\<close>

text \<open>The row a tool creates: a draft of the actor's own in the actor's organization.\<close>

definition draft_input :: "workflow_actor \<Rightarrow> workflow_spec \<Rightarrow> string \<Rightarrow> create_input" where
  "draft_input actor spec name =
     \<lparr>ci_spec = spec, ci_name = name, ci_product = get_str spec ''product'', ci_status = Some WDraft,
      ci_sourceTemplateId = None, ci_sourceTemplateVersion = None, ci_createdBy = wa_userId actor,
      ci_ownerLevel = Some ''user'', ci_ownerId = wa_userId actor, ci_orgId = nullish (wa_organizationId actor) [],
      ci_projectId = None\<rparr>"

definition created ::
  "env \<Rightarrow> validator \<Rightarrow> create_input \<Rightarrow> (ident \<Rightarrow> 'a) \<Rightarrow> db \<Rightarrow> 'a reply \<times> db" where
  "created E V input answer s =
     (case createWorkflowFromSpec E (va_calendar V) input s of
        Inl e \<Rightarrow> (Threw (StoreThrew e), s)
      | Inr (wid, s') \<Rightarrow> (Answer (answer wid), s'))"

definition workflow_draft_create ::
  "env \<Rightarrow> validator \<Rightarrow> workflow_actor \<Rightarrow> json \<Rightarrow> db \<Rightarrow> validated_handoff reply \<times> db" where
  "workflow_draft_create E V actor raw s =
     (if \<not> truthy (wa_organizationId actor) \<or> \<not> truthy (wa_userId actor) then (USER_REQUIRED, s)
      else
        (case materializeSpec V raw of
           SpecErrors es \<Rightarrow> (InvalidSpec ''Spec is invalid.'' es, s)
         | SpecThrew \<Rightarrow> (Threw DateThrew, s)
         | SpecOk spec d \<Rightarrow> created E V (draft_input actor spec (specName spec)) (\<lambda>wid. validated_to wid d) s))"

record updated_handoff = validated_handoff +
  uh_lockVersion :: int

text \<open>The row and the permissions are read on \<open>s0\<close>, the store reads again on \<open>s1\<close>, and its transaction runs on \<open>s\<close>.\<close>

definition draft_update_write ::
  "env \<Rightarrow> validator \<Rightarrow> ident \<Rightarrow> workflow_spec \<Rightarrow> validation_result \<Rightarrow> string option \<Rightarrow> int \<Rightarrow> db \<Rightarrow> db \<Rightarrow>
   updated_handoff reply \<times> db" where
  "draft_update_write E V wid spec d name expected s1 s =
     (let (r, s') = updateWorkflowDraftSpec E (va_calendar V)
            \<lparr>ui_workflowId = wid, ui_spec = spec, ui_name = name, ui_product = None,
             ui_expectedLockVersion = expected, ui_excludeFromFreeze = []\<rparr> s1 s
      in (case r of
            UpdateOk v \<Rightarrow> Answer (validated_handoff.extend (validated_to wid d) (updated_handoff.fields v))
          | UpdateRefused reason \<Rightarrow> Refused (''Update failed ('' @ reason @ '').'') (Some reason)
          | UpdateThrew e \<Rightarrow> Threw (StoreThrew e), s'))"

definition project_gate :: "mcp_deps \<Rightarrow> workflow_row \<Rightarrow> host_gate" where
  "project_gate D w =
     (case (w_projectId w, md_assertProjectWritable D) of
        (Some p, Some assertWritable) \<Rightarrow> if p = [] then Pass else assertWritable p
      | _ \<Rightarrow> Pass)"

definition workflow_draft_update ::
  "env \<Rightarrow> validator \<Rightarrow> mcp_deps \<Rightarrow> workflow_actor \<Rightarrow> string option \<Rightarrow> json \<Rightarrow> int option \<Rightarrow> string option \<Rightarrow> db \<Rightarrow> db \<Rightarrow> db \<Rightarrow>
   updated_handoff reply \<times> db" where
  "workflow_draft_update E V D actor workflowId raw expectedLockVersion name s0 s1 s =
     (if \<not> truthy (wa_organizationId actor) then (ORG_REQUIRED, s)
      else if \<not> truthy workflowId \<or> expectedLockVersion = None
      then (Refused ''workflowId and expectedLockVersion are required.'' None, s)
      else
        (case visible_workflow actor s0 (nullish workflowId []) of
           None \<Rightarrow> (NOT_FOUND, s)
         | Some existing \<Rightarrow>
             if \<not> canManage (rowScope (wd_workflow existing)) actor
             then (Refused ''You cannot edit this workflow.'' (Some ''FORBIDDEN''), s)
             else if w_status (wd_workflow existing) \<noteq> WDraft
             then (Refused ''Only draft workflows can be edited from chat. Manage active workflows on the Gantt.'' (Some ''DRAFT_ONLY''), s)
             else
               (case materializeSpec V raw of
                  SpecErrors es \<Rightarrow> (InvalidSpec ''Spec is invalid.'' es, s)
                | SpecThrew \<Rightarrow> (Threw DateThrew, s)
                | SpecOk spec d \<Rightarrow>
                    (case project_gate D (wd_workflow existing) of
                       Deny msg \<Rightarrow> (Threw (HostThrew msg), s)
                     | Pass \<Rightarrow> draft_update_write E V (nullish workflowId []) spec d name (nullish expectedLockVersion 0) s1 s))))"

record draft_view = handoff +
  dv_workflow :: workflow_row
  dv_tasks :: "public_task list"
  dv_dependencies :: "dependency_row list"
  dv_timeline :: "string \<rightharpoonup> resolved_task"

definition plain_options :: resolve_options where
  "plain_options = \<lparr>ro_targetAtUtc = None, ro_frozenDueAt = Map.empty\<rparr>"

text \<open>The part that the tools for reading one workflow share.\<close>

definition with_workflow ::
  "workflow_actor \<Rightarrow> string option \<Rightarrow> db \<Rightarrow> (workflow_detail \<Rightarrow> 'a reply) \<Rightarrow> 'a reply" where
  "with_workflow actor workflowId s f =
     (if \<not> truthy (wa_organizationId actor) then ORG_REQUIRED
      else if \<not> truthy workflowId then Refused ''workflowId is required.'' None
      else (case visible_workflow actor s (nullish workflowId []) of None \<Rightarrow> NOT_FOUND | Some d \<Rightarrow> f d))"

definition draft_timeline :: "env \<Rightarrow> validator \<Rightarrow> workflow_spec option \<Rightarrow> (string \<rightharpoonup> resolved_task) option" where
  "draft_timeline E V spec =
     (case spec of
        None \<Rightarrow> Some Map.empty
      | Some sp \<Rightarrow>
          (case resolveSchedule (va_calendar V) (e_wall E) sp plain_options of
             Inl e \<Rightarrow> None
           | Inr res \<Rightarrow> Some (rr_tasks res)))"

definition workflow_draft_get ::
  "env \<Rightarrow> validator \<Rightarrow> workflow_actor \<Rightarrow> string option \<Rightarrow> db \<Rightarrow> draft_view reply" where
  "workflow_draft_get E V actor workflowId s =
     with_workflow actor workflowId s (\<lambda>d.
       case draft_timeline E V (reconstructSpec s (nullish workflowId [])) of
         None \<Rightarrow> Threw DateThrew
       | Some timeline \<Rightarrow>
           Answer (handoff.extend (handoff_to (w_id (wd_workflow d)))
             (draft_view.fields (wd_workflow d) (map toPublicTaskDto (wd_tasks d)) (wd_dependencies d) timeline)))"

definition workflow_draft_list :: "workflow_actor \<Rightarrow> string option \<Rightarrow> db \<Rightarrow> workflow_item list reply" where
  "workflow_draft_list actor status s =
     (if \<not> truthy (wa_organizationId actor) then ORG_REQUIRED
      else Answer (map workflow_item_of
             (readable_workflows actor (listWorkflows (nullish (wa_organizationId actor) []) status None s))))"

section \<open>Checking and previewing\<close>

record tier_report =
  tr_ok :: bool
  tr_errors :: "spec_error list"

definition tier_report_of :: "validation_result \<Rightarrow> tier_report" where
  "tier_report_of r = \<lparr>tr_ok = vr_ok r, tr_errors = vr_errors r\<rparr>"

record validate_report =
  va_template :: tier_report
  va_draft :: tier_report
  va_start :: tier_report
  va_triggerLint :: "spec_error list"

definition workflow_validate :: "validator \<Rightarrow> json \<Rightarrow> validate_report reply" where
  "workflow_validate V raw =
     (let tpl = validateTemplate V raw;
          lint = (case vr_spec tpl of Some spec \<Rightarrow> if vr_ok tpl then lintWorkflowSpecForTriggerBundling spec else [] | None \<Rightarrow> [])
      in case (validateDraft V raw, validateStart V None raw) of
           (Inr draft, Inr start) \<Rightarrow>
             Answer \<lparr>va_template = tier_report_of tpl, va_draft = tier_report_of draft, va_start = tier_report_of start,
                     va_triggerLint = lint\<rparr>
         | _ \<Rightarrow> Threw DateThrew)"

record preview =
  pv_handoff :: "handoff option"
  pv_draftValid :: bool
  pv_errors :: "spec_error list"
  pv_timeline :: "string \<rightharpoonup> resolved_task"
  pv_warnings :: "resolve_warning list"

definition preview_spec :: "env \<Rightarrow> validator \<Rightarrow> handoff option \<Rightarrow> json \<Rightarrow> preview reply" where
  "preview_spec E V link raw =
     (case materializeSpec V raw of
        SpecErrors es \<Rightarrow> InvalidSpec ''Spec is invalid.'' es
      | SpecThrew \<Rightarrow> Threw DateThrew
      | SpecOk spec d \<Rightarrow>
          (case resolveSchedule (va_calendar V) (e_wall E) spec plain_options of
             Inl e \<Rightarrow> Threw DateThrew
           | Inr res \<Rightarrow>
               Answer \<lparr>pv_handoff = link, pv_draftValid = vr_ok d, pv_errors = vr_errors d,
                       pv_timeline = rr_tasks res, pv_warnings = rr_warnings res\<rparr>))"

definition workflow_preview ::
  "env \<Rightarrow> validator \<Rightarrow> workflow_actor \<Rightarrow> json \<Rightarrow> string option \<Rightarrow> db \<Rightarrow> preview reply" where
  "workflow_preview E V actor raw workflowId s =
     (if \<not> truthy workflowId then preview_spec E V None raw
      else
        with_workflow actor workflowId s (\<lambda>d.
          preview_spec E V (Some (handoff_to (nullish workflowId [])))
            (nullish (reconstructSpec s (nullish workflowId [])) JNull)))"

definition workflow_status_get :: "workflow_actor \<Rightarrow> string option \<Rightarrow> db \<Rightarrow> status_summary reply" where
  "workflow_status_get actor workflowId s = with_workflow actor workflowId s (\<lambda>d. Answer (statusSummary d))"

text \<open>The fields of an artifact row are the ones the reply lists.\<close>

definition workflow_artifacts_list ::
  "workflow_actor \<Rightarrow> string option \<Rightarrow> string option \<Rightarrow> db \<Rightarrow> artifact_row list reply" where
  "workflow_artifacts_list actor workflowId taskId s =
     with_workflow actor workflowId s (\<lambda>d. Answer (listWorkflowArtifacts (nullish workflowId []) taskId s))"

definition workflow_status_list ::
  "workflow_actor \<Rightarrow> string option \<Rightarrow> string option \<Rightarrow> db \<Rightarrow> workflow_item list reply" where
  "workflow_status_list actor status projectId s =
     (if \<not> truthy (wa_organizationId actor) then ORG_REQUIRED
      else Answer (map workflow_item_of
             (readable_workflows actor (listWorkflows (nullish (wa_organizationId actor) []) status projectId s))))"

record cascade_view = handoff +
  cv_targetAt :: string
  cv_cascade :: "cascade_entry list"
  cv_lockVersion :: int

definition workflow_cascade_preview ::
  "env \<Rightarrow> validator \<Rightarrow> workflow_actor \<Rightarrow> string option \<Rightarrow> string option \<Rightarrow> db \<Rightarrow> cascade_view reply" where
  "workflow_cascade_preview E V actor workflowId targetAt s =
     (if \<not> truthy (wa_organizationId actor) then ORG_REQUIRED
      else if \<not> truthy workflowId \<or> \<not> truthy targetAt then Refused ''workflowId and targetAt are required.'' None
      else
        (case visible_workflow actor s (nullish workflowId []) of
           None \<Rightarrow> NOT_FOUND
         | Some existing \<Rightarrow>
             (case reconstructSpec s (nullish workflowId []) of
                None \<Rightarrow> NOT_FOUND
              | Some spec \<Rightarrow>
                  (case computeCascadeDiff (va_calendar V) (e_wall E) (e_wall E) spec targetAt of
                     Inl e \<Rightarrow> Threw DateThrew
                   | Inr cascade \<Rightarrow>
                       Answer (handoff.extend (handoff_to (nullish workflowId []))
                         (cascade_view.fields (nullish targetAt []) cascade (w_lockVersion (wd_workflow existing))))))))"

section \<open>Instantiating a template\<close>

text \<open>
  The required placeholders without a value. \<open>supplied[name]\<close> also finds the names every object inherits, so a
  placeholder of such a name is never missing.
\<close>

definition supplied_value :: "(string \<times> json) list \<Rightarrow> string \<Rightarrow> bool" where
  "supplied_value inputs name \<longleftrightarrow>
     (case map_of inputs name of
        None \<Rightarrow> name \<in> set OBJECT_PROTOTYPE
      | Some JNull \<Rightarrow> False
      | Some (JStr s) \<Rightarrow> js_trim s \<noteq> []
      | Some v \<Rightarrow> True)"

definition required_placeholders :: "workflow_spec \<Rightarrow> string list" where
  "required_placeholders spec =
     (case get spec ''placeholders'' of
        Some (JObj decls) \<Rightarrow>
          map fst (filter (\<lambda>(name, decl). case get decl ''required'' of Some r \<Rightarrow> js_truthy r | None \<Rightarrow> False) decls)
      | _ \<Rightarrow> [])"

definition missing_placeholders :: "workflow_spec \<Rightarrow> (string \<times> json) list \<Rightarrow> string list" where
  "missing_placeholders spec inputs = filter (\<lambda>name. \<not> supplied_value inputs name) (required_placeholders spec)"

definition set_target :: "string option \<Rightarrow> string option \<Rightarrow> json \<Rightarrow> json" where
  "set_target targetAt targetTz raw =
     (if \<not> truthy targetAt \<and> \<not> truthy targetTz then raw
      else
        (let field = (\<lambda>k. Option.bind (get raw ''target'') (\<lambda>t. get t k))
         in put ''target''
              (JObj (json_field ''at'' (case targetAt of Some a \<Rightarrow> Some (JStr a) | None \<Rightarrow> field ''at'')
                 @ [(''tz'', case targetTz of Some z \<Rightarrow> JStr z | None \<Rightarrow> nullish (non_null (field ''tz'')) (JStr ''UTC''))])) raw))"

record instantiate_input =
  ii_templateId :: "string option"
  ii_name :: "string option"
  ii_inputs :: "(string \<times> json) list option"
  ii_targetAt :: "string option"
  ii_targetTz :: "string option"
  ii_projectId :: "string option"

record instantiated_handoff = validated_handoff +
  ih_sourceTemplateId :: ident
  ih_sourceTemplateVersion :: int

text \<open>The gates of the host before any write, in order.\<close>

definition instantiate_gates :: "mcp_deps \<Rightarrow> workflow_actor \<Rightarrow> instantiate_input \<Rightarrow> template_row \<Rightarrow> (string \<times> string) option" where
  "instantiate_gates D actor input t =
     (case extension_gate D actor ''execute'' t of
        Deny msg \<Rightarrow> Some (nullish msg ''You cannot use this workflow extension.'', ''FORBIDDEN'')
      | Pass \<Rightarrow>
          (case (case (templateSourcePackage t, md_assertDependencyClosure D) of
                   (Some p, Some closure) \<Rightarrow> closure actor p | _ \<Rightarrow> Pass) of
             Deny msg \<Rightarrow> Some (nullish msg (''This workflow extension'' @ [CHR 39] @ ''s dependencies are not satisfied.''), ''DEPENDENCY_CLOSURE'')
           | Pass \<Rightarrow>
               if \<not> truthy (ii_projectId input) then None
               else
                 (case md_assertProjectWriteAccess D of
                    None \<Rightarrow> Some (''Project scoping is not available.'', ''PROJECT_SCOPE_UNAVAILABLE'')
                  | Some assertAccess \<Rightarrow>
                      (case assertAccess actor (nullish (ii_projectId input) []) ''write'' of
                         Deny msg \<Rightarrow> Some (nullish msg ''You cannot write to this project.'', ''FORBIDDEN'')
                       | Pass \<Rightarrow> None))))"

definition instantiated_spec :: "instantiate_input \<Rightarrow> template_row \<Rightarrow> json" where
  "instantiated_spec input t =
     set_target (ii_targetAt input) (ii_targetTz input)
       (fillPlaceholders (nullish (ii_inputs input) []) (tp_definition t))"

definition instantiate_template ::
  "env \<Rightarrow> validator \<Rightarrow> mcp_deps \<Rightarrow> workflow_actor \<Rightarrow> instantiate_input \<Rightarrow> template_row \<Rightarrow> db \<Rightarrow> instantiated_handoff reply \<times> db" where
  "instantiate_template E V D actor input t s =
     (if missing_placeholders (tp_definition t) (nullish (ii_inputs input) []) \<noteq> []
      then (PlaceholdersMissing (missing_placeholders (tp_definition t) (nullish (ii_inputs input) [])), s)
      else
        (case materializeSpec V (instantiated_spec input t) of
           SpecErrors es \<Rightarrow> (InvalidSpec ''Instantiated spec is invalid.'' es, s)
         | SpecThrew \<Rightarrow> (Threw DateThrew, s)
         | SpecOk spec d \<Rightarrow>
             (case reauthorizeReferences D spec (nullish (wa_organizationId actor) []) of
                Some (error, code) \<Rightarrow> (Refused error (Some code), s)
              | None \<Rightarrow>
                  created E V
                    ((draft_input actor spec (nullish (ii_name input) (specName spec)))
                       \<lparr>ci_sourceTemplateId := Some (tp_id t), ci_sourceTemplateVersion := Some (tp_version t),
                        ci_projectId := ii_projectId input\<rparr>)
                    (\<lambda>wid. validated_handoff.extend (validated_to wid d) (instantiated_handoff.fields (tp_id t) (tp_version t))) s)))"

definition workflow_template_instantiate ::
  "env \<Rightarrow> validator \<Rightarrow> mcp_deps \<Rightarrow> workflow_actor \<Rightarrow> instantiate_input \<Rightarrow> template_row list \<Rightarrow> db \<Rightarrow>
   instantiated_handoff reply \<times> db" where
  "workflow_template_instantiate E V D actor input ts s =
     (if \<not> truthy (wa_organizationId actor) \<or> \<not> truthy (wa_userId actor) then (USER_REQUIRED, s)
      else if \<not> truthy (ii_templateId input) then (Refused ''templateId is required.'' None, s)
      else
        (case visible_template actor ts (nullish (ii_templateId input) []) of
           None \<Rightarrow> (TEMPLATE_NOT_FOUND, s)
         | Some t \<Rightarrow>
             (case instantiate_gates D actor input t of
                Some (error, code) \<Rightarrow> (Refused error (Some code), s)
              | None \<Rightarrow> instantiate_template E V D actor input t s)))"

section \<open>Copying and saving\<close>

record copied_handoff = handoff +
  ch_copiedFrom :: ident

definition workflow_copy ::
  "env \<Rightarrow> validator \<Rightarrow> workflow_actor \<Rightarrow> string option \<Rightarrow> string option \<Rightarrow> string option \<Rightarrow> db \<Rightarrow> db \<Rightarrow>
   copied_handoff reply \<times> db" where
  "workflow_copy E V actor sourceWorkflowId name targetAt s0 s =
     (if \<not> truthy (wa_organizationId actor) \<or> \<not> truthy (wa_userId actor) then (USER_REQUIRED, s)
      else if \<not> truthy sourceWorkflowId then (Refused ''sourceWorkflowId is required.'' None, s)
      else
        (let gone = (Refused ''Source workflow not found.'' (Some ''NOT_FOUND''), s)
         in case visible_workflow actor s0 (nullish sourceWorkflowId []) of
              None \<Rightarrow> gone
            | Some source \<Rightarrow>
                (case reconstructSpec s0 (nullish sourceWorkflowId []) of
                   None \<Rightarrow> gone
                 | Some spec \<Rightarrow>
                     (case materializeSpec V (if truthy targetAt then set_target targetAt None spec else spec) of
                        SpecErrors es \<Rightarrow> (InvalidSpec ''Copied spec is invalid.'' es, s)
                      | SpecThrew \<Rightarrow> (Threw DateThrew, s)
                      | SpecOk copy d \<Rightarrow>
                          created E V (draft_input actor copy (nullish name (w_name (wd_workflow source) @ '' (copy)'')))
                            (\<lambda>wid. handoff.extend (handoff_to wid) (copied_handoff.fields (w_id (wd_workflow source)))) s))))"

record saved_template =
  sv_templateId :: ident
  sv_key :: string
  sv_version :: int

text \<open>One more than the highest version of the key in the organization.\<close>

definition next_template_version :: "ident \<Rightarrow> string \<Rightarrow> template_row list \<Rightarrow> int" where
  "next_template_version org key ts =
     fold (\<lambda>t m. max m (tp_version t)) (filter (\<lambda>t. tp_key t = key) (listWorkflowTemplates org ts)) 0 + 1"

definition template_input :: "workflow_actor \<Rightarrow> string \<Rightarrow> int \<Rightarrow> string \<Rightarrow> workflow_spec \<Rightarrow> template_row" where
  "template_input actor key version name spec =
     \<lparr>tp_id = [], tp_key = key, tp_version = version, tp_name = name, tp_description = None, tp_definition = spec,
      tp_ownerLevel = Some ''user'', tp_ownerId = wa_userId actor, tp_orgId = nullish (wa_organizationId actor) [],
      tp_projectId = None, tp_origin = None, tp_visibility = None, tp_packageName = None,
      tp_createdBy = wa_userId actor, tp_createdAt = 0, tp_updatedAt = 0\<rparr>"

definition save_template ::
  "env \<Rightarrow> template_row \<Rightarrow> template_row list \<Rightarrow> db \<Rightarrow> saved_template reply \<times> template_row list \<times> db" where
  "save_template E input ts s =
     (case createWorkflowTemplate E input ts s of
        Inl e \<Rightarrow> (Threw (InsertThrew e), ts, s)
      | Inr (row, ts', s') \<Rightarrow>
          (Answer \<lparr>sv_templateId = tp_id row, sv_key = tp_key row, sv_version = tp_version row\<rparr>, ts', s'))"

definition workflow_save_as_template ::
  "env \<Rightarrow> validator \<Rightarrow> workflow_actor \<Rightarrow> string option \<Rightarrow> string option \<Rightarrow> string option \<Rightarrow> int option \<Rightarrow>
   template_row list \<Rightarrow> db \<Rightarrow> template_row list \<Rightarrow> db \<Rightarrow> saved_template reply \<times> template_row list \<times> db" where
  "workflow_save_as_template E V actor workflowId key name version ts0 s0 ts s =
     (if \<not> truthy (wa_organizationId actor) \<or> \<not> truthy (wa_userId actor) then (USER_REQUIRED, ts, s)
      else if \<not> truthy workflowId \<or> \<not> truthy key then (Refused ''workflowId and key are required.'' None, ts, s)
      else
        (case visible_workflow actor s0 (nullish workflowId []) of
           None \<Rightarrow> (NOT_FOUND, ts, s)
         | Some source \<Rightarrow>
             if \<not> canManage (rowScope (wd_workflow source)) actor
             then (Refused ''You cannot save this workflow as a template.'' (Some ''FORBIDDEN''), ts, s)
             else
               (case reconstructSpec s0 (nullish workflowId []) of
                  None \<Rightarrow> (NOT_FOUND, ts, s)
                | Some reconstructed \<Rightarrow>
                    (case materializeSpec V reconstructed of
                       SpecErrors es \<Rightarrow> (InvalidSpec ''Cannot save an invalid workflow as a template.'' es, ts, s)
                     | SpecThrew \<Rightarrow> (Threw DateThrew, ts, s)
                     | SpecOk spec d \<Rightarrow>
                         save_template E
                           (template_input actor (nullish key [])
                              (nullish version (next_template_version (nullish (wa_organizationId actor) []) (nullish key []) ts0))
                              (nullish name (w_name (wd_workflow source))) spec) ts s))))"

end
