(* ===== verification/Wf_Extension.thy ===== *)
theory Wf_Extension
  imports Wf_BpmnProfile Wf_Mcp
begin

text \<open>
  Workflow extensions, \<^verbatim>\<open>packages/workflows/src/extension-ops.ts\<close> and \<^verbatim>\<open>extension-handler.ts\<close>: the installation of a
  template from a package on disk, the archive guard, the type handler, and the templates an actor can discover, with
  the visibility gate of \<^verbatim>\<open>packages/extension-types/src/index.ts\<close>. The dashboards package is a parameter over a state \<open>'d\<close>; an
  operation that throws is \<open>None\<close>. The file tree is that of the sidecar.
\<close>

section \<open>Installing a template\<close>

record extension_deps =
  xd_agentExists :: "(json option \<Rightarrow> ident \<Rightarrow> bool) option"
  xd_approverResolvable :: "(json option \<Rightarrow> ident \<Rightarrow> bool) option"
  xd_orgListResolver :: "(ident \<Rightarrow> string list) option"

datatype install_error =
    ManifestRejected manifest_error
  | AgentUnavailable string
  | ApproverUnresolvable string

text \<open>The loops over the tasks stop at the first agent, then at the first approver, that the organization lacks.\<close>

definition reauth_error :: "extension_deps \<Rightarrow> workflow_spec \<Rightarrow> ident \<Rightarrow> install_error option" where
  "reauth_error D spec org =
     (case Option.bind (xd_agentExists D)
             (\<lambda>exists. find (\<lambda>t. task_type t = ''agent_task'' \<and> \<not> exists (get t ''agentRef'') org) (spec_tasks spec)) of
        Some t \<Rightarrow> Some (AgentUnavailable (task_key t))
      | None \<Rightarrow>
          map_option (\<lambda>t. ApproverUnresolvable (task_key t))
            (Option.bind (xd_approverResolvable D)
               (\<lambda>canResolve. find (\<lambda>t. task_type t = ''approval'' \<and> \<not> canResolve (get t ''requiredScope'') org) (spec_tasks spec))))"

text \<open>The identifier is that of the row of the upsert.\<close>

definition installWorkflowTemplate ::
  "env \<Rightarrow> validator \<Rightarrow> extension_deps \<Rightarrow> template_manifest \<Rightarrow> install_scope \<Rightarrow> template_row list \<Rightarrow> db \<Rightarrow>
   (install_error + ident) \<times> template_row list \<times> db" where
  "installWorkflowTemplate E V D raw scope ts s =
     (case parseWorkflowTemplateManifest V raw of
        Inl e \<Rightarrow> (Inl (ManifestRejected e), ts, s)
      | Inr m \<Rightarrow>
          (case reauth_error D (tm_definition m) (is_orgId scope) of
             Some e \<Rightarrow> (Inl e, ts, s)
           | None \<Rightarrow>
               (let (ts', s') = materializeTemplateFromManifest E m scope ts s
                in (Inr (case findWorkflowTemplate (is_orgId scope) (tm_key m) (tm_version m) ts' of
                           Some row \<Rightarrow> tp_id row | None \<Rightarrow> []), ts', s'))))"

section \<open>The package on disk\<close>

type_synonym directory = "(string \<times> fs_node) list"

definition file_text :: "directory \<Rightarrow> string \<Rightarrow> string option" where
  "file_text es name = (case map_of es name of Some (FsFile c) \<Rightarrow> c | _ \<Rightarrow> None)"

text \<open>The entries of a readable directory.\<close>

definition dir_entries :: "fs_node \<Rightarrow> directory option" where
  "dir_entries node = (case node of FsDir es \<Rightarrow> es | _ \<Rightarrow> None)"

definition package_json :: "js_env \<Rightarrow> directory \<Rightarrow> json option" where
  "package_json J es = Option.bind (file_text es ''package.json'') (js_parse J)"

definition scope_dir :: "string \<Rightarrow> bool" where
  "scope_dir name \<longleftrightarrow> name \<noteq> ''node_modules'' \<and> \<not> starts_with name ''.''"

text \<open>The first \<open><scope>/<slug>\<close> whose \<^verbatim>\<open>package.json\<close> has the name; what cannot be read is skipped.\<close>

definition package_dirs :: "directory \<Rightarrow> directory list" where
  "package_dirs root =
     concat (map (\<lambda>(name, node).
       if scope_dir name then List.map_filter (\<lambda>(slug, d). dir_entries d) (nullish (dir_entries node) []) else []) root)"

definition resolveDevExtensionPackageRoot :: "js_env \<Rightarrow> string \<Rightarrow> directory option \<Rightarrow> directory option" where
  "resolveDevExtensionPackageRoot J packageName root =
     find (\<lambda>es. Option.bind (package_json J es) (\<lambda>p. get_str p ''name'') = Some packageName)
       (package_dirs (nullish root []))"

record extension_actor =
  xa_userId :: "string option"
  xa_orgId :: "string option"

datatype extension_error =
    MissingOrgContext
  | PackageRootUnresolved
  | PackageUnreadable
  | VersionMismatch
  | BpmnInvalid "sidecar_error list"
  | DashboardInvalid
  | TemplateInstallFailed install_error
  | DashboardThrew
  | WorkflowTemplateInUse
  | SagaThrew

definition actorOrgGuard :: "extension_actor \<Rightarrow> (ident \<times> ident) option" where
  "actorOrgGuard actor =
     (if truthy (xa_orgId actor) \<and> truthy (xa_userId actor)
      then Some (nullish (xa_userId actor) [], nullish (xa_orgId actor) []) else None)"

text \<open>The functions of the dashboards package that this one calls, on the extension, the organization and the user.\<close>

record 'd dashboards =
  dx_validateConfig :: "json \<Rightarrow> bool"
  dx_materialize :: "string \<Rightarrow> ident \<Rightarrow> json \<Rightarrow> ident \<Rightarrow> 'd \<Rightarrow> 'd option"
  dx_archive :: "string \<Rightarrow> ident \<Rightarrow> ident \<Rightarrow> 'd \<Rightarrow> (nat \<times> 'd) option"
  dx_restore :: "string \<Rightarrow> ident \<Rightarrow> ident \<Rightarrow> 'd \<Rightarrow> (nat \<times> 'd) option"

text \<open>\<^verbatim>\<open>cinatra/dashboard.json\<close>: \<open>Inr None\<close> when there is none, \<open>Inl\<close> when it cannot be read, parsed or validated.\<close>

definition dashboard_config :: "js_env \<Rightarrow> 'd dashboards \<Rightarrow> directory \<Rightarrow> unit + json option" where
  "dashboard_config J H root =
     (case Option.bind (map_of root ''cinatra'') dir_entries of
        None \<Rightarrow> Inr None
      | Some es \<Rightarrow>
          (case map_of es ''dashboard.json'' of
             None \<Rightarrow> Inr None
           | Some (FsFile (Some content)) \<Rightarrow>
               (case js_parse J content of
                  Some j \<Rightarrow> if dx_validateConfig H j then Inr (Some j) else Inl ()
                | None \<Rightarrow> Inl ())
           | Some _ \<Rightarrow> Inl ()))"

definition version_mismatch :: "string option \<Rightarrow> json \<Rightarrow> bool" where
  "version_mismatch wanted pkg \<longleftrightarrow>
     truthy wanted \<and> truthy (get_str pkg ''version'') \<and> wanted \<noteq> get_str pkg ''version''"

text \<open>Everything that is checked before the first write: the manifest and the dashboard to install.\<close>

definition extension_prechecks ::
  "bpmn_parser \<Rightarrow> 'd dashboards \<Rightarrow> string \<Rightarrow> string option \<Rightarrow> directory option \<Rightarrow> extension_error + template_manifest \<times> json option" where
  "extension_prechecks B H packageName version tree =
     (case resolveDevExtensionPackageRoot (bp_js B) packageName tree of
        None \<Rightarrow> Inl PackageRootUnresolved
      | Some root \<Rightarrow>
          (case package_json (bp_js B) root of
             None \<Rightarrow> Inl PackageUnreadable
           | Some pkg \<Rightarrow>
               if version_mismatch version pkg then Inl VersionMismatch
               else
                 (case parseWorkflowBpmnSidecar B (nullish (non_null (get pkg ''cinatra'')) (JObj [])) root of
                    Inl es \<Rightarrow> Inl (BpmnInvalid es)
                  | Inr m \<Rightarrow>
                      (case dashboard_config (bp_js B) H root of
                         Inl u \<Rightarrow> Inl DashboardInvalid
                       | Inr config \<Rightarrow> Inr (m, config)))))"

definition write_dashboard ::
  "'d dashboards \<Rightarrow> string \<Rightarrow> ident \<Rightarrow> ident \<Rightarrow> json option \<Rightarrow> 'd \<Rightarrow> (bool \<times> 'd) + 'd" where
  "write_dashboard H packageName org user config d =
     (case config of
        None \<Rightarrow> Inl (False, d)
      | Some j \<Rightarrow>
          (case dx_materialize H packageName org j user d of
             None \<Rightarrow> Inr d
           | Some d1 \<Rightarrow>
               (case dx_restore H packageName org user d1 of None \<Rightarrow> Inr d1 | Some (n, d2) \<Rightarrow> Inl (True, d2))))"

text \<open>
  The tree is the explicit root when one is given, and that of the working directory in development mode. The
  template is written first and stays when the dashboard then fails.
\<close>

record extension_tree =
  xt_explicit :: "directory option option"
  xt_development :: bool
  xt_cwd :: "directory option"

definition tree_of :: "extension_tree \<Rightarrow> directory option option" where
  "tree_of T = (case xt_explicit T of Some t \<Rightarrow> Some t | None \<Rightarrow> if xt_development T then Some (xt_cwd T) else None)"

definition extension_scope :: "string \<Rightarrow> ident \<Rightarrow> ident \<Rightarrow> install_scope" where
  "extension_scope packageName org user =
     \<lparr>is_orgId = org, is_ownerLevel = Some ''organization'', is_ownerId = Some org, is_createdBy = Some user,
      is_sourcePackage = Some packageName\<rparr>"

definition install_writes ::
  "env \<Rightarrow> validator \<Rightarrow> extension_deps \<Rightarrow> 'd dashboards \<Rightarrow> string \<Rightarrow> ident \<times> ident \<Rightarrow> template_manifest \<times> json option \<Rightarrow>
   template_row list \<Rightarrow> db \<Rightarrow> 'd \<Rightarrow> (extension_error + ident \<times> bool) \<times> template_row list \<times> db \<times> 'd" where
  "install_writes E V D H packageName who checked ts s d =
     (let (user, org) = who; (m, config) = checked;
          (r, ts', s') = installWorkflowTemplate E V D m (extension_scope packageName org user) ts s
      in case r of
           Inl e \<Rightarrow> (Inl (TemplateInstallFailed e), ts', s', d)
         | Inr tid \<Rightarrow>
             (case write_dashboard H packageName org user config d of
                Inr d' \<Rightarrow> (Inl DashboardThrew, ts', s', d')
              | Inl (done_, d') \<Rightarrow> (Inr (tid, done_), ts', s', d')))"

definition installWorkflowExtension ::
  "env \<Rightarrow> bpmn_parser \<Rightarrow> extension_deps \<Rightarrow> 'd dashboards \<Rightarrow> extension_tree \<Rightarrow> string \<Rightarrow> string option \<Rightarrow> extension_actor \<Rightarrow>
   template_row list \<Rightarrow> db \<Rightarrow> 'd \<Rightarrow> (extension_error + ident \<times> bool) \<times> template_row list \<times> db \<times> 'd" where
  "installWorkflowExtension E B D H T packageName version actor ts s d =
     (case actorOrgGuard actor of
        None \<Rightarrow> (Inl MissingOrgContext, ts, s, d)
      | Some who \<Rightarrow>
          (case tree_of T of
             None \<Rightarrow> (Inl PackageRootUnresolved, ts, s, d)
           | Some tree \<Rightarrow>
               (case extension_prechecks B H packageName version tree of
                  Inl e \<Rightarrow> (Inl e, ts, s, d)
                | Inr checked \<Rightarrow> install_writes E (bp_validator B) D H packageName who checked ts s d)))"

section \<open>Archive and restore\<close>

definition workflowExtensionArchiveBlocked :: "bool \<Rightarrow> bool" where
  "workflowExtensionArchiveBlocked templatesInUse \<longleftrightarrow> templatesInUse = True"

definition archiveWorkflowExtensionDashboards ::
  "'d dashboards \<Rightarrow> string \<Rightarrow> extension_actor \<Rightarrow> template_row list \<Rightarrow> db \<Rightarrow> 'd \<Rightarrow> (extension_error + nat) \<times> 'd" where
  "archiveWorkflowExtensionDashboards H packageName actor ts s d =
     (case actorOrgGuard actor of
        None \<Rightarrow> (Inl MissingOrgContext, d)
      | Some (user, org) \<Rightarrow>
          if workflowExtensionArchiveBlocked (arePackageTemplatesInUse org packageName ts s)
          then (Inl WorkflowTemplateInUse, d)
          else (case dx_archive H packageName org user d of None \<Rightarrow> (Inl DashboardThrew, d) | Some (n, d') \<Rightarrow> (Inr n, d')))"

definition restoreWorkflowExtensionDashboards ::
  "'d dashboards \<Rightarrow> string \<Rightarrow> extension_actor \<Rightarrow> 'd \<Rightarrow> (extension_error + nat) \<times> 'd" where
  "restoreWorkflowExtensionDashboards H packageName actor d =
     (case actorOrgGuard actor of
        None \<Rightarrow> (Inl MissingOrgContext, d)
      | Some (user, org) \<Rightarrow>
          (case dx_restore H packageName org user d of None \<Rightarrow> (Inl DashboardThrew, d) | Some (n, d') \<Rightarrow> (Inr n, d')))"

section \<open>The handler\<close>

datatype extension_request =
    XInstall "string option"
  | XUpdate "string option"
  | XUninstall
  | XArchive
  | XRestore

text \<open>
  The host's installation saga replaces the local installation when there is one; it is a function on all the state.
\<close>

type_synonym 'd saga =
  "string \<Rightarrow> string option \<Rightarrow> extension_actor \<Rightarrow> template_row list \<times> db \<times> 'd \<Rightarrow> bool \<times> template_row list \<times> db \<times> 'd"

definition handle_install ::
  "env \<Rightarrow> bpmn_parser \<Rightarrow> extension_deps \<Rightarrow> 'd dashboards \<Rightarrow> extension_tree \<Rightarrow> 'd saga option \<Rightarrow> string \<Rightarrow> string option \<Rightarrow>
   extension_actor \<Rightarrow> template_row list \<times> db \<times> 'd \<Rightarrow> extension_error option \<times> template_row list \<times> db \<times> 'd" where
  "handle_install E B D H T hook packageName version actor st =
     (case hook of
        Some saga \<Rightarrow>
          (let (ok, st') = saga packageName version actor st in (if ok then None else Some SagaThrew, st'))
      | None \<Rightarrow>
          (case st of (ts, s, d) \<Rightarrow>
             (let (r, st') = installWorkflowExtension E B D H T packageName version actor ts s d
              in (case r of Inl e \<Rightarrow> Some e | Inr x \<Rightarrow> None, st'))))"

definition extension_handler ::
  "env \<Rightarrow> bpmn_parser \<Rightarrow> extension_deps \<Rightarrow> 'd dashboards \<Rightarrow> extension_tree \<Rightarrow> 'd saga option \<Rightarrow> extension_request \<Rightarrow> string \<Rightarrow>
   extension_actor \<Rightarrow> template_row list \<times> db \<times> 'd \<Rightarrow> extension_error option \<times> template_row list \<times> db \<times> 'd" where
  "extension_handler E B D H T hook req packageName actor st =
     (case st of (ts, s, d) \<Rightarrow>
        (case req of
           XInstall version \<Rightarrow> handle_install E B D H T hook packageName version actor st
         | XUpdate version \<Rightarrow> handle_install E B D H T hook packageName version actor st
         | XRestore \<Rightarrow>
             (let (r, d') = restoreWorkflowExtensionDashboards H packageName actor d
              in (case r of Inl e \<Rightarrow> Some e | Inr n \<Rightarrow> None, ts, s, d'))
         | _ \<Rightarrow>
             (let (r, d') = archiveWorkflowExtensionDashboards H packageName actor ts s d
              in (case r of Inl e \<Rightarrow> Some e | Inr n \<Rightarrow> None, ts, s, d'))))"

section \<open>Discovery\<close>

record active_manifest =
  am_packageName :: string
  am_ownerLevel :: string
  am_ownerId :: "ident option"
  am_organizationId :: "ident option"

record discovery_scope =
  ds_userId :: "ident option"
  ds_organizationId :: "ident option"
  ds_teamIds :: "ident list"
  ds_projectIds :: "ident list option"
  ds_platformRole :: "string option"

definition manifestVisibleToScope :: "active_manifest \<Rightarrow> discovery_scope \<Rightarrow> bool" where
  "manifestVisibleToScope m scope \<longleftrightarrow>
     (let same_organization = (am_organizationId m \<noteq> None \<and> am_organizationId m = ds_organizationId scope)
      in if am_ownerLevel m = ''platform'' \<or> am_ownerLevel m = ''workspace'' then True
         else if am_ownerLevel m = ''organization'' then same_organization
         else if am_ownerLevel m = ''team''
         then same_organization \<and> (case am_ownerId m of Some i \<Rightarrow> i \<in> set (ds_teamIds scope) | None \<Rightarrow> False)
         else if am_ownerLevel m = ''user'' then am_ownerId m \<noteq> None \<and> am_ownerId m = ds_userId scope
         else False)"

definition visibleManifestPackageNames :: "active_manifest list \<Rightarrow> discovery_scope \<Rightarrow> string list" where
  "visibleManifestPackageNames manifests scope =
     map am_packageName (filter (\<lambda>m. manifestVisibleToScope m scope) manifests)"

definition MAX_CROSS_ORG_FANOUT :: nat where
  "MAX_CROSS_ORG_FANOUT = 100"

definition resolveDiscoveryOrgIds :: "discovery_scope \<Rightarrow> (ident \<Rightarrow> string list) option \<Rightarrow> ident list" where
  "resolveDiscoveryOrgIds scope resolver =
     (if truthy (ds_organizationId scope) then [nullish (ds_organizationId scope) []]
      else
        (case resolver of
           None \<Rightarrow> []
         | Some orgList \<Rightarrow>
             if ds_platformRole scope \<noteq> Some ''platform_admin'' \<or> \<not> truthy (ds_userId scope) then []
             else take MAX_CROSS_ORG_FANOUT
                    (first_occurrences (filter (\<lambda>o'. o' \<noteq> []) (orgList (nullish (ds_userId scope) []))))))"

text \<open>A template is shown when its package is live for its organization and the row is readable in it.\<close>

definition discovery_actor :: "discovery_scope \<Rightarrow> ident \<Rightarrow> workflow_actor" where
  "discovery_actor scope org =
     \<lparr>wa_organizationId = Some org, wa_userId = ds_userId scope, wa_teamIds = Some (ds_teamIds scope),
      wa_projectIds = ds_projectIds scope, wa_orgRole = None, wa_platformRole = ds_platformRole scope\<rparr>"

definition discoverable :: "discovery_scope \<Rightarrow> active_manifest list \<Rightarrow> template_row \<Rightarrow> bool" where
  "discoverable scope manifests t \<longleftrightarrow>
     (case tp_packageName t of
        None \<Rightarrow> False
      | Some p \<Rightarrow>
          p \<in> set (visibleManifestPackageNames manifests (scope\<lparr>ds_organizationId := Some (tp_orgId t)\<rparr>))
          \<and> isReadable (templateScope t) (discovery_actor scope (tp_orgId t)))"

text \<open>The loop over the rows with the keys \<open>org::id\<close> seen so far.\<close>

fun list_loop :: "(template_row \<Rightarrow> bool) \<Rightarrow> string list \<Rightarrow> template_row list \<Rightarrow> template_row list" where
  "list_loop P seen [] = []"
| "list_loop P seen (t # ts) =
     (let key = tp_orgId t @ ''::'' @ tp_id t
      in if P t \<and> key \<notin> set seen then t # list_loop P (key # seen) ts else list_loop P seen ts)"

definition listActive ::
  "extension_deps \<Rightarrow> discovery_scope \<Rightarrow> active_manifest list \<Rightarrow> template_row list \<Rightarrow> template_row list" where
  "listActive D scope manifests ts =
     (let orgIds = resolveDiscoveryOrgIds scope (xd_orgListResolver D)
      in if orgIds = [] then []
         else list_loop (discoverable scope manifests) []
                (case orgIds of [org] \<Rightarrow> listWorkflowTemplates org ts | _ \<Rightarrow> listWorkflowTemplatesForOrgIds orgIds ts))"

end
