(* ===== verification/Wf_McpServer.thy ===== *)
theory Wf_McpServer
  imports Wf_Mcp
begin

text \<open>
  How the assistant reaches the handlers, \<^verbatim>\<open>packages/workflows/src/mcp/registry.ts\<close>: the actor is built from the
  context that the transport has resolved, a call is dispatched by the name of the tool, and a result that links to a
  workflow carries a render hint.
\<close>

section \<open>The actor of a call\<close>

record a2a_context =
  aa_userId :: "string option"
  aa_orgId :: "string option"
  aa_teamIds :: "string list option"
  aa_projectIds :: "string list option"

record request_context =
  rc_userId :: "string option"
  rc_orgId :: "string option"
  rc_platformRole :: "string option"
  rc_orgRole :: "string option"
  rc_a2a :: "a2a_context option"

definition string_field :: "string \<Rightarrow> string option \<Rightarrow> (string \<times> json) list" where
  "string_field k v = truthy_field k (map_option JStr v)"

definition list_field :: "string \<Rightarrow> string list option \<Rightarrow> (string \<times> json) list" where
  "list_field k v = truthy_field k (map_option (\<lambda>xs. JArr (map JStr xs)) v)"

definition or_else :: "'a option \<Rightarrow> 'a option \<Rightarrow> 'a option" where
  "or_else a b = (case a of Some x \<Rightarrow> Some x | None \<Rightarrow> b)"

definition buildActorFromMcpContext :: "request_context option \<Rightarrow> json" where
  "buildActorFromMcpContext ctx =
     (let a2a = Option.bind ctx rc_a2a;
          userId = or_else (Option.bind a2a aa_userId) (Option.bind ctx rc_userId);
          orgId = or_else (Option.bind a2a aa_orgId) (Option.bind ctx rc_orgId);
          platformRole = Option.bind ctx rc_platformRole
      in case a2a of
           Some a \<Rightarrow>
             JObj ([(''actorType'', JStr ''a2a''), (''source'', JStr ''a2a'')]
               @ string_field ''userId'' userId @ string_field ''orgId'' orgId
               @ list_field ''teamIds'' (aa_teamIds a) @ list_field ''projectIds'' (aa_projectIds a)
               @ string_field ''platformRole'' platformRole)
         | None \<Rightarrow>
             JObj ([(''actorType'', JStr ''model''), (''source'', JStr ''agent'')]
               @ string_field ''userId'' userId @ string_field ''orgId'' orgId
               @ string_field ''platformRole'' platformRole
               @ string_field ''orgRole'' (Option.bind ctx rc_orgRole)))"

section \<open>Dispatch\<close>

datatype mcp_request =
    TemplateList
  | TemplateGet "string option"
  | DraftCreate json
  | DraftUpdate "string option" json "int option" "string option"
  | DraftGet "string option"
  | DraftList "string option"
  | Validate json
  | Preview json "string option"
  | StatusGet "string option"
  | ArtifactsList "string option" "string option"
  | StatusList "string option" "string option"
  | Instantiate instantiate_input
  | CascadePreview "string option" "string option"
  | Copy "string option" "string option" "string option"
  | SaveAsTemplate "string option" "string option" "string option" "int option"

datatype mcp_answer =
    TemplatesShown "template_item list reply"
  | TemplateShown "template_view reply"
  | DraftCreated "validated_handoff reply"
  | DraftUpdated "updated_handoff reply"
  | DraftShown "draft_view reply"
  | WorkflowsShown "workflow_item list reply"
  | Validated "validate_report reply"
  | Previewed "preview reply"
  | StatusShown "status_summary reply"
  | ArtifactsShown "artifact_row list reply"
  | Instantiated "instantiated_handoff reply"
  | CascadeShown "cascade_view reply"
  | Copied "copied_handoff reply"
  | TemplateSaved "saved_template reply"

text \<open>
  One call: \<open>ts0\<close> and \<open>s0\<close> are what the handler reads, \<open>s1\<close> what the store reads before its transaction, and the
  last two arguments the tables it writes.
\<close>

definition mcp_call ::
  "env \<Rightarrow> validator \<Rightarrow> mcp_deps \<Rightarrow> workflow_actor \<Rightarrow> mcp_request \<Rightarrow> template_row list \<Rightarrow> db \<Rightarrow> db \<Rightarrow>
   template_row list \<Rightarrow> db \<Rightarrow> mcp_answer \<times> template_row list \<times> db" where
  "mcp_call E V D actor req ts0 s0 s1 ts s =
     (case req of
        TemplateList \<Rightarrow> (TemplatesShown (workflow_template_list D actor ts0), ts, s)
      | TemplateGet tid \<Rightarrow> (TemplateShown (workflow_template_get D actor tid ts0), ts, s)
      | DraftCreate raw \<Rightarrow> (let (r, s') = workflow_draft_create E V actor raw s in (DraftCreated r, ts, s'))
      | DraftUpdate wid raw expected name \<Rightarrow>
          (let (r, s') = workflow_draft_update E V D actor wid raw expected name s0 s1 s in (DraftUpdated r, ts, s'))
      | DraftGet wid \<Rightarrow> (DraftShown (workflow_draft_get E V actor wid s0), ts, s)
      | DraftList status \<Rightarrow> (WorkflowsShown (workflow_draft_list actor status s0), ts, s)
      | Validate raw \<Rightarrow> (Validated (workflow_validate V raw), ts, s)
      | Preview raw wid \<Rightarrow> (Previewed (workflow_preview E V actor raw wid s0), ts, s)
      | StatusGet wid \<Rightarrow> (StatusShown (workflow_status_get actor wid s0), ts, s)
      | ArtifactsList wid tid \<Rightarrow> (ArtifactsShown (workflow_artifacts_list actor wid tid s0), ts, s)
      | StatusList status project \<Rightarrow> (WorkflowsShown (workflow_status_list actor status project s0), ts, s)
      | Instantiate input \<Rightarrow>
          (let (r, s') = workflow_template_instantiate E V D actor input ts0 s in (Instantiated r, ts, s'))
      | CascadePreview wid targetAt \<Rightarrow> (CascadeShown (workflow_cascade_preview E V actor wid targetAt s0), ts, s)
      | Copy wid name targetAt \<Rightarrow> (let (r, s') = workflow_copy E V actor wid name targetAt s0 s in (Copied r, ts, s'))
      | SaveAsTemplate wid key name version \<Rightarrow>
          (let (r, ts', s') = workflow_save_as_template E V actor wid key name version ts0 s0 ts s
           in (TemplateSaved r, ts', s')))"

definition mcp_serve ::
  "env \<Rightarrow> validator \<Rightarrow> mcp_deps \<Rightarrow> request_context option \<Rightarrow> mcp_request \<Rightarrow> template_row list \<Rightarrow> db \<Rightarrow> db \<Rightarrow>
   template_row list \<Rightarrow> db \<Rightarrow> mcp_answer \<times> template_row list \<times> db" where
  "mcp_serve E V D ctx = mcp_call E V D (getActor (buildActorFromMcpContext ctx))"

section \<open>The render hint\<close>

definition link_of :: "'a handoff_scheme reply \<Rightarrow> (ident \<times> string) option" where
  "link_of r = (case r of Answer h \<Rightarrow> Some (ho_workflowId h, ho_deepLink h) | _ \<Rightarrow> None)"

definition preview_link :: "preview reply \<Rightarrow> (ident \<times> string) option" where
  "preview_link r = (case r of Answer p \<Rightarrow> map_option (\<lambda>h. (ho_workflowId h, ho_deepLink h)) (pv_handoff p) | _ \<Rightarrow> None)"

definition render_meta :: "mcp_answer \<Rightarrow> (ident \<times> string) option" where
  "render_meta a =
     (case a of
        DraftCreated r \<Rightarrow> link_of r
      | DraftUpdated r \<Rightarrow> link_of r
      | DraftShown r \<Rightarrow> link_of r
      | Previewed r \<Rightarrow> preview_link r
      | Instantiated r \<Rightarrow> link_of r
      | CascadeShown r \<Rightarrow> link_of r
      | Copied r \<Rightarrow> link_of r
      | _ \<Rightarrow> None)"

end
