(* ===== verification/Wf_EditFacts.thy ===== *)
theory Wf_EditFacts
  imports Wf_StoreFacts
begin

text \<open>
  The narrow edits of \<^verbatim>\<open>packages/workflows/src/store.ts\<close>: every one of them stores a sound specification through the
  guarded update or changes nothing.
\<close>

section \<open>The narrow edits\<close>

datatype store_edit =
    MoveTask string string reschedule_mode
  | MoveTarget string
  | DeleteTask string
  | SetWindow string string string
  | AddDependency string string
  | RemoveDependency string string

definition run_edit :: "env \<Rightarrow> validator \<Rightarrow> ident \<Rightarrow> store_edit \<Rightarrow> int \<Rightarrow> db \<Rightarrow> db \<Rightarrow> edit_result \<times> db" where
  "run_edit E V wid e expected s0 s =
     (case e of
        MoveTask key due mode \<Rightarrow> rescheduleWorkflowTask E V wid key due mode expected s0 s
      | MoveTarget at \<Rightarrow> rescheduleWorkflow E V wid at expected s0 s
      | DeleteTask key \<Rightarrow> deleteWorkflowTask E V wid key expected s0 s
      | SetWindow key b e \<Rightarrow> applyWorkflowTaskWindow E V wid key b e expected s0 s
      | AddDependency key on \<Rightarrow> addWorkflowDependency E V wid key on expected s0 s
      | RemoveDependency key on \<Rightarrow> removeWorkflowDependency E V wid key on expected s0 s)"

text \<open>An edit either stops before the store is touched, or ends in \<^verbatim>\<open>commit_patch\<close>.\<close>

definition is_ok :: "edit_result \<Rightarrow> bool" where
  "is_ok r \<longleftrightarrow> (case r of EditOk v \<Rightarrow> True | _ \<Rightarrow> False)"

lemma is_ok_refused [simp]: "\<not> is_ok (refused x)" "\<not> is_ok (EditRefused a b c)" "\<not> is_ok (EditThrew e)" "is_ok (EditOk v)"
  by (simp_all add: is_ok_def refused_def)

lemma anchor_instant_fails: "anchor_instant E cal spec cur = Inl r \<Longrightarrow> \<not> is_ok r"
  by (auto simp: anchor_instant_def Let_def split: option.splits json.splits if_splits sum.splits)

lemma new_schedule_fails: "new_schedule E cal spec cur mode due = Inl r \<Longrightarrow> \<not> is_ok r"
  by (auto simp: new_schedule_def split: reschedule_mode.splits option.splits if_splits sum.splits dest: anchor_instant_fails)

lemma window_schedule_fails: "window_schedule E cal spec cur a b = Inl r \<Longrightarrow> \<not> is_ok r"
  by (auto simp: window_schedule_def split: if_splits sum.splits dest: anchor_instant_fails)

lemma run_edit_cases:
  "\<not> is_ok (fst (run_edit E V wid e expected s0 s)) \<and> snd (run_edit E V wid e expected s0 s) = s
   \<or> (\<exists>exclude patched. run_edit E V wid e expected s0 s = commit_patch E V wid expected exclude patched s0 s)"
proof (cases e)
  case (MoveTask key due mode)
  then show ?thesis
    by (auto simp: run_edit_def rescheduleWorkflowTask_def Let_def split: option.splits sum.splits if_splits dest: new_schedule_fails)
next
  case (MoveTarget at)
  then show ?thesis by (auto simp: run_edit_def rescheduleWorkflow_def split: option.splits)
next
  case (DeleteTask key)
  then show ?thesis by (auto simp: run_edit_def deleteWorkflowTask_def split: option.splits)
next
  case (SetWindow key a b)
  then show ?thesis
    by (auto simp: run_edit_def applyWorkflowTaskWindow_def split: option.splits sum.splits if_splits dest: window_schedule_fails)
next
  case (AddDependency key on)
  then show ?thesis by (auto simp: run_edit_def addWorkflowDependency_def split: option.splits)
next
  case (RemoveDependency key on)
  then show ?thesis by (auto simp: run_edit_def removeWorkflowDependency_def split: option.splits)
qed

lemma commit_patch_cases:
  assumes "\<forall>input spec. va_safeParse V input = Inr spec \<longrightarrow> [] \<notin> set (spec_keys spec)"
    and "commit_patch E V wid expected exclude patched s0 s = (r, s')"
  shows "\<not> is_ok r \<and> s' = s
    \<or> r = EditOk (expected + 1) \<and> (\<exists>spec. sound_template V spec \<and> lintWorkflowSpecForTriggerBundling spec = []
        \<and> updateWorkflowDraftSpec E (va_calendar V) \<lparr>ui_workflowId = wid, ui_spec = spec, ui_name = None, ui_product = None,
             ui_expectedLockVersion = expected, ui_excludeFromFreeze = exclude\<rparr> s0 s = (UpdateOk (expected + 1), s'))"
proof (cases "validatePatchedSpec V patched")
  case (Inl es)
  with assms(2) show ?thesis by (simp add: commit_patch_def) auto
next
  case (Inr spec)
  then have spec: "vr_ok (validateTemplate V patched)" "vr_spec (validateTemplate V patched) = Some spec" "lintWorkflowSpecForTriggerBundling spec = []"
    by (auto simp: validatePatchedSpec_def Let_def split: option.splits if_splits)
  have sound: "sound_template V spec" using validateTemplate_ok [of V patched spec] assms(1) spec(1,2) by blast
  define input where "input = \<lparr>ui_workflowId = wid, ui_spec = spec, ui_name = None, ui_product = None,
             ui_expectedLockVersion = expected, ui_excludeFromFreeze = exclude\<rparr>"
  obtain u s1 where u: "updateWorkflowDraftSpec E (va_calendar V) input s0 s = (u, s1)" by fastforce
  then have r: "r = (case u of UpdateOk v \<Rightarrow> EditOk v | UpdateRefused x \<Rightarrow> refused x | UpdateThrew e \<Rightarrow> EditThrew e)" "s' = s1"
    using assms(2) Inr by (simp_all add: commit_patch_def input_def)
  from u show ?thesis
  proof (cases rule: update_result_cases)
    case ok
    then have "u = UpdateOk (expected + 1)" by (simp add: input_def)
    with u r sound spec(3) show ?thesis unfolding input_def by auto
  qed (simp_all add: r)
qed

text \<open>
  C9. Whatever one of the narrow edits does (moving a task or the target, setting a window, deleting a task, adding or
  removing a dependency): it succeeds on the version it expects and stores a specification that the template
  tier accepts and the trigger lint has no finding on, through the guarded update; or it changes nothing.
\<close>

theorem edit_outcomes:
  assumes "\<forall>input spec. va_safeParse V input = Inr spec \<longrightarrow> [] \<notin> set (spec_keys spec)"
    and "run_edit E V wid e expected s0 s = (r, s')"
  shows "(case r of
      EditOk v \<Rightarrow> v = expected + 1
        \<and> (\<exists>spec exclude. sound_template V spec \<and> lintWorkflowSpecForTriggerBundling spec = []
            \<and> updateWorkflowDraftSpec E (va_calendar V) \<lparr>ui_workflowId = wid, ui_spec = spec, ui_name = None, ui_product = None,
                 ui_expectedLockVersion = expected, ui_excludeFromFreeze = exclude\<rparr> s0 s = (UpdateOk v, s'))
    | _ \<Rightarrow> s' = s)"
proof (cases "\<not> is_ok r \<and> s' = s")
  case True
  then show ?thesis by (auto simp: is_ok_def split: edit_result.splits)
next
  case False
  then obtain exclude patched where "commit_patch E V wid expected exclude patched s0 s = (r, s')"
    using run_edit_cases [of E V wid e expected s0 s] assms(2) by auto
  then have "\<not> is_ok r \<and> s' = s \<or> r = EditOk (expected + 1) \<and> (\<exists>spec. sound_template V spec \<and> lintWorkflowSpecForTriggerBundling spec = []
        \<and> updateWorkflowDraftSpec E (va_calendar V) \<lparr>ui_workflowId = wid, ui_spec = spec, ui_name = None, ui_product = None,
             ui_expectedLockVersion = expected, ui_excludeFromFreeze = exclude\<rparr> s0 s = (UpdateOk (expected + 1), s'))"
    by (rule commit_patch_cases [OF assms(1)])
  with False have ok: "r = EditOk (expected + 1)" and stored: "\<exists>spec. sound_template V spec \<and> lintWorkflowSpecForTriggerBundling spec = []
        \<and> updateWorkflowDraftSpec E (va_calendar V) \<lparr>ui_workflowId = wid, ui_spec = spec, ui_name = None, ui_product = None,
             ui_expectedLockVersion = expected, ui_excludeFromFreeze = exclude\<rparr> s0 s = (UpdateOk (expected + 1), s')"
    by blast+
  show ?thesis unfolding ok edit_result.case using stored by blast
qed

definition named_validator :: validator where
  "named_validator = \<lparr>va_safeParse = (\<lambda>j. if [] \<in> set (spec_keys j) then Inl [] else Inr j),
     va_validTz = (\<lambda>tz. tz = ''UTC''), va_calendar = plain_calendar, va_now = 0\<rparr>"

definition demo_pair :: db where
  "demo_pair = empty_db\<lparr>db_workflows := [(new_workflow ''w'' ''o'')\<lparr>w_name := ''n''\<rparr>],
     db_tasks := [(new_task ''a'' ''w'' ''a'' ''checkpoint'')\<lparr>t_title := ''A''\<rparr>, new_task ''b'' ''w'' ''b'' ''checkpoint'']\<rparr>"

lemma solo_valid: "validatePatchedSpec named_validator solo_spec = Inr solo_spec"
proof -
  have fields: "task_depKeys solo_task = []" "task_foreach solo_task = None" "task_anchor solo_task = None" "get solo_task ''input'' = None"
    by (simp_all add: task_anchor_def) (simp_all add: solo_task_def task_depKeys_def task_foreach_def get_list_def get_def)
  have "jsonDepth solo_spec 1 = 4" by (simp add: solo_spec_def solo_task_def is_container_def)
  moreover have "byteLength solo_spec \<le> 262144"
    by (simp add: solo_spec_def solo_task_def byteLength_def json_string_plain)
  ultimately have "checkLimits solo_spec = []"
    by (simp add: checkLimits_def Let_def count_limit_def SPEC_LIMITS_def fields title_limit_def input_limit_def schedule_limits_def)
  moreover have "foreach_errors solo_spec = []" by (simp add: foreach_errors_def per_task_def foreach_task_errors_def fields)
  moreover have "dependency_links solo_spec = {}" "anchor_links solo_spec = {}" "parent_links solo_spec = {}"
    by (auto simp: links_def fields anchor_list_def parent_list_def)
  ultimately have "sound_template named_validator solo_spec"
    unfolding sound_template_def using foreach_errors_Nil [of solo_spec]
    by (simp add: sound_links_def acyclic_def fields sound_tz_def)
  then have "template_errors named_validator solo_spec = []" by (simp add: template_errors_Nil)
  then have "validateTemplate named_validator solo_spec = \<lparr>vr_ok = True, vr_tier = ''template'', vr_errors = [], vr_spec = Some solo_spec\<rparr>"
    unfolding validateTemplate_def by (simp add: named_validator_def)
  moreover have "lintWorkflowSpecForTriggerBundling solo_spec = []"
    by (simp add: lintWorkflowSpecForTriggerBundling_def per_task_def trigger_findings_def)
  ultimately show ?thesis by (simp add: validatePatchedSpec_def)
qed

lemma demo_pair_edit: "run_edit (demo_env 5) named_validator ''w'' (DeleteTask ''b'') 0 demo_pair demo_pair =
    commit_patch (demo_env 5) named_validator ''w'' 0 [] solo_spec demo_pair demo_pair"
proof -
  let ?a = "(new_task ''a'' ''w'' ''a'' ''checkpoint'')\<lparr>t_title := ''A''\<rparr>" and ?b = "new_task ''b'' ''w'' ''b'' ''checkpoint''"
  have "reconstruct_task m [] n ?a = solo_task" for m n
    by (simp add: reconstruct_task_def Let_def new_task_def truthy_field_def json_field_def type_fields_def solo_task_def)
  moreover define b where "b = reconstruct_task (js_map (map (\<lambda>t. (t_id t, t_key t)) [?a, ?b])) [] (js_map []) ?b"
  ultimately have "reconstructSpec demo_pair ''w'' = Some (JObj [(''name'', JStr ''n''), (''tasks'', JArr [solo_task, b])])"
    by (simp add: reconstructSpec_def readWorkflow_def demo_pair_def empty_db_def find_workflow_def new_workflow_def tasks_of_def deps_of_def
        approvals_of_def json_field_def b_def) (simp add: new_task_def)
  moreover have b: "task_key b = ''b''" "task_depKeys b = []" "get b ''schedule'' = None"
    by (simp_all add: b_def reconstruct_task_def Let_def new_task_def truthy_field_def json_field_def type_fields_def
        task_key_def get_str_def get_def task_depKeys_def get_list_def)
  moreover have "spec_tasks (JObj [(''name'', JStr ''n''), (''tasks'', JArr [solo_task, b])]) = [solo_task, b]"
    by (simp add: spec_tasks_def get_list_def get_def)
  moreover have "without_task ''b'' (JObj [(''name'', JStr ''n''), (''tasks'', JArr [solo_task, b])]) = solo_spec"
    by (simp add: without_task_def put_tasks_def spec_tasks_def get_list_def get_def put_def b(1) solo_spec_def)
  moreover have "task_depKeys solo_task = []" "get solo_task ''schedule'' = None"
    by (simp_all add: solo_task_def task_depKeys_def get_list_def get_def)
  ultimately show ?thesis
    by (simp add: run_edit_def deleteWorkflowTask_def task_in_def dependents_of_def anchor_dependents_of_def anchored_at_def Let_def cur_field_def)
qed

theorem edit_outcomes_witness:
  "fst (run_edit (demo_env 5) named_validator ''w'' (DeleteTask ''b'') 0 demo_pair demo_pair) = EditOk 1
   \<and> (\<exists>spec. sound_template named_validator spec)"
proof -
  obtain s' where u: "updateWorkflowDraftSpec (demo_env 5) plain_calendar solo_update demo_pair demo_pair = (UpdateOk 1, s')"
    using fresh_draft_update [of demo_pair "(new_workflow ''w'' ''o'')\<lparr>w_name := ''n''\<rparr>"]
    by (auto simp: demo_pair_def empty_db_def new_workflow_def new_task_def)
  have cal: "va_calendar named_validator = plain_calendar" by (simp add: named_validator_def)
  have run: "run_edit (demo_env 5) named_validator ''w'' (DeleteTask ''b'') 0 demo_pair demo_pair = (EditOk 1, s')"
    unfolding demo_pair_edit commit_patch_def solo_valid sum.case cal solo_update_def [symmetric] u by simp
  have named: "\<forall>input spec. va_safeParse named_validator input = Inr spec \<longrightarrow> [] \<notin> set (spec_keys spec)"
    by (auto simp: named_validator_def split: if_splits)
  from edit_outcomes [OF named run] have "\<exists>spec. sound_template named_validator spec"
    unfolding edit_result.case by blast
  with run show ?thesis by simp
qed

end
