(* ===== verification/Wf_McpFacts.thy ===== *)
theory Wf_McpFacts
  imports Wf_McpServer Wf_EditFacts
begin

text \<open>
  What the tools of the assistant guarantee: what a caller learns is a function of what the caller may read, and what a
  call writes is a proposal.
\<close>

section \<open>What a caller can see\<close>

definition actor_view ::
  "workflow_actor \<Rightarrow> db \<Rightarrow> (workflow_row \<times> task_row list \<times> dependency_row list \<times> approval_row list \<times> artifact_row list) list" where
  "actor_view actor s =
     map (\<lambda>w. (w, tasks_of s (w_id w), deps_of s (w_id w), approvals_of s (w_id w),
               filter (\<lambda>a. ar_workflowId a = w_id w) (db_artifacts s)))
       (readable_workflows actor (db_workflows s))"

text \<open>The primary keys.\<close>

definition keyed :: "template_row list \<Rightarrow> db \<Rightarrow> bool" where
  "keyed ts s \<longleftrightarrow> distinct (map w_id (db_workflows s)) \<and> distinct (map tp_id ts)"

lemma visible_workflow_find:
  "distinct (map w_id (db_workflows s)) \<Longrightarrow>
     visible_workflow actor s wid =
       map_option (\<lambda>w. \<lparr>wd_workflow = w, wd_tasks = tasks_of s wid, wd_dependencies = deps_of s wid, wd_approvals = approvals_of s wid\<rparr>)
         (find (\<lambda>w. w_id w = wid) (readable_workflows actor (db_workflows s)))"
  by (simp add: visible_workflow_def readWorkflow_def find_workflow_def readable_workflows_def find_filter split: option.split)

lemma actor_view_rows: "actor_view actor s = actor_view actor s' \<Longrightarrow>
    readable_workflows actor (db_workflows s) = readable_workflows actor (db_workflows s')"
  by (drule arg_cong [where f = "map fst"]) (simp add: actor_view_def comp_def)

lemma actor_view_of:
  assumes "actor_view actor s = actor_view actor s'" and "w \<in> set (readable_workflows actor (db_workflows s))"
  shows "tasks_of s (w_id w) = tasks_of s' (w_id w)" "deps_of s (w_id w) = deps_of s' (w_id w)"
    "approvals_of s (w_id w) = approvals_of s' (w_id w)"
    "filter (\<lambda>a. ar_workflowId a = w_id w) (db_artifacts s) = filter (\<lambda>a. ar_workflowId a = w_id w) (db_artifacts s')"
  using assms(1) unfolding actor_view_def actor_view_rows [OF assms(1), symmetric]
  by (simp_all add: map_eq_conv assms(2))

lemma visible_workflow_view:
  assumes "actor_view actor s = actor_view actor s'" and "distinct (map w_id (db_workflows s))" "distinct (map w_id (db_workflows s'))"
  shows "visible_workflow actor s wid = visible_workflow actor s' wid"
proof (cases "find (\<lambda>w. w_id w = wid) (readable_workflows actor (db_workflows s))")
  case None
  then show ?thesis using actor_view_rows [OF assms(1)] by (simp add: visible_workflow_find assms(2,3))
next
  case (Some w)
  then have "w \<in> set (readable_workflows actor (db_workflows s))" "w_id w = wid" by (auto simp: find_Some_iff)
  with Some show ?thesis
    using actor_view_rows [OF assms(1)] actor_view_of [OF assms(1), of w] by (simp add: visible_workflow_find assms(2,3))
qed

lemma visible_workflow_read: "visible_workflow actor s wid = Some d \<Longrightarrow> readWorkflow s wid = Some d"
  by (auto simp: visible_workflow_def split: option.splits if_splits)

lemma visible_workflow_readable:
  "visible_workflow actor s wid = Some d \<Longrightarrow>
     wd_workflow d \<in> set (readable_workflows actor (db_workflows s)) \<and> w_id (wd_workflow d) = wid
     \<and> find_workflow s wid = Some (wd_workflow d) \<and> isReadable (rowScope (wd_workflow d)) actor"
  by (auto simp: visible_workflow_def readWorkflow_def find_workflow_def readable_workflows_def find_Some_iff
      split: option.splits if_splits)

lemma reconstructSpec_view:
  assumes "visible_workflow actor s wid = Some d" "visible_workflow actor s' wid = Some d"
  shows "reconstructSpec s wid = reconstructSpec s' wid"
  using assms [THEN visible_workflow_read] by (simp add: reconstructSpec_def)

lemma artifacts_view:
  assumes "actor_view actor s = actor_view actor s'" and "visible_workflow actor s wid = Some d"
  shows "listWorkflowArtifacts wid tid s = listWorkflowArtifacts wid tid s'"
proof -
  have split: "listWorkflowArtifacts wid tid r
      = filter (\<lambda>a. truthy tid \<longrightarrow> Some (ar_taskId a) = tid) (filter (\<lambda>a. ar_workflowId a = wid) (db_artifacts r))" for r
    unfolding listWorkflowArtifacts_def filter_filter by (rule filter_cong) auto
  have "wd_workflow d \<in> set (readable_workflows actor (db_workflows s))" "w_id (wd_workflow d) = wid"
    using visible_workflow_readable [OF assms(2)] by simp_all
  then have "filter (\<lambda>a. ar_workflowId a = wid) (db_artifacts s) = filter (\<lambda>a. ar_workflowId a = wid) (db_artifacts s')"
    using actor_view_of(4) [OF assms(1)] by blast
  then show ?thesis unfolding split by (simp only:)
qed

lemma list_view:
  assumes "actor_view actor s = actor_view actor s'"
  shows "readable_workflows actor (listWorkflows org status project s)
    = readable_workflows actor (listWorkflows org status project s')"
proof -
  have "readable_workflows actor (listWorkflows org status project r)
      = filter (\<lambda>w. w_orgId w = org \<and> (truthy status \<longrightarrow> status = Some (workflow_status_text (w_status w)))
          \<and> (truthy project \<longrightarrow> w_projectId w = project)) (readable_workflows actor (db_workflows r))" for r
    unfolding readable_workflows_def listWorkflows_def filter_filter by (rule filter_cong) auto
  then show ?thesis using actor_view_rows [OF assms] by simp
qed

lemma with_workflow_view:
  assumes "\<And>wid. visible_workflow actor s wid = visible_workflow actor s' wid"
    and "\<And>d. visible_workflow actor s (nullish workflowId []) = Some d \<Longrightarrow> f d = f' d"
  shows "with_workflow actor workflowId s f = with_workflow actor workflowId s' f'"
  using assms by (auto simp: with_workflow_def split: option.split)

section \<open>Templates\<close>

lemma visible_template_find:
  "distinct (map tp_id ts) \<Longrightarrow> visible_template actor ts tid = find (\<lambda>t. tp_id t = tid) (readable_templates actor ts)"
  by (simp add: visible_template_def readWorkflowTemplate_def readable_templates_def find_filter split: option.split)

lemma template_list_view:
  assumes "readable_templates actor ts = readable_templates actor ts'"
  shows "readable_templates actor (listWorkflowTemplates org ts) = readable_templates actor (listWorkflowTemplates org ts')"
proof -
  have "readable_templates actor (listWorkflowTemplates org r) = filter (\<lambda>t. tp_orgId t = org) (readable_templates actor r)" for r
    unfolding readable_templates_def listWorkflowTemplates_def filter_filter by (rule filter_cong) auto
  with assms show ?thesis by simp
qed

section \<open>Replies are a function of the view\<close>

text \<open>The next version of a template is taken over all templates of the organization with this key.\<close>

definition picks_version :: "mcp_request \<Rightarrow> bool" where
  "picks_version req \<longleftrightarrow> (\<exists>wid key name. req = SaveAsTemplate wid key name None)"



text \<open>A workflow of another organization in the table.\<close>

definition demo_caller :: workflow_actor where
  "demo_caller = \<lparr>wa_organizationId = Some ''o'', wa_userId = Some ''u'', wa_teamIds = None, wa_projectIds = None,
                  wa_orgRole = None, wa_platformRole = None\<rparr>"

definition demo_shared :: "bool \<Rightarrow> db" where
  "demo_shared hidden = empty_db\<lparr>db_workflows := (if hidden then [new_workflow ''x'' ''p''] else []) @ [new_workflow ''w'' ''o'']\<rparr>"

definition no_deps :: mcp_deps where
  "no_deps = \<lparr>md_assertProjectWritable = None, md_assertProjectWriteAccess = None, md_agentExists = None,
              md_approverResolvable = None, md_assertExtensionAccess = None, md_assertDependencyClosure = None\<rparr>"


section \<open>What a call writes\<close>

text \<open>The columns that say whose a workflow is, where it comes from and what state it is in.\<close>

definition identity_of where
  "identity_of w = (w_id w, w_orgId w, w_status w, w_ownerLevel w, w_ownerId w, w_projectId w, w_createdBy w,
                    w_sourceTemplateId w, w_sourceTemplateVersion w, w_createdAt w)"

text \<open>The caller's own draft, and the caller's own template.\<close>

definition own_draft :: "workflow_actor \<Rightarrow> workflow_row \<Rightarrow> bool" where
  "own_draft actor w \<longleftrightarrow>
     w_status w = WDraft \<and> truthy (wa_organizationId actor) \<and> Some (w_orgId w) = wa_organizationId actor
     \<and> w_ownerLevel w = Some ''user'' \<and> truthy (w_ownerId w) \<and> w_ownerId w = wa_userId actor \<and> w_createdBy w = wa_userId actor"

definition own_template :: "workflow_actor \<Rightarrow> template_row \<Rightarrow> bool" where
  "own_template actor t \<longleftrightarrow>
     truthy (wa_organizationId actor) \<and> Some (tp_orgId t) = wa_organizationId actor
     \<and> tp_ownerLevel t = Some ''user'' \<and> truthy (tp_ownerId t) \<and> tp_ownerId t = wa_userId actor \<and> tp_origin t = None"

text \<open>The new row of a workflow that the caller read as a draft, may read and may manage.\<close>

definition edited_draft :: "workflow_actor \<Rightarrow> db \<Rightarrow> workflow_row \<Rightarrow> workflow_row \<Rightarrow> bool" where
  "edited_draft actor s0 w w' \<longleftrightarrow>
     identity_of w' = identity_of w \<and> editable w \<and> w_lockVersion w' = w_lockVersion w + 1
     \<and> (\<exists>r. find_workflow s0 (w_id w) = Some r \<and> w_status r = WDraft
          \<and> isReadable (rowScope r) actor \<and> canManage (rowScope r) actor)"

definition proposal :: "workflow_actor \<Rightarrow> db \<Rightarrow> db \<Rightarrow> db \<Rightarrow> bool" where
  "proposal actor s0 s s' \<longleftrightarrow>
     db_attempts s' = db_attempts s \<and> db_artifacts s' = db_artifacts s \<and> db_events s' = db_events s
     \<and> (\<exists>old new. db_workflows s' = old @ new \<and> length new \<le> 1 \<and> list_all (own_draft actor) new
          \<and> list_all2 (\<lambda>w w'. w' = w \<or> edited_draft actor s0 w w') (db_workflows s) old)"

lemma proposal_nothing [simp]: "proposal actor s0 s s"
  unfolding proposal_def by (intro conjI refl exI [of _ "db_workflows s"] exI [of _ "[]"]) (simp_all add: list_all2_refl)

lemma createWorkflowFromSpec_frame:
  assumes "createWorkflowFromSpec E cal input s = Inr (wid, s')"
  shows "\<exists>targetAt. db_workflows s' = db_workflows s @ [created_workflow E input wid targetAt]"
    "db_attempts s' = db_attempts s" "db_artifacts s' = db_artifacts s" "db_events s' = db_events s"
proof -
  obtain i s1 where i: "new_id E ''wf'' s = (i, s1)" by fastforce
  from assms i obtain targetAt where
    rows: "insertSpecRows E cal wid (ci_spec input) Map.empty
      (s1\<lparr>db_workflows := db_workflows s1 @ [created_workflow E input wid targetAt]\<rparr>) = Inr s'"
    by (auto simp: createWorkflowFromSpec_def split: sum.splits)
  show "\<exists>targetAt. db_workflows s' = db_workflows s @ [created_workflow E input wid targetAt]"
    "db_attempts s' = db_attempts s" "db_artifacts s' = db_artifacts s" "db_events s' = db_events s"
    using insertSpecRows_history [OF rows] new_id_state [OF i] by (auto simp: same_history_def)
qed

lemma created_proposal:
  assumes "created E V input answer s = (r, s')" and "truthy (wa_organizationId actor)" "truthy (wa_userId actor)"
    and "ci_orgId input = nullish (wa_organizationId actor) []" "ci_status input = Some WDraft" "ci_ownerLevel input = Some ''user''"
    and "ci_ownerId input = wa_userId actor" "ci_createdBy input = wa_userId actor"
  shows "proposal actor s0 s s'"
proof (cases "createWorkflowFromSpec E (va_calendar V) input s")
  case (Inr y)
  obtain wid s1 where y: "y = (wid, s1)" by fastforce
  with assms(1) Inr have c: "createWorkflowFromSpec E (va_calendar V) input s = Inr (wid, s')" by (simp add: created_def)
  then obtain targetAt where ws: "db_workflows s' = db_workflows s @ [created_workflow E input wid targetAt]"
    using createWorkflowFromSpec_frame(1) by blast
  have "own_draft actor (created_workflow E input wid targetAt)"
    using assms(2-) by (auto simp: own_draft_def created_workflow_def new_workflow_def truthy_def split: option.splits)
  then show ?thesis
    unfolding proposal_def using createWorkflowFromSpec_frame(2-4) [OF c] ws
    by (intro conjI exI [of _ "db_workflows s"] exI [of _ "[created_workflow E input wid targetAt]"])
      (simp_all add: list_all2_refl)
qed (use assms(1) in \<open>simp add: created_def\<close>)

lemma draft_update_proposal:
  assumes "draft_update_write E V wid spec d name expected s1 s = (r, s')"
    and "visible_workflow actor s0 wid = Some existing" "canManage (rowScope (wd_workflow existing)) actor"
    "w_status (wd_workflow existing) = WDraft"
  shows "proposal actor s0 s s'"
proof -
  let ?i = "\<lparr>ui_workflowId = wid, ui_spec = spec, ui_name = name, ui_product = None, ui_expectedLockVersion = expected, ui_excludeFromFreeze = []\<rparr>"
  obtain u where u: "updateWorkflowDraftSpec E (va_calendar V) ?i s1 s = (u, s')"
    using assms(1) by (auto simp: draft_update_write_def Let_def split: prod.splits)
  then show ?thesis
  proof (cases rule: update_result_cases)
    case ok
    then obtain targetAt where ws: "db_workflows s' =
        update_where (\<lambda>r. w_id r = wid \<and> w_lockVersion r = expected \<and> editable r) (updated_workflow E ?i targetAt) (db_workflows s)"
      and rest: "db_attempts s' = db_attempts s" "db_artifacts s' = db_artifacts s" "db_events s' = db_events s"
      by (elim update_tx_history) simp
    have new: "edited_draft actor s0 w (updated_workflow E ?i targetAt w)"
      if "w_id w = wid \<and> w_lockVersion w = expected \<and> editable w" for w
      using that visible_workflow_readable [OF assms(2)] assms(3,4)
      by (auto simp: edited_draft_def identity_of_def updated_workflow_def)
    have "list_all2 (\<lambda>w w'. w' = w \<or> edited_draft actor s0 w w') (db_workflows s) (db_workflows s')"
      unfolding ws update_where_def list_all2_map2 by (rule list_all2_refl) (use new in simp)
    then show ?thesis
      unfolding proposal_def using rest by (intro conjI exI [of _ "db_workflows s'"] exI [of _ "[]"]) simp_all
  qed simp_all
qed

lemma draft_input_fields [simp]:
  "ci_orgId (draft_input actor spec name) = nullish (wa_organizationId actor) []"
  "ci_status (draft_input actor spec name) = Some WDraft"
  "ci_ownerLevel (draft_input actor spec name) = Some ''user''"
  "ci_ownerId (draft_input actor spec name) = wa_userId actor"
  "ci_createdBy (draft_input actor spec name) = wa_userId actor"
  by (simp_all add: draft_input_def)

lemma template_proposal:
  assumes "save_template E (template_input actor key version name spec) ts s = (r, ts', s')"
    and "truthy (wa_organizationId actor)" "truthy (wa_userId actor)"
  shows "proposal actor s0 s s'" "\<exists>new. ts' = ts @ new \<and> length new \<le> 1 \<and> list_all (own_template actor) new"
proof -
  obtain i s1 where i: "new_id E ''wft'' s = (i, s1)" by fastforce
  have s1: "proposal actor s0 s s1"
    using new_id_state [OF i] unfolding proposal_def
    by (intro conjI exI [of _ "db_workflows s"] exI [of _ "[]"]) (simp_all add: list_all2_refl)
  show "proposal actor s0 s s'"
    using assms(1) i s1 by (auto simp: save_template_def createWorkflowTemplate_def Let_def split: sum.splits if_splits)
  show "\<exists>new. ts' = ts @ new \<and> length new \<le> 1 \<and> list_all (own_template actor) new"
    using assms i
    by (auto simp: save_template_def createWorkflowTemplate_def Let_def own_template_def template_input_def truthy_def
        split: sum.splits if_splits option.splits)
qed


section \<open>Instantiating a template\<close>

text \<open>The host lets the caller use the extension, its dependencies are complete, and the project is writable.\<close>

definition gates_open :: "mcp_deps \<Rightarrow> workflow_actor \<Rightarrow> instantiate_input \<Rightarrow> template_row \<Rightarrow> bool" where
  "gates_open D actor input t \<longleftrightarrow>
     (case templateSourcePackage t of
        None \<Rightarrow> True
      | Some p \<Rightarrow>
          (case md_assertExtensionAccess D of Some access \<Rightarrow> access actor p ''execute'' = Pass | None \<Rightarrow> True)
          \<and> (case md_assertDependencyClosure D of Some closure \<Rightarrow> closure actor p = Pass | None \<Rightarrow> True))
     \<and> (truthy (ii_projectId input) \<longrightarrow>
          (\<exists>access. md_assertProjectWriteAccess D = Some access \<and> access actor (nullish (ii_projectId input) []) ''write'' = Pass))"

lemma instantiate_gates_None: "instantiate_gates D actor input t = None \<longleftrightarrow> gates_open D actor input t"
  by (auto simp: instantiate_gates_def gates_open_def extension_gate_def split: option.splits host_gate.splits)

definition references_ok :: "mcp_deps \<Rightarrow> ident \<Rightarrow> task_spec \<Rightarrow> bool" where
  "references_ok D org t \<longleftrightarrow>
     (case md_agentExists D of Some exists \<Rightarrow> task_type t = ''agent_task'' \<longrightarrow> exists (get t ''agentRef'') org | None \<Rightarrow> True)
     \<and> (case md_approverResolvable D of
          Some canResolve \<Rightarrow> task_type t = ''approval'' \<longrightarrow> canResolve (get t ''requiredScope'') org | None \<Rightarrow> True)"

lemma reauthorize_None: "reauthorizeReferences D spec org = None \<longleftrightarrow> list_all (references_ok D org) (spec_tasks spec)"
  unfolding reauthorizeReferences_def references_ok_def list_all_iff
  by (cases "md_agentExists D"; cases "md_approverResolvable D") (auto simp: find_None_iff split: option.split dest!: find_SomeD)

lemma materializeSpec_ok:
  assumes "\<forall>input spec. va_safeParse V input = Inr spec \<longrightarrow> [] \<notin> set (spec_keys spec)" and "materializeSpec V raw = SpecOk spec d"
  shows "va_safeParse V raw = Inr spec \<and> sound_template V spec \<and> lintWorkflowSpecForTriggerBundling spec = []"
proof -
  have "va_safeParse V raw = Inr spec" "template_errors V spec = []" "lintWorkflowSpecForTriggerBundling spec = []"
    using assms(2) by (auto simp: materializeSpec_def validateTemplate_def Let_def split: if_splits sum.splits option.splits)
  with assms(1) show ?thesis using template_errors_Nil by blast
qed

text \<open>
  C37. What stands behind an instantiated template: the caller can read the template, every gate of the host let it
  pass, every required placeholder has a value, the filled definition is a sound specification without a bundled trigger, and its agents
  and approvers exist in the organization; the one new row is a draft of the caller that records the template, its version and
  the project. Any other reply leaves the database as it was.
\<close>

theorem template_instantiation:
  assumes "\<forall>input spec. va_safeParse V input = Inr spec \<longrightarrow> [] \<notin> set (spec_keys spec)"
    and "workflow_template_instantiate E V D actor input ts s = (r, s')"
  shows "case r of
      Answer h \<Rightarrow>
        (\<exists>t spec w. visible_template actor ts (nullish (ii_templateId input) []) = Some t \<and> gates_open D actor input t
          \<and> list_all (supplied_value (nullish (ii_inputs input) [])) (required_placeholders (tp_definition t))
          \<and> va_safeParse V (instantiated_spec input t) = Inr spec \<and> sound_template V spec
          \<and> lintWorkflowSpecForTriggerBundling spec = []
          \<and> list_all (references_ok D (nullish (wa_organizationId actor) [])) (spec_tasks spec)
          \<and> db_workflows s' = db_workflows s @ [w] \<and> w_id w = ho_workflowId h \<and> own_draft actor w
          \<and> w_sourceTemplateId w = Some (tp_id t) \<and> w_sourceTemplateVersion w = Some (tp_version t)
          \<and> w_projectId w = ii_projectId input)
    | _ \<Rightarrow> s' = s"
proof (cases "\<exists>h. r = Answer h")
  case False
  with assms(2) show ?thesis
    by (auto simp: workflow_template_instantiate_def instantiate_template_def created_def
        split: if_splits option.splits materialized.splits prod.splits sum.splits reply.splits)
next
  case True
  then obtain h where h: "r = Answer h" by blast
  define org where "org = nullish (wa_organizationId actor) []"
  from assms(2) h have who: "truthy (wa_organizationId actor)" "truthy (wa_userId actor)"
    by (auto simp: workflow_template_instantiate_def USER_REQUIRED_def split: if_splits)
  from assms(2) h who obtain t where t: "visible_template actor ts (nullish (ii_templateId input) []) = Some t"
    "instantiate_gates D actor input t = None" "instantiate_template E V D actor input t s = (Answer h, s')"
    by (auto simp: workflow_template_instantiate_def TEMPLATE_NOT_FOUND_def split: if_splits option.splits)
  from t(3) obtain spec d where spec: "missing_placeholders (tp_definition t) (nullish (ii_inputs input) []) = []"
    "materializeSpec V (instantiated_spec input t) = SpecOk spec d" "reauthorizeReferences D spec org = None"
    and c: "created E V
        ((draft_input actor spec (nullish (ii_name input) (specName spec)))
           \<lparr>ci_sourceTemplateId := Some (tp_id t), ci_sourceTemplateVersion := Some (tp_version t), ci_projectId := ii_projectId input\<rparr>)
        (\<lambda>wid. validated_handoff.extend (validated_to wid d) (instantiated_handoff.fields (tp_id t) (tp_version t))) s = (Answer h, s')"
    by (auto simp: instantiate_template_def org_def split: if_splits option.splits materialized.splits)
  define i where "i = (draft_input actor spec (nullish (ii_name input) (specName spec)))
      \<lparr>ci_sourceTemplateId := Some (tp_id t), ci_sourceTemplateVersion := Some (tp_version t), ci_projectId := ii_projectId input\<rparr>"
  from c obtain wid where wid: "createWorkflowFromSpec E (va_calendar V) i s = Inr (wid, s')" "ho_workflowId h = wid"
    unfolding i_def by (auto simp: created_def validated_to_def handoff_to_def handoff.defs validated_handoff.defs instantiated_handoff.defs split: sum.splits)
  then obtain targetAt where ws: "db_workflows s' = db_workflows s @ [created_workflow E i wid targetAt]"
    using createWorkflowFromSpec_frame(1) by blast
  define w where "w = created_workflow E i wid targetAt"
  have "own_draft actor w"
    using who by (auto simp: w_def own_draft_def created_workflow_def new_workflow_def i_def truthy_def split: option.splits)
  moreover have "w_id w = ho_workflowId h" "w_sourceTemplateId w = Some (tp_id t)" "w_sourceTemplateVersion w = Some (tp_version t)"
    "w_projectId w = ii_projectId input"
    using wid(2) by (simp_all add: w_def created_workflow_def new_workflow_def i_def)
  moreover have "list_all (supplied_value (nullish (ii_inputs input) [])) (required_placeholders (tp_definition t))"
    using spec(1) by (simp add: missing_placeholders_def filter_empty_conv list_all_iff)
  ultimately show ?thesis
    unfolding h reply.case using t(1) t(2) [unfolded instantiate_gates_None] materializeSpec_ok [OF assms(1) spec(2)]
      spec(3) [unfolded reauthorize_None org_def] ws [folded w_def] by blast
qed


definition demo_template :: template_row where
  "demo_template = \<lparr>tp_id = ''t'', tp_key = ''k'', tp_version = 3, tp_name = ''n'', tp_description = None, tp_definition = solo_spec,
     tp_ownerLevel = Some ''organization'', tp_ownerId = Some ''o'', tp_orgId = ''o'', tp_projectId = None, tp_origin = None,
     tp_visibility = None, tp_packageName = None, tp_createdBy = None, tp_createdAt = 0, tp_updatedAt = 0\<rparr>"

definition demo_instantiate :: instantiate_input where
  "demo_instantiate = \<lparr>ii_templateId = Some ''t'', ii_name = None, ii_inputs = None, ii_targetAt = None, ii_targetTz = None, ii_projectId = None\<rparr>"

lemma fill_text_plain: "CHR ''{'' \<notin> set s \<Longrightarrow> fill_text inputs s = s"
proof (induction s)
  case (Cons c cs)
  then have "match_braced letter name_char False (c # cs) = None" by (auto simp: match_braced_def starts_with_iff)
  with Cons show ?case by (simp add: fill_text.simps [of inputs "c # cs"])
qed (simp add: fill_text.simps)

lemma solo_materialized: "\<exists>d. materializeSpec named_validator solo_spec = SpecOk solo_spec d"
proof -
  have tpl: "vr_ok (validateTemplate named_validator solo_spec)" "vr_spec (validateTemplate named_validator solo_spec) = Some solo_spec"
    "lintWorkflowSpecForTriggerBundling solo_spec = []"
    using solo_valid by (auto simp: validatePatchedSpec_def validateTemplate_def named_validator_def Let_def split: if_splits option.splits sum.splits)
  obtain es where "draft_errors named_validator solo_spec = Inr es" by (auto simp: draft_errors_def)
  then show ?thesis using tpl by (simp add: materializeSpec_def validateDraft_def next_tier_def)
qed

theorem template_instantiation_witness:
  "\<exists>h s' w. workflow_template_instantiate (demo_env 5) named_validator no_deps demo_caller demo_instantiate [demo_template] empty_db
       = (Answer h, s')
     \<and> db_workflows s' = [w] \<and> own_draft demo_caller w \<and> w_sourceTemplateVersion w = Some 3"
proof -
  obtain d where m: "materializeSpec named_validator solo_spec = SpecOk solo_spec d" using solo_materialized by blast
  have visible: "visible_template demo_caller [demo_template] ''t'' = Some demo_template"
    by (simp add: visible_template_def readWorkflowTemplate_def demo_template_def templateScope_def isReadable_def demo_caller_def
        platform_admin_def same_org_def)
  have gates: "instantiate_gates no_deps demo_caller demo_instantiate demo_template = None"
    by (simp add: instantiate_gates_None gates_open_def templateSourcePackage_def demo_template_def demo_instantiate_def)
  have plain: "missing_placeholders solo_spec [] = []" "reauthorizeReferences no_deps solo_spec (''o'') = None"
    by (simp add: missing_placeholders_def required_placeholders_def solo_spec_def get_def)
      (simp add: reauthorizeReferences_def no_deps_def)
  have spec: "instantiated_spec demo_instantiate demo_template = solo_spec"
    by (simp add: instantiated_spec_def demo_instantiate_def demo_template_def set_target_def solo_spec_def solo_task_def fill_text_plain)
  define i where "i = (draft_input demo_caller solo_spec ''n'')\<lparr>ci_sourceTemplateId := Some ''t'', ci_sourceTemplateVersion := Some 3, ci_projectId := None\<rparr>"
  obtain wid s1 where wid: "new_id (demo_env 5) ''wf'' empty_db = (wid, s1)" by fastforce
  have "db_tasks (s1\<lparr>db_workflows := db_workflows s1 @ [created_workflow (demo_env 5) i wid None]\<rparr>) = []"
    using new_id_state [OF wid] by (simp add: empty_db_def)
  from solo_inserted [OF this, of wid] obtain s' where rows:
    "insertSpecRows (demo_env 5) plain_calendar wid solo_spec Map.empty
      (s1\<lparr>db_workflows := db_workflows s1 @ [created_workflow (demo_env 5) i wid None]\<rparr>) = Inr s'" by blast
  have cal: "va_calendar named_validator = plain_calendar" by (simp add: named_validator_def)
  have "ci_spec i = solo_spec" by (simp add: i_def draft_input_def)
  then have create: "createWorkflowFromSpec (demo_env 5) plain_calendar i empty_db = Inr (wid, s')"
    using rows by (simp add: createWorkflowFromSpec_def wid date_column_def)
  define h where "h = validated_handoff.extend (validated_to wid d) (instantiated_handoff.fields ''t'' 3)"
  have "instantiate_template (demo_env 5) named_validator no_deps demo_caller demo_instantiate demo_template empty_db = (Answer h, s')"
    using plain m create
    by (simp add: instantiate_template_def spec cal created_def h_def i_def)
      (simp add: demo_template_def demo_instantiate_def demo_caller_def specName_def created_def cal)
  then have run: "workflow_template_instantiate (demo_env 5) named_validator no_deps demo_caller demo_instantiate [demo_template] empty_db
      = (Answer h, s')"
    using visible gates by (simp add: workflow_template_instantiate_def demo_instantiate_def) (simp add: demo_caller_def)
  have named: "\<forall>input spec. va_safeParse named_validator input = Inr spec \<longrightarrow> [] \<notin> set (spec_keys spec)"
    by (auto simp: named_validator_def split: if_splits)
  from template_instantiation [OF named run] obtain t w where "visible_template demo_caller [demo_template] ''t'' = Some t"
    "db_workflows s' = [w]" "own_draft demo_caller w" "w_sourceTemplateVersion w = Some (tp_version t)"
    unfolding reply.case by (auto simp: demo_instantiate_def empty_db_def)
  with visible run show ?thesis by (auto simp: demo_template_def)
qed

end
