(* ===== verification/Wf_BpmnFacts.thy ===== *)
theory Wf_BpmnFacts
  imports Wf_BpmnProfile Wf_EditFacts
begin

text \<open>
  Correctness of the BPMN import, \<^verbatim>\<open>packages/workflows/src/bpmn\<close>: the dependencies against reachability through
  gateways, the shape of compiled tasks, and what the sidecar parser accepts.
\<close>

section \<open>Dependencies as reachability\<close>

text \<open>The flows into an element from a task, and the gateways with a flow into it.\<close>

definition from_task :: "element \<Rightarrow> element \<Rightarrow> dep \<Rightarrow> bool" where
  "from_task process flow d \<longleftrightarrow>
     (\<exists>src. flow_source process flow = Some (fst d, src) \<and> el_type src \<in> set TASK_TYPES \<and> snd d = flow_outcome flow)"

definition from_gateway :: "element \<Rightarrow> element \<Rightarrow> string \<Rightarrow> bool" where
  "from_gateway process flow g \<longleftrightarrow> (\<exists>src. flow_source process flow = Some (g, src) \<and> el_type src = ''bpmn:ParallelGateway'')"

text \<open>
  The reference: a task is upstream when a path of gateways leads from it to the target; the outcome is that of the flow
  out of the task.
\<close>

inductive upstream :: "element \<Rightarrow> string \<Rightarrow> dep \<Rightarrow> bool" for process where
  direct: "flow \<in> set (incoming process t) \<Longrightarrow> from_task process flow d \<Longrightarrow> upstream process t d"
| through: "flow \<in> set (incoming process t) \<Longrightarrow> from_gateway process flow g \<Longrightarrow> upstream process g d \<Longrightarrow> upstream process t d"

text \<open>The same along a path that visits no gateway twice.\<close>

inductive simple_upstream :: "element \<Rightarrow> string set \<Rightarrow> element list \<Rightarrow> dep \<Rightarrow> bool" for process where
  simple_direct: "flow \<in> set flows \<Longrightarrow> from_task process flow d \<Longrightarrow> simple_upstream process S flows d"
| simple_through: "flow \<in> set flows \<Longrightarrow> from_gateway process flow g \<Longrightarrow> g \<notin> S \<Longrightarrow>
    simple_upstream process (insert g S) (incoming process g) d \<Longrightarrow> simple_upstream process S flows d"

inductive_cases simple_upstreamE: "simple_upstream process S flows d"

lemma simple_upstream_iff:
  "simple_upstream process S flows d \<longleftrightarrow>
     (\<exists>flow \<in> set flows. from_task process flow d
        \<or> (\<exists>g. from_gateway process flow g \<and> g \<notin> S \<and> simple_upstream process (insert g S) (incoming process g) d))"
  (is "?l \<longleftrightarrow> ?r")
proof
  show "?l \<Longrightarrow> ?r" by (erule simple_upstreamE) blast+
  show "?r \<Longrightarrow> ?l" by (blast intro: simple_direct simple_through)
qed

lemma simple_upstream_Nil [simp]: "\<not> simple_upstream process S [] d"
  by (subst simple_upstream_iff) simp

lemma simple_upstream_Cons:
  "simple_upstream process S (flow # flows) d \<longleftrightarrow>
     from_task process flow d
     \<or> (\<exists>g. from_gateway process flow g \<and> g \<notin> S \<and> simple_upstream process (insert g S) (incoming process g) d)
     \<or> simple_upstream process S flows d"
  by (subst (1 3) simple_upstream_iff) auto

lemma simple_upstream_upstream: "simple_upstream process S flows d \<Longrightarrow> flows = incoming process t \<Longrightarrow> upstream process t d"
  by (induction arbitrary: t rule: simple_upstream.induct) (auto intro: upstream.intros)

definition gateway_step :: "element \<Rightarrow> (string \<times> string) set" where
  "gateway_step process = {(t, g). \<exists>flow \<in> set (incoming process t). from_gateway process flow g}"

lemma upstream_reach:
  "upstream process t d \<longleftrightarrow> (\<exists>n. (t, n) \<in> (gateway_step process)\<^sup>* \<and> (\<exists>flow \<in> set (incoming process n). from_task process flow d))"
proof
  show "upstream process t d \<Longrightarrow> \<exists>n. (t, n) \<in> (gateway_step process)\<^sup>* \<and> (\<exists>flow \<in> set (incoming process n). from_task process flow d)"
  proof (induction rule: upstream.induct)
    case (direct flow t d)
    then show ?case by (intro exI [of _ t]) auto
  next
    case (through flow t g d)
    then have "(t, g) \<in> gateway_step process" by (auto simp: gateway_step_def)
    with through.IH show ?case by (meson converse_rtrancl_into_rtrancl)
  qed
next
  assume "\<exists>n. (t, n) \<in> (gateway_step process)\<^sup>* \<and> (\<exists>flow \<in> set (incoming process n). from_task process flow d)"
  then obtain n where n: "(t, n) \<in> (gateway_step process)\<^sup>*" "\<exists>flow \<in> set (incoming process n). from_task process flow d" by blast
  from n(1) show "upstream process t d"
    by (induction rule: converse_rtrancl_induct) (use n(2) in \<open>auto simp: gateway_step_def intro: upstream.intros\<close>)
qed

text \<open>A path need not come back to its start.\<close>

lemma rtrancl_no_return: "(a, b) \<in> Q\<^sup>* \<Longrightarrow> (a, b) \<in> (Q \<inter> UNIV \<times> - {a})\<^sup>*"
proof (induction rule: rtrancl_induct)
  case (step y z)
  show ?case
  proof (cases "z = a")
    case False
    with step.hyps(2) have "(y, z) \<in> Q \<inter> UNIV \<times> - {a}" by simp
    with step.IH show ?thesis by (rule rtrancl_into_rtrancl)
  qed simp
qed simp

lemma gateway_ids: "(t, g) \<in> gateway_step process \<Longrightarrow> g \<in> set (flow_ids process)"
  by (auto simp: gateway_step_def from_gateway_def flow_source_def split: option.splits dest: byId_ids)

lemma reach_simple:
  assumes "(t, n) \<in> (gateway_step process \<inter> UNIV \<times> - S)\<^sup>*" and "\<exists>flow \<in> set (incoming process n). from_task process flow d"
  shows "simple_upstream process S (incoming process t) d"
  using assms(1)
proof (induction "card (set (flow_ids process) - S)" arbitrary: S t rule: less_induct)
  case less
  let ?Q = "gateway_step process \<inter> UNIV \<times> - S"
  from less.prems show ?case
  proof (cases rule: converse_rtranclE)
    case base
    with assms(2) show ?thesis by (auto intro: simple_direct)
  next
    case (step g)
    have g: "g \<in> set (flow_ids process)" "g \<notin> S" using step(1) gateway_ids by auto
    then have "card (set (flow_ids process) - insert g S) < card (set (flow_ids process) - S)"
      by (intro psubset_card_mono) auto
    moreover have "?Q \<inter> UNIV \<times> - {g} = gateway_step process \<inter> UNIV \<times> - insert g S" by auto
    then have "(g, n) \<in> (gateway_step process \<inter> UNIV \<times> - insert g S)\<^sup>*" using rtrancl_no_return [OF step(2)] by simp
    ultimately have "simple_upstream process (insert g S) (incoming process g) d" by (rule less.hyps)
    moreover obtain flow where "flow \<in> set (incoming process t)" "from_gateway process flow g" using step(1) by (auto simp: gateway_step_def)
    ultimately show ?thesis using g(2) by (blast intro: simple_through)
  qed
qed

lemma simple_upstream_all: "simple_upstream process {} (incoming process t) d \<longleftrightarrow> upstream process t d"
proof
  assume "upstream process t d"
  then obtain n where "(t, n) \<in> (gateway_step process)\<^sup>*" "\<exists>flow \<in> set (incoming process n). from_task process flow d"
    by (auto simp: upstream_reach)
  then show "simple_upstream process {} (incoming process t) d" by (intro reach_simple) simp_all
qed (simp add: simple_upstream_upstream)

section \<open>The walk computes it\<close>

text \<open>At most one outcome per task.\<close>

definition one_outcome :: "dep set \<Rightarrow> bool" where
  "one_outcome D \<longleftrightarrow> (\<forall>k a b. (k, a) \<in> D \<and> (k, b) \<in> D \<longrightarrow> a = b)"

lemma one_outcome_mono: "one_outcome D \<Longrightarrow> D' \<subseteq> D \<Longrightarrow> one_outcome D'"
  unfolding one_outcome_def by blast

lemma one_outcomeD: "one_outcome D \<Longrightarrow> (k, a) \<in> D \<Longrightarrow> (k, b) \<in> D \<Longrightarrow> a = b"
  unfolding one_outcome_def by blast

lemma collapse_exact:
  assumes "distinct (map fst acc)"
  shows "if one_outcome (set acc \<union> set ds)
    then \<exists>r. collapse target acc ds = Inr r \<and> set r = set acc \<union> set ds \<and> distinct (map fst r)
    else collapse target acc ds = fail StructureInvalid (Some target)"
  using assms
proof (induction ds arbitrary: acc)
  case Nil
  then have "one_outcome (set acc)" by (auto simp: one_outcome_def dest: eq_key_imp_eq_value)
  with Nil show ?case by simp
next
  case (Cons d ds)
  obtain k oc where d: "d = (k, oc)" by fastforce
  show ?case
  proof (cases "map_of acc k")
    case None
    then have "distinct (map fst (acc @ [(k, oc)]))" using Cons.prems by (auto simp: map_of_eq_None_iff)
    moreover have "set (acc @ [(k, oc)]) \<union> set ds = set acc \<union> set (d # ds)" by (auto simp: d)
    ultimately show ?thesis using Cons.IH [of "acc @ [(k, oc)]"] unfolding d collapse.simps None option.case by metis
  next
    case (Some oc')
    then have mem: "(k, oc') \<in> set acc" by (rule map_of_SomeD)
    show ?thesis
    proof (cases "oc' = oc")
      case True
      then have "set acc \<union> set (d # ds) = set acc \<union> set ds" using mem by (auto simp: d)
      with Cons.IH [OF Cons.prems] Some True show ?thesis by (simp add: d)
    next
      case False
      then have "\<not> one_outcome (set acc \<union> set (d # ds))" using mem one_outcomeD [of _ k oc' oc] by (auto simp: d)
      with False Some show ?thesis by (simp add: d)
    qed
  qed
qed

text \<open>No flow out of a gateway carries an outcome.\<close>

definition outcomes_on_tasks :: "element \<Rightarrow> bool" where
  "outcomes_on_tasks process \<longleftrightarrow>
     list_all (\<lambda>flow. el_type flow = ''bpmn:SequenceFlow'' \<and> (\<exists>g. from_gateway process flow g) \<longrightarrow>
       findExt (Some flow) ''cinatra:TransitionOutcome'' = None) (flowElements process)"

lemma task_type_distinct: "el_type src \<in> set TASK_TYPES \<Longrightarrow> el_type src \<noteq> ''bpmn:StartEvent'' \<and> el_type src \<noteq> ''bpmn:ParallelGateway''"
  by (auto simp: TASK_TYPES_def)

lemma collapse_Nil_exact:
  "if one_outcome (set ds) then \<exists>r. collapse target [] ds = Inr r \<and> set r = set ds \<and> distinct (map fst r)
   else collapse target [] ds = fail StructureInvalid (Some target)"
  using collapse_exact [of "[]" ds target] unfolding set_simps Un_empty_left by simp

definition gateways_bare :: "element \<Rightarrow> element list \<Rightarrow> bool" where
  "gateways_bare process flows \<longleftrightarrow>
     list_all (\<lambda>flow. (\<exists>g. from_gateway process flow g) \<longrightarrow> findExt (Some flow) ''cinatra:TransitionOutcome'' = None) flows"

lemma gateways_bare_incoming: "outcomes_on_tasks process \<Longrightarrow> gateways_bare process (incoming process t)"
  by (auto simp: outcomes_on_tasks_def gateways_bare_def incoming_def list_all_iff)

text \<open>What a walk must return.\<close>

definition walk_ok :: "element \<Rightarrow> string list \<Rightarrow> element list \<Rightarrow> dep list compiled \<Rightarrow> bool" where
  "walk_ok process seen flows r \<longleftrightarrow>
     (case r of
        Inr ds \<Rightarrow> set ds = {d. simple_upstream process (set seen) flows d}
      | Inl e \<Rightarrow> be_code e = StructureInvalid \<and> \<not> one_outcome {d. simple_upstream process (set seen) flows d})"

lemma walk_ok_skip:
  assumes "walk_ok process seen flows r" and "\<And>d. simple_upstream process (set seen) (flow # flows) d = simple_upstream process (set seen) flows d"
  shows "walk_ok process seen (flow # flows) r"
proof -
  have "simple_upstream process (set seen) (flow # flows) = simple_upstream process (set seen) flows"
    by (rule ext) (rule assms(2))
  with assms(1) show ?thesis by (simp only: walk_ok_def)
qed

lemma walk_ok_add:
  assumes "walk_ok process seen flows r" and "case x of Inr ds \<Rightarrow> set ds = D | Inl e \<Rightarrow> be_code e = StructureInvalid \<and> \<not> one_outcome D"
    and "\<And>d. simple_upstream process (set seen) (flow # flows) d \<longleftrightarrow> d \<in> D \<or> simple_upstream process (set seen) flows d"
  shows "walk_ok process seen (flow # flows) (try_then x (\<lambda>ds. try_then r (\<lambda>ds'. Inr (ds @ ds'))))"
proof (cases x)
  case (Inl e)
  then have "be_code e = StructureInvalid" "\<not> one_outcome D" using assms(2) by simp_all
  moreover have "D \<subseteq> {d. simple_upstream process (set seen) (flow # flows) d}" using assms(3) by auto
  ultimately show ?thesis using Inl one_outcome_mono by (auto simp: walk_ok_def try_then_def)
next
  case x: (Inr ds)
  show ?thesis
  proof (cases r)
    case (Inl e)
    then have "be_code e = StructureInvalid" "\<not> one_outcome {d. simple_upstream process (set seen) flows d}"
      using assms(1) by (simp_all add: walk_ok_def)
    moreover have "{d. simple_upstream process (set seen) flows d} \<subseteq> {d. simple_upstream process (set seen) (flow # flows) d}"
      using assms(3) by auto
    ultimately show ?thesis using x Inl one_outcome_mono by (auto simp: walk_ok_def try_then_def)
  next
    case (Inr ds')
    then show ?thesis using assms x by (auto simp: walk_ok_def try_then_def)
  qed
qed

lemma walk_exact:
  assumes "outcomes_on_tasks process" and "gateways_bare process flows"
  shows "walk_ok process seen flows (walk process seen flows)"
  using assms(2)
proof (induction "card (set (flow_ids process) - set seen)" arbitrary: seen flows rule: less_induct)
  case less
  from less.prems show ?case
  proof (induction flows)
    case Nil
    then show ?case by (simp add: walk_ok_def)
  next
    case (Cons flow flows)
    have tail: "walk_ok process seen flows (walk process seen flows)" using Cons by (simp add: gateways_bare_def)
    show ?case
    proof (cases "\<exists>i src. flow_source process flow = Some (i, src) \<and> (el_type src \<in> set TASK_TYPES \<or> el_type src = ''bpmn:ParallelGateway'' \<and> i \<notin> set seen)")
      case False
      then have "walk process seen (flow # flows) = walk process seen flows" by (auto split: option.splits)
      moreover have "simple_upstream process (set seen) (flow # flows) d = simple_upstream process (set seen) flows d" for d
        using False by (auto simp: simple_upstream_Cons from_task_def from_gateway_def)
      ultimately show ?thesis using walk_ok_skip [OF tail] by simp
    next
      case True
      then obtain i src where src: "flow_source process flow = Some (i, src)"
        "el_type src \<in> set TASK_TYPES \<or> el_type src = ''bpmn:ParallelGateway'' \<and> i \<notin> set seen" by blast
      show ?thesis
      proof (cases "el_type src \<in> set TASK_TYPES")
        case True
        then have w: "walk process seen (flow # flows) = try_then (Inr [(i, flow_outcome flow)]) (\<lambda>ds. try_then (walk process seen flows) (\<lambda>ds'. Inr (ds @ ds')))"
          using src(1) task_type_distinct [OF True] True by (simp add: try_then_def split: sum.splits)
        have "simple_upstream process (set seen) (flow # flows) d \<longleftrightarrow> d \<in> {(i, flow_outcome flow)} \<or> simple_upstream process (set seen) flows d" for d
          using src(1) True task_type_distinct [OF True] by (auto simp: simple_upstream_Cons from_task_def from_gateway_def prod_eq_iff)
        then show ?thesis unfolding w by (intro walk_ok_add [OF tail, where D = "{(i, flow_outcome flow)}"]) simp_all
      next
        case False
        then have gw: "el_type src = ''bpmn:ParallelGateway''" "i \<notin> set seen" using src(2) by auto
        have "from_gateway process flow i" using src(1) gw(1) by (auto simp: from_gateway_def)
        then have bare: "findExt (Some flow) ''cinatra:TransitionOutcome'' = None" using Cons.prems by (auto simp: gateways_bare_def)
        let ?x = "try_then (walk process (i # seen) (incoming process i)) (collapse i [])"
        let ?D = "{d. simple_upstream process (insert i (set seen)) (incoming process i) d}"
        have w: "walk process seen (flow # flows) = try_then ?x (\<lambda>ds. try_then (walk process seen flows) (\<lambda>ds'. Inr (ds @ ds')))"
          using src(1) gw False bare by simp
        have "i \<in> set (flow_ids process)" using src(1) by (auto simp: flow_source_def split: option.splits dest: byId_ids)
        then have "card (set (flow_ids process) - set (i # seen)) < card (set (flow_ids process) - set seen)"
          using gw(2) by (intro psubset_card_mono) auto
        then have inner: "walk_ok process (i # seen) (incoming process i) (walk process (i # seen) (incoming process i))"
          using gateways_bare_incoming [OF assms(1)] by (rule less.hyps)
        have x: "case ?x of Inr ds \<Rightarrow> set ds = ?D | Inl e \<Rightarrow> be_code e = StructureInvalid \<and> \<not> one_outcome ?D"
        proof (cases "walk process (i # seen) (incoming process i)")
          case (Inl e)
          with inner show ?thesis by (simp add: walk_ok_def try_then_def)
        next
          case (Inr ds)
          with inner have "set ds = ?D" by (simp add: walk_ok_def)
          with collapse_Nil_exact [of ds i] Inr show ?thesis by (auto simp: try_then_def fail_def split: if_splits)
        qed
        have "simple_upstream process (set seen) (flow # flows) d \<longleftrightarrow> d \<in> ?D \<or> simple_upstream process (set seen) flows d" for d
          using src(1) gw False by (auto simp: simple_upstream_Cons from_task_def from_gateway_def)
        then show ?thesis unfolding w by (intro walk_ok_add [OF tail x])
      qed
    qed
  qed
qed

lemma dependsOn_exact:
  assumes "outcomes_on_tasks process"
  shows "if one_outcome {d. upstream process t d}
    then \<exists>ds. dependsOn process t = Inr ds \<and> set ds = {d. upstream process t d} \<and> distinct (map fst ds)
    else \<exists>e. dependsOn process t = Inl e \<and> be_code e = StructureInvalid"
proof -
  have w: "walk_ok process [] (incoming process t) (walk process [] (incoming process t))"
    by (rule walk_exact [OF assms gateways_bare_incoming [OF assms]])
  have all: "{d. simple_upstream process (set []) (incoming process t) d} = {d. upstream process t d}"
    using simple_upstream_all by simp
  show ?thesis
  proof (cases "walk process [] (incoming process t)")
    case (Inl e)
    with w all show ?thesis by (simp add: walk_ok_def dependsOn_def try_then_def)
  next
    case (Inr ds)
    with w all have ds: "set ds = {d. upstream process t d}" by (simp add: walk_ok_def)
    show ?thesis
      using collapse_Nil_exact [of ds t] unfolding ds [symmetric]
      by (cases "one_outcome (set ds)") (simp_all add: dependsOn_def try_then_def Inr fail_def)
  qed
qed

section \<open>The profile\<close>

lemma str_field_get: "str_field (Some e) k = Some v \<longleftrightarrow> get_str e k = Some v \<and> v \<noteq> []"
  by (auto simp: str_field_def split: option.splits)

lemma rev_map_filter: "rev (List.map_filter f xs) = List.map_filter f (rev xs)"
  by (simp add: List.map_filter_def rev_map rev_filter)

text \<open>The two tables over the flow elements agree where both are read.\<close>

lemma byId_type:
  assumes "byId process i = Some src" and "i \<noteq> []"
  shows "typeById process i = Some (el_type src)"
proof -
  let ?f = "\<lambda>e. map_option (\<lambda>j. (j, e)) (str_field (Some e) ''id'')" and ?g = "\<lambda>e. map_option (\<lambda>j. (j, el_type e)) (get_str e ''id'')"
  have "map_of (List.map_filter ?f es) i = Some src \<Longrightarrow> map_of (List.map_filter ?g es) i = Some (el_type src)" for es
  proof (induction es)
    case (Cons e es)
    show ?case
    proof (cases "get_str e ''id'' = Some i")
      case True
      then have "str_field (Some e) ''id'' = Some i" using assms(2) by (simp add: str_field_get)
      with True Cons.prems show ?thesis by (simp add: List.map_filter_def)
    next
      case False
      then have "str_field (Some e) ''id'' \<noteq> Some i" by (simp add: str_field_get)
      then have "map_of (List.map_filter ?f es) i = Some src" using Cons.prems
        by (cases "str_field (Some e) ''id''") (auto simp: List.map_filter_def)
      from Cons.IH [OF this] False show ?thesis by (cases "get_str e ''id''") (auto simp: List.map_filter_def)
    qed
  qed (simp add: List.map_filter_def)
  from this [of "rev (flowElements process)"] assms(1) show ?thesis
    by (simp add: byId_def typeById_def js_map_def rev_map_filter)
qed

lemma findExt_has_ext: "findExt (Some el) ty = None \<longleftrightarrow> \<not> has_ext el ty"
  by (auto simp: findExt_def has_ext_def find_None_iff list_ex_iff)

lemma profile_process:
  assumes "pr_ok (validateBpmnAgainstProfile defs)"
  obtains process where "processOf defs = Inr process" and "\<And>el. el \<in> set (flowElements process) \<Longrightarrow> element_errors process el = []"
    and "count_type ''bpmn:StartEvent'' process = 1" and "0 < count_type ''bpmn:EndEvent'' process"
proof (cases "processes defs")
  case Nil
  with assms show thesis by (simp add: validateBpmnAgainstProfile_def pr_ok_def)
next
  case (Cons process others)
  with assms have "others = []" "concat (map (element_errors process) (flowElements process)) = []"
    "count_type ''bpmn:StartEvent'' process = 1" "0 < count_type ''bpmn:EndEvent'' process"
    by (auto simp: validateBpmnAgainstProfile_def pr_ok_def split: if_splits)
  with Cons that [of process] show thesis by (simp add: processOf_def)
qed

lemma profile_outcomes_on_tasks:
  assumes "\<And>el. el \<in> set (flowElements process) \<Longrightarrow> element_errors process el = []"
  shows "outcomes_on_tasks process"
  unfolding outcomes_on_tasks_def list_all_iff
proof (intro ballI impI)
  fix flow assume flow: "flow \<in> set (flowElements process)" and g: "el_type flow = ''bpmn:SequenceFlow'' \<and> (\<exists>g. from_gateway process flow g)"
  then obtain i src where src: "flow_source process flow = Some (i, src)" "el_type src = ''bpmn:ParallelGateway''"
    by (auto simp: from_gateway_def)
  then have i: "str_field (get flow ''sourceRef'') ''id'' = Some i" "byId process i = Some src"
    by (auto simp: flow_source_def split: option.splits)
  have ref: "Option.bind (get flow ''sourceRef'') (\<lambda>s. get_str s ''id'') = Some i" "i \<noteq> []"
    using i(1) by (auto simp: str_field_def split: option.splits if_splits)
  have "typeById process i = Some ''bpmn:ParallelGateway''" using byId_type [OF i(2) ref(2)] src(2) by simp
  moreover have "''bpmn:ParallelGateway'' \<notin> set TASK_TYPES" by (simp add: TASK_TYPES_def)
  moreover have "flow_errors process flow = []" using assms [OF flow] g by (simp add: element_errors_def)
  ultimately have "\<not> has_ext flow ''cinatra:TransitionOutcome''" using ref by (auto simp: flow_errors_def split: if_splits)
  then show "findExt (Some flow) ''cinatra:TransitionOutcome'' = None" by (simp add: findExt_has_ext)
qed

text \<open>
  C34. On a process that the profile accepts, the dependencies of a task are exactly the tasks from which a path of
  parallel gateways leads to it, each with the outcome of the flow out of that task and each once; the traversal ends on
  cyclic gateways too. When two such flows from the same task disagree on the outcome, and only then, the process is
  rejected.
\<close>

theorem bpmn_dependencies_exact:
  assumes "pr_ok (validateBpmnAgainstProfile defs)"
  shows "\<exists>process. processOf defs = Inr process \<and>
    (\<forall>t. if one_outcome {d. upstream process t d}
      then \<exists>ds. dependsOn process t = Inr ds \<and> set ds = {d. upstream process t d} \<and> distinct (map fst ds)
      else \<exists>e. dependsOn process t = Inl e \<and> be_code e = StructureInvalid)"
proof -
  obtain process where p: "processOf defs = Inr process" "\<And>el. el \<in> set (flowElements process) \<Longrightarrow> element_errors process el = []"
    using profile_process [OF assms] by metis
  then have "outcomes_on_tasks process" using profile_outcomes_on_tasks by blast
  from p(1) dependsOn_exact [OF this] show ?thesis by blast
qed

lemma try_then_Inr [simp]: "try_then x f = Inr y \<longleftrightarrow> (\<exists>v. x = Inr v \<and> f v = Inr y)"
  by (cases x) (simp_all add: try_then_def)

lemma fail_Inr [simp]: "fail c e \<noteq> Inr y" "Inr y \<noteq> fail c e"
  by (simp_all add: fail_def)

lemma map_all_Inr: "map_all f xs = Inr ys \<longleftrightarrow> list_all2 (\<lambda>x y. f x = Inr y) xs ys"
proof (induction xs arbitrary: ys)
  case (Cons x xs)
  then show ?case by (cases ys) auto
qed auto

lemma json_field_keys: "fst ` set (json_field k v) \<subseteq> {k}"
  by (cases v) (simp_all add: json_field_def)

lemma map_of_json_field: "map_of (json_field k v) k' = (if k' = k then v else None)"
  by (cases v) (simp_all add: json_field_def)

section \<open>Compiled tasks\<close>

definition EXTRA_FIELDS :: "string set" where
  "EXTRA_FIELDS = {''agentRef'', ''input'', ''requiredScope'', ''rejectionPolicy'', ''message''}"

definition COMMON_FIELDS :: "string set" where
  "COMMON_FIELDS = {''schedule'', ''dependsOn'', ''failurePolicy'', ''maxAttempts'', ''foreach''}"

text \<open>The fields specific to a type, with the ones the type requires.\<close>

definition typed_fields :: "string \<Rightarrow> (string \<times> json) list \<Rightarrow> bool" where
  "typed_fields ty extra \<longleftrightarrow>
     fst ` set extra \<subseteq> EXTRA_FIELDS
     \<and> (ty = ''agent_task'' \<longrightarrow> (\<exists>a p. map_of extra ''agentRef'' = Some a \<and> get_str a ''package'' = Some p \<and> p \<noteq> []))
     \<and> (ty = ''approval'' \<longrightarrow> (\<exists>a l. map_of extra ''requiredScope'' = Some a \<and> get_str a ''level'' = Some l \<and> l \<noteq> []))"

definition type_for :: "string \<Rightarrow> string \<Rightarrow> bool" where
  "type_for el ty \<longleftrightarrow>
     el = ''bpmn:ServiceTask'' \<and> ty = ''agent_task'' \<or> el = ''bpmn:UserTask'' \<and> (ty = ''approval'' \<or> ty = ''checkpoint'')
     \<or> el = ''bpmn:ManualTask'' \<and> ty = ''manual'' \<or> el = ''bpmn:SendTask'' \<and> ty = ''notification''"

lemma compileCore_typed:
  assumes "compileCore J key title task = Inr base"
  shows "\<exists>ty extra. base = head_fields key title ty @ extra \<and> type_for (el_type task) ty \<and> typed_fields ty extra"
proof -
  consider (agent) "el_type task = ''bpmn:ServiceTask''" | (user) "el_type task = ''bpmn:UserTask''"
    | (manual) "el_type task = ''bpmn:ManualTask''" | (send) "el_type task = ''bpmn:SendTask''"
    using assms by (auto simp: compileCore_def split: if_splits)
  then show ?thesis
  proof cases
    case agent
    with assms have core: "agent_core J key title task = Inr base" by (simp add: compileCore_def)
    then obtain a p where a: "findExt (Some task) ''cinatra:AgentRef'' = Some a" "str_field (Some a) ''package'' = Some p"
      by (auto simp: agent_core_def split: option.splits if_splits)
    let ?ref = "JObj (str_fields a [''package'', ''name'', ''version'', ''templateId''])"
    have p: "get_str ?ref ''package'' = Some p" "p \<noteq> []"
    proof -
      show "get_str ?ref ''package'' = Some p" using a(2) by (simp add: get_str_def get_def str_fields_def map_add_def map_of_json_field)
      show "p \<noteq> []" using a(2) by (simp add: str_field_get)
    qed
    have "base = head_fields key title ''agent_task'' @ [(''agentRef'', ?ref)]
        \<or> (\<exists>v. base = head_fields key title ''agent_task'' @ [(''agentRef'', ?ref), (''input'', v)])"
      using core a by (auto simp: agent_core_def Let_def split: option.splits)
    then show ?thesis using agent p by (auto simp: type_for_def typed_fields_def EXTRA_FIELDS_def)
  next
    case user
    with assms have core: "user_core key title task = Inr base" by (simp add: compileCore_def)
    let ?cfg = "findExt (Some task) ''cinatra:ApprovalConfig''"
    from core consider (appr) l where "str_field ?cfg ''level'' = Some l"
        "base = head_fields key title ''approval''
           @ [(''requiredScope'', JObj ((''level'', JStr l) # json_field ''id'' (map_option JStr (str_field ?cfg ''id''))))]
           @ json_field ''rejectionPolicy'' (map_option JStr (str_field ?cfg ''rejectionPolicy''))"
      | (check) "base = head_fields key title ''checkpoint''"
      by (auto simp: user_core_def Let_def split: option.splits if_splits)
    then show ?thesis
    proof cases
      case appr
      have "l \<noteq> []" using appr(1) by (auto simp: str_field_def split: option.splits if_splits)
      then have "typed_fields ''approval'' ([(''requiredScope'', JObj ((''level'', JStr l) # json_field ''id'' (map_option JStr (str_field ?cfg ''id''))))]
           @ json_field ''rejectionPolicy'' (map_option JStr (str_field ?cfg ''rejectionPolicy'')))"
        using json_field_keys [of "''rejectionPolicy''"] by (auto simp: typed_fields_def EXTRA_FIELDS_def get_str_def get_def image_Un)
      with user appr(2) show ?thesis by (intro exI [of _ "''approval''"]) (auto simp: type_for_def)
    next
      case check
      with user show ?thesis by (intro exI [of _ "''checkpoint''"]) (simp add: type_for_def typed_fields_def)
    qed
  next
    case manual
    with assms show ?thesis by (intro exI [of _ "''manual''"]) (simp add: compileCore_def type_for_def typed_fields_def)
  next
    case send
    with assms show ?thesis
      using json_field_keys [of "''message''"]
      by (intro exI [of _ "''notification''"]) (auto simp: compileCore_def type_for_def typed_fields_def EXTRA_FIELDS_def)
  qed
qed

text \<open>Fields outside those the compiler writes are absent, so nothing is lossy.\<close>

lemma map_of_outside: "fst ` set kvs \<subseteq> K \<Longrightarrow> k \<notin> K \<Longrightarrow> map_of kvs k = None"
  by (auto simp: map_of_eq_None_iff)

lemma own_lossiness_Nil:
  assumes "fst ` set rest \<subseteq> EXTRA_FIELDS \<union> COMMON_FIELDS" and "ty \<noteq> ''wait''"
  shows "own_lossiness (JObj (head_fields key title ty @ rest)) = []"
proof -
  let ?t = "JObj (head_fields key title ty @ rest)"
  have no: "get ?t k = None" if "k \<notin> EXTRA_FIELDS \<union> COMMON_FIELDS" "k \<notin> {''key'', ''title'', ''type''}" for k
    using map_of_outside [OF assms(1) that(1)] that(2) by (simp add: get_def head_fields_def)
  have absent: "get ?t ''required'' = None" "get ?t ''pinned'' = None" "get ?t ''risk'' = None" "get ?t ''parent'' = None"
    "get ?t ''assignee'' = None" "get ?t ''missedWindowPolicy'' = None" "get ?t ''retryPolicy'' = None" "get ?t ''cancelPolicy'' = None"
    "get ?t ''solicitation'' = None" "get ?t ''deadlineIso8601'' = None" "get ?t ''instructions'' = None" "get ?t ''recipients'' = None"
    by (rule no; simp add: EXTRA_FIELDS_def COMMON_FIELDS_def)+
  have "task_type ?t = ty" by (simp add: task_type_def get_str_def get_def head_fields_def)
  then show ?thesis
    using assms(2) by (simp add: own_lossiness_def lossy_when_def get_true_def nonempty_text_def given_def non_null_def get_str_def get_list_def absent)
qed

lemma get_head:
  "get (JObj (head_fields key title ty @ rest)) ''key'' = Some (JStr key)"
  "get (JObj (head_fields key title ty @ rest)) ''title'' = Some (JStr title)"
  "get (JObj (head_fields key title ty @ rest)) ''type'' = Some (JStr ty)"
  "k \<notin> {''key'', ''title'', ''type''} \<Longrightarrow> get (JObj (head_fields key title ty @ rest)) k = map_of rest k"
  by (simp_all add: get_def head_fields_def)

lemma base_lossless:
  assumes "typed_fields ty extra" and "ty \<noteq> ''wait''"
  shows "checkTaskLossiness (JObj (head_fields key title ty @ extra)) = []"
proof -
  have sub: "fst ` set extra \<subseteq> EXTRA_FIELDS" using assms(1) by (simp add: typed_fields_def)
  then have "map_of extra ''foreach'' = None" by (rule map_of_outside) (simp add: EXTRA_FIELDS_def)
  then have "foreach_template (JObj (head_fields key title ty @ extra)) = None"
    by (simp add: foreach_template_def get_head)
  with own_lossiness_Nil [of extra ty key title] sub assms(2) show ?thesis
    by (subst checkTaskLossiness.simps) auto
qed

text \<open>What a compiled task is to its element.\<close>

definition compiled_as :: "element \<Rightarrow> element \<Rightarrow> task_spec \<Rightarrow> bool" where
  "compiled_as process e t \<longleftrightarrow>
     str_field (Some e) ''id'' = Some (task_key t) \<and> str_field (Some e) ''name'' = Some (task_title t)
     \<and> type_for (el_type e) (task_type t)
     \<and> (task_type t = ''agent_task'' \<longrightarrow> (\<exists>a p. get t ''agentRef'' = Some a \<and> get_str a ''package'' = Some p \<and> p \<noteq> []))
     \<and> (task_type t = ''approval'' \<longrightarrow> (\<exists>a l. get t ''requiredScope'' = Some a \<and> get_str a ''level'' = Some l \<and> l \<noteq> []))
     \<and> (\<exists>ds. dependsOn process (task_key t) = Inr ds
          \<and> map (\<lambda>d. (get_str d ''taskKey'', get_str d ''outcome'')) (get_list t ''dependsOn'') = map (\<lambda>(k, oc). (Some k, oc)) ds)"

lemma dep_json_read: "get_str (dep_json d) ''taskKey'' = Some (fst d)" "get_str (dep_json d) ''outcome'' = snd d"
  by (cases "snd d"; simp add: dep_json_def get_str_def get_def json_field_def)+

lemma compileTask_ok:
  assumes "compileTask J process e = Inr t"
  shows "compiled_as process e t \<and> checkTaskLossiness t = []"
proof -
  obtain key title where kt: "str_field (Some e) ''id'' = Some key" "str_field (Some e) ''name'' = Some title"
    using assms by (auto simp: compileTask_def split: option.splits prod.splits)
  with assms obtain schedule deps base foreach where
    deps: "dependsOn process key = Inr deps" and base: "compileCore J key title e = Inr base"
    and foreach: "compileForeach J e base = Inr foreach"
    and t: "t = JObj (base @ json_field ''schedule'' schedule
                 @ (if deps = [] then [] else [(''dependsOn'', JArr (map dep_json deps))])
                 @ policy_fields J e @ json_field ''foreach'' foreach)"
    by (auto simp: compileTask_def)
  obtain ty extra where b: "base = head_fields key title ty @ extra" "type_for (el_type e) ty" "typed_fields ty extra"
    using compileCore_typed [OF base] by blast
  define rest where "rest = json_field ''schedule'' schedule
                 @ (if deps = [] then [] else [(''dependsOn'', JArr (map dep_json deps))])
                 @ policy_fields J e @ json_field ''foreach'' foreach"
  have t': "t = JObj (head_fields key title ty @ (extra @ rest))" by (simp add: t b(1) rest_def)
  have ty: "ty \<noteq> ''wait''" using b(2) by (auto simp: type_for_def)
  have pol: "fst ` set (policy_fields J e) \<subseteq> {''failurePolicy'', ''maxAttempts''}"
    by (auto simp: policy_fields_def str_fields_def json_field_def split: option.splits)
  then have keys: "fst ` set rest \<subseteq> COMMON_FIELDS"
    using json_field_keys [of "''schedule''" schedule] json_field_keys [of "''foreach''" foreach]
    by (auto simp: rest_def COMMON_FIELDS_def image_Un split: if_splits)
  have ex: "fst ` set extra \<subseteq> EXTRA_FIELDS" using b(3) by (simp add: typed_fields_def)
  have g: "get t k = (case map_of extra k of Some v \<Rightarrow> Some v | None \<Rightarrow> map_of rest k)" if "k \<notin> {''key'', ''title'', ''type''}" for k
    using that by (simp add: t' get_head map_add_def)
  have own: "own_lossiness t = []" unfolding t' by (rule own_lossiness_Nil) (use ex keys ty in \<open>auto simp: image_Un\<close>)
  have "map_of (policy_fields J e) ''foreach'' = None" "map_of (policy_fields J e) ''dependsOn'' = None" using pol by (auto simp: map_of_eq_None_iff)
  then have rest_get: "map_of rest ''foreach'' = foreach" "map_of rest ''dependsOn'' = (if deps = [] then None else Some (JArr (map dep_json deps)))"
    by (simp_all add: rest_def map_add_def map_of_json_field split: option.splits)
  have none: "map_of extra ''foreach'' = None" "map_of extra ''dependsOn'' = None"
    by (rule map_of_outside [OF ex]; simp add: EXTRA_FIELDS_def)+
  have gf: "get t ''foreach'' = foreach" "get t ''dependsOn'' = (if deps = [] then None else Some (JArr (map dep_json deps)))"
    by (simp_all add: g none rest_get)
  have tmpl: "foreach_template t = None \<or> foreach_template t = Some (JObj base)"
  proof (cases foreach)
    case (Some f)
    with foreach obtain fs where "f = JObj (str_fields fs [''source'', ''as''] @ [(''template'', JObj base)]
                        @ str_fields fs [''itemKey'', ''rollupPolicy'']
                        @ json_field ''maxFanout'' (map_option JNum (toInt J (get fs ''maxFanout''))))"
      by (auto simp: compileForeach_def split: option.splits if_splits)
    then have "get f ''template'' = Some (JObj base)" by (simp add: get_def str_fields_def map_add_def map_of_json_field)
    then show ?thesis by (simp add: foreach_template_def gf Some)
  qed (simp add: foreach_template_def gf)
  have lossless: "checkTaskLossiness t = []"
    using own tmpl base_lossless [OF b(3) ty] b(1) by (subst checkTaskLossiness.simps) auto
  have head: "task_key t = key" "task_title t = title" "task_type t = ty"
    by (simp_all add: t' task_key_def task_title_def task_type_def get_str_def get_head)
  have list: "map (\<lambda>d. (get_str d ''taskKey'', get_str d ''outcome'')) (get_list t ''dependsOn'') = map (\<lambda>(k, oc). (Some k, oc)) deps"
    by (auto simp: get_list_def gf dep_json_read split: prod.splits)
  have "get t ''agentRef'' = map_of extra ''agentRef''" if "map_of extra ''agentRef'' \<noteq> None" using that by (auto simp: g)
  moreover have "get t ''requiredScope'' = map_of extra ''requiredScope''" if "map_of extra ''requiredScope'' \<noteq> None" using that by (auto simp: g)
  ultimately show ?thesis
    using lossless kt b(2,3) deps list by (auto simp: compiled_as_def head typed_fields_def)
qed

text \<open>
  C35. What the compiler produces is typed: one task per task element, in order, with its identifier as key and its name as
  title, the type of the element and the fields that type needs (an agent has a package, an approval a level), and
  exactly the computed dependencies; and no compiled task uses a field outside the profile, so
  the compiled specification passes the guard of the emit side.
\<close>

theorem compiled_tasks_typed:
  assumes "compiled_spec J process = Inr spec"
  shows "list_all2 (compiled_as process) (task_elements process) (spec_tasks spec)
    \<and> validateWorkflowSpecAgainstBpmnProfile spec = []"
proof -
  obtain decls hints tasks where c: "compilePlaceholders J process = Inr (decls, hints)"
    "map_all (compileTask J process) (task_elements process) = Inr tasks"
    and spec: "spec = JObj (json_field ''key'' (map_option JStr (str_field (Some process) ''id''))
         @ [(''name'', JStr (spec_name process)), (''tasks'', JArr tasks)]
         @ json_field ''product'' (map_option JStr (str_field (findExt (Some process) ''cinatra:WorkflowMeta'') ''product''))
         @ target_field process
         @ (if decls = [] then [] else [(''placeholders'', JObj decls)])
         @ (if hints = [] then [] else [(''metadata'', JObj [(''placeholderHints'', JObj hints)])]))"
    using assms by (auto simp: compiled_spec_def)
  have tasks: "spec_tasks spec = tasks"
    by (simp add: spec spec_tasks_def get_list_def get_def map_add_def map_of_json_field)
  have each: "list_all2 (\<lambda>e t. compileTask J process e = Inr t) (task_elements process) tasks"
    using c(2) by (simp add: map_all_Inr)
  then have "list_all2 (compiled_as process) (task_elements process) tasks"
    by (rule list_all2_mono) (simp add: compileTask_ok)
  moreover have "checkTaskLossiness t = []" if t: "t \<in> set tasks" for t
  proof -
    obtain i where "i < length tasks" "t = tasks ! i" using t by (auto simp: in_set_conv_nth)
    then have "compileTask J process (task_elements process ! i) = Inr t" using each by (simp add: list_all2_conv_all_nth)
    then show ?thesis by (rule compileTask_ok [THEN conjunct2])
  qed
  ultimately show ?thesis by (simp add: tasks validateWorkflowSpecAgainstBpmnProfile_def)
qed

section \<open>The sidecar\<close>

text \<open>The schema names its tasks and gives a parsed specification back when it parses it again.\<close>

definition schema_stable :: "validator \<Rightarrow> bool" where
  "schema_stable V \<longleftrightarrow>
     (\<forall>input spec. va_safeParse V input = Inr spec \<longrightarrow> [] \<notin> set (spec_keys spec) \<and> va_safeParse V spec = Inr spec)"

lemma manifest_accepted:
  assumes "schema_stable V" and "va_safeParse V input = Inr (tm_definition raw)"
  shows "parseWorkflowTemplateManifest V raw = Inr m \<longleftrightarrow>
    m = raw \<and> tm_key raw \<noteq> [] \<and> tm_name raw \<noteq> [] \<and> 0 < tm_version raw
    \<and> sound_template V (tm_definition raw) \<and> lintWorkflowSpecForTriggerBundling (tm_definition raw) = []"
proof -
  let ?d = "tm_definition raw"
  have d: "va_safeParse V ?d = Inr ?d" "[] \<notin> set (spec_keys ?d)" using assms by (auto simp: schema_stable_def)
  have "vr_ok (validateTemplate V ?d) \<and> vr_spec (validateTemplate V ?d) = Some ?d \<longleftrightarrow> va_safeParse V ?d = Inr ?d \<and> sound_template V ?d"
    by (rule validateTemplate_ok) (use assms(1) schema_stable_def in blast)
  moreover have "vr_ok (validateTemplate V ?d) \<Longrightarrow> vr_spec (validateTemplate V ?d) = Some ?d"
    using d(1) by (simp add: validateTemplate_def Let_def)
  ultimately have tpl: "vr_ok (validateTemplate V ?d) \<longleftrightarrow> sound_template V ?d" using d(1) by blast
  have same: "raw\<lparr>tm_definition := ?d\<rparr> = raw" by simp
  show ?thesis
    by (auto simp: parseWorkflowTemplateManifest_def manifest_schema_def d(1) tpl Let_def same split: if_splits)
qed

lemma canonical_is_hit:
  assumes "canonical_sidecar root = Some xml"
  shows "[''cinatra'', ''workflow.bpmn''] \<in> set (findAllSidecars root)"
proof -
  obtain es c where "map_of root ''cinatra'' = Some (FsDir (Some es))" "map_of es ''workflow.bpmn'' = Some (FsFile c)"
    using assms by (auto simp: canonical_sidecar_def split: option.splits fs_node.splits)
  then have dir: "(''cinatra'', FsDir (Some es)) \<in> set root" and entry: "(''workflow.bpmn'', FsFile c) \<in> set es"
    by (auto dest: map_of_SomeD)
  have "[''cinatra'', ''workflow.bpmn''] \<in> set (sidecar_hits [''cinatra''] (''workflow.bpmn'', FsFile c))" by simp
  with entry have "[''cinatra'', ''workflow.bpmn''] \<in> set (sidecar_hits [] (''cinatra'', FsDir (Some es)))"
    by (auto simp: SKIP_DIRS_def intro: bexI [of _ "(''workflow.bpmn'', FsFile c)"])
  with dir show ?thesis unfolding findAllSidecars_def by (auto simp del: sidecar_hits.simps)
qed

lemma sidecar_preconditions_Nil:
  "sidecar_preconditions pkg root = [] \<longleftrightarrow>
     get pkg ''workflow'' = None \<and> (\<exists>v. get pkg ''workflowVersion'' = Some (JNum v) \<and> 0 < v)
     \<and> canonical_sidecar root \<noteq> None \<and> findAllSidecars root = [[''cinatra'', ''workflow.bpmn'']]"
proof -
  have "length (findAllSidecars root) \<le> 1 \<longleftrightarrow> findAllSidecars root = [[''cinatra'', ''workflow.bpmn'']]"
    if c: "canonical_sidecar root = Some xml" for xml
    using canonical_is_hit [OF c] by (cases "findAllSidecars root") auto
  moreover have "positive_integer (get pkg ''workflowVersion'') \<longleftrightarrow> (\<exists>v. get pkg ''workflowVersion'' = Some (JNum v) \<and> 0 < v)"
    by (auto simp: positive_integer_def split: option.splits json.splits)
  ultimately show ?thesis
    by (cases "canonical_sidecar root") (auto simp: sidecar_preconditions_def split: if_splits)
qed

lemma compiled_parsed:
  "compileBpmnToWorkflowSpec J V defs = Inr spec \<Longrightarrow> \<exists>input. va_safeParse V input = Inr spec"
proof -
  assume "compileBpmnToWorkflowSpec J V defs = Inr spec"
  then obtain el raw where "(case va_safeParse V raw of Inl issues \<Rightarrow> fail StructureInvalid el | Inr parsed \<Rightarrow> Inr parsed) = Inr spec"
    unfolding compileBpmnToWorkflowSpec_def try_then_Inr by blast
  then show ?thesis by (cases "va_safeParse V raw") auto
qed

lemma compile_sidecar_accepted:
  assumes "schema_stable (bp_validator B)" and "0 < v"
  shows "compile_sidecar B v defs = Inr m \<longleftrightarrow>
    pr_ok (validateBpmnAgainstProfile defs)
    \<and> (\<exists>spec. compileBpmnToWorkflowSpec (bp_js B) (bp_validator B) defs = Inr spec
         \<and> sound_template (bp_validator B) spec \<and> lintWorkflowSpecForTriggerBundling spec = []
         \<and> tm_key (sidecar_manifest defs v spec) \<noteq> [] \<and> tm_name (sidecar_manifest defs v spec) \<noteq> []
         \<and> m = sidecar_manifest defs v spec)"
proof (cases "compileBpmnToWorkflowSpec (bp_js B) (bp_validator B) defs")
  case (Inl e)
  then show ?thesis by (simp add: compile_sidecar_def Let_def)
next
  case (Inr spec)
  then obtain input where input: "va_safeParse (bp_validator B) input = Inr (tm_definition (sidecar_manifest defs v spec))"
    using compiled_parsed by (fastforce simp: sidecar_manifest_def Let_def)
  have fields: "tm_definition (sidecar_manifest defs v spec) = spec" "tm_version (sidecar_manifest defs v spec) = v"
    by (simp_all add: sidecar_manifest_def Let_def)
  have "compile_sidecar B v defs = Inr m \<longleftrightarrow>
      pr_ok (validateBpmnAgainstProfile defs) \<and> parseWorkflowTemplateManifest (bp_validator B) (sidecar_manifest defs v spec) = Inr m"
    by (simp add: compile_sidecar_def Let_def Inr split: sum.splits)
  also have "\<dots> \<longleftrightarrow> pr_ok (validateBpmnAgainstProfile defs) \<and> m = sidecar_manifest defs v spec
      \<and> tm_key (sidecar_manifest defs v spec) \<noteq> [] \<and> tm_name (sidecar_manifest defs v spec) \<noteq> []
      \<and> sound_template (bp_validator B) spec \<and> lintWorkflowSpecForTriggerBundling spec = []"
    using manifest_accepted [OF assms(1) input] assms(2) by (simp add: fields)
  finally show ?thesis using Inr by auto
qed

text \<open>
  C36. A package is accepted as a workflow extension exactly when it has no inline definition, a positive integer version and
  the canonical sidecar as its only one anywhere in the tree, and this file parses to a process inside the profile that compiles to a
  specification the template tier accepts and the trigger lint passes, with a key and a name; the manifest
  then carries this specification and this version.
\<close>

theorem sidecar_accepts_iff:
  assumes "schema_stable (bp_validator B)"
  shows "parseWorkflowBpmnSidecar B pkg root = Inr m \<longleftrightarrow>
     get pkg ''workflow'' = None \<and> findAllSidecars root = [[''cinatra'', ''workflow.bpmn'']]
     \<and> (\<exists>v xml defs spec. get pkg ''workflowVersion'' = Some (JNum v) \<and> 0 < v
          \<and> canonical_sidecar root = Some xml \<and> bp_fromXML B xml = Some defs \<and> pr_ok (validateBpmnAgainstProfile defs)
          \<and> compileBpmnToWorkflowSpec (bp_js B) (bp_validator B) defs = Inr spec
          \<and> sound_template (bp_validator B) spec \<and> lintWorkflowSpecForTriggerBundling spec = []
          \<and> tm_key (sidecar_manifest defs v spec) \<noteq> [] \<and> tm_name (sidecar_manifest defs v spec) \<noteq> []
          \<and> m = sidecar_manifest defs v spec)"
proof (cases "sidecar_preconditions pkg root = []")
  case False
  then have "parseWorkflowBpmnSidecar B pkg root \<noteq> Inr m" by (simp add: parseWorkflowBpmnSidecar_def)
  with False show ?thesis unfolding sidecar_preconditions_Nil by auto
next
  case True
  then obtain v xml where pre: "get pkg ''workflow'' = None" "get pkg ''workflowVersion'' = Some (JNum v)" "0 < v"
    "canonical_sidecar root = Some xml" "findAllSidecars root = [[''cinatra'', ''workflow.bpmn'']]"
    unfolding sidecar_preconditions_Nil by auto
  have "parseWorkflowBpmnSidecar B pkg root = Inr m \<longleftrightarrow> (\<exists>defs. bp_fromXML B xml = Some defs \<and> compile_sidecar B v defs = Inr m)"
    using True pre by (simp add: parseWorkflowBpmnSidecar_def int_column_def split: option.splits)
  then show ?thesis using pre by (auto simp: compile_sidecar_accepted [OF assms pre(3)])
qed

section \<open>A small process\<close>

definition demo_flow :: "string \<Rightarrow> string \<Rightarrow> element" where
  "demo_flow a b = JObj [(''$type'', JStr ''bpmn:SequenceFlow''), (''id'', JStr (a @ b)),
     (''sourceRef'', JObj [(''id'', JStr a)]), (''targetRef'', JObj [(''id'', JStr b)])]"

definition demo_node :: "string \<Rightarrow> string \<Rightarrow> element" where
  "demo_node ty i = JObj [(''$type'', JStr ty), (''id'', JStr i), (''name'', JStr i)]"

definition demo_process :: element where
  "demo_process = JObj [(''$type'', JStr ''bpmn:Process''), (''id'', JStr ''p''),
     (''flowElements'', JArr
       [demo_node ''bpmn:StartEvent'' ''s'', demo_node ''bpmn:ManualTask'' ''a'', demo_node ''bpmn:ParallelGateway'' ''g'',
        demo_node ''bpmn:ParallelGateway'' ''h'', demo_node ''bpmn:ManualTask'' ''b'', demo_node ''bpmn:EndEvent'' ''e'',
        demo_flow ''s'' ''a'', demo_flow ''a'' ''g'', demo_flow ''g'' ''h'', demo_flow ''h'' ''g'', demo_flow ''h'' ''b'', demo_flow ''b'' ''e''])]"

definition demo_defs :: element where
  "demo_defs = JObj [(''rootElements'', JArr [demo_process])]"

lemma demo_profile: "pr_ok (validateBpmnAgainstProfile demo_defs)"
  by code_simp

lemma demo_processOf: "processOf demo_defs = Inr demo_process"
  by code_simp

theorem bpmn_dependencies_exact_witness:
  "dependsOn demo_process ''b'' = Inr [(''a'', None)] \<and> {d. upstream demo_process ''b'' d} = {(''a'', None)}"
proof -
  have ds: "dependsOn demo_process ''b'' = Inr [(''a'', None)]" by code_simp
  from bpmn_dependencies_exact [OF demo_profile]
  have "if one_outcome {d. upstream demo_process ''b'' d}
      then \<exists>ds. dependsOn demo_process ''b'' = Inr ds \<and> set ds = {d. upstream demo_process ''b'' d} \<and> distinct (map fst ds)
      else \<exists>e. dependsOn demo_process ''b'' = Inl e \<and> be_code e = StructureInvalid"
    by (auto simp: demo_processOf)
  with ds have "{d. upstream demo_process ''b'' d} = {(''a'', None)}" by (auto split: if_splits)
  with ds show ?thesis by simp
qed

definition demo_js :: js_env where
  "demo_js = \<lparr>js_parse = (\<lambda>s. None), js_Number = (\<lambda>s. None)\<rparr>"

definition demo_bpmn_task :: "string \<Rightarrow> (string \<times> json) list \<Rightarrow> task_spec" where
  "demo_bpmn_task k fs = JObj ([(''key'', JStr k), (''title'', JStr k), (''type'', JStr ''manual'')] @ fs)"

definition demo_bpmn_spec :: workflow_spec where
  "demo_bpmn_spec = JObj [(''key'', JStr ''p''), (''name'', JStr ''p''),
     (''tasks'', JArr [demo_bpmn_task ''a'' [], demo_bpmn_task ''b'' [(''dependsOn'', JArr [JObj [(''taskKey'', JStr ''a'')]])]])]"

lemma demo_compiled: "compiled_spec demo_js demo_process = Inr demo_bpmn_spec"
  by code_simp

theorem compiled_tasks_typed_witness:
  "list_all2 (compiled_as demo_process) (task_elements demo_process) (spec_tasks demo_bpmn_spec)
   \<and> map task_key (spec_tasks demo_bpmn_spec) = [''a'', ''b'']"
  using compiled_tasks_typed [OF demo_compiled]
  by (simp add: demo_bpmn_spec_def demo_bpmn_task_def spec_tasks_def get_list_def get_def task_key_def get_str_def)

definition demo_parser :: bpmn_parser where
  "demo_parser = \<lparr>bp_fromXML = (\<lambda>xml. if xml = ''<bpmn/>'' then Some demo_defs else None), bp_js = demo_js, bp_validator = named_validator\<rparr>"

definition demo_tree :: "(string \<times> fs_node) list" where
  "demo_tree = [(''package.json'', FsFile (Some ''{}'')), (''cinatra'', FsDir (Some [(''workflow.bpmn'', FsFile (Some ''<bpmn/>''))]))]"

definition demo_pkg :: json where
  "demo_pkg = JObj [(''kind'', JStr ''workflow''), (''workflowVersion'', JNum 2)]"

lemma demo_bpmn_fields:
  "spec_tasks demo_bpmn_spec = [demo_bpmn_task ''a'' [], demo_bpmn_task ''b'' [(''dependsOn'', JArr [JObj [(''taskKey'', JStr ''a'')]])]]"
  "task_key (demo_bpmn_task k fs) = k" "task_title (demo_bpmn_task k fs) = k" "task_type (demo_bpmn_task k fs) = ''manual''"
  by (simp_all add: demo_bpmn_spec_def demo_bpmn_task_def spec_tasks_def get_list_def get_def task_key_def get_str_def task_title_def task_type_def)

lemma demo_bpmn_sound: "sound_template named_validator demo_bpmn_spec"
proof -
  let ?a = "demo_bpmn_task ''a'' []" and ?b = "demo_bpmn_task ''b'' [(''dependsOn'', JArr [JObj [(''taskKey'', JStr ''a'')]])]"
  have fields: "task_depKeys ?a = []" "task_depKeys ?b = [''a'']" "task_foreach ?a = None" "task_foreach ?b = None"
    "get ?a ''input'' = None" "get ?b ''input'' = None" "task_schedule ?a = None" "task_schedule ?b = None"
    "task_parent ?a = None" "task_parent ?b = None" "task_pinned ?a = False" "task_pinned ?b = False"
    by (simp_all add: demo_bpmn_task_def task_depKeys_def task_foreach_def get_list_def get_def get_str_def task_schedule_def
        task_parent_def task_pinned_def get_true_def)
  have anchors: "task_anchor ?a = None" "task_anchor ?b = None" by (simp_all add: task_anchor_def fields)
  have "jsonDepth demo_bpmn_spec 1 = 6" by (simp add: demo_bpmn_spec_def demo_bpmn_task_def is_container_def)
  moreover have "byteLength demo_bpmn_spec \<le> 262144"
    by (simp add: demo_bpmn_spec_def demo_bpmn_task_def byteLength_def json_string_plain)
  ultimately have "checkLimits demo_bpmn_spec = []"
    by (simp add: checkLimits_def Let_def count_limit_def SPEC_LIMITS_def demo_bpmn_fields fields title_limit_def input_limit_def schedule_limits_def)
  moreover have "foreach_errors demo_bpmn_spec = []"
    by (simp add: foreach_errors_def per_task_def foreach_task_errors_def demo_bpmn_fields fields)
  moreover have "dependency_links demo_bpmn_spec = {(''b'', ''a'')}" "anchor_links demo_bpmn_spec = {}" "parent_links demo_bpmn_spec = {}"
    by (auto simp: links_def demo_bpmn_fields fields anchors anchor_list_def parent_list_def)
  moreover have "acyclic {(''b'', ''a'')}" by (rule acyclic_insert [THEN iffD2]) (simp add: acyclic_def)
  moreover have "target_tz demo_bpmn_spec = None" by (simp add: target_tz_def demo_bpmn_spec_def get_def)
  ultimately show ?thesis
    unfolding sound_template_def using foreach_errors_Nil [of demo_bpmn_spec]
    by (simp add: sound_links_def acyclic_def demo_bpmn_fields fields sound_tz_def spec_keys_def)
qed

theorem sidecar_accepts_iff_witness:
  "parseWorkflowBpmnSidecar demo_parser demo_pkg demo_tree =
     Inr \<lparr>tm_key = ''p'', tm_version = 2, tm_name = ''p'', tm_description = None, tm_definition = demo_bpmn_spec\<rparr>"
proof -
  have stable: "schema_stable (bp_validator demo_parser)"
    by (auto simp: schema_stable_def demo_parser_def named_validator_def split: if_splits)
  have "va_safeParse named_validator demo_bpmn_spec = Inr demo_bpmn_spec"
    by (simp add: named_validator_def spec_keys_def demo_bpmn_fields)
  then have compiled: "compileBpmnToWorkflowSpec (bp_js demo_parser) (bp_validator demo_parser) demo_defs = Inr demo_bpmn_spec"
    by (simp add: compileBpmnToWorkflowSpec_def demo_processOf demo_compiled demo_parser_def)
  have manifest: "sidecar_manifest demo_defs 2 demo_bpmn_spec =
      \<lparr>tm_key = ''p'', tm_version = 2, tm_name = ''p'', tm_description = None, tm_definition = demo_bpmn_spec\<rparr>"
    by code_simp
  have hits: "findAllSidecars demo_tree = [[''cinatra'', ''workflow.bpmn'']]" by code_simp
  have lint: "lintWorkflowSpecForTriggerBundling demo_bpmn_spec = []"
    by (simp add: lintWorkflowSpecForTriggerBundling_def per_task_def trigger_findings_def demo_bpmn_fields)
  have facts: "get demo_pkg ''workflow'' = None" "get demo_pkg ''workflowVersion'' = Some (JNum 2)" "canonical_sidecar demo_tree = Some ''<bpmn/>''"
    "bp_fromXML demo_parser ''<bpmn/>'' = Some demo_defs" "sound_template (bp_validator demo_parser) demo_bpmn_spec"
    using demo_bpmn_sound by (simp_all add: demo_pkg_def get_def canonical_sidecar_def demo_tree_def demo_parser_def)
  show ?thesis
    unfolding sidecar_accepts_iff [OF stable]
    by (intro conjI exI [of _ 2] exI [of _ "''<bpmn/>''"] exI [of _ demo_defs] exI [of _ demo_bpmn_spec])
      (simp_all add: facts hits lint compiled manifest demo_profile)
qed

end
