(* ===== verification/Wf_ExtensionFacts.thy ===== *)
theory Wf_ExtensionFacts
  imports Wf_Extension Wf_McpFacts Wf_BpmnFacts
begin

text \<open>
  What the extension side guarantees: which templates an actor discovers, what an installation writes, and that nothing
  is written before everything is checked.
\<close>

section \<open>Discovery\<close>

definition row_key :: "template_row \<Rightarrow> string" where
  "row_key t = tp_orgId t @ ''::'' @ tp_id t"

lemma list_loop_exact: "distinct (map row_key ts) \<Longrightarrow> set seen \<inter> row_key ` set ts = {} \<Longrightarrow> list_loop P seen ts = filter P ts"
proof (induction ts arbitrary: seen)
  case (Cons t ts)
  then have "list_loop P (row_key t # seen) ts = filter P ts" "list_loop P seen ts = filter P ts" "row_key t \<notin> set seen"
    by auto
  then show ?case by (simp add: row_key_def Let_def)
qed simp

definition reachable_orgs :: "extension_deps \<Rightarrow> discovery_scope \<Rightarrow> ident set" where
  "reachable_orgs D scope = set (resolveDiscoveryOrgIds scope (xd_orgListResolver D))"

lemma listed_rows:
  "(case orgIds of [] \<Rightarrow> [] | [org] \<Rightarrow> listWorkflowTemplates org ts | _ \<Rightarrow> listWorkflowTemplatesForOrgIds orgIds ts)
     = filter (\<lambda>t. tp_orgId t \<in> set orgIds) ts"
  by (auto simp: listWorkflowTemplates_def listWorkflowTemplatesForOrgIds_def split: list.split)

lemma same_org_only:
  assumes "ds_platformRole scope \<noteq> Some ''platform_admin''" and "org \<in> reachable_orgs D scope"
  shows "ds_organizationId scope = Some org"
  using assms by (auto simp: reachable_orgs_def resolveDiscoveryOrgIds_def truthy_def split: if_splits option.splits)

lemma discoverable_alt:
  "discoverable scope manifests t \<longleftrightarrow>
     (\<exists>m \<in> set manifests. tp_packageName t = Some (am_packageName m)
        \<and> manifestVisibleToScope m (scope\<lparr>ds_organizationId := Some (tp_orgId t)\<rparr>))
     \<and> isReadable (templateScope t) (discovery_actor scope (tp_orgId t))"
  by (auto simp: discoverable_def visibleManifestPackageNames_def split: option.split)

text \<open>
  C39. Discovery is exact and stays within the tenant: the templates shown are, in the order of the table, those of the organizations in reach whose
  package is live for that organization and whose row the actor can read there; an actor who is not a platform
  administrator reaches the active organization only, and nobody reaches more than a hundred.
\<close>

theorem discovery_exact:
  assumes "distinct (map row_key ts)"
  shows "listActive D scope manifests ts
      = filter (\<lambda>t. tp_orgId t \<in> reachable_orgs D scope
          \<and> (\<exists>m \<in> set manifests. tp_packageName t = Some (am_packageName m)
                \<and> manifestVisibleToScope m (scope\<lparr>ds_organizationId := Some (tp_orgId t)\<rparr>))
          \<and> isReadable (templateScope t) (discovery_actor scope (tp_orgId t))) ts
    \<and> (ds_platformRole scope \<noteq> Some ''platform_admin'' \<longrightarrow> reachable_orgs D scope \<subseteq> {org. ds_organizationId scope = Some org})
    \<and> card (reachable_orgs D scope) \<le> 100"
  unfolding discoverable_alt [symmetric]
proof (intro conjI impI)
  define orgIds where "orgIds = resolveDiscoveryOrgIds scope (xd_orgListResolver D)"
  have "distinct (map row_key (filter (\<lambda>t. tp_orgId t \<in> set orgIds) ts))" using assms by (simp add: distinct_map_filter)
  then have "list_loop (discoverable scope manifests) [] (filter (\<lambda>t. tp_orgId t \<in> set orgIds) ts)
      = filter (discoverable scope manifests) (filter (\<lambda>t. tp_orgId t \<in> set orgIds) ts)"
    by (simp add: list_loop_exact)
  moreover have "listActive D scope manifests ts = list_loop (discoverable scope manifests) [] (filter (\<lambda>t. tp_orgId t \<in> set orgIds) ts)"
    using listed_rows [of ts orgIds] by (cases orgIds) (simp_all add: listActive_def Let_def orgIds_def [symmetric])
  ultimately show "listActive D scope manifests ts
      = filter (\<lambda>t. tp_orgId t \<in> reachable_orgs D scope \<and> discoverable scope manifests t) ts"
    by (simp add: reachable_orgs_def orgIds_def [symmetric] filter_filter conj_commute)
  show "reachable_orgs D scope \<subseteq> {org. ds_organizationId scope = Some org}" if "ds_platformRole scope \<noteq> Some ''platform_admin''"
    using same_org_only [OF that] by blast
  have "length orgIds \<le> 100"
    by (auto simp: orgIds_def resolveDiscoveryOrgIds_def MAX_CROSS_ORG_FANOUT_def split: option.split)
  then show "card (reachable_orgs D scope) \<le> 100"
    using card_length [of orgIds] by (simp add: reachable_orgs_def orgIds_def [symmetric])
qed

definition demo_live :: active_manifest where
  "demo_live = \<lparr>am_packageName = ''@a/b'', am_ownerLevel = ''organization'', am_ownerId = None, am_organizationId = Some ''o''\<rparr>"

definition demo_scope :: discovery_scope where
  "demo_scope = \<lparr>ds_userId = Some ''u'', ds_organizationId = Some ''o'', ds_teamIds = [], ds_projectIds = None, ds_platformRole = None\<rparr>"

definition demo_listed :: "template_row list" where
  "demo_listed = [demo_template\<lparr>tp_packageName := Some ''@a/b''\<rparr>, demo_template\<lparr>tp_id := ''x'', tp_orgId := ''p'', tp_packageName := Some ''@a/b''\<rparr>]"

theorem discovery_exact_witness:
  "map tp_id (listActive \<lparr>xd_agentExists = None, xd_approverResolvable = None, xd_orgListResolver = None\<rparr> demo_scope [demo_live] demo_listed) = [''t'']
   \<and> reachable_orgs \<lparr>xd_agentExists = None, xd_approverResolvable = None, xd_orgListResolver = None\<rparr> demo_scope \<subseteq> {''o''}"
proof -
  let ?D = "\<lparr>xd_agentExists = None, xd_approverResolvable = None, xd_orgListResolver = None\<rparr>"
  have "distinct (map row_key demo_listed)" by (simp add: demo_listed_def row_key_def demo_template_def)
  note exact = discovery_exact [OF this, of ?D demo_scope "[demo_live]"]
  have org: "reachable_orgs ?D demo_scope = {''o''}"
    by (simp add: reachable_orgs_def resolveDiscoveryOrgIds_def demo_scope_def)
  have "discoverable demo_scope [demo_live] (demo_template\<lparr>tp_packageName := Some ''@a/b''\<rparr>)"
    by (simp add: discoverable_def visibleManifestPackageNames_def manifestVisibleToScope_def demo_live_def demo_scope_def demo_template_def
        discovery_actor_def isReadable_def platform_admin_def same_org_def templateScope_def Let_def)
  moreover have "tp_orgId demo_template = ''o''" "tp_id demo_template = ''t''" by (simp_all add: demo_template_def)
  ultimately show ?thesis using exact unfolding org discoverable_alt [symmetric] by (simp add: demo_listed_def)
qed

section \<open>Installing\<close>

text \<open>The rows that an installation may write, and what it makes of them.\<close>

definition manifest_slot :: "template_manifest \<Rightarrow> install_scope \<Rightarrow> template_row \<Rightarrow> bool" where
  "manifest_slot m scope = same_version (is_orgId scope) (tm_key m) (tm_version m)"

definition refreshed :: "env \<Rightarrow> template_manifest \<Rightarrow> install_scope \<Rightarrow> template_row \<Rightarrow> template_row" where
  "refreshed E m scope t =
     (if manifest_slot m scope t
      then t\<lparr>tp_name := tm_name m, tp_description := tm_description m, tp_definition := tm_definition m,
             tp_packageName := is_sourcePackage scope, tp_updatedAt := e_wall E\<rparr>
      else t)"

text \<open>A row without its time of change.\<close>

definition untimed :: "template_row \<Rightarrow> template_row" where
  "untimed t = t\<lparr>tp_updatedAt := 0\<rparr>"

lemma refreshed_simps [simp]:
  "manifest_slot m scope (refreshed E m scope t) = manifest_slot m scope t"
  "tp_id (refreshed E m scope t) = tp_id t"
  "tp_origin (refreshed E m scope t) = tp_origin t"
  "templateScope (refreshed E m scope t) = templateScope t"
  "untimed (refreshed F m scope (refreshed E m scope t)) = untimed (refreshed E m scope t)"
  by (auto simp: refreshed_def manifest_slot_def same_version_def untimed_def templateScope_def)

lemma refreshed_slot:
  "manifest_slot m scope t \<Longrightarrow>
     tp_definition (refreshed E m scope t) = tm_definition m \<and> tp_packageName (refreshed E m scope t) = is_sourcePackage scope"
  by (simp add: refreshed_def)

lemma find_refreshed: "find (manifest_slot m scope) (map (refreshed E m scope) ts) = map_option (refreshed E m scope) (find (manifest_slot m scope) ts)"
  by (induction ts) simp_all

lemma filter_refreshed: "filter (\<lambda>t. \<not> manifest_slot m scope t) (map (refreshed E m scope) ts) = filter (\<lambda>t. \<not> manifest_slot m scope t) ts"
  by (induction ts) (simp_all, simp add: refreshed_def)

lemma slot_manifest_row [simp]: "manifest_slot m scope (manifest_row E m scope i)"
  by (simp add: manifest_slot_def same_version_def manifest_row_def)

lemma manifest_row_source: "templateSourcePackage (manifest_row E m scope i) = source_package scope"
  by (auto simp: manifest_row_def templateSourcePackage_def source_package_def json_field_def get_str_def get_def truthy_def
      split: option.splits)

lemma find_append_None: "find P xs = None \<Longrightarrow> find P (xs @ ys) = find P ys"
  by (induction xs) (auto split: if_splits)

definition upserted :: "env \<Rightarrow> template_manifest \<Rightarrow> install_scope \<Rightarrow> template_row list \<Rightarrow> db \<Rightarrow> template_row list" where
  "upserted E m scope ts s =
     (if list_ex (manifest_slot m scope) ts then map (refreshed E m scope) ts
      else ts @ [manifest_row E m scope (fst (new_id E ''wft'' s))])"

lemma installWorkflowTemplate_accepted:
  assumes "parseWorkflowTemplateManifest V raw = Inr m" and "reauth_error D (tm_definition m) (is_orgId scope) = None"
  shows "installWorkflowTemplate E V D raw scope ts s =
    (Inr (case find (manifest_slot m scope) (upserted E m scope ts s) of Some row \<Rightarrow> tp_id row | None \<Rightarrow> []),
     upserted E m scope ts s, snd (new_id E ''wft'' s))"
  by (simp add: installWorkflowTemplate_def assms materializeTemplateFromManifest_def Let_def update_where_def upserted_def
      refreshed_def [abs_def] manifest_slot_def findWorkflowTemplate_def new_id_def randomUUID_def)

lemma installWorkflowTemplate_refused:
  assumes "\<nexists>m. parseWorkflowTemplateManifest V raw = Inr m \<and> reauth_error D (tm_definition m) (is_orgId scope) = None"
  shows "\<exists>e. installWorkflowTemplate E V D raw scope ts s = (Inl e, ts, s)"
  using assms by (cases "parseWorkflowTemplateManifest V raw") (auto simp: installWorkflowTemplate_def)

text \<open>The row of the manifest after the upsert, where there was none and where there was one.\<close>

lemma upserted_new:
  assumes "find (manifest_slot m scope) ts = None"
  obtains row where "upserted E m scope ts s = ts @ [row]" "find (manifest_slot m scope) (upserted E m scope ts s) = Some row"
    "tp_definition row = tm_definition m" "tp_packageName row = is_sourcePackage scope"
    "tp_ownerLevel row = Some (nullish (is_ownerLevel scope) ''organization'')" "templateSourcePackage row = source_package scope"
    "filter (\<lambda>t. \<not> manifest_slot m scope t) (upserted E m scope ts s) = filter (\<lambda>t. \<not> manifest_slot m scope t) ts"
proof (rule that [of "manifest_row E m scope (fst (new_id E ''wft'' s))"])
  have "\<not> list_ex (manifest_slot m scope) ts" using assms by (auto simp: find_None_iff list_ex_iff)
  then show rows: "upserted E m scope ts s = ts @ [manifest_row E m scope (fst (new_id E ''wft'' s))]" by (simp add: upserted_def)
  show "find (manifest_slot m scope) (upserted E m scope ts s) = Some (manifest_row E m scope (fst (new_id E ''wft'' s)))"
    by (simp add: rows find_append_None assms)
  show "filter (\<lambda>t. \<not> manifest_slot m scope t) (upserted E m scope ts s) = filter (\<lambda>t. \<not> manifest_slot m scope t) ts"
    by (simp add: rows)
qed (simp_all add: manifest_row_source, simp_all add: manifest_row_def)

lemma upserted_old:
  assumes "find (manifest_slot m scope) ts = Some old"
  shows "upserted E m scope ts s = map (refreshed E m scope) ts"
    "find (manifest_slot m scope) (upserted E m scope ts s) = Some (refreshed E m scope old)"
proof -
  have "list_ex (manifest_slot m scope) ts" using find_SomeD [OF assms] by (auto simp: list_ex_iff)
  then show "upserted E m scope ts s = map (refreshed E m scope) ts" by (simp add: upserted_def)
  then show "find (manifest_slot m scope) (upserted E m scope ts s) = Some (refreshed E m scope old)"
    by (simp add: find_refreshed assms)
qed

lemma upserted_twice:
  "map untimed (upserted F m scope (upserted E m scope ts s) u) = map untimed (upserted E m scope ts s)
   \<and> map tp_id (upserted F m scope (upserted E m scope ts s) u) = map tp_id (upserted E m scope ts s)"
proof (cases "find (manifest_slot m scope) ts")
  case None
  obtain row where rows: "upserted E m scope ts s = ts @ [row]" "find (manifest_slot m scope) (upserted E m scope ts s) = Some row"
    "tp_definition row = tm_definition m" "tp_packageName row = is_sourcePackage scope"
    by (rule upserted_new [OF None])
  have row: "row = manifest_row E m scope (fst (new_id E ''wft'' s))"
    using rows(1) None by (simp add: upserted_def list_ex_iff find_None_iff split: if_splits)
  have "map (untimed \<circ> refreshed F m scope) ts = map untimed ts"
    using None by (auto simp: find_None_iff refreshed_def)
  moreover have "untimed (refreshed F m scope row) = untimed row"
    by (simp add: row refreshed_def) (simp add: untimed_def manifest_row_def)
  ultimately show ?thesis
    unfolding upserted_old(1) [OF rows(2)] by (simp add: rows(1) comp_def)
next
  case (Some old)
  show ?thesis
    unfolding upserted_old(1) [OF upserted_old(2) [OF Some]] by (simp add: upserted_old(1) [OF Some])
qed

definition row_written :: "template_manifest \<Rightarrow> install_scope \<Rightarrow> template_row option \<Rightarrow> template_row \<Rightarrow> bool" where
  "row_written m scope old row \<longleftrightarrow>
     tp_definition row = tm_definition m \<and> tp_packageName row = is_sourcePackage scope
     \<and> (case old of
          Some t \<Rightarrow> tp_id row = tp_id t \<and> templateScope row = templateScope t \<and> tp_origin row = tp_origin t
        | None \<Rightarrow> tp_ownerLevel row = Some (nullish (is_ownerLevel scope) ''organization'')
            \<and> templateSourcePackage row = source_package scope)"

lemma upserted_row:
  "\<exists>row. find (manifest_slot m scope) (upserted E m scope ts s) = Some row
     \<and> row_written m scope (find (manifest_slot m scope) ts) row
     \<and> filter (\<lambda>t. \<not> manifest_slot m scope t) (upserted E m scope ts s) = filter (\<lambda>t. \<not> manifest_slot m scope t) ts"
proof (cases "find (manifest_slot m scope) ts")
  case None
  show ?thesis
  proof (rule upserted_new [OF None])
    fix row assume row: "find (manifest_slot m scope) (upserted E m scope ts s) = Some row"
      "tp_definition row = tm_definition m" "tp_packageName row = is_sourcePackage scope"
      "tp_ownerLevel row = Some (nullish (is_ownerLevel scope) ''organization'')" "templateSourcePackage row = source_package scope"
      "filter (\<lambda>t. \<not> manifest_slot m scope t) (upserted E m scope ts s) = filter (\<lambda>t. \<not> manifest_slot m scope t) ts"
    then show ?thesis by (intro exI [of _ row]) (simp add: None row_written_def)
  qed
next
  case (Some old)
  then show ?thesis
    using refreshed_slot [of m scope old E] find_SomeD [OF Some]
    by (simp add: upserted_old(2) [OF Some]) (simp add: upserted_old(1) [OF Some] filter_refreshed row_written_def)
qed

text \<open>
  C38. What installing a template writes. It upserts the row of the organization with the key and the version of the manifest, which
  carries the manifest's definition and the source package afterwards; every other row is as before, and installing the same manifest again
  changes nothing but the time of change. A row that was there keeps its identifier, its owner and its origin, whoever made it; a
  new row belongs to the owner of the installation and names the source package as its origin. A refused installation writes nothing.
\<close>

theorem install_upserts:
  assumes "installWorkflowTemplate E V D raw scope ts s = (r, ts', s')"
  shows "case r of
      Inl e \<Rightarrow> ts' = ts \<and> s' = s
    | Inr tid \<Rightarrow>
        (\<exists>m row. parseWorkflowTemplateManifest V raw = Inr m \<and> find (manifest_slot m scope) ts' = Some row
          \<and> tp_id row = tid \<and> row_written m scope (find (manifest_slot m scope) ts) row
          \<and> filter (\<lambda>t. \<not> manifest_slot m scope t) ts' = filter (\<lambda>t. \<not> manifest_slot m scope t) ts
          \<and> (\<forall>F u. \<exists>ts'' u'. installWorkflowTemplate F V D raw scope ts' u = (Inr tid, ts'', u') \<and> map untimed ts'' = map untimed ts'))"
proof (cases "\<exists>m. parseWorkflowTemplateManifest V raw = Inr m \<and> reauth_error D (tm_definition m) (is_orgId scope) = None")
  case False
  with assms show ?thesis using installWorkflowTemplate_refused [OF False, of E ts s] by auto
next
  case True
  then obtain m where m: "parseWorkflowTemplateManifest V raw = Inr m" "reauth_error D (tm_definition m) (is_orgId scope) = None" by blast
  note run = installWorkflowTemplate_accepted [OF m]
  have ts': "ts' = upserted E m scope ts s" and r: "r = Inr (case find (manifest_slot m scope) ts' of Some row \<Rightarrow> tp_id row | None \<Rightarrow> [])"
    using assms run [of E ts s] by auto
  obtain row where row: "find (manifest_slot m scope) ts' = Some row" "row_written m scope (find (manifest_slot m scope) ts) row"
    "filter (\<lambda>t. \<not> manifest_slot m scope t) ts' = filter (\<lambda>t. \<not> manifest_slot m scope t) ts"
    using upserted_row [of m scope E ts s] unfolding ts' by blast
  have "installWorkflowTemplate F V D raw scope ts' u = (Inr (tp_id row), upserted F m scope ts' u, snd (new_id F ''wft'' u))" for F u
    using run [of F ts' u] unfolding upserted_old(2) [OF row(1)] by simp
  moreover have "map untimed (upserted F m scope ts' u) = map untimed ts'" for F u
    using upserted_twice unfolding ts' by blast
  moreover have "r = Inr (tp_id row)" using r row(1) by simp
  ultimately show ?thesis using row m(1) by auto
qed

definition demo_manifest :: template_manifest where
  "demo_manifest = \<lparr>tm_key = ''k'', tm_version = 3, tm_name = ''n'', tm_description = None, tm_definition = solo_spec\<rparr>"

definition demo_xdeps :: extension_deps where
  "demo_xdeps = \<lparr>xd_agentExists = None, xd_approverResolvable = None, xd_orgListResolver = None\<rparr>"

text \<open>A template of the same key and version is there already, made by hand.\<close>

theorem install_upserts_witness:
  "\<exists>ts' s' row. installWorkflowTemplate (demo_env 5) named_validator demo_xdeps demo_manifest (extension_scope ''@a/b'' ''o'' ''u'')
       [demo_template] empty_db = (Inr ''t'', ts', s')
     \<and> find (manifest_slot demo_manifest (extension_scope ''@a/b'' ''o'' ''u'')) ts' = Some row
     \<and> tp_packageName row = Some ''@a/b'' \<and> templateSourcePackage row = None"
proof -
  let ?S = "extension_scope ''@a/b'' ''o'' ''u''"
  have parsed: "parseWorkflowTemplateManifest named_validator demo_manifest = Inr demo_manifest"
    using solo_valid
    by (auto simp: parseWorkflowTemplateManifest_def manifest_schema_def demo_manifest_def named_validator_def validatePatchedSpec_def
        Let_def split: option.splits if_splits)
  have auth: "reauth_error demo_xdeps (tm_definition demo_manifest) (is_orgId ?S) = None"
    by (simp add: reauth_error_def demo_xdeps_def)
  have old: "find (manifest_slot demo_manifest ?S) [demo_template] = Some demo_template"
    by (simp add: manifest_slot_def same_version_def demo_manifest_def demo_template_def extension_scope_def)
  obtain ts' s' where run: "installWorkflowTemplate (demo_env 5) named_validator demo_xdeps demo_manifest ?S [demo_template] empty_db = (Inr ''t'', ts', s')"
    using installWorkflowTemplate_accepted [OF parsed auth, of "demo_env 5" "[demo_template]" empty_db]
    unfolding upserted_old(2) [OF old] by (simp add: demo_template_def)
  from install_upserts [OF run] obtain m row where "parseWorkflowTemplateManifest named_validator demo_manifest = Inr m"
    "find (manifest_slot m ?S) ts' = Some row" "row_written m ?S (find (manifest_slot m ?S) [demo_template]) row"
    unfolding sum.case by blast
  then have "find (manifest_slot demo_manifest ?S) ts' = Some row" "row_written demo_manifest ?S (Some demo_template) row"
    using parsed old by auto
  then show ?thesis
    using run by (auto simp: row_written_def extension_scope_def templateSourcePackage_def demo_template_def)
qed

section \<open>Installing a package\<close>

text \<open>
  Everything is checked before anything is written. An installation that succeeds has passed every check of the package, the
  template is the one of its sidecar, and its dashboard is written exactly when it has one. A refused installation leaves the templates, the
  database and the dashboards as they were; only when the dashboards fail after the checks is the template already there, and
  repeating the installation is then harmless.
\<close>

theorem extension_install_outcomes:
  "case installWorkflowExtension E B D H T packageName version actor ts s d of (r, ts', s', d') \<Rightarrow>
     (case r of
        Inr (tid, dashboard) \<Rightarrow>
          (\<exists>user org tree m config. actorOrgGuard actor = Some (user, org) \<and> tree_of T = Some tree
             \<and> extension_prechecks B H packageName version tree = Inr (m, config)
             \<and> installWorkflowTemplate E (bp_validator B) D m (extension_scope packageName org user) ts s = (Inr tid, ts', s')
             \<and> (if dashboard
                 then \<exists>j d1 n. config = Some j \<and> dx_materialize H packageName org j user d = Some d1
                        \<and> dx_restore H packageName org user d1 = Some (n, d')
                 else config = None \<and> d' = d))
      | Inl e \<Rightarrow>
          (if e = DashboardThrew
           then \<exists>tid user org tree m j. actorOrgGuard actor = Some (user, org) \<and> tree_of T = Some tree
             \<and> extension_prechecks B H packageName version tree = Inr (m, Some j)
             \<and> installWorkflowTemplate E (bp_validator B) D m (extension_scope packageName org user) ts s = (Inr tid, ts', s')
           else ts' = ts \<and> s' = s \<and> d' = d))"
proof (cases "actorOrgGuard actor")
  case None
  then show ?thesis by (simp add: installWorkflowExtension_def)
next
  case (Some who)
  obtain user org where who: "who = (user, org)" by fastforce
  show ?thesis
  proof (cases "tree_of T")
    case None
    with Some show ?thesis by (simp add: installWorkflowExtension_def)
  next
    case (Some tree)
    note tree = this
    show ?thesis
    proof (cases "extension_prechecks B H packageName version tree")
      case (Inl e)
      have "e \<noteq> DashboardThrew" using Inl by (auto simp: extension_prechecks_def split: option.splits if_splits sum.splits)
      with Inl tree \<open>actorOrgGuard actor = Some who\<close> show ?thesis by (simp add: installWorkflowExtension_def)
    next
      case (Inr checked)
      obtain m config where checked: "checked = (m, config)" by fastforce
      obtain r ts1 s1 where r: "installWorkflowTemplate E (bp_validator B) D m (extension_scope packageName org user) ts s = (r, ts1, s1)"
        using prod_cases3 by blast
      have run: "installWorkflowExtension E B D H T packageName version actor ts s d
          = install_writes E (bp_validator B) D H packageName (user, org) (m, config) ts s d"
        using Inr tree \<open>actorOrgGuard actor = Some who\<close> by (simp add: installWorkflowExtension_def who checked)
      show ?thesis
      proof (cases r)
        case (Inl e)
        then have "ts1 = ts \<and> s1 = s" using r by (auto simp: installWorkflowTemplate_def Let_def split: sum.splits option.splits prod.splits)
        then show ?thesis unfolding run using Inl r by (simp add: install_writes_def)
      next
        case (Inr tid)
        note facts = \<open>actorOrgGuard actor = Some who\<close> [unfolded who] tree \<open>extension_prechecks B H packageName version tree = Inr checked\<close> [unfolded checked]
        show ?thesis
          unfolding run using Inr r facts
          by (cases "write_dashboard H packageName org user config d")
            (auto simp: install_writes_def write_dashboard_def split: option.splits)
      qed
    qed
  qed
qed

text \<open>A package whose templates have a live workflow is not archived, and archiving never touches templates or workflows.\<close>

lemma archive_guarded:
  "extension_handler E B D H T hook XArchive packageName actor (ts, s, d) =
     (case actorOrgGuard actor of
        None \<Rightarrow> (Some MissingOrgContext, ts, s, d)
      | Some (user, org) \<Rightarrow>
          if \<exists>w \<in> set (db_workflows s). \<exists>t \<in> set ts. w_sourceTemplateId w = Some (tp_id t) \<and> w_status w \<in> {WDraft, WActive}
               \<and> tp_orgId t = org \<and> tp_packageName t = Some packageName
          then (Some WorkflowTemplateInUse, ts, s, d)
          else (case dx_archive H packageName org user d of
                  None \<Rightarrow> (Some DashboardThrew, ts, s, d) | Some (n, d') \<Rightarrow> (None, ts, s, d')))"
proof -
  have "arePackageTemplatesInUse org packageName ts s \<longleftrightarrow>
      (\<exists>w \<in> set (db_workflows s). \<exists>t \<in> set ts. w_sourceTemplateId w = Some (tp_id t) \<and> w_status w \<in> {WDraft, WActive}
         \<and> tp_orgId t = org \<and> tp_packageName t = Some packageName)" for org
    by (auto simp: arePackageTemplatesInUse_def list_ex_iff in_use_status_def)
  note in_use = this
  show ?thesis
    unfolding extension_handler_def archiveWorkflowExtensionDashboards_def workflowExtensionArchiveBlocked_def in_use [symmetric]
    by (simp split: option.split)
qed

end
