(* ===== verification/Ext_Types.thy ===== *)
theory Ext_Types
  imports Wf_SpecData Wf_Foreach
begin

text \<open>
  The canonical extension manifest of \<^verbatim>\<open>packages/extensions/src\<close>: the row and its enumerations with the provenance
  checks (\<^verbatim>\<open>canonical-types.ts\<close>), the anchors of bundled packages (\<^verbatim>\<open>static-bundle-anchor.ts\<close>), rows the installation
  pipeline has not finalized (\<^verbatim>\<open>non-finalized-row.ts\<close>), and the dependency edges of a package manifest
  (\<^verbatim>\<open>manifest-dependencies.ts\<close>). A provenance block is the JSON value of its column, which the code inspects at run
  time; the keys of an object are distinct.
\<close>

section \<open>Enumerations (canonical-types.ts)\<close>

datatype extension_kind = KAgent | KConnector | KArtifact | KSkill | KWorkflow
datatype lifecycle_status = ExActive | ExArchived | ExLocked
datatype owner_level = OwnUser | OwnTeam | OwnOrganization | OwnWorkspace | OwnPlatform
datatype edge_type = EdgeRuntime | EdgeInstallTime | EdgePeer
datatype requirement = Required | Optional

datatype version_constraint =
    SemverRange string
  | ExactVersion string
  | GitRef string

record ext_dependency =
  dep_packageName :: string
  dep_kind :: "extension_kind option"
  dep_edgeType :: edge_type
  dep_constraint :: version_constraint
  dep_requirement :: requirement

record installed_extension =
  ix_id :: ident
  ix_packageName :: string
  ix_ownerLevel :: owner_level
  ix_ownerId :: "ident option"
  ix_organizationId :: "ident option"
  ix_kind :: extension_kind
  ix_status :: lifecycle_status
  ix_source :: json
  ix_requiredInProd :: bool
  ix_dependencies :: "ext_dependency list"
  ix_manifestHash :: "string option"
  ix_createdAt :: instant
  ix_updatedAt :: instant

datatype lifecycle_op =
    OpInstall | OpArchive | OpActivate | OpUninstall | OpForceDelete | OpPurge | OpRegistryRemove
  | OpUpdate | OpLock | OpUnlock | OpSourceSwitch

definition DESTRUCTIVE_OPS :: "lifecycle_op list" where
  "DESTRUCTIVE_OPS = [OpArchive, OpUninstall, OpForceDelete, OpPurge, OpRegistryRemove]"

definition LOCKED_REJECTED_OPS :: "lifecycle_op list" where
  "LOCKED_REJECTED_OPS = [OpArchive, OpUninstall, OpForceDelete, OpPurge, OpRegistryRemove]"

definition PLATFORM_OWNER_SENTINEL :: string where
  "PLATFORM_OWNER_SENTINEL = ''__platform__''"

text \<open>The rows that count as present: \<^verbatim>\<open>active\<close> or \<^verbatim>\<open>locked\<close>.\<close>

definition live_status :: "lifecycle_status \<Rightarrow> bool" where
  "live_status st \<longleftrightarrow> st = ExActive \<or> st = ExLocked"

lemma live_status_simps [simp]:
  "live_status ExActive" "live_status ExLocked" "\<not> live_status ExArchived"
  by (simp_all add: live_status_def)

lemma live_status_iff: "live_status st \<longleftrightarrow> st \<noteq> ExArchived"
  by (cases st) simp_all

abbreviation live :: "installed_extension \<Rightarrow> bool" where
  "live r \<equiv> live_status (ix_status r)"

section \<open>Provenance\<close>

text \<open>\<open>v && typeof v === "object"\<close>.\<close>

definition is_object :: "json \<Rightarrow> bool" where
  "is_object v \<longleftrightarrow> (case v of JObj _ \<Rightarrow> True | JArr _ \<Rightarrow> True | _ \<Rightarrow> False)"

definition PROVENANCE_PLACEHOLDERS :: "string list" where
  "PROVENANCE_PLACEHOLDERS = [''pending-resolution'', ''latest'', ''HEAD'']"

definition provenance_str :: "json option \<Rightarrow> bool" where
  "provenance_str x \<longleftrightarrow> (case x of Some (JStr s) \<Rightarrow> s \<noteq> [] \<and> s \<notin> set PROVENANCE_PLACEHOLDERS | _ \<Rightarrow> False)"

definition required_fields :: "string \<Rightarrow> string list option" where
  "required_fields t =
     (if t = ''verdaccio'' then Some [''registryUrl'', ''packageName'', ''version'', ''integrity'']
      else if t = ''github'' then Some [''repo'', ''ref'', ''resolvedSha'']
      else if t = ''local'' then Some [''path'', ''resolvedCommitOrTreeHash'']
      else None)"

definition isExtensionSource :: "json \<Rightarrow> bool" where
  "isExtensionSource v \<longleftrightarrow>
     is_object v \<and>
     (case get v ''type'' of
        Some (JStr t) \<Rightarrow>
          (case required_fields t of None \<Rightarrow> False | Some fs \<Rightarrow> list_all (\<lambda>f. provenance_str (get v f)) fs)
      | _ \<Rightarrow> False)"

definition unknown_source_type :: "json option \<Rightarrow> string" where
  "unknown_source_type t =
     ''unknown source type '' @ [CHR 0x27] @ (case t of None \<Rightarrow> ''undefined'' | Some j \<Rightarrow> js_string j) @ [CHR 0x27]"

definition validateExtensionSource :: "json \<Rightarrow> string list" where
  "validateExtensionSource v =
     (if \<not> is_object v then [''source is not an object'']
      else
        (case get v ''type'' of
           Some (JStr t) \<Rightarrow>
             (case required_fields t of
                None \<Rightarrow> [unknown_source_type (Some (JStr t))]
              | Some fs \<Rightarrow> map (\<lambda>f. t @ ''.'' @ f) (filter (\<lambda>f. \<not> provenance_str (get v f)) fs))
         | other \<Rightarrow> [unknown_source_type other]))"

lemma source_valid_iff: "validateExtensionSource v = [] \<longleftrightarrow> isExtensionSource v"
  by (auto simp: validateExtensionSource_def isExtensionSource_def list_all_iff filter_empty_conv
           split: option.splits json.splits)

section \<open>Anchors of bundled packages (static-bundle-anchor.ts)\<close>

definition STATIC_BUNDLE_ANCHOR_PATH_PREFIX :: string where
  "STATIC_BUNDLE_ANCHOR_PATH_PREFIX = ''static-bundle:''"

definition ANCHOR_VERSION_PREFIX :: string where
  "ANCHOR_VERSION_PREFIX = ''bundled@''"

definition staticBundleAnchorPath :: "string \<Rightarrow> string" where
  "staticBundleAnchorPath packageName = STATIC_BUNDLE_ANCHOR_PATH_PREFIX @ packageName"

definition staticBundleAnchorSource :: "string \<Rightarrow> string \<Rightarrow> json" where
  "staticBundleAnchorSource packageName version =
     JObj [(''type'', JStr ''local''), (''path'', JStr (staticBundleAnchorPath packageName)),
           (''resolvedCommitOrTreeHash'', JStr (ANCHOR_VERSION_PREFIX @ version))]"

definition isStaticBundleAnchorSource :: "json \<Rightarrow> bool" where
  "isStaticBundleAnchorSource source \<longleftrightarrow>
     get source ''type'' = Some (JStr ''local'') \<and>
     (case get source ''path'' of Some (JStr p) \<Rightarrow> starts_with p STATIC_BUNDLE_ANCHOR_PATH_PREFIX | _ \<Rightarrow> False)"

definition staticBundleAnchorVersion :: "json \<Rightarrow> string option" where
  "staticBundleAnchorVersion source =
     (if \<not> isStaticBundleAnchorSource source then None
      else
        (case get source ''resolvedCommitOrTreeHash'' of
           Some (JStr h) \<Rightarrow>
             if \<not> starts_with h ANCHOR_VERSION_PREFIX then None
             else
               (let version = drop (length ANCHOR_VERSION_PREFIX) h
                in if version \<noteq> [] then Some version else None)
         | _ \<Rightarrow> None))"

text \<open>A seeded anchor is one, has a sound provenance and gives its version back.\<close>

lemma anchor_source [simp]:
  "isStaticBundleAnchorSource (staticBundleAnchorSource p v)"
  "isExtensionSource (staticBundleAnchorSource p v)"
  "staticBundleAnchorVersion (staticBundleAnchorSource p v) = (if v = [] then None else Some v)"
  by (simp_all add: isStaticBundleAnchorSource_def isExtensionSource_def staticBundleAnchorVersion_def staticBundleAnchorSource_def
        staticBundleAnchorPath_def STATIC_BUNDLE_ANCHOR_PATH_PREFIX_def ANCHOR_VERSION_PREFIX_def required_fields_def get_def
        provenance_str_def is_object_def PROVENANCE_PLACEHOLDERS_def)

section \<open>Rows that are not finalized (non-finalized-row.ts)\<close>

definition DISPATCHER_PLACEHOLDER_INTEGRITY :: "string list" where
  "DISPATCHER_PLACEHOLDER_INTEGRITY = [[], ''dispatcher-install'', ''pending-resolution'', ''latest'', ''HEAD'']"

definition source_integrity :: "json \<Rightarrow> string option" where
  "source_integrity src = get_str src ''integrity''"

definition isNonFinalizedLiveRow :: "lifecycle_status \<Rightarrow> json \<Rightarrow> bool" where
  "isNonFinalizedLiveRow st source \<longleftrightarrow>
     live_status st \<and>
     (case source_integrity source of None \<Rightarrow> False | Some i \<Rightarrow> i \<in> set DISPATCHER_PLACEHOLDER_INTEGRITY)"

text \<open>
  The reader of the installation journal is a parameter: the phase of the operation on a package in an organization,
  \<open>None\<close> without a reader, without a row, or where the reader throws (\<^verbatim>\<open>install-op-phase-hook.ts\<close>).
\<close>

type_synonym phase_reader = "string \<Rightarrow> ident option \<Rightarrow> string option"

definition isNonFinalizedLiveRowAware :: "phase_reader \<Rightarrow> installed_extension \<Rightarrow> bool" where
  "isNonFinalizedLiveRowAware phase_of row \<longleftrightarrow>
     (if \<not> live row then False
      else if isNonFinalizedLiveRow (ix_status row) (ix_source row) then True
      else if source_integrity (ix_source row) = None then False
      else
        (case phase_of (ix_packageName row) (ix_organizationId row) of
           None \<Rightarrow> False | Some phase \<Rightarrow> phase \<noteq> ''finalized''))"

section \<open>Dependency edges (manifest-dependencies.ts)\<close>

definition kind_text :: "extension_kind \<Rightarrow> string" where
  "kind_text k = (case k of KAgent \<Rightarrow> ''agent'' | KConnector \<Rightarrow> ''connector'' | KArtifact \<Rightarrow> ''artifact''
                    | KSkill \<Rightarrow> ''skill'' | KWorkflow \<Rightarrow> ''workflow'')"

definition EXTENSION_KINDS :: "string list" where
  "EXTENSION_KINDS = [''agent'', ''connector'', ''artifact'', ''skill'', ''workflow'']"

definition DEPENDENCY_EDGE_TYPES :: "string list" where
  "DEPENDENCY_EDGE_TYPES = [''runtime'', ''install-time'', ''peer'']"

definition DEPENDENCY_REQUIREMENTS :: "string list" where
  "DEPENDENCY_REQUIREMENTS = [''required'', ''optional'']"

definition one_of :: "json option \<Rightarrow> string list \<Rightarrow> bool" where
  "one_of v xs \<longleftrightarrow> (case v of Some (JStr s) \<Rightarrow> s \<in> set xs | _ \<Rightarrow> False)"

definition isNonEmptyString :: "json option \<Rightarrow> bool" where
  "isNonEmptyString v \<longleftrightarrow> (case v of Some (JStr s) \<Rightarrow> s \<noteq> [] | _ \<Rightarrow> False)"

definition problem :: "bool \<Rightarrow> string \<Rightarrow> string list" where
  "problem b msg = (if b then [msg] else [])"

definition constraint_problems :: "json option \<Rightarrow> string list" where
  "constraint_problems c =
     (case c of
        None \<Rightarrow> [''versionConstraint must be an object'']
      | Some vc \<Rightarrow>
          if \<not> is_object vc then [''versionConstraint must be an object'']
          else if get vc ''kind'' = Some (JStr ''semver-range'')
          then problem (\<not> isNonEmptyString (get vc ''range'')) ''versionConstraint.range must be a non-empty string''
          else if get vc ''kind'' = Some (JStr ''exact'')
          then problem (\<not> isNonEmptyString (get vc ''version'')) ''versionConstraint.version must be a non-empty string''
          else if get vc ''kind'' = Some (JStr ''git-ref'')
          then problem (\<not> isNonEmptyString (get vc ''ref'')) ''versionConstraint.ref must be a non-empty string''
          else [''versionConstraint.kind must be one of semver-range|exact|git-ref''])"

definition validateExtensionDependencyShape :: "json \<Rightarrow> string option \<Rightarrow> string list" where
  "validateExtensionDependencyShape v own =
     (case v of
        JObj _ \<Rightarrow>
          (if \<not> isNonEmptyString (get v ''packageName'') then [''packageName must be a non-empty string'']
           else problem (truthy own \<and> get_str v ''packageName'' = own) ''self-edge (a package cannot depend on itself)'')
          @ problem (\<not> one_of (get v ''edgeType'') DEPENDENCY_EDGE_TYPES) ''edgeType must be one of runtime|install-time|peer''
          @ problem (\<not> one_of (get v ''requirement'') DEPENDENCY_REQUIREMENTS) ''requirement must be one of required|optional''
          @ problem (get v ''kind'' \<noteq> None \<and> \<not> one_of (get v ''kind'') EXTENSION_KINDS)
              ''kind, when present, must be one of agent|connector|artifact|skill|workflow''
          @ constraint_problems (get v ''versionConstraint'')
      | _ \<Rightarrow> [''entry is not an object''])"

text \<open>\<open>entry as ExtensionDependency\<close>: the cast of an entry that has the declared shape.\<close>

definition cast_kind :: "string \<Rightarrow> extension_kind option" where
  "cast_kind s = find (\<lambda>k. kind_text k = s) [KAgent, KConnector, KArtifact, KSkill, KWorkflow]"

definition cast_constraint :: "json \<Rightarrow> version_constraint" where
  "cast_constraint vc =
     (if get_str vc ''kind'' = Some ''semver-range'' then SemverRange (nullish (get_str vc ''range'') [])
      else if get_str vc ''kind'' = Some ''exact'' then ExactVersion (nullish (get_str vc ''version'') [])
      else GitRef (nullish (get_str vc ''ref'') []))"

definition cast_dependency :: "json \<Rightarrow> ext_dependency" where
  "cast_dependency v =
     \<lparr>dep_packageName = nullish (get_str v ''packageName'') [],
      dep_kind = Option.bind (get_str v ''kind'') cast_kind,
      dep_edgeType = (if get_str v ''edgeType'' = Some ''runtime'' then EdgeRuntime
                      else if get_str v ''edgeType'' = Some ''install-time'' then EdgeInstallTime else EdgePeer),
      dep_constraint = cast_constraint (nullish (get v ''versionConstraint'') JNull),
      dep_requirement = (if get_str v ''requirement'' = Some ''required'' then Required else Optional)\<rparr>"

datatype manifest_dep_error =
    DependenciesNotArray
  | MalformedEntry json "string list"
  | DuplicateEntry string
  | LegacyNotMap
  | MalformedLegacyEntry string
  | LegacySelfEdge
  | DependencyConflict "string list"  \<comment> \<open>the names on which the two vocabularies disagree\<close>

datatype manifest_dep_code = MALFORMED | CONFLICT

definition manifest_dep_code_of :: "manifest_dep_error \<Rightarrow> manifest_dep_code" where
  "manifest_dep_code_of e = (case e of DependencyConflict _ \<Rightarrow> CONFLICT | _ \<Rightarrow> MALFORMED)"

datatype edge_source = FromCanonical | FromLegacyAgent | FromNone

fun canonical_edges :: "string option \<Rightarrow> string list \<Rightarrow> json list \<Rightarrow> manifest_dep_error + ext_dependency list" where
  "canonical_edges own seen [] = Inr []"
| "canonical_edges own seen (e # es) =
     (let problems = validateExtensionDependencyShape e own; dep = cast_dependency e
      in if problems \<noteq> [] then Inl (MalformedEntry e problems)
         else if dep_packageName dep \<in> set seen then Inl (DuplicateEntry (dep_packageName dep))
         else (case canonical_edges own (dep_packageName dep # seen) es of
                 Inl err \<Rightarrow> Inl err | Inr ds \<Rightarrow> Inr (dep # ds)))"

fun legacy_edges :: "string option \<Rightarrow> (string \<times> json) list \<Rightarrow> manifest_dep_error + (string \<times> string) list" where
  "legacy_edges own [] = Inr []"
| "legacy_edges own ((name, rng) # es) =
     (case rng of
        JStr r \<Rightarrow>
          if name = [] \<or> r = [] then Inl (MalformedLegacyEntry name)
          else if truthy own \<and> Some name = own then Inl LegacySelfEdge
          else (case legacy_edges own es of Inl err \<Rightarrow> Inl err | Inr ls \<Rightarrow> Inr ((name, r) # ls))
      | _ \<Rightarrow> Inl (MalformedLegacyEntry name))"

text \<open>An absent key is \<open>None\<close>; an explicit null is malformed.\<close>

definition read_canonical :: "string option \<Rightarrow> json option \<Rightarrow> manifest_dep_error + ext_dependency list option" where
  "read_canonical own raw =
     (case raw of
        None \<Rightarrow> Inr None
      | Some (JArr es) \<Rightarrow> (case canonical_edges own [] es of Inl err \<Rightarrow> Inl err | Inr ds \<Rightarrow> Inr (Some ds))
      | _ \<Rightarrow> Inl DependenciesNotArray)"

definition read_legacy :: "string option \<Rightarrow> json option \<Rightarrow> manifest_dep_error + (string \<times> string) list option" where
  "read_legacy own raw =
     (case raw of
        None \<Rightarrow> Inr None
      | Some (JObj kvs) \<Rightarrow> (case legacy_edges own kvs of Inl err \<Rightarrow> Inl err | Inr ls \<Rightarrow> Inr (Some ls))
      | _ \<Rightarrow> Inl LegacyNotMap)"

definition conflicting :: "ext_dependency list \<Rightarrow> string \<Rightarrow> bool" where
  "conflicting canonical name \<longleftrightarrow>
     (case find (\<lambda>d. dep_packageName d = name) canonical of
        None \<Rightarrow> True
      | Some c \<Rightarrow> dep_requirement c \<noteq> Required \<or> dep_edgeType c = EdgePeer)"

definition legacy_dependency :: "string \<times> string \<Rightarrow> ext_dependency" where
  "legacy_dependency e =
     \<lparr>dep_packageName = fst e, dep_kind = None, dep_edgeType = EdgeRuntime,
      dep_constraint = SemverRange (snd e), dep_requirement = Required\<rparr>"

definition parseManifestDependencyEdges ::
  "string option \<Rightarrow> json \<Rightarrow> manifest_dep_error + ext_dependency list \<times> edge_source" where
  "parseManifestDependencyEdges packageName manifest =
     (let own = (case packageName of None \<Rightarrow> get_str manifest ''name'' | p \<Rightarrow> p);
          cinatra = get manifest ''cinatra'';
          field = (\<lambda>k. Option.bind cinatra (\<lambda>c. get c k))
      in (case read_canonical own (field ''dependencies'') of
            Inl err \<Rightarrow> Inl err
          | Inr canonical \<Rightarrow>
              (case read_legacy own (field ''agentDependencies'') of
                 Inl err \<Rightarrow> Inl err
               | Inr legacy \<Rightarrow>
                   (case (canonical, legacy) of
                      (Some ds, Some ls) \<Rightarrow>
                        (let conflicts = filter (conflicting ds) (map fst ls)
                         in if conflicts \<noteq> [] then Inl (DependencyConflict conflicts) else Inr (ds, FromCanonical))
                    | (Some ds, None) \<Rightarrow> Inr (ds, FromCanonical)
                    | (None, Some ls) \<Rightarrow>
                        if ls \<noteq> [] then Inr (map legacy_dependency ls, FromLegacyAgent) else Inr ([], FromNone)
                    | (None, None) \<Rightarrow> Inr ([], FromNone)))))"

end
