(* ===== verification/Ext_Store.thy ===== *)
theory Ext_Store
  imports Ext_Types
begin

text \<open>
  The canonical manifest table and its only writers, \<^verbatim>\<open>packages/extensions/src\<close>: the permission tables
  (\<^verbatim>\<open>permissions-store.ts\<close>), the manifest store (\<^verbatim>\<open>canonical-store.ts\<close>, with the unique indexes and the check of its table
  in \<^verbatim>\<open>lib/drizzle-store.ts\<close>), the lifecycle primitive (\<^verbatim>\<open>lifecycle-primitive.ts\<close>), the gate in front of it
  (\<^verbatim>\<open>canonical-gate.ts\<close>) and the locks set at boot (\<^verbatim>\<open>system-extension-inventory.ts\<close>). A query without an order lists rows in
  the order of insertion. The messages of errors are left out.
\<close>

section \<open>State and environment\<close>

datatype access_kind =
    AccAgentRun | AccAgentTemplate | AccSkillPackage | AccSkill | AccConnector | AccArtifact | AccWorkflow

record access_policy =
  apo_list :: string
  apo_data :: string
  apo_execute :: string
  apo_sharing :: bool
  apo_description :: "string option"

record policy_row =
  py_kind :: access_kind
  py_resourceId :: ident
  py_policy :: access_policy
  py_installedBy :: "ident option"
  py_updatedAt :: instant

record co_owner_row =
  ow_kind :: access_kind
  ow_resourceId :: ident
  ow_userId :: ident
  ow_grantedBy :: ident
  ow_grantedAt :: instant

record manifest_db =
  mf_rows :: "installed_extension list"
  mf_policies :: "policy_row list"
  mf_coOwners :: "co_owner_row list"

text \<open>The clock, the development mode, the journal of the installation pipeline, and whether the permission tables can be written.\<close>

record ext_env =
  xe_now :: instant
  xe_dev :: bool
  xe_phase :: phase_reader
  xe_permissionsUp :: bool

section \<open>Permission tables (permissions-store.ts)\<close>

definition readExtensionCoOwners :: "access_kind \<Rightarrow> ident \<Rightarrow> manifest_db \<Rightarrow> co_owner_row list" where
  "readExtensionCoOwners kind rid s =
     sort_key ow_grantedAt (filter (\<lambda>r. ow_kind r = kind \<and> ow_resourceId r = rid) (mf_coOwners s))"

definition policy_row_of :: "access_kind \<Rightarrow> ident \<Rightarrow> manifest_db \<Rightarrow> policy_row option" where
  "policy_row_of kind rid s = find (\<lambda>r. py_kind r = kind \<and> py_resourceId r = rid) (mf_policies s)"

definition readExtensionAccessPolicy :: "access_kind \<Rightarrow> ident \<Rightarrow> manifest_db \<Rightarrow> access_policy option" where
  "readExtensionAccessPolicy kind rid s = map_option py_policy (policy_row_of kind rid s)"

definition readExtensionInstalledBy :: "access_kind \<Rightarrow> ident \<Rightarrow> manifest_db \<Rightarrow> ident option" where
  "readExtensionInstalledBy kind rid s = Option.bind (policy_row_of kind rid s) py_installedBy"

text \<open>\<open>INSERT \<dots> ON CONFLICT DO UPDATE\<close>: the row with the key is updated, or a new one is added.\<close>

definition upsert_policy ::
  "access_kind \<Rightarrow> ident \<Rightarrow> policy_row \<Rightarrow> (policy_row \<Rightarrow> policy_row) \<Rightarrow> manifest_db \<Rightarrow> manifest_db" where
  "upsert_policy kind rid fresh f s =
     (if policy_row_of kind rid s = None then s\<lparr>mf_policies := mf_policies s @ [fresh]\<rparr>
      else s\<lparr>mf_policies := update_where (\<lambda>r. py_kind r = kind \<and> py_resourceId r = rid) f (mf_policies s)\<rparr>)"

definition writeExtensionAccessPolicy ::
  "ext_env \<Rightarrow> access_kind \<Rightarrow> ident \<Rightarrow> access_policy \<Rightarrow> ident option \<Rightarrow> manifest_db \<Rightarrow> manifest_db" where
  "writeExtensionAccessPolicy E kind rid policy installedBy s =
     upsert_policy kind rid
       \<lparr>py_kind = kind, py_resourceId = rid, py_policy = policy, py_installedBy = installedBy, py_updatedAt = xe_now E\<rparr>
       (\<lambda>r. r\<lparr>py_policy := policy,
              py_installedBy := (case installedBy of None \<Rightarrow> py_installedBy r | Some u \<Rightarrow> Some u),
              py_updatedAt := xe_now E\<rparr>) s"

definition INSTALLER_SEED_POLICY :: access_policy where
  "INSTALLER_SEED_POLICY =
     \<lparr>apo_list = ''owner'', apo_data = ''owner'', apo_execute = ''owner'', apo_sharing = True, apo_description = None\<rparr>"

definition setExtensionInstalledBy :: "ext_env \<Rightarrow> access_kind \<Rightarrow> ident \<Rightarrow> ident option \<Rightarrow> manifest_db \<Rightarrow> manifest_db" where
  "setExtensionInstalledBy E kind rid installedBy s =
     upsert_policy kind rid
       \<lparr>py_kind = kind, py_resourceId = rid, py_policy = INSTALLER_SEED_POLICY, py_installedBy = installedBy,
        py_updatedAt = xe_now E\<rparr>
       (\<lambda>r. r\<lparr>py_installedBy := installedBy, py_updatedAt := xe_now E\<rparr>) s"

definition addCoOwnerRow :: "ext_env \<Rightarrow> access_kind \<Rightarrow> ident \<Rightarrow> ident \<Rightarrow> ident \<Rightarrow> manifest_db \<Rightarrow> manifest_db" where
  "addCoOwnerRow E kind rid user grantedBy s =
     (if list_ex (\<lambda>r. ow_kind r = kind \<and> ow_resourceId r = rid \<and> ow_userId r = user) (mf_coOwners s) then s
      else s\<lparr>mf_coOwners := mf_coOwners s @
               [\<lparr>ow_kind = kind, ow_resourceId = rid, ow_userId = user, ow_grantedBy = grantedBy, ow_grantedAt = xe_now E\<rparr>]\<rparr>)"

definition removeCoOwnerRow :: "access_kind \<Rightarrow> ident \<Rightarrow> ident \<Rightarrow> manifest_db \<Rightarrow> manifest_db" where
  "removeCoOwnerRow kind rid user s =
     s\<lparr>mf_coOwners := delete_where (\<lambda>r. ow_kind r = kind \<and> ow_resourceId r = rid \<and> ow_userId r = user) (mf_coOwners s)\<rparr>"

text \<open>One transaction: the policy with the installer, then the co-owners; a pair with an empty user is skipped.\<close>

definition writeExtensionInstallAccessAtomic ::
  "ext_env \<Rightarrow> access_kind \<Rightarrow> ident \<Rightarrow> access_policy \<Rightarrow> ident option \<Rightarrow> (ident \<times> ident) list \<Rightarrow> manifest_db \<Rightarrow> manifest_db" where
  "writeExtensionInstallAccessAtomic E kind rid policy installedBy coOwners s =
     foldl (\<lambda>s (user, grantedBy). if user = [] then s else addCoOwnerRow E kind rid user grantedBy s)
       (writeExtensionAccessPolicy E kind rid policy installedBy s) coOwners"

definition deleteExtensionPermissions :: "access_kind \<Rightarrow> ident \<Rightarrow> manifest_db \<Rightarrow> manifest_db" where
  "deleteExtensionPermissions kind rid s =
     s\<lparr>mf_coOwners := delete_where (\<lambda>r. ow_kind r = kind \<and> ow_resourceId r = rid) (mf_coOwners s),
       mf_policies := delete_where (\<lambda>r. py_kind r = kind \<and> py_resourceId r = rid) (mf_policies s)\<rparr>"

section \<open>The manifest store (canonical-store.ts)\<close>

record canonical_identity =
  ci_organizationId :: "ident option"
  ci_ownerLevel :: owner_level
  ci_ownerId :: "ident option"
  ci_packageName :: string

definition platformizeOwnerId :: "owner_level \<Rightarrow> ident option \<Rightarrow> ident" where
  "platformizeOwnerId level owner =
     (if level = OwnPlatform then PLATFORM_OWNER_SENTINEL else nullish owner PLATFORM_OWNER_SENTINEL)"

definition readInstalledExtensionById :: "ident \<Rightarrow> manifest_db \<Rightarrow> installed_extension option" where
  "readInstalledExtensionById i s = find (\<lambda>r. ix_id r = i) (mf_rows s)"

definition readInstalledExtensionByIdentity :: "canonical_identity \<Rightarrow> manifest_db \<Rightarrow> installed_extension option" where
  "readInstalledExtensionByIdentity identity s =
     (let ownerId = platformizeOwnerId (ci_ownerLevel identity) (ci_ownerId identity);
          org = (if truthy (ci_organizationId identity) then ci_organizationId identity else None)
      in find (\<lambda>r. ix_organizationId r = org \<and> ix_ownerLevel r = ci_ownerLevel identity \<and> ix_ownerId r = Some ownerId
                 \<and> ix_packageName r = ci_packageName identity) (mf_rows s))"

definition readInstalledExtensionsByPackageName :: "string \<Rightarrow> manifest_db \<Rightarrow> installed_extension list" where
  "readInstalledExtensionsByPackageName name s = filter (\<lambda>r. ix_packageName r = name) (mf_rows s)"

text \<open>The effective status of a package: \<open>True\<close> for active; a live row wins over archived ones.\<close>

definition aggregateEffectiveStatusByPackageName :: "installed_extension list \<Rightarrow> string \<Rightarrow> bool option" where
  "aggregateEffectiveStatusByPackageName rows =
     fold (\<lambda>row m. if live row then m(ix_packageName row \<mapsto> True)
                   else if m (ix_packageName row) = None then m(ix_packageName row \<mapsto> False) else m)
       rows Map.empty"

definition readEffectiveStatusByPackageNames :: "string list \<Rightarrow> manifest_db \<Rightarrow> string \<Rightarrow> bool option" where
  "readEffectiveStatusByPackageNames names s =
     aggregateEffectiveStatusByPackageName (filter (\<lambda>r. ix_packageName r \<in> set names) (mf_rows s))"

text \<open>The filter on the organization may be absent, or null for the platform.\<close>

definition listInstalledExtensions ::
  "extension_kind option \<Rightarrow> lifecycle_status option \<Rightarrow> ident option option \<Rightarrow> manifest_db \<Rightarrow> installed_extension list" where
  "listInstalledExtensions kind st org s =
     filter (\<lambda>r. (case kind of None \<Rightarrow> True | Some k \<Rightarrow> ix_kind r = k)
               \<and> (case st of None \<Rightarrow> True | Some x \<Rightarrow> ix_status r = x)
               \<and> (case org of None \<Rightarrow> True | Some x \<Rightarrow> ix_organizationId r = x)) (mf_rows s)"

text \<open>The primary key, the unique identity and the check on the owner of the table.\<close>

definition same_identity :: "installed_extension \<Rightarrow> installed_extension \<Rightarrow> bool" where
  "same_identity a b \<longleftrightarrow> ix_organizationId a = ix_organizationId b \<and> ix_ownerLevel a = ix_ownerLevel b
     \<and> ix_ownerId a = ix_ownerId b \<and> ix_packageName a = ix_packageName b"

definition platform_invariant :: "installed_extension \<Rightarrow> bool" where
  "platform_invariant r \<longleftrightarrow>
     (if ix_ownerLevel r = OwnPlatform \<or> ix_ownerLevel r = OwnWorkspace
      then ix_organizationId r = None \<and> ix_ownerId r = Some PLATFORM_OWNER_SENTINEL
      else ix_ownerId r \<noteq> None \<and> ix_ownerId r \<noteq> Some PLATFORM_OWNER_SENTINEL)"

definition insert_refused :: "installed_extension \<Rightarrow> installed_extension list \<Rightarrow> bool" where
  "insert_refused row rows \<longleftrightarrow>
     list_ex (\<lambda>r. ix_id r = ix_id row \<or> same_identity r row) rows \<or> \<not> platform_invariant row"

datatype lifecycle_code = LOCKED_REJECTS_OP | ILLEGAL_TRANSITION | DEP_CLOSURE_BREAK | EXT_NOT_FOUND | INVALID_INPUT

datatype lifecycle_error =
    LifecycleError lifecycle_code
  | StoreError  \<comment> \<open>a statement that the database refuses, or that finds no row\<close>

definition insert_row :: "ext_env \<Rightarrow> installed_extension \<Rightarrow> manifest_db \<Rightarrow> (lifecycle_error + installed_extension) \<times> manifest_db" where
  "insert_row E row s =
     (let row' = row\<lparr>ix_ownerId := Some (platformizeOwnerId (ix_ownerLevel row) (ix_ownerId row)),
                      ix_createdAt := xe_now E, ix_updatedAt := xe_now E\<rparr>
      in if insert_refused row' (mf_rows s) then (Inl StoreError, s)
         else (Inr row', s\<lparr>mf_rows := mf_rows s @ [row']\<rparr>))"

text \<open>\<open>UPDATE \<dots> SET f, updated_at WHERE id \<dots> RETURNING\<close>.\<close>

definition update_row ::
  "ext_env \<Rightarrow> ident \<Rightarrow> (installed_extension \<Rightarrow> installed_extension) \<Rightarrow> manifest_db \<Rightarrow>
   (lifecycle_error + installed_extension) \<times> manifest_db" where
  "update_row E i f s =
     (let g = (\<lambda>r. (f r)\<lparr>ix_updatedAt := xe_now E\<rparr>)
      in case readInstalledExtensionById i s of
           None \<Rightarrow> (Inl StoreError, s)
         | Some r \<Rightarrow> (Inr (g r), s\<lparr>mf_rows := update_where (\<lambda>r. ix_id r = i) g (mf_rows s)\<rparr>))"

definition update_status where
  "update_status E i st = update_row E i (\<lambda>r. r\<lparr>ix_status := st\<rparr>)"

definition update_source where
  "update_source E i src = update_row E i (\<lambda>r. r\<lparr>ix_source := src\<rparr>)"

definition update_metadata where
  "update_metadata E i deps = update_row E i (\<lambda>r. r\<lparr>ix_dependencies := deps\<rparr>)"

definition delete_row :: "ident \<Rightarrow> manifest_db \<Rightarrow> manifest_db" where
  "delete_row i s = s\<lparr>mf_rows := delete_where (\<lambda>r. ix_id r = i) (mf_rows s)\<rparr>"

section \<open>The lifecycle primitive (lifecycle-primitive.ts)\<close>

record transition_opts =
  to_roles :: "string list option"
  to_allowUnlock :: bool

definition transitionMatrix :: "lifecycle_status \<Rightarrow> lifecycle_op \<Rightarrow> lifecycle_code + lifecycle_status" where
  "transitionMatrix current op =
     (if op = OpUpdate then Inr current
      else if current = ExLocked \<and> op \<in> set LOCKED_REJECTED_OPS then Inl LOCKED_REJECTS_OP
      else if op = OpInstall then (if current \<noteq> ExActive then Inl ILLEGAL_TRANSITION else Inr ExActive)
      else if op = OpArchive then Inr ExArchived
      else if op = OpActivate then Inr (if current = ExLocked then ExLocked else ExActive)
      else if op = OpLock then Inr ExLocked
      else if op = OpUnlock then Inr (if current = ExLocked then ExActive else current)
      else if op = OpSourceSwitch then Inr current
      else if op \<in> set DESTRUCTIVE_OPS then Inr ExArchived
      else Inl ILLEGAL_TRANSITION)"

text \<open>The status may be absent; the times of the argument are not read.\<close>

definition installExtensionManifest ::
  "ext_env \<Rightarrow> installed_extension \<Rightarrow> lifecycle_status option \<Rightarrow> manifest_db \<Rightarrow>
   (lifecycle_error + installed_extension) \<times> manifest_db" where
  "installExtensionManifest E row status s =
     (let initial = nullish status ExActive;
          archivedAnchorStart = (initial = ExArchived \<and> isStaticBundleAnchorSource (ix_source row));
          final = (if ix_requiredInProd row \<and> \<not> xe_dev E \<and> initial = ExActive then ExLocked else initial)
      in if ix_id row = [] \<or> ix_packageName row = [] then (Inl (LifecycleError INVALID_INPUT), s)
         else if initial \<noteq> ExActive \<and> initial \<noteq> ExLocked \<and> \<not> archivedAnchorStart
         then (Inl (LifecycleError ILLEGAL_TRANSITION), s)
         else if validateExtensionSource (ix_source row) \<noteq> [] then (Inl (LifecycleError INVALID_INPUT), s)
         else insert_row E (row\<lparr>ix_status := final\<rparr>) s)"

definition access_kind_of :: "extension_kind \<Rightarrow> access_kind option" where
  "access_kind_of k = (case k of KConnector \<Rightarrow> Some AccConnector | KArtifact \<Rightarrow> Some AccArtifact
                         | KWorkflow \<Rightarrow> Some AccWorkflow | _ \<Rightarrow> None)"

text \<open>A failure of the clean-up of the permissions is logged and swallowed; the deletes are one batch.\<close>

definition delete_with_permissions :: "ext_env \<Rightarrow> installed_extension \<Rightarrow> manifest_db \<Rightarrow> manifest_db" where
  "delete_with_permissions E ext s =
     (let s' = delete_row (ix_id ext) s
      in case access_kind_of (ix_kind ext) of
           None \<Rightarrow> s'
         | Some k \<Rightarrow> if xe_permissionsUp E then deleteExtensionPermissions k (ix_id ext) s' else s')"

definition transitionExtensionLifecycle ::
  "ext_env \<Rightarrow> ident \<Rightarrow> lifecycle_op \<Rightarrow> transition_opts \<Rightarrow> manifest_db \<Rightarrow>
   (lifecycle_error + installed_extension option) \<times> manifest_db" where
  "transitionExtensionLifecycle E i op opts s =
     (case readInstalledExtensionById i s of
        None \<Rightarrow> (Inl (LifecycleError EXT_NOT_FOUND), s)
      | Some ext \<Rightarrow>
          if op = OpUnlock \<and> (\<not> to_allowUnlock opts \<or> ''platform_admin'' \<notin> set (nullish (to_roles opts) []))
          then (Inl (LifecycleError LOCKED_REJECTS_OP), s)
          else
            (case transitionMatrix (ix_status ext) op of
               Inl code \<Rightarrow> (Inl (LifecycleError code), s)
             | Inr newStatus \<Rightarrow>
                 if op = OpUninstall \<or> op = OpForceDelete \<or> op = OpPurge \<or> op = OpRegistryRemove
                 then (if ix_status ext = ExLocked then (Inl (LifecycleError LOCKED_REJECTS_OP), s)
                       else if op = OpUninstall \<and> isStaticBundleAnchorSource (ix_source ext)
                       then (if ix_status ext = ExArchived then (Inr (Some ext), s)
                             else (case update_status E i ExArchived s of
                                     (Inl err, s') \<Rightarrow> (Inl err, s') | (Inr r, s') \<Rightarrow> (Inr (Some r), s')))
                       else (Inr None, delete_with_permissions E ext s))
                 else if newStatus = ix_status ext \<and> op \<noteq> OpUpdate then (Inr (Some ext), s)
                 else (case update_status E i newStatus s of
                         (Inl err, s') \<Rightarrow> (Inl err, s') | (Inr r, s') \<Rightarrow> (Inr (Some r), s'))))"

definition deleteNonFinalizedCanonicalRow :: "ext_env \<Rightarrow> ident \<Rightarrow> manifest_db \<Rightarrow> lifecycle_error option \<times> manifest_db" where
  "deleteNonFinalizedCanonicalRow E i s =
     (case readInstalledExtensionById i s of
        None \<Rightarrow> (None, s)
      | Some ext \<Rightarrow>
          if \<not> isNonFinalizedLiveRowAware (xe_phase E) ext then (Some (LifecycleError ILLEGAL_TRANSITION), s)
          else (None, delete_row i s))"

definition sourceSwitchExtension ::
  "ext_env \<Rightarrow> ident \<Rightarrow> json \<Rightarrow> manifest_db \<Rightarrow> (lifecycle_error + installed_extension) \<times> manifest_db" where
  "sourceSwitchExtension E i newSource s =
     (case readInstalledExtensionById i s of
        None \<Rightarrow> (Inl (LifecycleError EXT_NOT_FOUND), s)
      | Some ext \<Rightarrow>
          if validateExtensionSource newSource \<noteq> [] then (Inl (LifecycleError INVALID_INPUT), s)
          else update_source E i newSource s)"

definition recordExtensionDependencies ::
  "ext_env \<Rightarrow> ident \<Rightarrow> json list \<Rightarrow> manifest_db \<Rightarrow> (lifecycle_error + installed_extension) \<times> manifest_db" where
  "recordExtensionDependencies E i deps s =
     (case readInstalledExtensionById i s of
        None \<Rightarrow> (Inl (LifecycleError EXT_NOT_FOUND), s)
      | Some ext \<Rightarrow>
          if list_ex (\<lambda>d. validateExtensionDependencyShape d (Some (ix_packageName ext)) \<noteq> []) deps
          then (Inl (LifecycleError INVALID_INPUT), s)
          else update_metadata E i (map cast_dependency deps) s)"

section \<open>Writing the edges of an installed package (manifest-dependencies.ts)\<close>

text \<open>The organization may be absent (every live row of the package), or null for the platform.\<close>

definition resolveLiveCanonicalEdgeTargets :: "string \<Rightarrow> ident option option \<Rightarrow> manifest_db \<Rightarrow> ident list" where
  "resolveLiveCanonicalEdgeTargets name org s =
     map ix_id (filter (\<lambda>r. live r \<and> (org = None \<or> Some (ix_organizationId r) = org))
       (readInstalledExtensionsByPackageName name s))"

text \<open>The identifiers of the rows written; a refused row stops the loop and leaves the earlier ones written.\<close>

fun writeDependencyEdgesToCanonicalRows ::
  "ext_env \<Rightarrow> ident list \<Rightarrow> json list \<Rightarrow> manifest_db \<Rightarrow> (lifecycle_error + ident list) \<times> manifest_db" where
  "writeDependencyEdgesToCanonicalRows E [] edges s = (Inr [], s)"
| "writeDependencyEdgesToCanonicalRows E (i # targets) edges s =
     (case recordExtensionDependencies E i edges s of
        (Inl err, s1) \<Rightarrow> (Inl err, s1)
      | (Inr _, s1) \<Rightarrow>
          (case writeDependencyEdgesToCanonicalRows E targets edges s1 of
             (Inl err, s2) \<Rightarrow> (Inl err, s2) | (Inr patched, s2) \<Rightarrow> (Inr (i # patched), s2)))"

definition persistDependencyEdgesOnCanonicalRows ::
  "ext_env \<Rightarrow> string \<Rightarrow> ident option option \<Rightarrow> json list \<Rightarrow> manifest_db \<Rightarrow> (lifecycle_error + ident list) \<times> manifest_db" where
  "persistDependencyEdgesOnCanonicalRows E name org edges s =
     writeDependencyEdgesToCanonicalRows E (resolveLiveCanonicalEdgeTargets name org s) edges s"

section \<open>The gate (canonical-gate.ts)\<close>

datatype gate_code = GateLockedRejectsOp | GateExtNotFound | GateInvalidIdentity

definition enforceCanonicalManifest ::
  "canonical_identity \<Rightarrow> lifecycle_op \<Rightarrow> manifest_db \<Rightarrow> gate_code + installed_extension" where
  "enforceCanonicalManifest identity op s =
     (if ci_packageName identity = [] then Inl GateInvalidIdentity
      else
        (case readInstalledExtensionByIdentity identity s of
           None \<Rightarrow> Inl GateExtNotFound
         | Some ext \<Rightarrow> if ix_status ext = ExLocked \<and> op \<in> set LOCKED_REJECTED_OPS then Inl GateLockedRejectsOp else Inr ext))"

section \<open>Locks set at boot (system-extension-inventory.ts)\<close>

definition BOOT_OPTS :: transition_opts where
  "BOOT_OPTS = \<lparr>to_roles = None, to_allowUnlock = False\<rparr>"

text \<open>The counters are the rows locked and the rows skipped.\<close>

fun lock_rows :: "ext_env \<Rightarrow> installed_extension list \<Rightarrow> manifest_db \<Rightarrow> (nat \<times> nat) \<times> manifest_db" where
  "lock_rows E [] s = ((0, 0), s)"
| "lock_rows E (row # rows) s =
     (if ix_status row = ExLocked
      then (case lock_rows E rows s of ((locked, skipped), s') \<Rightarrow> ((locked, skipped + 1), s'))
      else
        (case transitionExtensionLifecycle E (ix_id row) OpLock BOOT_OPTS s of
           (Inl _, s1) \<Rightarrow> (case lock_rows E rows s1 of ((locked, skipped), s') \<Rightarrow> ((locked, skipped + 1), s'))
         | (Inr _, s1) \<Rightarrow> (case lock_rows E rows s1 of ((locked, skipped), s') \<Rightarrow> ((locked + 1, skipped), s'))))"

definition lockExtensionByPackageName :: "ext_env \<Rightarrow> string \<Rightarrow> manifest_db \<Rightarrow> (nat \<times> nat) \<times> manifest_db" where
  "lockExtensionByPackageName E name s = lock_rows E (readInstalledExtensionsByPackageName name s) s"

fun lock_packages :: "ext_env \<Rightarrow> string list \<Rightarrow> manifest_db \<Rightarrow> nat \<times> manifest_db" where
  "lock_packages E [] s = (0, s)"
| "lock_packages E (p # ps) s =
     (case lockExtensionByPackageName E p s of
        ((locked, _), s1) \<Rightarrow> (case lock_packages E ps s1 of (n, s') \<Rightarrow> (locked + n, s')))"

definition lockSystemExtensionsAtBoot :: "ext_env \<Rightarrow> string list \<Rightarrow> string list \<Rightarrow> manifest_db \<Rightarrow> nat \<times> manifest_db" where
  "lockSystemExtensionsAtBoot E systemExtensions requiredInProd s =
     lock_packages E (first_occurrences (systemExtensions @ (if xe_dev E then [] else requiredInProd))) s"

end
