(* ===== verification/Ext_Closure.thy ===== *)
theory Ext_Closure
  imports Ext_Types
begin

text \<open>
  The dependency closure of installed extensions, \<^verbatim>\<open>packages/extensions/src/dependency-closure.ts\<close>: the scoped lookup,
  the traversal of the closure, the verdicts of the boot and execution gates, the update, install and archive gates, and
  the activation order. Version ranges are those of the semver package, a parameter. A lookup is the scoped lookup over
  a snapshot of the rows, as every caller passes it, so the traversal stays among the packages of the snapshot. The
  messages of the errors are left out.
\<close>

type_synonym range_test = "string \<Rightarrow> string \<Rightarrow> bool"  \<comment> \<open>\<open>satisfiesVersionRange\<close>\<close>

section \<open>Edges\<close>

definition isInstallBlockingEdge :: "ext_dependency \<Rightarrow> bool" where
  "isInstallBlockingEdge dep \<longleftrightarrow> dep_requirement dep = Required \<and> dep_edgeType dep \<noteq> EdgePeer"

definition isAutoInstallableEdge :: "ext_dependency \<Rightarrow> bool" where
  "isAutoInstallableEdge dep \<longleftrightarrow> dep_requirement dep = Required \<and> dep_edgeType dep \<noteq> EdgePeer"

definition installedVersionOfRow :: "installed_extension \<Rightarrow> string option" where
  "installedVersionOfRow row =
     (if get_str (ix_source row) ''type'' = Some ''verdaccio''
      then (case get_str (ix_source row) ''version'' of Some v \<Rightarrow> if v \<noteq> [] then Some v else None | None \<Rightarrow> None)
      else None)"

definition edgeVersionViolation :: "range_test \<Rightarrow> ext_dependency \<Rightarrow> string option \<Rightarrow> string option" where
  "edgeVersionViolation sat dep installed =
     (case installed of
        None \<Rightarrow> None
      | Some v \<Rightarrow>
          (case dep_constraint dep of
             SemverRange r \<Rightarrow> if r = ''*'' \<or> sat v r then None else Some ([CHR 0x22] @ r @ [CHR 0x22])
           | ExactVersion w \<Rightarrow> if w = v then None else Some (''='' @ w)
           | GitRef _ \<Rightarrow> None))"

section \<open>The scoped lookup\<close>

definition makeScopedManifestLookup ::
  "installed_extension list \<Rightarrow> ident option \<Rightarrow> string \<Rightarrow> installed_extension option" where
  "makeScopedManifestLookup rows org name =
     (let live_rows = filter (\<lambda>r. ix_packageName r = name \<and> live r) rows;
          own = (case org of None \<Rightarrow> None | Some _ \<Rightarrow> find (\<lambda>r. ix_organizationId r = org) live_rows)
      in case own of Some r \<Rightarrow> Some r | None \<Rightarrow> find (\<lambda>r. ix_organizationId r = None) live_rows)"

section \<open>The traversal\<close>

datatype node_status = NodeStatus lifecycle_status | NodeMissing

record closure_node =
  cn_packageName :: string
  cn_status :: node_status
  cn_kind :: "extension_kind option"

record range_violation =
  rv_packageName :: string
  rv_via :: string
  rv_installedVersion :: string
  rv_constraint :: string

record closure_result =
  cr_missingRequired :: "closure_node list"
  cr_missingOptional :: "closure_node list"
  cr_missingPeer :: "closure_node list"
  cr_rangeViolations :: "range_violation list"
  cr_visited :: "string list"

definition cr_ok :: "closure_result \<Rightarrow> bool" where
  "cr_ok r \<longleftrightarrow> cr_missingRequired r = []"

text \<open>The loop state: the result so far, and the stack with its top first.\<close>

type_synonym closure_state = "closure_result \<times> (string \<times> ext_dependency list) list"

definition missing_node :: "ext_dependency \<Rightarrow> installed_extension option \<Rightarrow> closure_node" where
  "missing_node dep installed =
     \<lparr>cn_packageName = dep_packageName dep,
      cn_status = (case installed of None \<Rightarrow> NodeMissing | Some r \<Rightarrow> NodeStatus (ix_status r)),
      cn_kind = map_option ix_kind installed\<rparr>"

definition bucket_missing :: "ext_dependency \<Rightarrow> closure_node \<Rightarrow> closure_result \<Rightarrow> closure_result" where
  "bucket_missing dep node res =
     (if dep_edgeType dep = EdgePeer then res\<lparr>cr_missingPeer := cr_missingPeer res @ [node]\<rparr>
      else if isInstallBlockingEdge dep then res\<lparr>cr_missingRequired := cr_missingRequired res @ [node]\<rparr>
      else res\<lparr>cr_missingOptional := cr_missingOptional res @ [node]\<rparr>)"

definition edge_violation :: "range_test \<Rightarrow> string \<Rightarrow> ext_dependency \<Rightarrow> installed_extension \<Rightarrow> range_violation list" where
  "edge_violation sat via dep installed =
     (if isInstallBlockingEdge dep
      then (case edgeVersionViolation sat dep (installedVersionOfRow installed) of
              None \<Rightarrow> []
            | Some c \<Rightarrow> [\<lparr>rv_packageName = dep_packageName dep, rv_via = via,
                          rv_installedVersion = nullish (installedVersionOfRow installed) ''(unknown)'', rv_constraint = c\<rparr>])
      else [])"

definition visit_dep ::
  "range_test \<Rightarrow> installed_extension list \<Rightarrow> ident option \<Rightarrow> string \<Rightarrow> closure_state \<Rightarrow> ext_dependency \<Rightarrow> closure_state" where
  "visit_dep sat rows org via st dep =
     (case st of (res, stack) \<Rightarrow>
        (let found = makeScopedManifestLookup rows org (dep_packageName dep)
         in case (case found of Some r \<Rightarrow> if live r then Some r else None | None \<Rightarrow> None) of
              None \<Rightarrow> (bucket_missing dep (missing_node dep found) res, stack)
            | Some r \<Rightarrow>
                (let res' = res\<lparr>cr_rangeViolations := cr_rangeViolations res @ edge_violation sat via dep r\<rparr>
                 in if dep_packageName dep \<in> set (cr_visited res') then (res', stack)
                    else (res'\<lparr>cr_visited := cr_visited res' @ [dep_packageName dep]\<rparr>,
                          (dep_packageName dep, ix_dependencies r) # stack))))"

definition package_names :: "installed_extension list \<Rightarrow> string set" where
  "package_names rows = ix_packageName ` set rows"

lemma lookup_SomeD:
  "makeScopedManifestLookup rows org name = Some r \<Longrightarrow> r \<in> set rows \<and> ix_packageName r = name \<and> live r"
  by (auto simp: makeScopedManifestLookup_def Let_def split: option.splits dest!: find_SomeD)

lemma lookup_live: "makeScopedManifestLookup rows org name = Some r \<Longrightarrow> live r"
  by (auto dest: lookup_SomeD)

lemma visit_dep_measure:
  assumes "visit_dep sat rows org via (res, stack) dep = (res', stack')"
  shows "length stack' + card (package_names rows - set (cr_visited res')) =
         length stack + card (package_names rows - set (cr_visited res))"
proof (cases "makeScopedManifestLookup rows org (dep_packageName dep)")
  case None
  then show ?thesis using assms by (auto simp: visit_dep_def bucket_missing_def)
next
  case (Some r)
  define n where "n = dep_packageName dep"
  from lookup_SomeD [OF Some] have r: "n \<in> package_names rows" "live r"
    by (auto simp: package_names_def n_def intro: rev_image_eqI)
  show ?thesis
  proof (cases "n \<in> set (cr_visited res)")
    case True
    with Some r assms show ?thesis by (auto simp: visit_dep_def n_def Let_def)
  next
    case False
    with Some r assms have eqs: "stack' = (n, ix_dependencies r) # stack" "cr_visited res' = cr_visited res @ [n]"
      by (auto simp: visit_dep_def n_def Let_def)
    have "package_names rows - set (cr_visited res') = (package_names rows - set (cr_visited res)) - {n}"
      by (auto simp: eqs)
    moreover have "n \<in> package_names rows - set (cr_visited res)" using False r by simp
    moreover have "finite (package_names rows)" by (simp add: package_names_def)
    ultimately have "card (package_names rows - set (cr_visited res)) = Suc (card (package_names rows - set (cr_visited res')))"
      by (metis card.remove finite_Diff)
    then show ?thesis using eqs by simp
  qed
qed

lemma visit_deps_measure:
  "foldl (visit_dep sat rows org via) (res, stack) deps = (res', stack') \<Longrightarrow>
     length stack' + card (package_names rows - set (cr_visited res')) =
     length stack + card (package_names rows - set (cr_visited res))"
proof (induction deps arbitrary: res stack)
  case (Cons d ds)
  obtain res1 stack1 where one: "visit_dep sat rows org via (res, stack) d = (res1, stack1)" by fastforce
  with Cons.prems have "foldl (visit_dep sat rows org via) (res1, stack1) ds = (res', stack')" by simp
  from Cons.IH [OF this] visit_dep_measure [OF one] show ?case by simp
qed simp

function closure_loop ::
  "range_test \<Rightarrow> installed_extension list \<Rightarrow> ident option \<Rightarrow> closure_result \<Rightarrow> (string \<times> ext_dependency list) list \<Rightarrow> closure_result" where
  "closure_loop sat rows org res [] = res"
| "closure_loop sat rows org res ((via, deps) # stack) =
     (case foldl (visit_dep sat rows org via) (res, stack) deps of (res', stack') \<Rightarrow> closure_loop sat rows org res' stack')"
  by pat_completeness auto
termination
  by (relation "measure (\<lambda>(sat, rows, org, res, stack). length stack + card (package_names rows - set (cr_visited res)))")
    (auto split: prod.split dest!: visit_deps_measure)

definition computeClosure ::
  "range_test \<Rightarrow> installed_extension list \<Rightarrow> ident option \<Rightarrow> installed_extension \<Rightarrow> closure_result" where
  "computeClosure sat rows org root =
     closure_loop sat rows org
       \<lparr>cr_missingRequired = [], cr_missingOptional = [], cr_missingPeer = [], cr_rangeViolations = [],
        cr_visited = [ix_packageName root]\<rparr>
       [(ix_packageName root, ix_dependencies root)]"

section \<open>The execution verdict\<close>

datatype optional_missing_behavior = StopRunHitl | SkipStepAudit | LogContinue | FailInstantiate

definition optionalMissingBehaviorForKind :: "extension_kind \<Rightarrow> optional_missing_behavior" where
  "optionalMissingBehaviorForKind kind =
     (case kind of KAgent \<Rightarrow> StopRunHitl | KConnector \<Rightarrow> SkipStepAudit | KSkill \<Rightarrow> LogContinue
        | KArtifact \<Rightarrow> LogContinue | KWorkflow \<Rightarrow> FailInstantiate)"

record optional_missing_advisory =
  oa_kind :: extension_kind
  oa_behavior :: optional_missing_behavior
  oa_missing :: "closure_node list"

datatype execution_block =
    RequiredMissingBlock "string list"
  | OptionalMissingFailsInstantiate "string list"

record execution_verdict =
  ev_requiredClosureOk :: bool
  ev_missingRequired :: "closure_node list"
  ev_advisory :: "optional_missing_advisory option"
  ev_block :: "execution_block option"

definition evaluateExecutionClosure ::
  "range_test \<Rightarrow> installed_extension list \<Rightarrow> ident option \<Rightarrow> installed_extension \<Rightarrow> execution_verdict" where
  "evaluateExecutionClosure sat rows org target =
     (let result = computeClosure sat rows org target;
          missing = cr_missingOptional result @ cr_missingPeer result;
          advisory = (if missing \<noteq> []
                      then Some \<lparr>oa_kind = ix_kind target, oa_behavior = optionalMissingBehaviorForKind (ix_kind target),
                                 oa_missing = missing\<rparr>
                      else None)
      in \<lparr>ev_requiredClosureOk = (cr_missingRequired result = []),
          ev_missingRequired = cr_missingRequired result,
          ev_advisory = advisory,
          ev_block =
            (if cr_missingRequired result \<noteq> []
             then Some (RequiredMissingBlock (map cn_packageName (cr_missingRequired result)))
             else (case advisory of
                     Some a \<Rightarrow> if oa_behavior a = FailInstantiate
                               then Some (OptionalMissingFailsInstantiate (map cn_packageName (oa_missing a))) else None
                   | None \<Rightarrow> None))\<rparr>)"

section \<open>The boot scan\<close>

record broken_closure =
  bc_packageName :: string
  bc_missingRequired :: "string list"
  bc_rangeViolations :: "string list"

definition violation_text :: "range_violation \<Rightarrow> string" where
  "violation_text v =
     rv_packageName v @ ''@'' @ rv_installedVersion v @ '' violates '' @ rv_constraint v @ '' required by '' @ rv_via v"

definition broken_entry :: "range_test \<Rightarrow> installed_extension list \<Rightarrow> installed_extension \<Rightarrow> broken_closure option" where
  "broken_entry sat rows row =
     (if \<not> live row then None
      else
        (let result = computeClosure sat rows (ix_organizationId row) row
         in if cr_missingRequired result \<noteq> [] \<or> cr_rangeViolations result \<noteq> []
            then Some \<lparr>bc_packageName = ix_packageName row,
                       bc_missingRequired = map cn_packageName (cr_missingRequired result),
                       bc_rangeViolations = map violation_text (cr_rangeViolations result)\<rparr>
            else None))"

definition findBrokenClosures :: "range_test \<Rightarrow> installed_extension list \<Rightarrow> broken_closure list" where
  "findBrokenClosures sat rows = List.map_filter (broken_entry sat rows) rows"

section \<open>The gates\<close>

datatype closure_code = REQUIRED_MISSING | ARCHIVE_BREAKS_CLOSURE | UPDATE_BREAKS_DEPENDENTS | RANGE_VIOLATION

datatype closure_error = ClosureError closure_code "string list"  \<comment> \<open>the code and \<open>dependents\<close>\<close>

text \<open>An option of an option: the scope may be absent, or null for the platform.\<close>

definition at_scope :: "ident option option \<Rightarrow> installed_extension \<Rightarrow> bool" where
  "at_scope scope r \<longleftrightarrow> (case scope of None \<Rightarrow> True | Some org \<Rightarrow> ix_organizationId r = org)"

definition edge_violations_on :: "range_test \<Rightarrow> string \<Rightarrow> string \<Rightarrow> installed_extension \<Rightarrow> string list" where
  "edge_violations_on sat packageName newVersion row =
     map (\<lambda>d. ix_packageName row)
       (filter (\<lambda>d. dep_packageName d = packageName \<and> isInstallBlockingEdge d
                  \<and> edgeVersionViolation sat d (Some newVersion) \<noteq> None) (ix_dependencies row))"

definition assertUpdateDoesNotBreakDependents ::
  "range_test \<Rightarrow> string \<Rightarrow> string \<Rightarrow> installed_extension list \<Rightarrow> ident option option \<Rightarrow> closure_error option" where
  "assertUpdateDoesNotBreakDependents sat packageName newVersion allRows scope =
     (let targetIds = map ix_id (filter (\<lambda>r. ix_packageName r = packageName \<and> live r \<and> at_scope scope r) allRows);
          bound = (\<lambda>row. case makeScopedManifestLookup allRows (ix_organizationId row) packageName of
                            None \<Rightarrow> False | Some r \<Rightarrow> ix_id r \<in> set targetIds);
          violations = concat (map (\<lambda>row. if ix_packageName row = packageName \<or> \<not> live row \<or> \<not> bound row then []
                                          else edge_violations_on sat packageName newVersion row) allRows)
      in if targetIds = [] \<or> violations = [] then None
         else Some (ClosureError UPDATE_BREAKS_DEPENDENTS (first_occurrences violations)))"

definition assertInstallClosure ::
  "range_test \<Rightarrow> installed_extension list \<Rightarrow> ident option \<Rightarrow> installed_extension \<Rightarrow> closure_error + closure_result" where
  "assertInstallClosure sat rows org candidate =
     (let result = computeClosure sat rows org candidate
      in if cr_ok result \<and> cr_rangeViolations result \<noteq> []
         then Inl (ClosureError RANGE_VIOLATION (map rv_packageName (cr_rangeViolations result)))
         else if \<not> cr_ok result
         then Inl (ClosureError REQUIRED_MISSING (map cn_packageName (cr_missingRequired result)))
         else Inr result)"

definition assertArchiveDoesNotBreakClosure :: "installed_extension \<Rightarrow> installed_extension list \<Rightarrow> closure_error option" where
  "assertArchiveDoesNotBreakClosure target allRows =
     (let blocking = filter (\<lambda>row. ix_packageName row \<noteq> ix_packageName target \<and> live row
                               \<and> list_ex (\<lambda>d. dep_packageName d = ix_packageName target \<and> isInstallBlockingEdge d)
                                   (ix_dependencies row)) allRows
      in if blocking \<noteq> [] then Some (ClosureError ARCHIVE_BREAKS_CLOSURE (map ix_packageName blocking)) else None)"

fun forward_check :: "range_test \<Rightarrow> installed_extension list \<Rightarrow> installed_extension list \<Rightarrow> closure_error option" where
  "forward_check sat allRows [] = None"
| "forward_check sat allRows (target # targets) =
     (let result = computeClosure sat allRows (ix_organizationId target) target
      in if cr_rangeViolations result \<noteq> []
         then Some (ClosureError RANGE_VIOLATION (map rv_packageName (cr_rangeViolations result)))
         else if cr_missingRequired result \<noteq> []
         then Some (ClosureError REQUIRED_MISSING (map cn_packageName (cr_missingRequired result)))
         else forward_check sat allRows targets)"

definition assertForwardInstallClosureForPackage ::
  "range_test \<Rightarrow> string \<Rightarrow> installed_extension list \<Rightarrow> ident option option \<Rightarrow> closure_error option" where
  "assertForwardInstallClosureForPackage sat packageName allRows scope =
     forward_check sat allRows (filter (\<lambda>r. ix_packageName r = packageName \<and> live r \<and> at_scope scope r) allRows)"

section \<open>The activation order\<close>

type_synonym edge_map = "string \<Rightarrow> ext_dependency list option"

definition needs_first :: "string list \<Rightarrow> edge_map \<Rightarrow> string \<Rightarrow> string list" where
  "needs_first names edges name =
     first_occurrences (map dep_packageName
       (filter (\<lambda>d. dep_edgeType d \<noteq> EdgePeer \<and> dep_packageName d \<in> set names) (nullish (edges name) [])))"

lemma filter_head_mem: "filter P xs = y # ys \<Longrightarrow> y \<in> set xs \<and> P y"
proof -
  assume "filter P xs = y # ys"
  then have "y \<in> set (filter P xs)" by simp
  then show ?thesis by simp
qed

function order_loop :: "(string \<Rightarrow> string list) \<Rightarrow> string list \<Rightarrow> string list \<Rightarrow> string list" where
  "order_loop deps ordered remaining =
     (if remaining = [] then ordered
      else
        (case filter (\<lambda>n. list_all (\<lambda>d. d \<in> set ordered) (deps n)) remaining of
           [] \<Rightarrow> ordered @ remaining
         | next # _ \<Rightarrow> order_loop deps (ordered @ [next]) (filter (\<lambda>n. n \<noteq> next) remaining)))"
  by pat_completeness auto

termination
  by (relation "measure (\<lambda>(deps, ordered, remaining). length remaining)")
    (auto dest!: filter_head_mem intro!: length_filter_less)

declare order_loop.simps [simp del]

definition orderPackagesByDependencyFirst :: "string list \<Rightarrow> edge_map \<Rightarrow> string list" where
  "orderPackagesByDependencyFirst names edges = order_loop (needs_first names edges) [] (sort names)"

end
