(* ===== verification/Ext_Versions.thy ===== *)
theory Ext_Versions
  imports Ext_Types
begin

text \<open>
  Packages the host requires, \<^verbatim>\<open>packages/extensions/src/required-in-prod.ts\<close>: the entries \<open>name@range\<close> of the root
  manifest, the range check of the host, the pin gate of the installer and the verification at boot. The file of the
  root manifest is a parameter (its JSON value, \<open>None\<close> where it is missing or unreadable); numbers are unbounded.
\<close>

section \<open>Entries\<close>

record required_entry =
  re_packageName :: string
  re_versionRange :: "string option"

text \<open>\<open>s.lastIndexOf(c)\<close>; \<open>None\<close> is \<open>-1\<close>.\<close>

definition last_index_of :: "char \<Rightarrow> string \<Rightarrow> nat option" where
  "last_index_of c s = (if c \<in> set s then Some (length s - 1 - length (takeWhile (\<lambda>x. x \<noteq> c) (rev s))) else None)"

definition parseRequiredExtensionEntry :: "string \<Rightarrow> required_entry option" where
  "parseRequiredExtensionEntry raw =
     (let trimmed = js_trim raw
      in if trimmed = [] then None
         else
           (case last_index_of (CHR ''@'') trimmed of
              Some (Suc k) \<Rightarrow>
                (let versionRange = js_trim (drop (Suc (Suc k)) trimmed)
                 in Some \<lparr>re_packageName = take (Suc k) trimmed,
                          re_versionRange = (if versionRange \<noteq> [] then Some versionRange else None)\<rparr>)
            | _ \<Rightarrow> Some \<lparr>re_packageName = trimmed, re_versionRange = None\<rparr>))"

text \<open>
  Entries that are not non-empty strings are dropped; where the field is not an array, \<open>filter\<close> throws and the list is
  empty. The cache of the first read is left out: the file does not change while the host runs.
\<close>

definition readRequiredInProdEntries :: "json option \<Rightarrow> required_entry list" where
  "readRequiredInProdEntries manifest =
     (case Option.bind (Option.bind manifest (\<lambda>m. get m ''cinatra'')) (\<lambda>c. get c ''requiredExtensions'') of
        Some (JArr vs) \<Rightarrow>
          List.map_filter (\<lambda>v. case v of JStr s \<Rightarrow> if s \<noteq> [] then parseRequiredExtensionEntry s else None | _ \<Rightarrow> None) vs
      | _ \<Rightarrow> [])"

definition readRequiredInProdPackages :: "required_entry list \<Rightarrow> string list" where
  "readRequiredInProdPackages entries = map re_packageName entries"

definition isPackageRequiredInProd :: "required_entry list \<Rightarrow> string \<Rightarrow> bool" where
  "isPackageRequiredInProd entries name \<longleftrightarrow> name \<in> set (readRequiredInProdPackages entries)"

definition findRequiredInProdEntry :: "required_entry list \<Rightarrow> string \<Rightarrow> required_entry option" where
  "findRequiredInProdEntry entries name = find (\<lambda>e. re_packageName e = name) entries"

section \<open>Ranges\<close>

type_synonym triple = "nat \<times> nat \<times> nat"

definition digits :: "string \<Rightarrow> bool" where
  "digits s \<longleftrightarrow> s \<noteq> [] \<and> list_all is_digit s"

definition parseTriple :: "string \<Rightarrow> triple option" where
  "parseTriple v =
     (case split_on (CHR ''.'') (js_trim v) of
        [a, b, c] \<Rightarrow> if digits a \<and> digits b \<and> digits c then Some (read_nat a, read_nat b, read_nat c) else None
      | _ \<Rightarrow> None)"

fun triple_less :: "triple \<Rightarrow> triple \<Rightarrow> bool" where
  "triple_less (a, b, c) (x, y, z) \<longleftrightarrow> a < x \<or> a = x \<and> (b < y \<or> b = y \<and> c < z)"

datatype range_op = OpCaret | OpTilde | OpGe | OpEq

definition range_op_of :: "string \<Rightarrow> range_op \<times> string" where
  "range_op_of s =
     (if starts_with s ''^'' then (OpCaret, drop 1 s)
      else if starts_with s ''~'' then (OpTilde, drop 1 s)
      else if starts_with s ''>='' then (OpGe, drop 2 s)
      else if starts_with s ''='' then (OpEq, drop 1 s)
      else (OpEq, s))"

text \<open>A component after the first: digits or a wildcard; \<open>Some None\<close> is a wildcard or an absent component.\<close>

definition wild :: "string \<Rightarrow> bool" where
  "wild s \<longleftrightarrow> s = ''x'' \<or> s = ''X'' \<or> s = ''*''"

definition component :: "string \<Rightarrow> nat option option" where
  "component s = (if digits s then Some (Some (read_nat s)) else if wild s then Some None else None)"

definition range_parts :: "string \<Rightarrow> (nat \<times> nat option \<times> nat option) option" where
  "range_parts s =
     (case split_on (CHR ''.'') s of
        [a] \<Rightarrow> if digits a then Some (read_nat a, None, None) else None
      | [a, b] \<Rightarrow> if digits a then map_option (\<lambda>m. (read_nat a, m, None)) (component b) else None
      | [a, b, c] \<Rightarrow>
          if digits a
          then (case (component b, component c) of (Some m, Some p) \<Rightarrow> Some (read_nat a, m, p) | _ \<Rightarrow> None)
          else None
      | _ \<Rightarrow> None)"

definition bounds_of :: "range_op \<Rightarrow> nat \<Rightarrow> nat option \<Rightarrow> nat option \<Rightarrow> triple \<times> triple option" where
  "bounds_of op maj mnr pat =
     (let m = nullish mnr 0; lower = (maj, m, nullish pat 0)
      in case op of
           OpGe \<Rightarrow> (lower, None)
         | OpCaret \<Rightarrow>
             (lower, Some (if 0 < maj then (maj + 1, 0, 0)
                           else if 0 < m then (0, m + 1, 0)
                           else (case pat of
                                   Some p \<Rightarrow> (0, 0, p + 1)
                                 | None \<Rightarrow> if mnr = None then (1, 0, 0) else (0, 1, 0))))
         | OpTilde \<Rightarrow> (lower, Some (if mnr = None then (maj + 1, 0, 0) else (maj, m + 1, 0)))
         | OpEq \<Rightarrow>
             (lower, Some (if mnr = None then (maj + 1, 0, 0)
                           else (case pat of None \<Rightarrow> (maj, m + 1, 0) | Some p \<Rightarrow> (maj, m, p + 1)))))"

definition requiredRangeBounds :: "string \<Rightarrow> (triple \<times> triple option) option" where
  "requiredRangeBounds rng =
     (case range_op_of (js_trim rng) of
        (op, rest) \<Rightarrow> map_option (\<lambda>(maj, mnr, pat). bounds_of op maj mnr pat) (range_parts (dropWhile is_space rest)))"

definition satisfiesRequiredVersionRange :: "string \<Rightarrow> string \<Rightarrow> bool" where
  "satisfiesRequiredVersionRange version rng \<longleftrightarrow>
     (case parseTriple version of
        None \<Rightarrow> False
      | Some v \<Rightarrow>
          if js_trim rng = ''*'' then True
          else
            (case requiredRangeBounds (js_trim rng) of
               None \<Rightarrow> False
             | Some (lower, upper) \<Rightarrow>
                 \<not> triple_less v lower \<and> (case upper of None \<Rightarrow> True | Some u \<Rightarrow> triple_less v u)))"

section \<open>The pin gate\<close>

text \<open>\<open>Some r\<close>: refused, with the required range. An absent version is \<open>None\<close>.\<close>

definition checkRequiredExtensionVersionPin :: "required_entry list \<Rightarrow> string \<Rightarrow> string option \<Rightarrow> string option" where
  "checkRequiredExtensionVersionPin entries packageName version =
     (case Option.bind (findRequiredInProdEntry entries packageName) re_versionRange of
        None \<Rightarrow> None
      | Some requiredRange \<Rightarrow>
          (case map_option js_trim version of
             None \<Rightarrow> Some requiredRange
           | Some got \<Rightarrow>
               if got = [] \<or> \<not> satisfiesRequiredVersionRange got requiredRange then Some requiredRange else None))"

section \<open>Verification at boot\<close>

record required_version_mismatch =
  vm_packageName :: string
  vm_requiredRange :: string
  vm_installedVersion :: "string option"

record required_verification =
  rq_required :: "string list"
  rq_installed :: "string list"
  rq_missing :: "string list"
  rq_mismatched :: "required_version_mismatch list"

definition rq_ok :: "required_verification \<Rightarrow> bool" where
  "rq_ok v \<longleftrightarrow> rq_missing v = [] \<and> rq_mismatched v = []"

definition row_version :: "installed_extension \<Rightarrow> string option" where
  "row_version row =
     (if get_str (ix_source row) ''type'' = Some ''verdaccio'' then get_str (ix_source row) ''version''
      else staticBundleAnchorVersion (ix_source row))"

definition entry_mismatches :: "installed_extension list \<Rightarrow> required_entry \<Rightarrow> required_version_mismatch list" where
  "entry_mismatches live_rows e =
     (case re_versionRange e of
        None \<Rightarrow> []
      | Some r \<Rightarrow>
          map (\<lambda>row. \<lparr>vm_packageName = re_packageName e, vm_requiredRange = r, vm_installedVersion = row_version row\<rparr>)
            (filter (\<lambda>row. ix_packageName row = re_packageName e
                       \<and> (case row_version row of None \<Rightarrow> True | Some v \<Rightarrow> \<not> satisfiesRequiredVersionRange v r)) live_rows))"

definition verifyRequiredInProdInstalled :: "required_entry list \<Rightarrow> installed_extension list \<Rightarrow> required_verification" where
  "verifyRequiredInProdInstalled entries rows =
     (let live_rows = filter (\<lambda>r. live r) rows;
          installed = (\<lambda>e. re_packageName e \<in> ix_packageName ` set live_rows)
      in \<lparr>rq_required = readRequiredInProdPackages entries,
          rq_installed = map re_packageName (filter installed entries),
          rq_missing = map re_packageName (filter (\<lambda>e. \<not> installed e) entries),
          rq_mismatched = concat (map (entry_mismatches live_rows) (filter installed entries))\<rparr>)"

section \<open>What the ranges mean\<close>

lemma split_on_digits:
  assumes "list_all is_digit s"
  shows "split_on (CHR ''.'') s = [s]" and "split_on (CHR ''.'') (s @ CHR ''.'' # r) = s # split_on (CHR ''.'') r"
  using assms by (induction s) (auto simp: is_digit_def)

definition show_triple :: "triple \<Rightarrow> string" where
  "show_triple v = (case v of (a, b, c) \<Rightarrow> show_nat a @ ''.'' @ show_nat b @ ''.'' @ show_nat c)"

lemma digits_show [simp]: "digits (show_nat n)"
  by (simp add: digits_def show_nat_digits)

lemma split_triple: "split_on (CHR ''.'') (show_triple (a, b, c)) = [show_nat a, show_nat b, show_nat c]"
  by (simp add: show_triple_def split_on_digits show_nat_digits)

lemma digit_not_space: "is_digit c \<Longrightarrow> \<not> is_space c"
  by (auto simp: is_digit_def is_space_def Let_def)

lemma trim_id: "s \<noteq> [] \<Longrightarrow> \<not> is_space (hd s) \<Longrightarrow> \<not> is_space (last s) \<Longrightarrow> js_trim s = s"
  by (simp add: js_trim_def dropWhile_eq_self_iff [THEN iffD2] hd_rev)

lemma show_nat_ends: "\<not> is_space (hd (show_nat n))" "\<not> is_space (last (show_nat n))" "is_digit (hd (show_nat n))"
  using show_nat_digits [of n] by (auto simp: list_all_iff intro!: digit_not_space)

lemma show_triple_ends:
  "show_triple v \<noteq> []" "is_digit (hd (show_triple v))" "\<not> is_space (last (show_triple v))"
  by (cases v; simp add: show_triple_def show_nat_ends)+

lemma op_of_digit: "s \<noteq> [] \<Longrightarrow> is_digit (hd s) \<Longrightarrow> range_op_of s = (OpEq, s)"
  by (cases s) (auto simp: range_op_of_def is_digit_def)

definition op_text :: "range_op \<Rightarrow> string" where
  "op_text op = (case op of OpCaret \<Rightarrow> ''^'' | OpTilde \<Rightarrow> ''~'' | OpGe \<Rightarrow> ''>='' | OpEq \<Rightarrow> ''='')"

lemma op_of_text: "range_op_of (op_text op @ s) = (op, s)"
  by (cases op) (simp_all add: op_text_def range_op_of_def)

lemma op_text_trim:
  "s \<noteq> [] \<Longrightarrow> is_digit (hd s) \<Longrightarrow> \<not> is_space (last s) \<Longrightarrow> js_trim (op_text op @ s) = op_text op @ s"
  by (rule trim_id) (cases op; simp add: op_text_def is_space_def Let_def)+

lemma no_leading_space: "s \<noteq> [] \<Longrightarrow> is_digit (hd s) \<Longrightarrow> dropWhile is_space s = s"
  by (cases s) (auto dest: digit_not_space)

lemma parse_show_triple [simp]: "parseTriple (show_triple v) = Some v"
proof -
  obtain a b c where v: "v = (a, b, c)" by (cases v) auto
  have "js_trim (show_triple v) = show_triple v"
    using show_triple_ends [of v] by (intro trim_id) (auto dest: digit_not_space)
  then show ?thesis by (simp add: parseTriple_def v split_triple)
qed

lemma satisfies_bounds:
  assumes "s \<noteq> []" and "is_digit (hd s)" and "\<not> is_space (last s)" and "range_parts s = Some (x, y, z)"
  shows "satisfiesRequiredVersionRange (show_triple v) (op_text op @ s) \<longleftrightarrow>
     (case bounds_of op x y z of (lower, upper) \<Rightarrow>
        \<not> triple_less v lower \<and> (case upper of None \<Rightarrow> True | Some u \<Rightarrow> triple_less v u))"
    and "satisfiesRequiredVersionRange (show_triple v) s \<longleftrightarrow>
     (case bounds_of OpEq x y z of (lower, upper) \<Rightarrow>
        \<not> triple_less v lower \<and> (case upper of None \<Rightarrow> True | Some u \<Rightarrow> triple_less v u))"
proof -
  have "op_text op @ s \<noteq> ''*''" "s \<noteq> ''*''"
    using assms(1,2) by (cases op; cases s; auto simp: op_text_def is_digit_def)+
  then show "satisfiesRequiredVersionRange (show_triple v) (op_text op @ s) \<longleftrightarrow>
     (case bounds_of op x y z of (lower, upper) \<Rightarrow>
        \<not> triple_less v lower \<and> (case upper of None \<Rightarrow> True | Some u \<Rightarrow> triple_less v u))"
    and "satisfiesRequiredVersionRange (show_triple v) s \<longleftrightarrow>
     (case bounds_of OpEq x y z of (lower, upper) \<Rightarrow>
        \<not> triple_less v lower \<and> (case upper of None \<Rightarrow> True | Some u \<Rightarrow> triple_less v u))"
    using assms trim_id [OF assms(1) digit_not_space [OF assms(2)] assms(3)]
    by (simp_all add: satisfiesRequiredVersionRange_def requiredRangeBounds_def op_text_trim op_of_text op_of_digit
          no_leading_space split: prod.split)
qed

lemma range_parts_show:
  "range_parts (show_triple (x, y, z)) = Some (x, Some y, Some z)"
  "range_parts (show_nat x) = Some (x, None, None)"
  "range_parts (show_nat x @ ''.'' @ show_nat y) = Some (x, Some y, None)"
  by (simp_all add: range_parts_def split_triple split_on_digits show_nat_digits component_def)

lemmas bounds_show =
  satisfies_bounds [OF show_triple_ends range_parts_show(1)]
  satisfies_bounds [OF show_nat_nonempty(1) show_nat_ends(3,2) range_parts_show(2)]

lemma caret_range:
  "satisfiesRequiredVersionRange (show_triple (a, b, c)) (''^'' @ show_triple (x, y, z)) \<longleftrightarrow>
     \<not> triple_less (a, b, c) (x, y, z)
     \<and> (if x \<noteq> 0 then a = x else if y \<noteq> 0 then a = 0 \<and> b = y else a = 0 \<and> b = 0 \<and> c = z)"
proof -
  have "satisfiesRequiredVersionRange (show_triple (a, b, c)) (''^'' @ show_triple (x, y, z)) \<longleftrightarrow>
     \<not> triple_less (a, b, c) (x, y, z)
     \<and> triple_less (a, b, c) (if 0 < x then (x + 1, 0, 0) else if 0 < y then (0, y + 1, 0) else (0, 0, z + 1))"
    using bounds_show(1) [of "(a, b, c)" OpCaret x y z] by (simp add: op_text_def bounds_of_def)
  then show ?thesis by (cases "x = 0"; cases "y = 0"; simp; arith)
qed

lemma tilde_range:
  "satisfiesRequiredVersionRange (show_triple (a, b, c)) (''~'' @ show_triple (x, y, z)) \<longleftrightarrow> a = x \<and> b = y \<and> z \<le> c"
  using bounds_show(1) [of "(a, b, c)" OpTilde x y z] by (simp add: op_text_def bounds_of_def) arith

lemma lower_range:
  "satisfiesRequiredVersionRange (show_triple (a, b, c)) (''>='' @ show_triple (x, y, z)) \<longleftrightarrow> \<not> triple_less (a, b, c) (x, y, z)"
  using bounds_show(1) [of "(a, b, c)" OpGe x y z] by (simp add: op_text_def bounds_of_def)

lemma exact_range:
  "satisfiesRequiredVersionRange (show_triple (a, b, c)) (show_triple (x, y, z)) \<longleftrightarrow> a = x \<and> b = y \<and> c = z"
  using bounds_show(2) [of "(a, b, c)" x y z] by (simp add: bounds_of_def) arith

lemma major_range: "satisfiesRequiredVersionRange (show_triple (a, b, c)) (show_nat x) \<longleftrightarrow> a = x"
  using bounds_show(4) [of "(a, b, c)" x] by (simp add: bounds_of_def) arith

lemma minor_range:
  "satisfiesRequiredVersionRange (show_triple (a, b, c)) (show_nat x @ ''.'' @ show_nat y) \<longleftrightarrow> a = x \<and> b = y"
proof -
  have "show_nat x @ ''.'' @ show_nat y \<noteq> []" "is_digit (hd (show_nat x @ ''.'' @ show_nat y))"
    "\<not> is_space (last (show_nat x @ ''.'' @ show_nat y))" by (simp_all add: show_nat_ends)
  from satisfies_bounds(2) [OF this range_parts_show(3), of "(a, b, c)"] show ?thesis
    by (simp add: bounds_of_def) arith
qed

text \<open>
  C27. The range check of the host on rendered versions and ranges: a caret range admits the versions from its base on that
  agree with it up to the leftmost non-zero component, a tilde range those that agree on major and minor, an exact
  version only itself, a shorter version those it is a prefix of, and a lower bound everything from it on; anything that
  is no concrete version satisfies no range.
\<close>

theorem required_range_exact:
  "(satisfiesRequiredVersionRange (show_triple (a, b, c)) (''^'' @ show_triple (x, y, z)) \<longleftrightarrow>
     \<not> triple_less (a, b, c) (x, y, z)
     \<and> (if x \<noteq> 0 then a = x else if y \<noteq> 0 then a = 0 \<and> b = y else a = 0 \<and> b = 0 \<and> c = z))
   \<and> (satisfiesRequiredVersionRange (show_triple (a, b, c)) (''~'' @ show_triple (x, y, z)) \<longleftrightarrow> a = x \<and> b = y \<and> z \<le> c)
   \<and> (satisfiesRequiredVersionRange (show_triple (a, b, c)) (''>='' @ show_triple (x, y, z)) \<longleftrightarrow>
        \<not> triple_less (a, b, c) (x, y, z))
   \<and> (satisfiesRequiredVersionRange (show_triple (a, b, c)) (show_triple (x, y, z)) \<longleftrightarrow> a = x \<and> b = y \<and> c = z)
   \<and> (satisfiesRequiredVersionRange (show_triple (a, b, c)) (show_nat x @ ''.'' @ show_nat y) \<longleftrightarrow> a = x \<and> b = y)
   \<and> (satisfiesRequiredVersionRange (show_triple (a, b, c)) (show_nat x) \<longleftrightarrow> a = x)
   \<and> \<not> (satisfiesRequiredVersionRange v r \<and> parseTriple v = None)"
  by (intro conjI caret_range tilde_range lower_range exact_range minor_range major_range)
    (auto simp: satisfiesRequiredVersionRange_def split: option.splits)

end
