(* ===== verification/Ext_Dispatch.thy ===== *)
theory Ext_Dispatch
  imports Ext_Store Ext_Closure Ext_Versions
begin

text \<open>
  The dispatcher of extension operations, \<^verbatim>\<open>packages/extensions/src/index.ts\<close>: the registry of handlers, the guards, and
  installation, update, uninstallation, archiving, restoring and forced deletion. The handlers, the agents package, the
  hooks (\<^verbatim>\<open>activate-hook.ts\<close> and the two teardown hooks) and the journal of the pipeline belong to the host: they are
  parameters over a state \<open>'h\<close>. A handler that throws returns its message. The installation lock makes the operations on
  a package sequential; whether the manifest table can be read is fixed during an operation; logging is left out.
\<close>

section \<open>The host\<close>

record package_ref =
  pr_registryUrl :: string
  pr_packageName :: string
  pr_version :: string

record dispatch_actor =
  da_userId :: "ident option"
  da_orgId :: "ident option"

type_synonym 'h world = "manifest_db \<times> 'h"
type_synonym 'h handler_op = "package_ref \<Rightarrow> dispatch_actor \<Rightarrow> 'h world \<Rightarrow> string option \<times> 'h world"

record 'h kind_handler =
  kh_typeId :: string
  kh_install :: "'h handler_op"
  kh_update :: "'h handler_op"
  kh_uninstall :: "'h handler_op"
  kh_archive :: "'h handler_op"
  kh_restore :: "'h handler_op"

record activate_result =
  ar_activated :: bool
  ar_finalized :: "bool option"
  ar_rolledBack :: "bool option"
  ar_rollbackComplete :: "bool option"

record dependent_template =
  dt_name :: "string option"
  dt_packageName :: "string option"

text \<open>The hook may be absent; the result of a hook that throws is \<open>None\<close>.\<close>

record 'h dispatch_host =
  dh_readable :: bool
  dh_systemExtensions :: "string list"
  dh_requiredEntries :: "required_entry list"
  dh_satisfies :: range_test
  dh_newId :: ident
  dh_phase :: "'h \<Rightarrow> phase_reader"
  dh_dependents :: "string \<Rightarrow> 'h \<Rightarrow> dependent_template list"
  dh_runs :: "string \<Rightarrow> 'h \<Rightarrow> nat"
  dh_template :: "string \<Rightarrow> 'h \<Rightarrow> ident option"
  dh_audit :: "package_ref \<Rightarrow> dispatch_actor \<Rightarrow> 'h \<Rightarrow> string option \<times> 'h"
  dh_removeRuns :: "ident \<Rightarrow> 'h \<Rightarrow> 'h"
  dh_activate :: "(string \<Rightarrow> ident option \<Rightarrow> string \<Rightarrow> 'h world \<Rightarrow> activate_result option \<times> 'h world) option"
  dh_capabilityTeardown :: "string \<Rightarrow> 'h \<Rightarrow> 'h"
  dh_dataTeardown :: "string \<Rightarrow> 'h \<Rightarrow> 'h"

datatype dispatch_error =
    NoHandler
  | StoreUnreadable
  | LockedRow
  | ClosureRefused closure_error
  | ActiveDependent string
  | HandlerThrew string
  | TransitionThrew lifecycle_error
  | PinRefused string
  | RowNotEnsured
  | NotFinalized
  | NotHotActivated
  | RollbackIncomplete
  | UpdateRolledBack
  | FinalizedNotActivated
  | NotReregistered
  | AuditThrew string

definition fireExtensionActivate ::
  "'h dispatch_host \<Rightarrow> string \<Rightarrow> ident option \<Rightarrow> string \<Rightarrow> 'h world \<Rightarrow> activate_result \<times> 'h world" where
  "fireExtensionActivate H packageName org version w =
     (let failed = \<lparr>ar_activated = False, ar_finalized = None, ar_rolledBack = None, ar_rollbackComplete = None\<rparr>
      in case dh_activate H of
           None \<Rightarrow> (failed, w)
         | Some hook \<Rightarrow> (case hook packageName org version w of (None, w') \<Rightarrow> (failed, w') | (Some r, w') \<Rightarrow> (r, w')))"

text \<open>The environment of the primitive, with the journal of the host's state.\<close>

definition env_at :: "'h dispatch_host \<Rightarrow> ext_env \<Rightarrow> 'h \<Rightarrow> ext_env" where
  "env_at H E h = E\<lparr>xe_phase := dh_phase H h\<rparr>"

section \<open>The registry of handlers\<close>

type_synonym 'h registry = "string \<Rightarrow> 'h kind_handler option"

definition register :: "'h kind_handler \<Rightarrow> 'h registry \<Rightarrow> 'h registry" where
  "register handler R = R(kh_typeId handler \<mapsto> handler)"

definition registerIfAbsent :: "'h kind_handler \<Rightarrow> 'h registry \<Rightarrow> 'h registry" where
  "registerIfAbsent handler R = (if R (kh_typeId handler) \<noteq> None then R else R(kh_typeId handler \<mapsto> handler))"

definition deriveTypeId :: "string option \<Rightarrow> string option" where
  "deriveTypeId kind =
     (case kind of None \<Rightarrow> Some ''agent'' | Some k \<Rightarrow> if k \<in> set EXTENSION_KINDS then Some k else None)"

section \<open>Guards\<close>

definition isSystemExtension :: "'h dispatch_host \<Rightarrow> string \<Rightarrow> bool" where
  "isSystemExtension H name \<longleftrightarrow> name \<in> set (dh_systemExtensions H)"

definition assertNoLockedCanonicalRow :: "'h dispatch_host \<Rightarrow> string \<Rightarrow> manifest_db \<Rightarrow> dispatch_error option" where
  "assertNoLockedCanonicalRow H name s =
     (if \<not> dh_readable H then (if isSystemExtension H name then Some LockedRow else None)
      else if list_ex (\<lambda>r. ix_status r = ExLocked) (readInstalledExtensionsByPackageName name s) \<or> isSystemExtension H name
      then Some LockedRow else None)"

definition assertCanonicalArchiveClosure :: "'h dispatch_host \<Rightarrow> string \<Rightarrow> manifest_db \<Rightarrow> dispatch_error option" where
  "assertCanonicalArchiveClosure H name s =
     (if \<not> dh_readable H then None
      else
        (case find (\<lambda>r. ix_packageName r = name) (mf_rows s) of
           None \<Rightarrow> None
         | Some target \<Rightarrow> map_option ClosureRefused (assertArchiveDoesNotBreakClosure target (mf_rows s))))"

fun restore_check :: "range_test \<Rightarrow> installed_extension list \<Rightarrow> installed_extension list \<Rightarrow> closure_error option" where
  "restore_check sat rows [] = None"
| "restore_check sat rows (target # targets) =
     (case assertInstallClosure sat rows (ix_organizationId target) target of
        Inl err \<Rightarrow> Some err | Inr _ \<Rightarrow> restore_check sat rows targets)"

definition assertCanonicalRestoreClosure :: "'h dispatch_host \<Rightarrow> string \<Rightarrow> manifest_db \<Rightarrow> dispatch_error option" where
  "assertCanonicalRestoreClosure H name s =
     (if \<not> dh_readable H then None
      else map_option ClosureRefused
             (restore_check (dh_satisfies H) (mf_rows s)
                (filter (\<lambda>r. ix_packageName r = name \<and> ix_status r = ExArchived) (mf_rows s))))"

text \<open>\<open>Inr\<close>: whether an archived dependent exists.\<close>

definition checkDependents :: "'h dispatch_host \<Rightarrow> string \<Rightarrow> 'h world \<Rightarrow> dispatch_error + bool" where
  "checkDependents H name w =
     (case w of (s, h) \<Rightarrow>
        (let dependents = dh_dependents H name h
         in if dependents = [] then Inr False
            else if \<not> dh_readable H then Inl StoreUnreadable
            else
              (let depNames = List.map_filter (\<lambda>d. if truthy (dt_packageName d) then dt_packageName d else None) dependents;
                   statusMap = readEffectiveStatusByPackageNames depNames s;
                   active = (\<lambda>d. case dt_packageName d of
                                   Some p \<Rightarrow> if p \<noteq> [] then nullish (statusMap p) True else True
                                 | None \<Rightarrow> True)
               in case find active dependents of
                    Some d \<Rightarrow> Inl (ActiveDependent (nullish (dt_name d) (nullish (dt_packageName d) ''an active extension'')))
                  | None \<Rightarrow> Inr (list_ex (\<lambda>d. \<not> active d) dependents))))"

definition extensionHasBeenUsed :: "'h dispatch_host \<Rightarrow> string \<Rightarrow> 'h \<Rightarrow> bool" where
  "extensionHasBeenUsed H name h \<longleftrightarrow> 0 < dh_runs H name h"

section \<open>Keeping the manifest in step\<close>

definition SYNC_OPTS :: transition_opts where
  "SYNC_OPTS = \<lparr>to_roles = None, to_allowUnlock = False\<rparr>"

fun transition_rows :: "ext_env \<Rightarrow> lifecycle_op \<Rightarrow> installed_extension list \<Rightarrow> manifest_db \<Rightarrow> lifecycle_error option \<times> manifest_db" where
  "transition_rows E op [] s = (None, s)"
| "transition_rows E op (row # rows) s =
     (case transitionExtensionLifecycle E (ix_id row) op SYNC_OPTS s of
        (Inl err, s') \<Rightarrow> (Some err, s') | (Inr _, s') \<Rightarrow> transition_rows E op rows s')"

definition syncCanonicalManifestTransition ::
  "'h dispatch_host \<Rightarrow> ext_env \<Rightarrow> string \<Rightarrow> lifecycle_op \<Rightarrow> manifest_db \<Rightarrow> dispatch_error option \<times> manifest_db" where
  "syncCanonicalManifestTransition H E name op s =
     (if \<not> dh_readable H then (Some StoreUnreadable, s)
      else (case transition_rows E op (readInstalledExtensionsByPackageName name s) s of
              (err, s') \<Rightarrow> (map_option TransitionThrew err, s')))"

record install_ensure =
  en_needsPipeline :: bool
  en_rowId :: "ident option"
  en_ownsRollback :: bool

definition NO_ROW :: install_ensure where
  "NO_ROW = \<lparr>en_needsPipeline = False, en_rowId = None, en_ownsRollback = False\<rparr>"

definition KINDS_USING_ACTIVATE_HOOK :: "string list" where
  "KINDS_USING_ACTIVATE_HOOK = [''connector'']"

definition isVerdaccioBackedRef :: "package_ref \<Rightarrow> bool" where
  "isVerdaccioBackedRef ref \<longleftrightarrow> starts_with (pr_packageName ref) ''@'' \<or> pr_version ref \<noteq> []"

text \<open>The archived rows are re-activated in turn, a refusal is swallowed; the last re-activated row is returned.\<close>

fun reactivate_rows :: "ext_env \<Rightarrow> installed_extension list \<Rightarrow> ident option \<Rightarrow> manifest_db \<Rightarrow> ident option \<times> manifest_db" where
  "reactivate_rows E [] latest s = (latest, s)"
| "reactivate_rows E (row # rows) latest s =
     (if ix_status row = ExArchived
      then (case transitionExtensionLifecycle E (ix_id row) OpActivate SYNC_OPTS s of
              (Inl _, s') \<Rightarrow> reactivate_rows E rows latest s'
            | (Inr _, s') \<Rightarrow> reactivate_rows E rows (Some (ix_id row)) s')
      else reactivate_rows E rows latest s)"

definition placeholder_source :: "package_ref \<Rightarrow> json" where
  "placeholder_source ref =
     JObj [(''type'', JStr ''verdaccio''),
           (''registryUrl'', JStr (if pr_registryUrl ref \<noteq> [] then pr_registryUrl ref else ''http://localhost:4873'')),
           (''packageName'', JStr (pr_packageName ref)),
           (''version'', JStr (if pr_version ref \<noteq> [] then pr_version ref else ''0.0.0'')),
           (''integrity'', JStr ''dispatcher-install'')]"

definition placeholder_row :: "'h dispatch_host \<Rightarrow> package_ref \<Rightarrow> extension_kind \<Rightarrow> ident option \<Rightarrow> installed_extension" where
  "placeholder_row H ref kind org =
     \<lparr>ix_id = dh_newId H, ix_packageName = pr_packageName ref,
      ix_ownerLevel = (if truthy org then OwnOrganization else OwnPlatform), ix_ownerId = org, ix_organizationId = org,
      ix_kind = kind, ix_status = ExActive, ix_source = placeholder_source ref,
      ix_requiredInProd = isPackageRequiredInProd (dh_requiredEntries H) (pr_packageName ref),
      ix_dependencies = [], ix_manifestHash = None, ix_createdAt = 0, ix_updatedAt = 0\<rparr>"

text \<open>The rows read before the re-activation are the ones the later decisions look at. \<open>Inl\<close>: the operation throws.\<close>

definition ensure_existing ::
  "ext_env \<Rightarrow> string \<Rightarrow> bool \<Rightarrow> installed_extension list \<Rightarrow> manifest_db \<Rightarrow> install_ensure \<times> manifest_db" where
  "ensure_existing E kind is_update existing s =
     (let (reactivated, s') = reactivate_rows E existing None s;
          live_row = find (\<lambda>r. live r) existing
      in (case find (isNonFinalizedLiveRowAware (xe_phase E)) existing of
            Some broken \<Rightarrow> \<lparr>en_needsPipeline = True, en_rowId = Some (ix_id broken), en_ownsRollback = True\<rparr>
          | None \<Rightarrow>
              (case reactivated of
                 Some i \<Rightarrow> \<lparr>en_needsPipeline = True, en_rowId = Some i, en_ownsRollback = False\<rparr>
               | None \<Rightarrow>
                   (case live_row of
                      Some r \<Rightarrow>
                        if is_update \<or> kind \<in> set KINDS_USING_ACTIVATE_HOOK
                        then \<lparr>en_needsPipeline = True, en_rowId = Some (ix_id r), en_ownsRollback = False\<rparr> else NO_ROW
                    | None \<Rightarrow> NO_ROW)), s'))"

definition syncCanonicalManifestInstall ::
  "'h dispatch_host \<Rightarrow> ext_env \<Rightarrow> string \<Rightarrow> package_ref \<Rightarrow> ident option \<Rightarrow> bool \<Rightarrow> manifest_db \<Rightarrow>
   (dispatch_error + install_ensure) \<times> manifest_db" where
  "syncCanonicalManifestInstall H E kind ref org is_update s =
     (let failed = (if kind \<in> set KINDS_USING_ACTIVATE_HOOK then Inl RowNotEnsured else Inr NO_ROW);
          existing = filter (\<lambda>r. ix_organizationId r = org) (readInstalledExtensionsByPackageName (pr_packageName ref) s);
          required = isPackageRequiredInProd (dh_requiredEntries H) (pr_packageName ref);
          status = (if required \<and> \<not> xe_dev E then ExLocked else ExActive)
      in if \<not> isVerdaccioBackedRef ref then (Inr NO_ROW, s)
         else if \<not> dh_readable H then (failed, s)
         else if existing \<noteq> []
         then (case ensure_existing E kind is_update existing s of (e, s') \<Rightarrow> (Inr e, s'))
         else
           (case cast_kind kind of
              None \<Rightarrow> (failed, s)
            | Some k \<Rightarrow>
                (case installExtensionManifest E (placeholder_row H ref k org) (Some status) s of
                   (Inl _, s') \<Rightarrow> (failed, s')
                 | (Inr row, s') \<Rightarrow>
                     (Inr \<lparr>en_needsPipeline = True, en_rowId = Some (dh_newId H), en_ownsRollback = True\<rparr>, s'))))"

definition rollbackNonFinalizedCanonicalRow :: "'h dispatch_host \<Rightarrow> ext_env \<Rightarrow> ident \<Rightarrow> 'h world \<Rightarrow> 'h world" where
  "rollbackNonFinalizedCanonicalRow H E i w =
     (case w of (s, h) \<Rightarrow>
        if \<not> dh_readable H then (s, h)
        else
          (case readInstalledExtensionById i s of
             None \<Rightarrow> (s, h)
           | Some row \<Rightarrow>
               if \<not> isNonFinalizedLiveRowAware (dh_phase H h) row then (s, h)
               else (snd (deleteNonFinalizedCanonicalRow (env_at H E h) i s), h)))"

definition rollback_owned :: "'h dispatch_host \<Rightarrow> ext_env \<Rightarrow> install_ensure \<Rightarrow> 'h world \<Rightarrow> 'h world" where
  "rollback_owned H E ensure w =
     (case en_rowId ensure of
        Some i \<Rightarrow> if en_ownsRollback ensure \<and> i \<noteq> [] then rollbackNonFinalizedCanonicalRow H E i w else w
      | None \<Rightarrow> w)"

section \<open>Installation and update\<close>

definition pipeline_outcome ::
  "'h dispatch_host \<Rightarrow> ext_env \<Rightarrow> install_ensure \<Rightarrow> activate_result \<Rightarrow> 'h world \<Rightarrow> dispatch_error option \<times> 'h world" where
  "pipeline_outcome H E ensure result w =
     (if ar_finalized result = Some False then (Some NotFinalized, rollback_owned H E ensure w)
      else if ar_finalized result = None then (Some NotHotActivated, rollback_owned H E ensure w)
      else if ar_rolledBack result = Some True
      then (Some (if ar_rollbackComplete result \<noteq> Some True then RollbackIncomplete else UpdateRolledBack), w)
      else if \<not> ar_activated result then (Some FinalizedNotActivated, w)
      else (None, w))"

definition install_with_handler ::
  "'h dispatch_host \<Rightarrow> ext_env \<Rightarrow> 'h kind_handler \<Rightarrow> string \<Rightarrow> package_ref \<Rightarrow> dispatch_actor \<Rightarrow> bool \<Rightarrow> 'h world \<Rightarrow>
   dispatch_error option \<times> 'h world" where
  "install_with_handler H E handler typeId ref actor is_update w =
     (case w of (s, h) \<Rightarrow>
        (case syncCanonicalManifestInstall H (env_at H E h) typeId ref (da_orgId actor) is_update s of
           (Inl err, s1) \<Rightarrow> (Some err, s1, h)
         | (Inr ensure, s1) \<Rightarrow>
             (case (if is_update then kh_update handler ref actor (s1, h) else kh_install handler ref actor (s1, h)) of
                (Some msg, w2) \<Rightarrow> (Some (HandlerThrew msg), rollback_owned H E ensure w2)
              | (None, w2) \<Rightarrow>
                  if \<not> en_needsPipeline ensure \<or> typeId \<notin> set KINDS_USING_ACTIVATE_HOOK then (None, w2)
                  else (case fireExtensionActivate H (pr_packageName ref) (da_orgId actor) (pr_version ref) w2 of
                          (result, w3) \<Rightarrow> pipeline_outcome H E ensure result w3))))"

definition runHostInstall ::
  "'h registry \<Rightarrow> 'h dispatch_host \<Rightarrow> ext_env \<Rightarrow> string \<Rightarrow> package_ref \<Rightarrow> dispatch_actor \<Rightarrow> bool \<Rightarrow> 'h world \<Rightarrow>
   dispatch_error option \<times> 'h world" where
  "runHostInstall R H E typeId ref actor is_update w =
     (case R typeId of
        None \<Rightarrow> (Some NoHandler, w)
      | Some handler \<Rightarrow>
          (case checkRequiredExtensionVersionPin (dh_requiredEntries H) (pr_packageName ref) (Some (pr_version ref)) of
             Some r \<Rightarrow> (Some (PinRefused r), w)
           | None \<Rightarrow>
               if is_update \<and> pr_version ref \<noteq> [] \<and> \<not> dh_readable H then (Some StoreUnreadable, w)
               else
                 (case (if is_update \<and> pr_version ref \<noteq> []
                        then assertUpdateDoesNotBreakDependents (dh_satisfies H) (pr_packageName ref) (pr_version ref)
                               (mf_rows (fst w)) (Some (da_orgId actor))
                        else None) of
                    Some err \<Rightarrow> (Some (ClosureRefused err), w)
                  | None \<Rightarrow> install_with_handler H E handler typeId ref actor is_update w)))"

section \<open>Uninstallation, archiving, restoring, forced deletion\<close>

text \<open>A handler operation followed by the transition of the manifest; what comes after runs only where both succeed.\<close>

definition handled_transition ::
  "'h dispatch_host \<Rightarrow> ext_env \<Rightarrow> 'h handler_op \<Rightarrow> lifecycle_op \<Rightarrow> package_ref \<Rightarrow> dispatch_actor \<Rightarrow> ('h world \<Rightarrow> dispatch_error option \<times> 'h world) \<Rightarrow>
   'h world \<Rightarrow> dispatch_error option \<times> 'h world" where
  "handled_transition H E act op ref actor k w =
     (case act ref actor w of
        (Some msg, w1) \<Rightarrow> (Some (HandlerThrew msg), w1)
      | (None, (s1, h1)) \<Rightarrow>
          (case syncCanonicalManifestTransition H (env_at H E h1) (pr_packageName ref) op s1 of
             (Some err, s2) \<Rightarrow> (Some err, s2, h1)
           | (None, s2) \<Rightarrow> k (s2, h1)))"

definition teardown :: "'h dispatch_host \<Rightarrow> bool \<Rightarrow> string \<Rightarrow> 'h world \<Rightarrow> dispatch_error option \<times> 'h world" where
  "teardown H durable name w =
     (case w of (s, h) \<Rightarrow>
        (let h1 = dh_capabilityTeardown H name h in (None, s, if durable then dh_dataTeardown H name h1 else h1)))"

definition guards :: "'h dispatch_host \<Rightarrow> string \<Rightarrow> manifest_db \<Rightarrow> dispatch_error option" where
  "guards H name s =
     (case assertNoLockedCanonicalRow H name s of
        Some err \<Rightarrow> Some err | None \<Rightarrow> assertCanonicalArchiveClosure H name s)"

definition uninstall ::
  "'h registry \<Rightarrow> 'h dispatch_host \<Rightarrow> ext_env \<Rightarrow> string \<Rightarrow> package_ref \<Rightarrow> dispatch_actor \<Rightarrow> 'h world \<Rightarrow> dispatch_error option \<times> 'h world" where
  "uninstall R H E typeId ref actor w =
     (let name = pr_packageName ref
      in case guards H name (fst w) of
           Some err \<Rightarrow> (Some err, w)
         | None \<Rightarrow>
             (case R typeId of
                None \<Rightarrow> (Some NoHandler, w)
              | Some handler \<Rightarrow>
                  (case checkDependents H name w of
                     Inl err \<Rightarrow> (Some err, w)
                   | Inr archivedDependentExists \<Rightarrow>
                       if extensionHasBeenUsed H name (snd w) \<or> archivedDependentExists
                       then handled_transition H E (kh_archive handler) OpArchive ref actor (teardown H False name) w
                       else handled_transition H E (kh_uninstall handler) OpUninstall ref actor (teardown H True name) w)))"

definition archive ::
  "'h registry \<Rightarrow> 'h dispatch_host \<Rightarrow> ext_env \<Rightarrow> string \<Rightarrow> package_ref \<Rightarrow> dispatch_actor \<Rightarrow> 'h world \<Rightarrow> dispatch_error option \<times> 'h world" where
  "archive R H E typeId ref actor w =
     (let name = pr_packageName ref
      in case guards H name (fst w) of
           Some err \<Rightarrow> (Some err, w)
         | None \<Rightarrow>
             (case R typeId of
                None \<Rightarrow> (Some NoHandler, w)
              | Some handler \<Rightarrow> handled_transition H E (kh_archive handler) OpArchive ref actor (teardown H False name) w))"

definition reregister :: "'h dispatch_host \<Rightarrow> string \<Rightarrow> package_ref \<Rightarrow> dispatch_actor \<Rightarrow> 'h world \<Rightarrow> dispatch_error option \<times> 'h world" where
  "reregister H typeId ref actor w =
     (if typeId \<notin> set KINDS_USING_ACTIVATE_HOOK then (None, w)
      else
        (case fireExtensionActivate H (pr_packageName ref) (da_orgId actor) (pr_version ref) w of
           (result, w') \<Rightarrow>
             (if ar_finalized result \<noteq> Some True \<or> \<not> ar_activated result then Some NotReregistered else None, w')))"

definition restore ::
  "'h registry \<Rightarrow> 'h dispatch_host \<Rightarrow> ext_env \<Rightarrow> string \<Rightarrow> package_ref \<Rightarrow> dispatch_actor \<Rightarrow> 'h world \<Rightarrow> dispatch_error option \<times> 'h world" where
  "restore R H E typeId ref actor w =
     (case assertCanonicalRestoreClosure H (pr_packageName ref) (fst w) of
        Some err \<Rightarrow> (Some err, w)
      | None \<Rightarrow>
          (case R typeId of
             None \<Rightarrow> (Some NoHandler, w)
           | Some handler \<Rightarrow> handled_transition H E (kh_restore handler) OpActivate ref actor (reregister H typeId ref actor) w))"

text \<open>The audit entry is written before anything is destroyed; the dangling references it lists are those of the host.\<close>

definition forceDelete ::
  "'h registry \<Rightarrow> 'h dispatch_host \<Rightarrow> ext_env \<Rightarrow> string \<Rightarrow> package_ref \<Rightarrow> dispatch_actor \<Rightarrow> 'h world \<Rightarrow> dispatch_error option \<times> 'h world" where
  "forceDelete R H E typeId ref actor w =
     (case w of (s, h) \<Rightarrow>
        (let name = pr_packageName ref
         in case assertNoLockedCanonicalRow H name s of
              Some err \<Rightarrow> (Some err, w)
            | None \<Rightarrow>
                (case R typeId of
                   None \<Rightarrow> (Some NoHandler, w)
                 | Some handler \<Rightarrow>
                     (case dh_audit H ref actor h of
                        (Some msg, h1) \<Rightarrow> (Some (AuditThrew msg), s, h1)
                      | (None, h1) \<Rightarrow>
                          (let h2 = (case dh_template H name h of None \<Rightarrow> h1 | Some t \<Rightarrow> dh_removeRuns H t h1)
                           in handled_transition H E (kh_uninstall handler) OpForceDelete ref actor
                                (teardown H True name) (s, h2))))))"

end
