(* ===== verification/Ext_StoreFacts.thy ===== *)
theory Ext_StoreFacts
  imports Ext_Store
begin

text \<open>
  Facts of the canonical manifest over histories of the lifecycle primitive: the table stays sound (identifiers and
  identities are unique, owners are well-formed, every row has a verified provenance), and a locked row stays and stays
  locked unless a platform administrator unlocks it.
\<close>

section \<open>Statements on one row\<close>

definition manifest_sound :: "manifest_db \<Rightarrow> bool" where
  "manifest_sound s \<longleftrightarrow>
     distinct (map ix_id (mf_rows s))
     \<and> (\<forall>a \<in> set (mf_rows s). \<forall>b \<in> set (mf_rows s). same_identity a b \<longrightarrow> ix_id a = ix_id b)
     \<and> (\<forall>r \<in> set (mf_rows s). platform_invariant r \<and> isExtensionSource (ix_source r))"

lemma soundI:
  assumes "distinct (map ix_id (mf_rows s))"
    and "\<And>a b. a \<in> set (mf_rows s) \<Longrightarrow> b \<in> set (mf_rows s) \<Longrightarrow> same_identity a b \<Longrightarrow> ix_id a = ix_id b"
    and "\<And>r. r \<in> set (mf_rows s) \<Longrightarrow> platform_invariant r \<and> isExtensionSource (ix_source r)"
  shows "manifest_sound s"
  using assms by (auto simp: manifest_sound_def)

lemma same_row:
  "manifest_sound s \<Longrightarrow> a \<in> set (mf_rows s) \<Longrightarrow> b \<in> set (mf_rows s) \<Longrightarrow> ix_id a = ix_id b \<Longrightarrow> a = b"
  unfolding manifest_sound_def by (metis distinct_map inj_onD)

lemma read_row: "manifest_sound s \<Longrightarrow> r \<in> set (mf_rows s) \<Longrightarrow> readInstalledExtensionById (ix_id r) s = Some r"
  unfolding readInstalledExtensionById_def
  by (cases "find (\<lambda>x. ix_id x = ix_id r) (mf_rows s)") (auto simp: find_None_iff dest!: find_SomeD intro: same_row)

lemma read_row_SomeD: "readInstalledExtensionById i s = Some r \<Longrightarrow> r \<in> set (mf_rows s) \<and> ix_id r = i"
  unfolding readInstalledExtensionById_def by (rule find_SomeD)

text \<open>A change that keeps the identity of a row.\<close>

definition keeps_identity :: "(installed_extension \<Rightarrow> installed_extension) \<Rightarrow> bool" where
  "keeps_identity f \<longleftrightarrow> (\<forall>r. ix_id (f r) = ix_id r \<and> same_identity (f r) r)"

lemma keeps_identity_simps [simp]:
  "keeps_identity (\<lambda>r. r\<lparr>ix_status := st\<rparr>)" "keeps_identity (\<lambda>r. r\<lparr>ix_source := src\<rparr>)"
  "keeps_identity (\<lambda>r. r\<lparr>ix_dependencies := ds\<rparr>)"
  by (simp_all add: keeps_identity_def same_identity_def)

definition touch :: "ext_env \<Rightarrow> ident \<Rightarrow> (installed_extension \<Rightarrow> installed_extension) \<Rightarrow> installed_extension \<Rightarrow> installed_extension" where
  "touch E i f r = (if ix_id r = i then (f r)\<lparr>ix_updatedAt := xe_now E\<rparr> else r)"

lemma update_row_rows:
  "mf_rows (snd (update_row E i f s)) = map (touch E i f) (mf_rows s)"
proof (cases "readInstalledExtensionById i s")
  case None
  then have "\<forall>r \<in> set (mf_rows s). ix_id r \<noteq> i" by (simp add: readInstalledExtensionById_def find_None_iff)
  then have "map (touch E i f) (mf_rows s) = mf_rows s" by (simp add: touch_def map_idI)
  with None show ?thesis by (simp add: update_row_def)
qed (simp add: update_row_def update_where_def touch_def)

lemma touch_id: "keeps_identity f \<Longrightarrow> ix_id (touch E i f r) = ix_id r \<and> same_identity (touch E i f r) r"
  by (simp add: touch_def keeps_identity_def same_identity_def)

lemma same_identity_trans:
  "same_identity a b \<Longrightarrow> same_identity c d \<Longrightarrow> same_identity a c \<Longrightarrow> same_identity b d"
  by (simp add: same_identity_def)

lemma platform_invariant_cong: "same_identity a b \<Longrightarrow> platform_invariant a = platform_invariant b"
  by (simp add: platform_invariant_def same_identity_def)

lemma update_row_sound:
  assumes "manifest_sound s" and "keeps_identity f"
    and "\<And>r. r \<in> set (mf_rows s) \<Longrightarrow> isExtensionSource (ix_source (f r))"
  shows "manifest_sound (snd (update_row E i f s))"
proof (rule soundI, goal_cases)
  case 1
  have "map ix_id (map (touch E i f) (mf_rows s)) = map ix_id (mf_rows s)" using touch_id [OF assms(2)] by simp
  then show ?case using assms(1) unfolding update_row_rows manifest_sound_def by metis
next
  case (2 a b)
  then obtain a0 b0 where rows: "a0 \<in> set (mf_rows s)" "b0 \<in> set (mf_rows s)" and a: "a = touch E i f a0"
    and b: "b = touch E i f b0" unfolding update_row_rows by auto
  have "same_identity a0 b0"
    using 2(3) touch_id [OF assms(2), of E i a0] touch_id [OF assms(2), of E i b0] unfolding a b
    by (simp add: same_identity_def)
  then have "ix_id a0 = ix_id b0" using assms(1) rows unfolding manifest_sound_def by blast
  then show ?case using touch_id [OF assms(2)] by (simp add: a b)
next
  case (3 r)
  then obtain r0 where r0: "r0 \<in> set (mf_rows s)" and r: "r = touch E i f r0" unfolding update_row_rows by auto
  then have "platform_invariant r0" "isExtensionSource (ix_source r0)" using assms(1) by (simp_all add: manifest_sound_def)
  moreover have "platform_invariant r = platform_invariant r0"
    using touch_id [OF assms(2), of E i r0] unfolding r by (intro platform_invariant_cong) simp
  moreover have "ix_source r = (if ix_id r0 = i then ix_source (f r0) else ix_source r0)" by (simp add: r touch_def)
  ultimately show ?case using assms(3) [OF r0] by simp
qed

lemma delete_row_sound: "manifest_sound s \<Longrightarrow> manifest_sound (delete_row i s)"
  by (auto simp: manifest_sound_def delete_row_def delete_where_def distinct_map intro: inj_on_subset)

lemma rows_delete_permissions [simp]: "mf_rows (deleteExtensionPermissions k i s) = mf_rows s"
  by (simp add: deleteExtensionPermissions_def)

lemma rows_delete_with_permissions: "mf_rows (delete_with_permissions E ext s) = mf_rows (delete_row (ix_id ext) s)"
  by (simp add: delete_with_permissions_def Let_def split: option.splits)

lemma sound_rows: "mf_rows s' = mf_rows s \<Longrightarrow> manifest_sound s' = manifest_sound s"
  by (simp add: manifest_sound_def)

lemma insert_row_sound:
  assumes "manifest_sound s" and "isExtensionSource (ix_source row)"
  shows "manifest_sound (snd (insert_row E row s))"
proof -
  define row' where "row' = row\<lparr>ix_ownerId := Some (platformizeOwnerId (ix_ownerLevel row) (ix_ownerId row)),
                      ix_createdAt := xe_now E, ix_updatedAt := xe_now E\<rparr>"
  show ?thesis
  proof (cases "insert_refused row' (mf_rows s)")
    case True
    then show ?thesis using assms(1) by (simp add: insert_row_def row'_def [symmetric])
  next
    case False
    then have "platform_invariant row'" and fresh: "\<forall>r \<in> set (mf_rows s). ix_id r \<noteq> ix_id row' \<and> \<not> same_identity r row'"
      by (auto simp: insert_refused_def list_ex_iff)
    moreover have "\<not> same_identity row' r" if "r \<in> set (mf_rows s)" for r
      using that fresh by (auto simp: same_identity_def)
    moreover have "isExtensionSource (ix_source row')" using assms(2) by (simp add: row'_def)
    ultimately have "manifest_sound (s\<lparr>mf_rows := mf_rows s @ [row']\<rparr>)"
      using assms(1) by (auto simp: manifest_sound_def)
    then show ?thesis using False by (simp add: insert_row_def row'_def [symmetric])
  qed
qed

section \<open>Histories\<close>

datatype manifest_command =
    CmdInstall installed_extension "lifecycle_status option"
  | CmdTransition ident lifecycle_op transition_opts
  | CmdSwitch ident json
  | CmdRecord ident "json list"
  | CmdRollback ident
  | CmdBootLock "string list" "string list"

fun run_command :: "ext_env \<Rightarrow> manifest_command \<Rightarrow> manifest_db \<Rightarrow> manifest_db" where
  "run_command E (CmdInstall row st) s = snd (installExtensionManifest E row st s)"
| "run_command E (CmdTransition i op opts) s = snd (transitionExtensionLifecycle E i op opts s)"
| "run_command E (CmdSwitch i src) s = snd (sourceSwitchExtension E i src s)"
| "run_command E (CmdRecord i deps) s = snd (recordExtensionDependencies E i deps s)"
| "run_command E (CmdRollback i) s = snd (deleteNonFinalizedCanonicalRow E i s)"
| "run_command E (CmdBootLock sys req) s = snd (lockSystemExtensionsAtBoot E sys req s)"

definition run_commands :: "(ext_env \<times> manifest_command) list \<Rightarrow> manifest_db \<Rightarrow> manifest_db" where
  "run_commands cs s = fold (\<lambda>(E, c). run_command E c) cs s"

lemma update_status_rows: "mf_rows (snd (update_status E i st s)) = map (touch E i (\<lambda>r. r\<lparr>ix_status := st\<rparr>)) (mf_rows s)"
  by (simp add: update_status_def update_row_rows)

text \<open>What a transition does to the table, whatever it answers.\<close>

lemma transition_rows_cases:
  obtains "mf_rows (snd (transitionExtensionLifecycle E i op opts s)) = mf_rows s"
  | ext st where "readInstalledExtensionById i s = Some ext"
      and "mf_rows (snd (transitionExtensionLifecycle E i op opts s)) = mf_rows (snd (update_status E i st s))"
      and "transitionMatrix (ix_status ext) op = Inr st \<or> st = ExArchived \<and> op = OpUninstall \<and> ix_status ext = ExActive"
      and "op = OpUnlock \<Longrightarrow> to_allowUnlock opts \<and> ''platform_admin'' \<in> set (nullish (to_roles opts) [])"
  | ext where "readInstalledExtensionById i s = Some ext" and "ix_status ext \<noteq> ExLocked"
      and "mf_rows (snd (transitionExtensionLifecycle E i op opts s)) = mf_rows (delete_row i s)"
proof (cases "readInstalledExtensionById i s")
  case None
  then show ?thesis using that(1) by (simp add: transitionExtensionLifecycle_def)
next
  case (Some ext)
  then have id: "ix_id ext = i" by (simp add: read_row_SomeD)
  let ?refused = "op = OpUnlock \<and> (\<not> to_allowUnlock opts \<or> ''platform_admin'' \<notin> set (nullish (to_roles opts) []))"
  have split: "snd (case x of (Inl err, s') \<Rightarrow> (Inl err, s') | (Inr r, s') \<Rightarrow> (Inr (Some r), s')) = snd x"
    for x :: "(lifecycle_error + installed_extension) \<times> manifest_db" by (cases x; cases "fst x") auto
  consider (refused) "?refused" | (err) e where "\<not> ?refused" "transitionMatrix (ix_status ext) op = Inl e"
    | (ok) st where "\<not> ?refused" "transitionMatrix (ix_status ext) op = Inr st"
    by (cases "transitionMatrix (ix_status ext) op") blast+
  then show ?thesis
  proof cases
    case refused
    then show ?thesis using Some that(1) by (simp add: transitionExtensionLifecycle_def)
  next
    case err
    then show ?thesis using Some that(1) unfolding transitionExtensionLifecycle_def by simp
  next
    case ok
    let ?gone = "op = OpUninstall \<or> op = OpForceDelete \<or> op = OpPurge \<or> op = OpRegistryRemove"
    consider "?gone" "ix_status ext = ExLocked"
      | (anchor) "?gone" "ix_status ext \<noteq> ExLocked" "op = OpUninstall" "isStaticBundleAnchorSource (ix_source ext)"
      | (delete) "?gone" "ix_status ext \<noteq> ExLocked" "\<not> (op = OpUninstall \<and> isStaticBundleAnchorSource (ix_source ext))"
      | (same) "\<not> ?gone" "st = ix_status ext \<and> op \<noteq> OpUpdate"
      | (update) "\<not> ?gone" "\<not> (st = ix_status ext \<and> op \<noteq> OpUpdate)" by blast
    then show ?thesis
    proof cases
      case 1
      then show ?thesis using Some ok that(1) unfolding transitionExtensionLifecycle_def by auto
    next
      case anchor
      show ?thesis
      proof (cases "ix_status ext = ExArchived")
        case True
        then show ?thesis using Some ok anchor that(1) unfolding transitionExtensionLifecycle_def by auto
      next
        case False
        with anchor have "ix_status ext = ExActive" by (cases "ix_status ext") auto
        moreover have "snd (transitionExtensionLifecycle E i op opts s) = snd (update_status E i ExArchived s)"
          using Some ok anchor False unfolding transitionExtensionLifecycle_def by (auto simp: split)
        ultimately show ?thesis using Some that(2) [of ext ExArchived] anchor by auto
      qed
    next
      case delete
      then have "snd (transitionExtensionLifecycle E i op opts s) = delete_with_permissions E ext s"
        using Some ok unfolding transitionExtensionLifecycle_def by auto
      then show ?thesis using Some that(3) delete(2) by (simp add: rows_delete_with_permissions id)
    next
      case same
      then show ?thesis using Some ok that(1) unfolding transitionExtensionLifecycle_def by auto
    next
      case update
      then have "snd (transitionExtensionLifecycle E i op opts s) = snd (update_status E i st s)"
        using Some ok unfolding transitionExtensionLifecycle_def by (auto simp: split)
      then show ?thesis using Some ok that(2) [of ext st] by auto
    qed
  qed
qed

text \<open>An invariant of the primitive's statements is an invariant of the locks set at boot.\<close>

lemma lock_rows_invariant:
  assumes "\<And>i s. P s \<Longrightarrow> P (snd (transitionExtensionLifecycle E i OpLock BOOT_OPTS s))" and "P s"
  shows "P (snd (lock_rows E rows s))"
  using assms(2)
proof (induction rows arbitrary: s)
  case (Cons row rows)
  from assms(1) [OF Cons.prems] have "P (snd (transitionExtensionLifecycle E (ix_id row) OpLock BOOT_OPTS s))" .
  then show ?case using Cons.IH Cons.prems
    by (fastforce split: prod.splits sum.splits)
qed simp

lemma boot_lock_invariant:
  assumes "\<And>i s. P s \<Longrightarrow> P (snd (transitionExtensionLifecycle E i OpLock BOOT_OPTS s))" and "P s"
  shows "P (snd (lockSystemExtensionsAtBoot E sys req s))"
proof -
  have "P (snd (lock_packages E ps s))" for ps
    using assms(2)
  proof (induction ps arbitrary: s)
    case (Cons p ps)
    have "P (snd (lockExtensionByPackageName E p s))"
      unfolding lockExtensionByPackageName_def by (rule lock_rows_invariant [OF assms(1) Cons.prems])
    then show ?case using Cons.IH by (fastforce split: prod.splits)
  qed simp
  then show ?thesis by (simp add: lockSystemExtensionsAtBoot_def)
qed

lemma update_status_sound: "manifest_sound s \<Longrightarrow> manifest_sound (snd (update_status E i st s))"
  unfolding update_status_def by (rule update_row_sound) (simp_all add: manifest_sound_def)

lemma transition_sound: "manifest_sound s \<Longrightarrow> manifest_sound (snd (transitionExtensionLifecycle E i op opts s))"
proof (rule transition_rows_cases [of E i op opts s])
  assume "manifest_sound s" and "mf_rows (snd (transitionExtensionLifecycle E i op opts s)) = mf_rows s"
  then show ?thesis using sound_rows by blast
next
  fix ext st
  assume "manifest_sound s" and "mf_rows (snd (transitionExtensionLifecycle E i op opts s)) = mf_rows (snd (update_status E i st s))"
  then show ?thesis using sound_rows update_status_sound by blast
next
  assume "manifest_sound s" and "mf_rows (snd (transitionExtensionLifecycle E i op opts s)) = mf_rows (delete_row i s)"
  then show ?thesis using sound_rows delete_row_sound by blast
qed

lemma command_sound:
  assumes "manifest_sound s"
  shows "manifest_sound (run_command E c s)"
proof (cases c)
  case (CmdInstall row st)
  then show ?thesis using assms
    by (auto simp: installExtensionManifest_def Let_def source_valid_iff intro!: insert_row_sound)
next
  case (CmdSwitch i src)
  then show ?thesis using assms
    by (auto simp: sourceSwitchExtension_def update_source_def source_valid_iff split: option.split intro!: update_row_sound)
next
  case (CmdRecord i deps)
  have "isExtensionSource (ix_source r)" if "r \<in> set (mf_rows s)" for r using that assms by (simp add: manifest_sound_def)
  then show ?thesis using CmdRecord assms
    by (auto simp: recordExtensionDependencies_def update_metadata_def split: option.split intro!: update_row_sound)
next
  case (CmdRollback i)
  then show ?thesis using assms by (auto simp: deleteNonFinalizedCanonicalRow_def delete_row_sound split: option.split)
next
  case (CmdBootLock sys req)
  then show ?thesis using boot_lock_invariant [where P = manifest_sound, OF transition_sound assms] by simp
qed (simp add: transition_sound [OF assms])

text \<open>
  C13. Whatever the sequence of operations of the lifecycle primitive, the manifest stays sound: identifiers and identities
  are unique, the sentinel owner appears exactly on platform and workspace rows, and every row has a verified provenance,
  without placeholders.
\<close>

theorem manifest_stays_sound:
  assumes "manifest_sound s"
  shows "manifest_sound (run_commands cs s)"
  unfolding run_commands_def using assms by (induction cs arbitrary: s) (auto intro: command_sound)

text \<open>A bundled package that production requires, in a table of its own.\<close>

definition sample_env :: ext_env where
  "sample_env = \<lparr>xe_now = 0, xe_dev = False, xe_phase = (\<lambda>_ _. None), xe_permissionsUp = True\<rparr>"

definition sample_anchor :: installed_extension where
  "sample_anchor =
     \<lparr>ix_id = ''r1'', ix_packageName = ''@acme/mail'', ix_ownerLevel = OwnPlatform, ix_ownerId = Some ''__platform__'',
      ix_organizationId = None, ix_kind = KConnector, ix_status = ExLocked,
      ix_source = staticBundleAnchorSource ''@acme/mail'' ''1.0.0'', ix_requiredInProd = True, ix_dependencies = [],
      ix_manifestHash = None, ix_createdAt = 0, ix_updatedAt = 0\<rparr>"

definition sample_manifest :: manifest_db where
  "sample_manifest = \<lparr>mf_rows = [sample_anchor], mf_policies = [], mf_coOwners = []\<rparr>"

lemma sample_manifest_sound: "manifest_sound sample_manifest"
  by (simp add: manifest_sound_def sample_manifest_def sample_anchor_def platform_invariant_def PLATFORM_OWNER_SENTINEL_def)

definition sample_history :: "(ext_env \<times> manifest_command) list" where
  "sample_history =
     [(sample_env, CmdTransition ''r1'' OpArchive BOOT_OPTS), (sample_env, CmdTransition ''r1'' OpForceDelete BOOT_OPTS),
      (sample_env, CmdInstall (sample_anchor\<lparr>ix_id := ''r2'', ix_packageName := ''@acme/crm''\<rparr>) None),
      (sample_env, CmdTransition ''r2'' OpActivate BOOT_OPTS)]"

lemma manifest_stays_sound_witness:
  "manifest_sound (run_commands sample_history sample_manifest)
   \<and> map ix_id (mf_rows (run_commands sample_history sample_manifest)) = [''r1'', ''r2'']"
proof
  show "manifest_sound (run_commands sample_history sample_manifest)"
    by (rule manifest_stays_sound [OF sample_manifest_sound])
  show "map ix_id (mf_rows (run_commands sample_history sample_manifest)) = [''r1'', ''r2'']" by code_simp
qed

section \<open>Locked rows\<close>

text \<open>The operation may take the lock of the row away: the rollback of an installation, or an authorized unlock.\<close>

fun may_unlock :: "ident \<Rightarrow> manifest_command \<Rightarrow> bool" where
  "may_unlock i (CmdRollback j) \<longleftrightarrow> j = i"
| "may_unlock i (CmdTransition j op opts) \<longleftrightarrow>
     j = i \<and> op = OpUnlock \<and> to_allowUnlock opts \<and> ''platform_admin'' \<in> set (nullish (to_roles opts) [])"
| "may_unlock i _ \<longleftrightarrow> False"

text \<open>The row is there, locked, under its identity.\<close>

definition held :: "installed_extension \<Rightarrow> manifest_db \<Rightarrow> bool" where
  "held r s \<longleftrightarrow> (\<exists>r' \<in> set (mf_rows s). ix_id r' = ix_id r \<and> ix_status r' = ExLocked \<and> same_identity r' r)"

lemma held_rows: "mf_rows s' = mf_rows s \<Longrightarrow> held r s' = held r s"
  by (simp add: held_def)

lemma held_touch:
  assumes "held r s" and "keeps_identity f" and "\<And>x. x \<in> set (mf_rows s) \<Longrightarrow> ix_id x = i \<Longrightarrow> ix_status x = ExLocked \<Longrightarrow>
     ix_id x = ix_id r \<Longrightarrow> ix_status (f x) = ExLocked"
  shows "held r (snd (update_row E i f s))"
proof -
  obtain x where x: "x \<in> set (mf_rows s)" "ix_id x = ix_id r" "ix_status x = ExLocked" "same_identity x r"
    using assms(1) by (auto simp: held_def)
  have "touch E i f x \<in> set (mf_rows (snd (update_row E i f s)))" unfolding update_row_rows using x(1) by simp
  moreover have "ix_status (touch E i f x) = ExLocked" using assms(3) x by (simp add: touch_def)
  ultimately show ?thesis
    using touch_id [OF assms(2), of E i x] x unfolding held_def by (intro bexI [of _ "touch E i f x"]) (auto simp: same_identity_def)
qed

lemma locked_transition:
  assumes "transitionMatrix ExLocked op = Inr st" and "op \<noteq> OpUnlock"
  shows "st = ExLocked"
  using assms by (cases op) (auto simp: transitionMatrix_def LOCKED_REJECTED_OPS_def)

lemma held_transition:
  assumes "held r s" and "manifest_sound s" and "\<not> may_unlock (ix_id r) (CmdTransition i op opts)"
  shows "held r (snd (transitionExtensionLifecycle E i op opts s))"
proof (rule transition_rows_cases [of E i op opts s])
  assume "mf_rows (snd (transitionExtensionLifecycle E i op opts s)) = mf_rows s"
  then show ?thesis using assms(1) held_rows by blast
next
  fix ext st
  assume read: "readInstalledExtensionById i s = Some ext"
    and rows: "mf_rows (snd (transitionExtensionLifecycle E i op opts s)) = mf_rows (snd (update_status E i st s))"
    and st: "transitionMatrix (ix_status ext) op = Inr st \<or> st = ExArchived \<and> op = OpUninstall \<and> ix_status ext = ExActive"
    and auth: "op = OpUnlock \<Longrightarrow> to_allowUnlock opts \<and> ''platform_admin'' \<in> set (nullish (to_roles opts) [])"
  have "held r (snd (update_row E i (\<lambda>r. r\<lparr>ix_status := st\<rparr>) s))"
  proof (rule held_touch [OF assms(1)])
    fix x assume x: "x \<in> set (mf_rows s)" "ix_id x = i" "ix_status x = ExLocked" "ix_id x = ix_id r"
    then have "x = ext" using read same_row [OF assms(2)] read_row_SomeD by metis
    moreover have "op \<noteq> OpUnlock" using auth assms(3) x by auto
    ultimately show "ix_status (x\<lparr>ix_status := st\<rparr>) = ExLocked" using st x(3) locked_transition by auto
  qed simp
  then show ?thesis using rows held_rows unfolding update_status_def by blast
next
  fix ext
  assume read: "readInstalledExtensionById i s = Some ext" "ix_status ext \<noteq> ExLocked"
    and rows: "mf_rows (snd (transitionExtensionLifecycle E i op opts s)) = mf_rows (delete_row i s)"
  from assms(1) obtain x where x: "x \<in> set (mf_rows s)" "ix_id x = ix_id r" "ix_status x = ExLocked" "same_identity x r"
    by (auto simp: held_def)
  then have "ix_id x \<noteq> i" using read same_row [OF assms(2)] read_row_SomeD by metis
  then have "x \<in> set (mf_rows (delete_row i s))" using x(1) by (simp add: delete_row_def delete_where_def)
  then show ?thesis using x unfolding held_def rows by blast
qed

lemma held_insert: "held r s \<Longrightarrow> held r (snd (insert_row E row s))"
  by (auto simp: held_def insert_row_def Let_def)

lemma held_command:
  assumes "held r s" and "manifest_sound s" and "\<not> may_unlock (ix_id r) c"
  shows "held r (run_command E c s)"
proof (cases c)
  case (CmdInstall row st)
  then show ?thesis using assms(1) by (auto simp: installExtensionManifest_def Let_def held_insert)
next
  case (CmdTransition i op opts)
  then show ?thesis using held_transition [OF assms(1,2)] assms(3) by simp
next
  case (CmdSwitch i src)
  then show ?thesis using assms(1)
    by (auto simp: sourceSwitchExtension_def update_source_def split: option.split intro!: held_touch)
next
  case (CmdRecord i deps)
  then show ?thesis using assms(1)
    by (auto simp: recordExtensionDependencies_def update_metadata_def split: option.split intro!: held_touch)
next
  case (CmdRollback i)
  then have "i \<noteq> ix_id r" using assms(3) by simp
  then show ?thesis using CmdRollback assms(1)
    by (auto simp: deleteNonFinalizedCanonicalRow_def held_def delete_row_def delete_where_def split: option.split)
next
  case (CmdBootLock sys req)
  have "held r (snd (transitionExtensionLifecycle E i OpLock BOOT_OPTS s)) \<and> manifest_sound (snd (transitionExtensionLifecycle E i OpLock BOOT_OPTS s))"
    if "held r s \<and> manifest_sound s" for i s
    using that held_transition transition_sound by simp
  from boot_lock_invariant [where P = "\<lambda>s. held r s \<and> manifest_sound s", OF this] assms(1,2)
  show ?thesis using CmdBootLock by simp
qed

text \<open>
  C14. A locked row stays in the manifest, locked and under its identity, through every sequence of operations that holds
  no unlock of the row by a platform administrator and no rollback of its installation: not archived, uninstalled,
  force-deleted, purged, removed from the registry, re-installed, re-activated or switched away.
\<close>

theorem locked_rows_stay:
  assumes "manifest_sound s" and "r \<in> set (mf_rows s)" and "ix_status r = ExLocked"
    and "\<forall>(E, c) \<in> set cs. \<not> may_unlock (ix_id r) c"
  shows "\<exists>r' \<in> set (mf_rows (run_commands cs s)). ix_id r' = ix_id r \<and> ix_status r' = ExLocked \<and> same_identity r' r"
proof -
  have "held r s" using assms(2,3) by (auto simp: held_def same_identity_def)
  then have "held r (run_commands cs s)"
    unfolding run_commands_def using assms(1,4)
  proof (induction cs arbitrary: s)
    case (Cons ec cs)
    obtain E c where ec: "ec = (E, c)" by fastforce
    have "held r (run_command E c s)" "manifest_sound (run_command E c s)"
      using Cons.prems held_command command_sound by (auto simp: ec)
    then show ?case using Cons.IH Cons.prems by (simp add: ec)
  qed simp
  then show ?thesis by (simp add: held_def)
qed

lemma locked_rows_stay_witness:
  "\<exists>r' \<in> set (mf_rows (run_commands sample_history sample_manifest)).
     ix_id r' = ''r1'' \<and> ix_status r' = ExLocked \<and> same_identity r' sample_anchor"
proof -
  have "sample_anchor \<in> set (mf_rows sample_manifest)" "ix_status sample_anchor = ExLocked" "ix_id sample_anchor = ''r1''"
    by (simp_all add: sample_manifest_def sample_anchor_def)
  moreover have "\<forall>(E, c) \<in> set sample_history. \<not> may_unlock (ix_id sample_anchor) c"
    by (simp add: sample_history_def)
  ultimately show ?thesis using locked_rows_stay [OF sample_manifest_sound] by metis
qed

end
