(* ===== verification/Ext_ClosureFacts.thy ===== *)
theory Ext_ClosureFacts
  imports Ext_Closure "HOL-Library.Multiset"
begin

text \<open>
  Facts of the dependency closure: the traversal visits exactly the packages reachable through present dependencies,
  each once, and its buckets list exactly the edges of these packages that are missing or violate their range; the
  required closures of all live rows are intact exactly when every live row resolves its own blocking edges; and the
  activation order.
\<close>

section \<open>One package of the traversal\<close>

text \<open>The dependencies of a package, as the traversal from \<open>root\<close> sees them.\<close>

definition dep_body :: "installed_extension list \<Rightarrow> ident option \<Rightarrow> installed_extension \<Rightarrow> string \<Rightarrow> ext_dependency list" where
  "dep_body rows org root n =
     (if n = ix_packageName root then ix_dependencies root
      else (case makeScopedManifestLookup rows org n of None \<Rightarrow> [] | Some r \<Rightarrow> ix_dependencies r))"

definition resolves :: "installed_extension list \<Rightarrow> ident option \<Rightarrow> string \<Rightarrow> bool" where
  "resolves rows org n \<longleftrightarrow> makeScopedManifestLookup rows org n \<noteq> None"

definition absent_node :: "ext_dependency \<Rightarrow> closure_node" where
  "absent_node d = \<lparr>cn_packageName = dep_packageName d, cn_status = NodeMissing, cn_kind = None\<rparr>"

definition violations_of ::
  "range_test \<Rightarrow> installed_extension list \<Rightarrow> ident option \<Rightarrow> string \<Rightarrow> ext_dependency \<Rightarrow> range_violation list" where
  "violations_of sat rows org via d =
     (case makeScopedManifestLookup rows org (dep_packageName d) of None \<Rightarrow> [] | Some r \<Rightarrow> edge_violation sat via d r)"

fun fresh_deps :: "installed_extension list \<Rightarrow> ident option \<Rightarrow> string list \<Rightarrow> ext_dependency list \<Rightarrow> string list" where
  "fresh_deps rows org vis [] = []"
| "fresh_deps rows org vis (d # ds) =
     (if resolves rows org (dep_packageName d) \<and> dep_packageName d \<notin> set vis
      then dep_packageName d # fresh_deps rows org (vis @ [dep_packageName d]) ds
      else fresh_deps rows org vis ds)"

definition required_absent where
  "required_absent rows org d \<longleftrightarrow> \<not> resolves rows org (dep_packageName d) \<and> isInstallBlockingEdge d"

definition peer_absent where
  "peer_absent rows org d \<longleftrightarrow> \<not> resolves rows org (dep_packageName d) \<and> dep_edgeType d = EdgePeer"

definition optional_absent where
  "optional_absent rows org d \<longleftrightarrow>
     \<not> resolves rows org (dep_packageName d) \<and> dep_edgeType d \<noteq> EdgePeer \<and> dep_requirement d = Optional"

definition entry_of :: "installed_extension list \<Rightarrow> ident option \<Rightarrow> string \<Rightarrow> string \<times> ext_dependency list" where
  "entry_of rows org n = (n, case makeScopedManifestLookup rows org n of None \<Rightarrow> [] | Some r \<Rightarrow> ix_dependencies r)"

text \<open>The body of the loop in closed form.\<close>

lemma visit_absent:
  assumes "makeScopedManifestLookup rows org (dep_packageName d) = None"
  shows "visit_dep sat rows org via (res, stack) d = (bucket_missing d (absent_node d) res, stack)"
  by (simp add: visit_dep_def missing_node_def absent_node_def assms)

lemma visit_present:
  assumes "makeScopedManifestLookup rows org (dep_packageName d) = Some r"
  shows "visit_dep sat rows org via (res, stack) d =
     (let res' = res\<lparr>cr_rangeViolations := cr_rangeViolations res @ violations_of sat rows org via d\<rparr>
      in if dep_packageName d \<in> set (cr_visited res) then (res', stack)
         else (res'\<lparr>cr_visited := cr_visited res @ [dep_packageName d]\<rparr>, entry_of rows org (dep_packageName d) # stack))"
  using lookup_live [OF assms] by (simp add: visit_dep_def violations_of_def entry_of_def Let_def assms)

lemma absent_buckets:
  assumes "makeScopedManifestLookup rows org (dep_packageName d) = None"
  shows "bucket_missing d node res =
     (if peer_absent rows org d then res\<lparr>cr_missingPeer := cr_missingPeer res @ [node]\<rparr>
      else if required_absent rows org d then res\<lparr>cr_missingRequired := cr_missingRequired res @ [node]\<rparr>
      else res\<lparr>cr_missingOptional := cr_missingOptional res @ [node]\<rparr>)"
    and "peer_absent rows org d \<Longrightarrow> \<not> required_absent rows org d \<and> \<not> optional_absent rows org d"
    and "required_absent rows org d \<Longrightarrow> \<not> optional_absent rows org d"
    and "\<not> peer_absent rows org d \<Longrightarrow> \<not> required_absent rows org d \<Longrightarrow> optional_absent rows org d"
    and "violations_of sat rows org via d = []" and "\<not> resolves rows org (dep_packageName d)"
  using assms
  by (auto simp: bucket_missing_def peer_absent_def required_absent_def optional_absent_def resolves_def
        isInstallBlockingEdge_def violations_of_def intro: requirement.exhaust)

lemma present_buckets:
  assumes "makeScopedManifestLookup rows org (dep_packageName d) = Some r"
  shows "\<not> peer_absent rows org d" "\<not> required_absent rows org d" "\<not> optional_absent rows org d"
    "resolves rows org (dep_packageName d)"
  using assms by (simp_all add: peer_absent_def required_absent_def optional_absent_def resolves_def)

lemma visit_deps_exact:
  "foldl (visit_dep sat rows org via) (res, stack) ds =
     (res\<lparr>cr_missingRequired := cr_missingRequired res @ map absent_node (filter (required_absent rows org) ds),
          cr_missingOptional := cr_missingOptional res @ map absent_node (filter (optional_absent rows org) ds),
          cr_missingPeer := cr_missingPeer res @ map absent_node (filter (peer_absent rows org) ds),
          cr_rangeViolations := cr_rangeViolations res @ concat (map (violations_of sat rows org via) ds),
          cr_visited := cr_visited res @ fresh_deps rows org (cr_visited res) ds\<rparr>,
      map (entry_of rows org) (rev (fresh_deps rows org (cr_visited res) ds)) @ stack)"
proof (induction ds arbitrary: res stack)
  case (Cons d ds)
  show ?case
  proof (cases "makeScopedManifestLookup rows org (dep_packageName d)")
    case None
    note facts = visit_absent [OF None] absent_buckets [OF None]
    consider "peer_absent rows org d" | "\<not> peer_absent rows org d" "required_absent rows org d"
      | "\<not> peer_absent rows org d" "\<not> required_absent rows org d" by blast
    then show ?thesis by cases (simp_all add: facts Cons.IH)
  next
    case (Some r)
    show ?thesis by (simp add: visit_present [OF Some] present_buckets [OF Some] Let_def Cons.IH)
  qed
qed simp

lemma fresh_deps_set:
  "set (fresh_deps rows org vis ds) =
     {n. n \<notin> set vis \<and> resolves rows org n \<and> n \<in> dep_packageName ` set ds}"
  by (induction ds arbitrary: vis) auto

lemma fresh_deps_distinct: "distinct (fresh_deps rows org vis ds)"
  by (induction ds arbitrary: vis) (auto simp: fresh_deps_set)

section \<open>The traversal\<close>

definition dep_edges where
  "dep_edges rows org root =
     {(n, m). m \<in> dep_packageName ` set (dep_body rows org root n) \<and> resolves rows org m}"

text \<open>The result after the packages \<open>ps\<close> have been popped in this order.\<close>

definition result_for where
  "result_for sat rows org root ps visited =
     \<lparr>cr_missingRequired = concat (map (\<lambda>n. map absent_node (filter (required_absent rows org) (dep_body rows org root n))) ps),
      cr_missingOptional = concat (map (\<lambda>n. map absent_node (filter (optional_absent rows org) (dep_body rows org root n))) ps),
      cr_missingPeer = concat (map (\<lambda>n. map absent_node (filter (peer_absent rows org) (dep_body rows org root n))) ps),
      cr_rangeViolations = concat (map (\<lambda>n. concat (map (violations_of sat rows org n) (dep_body rows org root n))) ps),
      cr_visited = visited\<rparr>"

definition body_entry where
  "body_entry rows org root n = (n, dep_body rows org root n)"

lemma body_entry_fresh: "n \<noteq> ix_packageName root \<Longrightarrow> entry_of rows org n = body_entry rows org root n"
  by (simp add: entry_of_def body_entry_def dep_body_def)

lemma closure_loop_spec:
  assumes "res = result_for sat rows org root ps visited" and "stack = map (body_entry rows org root) todo"
    and "set visited = set ps \<union> set todo" and "distinct (ps @ todo)" and "distinct visited"
    and "ix_packageName root \<in> set visited"
    and "set visited \<subseteq> (dep_edges rows org root)\<^sup>* `` {ix_packageName root}"
    and "\<forall>n \<in> set ps. \<forall>m. (n, m) \<in> dep_edges rows org root \<longrightarrow> m \<in> set visited"
  shows "\<exists>ps' visited'. closure_loop sat rows org res stack = result_for sat rows org root ps' visited' \<and> distinct ps'
     \<and> distinct visited' \<and> set ps' = (dep_edges rows org root)\<^sup>* `` {ix_packageName root} \<and> set visited' = set ps'"
  using assms
proof (induction sat rows org res stack arbitrary: ps visited todo rule: closure_loop.induct)
  case (1 sat rows org res)
  then have todo: "todo = []" and all: "set visited = set ps" by auto
  have "(ix_packageName root, m) \<in> (dep_edges rows org root)\<^sup>* \<Longrightarrow> m \<in> set ps" for m
  proof (induction rule: rtrancl_induct)
    case base
    then show ?case using 1 all by simp
  next
    case (step y z)
    then show ?case using 1 all by auto
  qed
  then have "set ps = (dep_edges rows org root)\<^sup>* `` {ix_packageName root}" using 1 all by auto
  then show ?case using 1 all by (intro exI [of _ ps] exI [of _ visited]) simp
next
  case (2 sat rows org res via deps stack)
  then obtain todo' where todo: "todo = via # todo'" and deps: "deps = dep_body rows org root via"
    and stack: "stack = map (body_entry rows org root) todo'"
    by (cases todo) (auto simp: body_entry_def)
  define new where "new = fresh_deps rows org visited deps"
  have new_set: "set new = {n. n \<notin> set visited \<and> resolves rows org n \<and> n \<in> dep_packageName ` set deps}"
    by (simp add: new_def fresh_deps_set)
  have new_not_root: "\<forall>n \<in> set new. n \<noteq> ix_packageName root" using new_set 2 by auto
  have vis: "cr_visited res = visited" using 2(2) by (simp add: result_for_def)
  let ?ps = "ps @ [via]" and ?vis = "visited @ new" and ?todo = "rev new @ todo'"
  have step: "foldl (visit_dep sat rows org via) (res, stack) deps =
      (result_for sat rows org root ?ps ?vis, map (body_entry rows org root) ?todo)"
    unfolding visit_deps_exact vis using 2(2) new_not_root
    by (simp add: result_for_def deps new_def [symmetric, unfolded deps] stack body_entry_fresh cong: map_cong)
  have via_reached: "via \<in> (dep_edges rows org root)\<^sup>* `` {ix_packageName root}" using 2 todo by auto
  have edge: "(via, n) \<in> dep_edges rows org root \<longleftrightarrow> n \<in> dep_packageName ` set deps \<and> resolves rows org n" for n
    by (simp add: dep_edges_def deps)
  have "set ?vis = set ?ps \<union> set ?todo" using 2(4) todo by auto
  moreover have "distinct (?ps @ ?todo)" using 2(4,5) todo new_set by (auto simp: new_def fresh_deps_distinct)
  moreover have "distinct ?vis" using 2(6) new_set by (auto simp: new_def fresh_deps_distinct)
  moreover have "ix_packageName root \<in> set ?vis" using 2(7) by simp
  moreover have "set ?vis \<subseteq> (dep_edges rows org root)\<^sup>* `` {ix_packageName root}"
  proof -
    have "n \<in> (dep_edges rows org root)\<^sup>* `` {ix_packageName root}" if "n \<in> set new" for n
      using that via_reached edge [of n] new_set by (auto intro: rtrancl_into_rtrancl)
    then show ?thesis using 2(8) by auto
  qed
  moreover have "\<forall>n \<in> set ?ps. \<forall>m. (n, m) \<in> dep_edges rows org root \<longrightarrow> m \<in> set ?vis"
    using 2(9) edge new_set by auto
  ultimately show ?case using 2(1) [OF step [symmetric] refl refl] step by auto
qed

theorem closure_traversal:
  obtains ps visited where "computeClosure sat rows org root = result_for sat rows org root ps visited"
    and "distinct ps" and "distinct visited" and "set visited = set ps"
    and "set ps = (dep_edges rows org root)\<^sup>* `` {ix_packageName root}"
proof -
  have "\<exists>ps' visited'. computeClosure sat rows org root = result_for sat rows org root ps' visited' \<and> distinct ps'
     \<and> distinct visited' \<and> set ps' = (dep_edges rows org root)\<^sup>* `` {ix_packageName root} \<and> set visited' = set ps'"
    unfolding computeClosure_def
    by (rule closure_loop_spec [where ps = "[]" and visited = "[ix_packageName root]" and todo = "[ix_packageName root]"])
      (auto simp: result_for_def body_entry_def dep_body_def)
  then show ?thesis using that by blast
qed

definition reach where
  "reach rows org root = (dep_edges rows org root)\<^sup>* `` {ix_packageName root}"

text \<open>
  C19. The traversal of the dependency closure ends on every snapshot and visits exactly the packages reachable from the
  root through dependencies that the scoped lookup resolves, each once; its buckets list exactly the edges of these
  packages that do not resolve (required, optional and peer ones apart) and the versions that violate the constraint of
  a blocking edge; and the closure is reported intact exactly when every blocking edge of a reachable package resolves.
\<close>

theorem closure_exact:
  "\<exists>ps. distinct ps \<and> set ps = reach rows org root
     \<and> (\<exists>visited. computeClosure sat rows org root = result_for sat rows org root ps visited
                  \<and> distinct visited \<and> set visited = reach rows org root)
     \<and> (cr_ok (computeClosure sat rows org root) \<longleftrightarrow>
          (\<forall>n \<in> reach rows org root. \<forall>d \<in> set (dep_body rows org root n).
             isInstallBlockingEdge d \<longrightarrow> resolves rows org (dep_packageName d)))"
proof (rule closure_traversal [of sat rows org root])
  fix ps visited
  assume res: "computeClosure sat rows org root = result_for sat rows org root ps visited" and "distinct ps" "distinct visited"
    and vis: "set visited = set ps" and ps: "set ps = (dep_edges rows org root)\<^sup>* `` {ix_packageName root}"
  then have "set ps = reach rows org root" by (simp add: reach_def)
  moreover from this have "cr_ok (computeClosure sat rows org root) \<longleftrightarrow>
      (\<forall>n \<in> reach rows org root. \<forall>d \<in> set (dep_body rows org root n).
             isInstallBlockingEdge d \<longrightarrow> resolves rows org (dep_packageName d))"
    by (auto simp: cr_ok_def res result_for_def filter_empty_conv required_absent_def)
  ultimately show ?thesis using res vis \<open>distinct ps\<close> \<open>distinct visited\<close> by blast
qed

text \<open>An application of an organization on a platform library whose own requirement is archived.\<close>

definition sample_dep :: "string \<Rightarrow> ext_dependency" where
  "sample_dep n = \<lparr>dep_packageName = n, dep_kind = None, dep_edgeType = EdgeRuntime,
                    dep_constraint = SemverRange ''*'', dep_requirement = Required\<rparr>"

definition sample_row :: "string \<Rightarrow> ident option \<Rightarrow> lifecycle_status \<Rightarrow> string list \<Rightarrow> installed_extension" where
  "sample_row n org st ds =
     \<lparr>ix_id = n, ix_packageName = n, ix_ownerLevel = OwnPlatform, ix_ownerId = None, ix_organizationId = org,
      ix_kind = KAgent, ix_status = st, ix_source = JNull, ix_requiredInProd = False,
      ix_dependencies = map sample_dep ds, ix_manifestHash = None, ix_createdAt = 0, ix_updatedAt = 0\<rparr>"

definition sample_rows :: "installed_extension list" where
  "sample_rows = [sample_row ''app'' (Some ''o1'') ExActive [''lib''], sample_row ''lib'' None ExLocked [''base''],
                  sample_row ''base'' None ExArchived []]"

lemma closure_exact_witness:
  "\<not> cr_ok (computeClosure (\<lambda>_ _. True) sample_rows (Some ''o1'') (hd sample_rows))
   \<and> cr_visited (computeClosure (\<lambda>_ _. True) sample_rows (Some ''o1'') (hd sample_rows)) = [''app'', ''lib'']
   \<and> reach sample_rows (Some ''o1'') (hd sample_rows) = {''app'', ''lib''}"
proof -
  let ?r = "computeClosure (\<lambda>_ _. True) sample_rows (Some ''o1'') (hd sample_rows)"
  have run: "cr_visited ?r = [''app'', ''lib'']" "\<not> cr_ok ?r" by code_simp+
  obtain ps visited where "?r = result_for (\<lambda>_ _. True) sample_rows (Some ''o1'') (hd sample_rows) ps visited"
    and "set visited = reach sample_rows (Some ''o1'') (hd sample_rows)"
    using closure_exact [of sample_rows "Some ''o1''" "hd sample_rows" "\<lambda>_ _. True"] by blast
  then have "set (cr_visited ?r) = reach sample_rows (Some ''o1'') (hd sample_rows)" by (simp add: result_for_def)
  then show ?thesis using run by simp
qed

lemma missing_required_set:
  "set (cr_missingRequired (computeClosure sat rows org root)) =
     {absent_node d |d n. n \<in> reach rows org root \<and> d \<in> set (dep_body rows org root n) \<and> required_absent rows org d}"
  by (rule closure_traversal [of sat rows org root]) (auto simp: result_for_def reach_def)

lemma missing_required_empty:
  "cr_missingRequired (computeClosure sat rows org root) = [] \<longleftrightarrow>
     (\<forall>n \<in> reach rows org root. \<forall>d \<in> set (dep_body rows org root n).
        isInstallBlockingEdge d \<longrightarrow> resolves rows org (dep_packageName d))"
proof -
  have "cr_missingRequired (computeClosure sat rows org root) = [] \<longleftrightarrow> set (cr_missingRequired (computeClosure sat rows org root)) = {}"
    by simp
  then show ?thesis unfolding missing_required_set by (auto simp: required_absent_def)
qed

section \<open>Intact snapshots\<close>

text \<open>Every live row resolves its own blocking edges in its own scope.\<close>

definition row_intact where
  "row_intact rows row \<longleftrightarrow>
     (\<forall>d \<in> set (ix_dependencies row). isInstallBlockingEdge d \<longrightarrow> resolves rows (ix_organizationId row) (dep_packageName d))"

definition intact :: "installed_extension list \<Rightarrow> bool" where
  "intact rows \<longleftrightarrow> (\<forall>row \<in> set rows. live row \<longrightarrow> row_intact rows row)"

lemma resolves_iff:
  "resolves rows org name \<longleftrightarrow>
     (\<exists>r \<in> set rows. ix_packageName r = name \<and> live r \<and> (ix_organizationId r = None \<or> ix_organizationId r = org))"
proof -
  let ?L = "filter (\<lambda>r. ix_packageName r = name \<and> live r) rows"
  have platform: "find (\<lambda>r. ix_organizationId r = None) ?L \<noteq> None \<longleftrightarrow> (\<exists>r \<in> set ?L. ix_organizationId r = None)"
    by (auto simp: find_None_iff)
  have own: "find (\<lambda>r. ix_organizationId r = org) ?L \<noteq> None \<longleftrightarrow> (\<exists>r \<in> set ?L. ix_organizationId r = org)"
    by (auto simp: find_None_iff)
  have "resolves rows org name \<longleftrightarrow> (\<exists>r \<in> set ?L. ix_organizationId r = None) \<or> (\<exists>r \<in> set ?L. ix_organizationId r = org)"
    unfolding resolves_def makeScopedManifestLookup_def Let_def platform [symmetric] own [symmetric]
    by (cases org) (auto split: option.splits)
  then show ?thesis by auto
qed

lemma lookup_scope:
  "makeScopedManifestLookup rows org name = Some r \<Longrightarrow> ix_organizationId r = None \<or> ix_organizationId r = org"
  by (auto simp: makeScopedManifestLookup_def Let_def split: option.splits dest!: find_SomeD)

lemma resolves_widen: "resolves rows None name \<Longrightarrow> resolves rows org name"
  by (auto simp: resolves_iff)

lemma reach_row:
  assumes "n \<in> reach rows org root"
  shows "n = ix_packageName root \<or> (\<exists>r. makeScopedManifestLookup rows org n = Some r)"
  using assms by (auto simp: reach_def dep_edges_def resolves_def elim: rtranclE)

text \<open>The closures of all live rows are intact exactly when every row resolves its own edges.\<close>

lemma closures_intact_iff:
  "(\<forall>row \<in> set rows. live row \<longrightarrow> cr_missingRequired (computeClosure sat rows (ix_organizationId row) row) = [])
     \<longleftrightarrow> intact rows"
proof
  assume closed: "\<forall>row \<in> set rows. live row \<longrightarrow> cr_missingRequired (computeClosure sat rows (ix_organizationId row) row) = []"
  show "intact rows" unfolding intact_def row_intact_def
  proof (intro ballI impI)
    fix row d assume "row \<in> set rows" "live row" "d \<in> set (ix_dependencies row)" "isInstallBlockingEdge d"
    moreover have "ix_packageName row \<in> reach rows (ix_organizationId row) row" by (simp add: reach_def)
    moreover have "dep_body rows (ix_organizationId row) row (ix_packageName row) = ix_dependencies row"
      by (simp add: dep_body_def)
    ultimately show "resolves rows (ix_organizationId row) (dep_packageName d)"
      using closed unfolding missing_required_empty by metis
  qed
next
  assume intact: "intact rows"
  show "\<forall>row \<in> set rows. live row \<longrightarrow> cr_missingRequired (computeClosure sat rows (ix_organizationId row) row) = []"
    unfolding missing_required_empty
  proof (intro ballI impI)
    fix row n d assume row: "row \<in> set rows" "live row" and n: "n \<in> reach rows (ix_organizationId row) row"
      and d: "d \<in> set (dep_body rows (ix_organizationId row) row n)" "isInstallBlockingEdge d"
    have "resolves rows (ix_organizationId row) (dep_packageName d)" if "r \<in> set rows" "live r" "d \<in> set (ix_dependencies r)"
      "ix_organizationId r = None \<or> ix_organizationId r = ix_organizationId row" for r
      using that d(2) intact resolves_widen unfolding intact_def row_intact_def by metis
    then show "resolves rows (ix_organizationId row) (dep_packageName d)"
      using row d(1) reach_row [OF n] lookup_SomeD lookup_scope
      by (auto simp: dep_body_def split: if_splits option.splits) blast+
  qed
qed

section \<open>The activation order\<close>

lemma order_loop_spec:
  assumes "sorted remaining" and "distinct remaining"
  shows "\<exists>pre rest. order_loop deps ordered remaining = ordered @ pre @ rest \<and> mset (pre @ rest) = mset remaining
     \<and> (\<forall>i < length pre. set (deps (pre ! i)) \<subseteq> set ordered \<union> set (take i pre))
     \<and> (\<forall>i < length pre. \<forall>m \<in> set (drop i pre @ rest). set (deps m) \<subseteq> set ordered \<union> set (take i pre) \<longrightarrow> pre ! i \<le> m)
     \<and> sorted rest \<and> (\<forall>n \<in> set rest. \<not> set (deps n) \<subseteq> set ordered \<union> set pre)"
  using assms
proof (induction deps ordered remaining rule: order_loop.induct)
  case (1 deps ordered remaining)
  let ?ready = "filter (\<lambda>n. list_all (\<lambda>d. d \<in> set ordered) (deps n)) remaining"
  show ?case
  proof (cases "?ready")
    case Nil
    then have "\<forall>n \<in> set remaining. \<not> set (deps n) \<subseteq> set ordered" by (auto simp: filter_empty_conv list_all_iff)
    moreover have "order_loop deps ordered remaining = ordered @ remaining"
      using Nil by (subst order_loop.simps) auto
    ultimately show ?thesis using "1.prems" by (intro exI [of _ "[]"] exI [of _ remaining]) simp
  next
    case (Cons nx ready)
    let ?rem = "filter (\<lambda>n. n \<noteq> nx) remaining"
    have nonempty: "remaining \<noteq> []" using Cons by auto
    from filter_head_mem [OF Cons] have nx': "nx \<in> set remaining" "set (deps nx) \<subseteq> set ordered" by (auto simp: list_all_iff)
    have least: "nx \<le> m" if "m \<in> set remaining" "set (deps m) \<subseteq> set ordered" for m
    proof -
      have "sorted ?ready" using "1.prems" by (simp add: sorted_wrt_filter)
      moreover have "m \<in> set ?ready" using that by (auto simp: list_all_iff)
      ultimately show ?thesis unfolding Cons by auto
    qed
    have step: "order_loop deps ordered remaining = order_loop deps (ordered @ [nx]) ?rem"
      using nonempty Cons by (subst order_loop.simps) simp
    have "sorted ?rem" "distinct ?rem" using "1.prems" by (simp_all add: sorted_wrt_filter)
    from "1.IH" [OF nonempty Cons this] obtain pre rest where
      ih: "order_loop deps (ordered @ [nx]) ?rem = (ordered @ [nx]) @ pre @ rest" "mset (pre @ rest) = mset ?rem"
      "\<forall>i < length pre. set (deps (pre ! i)) \<subseteq> set (ordered @ [nx]) \<union> set (take i pre)"
      "\<forall>i < length pre. \<forall>m \<in> set (drop i pre @ rest). set (deps m) \<subseteq> set (ordered @ [nx]) \<union> set (take i pre) \<longrightarrow> pre ! i \<le> m"
      "sorted rest" "\<forall>n \<in> set rest. \<not> set (deps n) \<subseteq> set (ordered @ [nx]) \<union> set pre" by blast
    have rem: "mset remaining = add_mset nx (mset ?rem)"
    proof -
      have "?rem = remove1 nx remaining"
        by (simp add: distinct_remove1_removeAll "1.prems"(2) removeAll_filter_not_eq eq_commute)
      then show ?thesis using nx'(1) by simp
    qed
    have members: "set (pre @ rest) \<subseteq> set remaining" using ih(2) by (metis filter_is_subset mset_eq_setD)
    have eq: "order_loop deps ordered remaining = ordered @ (nx # pre) @ rest"
      by (simp only: step ih(1) append.assoc append_Cons append_Nil)
    have perm: "mset ((nx # pre) @ rest) = mset remaining" unfolding rem ih(2) [symmetric] by simp
    have before: "\<forall>i < length (nx # pre). set (deps ((nx # pre) ! i)) \<subseteq> set ordered \<union> set (take i (nx # pre))"
      proof (intro allI impI)
        fix i assume "i < length (nx # pre)"
        then show "set (deps ((nx # pre) ! i)) \<subseteq> set ordered \<union> set (take i (nx # pre))"
          using nx'(2) ih(3) by (cases i) auto
      qed
    have tie: "\<forall>i < length (nx # pre). \<forall>m \<in> set (drop i (nx # pre) @ rest).
          set (deps m) \<subseteq> set ordered \<union> set (take i (nx # pre)) \<longrightarrow> (nx # pre) ! i \<le> m"
      proof (intro allI impI ballI)
        fix i m
        assume i: "i < length (nx # pre)" and m: "m \<in> set (drop i (nx # pre) @ rest)"
          and free: "set (deps m) \<subseteq> set ordered \<union> set (take i (nx # pre))"
        show "(nx # pre) ! i \<le> m"
        proof (cases i)
          case 0
          then have "m \<in> set remaining" using m members nx'(1) by auto
          then show ?thesis using least free 0 by simp
        next
          case (Suc j)
          then have "set (deps m) \<subseteq> set (ordered @ [nx]) \<union> set (take j pre)" using free by auto
          moreover have "m \<in> set (drop j pre @ rest)" using m Suc by simp
          ultimately show ?thesis using ih(4) i Suc by simp
        qed
      qed
    have stuck: "\<forall>n \<in> set rest. \<not> set (deps n) \<subseteq> set ordered \<union> set (nx # pre)" using ih(6) by auto
    show ?thesis
      by (rule exI [of _ "nx # pre"], rule exI [of _ rest], intro conjI eq perm before tie ih(5) stuck)
  qed
qed

text \<open>Among the packages being activated: a package and one it has to be activated after.\<close>

definition order_edges :: "string list \<Rightarrow> edge_map \<Rightarrow> (string \<times> string) set" where
  "order_edges names edges = {(n, d). n \<in> set names \<and> d \<in> set (needs_first names edges n)}"

lemma needs_first_names: "set (needs_first names edges n) \<subseteq> set names"
  by (auto simp: needs_first_def)

lemma ordered_acyclic:
  assumes "\<forall>i < length pre. set (needs_first names edges (pre ! i)) \<subseteq> set (take i pre)" and "set names = set pre" "distinct pre"
  shows "acyclic (order_edges names edges)"
proof (rule acyclicI_order [where f = "\<lambda>n. length (takeWhile (\<lambda>x. x \<noteq> n) pre)"])
  fix n d assume "(n, d) \<in> order_edges names edges"
  then have "n \<in> set pre" and d: "d \<in> set (needs_first names edges n)" using assms(2) by (auto simp: order_edges_def)
  then obtain us vs where pre: "pre = us @ n # vs" by (auto dest: split_list)
  then have "n \<notin> set us" using \<open>distinct pre\<close> by auto
  then have n_pos: "takeWhile (\<lambda>x. x \<noteq> n) pre = us" unfolding pre by (subst takeWhile_append2) auto
  have "length us < length pre" and "pre ! length us = n" and "take (length us) pre = us" using pre by simp_all
  then have "d \<in> set us" using assms(1) d by (metis subsetD)
  then obtain xs ys where us: "us = xs @ d # ys" and "d \<notin> set xs" by (auto dest: split_list_first)
  then have "takeWhile (\<lambda>x. x \<noteq> d) pre = xs" unfolding pre us append.assoc by (subst takeWhile_append2) auto
  then show "length (takeWhile (\<lambda>x. x \<noteq> d) pre) < length (takeWhile (\<lambda>x. x \<noteq> n) pre)" using n_pos us by simp
qed

lemma stuck_cyclic:
  assumes "rest \<noteq> []" and "set rest \<subseteq> set names"
    and "\<forall>n \<in> set rest. \<exists>d \<in> set rest. d \<in> set (needs_first names edges n)"
  shows "\<not> acyclic (order_edges names edges)"
proof
  assume "acyclic (order_edges names edges)"
  moreover have "finite (order_edges names edges)"
    by (rule finite_subset [of _ "set names \<times> set names"]) (auto simp: order_edges_def dest: subsetD [OF needs_first_names])
  ultimately have "wf ((order_edges names edges)\<inverse>)" by (simp add: finite_acyclic_wf_converse)
  moreover obtain n0 where "n0 \<in> set rest" using assms(1) by (cases rest) auto
  ultimately obtain n where "n \<in> set rest" and least: "\<And>d. (d, n) \<in> (order_edges names edges)\<inverse> \<Longrightarrow> d \<notin> set rest"
    by (metis wfE_min)
  then show False using assms(2,3) by (auto simp: order_edges_def)
qed

text \<open>
  C26. The activation order is a permutation of the packages: a prefix in which every package comes after all its
  dependencies and is the lexicographically least of those that could come next, and a sorted remainder, which is empty
  exactly when the dependencies are acyclic.
\<close>

theorem activation_order:
  assumes "distinct names"
  shows "\<exists>pre rest. orderPackagesByDependencyFirst names edges = pre @ rest \<and> mset (pre @ rest) = mset names
     \<and> (\<forall>i < length pre. set (needs_first names edges (pre ! i)) \<subseteq> set (take i pre))
     \<and> (\<forall>i < length pre. \<forall>m \<in> set (drop i pre @ rest).
          set (needs_first names edges m) \<subseteq> set (take i pre) \<longrightarrow> pre ! i \<le> m)
     \<and> sorted rest \<and> (rest = [] \<longleftrightarrow> acyclic (order_edges names edges))"
proof -
  obtain pre rest where order: "orderPackagesByDependencyFirst names edges = pre @ rest"
    and perm: "mset (pre @ rest) = mset names"
    and before: "\<forall>i < length pre. set (needs_first names edges (pre ! i)) \<subseteq> set (take i pre)"
    and tie: "\<forall>i < length pre. \<forall>m \<in> set (drop i pre @ rest). set (needs_first names edges m) \<subseteq> set (take i pre) \<longrightarrow> pre ! i \<le> m"
    and "sorted rest" and stuck: "\<forall>n \<in> set rest. \<not> set (needs_first names edges n) \<subseteq> set pre"
    using order_loop_spec [of "sort names" "needs_first names edges" "[]"] assms
    by (auto simp: orderPackagesByDependencyFirst_def)
  have members: "set pre \<union> set rest = set names" using perm by (metis mset_eq_setD set_append)
  have "rest = [] \<longleftrightarrow> acyclic (order_edges names edges)"
  proof
    assume "rest = []"
    moreover from this have "distinct pre" using perm assms by (metis append_Nil2 mset_eq_imp_distinct_iff)
    ultimately show "acyclic (order_edges names edges)" using ordered_acyclic [OF before] members by simp
  next
    have "\<forall>n \<in> set rest. \<exists>d \<in> set rest. d \<in> set (needs_first names edges n)"
      using stuck members needs_first_names [of names edges] by blast
    moreover assume "acyclic (order_edges names edges)"
    ultimately show "rest = []" using stuck_cyclic [of rest names edges] members by blast
  qed
  then show ?thesis using order perm before tie \<open>sorted rest\<close> by blast
qed

lemma activation_order_witness:
  "\<exists>pre rest. orderPackagesByDependencyFirst [''app'', ''lib'', ''zip'', ''loop'']
       (\<lambda>n. if n = ''app'' then Some [sample_dep ''lib''] else if n = ''loop'' then Some [sample_dep ''loop''] else None) = pre @ rest
     \<and> pre @ rest = [''lib'', ''app'', ''zip'', ''loop'']
     \<and> rest \<noteq> [] \<and> sorted rest"
proof -
  let ?e = "\<lambda>n. if n = ''app'' then Some [sample_dep ''lib''] else if n = ''loop'' then Some [sample_dep ''loop''] else None"
  let ?ns = "[''app'', ''lib'', ''zip'', ''loop'']"
  have run: "orderPackagesByDependencyFirst ?ns ?e = [''lib'', ''app'', ''zip'', ''loop'']" by code_simp
  have "(''loop'', ''loop'') \<in> order_edges ?ns ?e"
    by (simp add: order_edges_def needs_first_def sample_dep_def)
  then have cyclic: "\<not> acyclic (order_edges ?ns ?e)" by (auto simp: acyclic_def)
  have "distinct ?ns" by simp
  from activation_order [OF this, of ?e] obtain pre rest where "orderPackagesByDependencyFirst ?ns ?e = pre @ rest"
    and "sorted rest" and "rest = [] \<longleftrightarrow> acyclic (order_edges ?ns ?e)" by (elim exE conjE)
  then show ?thesis using run cyclic
    by (rule_tac exI [of _ pre], rule_tac exI [of _ rest], intro conjI) (simp_all only: simp_thms)
qed

end
