(* ===== verification/Ext_DispatchFacts.thy ===== *)
theory Ext_DispatchFacts
  imports Ext_Dispatch Ext_StoreFacts Ext_ClosureFacts
begin

text \<open>
  Facts of the dispatcher: archiving, uninstalling and restoring keep the required closures of all live rows intact and
  touch no locked row; a failed installation leaves no row of its own that looks installed and is not.
\<close>

section \<open>Retiring the rows of a package\<close>

text \<open>The rows with these identifiers are gone or archived, the others are the same.\<close>

definition retired :: "ident set \<Rightarrow> manifest_db \<Rightarrow> manifest_db \<Rightarrow> bool" where
  "retired is s s' \<longleftrightarrow>
     (\<forall>x \<in> set (mf_rows s). ix_id x \<notin> is \<longrightarrow> x \<in> set (mf_rows s'))
     \<and> (\<forall>x \<in> set (mf_rows s'). ix_id x \<in> is \<longrightarrow> \<not> live x)
     \<and> (\<forall>x \<in> set (mf_rows s'). ix_id x \<notin> is \<longrightarrow> x \<in> set (mf_rows s))"

lemma retiredD:
  assumes "retired is s s'"
  shows "x \<in> set (mf_rows s) \<Longrightarrow> ix_id x \<notin> is \<Longrightarrow> x \<in> set (mf_rows s')"
    and "x \<in> set (mf_rows s') \<Longrightarrow> ix_id x \<in> is \<Longrightarrow> \<not> live x"
    and "x \<in> set (mf_rows s') \<Longrightarrow> ix_id x \<notin> is \<Longrightarrow> x \<in> set (mf_rows s)"
  using assms by (auto simp: retired_def)

lemma retired_trans:
  assumes "retired is s s1" and "retired js s1 s2"
  shows "retired (is \<union> js) s s2"
  unfolding retired_def
proof (intro conjI ballI impI)
  fix x assume "x \<in> set (mf_rows s)" "ix_id x \<notin> is \<union> js"
  then show "x \<in> set (mf_rows s2)" using retiredD(1) [OF assms(1)] retiredD(1) [OF assms(2)] by simp
next
  fix x assume "x \<in> set (mf_rows s2)" "ix_id x \<in> is \<union> js"
  then show "\<not> live x"
    using retiredD(2) [OF assms(2)] retiredD(3) [OF assms(2)] retiredD(2) [OF assms(1)] by (cases "ix_id x \<in> js") auto
next
  fix x assume "x \<in> set (mf_rows s2)" "ix_id x \<notin> is \<union> js"
  then show "x \<in> set (mf_rows s)" using retiredD(3) [OF assms(1)] retiredD(3) [OF assms(2)] by simp
qed

lemma retired_touch:
  "retired {i} s (snd (update_status E i ExArchived s))"
proof -
  let ?t = "touch E i (\<lambda>r. r\<lparr>ix_status := ExArchived\<rparr>)"
  have same: "?t x = x" if "ix_id x \<noteq> i" for x using that by (simp add: touch_def)
  have gone: "ix_id (?t x) = ix_id x \<and> (ix_id x = i \<longrightarrow> \<not> live (?t x))" for x by (simp add: touch_def)
  show ?thesis
    unfolding retired_def update_status_rows set_map
  proof (intro conjI ballI impI)
    fix x assume "x \<in> set (mf_rows s)" "ix_id x \<notin> {i}"
    then show "x \<in> ?t ` set (mf_rows s)" using same by (metis imageI singletonI)
  next
    fix x assume "x \<in> ?t ` set (mf_rows s)" "ix_id x \<in> {i}"
    then show "\<not> live x" using gone by (metis imageE singletonD)
  next
    fix x assume "x \<in> ?t ` set (mf_rows s)" "ix_id x \<notin> {i}"
    then show "x \<in> set (mf_rows s)" using gone same by (metis imageE singletonI)
  qed
qed

lemma retired_delete: "retired {i} s (delete_row i s)"
  by (auto simp: retired_def delete_row_def delete_where_def)

lemma update_status_ok:
  assumes "readInstalledExtensionById i s = Some r"
  obtains r' where "update_status E i st s = (Inr r', snd (update_status E i st s))"
  using assms by (auto simp: update_status_def update_row_def)

lemma retire_step:
  assumes "manifest_sound s" and r: "r \<in> set (mf_rows s)" and "ix_status r \<noteq> ExLocked"
    and op: "op = OpArchive \<or> op = OpUninstall \<or> op = OpForceDelete"
  shows "\<exists>res s'. transitionExtensionLifecycle E (ix_id r) op SYNC_OPTS s = (Inr res, s') \<and> retired {ix_id r} s s'"
proof -
  have read: "readInstalledExtensionById (ix_id r) s = Some r" by (rule read_row [OF assms(1) r])
  have matrix: "transitionMatrix (ix_status r) op = Inr ExArchived"
    using assms(3) op by (auto simp: transitionMatrix_def DESTRUCTIVE_OPS_def)
  obtain r' s1 where upd: "update_status E (ix_id r) ExArchived s = (Inr r', s1)"
    using update_status_ok [OF read] by metis
  then have touched: "retired {ix_id r} s s1" using retired_touch [of "ix_id r" s E] by simp
  have same: "retired {ix_id r} s s" if "ix_status r = ExArchived"
  proof -
    have "\<not> live x" if "x \<in> set (mf_rows s)" "ix_id x = ix_id r" for x
      using same_row [OF assms(1) that(1) r that(2)] \<open>ix_status r = ExArchived\<close> by simp
    then show ?thesis by (auto simp: retired_def)
  qed
  have gone: "retired {ix_id r} s (delete_with_permissions E r s)"
    using retired_delete [of "ix_id r" s] by (simp add: retired_def rows_delete_with_permissions)
  show ?thesis
  proof (cases "op = OpArchive")
    case True
    then show ?thesis
      using same touched matrix
      by (cases "ix_status r = ExArchived") (simp_all add: transitionExtensionLifecycle_def read upd)
  next
    case False
    then have gone_op: "op = OpUninstall \<or> op = OpForceDelete" "op \<noteq> OpUnlock" using op by auto
    show ?thesis
    proof (cases "op = OpUninstall \<and> isStaticBundleAnchorSource (ix_source r)")
      case True
      then show ?thesis
        using same touched assms(3) matrix
        by (cases "ix_status r = ExArchived") (simp_all add: transitionExtensionLifecycle_def read upd)
    next
      case False
      then have "transitionExtensionLifecycle E (ix_id r) op SYNC_OPTS s = (Inr None, delete_with_permissions E r s)"
        using gone_op assms(3) by (auto simp: transitionExtensionLifecycle_def read matrix)
      then show ?thesis using gone by blast
    qed
  qed
qed

lemma transition_rows_sound: "manifest_sound s \<Longrightarrow> manifest_sound (snd (transition_rows E op rows s))"
proof (induction rows arbitrary: s)
  case (Cons row rows)
  have "manifest_sound (snd (transitionExtensionLifecycle E (ix_id row) op SYNC_OPTS s))"
    by (rule transition_sound [OF Cons.prems])
  then show ?case using Cons.IH by (fastforce split: prod.splits sum.splits)
qed simp

lemma retire_rows:
  assumes "manifest_sound s" and "\<forall>r \<in> set targets. r \<in> set (mf_rows s) \<and> ix_status r \<noteq> ExLocked"
    and "distinct (map ix_id targets)" and op: "op = OpArchive \<or> op = OpUninstall \<or> op = OpForceDelete"
  shows "\<exists>s'. transition_rows E op targets s = (None, s') \<and> retired (ix_id ` set targets) s s'"
  using assms(1-3)
proof (induction targets arbitrary: s)
  case Nil
  then show ?case by (auto simp: retired_def)
next
  case (Cons r rs)
  then have "r \<in> set (mf_rows s)" "ix_status r \<noteq> ExLocked" by auto
  from retire_step [OF Cons.prems(1) this op, of E] obtain res s1 where
    one: "transitionExtensionLifecycle E (ix_id r) op SYNC_OPTS s = (Inr res, s1)" and ret: "retired {ix_id r} s s1" by blast
  have "manifest_sound s1" using transition_sound [OF Cons.prems(1), of E "ix_id r" op SYNC_OPTS] one by simp
  moreover have "x \<in> set (mf_rows s1)" if "x \<in> set rs" for x
    using that ret Cons.prems(2,3) by (auto simp: retired_def image_iff)
  ultimately obtain s2 where "transition_rows E op rs s1 = (None, s2)" "retired (ix_id ` set rs) s1 s2"
    using Cons.IH [of s1] Cons.prems(2,3) by auto
  then show ?case using one retired_trans [OF ret] by auto
qed

lemma distinct_targets: "manifest_sound s \<Longrightarrow> distinct (map ix_id (readInstalledExtensionsByPackageName p s))"
  by (simp add: manifest_sound_def readInstalledExtensionsByPackageName_def distinct_map inj_on_def)

lemma guards_pass:
  assumes "guards H p s = None" and "dh_readable H"
  shows "\<forall>r \<in> set (mf_rows s). ix_packageName r = p \<longrightarrow> ix_status r \<noteq> ExLocked"
    and "\<forall>r \<in> set (mf_rows s). ix_packageName r \<noteq> p \<longrightarrow> live r \<longrightarrow>
           (\<exists>t \<in> set (mf_rows s). ix_packageName t = p) \<longrightarrow>
           (\<forall>d \<in> set (ix_dependencies r). isInstallBlockingEdge d \<longrightarrow> dep_packageName d \<noteq> p)"
proof -
  from assms have locks: "assertNoLockedCanonicalRow H p s = None" and clos: "assertCanonicalArchiveClosure H p s = None"
    by (auto simp: guards_def split: option.splits)
  show "\<forall>r \<in> set (mf_rows s). ix_packageName r = p \<longrightarrow> ix_status r \<noteq> ExLocked"
    using locks assms(2) by (auto simp: assertNoLockedCanonicalRow_def readInstalledExtensionsByPackageName_def list_ex_iff split: if_splits)
  show "\<forall>r \<in> set (mf_rows s). ix_packageName r \<noteq> p \<longrightarrow> live r \<longrightarrow>
           (\<exists>t \<in> set (mf_rows s). ix_packageName t = p) \<longrightarrow>
           (\<forall>d \<in> set (ix_dependencies r). isInstallBlockingEdge d \<longrightarrow> dep_packageName d \<noteq> p)"
  proof (cases "find (\<lambda>r. ix_packageName r = p) (mf_rows s)")
    case None
    then show ?thesis by (auto simp: find_None_iff)
  next
    case (Some t)
    then have "ix_packageName t = p" by (auto dest: find_SomeD)
    then show ?thesis using clos assms(2) Some
      by (auto simp: assertCanonicalArchiveClosure_def assertArchiveDoesNotBreakClosure_def Let_def filter_empty_conv list_ex_iff
            split: if_splits)
  qed
qed

text \<open>Retiring a package that no live row of another package requires keeps the snapshot intact.\<close>

lemma retired_intact:
  assumes "intact (mf_rows s)" and ret: "retired (ix_id ` {r \<in> set (mf_rows s). ix_packageName r = p}) s s'"
    and free: "\<forall>r \<in> set (mf_rows s). ix_packageName r \<noteq> p \<longrightarrow> live r \<longrightarrow> (\<exists>t \<in> set (mf_rows s). ix_packageName t = p) \<longrightarrow>
           (\<forall>d \<in> set (ix_dependencies r). isInstallBlockingEdge d \<longrightarrow> dep_packageName d \<noteq> p)"
    and sound: "manifest_sound s"
  shows "intact (mf_rows s')"
  unfolding intact_def row_intact_def
proof (intro ballI impI)
  fix r d assume r: "r \<in> set (mf_rows s')" "live r" and d: "d \<in> set (ix_dependencies r)" "isInstallBlockingEdge d"
  then have old: "r \<in> set (mf_rows s)" and other: "ix_packageName r \<noteq> p" using ret by (auto simp: retired_def split: if_splits)
  then have "resolves (mf_rows s) (ix_organizationId r) (dep_packageName d)"
    using assms(1) r(2) d unfolding intact_def row_intact_def by blast
  then obtain t where t: "t \<in> set (mf_rows s)" "ix_packageName t = dep_packageName d" "live t"
    "ix_organizationId t = None \<or> ix_organizationId t = ix_organizationId r" by (auto simp: resolves_iff)
  have "ix_packageName t \<noteq> p" using free old other r(2) d t by metis
  then have "ix_id t \<notin> ix_id ` {r \<in> set (mf_rows s). ix_packageName r = p}" using same_row [OF sound] t(1) by auto
  then have "t \<in> set (mf_rows s')" using ret t(1) by (simp add: retired_def)
  then show "resolves (mf_rows s') (ix_organizationId r) (dep_packageName d)" using t by (auto simp: resolves_iff)
qed

section \<open>Reviving the rows of a package\<close>

definition revive :: "ext_env \<Rightarrow> ident set \<Rightarrow> installed_extension \<Rightarrow> installed_extension" where
  "revive E is x = (if ix_id x \<in> is \<and> ix_status x = ExArchived then x\<lparr>ix_status := ExActive, ix_updatedAt := xe_now E\<rparr> else x)"

lemma revive_fields [simp]:
  "ix_id (revive E is x) = ix_id x" "ix_packageName (revive E is x) = ix_packageName x"
  "ix_organizationId (revive E is x) = ix_organizationId x" "ix_dependencies (revive E is x) = ix_dependencies x"
  "live x \<Longrightarrow> revive E is x = x"
  by (simp_all add: revive_def) (auto simp: live_status_iff)

lemma revive_step:
  assumes "manifest_sound s" and r: "r \<in> set (mf_rows s)"
  shows "\<exists>res s'. transitionExtensionLifecycle E (ix_id r) OpActivate SYNC_OPTS s = (Inr res, s')
     \<and> mf_rows s' = map (revive E {ix_id r}) (mf_rows s)"
proof -
  have read: "readInstalledExtensionById (ix_id r) s = Some r" by (rule read_row [OF assms(1) r])
  have only: "x = r" if "x \<in> set (mf_rows s)" "ix_id x = ix_id r" for x using same_row [OF assms(1) that(1) r that(2)] .
  show ?thesis
  proof (cases "ix_status r = ExArchived")
    case True
    obtain r' s1 where upd: "update_status E (ix_id r) ExActive s = (Inr r', s1)" using update_status_ok [OF read] by metis
    then have "mf_rows s1 = map (touch E (ix_id r) (\<lambda>r. r\<lparr>ix_status := ExActive\<rparr>)) (mf_rows s)"
      using update_status_rows [of E "ix_id r" ExActive s] by simp
    also have "\<dots> = map (revive E {ix_id r}) (mf_rows s)" using only True by (auto simp: touch_def revive_def)
    finally show ?thesis using True by (auto simp: transitionExtensionLifecycle_def read upd transitionMatrix_def LOCKED_REJECTED_OPS_def)
  next
    case False
    have "map (revive E {ix_id r}) (mf_rows s) = mf_rows s" 
    proof (rule map_idI)
      fix x assume "x \<in> set (mf_rows s)"
      then show "revive E {ix_id r} x = x" using only [of x] False by (auto simp: revive_def)
    qed
    moreover have "transitionMatrix (ix_status r) OpActivate = Inr (ix_status r)"
      using False by (cases "ix_status r") (simp_all add: transitionMatrix_def LOCKED_REJECTED_OPS_def)
    ultimately show ?thesis by (auto simp: transitionExtensionLifecycle_def read)
  qed
qed

lemma revive_rows:
  assumes "manifest_sound s" and "\<forall>r \<in> set targets. ix_id r \<in> ix_id ` set (mf_rows s)"
  shows "\<exists>s'. transition_rows E OpActivate targets s = (None, s') \<and> mf_rows s' = map (revive E (ix_id ` set targets)) (mf_rows s)"
  using assms
proof (induction targets arbitrary: s)
  case Nil
  have "map (revive E {}) (mf_rows s) = mf_rows s" by (rule map_idI) (simp add: revive_def)
  then show ?case by simp
next
  case (Cons t ts)
  then obtain r where r: "r \<in> set (mf_rows s)" "ix_id r = ix_id t" by auto
  from revive_step [OF Cons.prems(1) r(1), of E] obtain res s1 where
    one: "transitionExtensionLifecycle E (ix_id t) OpActivate SYNC_OPTS s = (Inr res, s1)"
    and rows: "mf_rows s1 = map (revive E {ix_id t}) (mf_rows s)" unfolding r(2) by blast
  have "manifest_sound s1" using transition_sound [OF Cons.prems(1), of E "ix_id t" OpActivate SYNC_OPTS] one by simp
  moreover have "\<forall>r \<in> set ts. ix_id r \<in> ix_id ` set (mf_rows s1)" using Cons.prems(2) by (auto simp: rows image_image)
  ultimately obtain s2 where two: "transition_rows E OpActivate ts s1 = (None, s2)"
    and "mf_rows s2 = map (revive E (ix_id ` set ts)) (mf_rows s1)" using Cons.IH by blast
  moreover have "revive E (ix_id ` set ts) (revive E {ix_id t} x) = revive E (ix_id ` set (t # ts)) x" for x
    by (auto simp: revive_def)
  ultimately show ?case using one rows by simp
qed

lemma restore_check_rows:
  "restore_check sat rows targets = None \<Longrightarrow> t \<in> set targets \<Longrightarrow> row_intact rows t"
proof (induction targets)
  case (Cons a ts)
  have here: "row_intact rows a" if "assertInstallClosure sat rows (ix_organizationId a) a = Inr res" for res
  proof -
    have "cr_missingRequired (computeClosure sat rows (ix_organizationId a) a) = []"
      using that by (auto simp: assertInstallClosure_def Let_def cr_ok_def split: if_splits)
    moreover have "ix_packageName a \<in> reach rows (ix_organizationId a) a" by (simp add: reach_def)
    moreover have "dep_body rows (ix_organizationId a) a (ix_packageName a) = ix_dependencies a" by (simp add: dep_body_def)
    ultimately show ?thesis unfolding missing_required_empty row_intact_def by metis
  qed
  show ?case using Cons here by (auto split: sum.splits)
qed simp

lemma revived_intact:
  assumes "intact (mf_rows s)" and rows: "mf_rows s' = map (revive E is) (mf_rows s)"
    and checked: "\<And>x. x \<in> set (mf_rows s) \<Longrightarrow> ix_status x = ExArchived \<Longrightarrow> ix_id x \<in> is \<Longrightarrow> row_intact (mf_rows s) x"
  shows "intact (mf_rows s')"
  unfolding intact_def row_intact_def
proof (intro ballI impI)
  fix r d assume "r \<in> set (mf_rows s')" "live r" and d: "d \<in> set (ix_dependencies r)" "isInstallBlockingEdge d"
  then obtain x where x: "x \<in> set (mf_rows s)" "r = revive E is x" unfolding rows by auto
  have "row_intact (mf_rows s) x"
  proof (cases "live x")
    case True
    then show ?thesis using assms(1) x(1) by (simp add: intact_def)
  next
    case False
    then have "ix_status x = ExArchived" by (simp add: live_status_iff)
    moreover have "ix_id x \<in> is" using \<open>live r\<close> False x(2) by (rule_tac ccontr) (simp add: revive_def)
    ultimately show ?thesis using checked x(1) by blast
  qed
  then have "resolves (mf_rows s) (ix_organizationId r) (dep_packageName d)" using d x(2) by (simp add: row_intact_def)
  then obtain t where t: "t \<in> set (mf_rows s)" "ix_packageName t = dep_packageName d" "live t"
    "ix_organizationId t = None \<or> ix_organizationId t = ix_organizationId r" by (auto simp: resolves_iff)
  have "revive E is t \<in> set (mf_rows s')" using t(1) by (simp add: rows)
  then have "t \<in> set (mf_rows s')" unfolding revive_fields(5) [OF t(3)] .
  then show "resolves (mf_rows s') (ix_organizationId r) (dep_packageName d)" using t by (auto simp: resolves_iff)
qed

section \<open>Requests\<close>

datatype dispatch_request =
    ReqArchive string package_ref dispatch_actor
  | ReqUninstall string package_ref dispatch_actor
  | ReqRestore string package_ref dispatch_actor

fun dispatch :: "'h registry \<Rightarrow> 'h dispatch_host \<Rightarrow> ext_env \<Rightarrow> dispatch_request \<Rightarrow> 'h world \<Rightarrow> dispatch_error option \<times> 'h world" where
  "dispatch R H E (ReqArchive typeId ref actor) w = archive R H E typeId ref actor w"
| "dispatch R H E (ReqUninstall typeId ref actor) w = uninstall R H E typeId ref actor w"
| "dispatch R H E (ReqRestore typeId ref actor) w = restore R H E typeId ref actor w"

definition dispatch_all :: "'h registry \<Rightarrow> 'h dispatch_host \<Rightarrow> (ext_env \<times> dispatch_request) list \<Rightarrow> 'h world \<Rightarrow> 'h world" where
  "dispatch_all R H reqs w = fold (\<lambda>(E, req) w. snd (dispatch R H E req w)) reqs w"

text \<open>
  The handlers leave the manifest to the dispatcher when they archive, uninstall and restore, as does the hook of a
  restore: the status of a row is written by the lifecycle primitive alone.
\<close>

definition keeps_rows :: "('h world \<Rightarrow> 'a \<times> 'h world) \<Rightarrow> bool" where
  "keeps_rows f \<longleftrightarrow> (\<forall>w. mf_rows (fst (snd (f w))) = mf_rows (fst w))"

definition passive_host :: "'h registry \<Rightarrow> 'h dispatch_host \<Rightarrow> bool" where
  "passive_host R H \<longleftrightarrow>
     (\<forall>k handler ref actor. R k = Some handler \<longrightarrow>
        keeps_rows (kh_archive handler ref actor) \<and> keeps_rows (kh_uninstall handler ref actor) \<and> keeps_rows (kh_restore handler ref actor))
     \<and> (\<forall>hook p org v. dh_activate H = Some hook \<longrightarrow> keeps_rows (hook p org v))"

definition good :: "manifest_db \<Rightarrow> bool" where
  "good s \<longleftrightarrow> manifest_sound s \<and> intact (mf_rows s)"

lemma good_rows: "mf_rows s' = mf_rows s \<Longrightarrow> good s' = good s"
  by (simp add: good_def manifest_sound_def)

lemma handled_transition_good:
  assumes "keeps_rows (act ref actor)" and "good (fst w)"
    and "\<And>s1 s2 E'. mf_rows s1 = mf_rows (fst w) \<Longrightarrow> manifest_sound s1 \<Longrightarrow> dh_readable H \<Longrightarrow>
       snd (transition_rows E' op (readInstalledExtensionsByPackageName (pr_packageName ref) s1) s1) = s2 \<Longrightarrow> good s2"
    and "keeps_rows k"
  shows "good (fst (snd (handled_transition H E act op ref actor k w)))"
proof -
  obtain e s1 h1 where act: "act ref actor w = (e, s1, h1)" by (metis prod.collapse)
  then have rows1: "mf_rows s1 = mf_rows (fst w)" using assms(1) unfolding keeps_rows_def by (metis fst_conv snd_conv)
  then have good1: "good s1" using assms(2) good_rows by blast
  obtain err s2 where sync: "syncCanonicalManifestTransition H (env_at H E h1) (pr_packageName ref) op s1 = (err, s2)" by fastforce
  have "good s2"
  proof (cases "dh_readable H")
    case True
    then have "snd (transition_rows (env_at H E h1) op (readInstalledExtensionsByPackageName (pr_packageName ref) s1) s1) = s2"
      using sync by (auto simp: syncCanonicalManifestTransition_def split: prod.splits)
    then show ?thesis using assms(3) rows1 good1 True unfolding good_def by blast
  next
    case False
    then show ?thesis using sync good1 by (auto simp: syncCanonicalManifestTransition_def)
  qed
  moreover have "mf_rows (fst (snd (k (s2, h1)))) = mf_rows s2" using assms(4) unfolding keeps_rows_def by (metis fst_conv)
  ultimately have k: "good (fst (snd (k (s2, h1))))" using good_rows by blast
  show ?thesis
    using good1 \<open>good s2\<close> k by (cases e; cases err) (simp_all add: handled_transition_def act sync)
qed

lemma keeps_rows_teardown: "keeps_rows (teardown H durable p)"
  by (simp add: keeps_rows_def teardown_def Let_def split: prod.split)

lemma keeps_rows_reregister:
  assumes "passive_host R H"
  shows "keeps_rows (reregister H k ref actor)"
  unfolding keeps_rows_def
proof (intro allI)
  fix w
  have hook: "mf_rows (fst (snd (hook p org v w))) = mf_rows (fst w)" if "dh_activate H = Some hook" for hook p org v
    using assms that unfolding passive_host_def keeps_rows_def by blast
  have "mf_rows (fst (snd (fireExtensionActivate H p org v w))) = mf_rows (fst w)" for p org v
  proof (cases "dh_activate H")
    case (Some f)
    obtain res w' where "f p org v w = (res, w')" by (metis prod.collapse)
    then show ?thesis using hook [OF Some, of p org v] Some by (cases res) (simp_all add: fireExtensionActivate_def)
  qed (simp add: fireExtensionActivate_def)
  then show "mf_rows (fst (snd (reregister H k ref actor w))) = mf_rows (fst w)"
    by (simp add: reregister_def split: prod.split) (metis fst_conv snd_conv)
qed

text \<open>Guarded by the locks and the closures, a transition that retires every row of a package is harmless.\<close>

lemma retire_good:
  assumes "guards H (pr_packageName ref) (fst w) = None" and "good (fst w)"
    and act: "keeps_rows (act ref actor)" and op: "op = OpArchive \<or> op = OpUninstall"
  shows "good (fst (snd (handled_transition H E act op ref actor (teardown H durable (pr_packageName ref)) w)))"
proof (rule handled_transition_good [where act = act and ref = ref and actor = actor, OF act assms(2) _ keeps_rows_teardown])
  fix s1 s2 E'
  let ?p = "pr_packageName ref"
  let ?ts = "readInstalledExtensionsByPackageName ?p s1"
  assume rows: "mf_rows s1 = mf_rows (fst w)" and sound: "manifest_sound s1" and readable: "dh_readable H"
    and result: "snd (transition_rows E' op ?ts s1) = s2"
  note free = guards_pass [OF assms(1) readable, folded rows]
  have targets: "set ?ts = {r \<in> set (mf_rows s1). ix_packageName r = ?p}"
    by (simp add: readInstalledExtensionsByPackageName_def)
  have "\<forall>r \<in> set ?ts. r \<in> set (mf_rows s1) \<and> ix_status r \<noteq> ExLocked" using free(1) unfolding targets by blast
  from retire_rows [OF sound this distinct_targets [OF sound], of op E'] op
  obtain s' where "transition_rows E' op ?ts s1 = (None, s')" "retired (ix_id ` set ?ts) s1 s'" by blast
  then have ret: "retired (ix_id ` {r \<in> set (mf_rows s1). ix_packageName r = ?p}) s1 s2"
    using result unfolding targets by simp
  have "intact (mf_rows s1)" using assms(2) rows by (simp add: good_def)
  from retired_intact [OF this ret free(2) sound] have "intact (mf_rows s2)" .
  moreover have "manifest_sound s2" using transition_rows_sound [OF sound] result by blast
  ultimately show "good s2" by (simp add: good_def)
qed

lemma restore_good:
  assumes check: "assertCanonicalRestoreClosure H (pr_packageName ref) (fst w) = None" and "good (fst w)"
    and act: "keeps_rows (act ref actor)" and k: "keeps_rows k"
  shows "good (fst (snd (handled_transition H E act OpActivate ref actor k w)))"
proof (rule handled_transition_good [where act = act and ref = ref and actor = actor, OF act assms(2) _ k])
  fix s1 s2 E'
  let ?ts = "readInstalledExtensionsByPackageName (pr_packageName ref) s1"
  assume rows: "mf_rows s1 = mf_rows (fst w)" and sound: "manifest_sound s1" and readable: "dh_readable H"
    and result: "snd (transition_rows E' OpActivate ?ts s1) = s2"
  have targets: "set ?ts = {r \<in> set (mf_rows s1). ix_packageName r = pr_packageName ref}"
    by (simp add: readInstalledExtensionsByPackageName_def)
  then have "\<forall>r \<in> set ?ts. ix_id r \<in> ix_id ` set (mf_rows s1)" by blast
  from revive_rows [OF sound this, of E'] result
  have s2: "mf_rows s2 = map (revive E' (ix_id ` set ?ts)) (mf_rows s1)" by auto
  have "intact (mf_rows s1)" using assms(2) rows by (simp add: good_def)
  then have "intact (mf_rows s2)"
  proof (rule revived_intact [OF _ s2])
    fix x assume x: "x \<in> set (mf_rows s1)" "ix_status x = ExArchived" "ix_id x \<in> ix_id ` set ?ts"
    then have "ix_packageName x = pr_packageName ref" using same_row [OF sound] unfolding targets by blast
    then have "x \<in> set (filter (\<lambda>r. ix_packageName r = pr_packageName ref \<and> ix_status r = ExArchived) (mf_rows s1))" using x by simp
    then show "row_intact (mf_rows s1) x"
      using check readable rows restore_check_rows unfolding assertCanonicalRestoreClosure_def by fastforce
  qed
  moreover have "manifest_sound s2" using transition_rows_sound [OF sound] result by blast
  ultimately show "good s2" by (simp add: good_def)
qed

lemma dispatch_good:
  assumes "passive_host R H" and "good (fst w)"
  shows "good (fst (snd (dispatch R H E req w)))"
proof (cases req)
  case (ReqArchive typeId ref actor)
  then show ?thesis
    using assms retire_good [OF _ assms(2), where op = OpArchive]
    by (auto simp: archive_def Let_def passive_host_def split: option.split)
next
  case (ReqUninstall typeId ref actor)
  then show ?thesis
    using assms retire_good [OF _ assms(2), where op = OpArchive] retire_good [OF _ assms(2), where op = OpUninstall]
    by (auto simp: uninstall_def Let_def passive_host_def split: option.split sum.split)
next
  case (ReqRestore typeId ref actor)
  have "keeps_rows (kh_restore handler ref actor)" if "R typeId = Some handler" for handler
    using that assms(1) by (simp add: passive_host_def)
  then show ?thesis
    using assms(2) restore_good [OF _ assms(2) _ keeps_rows_reregister [OF assms(1)]] ReqRestore
    by (auto simp: restore_def split: option.split)
qed


text \<open>Two bundled packages, the second requires the first; the handlers of the workflow kind have nothing to do.\<close>

definition sample_handler :: "unit kind_handler" where
  "sample_handler =
     \<lparr>kh_typeId = ''workflow'', kh_install = (\<lambda>_ _ w. (None, w)), kh_update = (\<lambda>_ _ w. (None, w)), kh_uninstall = (\<lambda>_ _ w. (None, w)),
      kh_archive = (\<lambda>_ _ w. (None, w)), kh_restore = (\<lambda>_ _ w. (None, w))\<rparr>"

definition sample_registry :: "unit registry" where
  "sample_registry = register sample_handler Map.empty"

definition sample_host :: "unit dispatch_host" where
  "sample_host =
     \<lparr>dh_readable = True, dh_systemExtensions = [''@acme/base''], dh_requiredEntries = [], dh_satisfies = (\<lambda>_ _. True),
      dh_newId = ''r9'', dh_phase = (\<lambda>_ _ _. None), dh_dependents = (\<lambda>_ _. []), dh_runs = (\<lambda>_ _. 0), dh_template = (\<lambda>_ _. None),
      dh_audit = (\<lambda>_ _ h. (None, h)), dh_removeRuns = (\<lambda>_ h. h), dh_activate = None,
      dh_capabilityTeardown = (\<lambda>_ h. h), dh_dataTeardown = (\<lambda>_ h. h)\<rparr>"

definition sample_pair :: manifest_db where
  "sample_pair =
     \<lparr>mf_rows = [sample_anchor\<lparr>ix_status := ExActive\<rparr>,
                 sample_anchor\<lparr>ix_id := ''r2'', ix_packageName := ''@acme/crm'', ix_status := ExActive,
                               ix_dependencies := [sample_dep ''@acme/mail'']\<rparr>],
      mf_policies = [], mf_coOwners = []\<rparr>"

definition sample_ref :: "string \<Rightarrow> package_ref" where
  "sample_ref p = \<lparr>pr_registryUrl = [], pr_packageName = p, pr_version = []\<rparr>"

definition sample_actor :: dispatch_actor where
  "sample_actor = \<lparr>da_userId = Some ''u1'', da_orgId = None\<rparr>"

definition sample_requests :: "(ext_env \<times> dispatch_request) list" where
  "sample_requests = map (Pair sample_env)
     [ReqArchive ''workflow'' (sample_ref ''@acme/mail'') sample_actor, ReqUninstall ''workflow'' (sample_ref ''@acme/crm'') sample_actor,
      ReqArchive ''workflow'' (sample_ref ''@acme/mail'') sample_actor, ReqRestore ''workflow'' (sample_ref ''@acme/crm'') sample_actor,
      ReqRestore ''workflow'' (sample_ref ''@acme/mail'') sample_actor]"

lemma sample_host_passive: "passive_host sample_registry sample_host"
  by (simp add: passive_host_def sample_registry_def register_def sample_handler_def sample_host_def keeps_rows_def)

lemma sample_pair_sound: "manifest_sound sample_pair"
  by (simp add: manifest_sound_def sample_pair_def sample_anchor_def platform_invariant_def PLATFORM_OWNER_SENTINEL_def
      same_identity_def)


section \<open>Failed installations\<close>

text \<open>The row an installation answers for: the one it inserted, or the unfinished live row it found.\<close>

definition owned_row :: "(dispatch_error + install_ensure) \<Rightarrow> ident option" where
  "owned_row r = (case r of Inr e \<Rightarrow> if en_ownsRollback e then en_rowId e else None | Inl _ \<Rightarrow> None)"

definition settled_row :: "phase_reader \<Rightarrow> ident \<Rightarrow> manifest_db \<Rightarrow> bool" where
  "settled_row phase_of i s \<longleftrightarrow>
     (case readInstalledExtensionById i s of None \<Rightarrow> True | Some r \<Rightarrow> \<not> isNonFinalizedLiveRowAware phase_of r)"

lemma rollback_settles:
  assumes "rollbackNonFinalizedCanonicalRow H E i w = (s', h')" and "dh_readable H"
  shows "settled_row (dh_phase H h') i s'"
proof -
  obtain s h where w: "w = (s, h)" by fastforce
  have gone: "readInstalledExtensionById i (delete_row i s) = None"
    by (auto simp: readInstalledExtensionById_def delete_row_def delete_where_def find_None_iff)
  show ?thesis
    using assms gone
    by (auto simp: w settled_row_def rollbackNonFinalizedCanonicalRow_def deleteNonFinalizedCanonicalRow_def env_at_def
        split: option.splits if_splits)
qed

lemma rollback_owned_settles:
  assumes "rollback_owned H E e w = (s', h')" and "dh_readable H" and "owned_row (Inr e) = Some i" and "i \<noteq> []"
  shows "settled_row (dh_phase H h') i s'"
  using assms rollback_settles [of H E i w s' h'] by (auto simp: rollback_owned_def owned_row_def split: if_splits)

text \<open>An installation of a connector from the registry always runs the pipeline, whatever rows it finds.\<close>

lemma reactivate_some:
  assumes "manifest_sound s" and "\<forall>r \<in> set rows. ix_id r \<in> ix_id ` set (mf_rows s)"
    and "latest \<noteq> None \<or> (\<exists>r \<in> set rows. ix_status r = ExArchived)"
  shows "fst (reactivate_rows E rows latest s) \<noteq> None"
  using assms
proof (induction rows arbitrary: latest s)
  case (Cons a rows)
  obtain r where r: "r \<in> set (mf_rows s)" "ix_id r = ix_id a" using Cons.prems(2) by auto
  from revive_step [OF Cons.prems(1) r(1), of E] obtain res s1 where
    one: "transitionExtensionLifecycle E (ix_id a) OpActivate SYNC_OPTS s = (Inr res, s1)"
    and rows: "mf_rows s1 = map (revive E {ix_id a}) (mf_rows s)" unfolding r(2) by blast
  have sound: "manifest_sound s1" using transition_sound [OF Cons.prems(1), of E "ix_id a" OpActivate SYNC_OPTS] one by simp
  have ids: "\<forall>r \<in> set rows. ix_id r \<in> ix_id ` set (mf_rows s1)" using Cons.prems(2) by (auto simp: rows image_image)
  show ?case
  proof (cases "ix_status a = ExArchived")
    case True
    then show ?thesis using Cons.IH [OF sound ids, of "Some (ix_id a)"] one by simp
  next
    case False
    then show ?thesis using Cons.IH [OF Cons.prems(1), of latest] Cons.prems by simp
  qed
qed simp

lemma connector_needs_pipeline:
  assumes "fst (syncCanonicalManifestInstall H E ''connector'' ref org is_update s) = Inr e" and "manifest_sound s"
    and "dh_readable H" and "isVerdaccioBackedRef ref"
  shows "en_needsPipeline e"
proof -
  define existing where "existing = filter (\<lambda>r. ix_organizationId r = org) (readInstalledExtensionsByPackageName (pr_packageName ref) s)"
  show ?thesis
  proof (cases "existing = []")
    case True
    then show ?thesis
      using assms(1,3,4) unfolding syncCanonicalManifestInstall_def Let_def existing_def [symmetric]
      by (auto simp: KINDS_USING_ACTIVATE_HOOK_def split: option.splits prod.splits sum.splits if_splits)
  next
    case False
    obtain re s1 where re: "reactivate_rows E existing None s = (re, s1)" by fastforce
    have "\<forall>r \<in> set existing. ix_id r \<in> ix_id ` set (mf_rows s)"
      by (auto simp: existing_def readInstalledExtensionsByPackageName_def)
    then have some: "re \<noteq> None" if "\<exists>r \<in> set existing. ix_status r = ExArchived"
      using reactivate_some [OF assms(2), of existing None E] that re by simp
    have some_live: "find live existing \<noteq> None" if "re = None"
      using some that False by (cases existing) (auto simp: find_None_iff live_status_iff)
    have "e = fst (ensure_existing E ''connector'' is_update existing s)"
      using assms(1,3,4) False unfolding syncCanonicalManifestInstall_def Let_def existing_def [symmetric]
      by (simp split: prod.splits)
    then show ?thesis
      using some_live by (auto simp: ensure_existing_def re KINDS_USING_ACTIVATE_HOOK_def split: option.splits)
  qed
qed

text \<open>
  What an installation promises: success of a connector is the word of the pipeline; after a failure short of
  finalization the row it answers for is settled, a failure after it is the word of the pipeline too, and every other
  refusal changes nothing.
\<close>

definition pipeline_said :: "'h dispatch_host \<Rightarrow> package_ref \<Rightarrow> dispatch_actor \<Rightarrow> 'h world \<Rightarrow> bool \<Rightarrow> bool" where
  "pipeline_said H ref actor w' ok \<longleftrightarrow>
     (\<exists>res w2. fireExtensionActivate H (pr_packageName ref) (da_orgId actor) (pr_version ref) w2 = (res, w')
        \<and> ar_finalized res = Some True \<and> (ar_activated res \<and> ar_rolledBack res \<noteq> Some True) = ok)"

definition install_promise ::
  "'h dispatch_host \<Rightarrow> ext_env \<Rightarrow> string \<Rightarrow> package_ref \<Rightarrow> dispatch_actor \<Rightarrow> bool \<Rightarrow> 'h world \<Rightarrow> dispatch_error option \<Rightarrow> 'h world \<Rightarrow> bool" where
  "install_promise H E typeId ref actor is_update w r w' \<longleftrightarrow>
     (case r of
        None \<Rightarrow> typeId = ''connector'' \<longrightarrow> pipeline_said H ref actor w' True
      | Some err \<Rightarrow>
          if err \<in> {RollbackIncomplete, UpdateRolledBack, FinalizedNotActivated} then pipeline_said H ref actor w' False
          else if err \<in> {NotFinalized, NotHotActivated} \<or> (\<exists>msg. err = HandlerThrew msg)
          then (\<forall>i. owned_row (fst (syncCanonicalManifestInstall H (env_at H E (snd w)) typeId ref (da_orgId actor) is_update (fst w))) = Some i
                    \<longrightarrow> i \<noteq> [] \<longrightarrow> settled_row (dh_phase H (snd w')) i (fst w'))
          else w' = w)"

lemma sync_install_refused:
  assumes "syncCanonicalManifestInstall H E k ref org is_update s = (Inl err, s')"
  shows "err = RowNotEnsured \<and> s' = s"
proof -
  have insert_same: "s2 = s" if "installExtensionManifest E row st s = (Inl x, s2)" for row st x s2
    using that by (auto simp: installExtensionManifest_def insert_row_def Let_def split: if_splits)
  show ?thesis
    using assms unfolding syncCanonicalManifestInstall_def Let_def
    by (auto split: if_splits option.splits prod.splits sum.splits dest: insert_same)
qed

lemma pipeline_outcome_promise:
  assumes fire: "fireExtensionActivate H (pr_packageName ref) (da_orgId actor) (pr_version ref) w2 = (res, w3)"
    and out: "pipeline_outcome H E e res w3 = (r, w')" and "dh_readable H"
    and own: "fst (syncCanonicalManifestInstall H (env_at H E (snd w)) typeId ref (da_orgId actor) is_update (fst w)) = Inr e"
  shows "install_promise H E typeId ref actor is_update w r w'"
proof (cases "ar_finalized res = Some True")
  case True
  define ok where "ok = (ar_activated res \<and> ar_rolledBack res \<noteq> Some True)"
  have "w' = w3" and r: "r = None \<and> ok \<or> (r = Some RollbackIncomplete \<or> r = Some UpdateRolledBack \<or> r = Some FinalizedNotActivated) \<and> \<not> ok"
    using out True by (auto simp: pipeline_outcome_def ok_def split: if_splits)
  then have "pipeline_said H ref actor w' ok"
    using fire True unfolding ok_def pipeline_said_def by blast
  then show ?thesis using r by (cases ok) (auto simp: install_promise_def)
next
  case False
  then have "rollback_owned H E e w3 = w'" and r: "r = Some NotFinalized \<or> r = Some NotHotActivated"
    using out by (auto simp: pipeline_outcome_def split: if_splits)
  then have "settled_row (dh_phase H (snd w')) i (fst w')" if "owned_row (Inr e) = Some i" "i \<noteq> []" for i
    using rollback_owned_settles [of H E e w3 "fst w'" "snd w'" i] assms(3) that by simp
  then show ?thesis using r own by (auto simp: install_promise_def)
qed

text \<open>
  C15. Installing or updating a package of the registry, on a sound manifest that can be read: a connector is reported
  installed only where the pipeline said finalized and activated; where the handler throws or the pipeline does not
  finalize, the row the installation inserted, or the unfinished live row it took over, is deleted unless it has been
  finalized meanwhile; every refusal before that leaves the state as it was.
\<close>

theorem install_keeps_its_promise:
  assumes "manifest_sound s" and "dh_readable H" and "isVerdaccioBackedRef ref"
    and "runHostInstall R H E typeId ref actor is_update (s, h) = (r, w')"
  shows "install_promise H E typeId ref actor is_update (s, h) r w'"
proof -
  consider (refused) err where "r = Some err" "w' = (s, h)"
      "err = NoHandler \<or> (\<exists>x. err = PinRefused x) \<or> (\<exists>x. err = ClosureRefused x)"
    | (handled) handler where "install_with_handler H E handler typeId ref actor is_update (s, h) = (r, w')"
    using assms(2,4) by (auto simp: runHostInstall_def split: option.splits if_splits)
  then show ?thesis
  proof cases
    case refused
    then show ?thesis by (auto simp: install_promise_def)
  next
    case handled
    obtain sync s1 where sync: "syncCanonicalManifestInstall H (env_at H E h) typeId ref (da_orgId actor) is_update s = (sync, s1)" by fastforce
    show ?thesis
    proof (cases sync)
      case (Inl err)
      then show ?thesis using sync_install_refused [OF sync [unfolded Inl]] handled sync
        by (auto simp: install_with_handler_def install_promise_def)
    next
      case (Inr e)
      define act where "act = (if is_update then kh_update handler ref actor (s1, h) else kh_install handler ref actor (s1, h))"
      obtain thrown w2 where act: "act = (thrown, w2)" by (metis prod.collapse)
      note own = sync [unfolded Inr, THEN arg_cong [where f = fst], unfolded fst_conv]
      show ?thesis
      proof (cases thrown)
        case (Some msg)
        then have "r = Some (HandlerThrew msg)" "w' = rollback_owned H E e w2"
          using handled sync Inr act unfolding install_with_handler_def act_def by simp_all
        moreover have "settled_row (dh_phase H (snd w')) i (fst w')" if "owned_row (Inr e) = Some i" "i \<noteq> []" for i
          using rollback_owned_settles [of H E e w2 "fst w'" "snd w'" i] assms(2) that calculation by simp
        ultimately show ?thesis using own by (simp add: install_promise_def)
      next
        case None
        show ?thesis
        proof (cases "\<not> en_needsPipeline e \<or> typeId \<notin> set KINDS_USING_ACTIVATE_HOOK")
          case True
          then have "r = None" using handled sync Inr act None unfolding install_with_handler_def act_def by simp
          moreover have "typeId \<noteq> ''connector''"
            using True connector_needs_pipeline [OF _ assms(1-3), where E = "env_at H E h" and e = e] own
            by (auto simp: KINDS_USING_ACTIVATE_HOOK_def)
          ultimately show ?thesis by (simp add: install_promise_def)
        next
          case False
          obtain res w3 where fire: "fireExtensionActivate H (pr_packageName ref) (da_orgId actor) (pr_version ref) w2 = (res, w3)"
            by (metis prod.collapse)
          then have "pipeline_outcome H E e res w3 = (r, w')"
            using False handled sync Inr act None unfolding install_with_handler_def act_def by simp
          then show ?thesis using pipeline_outcome_promise [OF fire _ assms(2)] own by simp
        qed
      qed
    qed
  qed
qed

definition sample_connectors :: "unit registry" where
  "sample_connectors = registerIfAbsent (sample_handler\<lparr>kh_typeId := ''connector''\<rparr>) sample_registry"

definition failing_host :: "unit dispatch_host" where
  "failing_host = sample_host\<lparr>dh_activate := Some (\<lambda>_ _ _ w.
     (Some \<lparr>ar_activated = False, ar_finalized = Some False, ar_rolledBack = None, ar_rollbackComplete = None\<rparr>, w))\<rparr>"

lemma install_keeps_its_promise_witness:
  "install_promise failing_host sample_env ''connector'' (sample_ref ''@acme/pay'') sample_actor False (sample_manifest, ())
     (Some NotFinalized) (sample_manifest, ())
   \<and> owned_row (fst (syncCanonicalManifestInstall failing_host (env_at failing_host sample_env ()) ''connector'' (sample_ref ''@acme/pay'')
       None False sample_manifest)) = Some ''r9''"
proof
  have run: "runHostInstall sample_connectors failing_host sample_env ''connector'' (sample_ref ''@acme/pay'') sample_actor False
      (sample_manifest, ()) = (Some NotFinalized, sample_manifest, ())" by code_simp
  have "isVerdaccioBackedRef (sample_ref ''@acme/pay'')" "dh_readable failing_host" by code_simp+
  then show "install_promise failing_host sample_env ''connector'' (sample_ref ''@acme/pay'') sample_actor False (sample_manifest, ())
     (Some NotFinalized) (sample_manifest, ())"
    using install_keeps_its_promise [OF sample_manifest_sound _ _ run] by simp
qed code_simp

end
