(* ===== verification/Ext_Access.thy ===== *)
theory Ext_Access
  imports Ext_Store
begin

text \<open>
  Who may use an extension, and who may say so: the evaluator (\<^verbatim>\<open>enforce-extension-access.ts\<close>, with the resources of
  \<^verbatim>\<open>extension-resource-identity.ts\<close>), the visibilities of runs (\<^verbatim>\<open>packages/agents\<close>: \<^verbatim>\<open>auth-policy-types.ts\<close> and
  \<open>policyAllows\<close> of \<^verbatim>\<open>auth-policy.ts\<close>), the containment of policies (\<^verbatim>\<open>scope-containment.ts\<close>) with the scopes a form offers
  (\<^verbatim>\<open>scope-containment-filter.ts\<close>), the access set at installation (\<^verbatim>\<open>install-access-contract.ts\<close>), and the actions that
  change permissions (\<^verbatim>\<open>permissions-actions.ts\<close>, with the hooks of \<^verbatim>\<open>permissions-kind-hooks.ts\<close>). Runs, templates,
  skills, users, teams and projects belong to other packages: what is read of them is the record \<open>permissions_host\<close>. The
  best-effort projections to legacy tables, which run after the canonical write, are left out.
\<close>

section \<open>Kinds and policies\<close>

definition access_kind_text :: "access_kind \<Rightarrow> string" where
  "access_kind_text k =
     (case k of AccAgentRun \<Rightarrow> ''agent_run'' | AccAgentTemplate \<Rightarrow> ''agent_template'' | AccSkillPackage \<Rightarrow> ''skill_package''
        | AccSkill \<Rightarrow> ''skill'' | AccConnector \<Rightarrow> ''connector'' | AccArtifact \<Rightarrow> ''artifact'' | AccWorkflow \<Rightarrow> ''workflow'')"

definition ALL_EXTENSION_KINDS :: "access_kind list" where
  "ALL_EXTENSION_KINDS = [AccAgentRun, AccAgentTemplate, AccSkillPackage, AccSkill, AccConnector, AccArtifact, AccWorkflow]"

text \<open>\<open>isExtensionKind\<close>: the kind a string names.\<close>

definition access_kind_named :: "string \<Rightarrow> access_kind option" where
  "access_kind_named t = find (\<lambda>k. access_kind_text k = t) ALL_EXTENSION_KINDS"

definition uniform_policy :: "string \<Rightarrow> access_policy" where
  "uniform_policy v = \<lparr>apo_list = v, apo_data = v, apo_execute = v, apo_sharing = False, apo_description = None\<rparr>"

definition DEFAULT_EXTENSION_ACCESS_POLICY :: access_policy where
  "DEFAULT_EXTENSION_ACCESS_POLICY = uniform_policy ''workspace''"

definition hex_char :: "char \<Rightarrow> bool" where
  "hex_char c \<longleftrightarrow> (let n = of_char c :: nat in (48 \<le> n \<and> n \<le> 57) \<or> (97 \<le> n \<and> n \<le> 102) \<or> (65 \<le> n \<and> n \<le> 70))"

fun hex_groups :: "nat list \<Rightarrow> string \<Rightarrow> bool" where
  "hex_groups [] t \<longleftrightarrow> t = []"
| "hex_groups [n] t \<longleftrightarrow> length t = n \<and> list_all hex_char t"
| "hex_groups (n # ns) t \<longleftrightarrow>
     list_all hex_char (take n t) \<and> (case drop n t of CHR ''-'' # rest \<Rightarrow> length (take n t) = n \<and> hex_groups ns rest | _ \<Rightarrow> False)"

definition uuid_tail :: "string \<Rightarrow> bool" where
  "uuid_tail t \<longleftrightarrow> hex_groups [8, 4, 4, 4, 12] t"

definition visibility_valid :: "string \<Rightarrow> bool" where
  "visibility_valid v \<longleftrightarrow>
     v \<in> {''owner'', ''org'', ''admin'', ''workspace''}
     \<or> starts_with v ''org:'' \<and> uuid_tail (drop 4 v)
     \<or> starts_with v ''team:'' \<and> uuid_tail (drop 5 v)
     \<or> starts_with v ''project:'' \<and> uuid_tail (drop 8 v)"

text \<open>\<open>AgentAuthPolicySchema.safeParse\<close>: the keys the schema does not name are dropped.\<close>

definition parse_visibility :: "json \<Rightarrow> string \<Rightarrow> string option" where
  "parse_visibility j k = (case get_str j k of Some v \<Rightarrow> if visibility_valid v then Some v else None | None \<Rightarrow> None)"

definition parse_policy :: "json \<Rightarrow> access_policy option" where
  "parse_policy j =
     (case (parse_visibility j ''runListVisibility'', parse_visibility j ''runDataVisibility'',
            parse_visibility j ''runExecuteVisibility'', get j ''allowRunSharing'', get j ''description'') of
        (Some l, Some d, Some e, Some (JBool b), None) \<Rightarrow>
          Some \<lparr>apo_list = l, apo_data = d, apo_execute = e, apo_sharing = b, apo_description = None\<rparr>
      | (Some l, Some d, Some e, Some (JBool b), Some (JStr t)) \<Rightarrow>
          Some \<lparr>apo_list = l, apo_data = d, apo_execute = e, apo_sharing = b, apo_description = Some t\<rparr>
      | _ \<Rightarrow> None)"

section \<open>Actors\<close>

datatype principal_type = HumanUser | ServiceAccount | ExternalA2AAgent | InternalWorker | SystemPrincipal

record access_actor =
  aa_type :: principal_type
  aa_principalId :: ident
  aa_organizationId :: "ident option"
  aa_teamIds :: "ident list option"
  aa_projectIds :: "ident list option"
  aa_platformRole :: "string option"
  aa_orgRole :: "string option"

definition actor_platform_admin :: "access_actor \<Rightarrow> bool" where
  "actor_platform_admin a \<longleftrightarrow> aa_platformRole a = Some ''platform_admin''"

definition humanUserId :: "access_actor \<Rightarrow> ident option" where
  "humanUserId a = (if aa_type a = HumanUser then Some (aa_principalId a) else None)"

text \<open>The three scoped visibilities, in the order the code tests them.\<close>

definition scope_admits :: "string \<Rightarrow> access_actor \<Rightarrow> bool option" where
  "scope_admits v a =
     (if starts_with v ''org:'' then Some (aa_organizationId a = Some (drop 4 v))
      else if starts_with v ''team:'' then Some (drop 5 v \<in> set (nullish (aa_teamIds a) []))
      else if starts_with v ''project:'' then Some (drop 8 v \<in> set (nullish (aa_projectIds a) []))
      else None)"

section \<open>The evaluator (enforce-extension-access.ts)\<close>

datatype access_op = AccList | AccRead | AccUse | AccExecute | AccShare | AccManage

record owner_context =
  oc_ownerLevel :: owner_level
  oc_ownerId :: "ident option"
  oc_organizationId :: "ident option"

datatype deny_reason = DenyNoActor | DenyCrossOrg | DenyNotVisible | DenyManage

definition isAdminOfOwner :: "access_actor \<Rightarrow> owner_context \<Rightarrow> bool" where
  "isAdminOfOwner a owner \<longleftrightarrow>
     actor_platform_admin a
     \<or> (truthy (oc_organizationId owner) \<and> aa_organizationId a = oc_organizationId owner
        \<and> (aa_orgRole a = Some ''org_owner'' \<or> aa_orgRole a = Some ''org_admin''))"

definition visibilityFieldForOp :: "access_op \<Rightarrow> access_policy \<Rightarrow> string" where
  "visibilityFieldForOp op p = (case op of AccList \<Rightarrow> apo_list p | AccExecute \<Rightarrow> apo_execute p | _ \<Rightarrow> apo_data p)"

definition visibilityAllows :: "string \<Rightarrow> access_actor \<Rightarrow> owner_context \<Rightarrow> bool" where
  "visibilityAllows v a owner \<longleftrightarrow>
     (if actor_platform_admin a then True
      else if v = ''owner'' then False
      else if v = ''workspace'' then True
      else
        (case scope_admits v a of
           Some b \<Rightarrow> b
         | None \<Rightarrow> if v = ''admin'' then isAdminOfOwner a owner else v = ''org''))"

text \<open>\<open>None\<close>: allowed.\<close>

definition evaluateExtensionAccess ::
  "access_policy \<Rightarrow> ident list \<Rightarrow> ident option \<Rightarrow> owner_context \<Rightarrow> access_actor option \<Rightarrow> access_op \<Rightarrow> deny_reason option" where
  "evaluateExtensionAccess policy coOwners installedBy owner actor op =
     (case actor of
        None \<Rightarrow> Some DenyNoActor
      | Some a \<Rightarrow>
          if actor_platform_admin a then None
          else if truthy (oc_organizationId owner) \<and> aa_organizationId a \<noteq> oc_organizationId owner then Some DenyCrossOrg
          else
            (let uid = humanUserId a;
                 ownerMatch = (uid \<noteq> None \<and> (uid = installedBy \<or> oc_ownerLevel owner = OwnUser \<and> uid = oc_ownerId owner));
                 coOwnerMatch = (case uid of None \<Rightarrow> False | Some u \<Rightarrow> u \<in> set coOwners);
                 adminMatch = isAdminOfOwner a owner
             in if op = AccManage then (if adminMatch \<or> ownerMatch \<or> coOwnerMatch then None else Some DenyManage)
                else if ownerMatch \<or> coOwnerMatch then None
                else if op = AccShare \<and> \<not> apo_sharing policy \<and> \<not> adminMatch then Some DenyNotVisible
                else if visibilityAllows (visibilityFieldForOp op policy) a owner then None
                else Some DenyNotVisible))"

record access_resource =
  ar_kind :: access_kind
  ar_resourceId :: ident
  ar_owner :: owner_context
  ar_fallback :: "access_policy option"

definition resolveDecision :: "access_resource \<Rightarrow> access_actor option \<Rightarrow> access_op \<Rightarrow> manifest_db \<Rightarrow> deny_reason option" where
  "resolveDecision r actor op s =
     (let k = ar_kind r; i = ar_resourceId r
      in evaluateExtensionAccess
           (nullish (readExtensionAccessPolicy k i s) (nullish (ar_fallback r) DEFAULT_EXTENSION_ACCESS_POLICY))
           (map ow_userId (readExtensionCoOwners k i s)) (readExtensionInstalledBy k i s) (ar_owner r) actor op)"

definition canExtensionAccess :: "access_resource \<Rightarrow> access_actor option \<Rightarrow> access_op \<Rightarrow> manifest_db \<Rightarrow> deny_reason option" where
  "canExtensionAccess = resolveDecision"

text \<open>The status code and the reason of the error thrown.\<close>

definition enforceExtensionAccess :: "access_resource \<Rightarrow> access_actor option \<Rightarrow> access_op \<Rightarrow> manifest_db \<Rightarrow> (nat \<times> string) option" where
  "enforceExtensionAccess r actor op s =
     (case resolveDecision r actor op s of
        None \<Rightarrow> None
      | Some DenyNoActor \<Rightarrow> Some (401, ''no_session'')
      | Some DenyCrossOrg \<Rightarrow> Some (404, ''hidden'')
      | Some _ \<Rightarrow> Some (403, ''forbidden''))"

definition toOwnerContext :: "installed_extension \<Rightarrow> owner_context" where
  "toOwnerContext row =
     \<lparr>oc_ownerLevel = ix_ownerLevel row, oc_ownerId = ix_ownerId row, oc_organizationId = ix_organizationId row\<rparr>"

definition resolveConnectorResource :: "ident option \<Rightarrow> string \<Rightarrow> manifest_db \<Rightarrow> (ident \<times> owner_context) option" where
  "resolveConnectorResource org name s =
     (if \<not> truthy org then None
      else
        (case readInstalledExtensionByIdentity
                \<lparr>ci_organizationId = org, ci_ownerLevel = OwnOrganization, ci_ownerId = org, ci_packageName = name\<rparr> s of
           None \<Rightarrow> None
         | Some row \<Rightarrow> if ix_kind row \<noteq> KConnector then None else Some (ix_id row, toOwnerContext row)))"

definition resolveInstalledExtensionResource ::
  "ident \<Rightarrow> extension_kind option \<Rightarrow> manifest_db \<Rightarrow> (ident \<times> owner_context) option" where
  "resolveInstalledExtensionResource i expected s =
     (case readInstalledExtensionById i s of
        None \<Rightarrow> None
      | Some row \<Rightarrow> if expected \<noteq> None \<and> Some (ix_kind row) \<noteq> expected then None else Some (ix_id row, toOwnerContext row))"

section \<open>Runs of agents (auth-policy.ts)\<close>

datatype run_op = RunList | RunRead | RunExecute | RunApproveHitl | RunRespondToHitl | RunEditOutput | RunCancel | RunShare

definition run_visibility :: "run_op \<Rightarrow> access_policy \<Rightarrow> string" where
  "run_visibility op p =
     (case op of RunList \<Rightarrow> apo_list p
        | RunRead \<Rightarrow> apo_data p | RunEditOutput \<Rightarrow> apo_data p | RunShare \<Rightarrow> apo_data p
        | RunExecute \<Rightarrow> apo_execute p | RunApproveHitl \<Rightarrow> apo_execute p | RunRespondToHitl \<Rightarrow> apo_execute p | RunCancel \<Rightarrow> apo_execute p)"

definition policyAllows :: "access_policy \<Rightarrow> run_op \<Rightarrow> access_actor \<Rightarrow> bool" where
  "policyAllows p op a \<longleftrightarrow>
     (if actor_platform_admin a then True
      else if op = RunShare \<and> \<not> apo_sharing p then False
      else
        (let v = run_visibility op p
         in if v = ''workspace'' then True
            else (case scope_admits v a of Some b \<Rightarrow> b | None \<Rightarrow> v \<noteq> ''admin'' \<and> v \<noteq> ''owner'')))"

section \<open>Containment (scope-containment.ts)\<close>

record containment_lookups =
  cl_teamOrg :: "ident \<Rightarrow> ident option"
  cl_projectOrg :: "ident \<Rightarrow> ident option"
  cl_legacyOrg :: "ident option"

definition resolveLegacyOrgVisibility :: "string \<Rightarrow> containment_lookups \<Rightarrow> string option" where
  "resolveLegacyOrgVisibility v L =
     (if v = ''org''
      then (case cl_legacyOrg L of Some i \<Rightarrow> if i \<noteq> [] then Some (''org:'' @ i) else None | None \<Rightarrow> None)
      else Some v)"

definition visibilityContainedBy :: "string \<Rightarrow> string \<Rightarrow> containment_lookups \<Rightarrow> bool" where
  "visibilityContainedBy child parent L \<longleftrightarrow>
     (if child = ''owner'' then True
      else
        (case (resolveLegacyOrgVisibility child L, resolveLegacyOrgVisibility parent L) of
           (Some cv, Some pv) \<Rightarrow>
             if pv = ''workspace''
             then cv = ''workspace'' \<or> cv = ''admin'' \<or> starts_with cv ''org:'' \<or> starts_with cv ''team:'' \<or> starts_with cv ''project:''
             else if cv = ''admin'' then pv = ''admin''
             else if pv = ''admin'' then False
             else if starts_with cv ''org:'' \<and> starts_with pv ''org:'' then cv = pv
             else if starts_with cv ''team:''
             then (if cv = pv then True
                   else starts_with pv ''org:'' \<and> cl_teamOrg L (drop 5 cv) = Some (drop 4 pv))
             else if starts_with cv ''project:''
             then (if cv = pv then True
                   else starts_with pv ''org:'' \<and> cl_projectOrg L (drop 8 cv) = Some (drop 4 pv))
             else False
         | _ \<Rightarrow> False))"

datatype policy_field = FieldList | FieldData | FieldExecute | FieldSharing

text \<open>\<open>None\<close>: contained; otherwise the first offending field.\<close>

definition policyContainedBy :: "access_policy \<Rightarrow> access_policy \<Rightarrow> containment_lookups \<Rightarrow> policy_field option" where
  "policyContainedBy child parent L =
     (if \<not> visibilityContainedBy (apo_list child) (apo_list parent) L then Some FieldList
      else if \<not> visibilityContainedBy (apo_data child) (apo_data parent) L then Some FieldData
      else if \<not> visibilityContainedBy (apo_execute child) (apo_execute parent) L then Some FieldExecute
      else if apo_sharing child \<and> \<not> apo_sharing parent then Some FieldSharing
      else None)"

section \<open>The scopes a form offers (scope-containment-filter.ts)\<close>

record scope_org =
  so_id :: ident
  so_name :: string
  so_teams :: "(ident \<times> string) list"

record available_scopes =
  as_orgs :: "scope_org list"
  as_projects :: "(ident \<times> string) list"
  as_canGrantWorkspace :: bool

record admitted =
  ad_orgIds :: "ident list"
  ad_teamIds :: "ident list"
  ad_projectIds :: "ident list"
  ad_anyOrg :: bool
  ad_workspace :: bool

definition nothing_admitted :: admitted where
  "nothing_admitted = \<lparr>ad_orgIds = [], ad_teamIds = [], ad_projectIds = [], ad_anyOrg = False, ad_workspace = False\<rparr>"

definition admitsFor :: "ident option \<Rightarrow> string \<Rightarrow> admitted" where
  "admitsFor templateOrg v =
     (if v = ''workspace'' then nothing_admitted\<lparr>ad_workspace := True\<rparr>
      else if v = ''owner'' \<or> v = ''admin'' then nothing_admitted
      else if v = ''org''
      then (case templateOrg of
              Some i \<Rightarrow> if i \<noteq> [] then nothing_admitted\<lparr>ad_orgIds := [i]\<rparr> else nothing_admitted\<lparr>ad_anyOrg := True\<rparr>
            | None \<Rightarrow> nothing_admitted\<lparr>ad_anyOrg := True\<rparr>)
      else if starts_with v ''org:'' then nothing_admitted\<lparr>ad_orgIds := [drop 4 v]\<rparr>
      else if starts_with v ''team:'' then nothing_admitted\<lparr>ad_teamIds := [drop 5 v]\<rparr>
      else if starts_with v ''project:'' then nothing_admitted\<lparr>ad_projectIds := [drop 8 v]\<rparr>
      else nothing_admitted)"

text \<open>The reducer: the first field replaces the accumulator, a field of the workspace leaves it.\<close>

fun intersect_from :: "(admitted \<Rightarrow> ident list) \<Rightarrow> nat \<Rightarrow> ident list \<Rightarrow> admitted list \<Rightarrow> ident list" where
  "intersect_from g i acc [] = acc"
| "intersect_from g i acc (f # fs) =
     intersect_from g (Suc i)
       (if ad_workspace f then acc else if i = 0 then g f else filter (\<lambda>x. x \<in> set (g f)) acc) fs"

definition filtered_org :: "bool \<Rightarrow> ident list \<Rightarrow> ident list \<Rightarrow> scope_org \<Rightarrow> scope_org option" where
  "filtered_org anyOrg orgIds teamIds org =
     (let orgAdmitted = (anyOrg \<or> so_id org \<in> set orgIds);
          teams = filter (\<lambda>t. fst t \<in> set teamIds) (so_teams org)
      in if \<not> orgAdmitted \<and> teams = [] then None
         else Some (org\<lparr>so_teams := (if orgAdmitted then so_teams org else teams)\<rparr>))"

definition filterAvailableScopesForParentPolicy :: "available_scopes \<Rightarrow> access_policy \<Rightarrow> ident option \<Rightarrow> available_scopes" where
  "filterAvailableScopesForParentPolicy scopes parent templateOrg =
     (let fields = map (admitsFor templateOrg) [apo_list parent, apo_data parent, apo_execute parent]
      in if list_all ad_workspace fields then scopes
         else
           \<lparr>as_orgs = List.map_filter
              (filtered_org (list_all (\<lambda>f. ad_anyOrg f \<or> ad_workspace f) fields)
                 (intersect_from ad_orgIds 0 [] fields) (intersect_from ad_teamIds 0 [] fields)) (as_orgs scopes),
            as_projects = filter (\<lambda>p. fst p \<in> set (intersect_from ad_projectIds 0 [] fields)) (as_projects scopes),
            as_canGrantWorkspace = False\<rparr>)"

section \<open>Access set at installation (install-access-contract.ts)\<close>

definition defaultAccessPolicyForKind :: "access_kind \<Rightarrow> access_policy" where
  "defaultAccessPolicyForKind k =
     (if k \<in> {AccConnector, AccArtifact, AccWorkflow} then uniform_policy ''workspace'' else uniform_policy ''owner'')"

record install_access =
  ia_kind :: access_kind
  ia_resourceId :: ident
  ia_policy :: "json option"
  ia_coOwners :: "ident list"
  ia_installedBy :: "ident option"
  ia_grantedBy :: "ident option"

text \<open>A malformed policy throws before anything is written.\<close>

definition setExtensionInstallAccess :: "ext_env \<Rightarrow> install_access \<Rightarrow> manifest_db \<Rightarrow> bool \<times> manifest_db" where
  "setExtensionInstallAccess E input s =
     (case (case ia_policy input of None \<Rightarrow> Some (defaultAccessPolicyForKind (ia_kind input)) | Some j \<Rightarrow> parse_policy j) of
        None \<Rightarrow> (False, s)
      | Some policy \<Rightarrow>
          (let grantedBy = (case ia_grantedBy input of None \<Rightarrow> ia_installedBy input | g \<Rightarrow> g);
               users = filter (\<lambda>u. u \<noteq> [] \<and> Some u \<noteq> ia_installedBy input) (ia_coOwners input)
           in (True, writeExtensionInstallAccessAtomic E (ia_kind input) (ia_resourceId input) policy (ia_installedBy input)
                       (map (\<lambda>u. (u, nullish grantedBy u)) users) s)))"

section \<open>The actions (permissions-actions.ts, permissions-kind-hooks.ts)\<close>

record run_facts =
  rf_runBy :: "ident option"
  rf_orgId :: "ident option"
  rf_templateId :: "ident option"
  rf_effectivePolicy :: "access_policy option"

record template_facts =
  tf_creatorId :: "ident option"
  tf_authPolicy :: "access_policy option"

text \<open>A skill with its package, where it has one; a project with the level and the identifier of its owner.\<close>

record permissions_host =
  ph_runs :: "ident \<Rightarrow> run_facts option"
  ph_templates :: "ident \<Rightarrow> template_facts option"
  ph_packages :: "ident \<Rightarrow> bool"
  ph_skills :: "ident \<Rightarrow> ident option option"
  ph_humans :: "ident \<Rightarrow> bool"
  ph_teams :: "ident \<Rightarrow> ident option"
  ph_projects :: "ident \<Rightarrow> (string \<times> ident) option"

record permissions_session =
  ps_userId :: "ident option"
  ps_admin :: bool

definition resource_exists :: "permissions_host \<Rightarrow> access_kind \<Rightarrow> ident \<Rightarrow> manifest_db \<Rightarrow> bool" where
  "resource_exists H k i s \<longleftrightarrow>
     (let anchored = (\<lambda>x. case readInstalledExtensionById i s of None \<Rightarrow> False | Some row \<Rightarrow> ix_kind row = x)
      in case k of
           AccAgentRun \<Rightarrow> ph_runs H i \<noteq> None
         | AccAgentTemplate \<Rightarrow> ph_templates H i \<noteq> None
         | AccSkillPackage \<Rightarrow> ph_packages H i
         | AccSkill \<Rightarrow> ph_skills H i \<noteq> None
         | AccConnector \<Rightarrow> anchored KConnector
         | AccArtifact \<Rightarrow> anchored KArtifact
         | AccWorkflow \<Rightarrow> anchored KWorkflow)"

definition if_set :: "ident option \<Rightarrow> ident list" where
  "if_set x = (case x of Some u \<Rightarrow> if u \<noteq> [] then [u] else [] | None \<Rightarrow> [])"

definition extra_editors :: "permissions_host \<Rightarrow> access_kind \<Rightarrow> ident \<Rightarrow> manifest_db \<Rightarrow> ident list" where
  "extra_editors H k i s =
     (case k of
        AccAgentRun \<Rightarrow> if_set (Option.bind (ph_runs H i) rf_runBy)
      | AccAgentTemplate \<Rightarrow> if_set (Option.bind (ph_templates H i) tf_creatorId)
      | AccSkill \<Rightarrow>
          (case ph_skills H i of
             Some (Some pkg) \<Rightarrow>
               if pkg = [] then []
               else map ow_userId (readExtensionCoOwners AccSkillPackage pkg s) @ if_set (readExtensionInstalledBy AccSkillPackage pkg s)
           | _ \<Rightarrow> [])
      | _ \<Rightarrow> [])"

definition sharing_refused :: "permissions_host \<Rightarrow> access_kind \<Rightarrow> ident \<Rightarrow> bool" where
  "sharing_refused H k i \<longleftrightarrow>
     k = AccAgentRun \<and>
     (case Option.bind (ph_runs H i) rf_effectivePolicy of Some p \<Rightarrow> \<not> apo_sharing p | None \<Rightarrow> False)"

definition canEditExtension :: "permissions_host \<Rightarrow> access_kind \<Rightarrow> ident \<Rightarrow> ident \<Rightarrow> bool \<Rightarrow> manifest_db \<Rightarrow> bool" where
  "canEditExtension H k i caller isAdmin s \<longleftrightarrow>
     isAdmin \<or> readExtensionInstalledBy k i s = Some caller
     \<or> list_ex (\<lambda>c. ow_userId c = caller) (readExtensionCoOwners k i s)
     \<or> caller \<in> set (extra_editors H k i s)"

definition buildContainmentLookupsForRun :: "permissions_host \<Rightarrow> ident \<Rightarrow> containment_lookups" where
  "buildContainmentLookupsForRun H runId =
     \<lparr>cl_teamOrg = ph_teams H,
      cl_projectOrg = (\<lambda>p. case ph_projects H p of
                             None \<Rightarrow> None
                           | Some (level, owner) \<Rightarrow>
                               if level = ''organization'' then Some owner
                               else if level = ''team'' then ph_teams H owner else None),
      cl_legacyOrg = Option.bind (ph_runs H runId) rf_orgId\<rparr>"

text \<open>The policy of the template a run belongs to, owner-only where the template has none.\<close>

definition template_policy :: "permissions_host \<Rightarrow> ident \<Rightarrow> access_policy" where
  "template_policy H t = nullish (Option.bind (ph_templates H t) tf_authPolicy) (uniform_policy ''owner'')"

definition assertAgentRunPolicyContainedByTemplate :: "permissions_host \<Rightarrow> ident \<Rightarrow> access_policy \<Rightarrow> bool" where
  "assertAgentRunPolicyContainedByTemplate H runId policy \<longleftrightarrow>
     (let template = Option.bind (ph_runs H runId) rf_templateId
      in if \<not> truthy template
         then apo_list policy = ''owner'' \<and> apo_data policy = ''owner'' \<and> apo_execute policy = ''owner''
         else policyContainedBy policy (template_policy H (nullish template [])) (buildContainmentLookupsForRun H runId) = None)"

text \<open>
  The gate of the actions: the kind, the session, the resource and the right to edit. \<open>Inl\<close>: the error code of the
  reply.
\<close>

definition edit_gate ::
  "permissions_host \<Rightarrow> permissions_session option \<Rightarrow> access_kind \<Rightarrow> ident \<Rightarrow> manifest_db \<Rightarrow> string + ident" where
  "edit_gate H session k i s =
     (let userId = Option.bind session ps_userId; u = nullish userId []
      in if \<not> truthy userId then Inl ''unauthorized''
         else if \<not> resource_exists H k i s then Inl ''not_found''
         else if \<not> canEditExtension H k i u (case session of None \<Rightarrow> False | Some x \<Rightarrow> ps_admin x) s then Inl ''forbidden''
         else Inr u)"

definition saveExtensionAccessPolicy ::
  "permissions_host \<Rightarrow> ext_env \<Rightarrow> permissions_session option \<Rightarrow> string \<Rightarrow> ident \<Rightarrow> json \<Rightarrow> manifest_db \<Rightarrow> string option \<times> manifest_db" where
  "saveExtensionAccessPolicy H E session kind i policy s =
     (case access_kind_named kind of
        None \<Rightarrow> (Some ''invalid_kind'', s)
      | Some k \<Rightarrow>
          (case parse_policy policy of
             None \<Rightarrow> (Some ''invalid'', s)
           | Some p \<Rightarrow>
               (case edit_gate H session k i s of
                  Inl err \<Rightarrow> (Some err, s)
                | Inr _ \<Rightarrow>
                    if k = AccAgentRun \<and> \<not> assertAgentRunPolicyContainedByTemplate H i p then (Some ''scope_exceeds_parent'', s)
                    else (None, writeExtensionAccessPolicy E k i p None s))))"

definition setExtensionInstaller ::
  "permissions_host \<Rightarrow> ext_env \<Rightarrow> permissions_session option \<Rightarrow> string \<Rightarrow> ident \<Rightarrow> ident option \<Rightarrow> manifest_db \<Rightarrow> string option \<times> manifest_db" where
  "setExtensionInstaller H E session kind i installer s =
     (case access_kind_named kind of
        None \<Rightarrow> (Some ''invalid_kind'', s)
      | Some k \<Rightarrow>
          if \<not> (case session of None \<Rightarrow> False | Some x \<Rightarrow> ps_admin x) then (Some ''unauthorized'', s)
          else if \<not> resource_exists H k i s then (Some ''not_found'', s)
          else if (case installer of None \<Rightarrow> False | Some u \<Rightarrow> \<not> ph_humans H u) then (Some ''user_not_found'', s)
          else (None, setExtensionInstalledBy E k i installer s))"

definition addExtensionCoOwner ::
  "permissions_host \<Rightarrow> ext_env \<Rightarrow> permissions_session option \<Rightarrow> string \<Rightarrow> ident \<Rightarrow> ident \<Rightarrow> manifest_db \<Rightarrow> string option \<times> manifest_db" where
  "addExtensionCoOwner H E session kind i target s =
     (case access_kind_named kind of
        None \<Rightarrow> (Some ''invalid_kind'', s)
      | Some k \<Rightarrow>
          (case edit_gate H session k i s of
             Inl err \<Rightarrow> (Some err, s)
           | Inr u \<Rightarrow>
               (let template = Option.bind (ph_runs H i) rf_templateId
                in if sharing_refused H k i then (Some ''sharing_disabled'', s)
                   else if \<not> ph_humans H target then (Some ''user_not_found'', s)
                   else if k = AccAgentRun \<and> truthy template
                           \<and> (case readExtensionAccessPolicy AccAgentTemplate (nullish template []) s of
                                None \<Rightarrow> True | Some p \<Rightarrow> apo_list p = ''owner'')
                   then (Some ''scope_exceeds_parent'', s)
                   else (None, addCoOwnerRow E k i target u s))))"

definition removeExtensionCoOwner ::
  "permissions_host \<Rightarrow> permissions_session option \<Rightarrow> string \<Rightarrow> ident \<Rightarrow> ident \<Rightarrow> manifest_db \<Rightarrow> string option \<times> manifest_db" where
  "removeExtensionCoOwner H session kind i target s =
     (case access_kind_named kind of
        None \<Rightarrow> (Some ''invalid_kind'', s)
      | Some k \<Rightarrow>
          (case edit_gate H session k i s of Inl err \<Rightarrow> (Some err, s) | Inr _ \<Rightarrow> (None, removeCoOwnerRow k i target s)))"

end
