(* ===== verification/Ext_AccessFacts.thy ===== *)
theory Ext_AccessFacts
  imports Ext_Access Ext_StoreFacts
begin

text \<open>
  Facts of access: a contained policy admits no more actors, the scopes a form offers are contained, and permissions are
  changed by those who may edit them only.
\<close>

section \<open>Contained policies admit no more\<close>

text \<open>
  What the platform says of an actor who is not a platform administrator: the teams and projects of the actor belong to
  the actor's organization, which is the one the resource belongs to (the cross-organization guard of the kernel).
\<close>

definition at_home :: "containment_lookups \<Rightarrow> access_actor \<Rightarrow> bool" where
  "at_home L a \<longleftrightarrow>
     (\<forall>t \<in> set (nullish (aa_teamIds a) []). \<forall>i. cl_teamOrg L t = Some i \<longrightarrow> aa_organizationId a = Some i)
     \<and> (\<forall>p \<in> set (nullish (aa_projectIds a) []). \<forall>i. cl_projectOrg L p = Some i \<longrightarrow> aa_organizationId a = Some i)
     \<and> (\<forall>i. cl_legacyOrg L = Some i \<longrightarrow> aa_organizationId a = Some i)"

lemma scope_admits_simps [simp]:
  "scope_admits (CHR ''o'' # CHR ''r'' # CHR ''g'' # CHR '':'' # i) a = Some (aa_organizationId a = Some i)"
  "scope_admits (CHR ''t'' # CHR ''e'' # CHR ''a'' # CHR ''m'' # CHR '':'' # i) a = Some (i \<in> set (nullish (aa_teamIds a) []))"
  "scope_admits (CHR ''p'' # CHR ''r'' # CHR ''o'' # CHR ''j'' # CHR ''e'' # CHR ''c'' # CHR ''t'' # CHR '':'' # i) a =
     Some (i \<in> set (nullish (aa_projectIds a) []))"
  "scope_admits ''org'' a = None" "scope_admits ''owner'' a = None" "scope_admits ''admin'' a = None" "scope_admits ''workspace'' a = None"
  by (simp_all add: scope_admits_def)

text \<open>
  The tier of a visibility, as both evaluators read it: what is not scoped is decided by \<open>g\<close>, which never refuses the
  workspace, never admits by ownership, and admits an organization only together with the organization itself.
\<close>

definition tier :: "(string \<Rightarrow> bool) \<Rightarrow> string \<Rightarrow> access_actor \<Rightarrow> bool" where
  "tier g v a \<longleftrightarrow> v = ''workspace'' \<or> (case scope_admits v a of Some b \<Rightarrow> b | None \<Rightarrow> g v)"

lemma prefix_drop:
  "starts_with v ''org:'' \<Longrightarrow> v = ''org:'' @ drop 4 v" "starts_with v ''team:'' \<Longrightarrow> v = ''team:'' @ drop 5 v"
  "starts_with v ''project:'' \<Longrightarrow> v = ''project:'' @ drop 8 v"
  by (auto simp: starts_with_iff)

text \<open>The ways in which a resolved visibility is contained in another.\<close>

lemma contained_cases:
  assumes "visibilityContainedBy child parent L"
  obtains (owner) "child = ''owner''"
    | (workspace) "resolveLegacyOrgVisibility parent L = Some ''workspace''"
    | (same) v where "resolveLegacyOrgVisibility child L = Some v" "resolveLegacyOrgVisibility parent L = Some v"
    | (team) t i where "child = ''team:'' @ t" "resolveLegacyOrgVisibility parent L = Some (''org:'' @ i)" "cl_teamOrg L t = Some i"
    | (project) p i where "child = ''project:'' @ p" "resolveLegacyOrgVisibility parent L = Some (''org:'' @ i)" "cl_projectOrg L p = Some i"
proof -
  have unchanged: "child = cv" if "resolveLegacyOrgVisibility child L = Some cv" "starts_with cv ''team:'' \<or> starts_with cv ''project:''" for cv
    using that by (auto simp: resolveLegacyOrgVisibility_def split: option.splits if_splits)
  show ?thesis
  proof (cases "child = ''owner''")
    case True
    then show ?thesis by (rule that(1))
  next
    case False
    then obtain cv pv where cv: "resolveLegacyOrgVisibility child L = Some cv" and pv: "resolveLegacyOrgVisibility parent L = Some pv"
      using assms by (auto simp: visibilityContainedBy_def split: option.splits)
    then consider "pv = ''workspace''" | "cv = pv"
      | "starts_with cv ''team:''" "starts_with pv ''org:''" "cl_teamOrg L (drop 5 cv) = Some (drop 4 pv)"
      | "starts_with cv ''project:''" "starts_with pv ''org:''" "cl_projectOrg L (drop 8 cv) = Some (drop 4 pv)"
      using assms False by (simp add: visibilityContainedBy_def split: if_split_asm)
    then show ?thesis
    proof cases
      case 1
      then show ?thesis using pv that(2) by simp
    next
      case 2
      then show ?thesis using cv pv that(3) by simp
    next
      case 3
      have "child = ''team:'' @ drop 5 cv" using prefix_drop(2) [OF 3(1)] unchanged [OF cv] 3(1) by argo
      moreover have "resolveLegacyOrgVisibility parent L = Some (''org:'' @ drop 4 pv)" using prefix_drop(1) [OF 3(2)] pv by argo
      ultimately show ?thesis using 3(3) that(4) by blast
    next
      case 4
      have "child = ''project:'' @ drop 8 cv" using prefix_drop(3) [OF 4(1)] unchanged [OF cv] 4(1) by argo
      moreover have "resolveLegacyOrgVisibility parent L = Some (''org:'' @ drop 4 pv)" using prefix_drop(1) [OF 4(2)] pv by argo
      ultimately show ?thesis using 4(3) that(5) by blast
    qed
  qed
qed

lemma tier_contained:
  assumes "visibilityContainedBy child parent L" and home: "at_home L a" and admits: "tier g child a"
    and "\<not> g ''owner''" and "g ''org''"
  shows "tier g parent a"
proof -
  have legacy: "tier g cv a \<Longrightarrow> tier g v a" "tier g v a \<Longrightarrow> tier g cv a" if "resolveLegacyOrgVisibility v L = Some cv" for v cv
    using that home \<open>g ''org''\<close> by (auto simp: resolveLegacyOrgVisibility_def tier_def at_home_def split: option.splits if_splits)
  from assms(1) show ?thesis
  proof (cases rule: contained_cases)
    case owner
    then show ?thesis using admits assms(4) by (simp add: tier_def)
  next
    case workspace
    then show ?thesis using legacy(1) by (simp add: tier_def)
  next
    case (same v)
    then show ?thesis using legacy admits by blast
  next
    case (team t i)
    then have "aa_organizationId a = Some i" using admits home by (simp add: tier_def at_home_def)
    then show ?thesis using legacy(1) [OF team(2)] by (simp add: tier_def)
  next
    case (project p i)
    then have "aa_organizationId a = Some i" using admits home by (simp add: tier_def at_home_def)
    then show ?thesis using legacy(1) [OF project(2)] by (simp add: tier_def)
  qed
qed

lemma contained_fields:
  assumes "policyContainedBy child parent L = None"
  shows "visibilityContainedBy (apo_list child) (apo_list parent) L" "visibilityContainedBy (apo_data child) (apo_data parent) L"
    "visibilityContainedBy (apo_execute child) (apo_execute parent) L" "apo_sharing child \<Longrightarrow> apo_sharing parent"
  using assms by (simp_all add: policyContainedBy_def split: if_splits)

lemma policyAllows_tier:
  "\<not> actor_platform_admin a \<Longrightarrow>
   policyAllows p op a \<longleftrightarrow> (op = RunShare \<longrightarrow> apo_sharing p) \<and> tier (\<lambda>v. v \<noteq> ''admin'' \<and> v \<noteq> ''owner'') (run_visibility op p) a"
  by (auto simp: policyAllows_def tier_def Let_def)

lemma visibilityAllows_tier:
  "\<not> actor_platform_admin a \<Longrightarrow>
   visibilityAllows v a owner \<longleftrightarrow> tier (\<lambda>v. if v = ''admin'' then isAdminOfOwner a owner else v = ''org'') v a"
  by (auto simp: visibilityAllows_def tier_def split: option.splits)

lemma contained_admits:
  assumes "policyContainedBy child parent L = None" and "actor_platform_admin a \<or> at_home L a"
  shows "(\<forall>op. policyAllows child op a \<longrightarrow> policyAllows parent op a)
     \<and> (\<forall>op. evaluateExtensionAccess child coOwners installedBy owner (Some a) op = None \<longrightarrow>
            evaluateExtensionAccess parent coOwners installedBy owner (Some a) op = None)"
proof (cases "actor_platform_admin a")
  case True
  then show ?thesis by (simp add: policyAllows_def evaluateExtensionAccess_def)
next
  case False
  then have home: "at_home L a" using assms(2) by simp
  note fields = contained_fields [OF assms(1)]
  have run: "visibilityContainedBy (run_visibility op child) (run_visibility op parent) L" for op
    using fields by (cases op) (simp_all add: run_visibility_def)
  have ext: "visibilityContainedBy (visibilityFieldForOp op child) (visibilityFieldForOp op parent) L" for op
    using fields by (cases op) (simp_all add: visibilityFieldForOp_def)
  have "policyAllows parent op a" if "policyAllows child op a" for op
    using that tier_contained [OF run home] fields(4) unfolding policyAllows_tier [OF False] by auto
  moreover have "evaluateExtensionAccess parent coOwners installedBy owner (Some a) op = None"
    if "evaluateExtensionAccess child coOwners installedBy owner (Some a) op = None" for op
  proof -
    have "visibilityAllows (visibilityFieldForOp op parent) a owner" if "visibilityAllows (visibilityFieldForOp op child) a owner"
      using that tier_contained [OF ext home] unfolding visibilityAllows_tier [OF False] by simp
    then show ?thesis using that fields(4) unfolding evaluateExtensionAccess_def by (auto simp: Let_def split: if_splits)
  qed
  ultimately show ?thesis by blast
qed

text \<open>
  C16. A policy that is contained in another admits no actor to any operation whom the other refuses, neither to a run nor to
  an extension: with the teams and projects of the actor in the actor's organization, and the resource in it.
\<close>

theorem contained_policy_admits_no_more:
  assumes "policyContainedBy child parent L = None" and "actor_platform_admin a \<or> at_home L a"
  shows "(\<forall>op. policyAllows child op a \<longrightarrow> policyAllows parent op a)
     \<and> (\<forall>op. evaluateExtensionAccess child coOwners installedBy owner (Some a) op = None \<longrightarrow>
            evaluateExtensionAccess parent coOwners installedBy owner (Some a) op = None)"
  by (rule contained_admits [OF assms])

definition sample_lookups :: containment_lookups where
  "sample_lookups = \<lparr>cl_teamOrg = [''t1'' \<mapsto> ''o1''], cl_projectOrg = Map.empty, cl_legacyOrg = Some ''o1''\<rparr>"

definition sample_member :: access_actor where
  "sample_member =
     \<lparr>aa_type = HumanUser, aa_principalId = ''u1'', aa_organizationId = Some ''o1'', aa_teamIds = Some [''t1''], aa_projectIds = None,
      aa_platformRole = None, aa_orgRole = Some ''member''\<rparr>"

definition team_policy :: access_policy where
  "team_policy = (uniform_policy ''team:t1'')\<lparr>apo_list := ''owner''\<rparr>"

lemma contained_policy_admits_no_more_witness:
  "policyContainedBy team_policy (uniform_policy ''org'') sample_lookups = None
   \<and> policyAllows team_policy RunRead sample_member \<and> policyAllows (uniform_policy ''org'') RunRead sample_member
   \<and> policyContainedBy (uniform_policy ''org'') team_policy sample_lookups = Some FieldList"
proof (intro conjI)
  show contained: "policyContainedBy team_policy (uniform_policy ''org'') sample_lookups = None" by code_simp
  show allowed: "policyAllows team_policy RunRead sample_member" by code_simp
  have "at_home sample_lookups sample_member" by (simp add: at_home_def sample_lookups_def sample_member_def)
  then show "policyAllows (uniform_policy ''org'') RunRead sample_member"
    using contained_policy_admits_no_more [OF contained, of sample_member] allowed by blast
qed code_simp

section \<open>The scopes a form offers\<close>

lemma admitsFor_facts:
  assumes "i \<noteq> []" and "cl_legacyOrg L = Some i"
  shows "ad_workspace (admitsFor (Some i) v) \<Longrightarrow> v = ''workspace''"
    and "\<not> ad_anyOrg (admitsFor (Some i) v)"
    and "x \<in> set (ad_orgIds (admitsFor (Some i) v)) \<Longrightarrow> resolveLegacyOrgVisibility v L = Some (''org:'' @ x)"
    and "x \<in> set (ad_teamIds (admitsFor (Some i) v)) \<Longrightarrow> v = ''team:'' @ x"
    and "x \<in> set (ad_projectIds (admitsFor (Some i) v)) \<Longrightarrow> v = ''project:'' @ x"
  using assms prefix_drop [of v]
  by (auto simp: admitsFor_def nothing_admitted_def resolveLegacyOrgVisibility_def split: if_splits)

lemma intersect_mem:
  "x \<in> set (intersect_from g 0 [] [e, f, h]) \<Longrightarrow> f' \<in> {e, f, h} \<Longrightarrow> ad_workspace f' \<or> x \<in> set (g f')"
  by (auto split: if_splits)

lemma contained_workspace [simp]:
  "visibilityContainedBy (CHR ''t'' # CHR ''e'' # CHR ''a'' # CHR ''m'' # CHR '':'' # x) ''workspace'' L"
  "visibilityContainedBy (CHR ''p'' # CHR ''r'' # CHR ''o'' # CHR ''j'' # CHR ''e'' # CHR ''c'' # CHR ''t'' # CHR '':'' # x) ''workspace'' L"
  "visibilityContainedBy (CHR ''o'' # CHR ''r'' # CHR ''g'' # CHR '':'' # x) ''workspace'' L"
  "visibilityContainedBy ''workspace'' ''workspace'' L"
  by (simp_all add: visibilityContainedBy_def resolveLegacyOrgVisibility_def)

lemma contained_org:
  assumes "resolveLegacyOrgVisibility v L = Some (''org:'' @ x)"
  shows "visibilityContainedBy (''org:'' @ x) v L" "cl_teamOrg L t = Some x \<Longrightarrow> visibilityContainedBy (''team:'' @ t) v L"
  using assms by (simp_all add: visibilityContainedBy_def resolveLegacyOrgVisibility_def)

lemma contained_self:
  "visibilityContainedBy (''team:'' @ x) (''team:'' @ x) L" "visibilityContainedBy (''project:'' @ x) (''project:'' @ x) L"
  by (simp_all add: visibilityContainedBy_def resolveLegacyOrgVisibility_def)

text \<open>The visibility is contained in each of the three fields of the policy.\<close>

definition within_policy :: "string \<Rightarrow> access_policy \<Rightarrow> containment_lookups \<Rightarrow> bool" where
  "within_policy v p L \<longleftrightarrow> (\<forall>w \<in> {apo_list p, apo_data p, apo_execute p}. visibilityContainedBy v w L)"

abbreviation policy_fields :: "access_policy \<Rightarrow> string list" where
  "policy_fields p \<equiv> [apo_list p, apo_data p, apo_execute p]"

text \<open>What the intersection of the three fields holds is contained in each of them.\<close>

lemma intersection_within:
  fixes p :: access_policy and i :: ident
  defines "fs \<equiv> map (admitsFor (Some i)) (policy_fields p)"
  assumes "i \<noteq> []" and "cl_legacyOrg L = Some i"
  shows "x \<in> set (intersect_from ad_orgIds 0 [] fs) \<Longrightarrow> within_policy (''org:'' @ x) p L"
    and "x \<in> set (intersect_from ad_orgIds 0 [] fs) \<Longrightarrow> cl_teamOrg L t = Some x \<Longrightarrow> within_policy (''team:'' @ t) p L"
    and "x \<in> set (intersect_from ad_teamIds 0 [] fs) \<Longrightarrow> within_policy (''team:'' @ x) p L"
    and "x \<in> set (intersect_from ad_projectIds 0 [] fs) \<Longrightarrow> within_policy (''project:'' @ x) p L"
proof -
  note facts = admitsFor_facts [OF assms(2,3)]
  have member: "v = ''workspace'' \<or> x \<in> set (g (admitsFor (Some i) v))"
    if "x \<in> set (intersect_from g 0 [] fs)" "v \<in> {apo_list p, apo_data p, apo_execute p}" for g x v
    using intersect_mem [of x g "admitsFor (Some i) (apo_list p)" "admitsFor (Some i) (apo_data p)" "admitsFor (Some i) (apo_execute p)"]
      that facts(1) unfolding fs_def by (simp del: intersect_from.simps) blast
  show "within_policy (''org:'' @ x) p L" if "x \<in> set (intersect_from ad_orgIds 0 [] fs)"
    using member [OF that] facts(3) contained_org unfolding within_policy_def by (metis append_Cons append_Nil contained_workspace)
  show "within_policy (''team:'' @ t) p L" if "x \<in> set (intersect_from ad_orgIds 0 [] fs)" "cl_teamOrg L t = Some x"
    using member [OF that(1)] that(2) facts(3) contained_org unfolding within_policy_def
    by (metis append_Cons append_Nil contained_workspace)
  show "within_policy (''team:'' @ x) p L" if "x \<in> set (intersect_from ad_teamIds 0 [] fs)"
    using member [OF that] facts(4) contained_self unfolding within_policy_def by (metis append_Cons append_Nil contained_workspace)
  show "within_policy (''project:'' @ x) p L" if "x \<in> set (intersect_from ad_projectIds 0 [] fs)"
    using member [OF that] facts(5) contained_self unfolding within_policy_def by (metis append_Cons append_Nil contained_workspace)
qed

text \<open>The result of the filter, where some field is narrower than the workspace and the organization is known.\<close>

lemma filtered_scopes:
  fixes p :: access_policy and i :: ident
  defines "fs \<equiv> map (admitsFor (Some i)) (policy_fields p)"
  assumes "i \<noteq> []" and "\<not> list_all ad_workspace fs"
    and out: "out = filterAvailableScopesForParentPolicy scopes p (Some i)"
  shows "org \<in> set (as_orgs out) \<Longrightarrow> \<exists>o' \<in> set (as_orgs scopes).
      filtered_org False (intersect_from ad_orgIds 0 [] fs) (intersect_from ad_teamIds 0 [] fs) o' = Some org"
    and "q \<in> set (as_projects out) \<Longrightarrow> fst q \<in> set (intersect_from ad_projectIds 0 [] fs)"
    and "\<not> as_canGrantWorkspace out"
proof -
  have "\<not> ad_anyOrg (admitsFor (Some i) v)" for v using assms(2) by (simp add: admitsFor_def nothing_admitted_def)
  then have "\<not> list_all (\<lambda>f. ad_anyOrg f \<or> ad_workspace f) fs" using assms(3) unfolding fs_def by auto
  then have eq: "out = \<lparr>as_orgs = List.map_filter
       (filtered_org False (intersect_from ad_orgIds 0 [] fs) (intersect_from ad_teamIds 0 [] fs)) (as_orgs scopes),
     as_projects = filter (\<lambda>q. fst q \<in> set (intersect_from ad_projectIds 0 [] fs)) (as_projects scopes),
     as_canGrantWorkspace = False\<rparr>"
    using assms(3) unfolding out filterAvailableScopesForParentPolicy_def Let_def fs_def by (simp only: if_False)
  show "\<exists>o' \<in> set (as_orgs scopes).
      filtered_org False (intersect_from ad_orgIds 0 [] fs) (intersect_from ad_teamIds 0 [] fs) o' = Some org"
    if "org \<in> set (as_orgs out)" using that unfolding eq by (auto simp: List.map_filter_def)
  show "fst q \<in> set (intersect_from ad_projectIds 0 [] fs)" if "q \<in> set (as_projects out)"
    using that unfolding eq by (simp del: intersect_from.simps)
  show "\<not> as_canGrantWorkspace out" unfolding eq by simp
qed


definition sample_scopes :: available_scopes where
  "sample_scopes =
     \<lparr>as_orgs = [\<lparr>so_id = ''o1'', so_name = ''One'', so_teams = [(''t1'', ''Team'')]\<rparr>, \<lparr>so_id = ''o2'', so_name = ''Two'', so_teams = []\<rparr>],
      as_projects = [(''p1'', ''Project'')], as_canGrantWorkspace = True\<rparr>"


section \<open>Who changes permissions\<close>

text \<open>The permissions of a resource: its policy row and its co-owners.\<close>

definition permissions_of :: "access_kind \<Rightarrow> ident \<Rightarrow> manifest_db \<Rightarrow> policy_row option \<times> co_owner_row list" where
  "permissions_of k i s = (policy_row_of k i s, filter (\<lambda>r. ow_kind r = k \<and> ow_resourceId r = i) (mf_coOwners s))"

lemma find_snoc: "\<not> P x \<Longrightarrow> find P (xs @ [x]) = find P xs"
  by (induction xs) auto

lemma find_update_other: "(\<And>r. Q r \<Longrightarrow> \<not> P r \<and> \<not> P (f r)) \<Longrightarrow> find P (update_where Q f xs) = find P xs"
  by (induction xs) auto

lemma upsert_other:
  assumes "(k', i') \<noteq> (k, i)" and "py_kind fresh = k" "py_resourceId fresh = i"
    and "\<And>r. py_kind (f r) = py_kind r \<and> py_resourceId (f r) = py_resourceId r"
  shows "permissions_of k' i' (upsert_policy k i fresh f s) = permissions_of k' i' s"
proof -
  let ?P = "\<lambda>r. py_kind r = k' \<and> py_resourceId r = i'"
  have "find ?P (mf_policies s @ [fresh]) = find ?P (mf_policies s)" using assms by (intro find_snoc) auto
  moreover have "find ?P (update_where (\<lambda>r. py_kind r = k \<and> py_resourceId r = i) f (mf_policies s)) = find ?P (mf_policies s)"
    using assms by (intro find_update_other) auto
  ultimately show ?thesis by (simp add: permissions_of_def upsert_policy_def policy_row_of_def)
qed

lemma write_others:
  assumes "(k', i') \<noteq> (k, i)"
  shows "permissions_of k' i' (writeExtensionAccessPolicy E k i p u s) = permissions_of k' i' s"
    "permissions_of k' i' (setExtensionInstalledBy E k i u s) = permissions_of k' i' s"
    "permissions_of k' i' (addCoOwnerRow E k i v g s) = permissions_of k' i' s"
    "permissions_of k' i' (removeCoOwnerRow k i v s) = permissions_of k' i' s"
proof -
  show "permissions_of k' i' (writeExtensionAccessPolicy E k i p u s) = permissions_of k' i' s"
    "permissions_of k' i' (setExtensionInstalledBy E k i u s) = permissions_of k' i' s"
    unfolding writeExtensionAccessPolicy_def setExtensionInstalledBy_def
    by (rule upsert_other [OF assms]; simp)+
  show "permissions_of k' i' (addCoOwnerRow E k i v g s) = permissions_of k' i' s"
    using assms by (auto simp: permissions_of_def addCoOwnerRow_def policy_row_of_def)
  show "permissions_of k' i' (removeCoOwnerRow k i v s) = permissions_of k' i' s"
    using assms by (auto simp: permissions_of_def removeCoOwnerRow_def policy_row_of_def delete_where_def intro!: filter_cong)
qed

text \<open>What an editor is depends on the permissions of the resource, of a skill's package, and on who owns what at the host.\<close>

definition same_owners :: "permissions_host \<Rightarrow> permissions_host \<Rightarrow> bool" where
  "same_owners H H' \<longleftrightarrow>
     (\<forall>i. Option.bind (ph_runs H i) rf_runBy = Option.bind (ph_runs H' i) rf_runBy)
     \<and> (\<forall>i. Option.bind (ph_templates H i) tf_creatorId = Option.bind (ph_templates H' i) tf_creatorId)
     \<and> ph_skills H = ph_skills H'"

lemma reads_permissions:
  "readExtensionInstalledBy k i s = Option.bind (fst (permissions_of k i s)) py_installedBy"
  "readExtensionCoOwners k i s = sort_key ow_grantedAt (snd (permissions_of k i s))"
  "readExtensionAccessPolicy k i s = map_option py_policy (fst (permissions_of k i s))"
  by (simp_all add: permissions_of_def readExtensionInstalledBy_def readExtensionCoOwners_def readExtensionAccessPolicy_def)

lemma editor_cong:
  assumes "same_owners H H'" and "permissions_of k i s = permissions_of k i s'"
    and "\<And>pkg. k = AccSkill \<Longrightarrow> ph_skills H i = Some (Some pkg) \<Longrightarrow> pkg \<noteq> [] \<Longrightarrow>
       permissions_of AccSkillPackage pkg s = permissions_of AccSkillPackage pkg s'"
  shows "canEditExtension H k i u b s = canEditExtension H' k i u b s'"
proof -
  have "extra_editors H k i s = extra_editors H' k i s'"
    using assms(1,3) by (cases k) (auto simp: extra_editors_def same_owners_def reads_permissions split: option.split)
  then show ?thesis using assms(2) by (simp add: canEditExtension_def reads_permissions)
qed

text \<open>Who may edit the package of a skill may edit the skill.\<close>

lemma package_editor:
  assumes "canEditExtension H AccSkillPackage pkg u False s" and "ph_skills H i = Some (Some pkg)" "pkg \<noteq> []" "u \<noteq> []"
  shows "canEditExtension H AccSkill i u False s"
  using assms by (auto simp: canEditExtension_def extra_editors_def if_set_def list_ex_iff)

datatype permission_request =
    SavePolicy string ident json
  | SetInstaller string ident "ident option"
  | AddCoOwner string ident ident
  | RemoveCoOwner string ident ident

fun permission_action ::
  "permissions_host \<Rightarrow> ext_env \<Rightarrow> permissions_session option \<Rightarrow> permission_request \<Rightarrow> manifest_db \<Rightarrow> string option \<times> manifest_db" where
  "permission_action H E session (SavePolicy kind i policy) s = saveExtensionAccessPolicy H E session kind i policy s"
| "permission_action H E session (SetInstaller kind i u) s = setExtensionInstaller H E session kind i u s"
| "permission_action H E session (AddCoOwner kind i u) s = addExtensionCoOwner H E session kind i u s"
| "permission_action H E session (RemoveCoOwner kind i u) s = removeExtensionCoOwner H session kind i u s"

lemma edit_gate_Inr:
  "edit_gate H session k i s = Inr u \<Longrightarrow> \<exists>x. session = Some x \<and> ps_userId x = Some u \<and> u \<noteq> [] \<and> canEditExtension H k i u (ps_admin x) s"
  by (cases "Option.bind session ps_userId") (auto simp: edit_gate_def Let_def bind_eq_Some_conv split: if_splits)

text \<open>An action of a user who is no administrator changes the permissions of at most one resource, which the user may edit.\<close>

lemma action_frame:
  assumes "session = Some x" "\<not> ps_admin x" "ps_userId x = Some u"
    and changed: "permissions_of k i (snd (permission_action H E session req s)) \<noteq> permissions_of k i s"
  shows "canEditExtension H k i u False s \<and> u \<noteq> []"
proof -
  have gate: "canEditExtension H k' i' u False s \<and> u \<noteq> []" if "edit_gate H session k' i' s = Inr v" for k' i' v
    using edit_gate_Inr [OF that] assms(1-3) by auto
  have hit: "permissions_of k i (writeExtensionAccessPolicy E k' i' p w s) \<noteq> permissions_of k i s \<Longrightarrow> k' = k \<and> i' = i"
    "permissions_of k i (addCoOwnerRow E k' i' v g s) \<noteq> permissions_of k i s \<Longrightarrow> k' = k \<and> i' = i"
    "permissions_of k i (removeCoOwnerRow k' i' v s) \<noteq> permissions_of k i s \<Longrightarrow> k' = k \<and> i' = i" for E k' i' p w v g
    using write_others [of k i k' i'] by blast+
  show ?thesis
  proof (cases req)
    case (SavePolicy kind i' policy)
    then show ?thesis using changed
      by (auto simp: saveExtensionAccessPolicy_def split: option.splits sum.splits if_splits dest!: hit(1) dest: gate)
  next
    case (SetInstaller kind i' v)
    then show ?thesis using changed assms(1,2) by (auto simp: setExtensionInstaller_def split: option.splits)
  next
    case (AddCoOwner kind i' v)
    then show ?thesis using changed
      by (auto simp: addExtensionCoOwner_def Let_def split: option.splits sum.splits if_splits dest!: hit(2) dest: gate)
  next
    case (RemoveCoOwner kind i' v)
    then show ?thesis using changed
      by (auto simp: removeExtensionCoOwner_def split: option.splits sum.splits dest!: hit(3) dest: gate)
  qed
qed

definition permission_actions ::
  "permissions_session option \<Rightarrow> (permissions_host \<times> ext_env \<times> permission_request) list \<Rightarrow> manifest_db \<Rightarrow> manifest_db" where
  "permission_actions session reqs s = foldl (\<lambda>s (H, E, req). snd (permission_action H E session req s)) s reqs"

text \<open>
  C17. A user who is no platform administrator and may not edit a resource cannot change its policy, its installer or its
  co-owners by any sequence of actions, on this resource or on others, and does not become an editor of it; what the host
  says of runs, templates and users may change meanwhile, except for who launched a run, who created a template and the
  package of a skill.
\<close>

theorem outsider_changes_nothing:
  assumes "\<not> ps_admin x" and "ps_userId x = Some u" and "\<not> canEditExtension H k i u False s"
    and "\<forall>(H', E, req) \<in> set reqs. same_owners H H'"
  shows "permissions_of k i (permission_actions (Some x) reqs s) = permissions_of k i s
     \<and> \<not> canEditExtension H k i u False (permission_actions (Some x) reqs s)"
  using assms(3,4)
proof (induction reqs arbitrary: s)
  case (Cons r reqs)
  obtain H' E req where r: "r = (H', E, req)" by (cases r)
  let ?s = "snd (permission_action H' E (Some x) req s)"
  have same: "same_owners H H'" using Cons.prems(2) r by simp
  have kept: "permissions_of k' i' ?s = permissions_of k' i' s" if "\<not> (canEditExtension H' k' i' u False s \<and> u \<noteq> [])" for k' i'
    using action_frame [OF refl assms(1,2)] that by blast
  have "canEditExtension H' k' i' u False s = canEditExtension H k' i' u False s" for k' i'
    by (rule editor_cong [OF same refl refl, symmetric])
  then have here: "permissions_of k i ?s = permissions_of k i s"
    and package: "k = AccSkill \<Longrightarrow> ph_skills H i = Some (Some pkg) \<Longrightarrow> pkg \<noteq> [] \<Longrightarrow>
      permissions_of AccSkillPackage pkg ?s = permissions_of AccSkillPackage pkg s" for pkg
    using kept Cons.prems(1) package_editor [of H pkg u s i] by blast+
  have "\<not> canEditExtension H k i u False ?s"
    using Cons.prems(1) editor_cong [of H H k i ?s s u False] here package by (simp add: same_owners_def)
  then show ?case using Cons.IH [of ?s] Cons.prems(2) here by (simp add: permission_actions_def r)
qed (simp add: permission_actions_def)

text \<open>A member of an organization who launched a run, somebody else, and a run of a template for the organization.\<close>

definition sample_permissions_host :: permissions_host where
  "sample_permissions_host =
     \<lparr>ph_runs = [''run1'' \<mapsto> \<lparr>rf_runBy = Some ''u1'', rf_orgId = Some ''o1'', rf_templateId = Some ''tpl'', rf_effectivePolicy = None\<rparr>],
      ph_templates = [''tpl'' \<mapsto> \<lparr>tf_creatorId = Some ''u9'', tf_authPolicy = Some (uniform_policy ''org'')\<rparr>],
      ph_packages = (\<lambda>_. False), ph_skills = Map.empty, ph_humans = (\<lambda>_. True), ph_teams = Map.empty, ph_projects = Map.empty\<rparr>"

definition policy_json :: "string \<Rightarrow> json" where
  "policy_json v = JObj [(''runListVisibility'', JStr v), (''runDataVisibility'', JStr v), (''runExecuteVisibility'', JStr v),
                         (''allowRunSharing'', JBool False)]"

definition sample_user :: "ident \<Rightarrow> permissions_session" where
  "sample_user u = \<lparr>ps_userId = Some u, ps_admin = False\<rparr>"

definition sample_attack :: "(permissions_host \<times> ext_env \<times> permission_request) list" where
  "sample_attack = map (\<lambda>req. (sample_permissions_host, sample_env, req))
     [AddCoOwner ''agent_run'' ''run1'' ''u2'', SavePolicy ''agent_run'' ''run1'' (policy_json ''org''),
      SetInstaller ''agent_run'' ''run1'' (Some ''u2''), RemoveCoOwner ''agent_run'' ''run1'' ''u1'']"

lemma outsider_changes_nothing_witness:
  "permissions_of AccAgentRun ''run1'' (permission_actions (Some (sample_user ''u2'')) sample_attack sample_manifest)
     = permissions_of AccAgentRun ''run1'' sample_manifest
   \<and> \<not> canEditExtension sample_permissions_host AccAgentRun ''run1'' ''u2'' False
        (permission_actions (Some (sample_user ''u2'')) sample_attack sample_manifest)
   \<and> mf_policies (permission_actions (Some (sample_user ''u1'')) sample_attack sample_manifest) \<noteq> []"
proof (intro conjI)
  have "\<forall>(H', E, req) \<in> set sample_attack. same_owners sample_permissions_host H'"
    by (simp add: sample_attack_def same_owners_def)
  moreover have "\<not> canEditExtension sample_permissions_host AccAgentRun ''run1'' ''u2'' False sample_manifest" by code_simp
  moreover have "\<not> ps_admin (sample_user ''u2'')" "ps_userId (sample_user ''u2'') = Some ''u2''" by (simp_all add: sample_user_def)
  ultimately have "permissions_of AccAgentRun ''run1'' (permission_actions (Some (sample_user ''u2'')) sample_attack sample_manifest)
      = permissions_of AccAgentRun ''run1'' sample_manifest
    \<and> \<not> canEditExtension sample_permissions_host AccAgentRun ''run1'' ''u2'' False
        (permission_actions (Some (sample_user ''u2'')) sample_attack sample_manifest)"
    using outsider_changes_nothing by blast
  then show "permissions_of AccAgentRun ''run1'' (permission_actions (Some (sample_user ''u2'')) sample_attack sample_manifest)
      = permissions_of AccAgentRun ''run1'' sample_manifest"
    "\<not> canEditExtension sample_permissions_host AccAgentRun ''run1'' ''u2'' False
        (permission_actions (Some (sample_user ''u2'')) sample_attack sample_manifest)" by blast+
qed code_simp

section \<open>The policy of a run\<close>

lemma find_update_same: "(\<And>r. P (f r) = P r) \<Longrightarrow> find P (update_where P f xs) = map_option f (find P xs)"
  by (induction xs) auto

lemma find_append_fresh: "find P xs = None \<Longrightarrow> find P (xs @ [x]) = (if P x then Some x else None)"
  by (induction xs) (auto split: if_splits)

lemma read_written_policy: "readExtensionAccessPolicy k i (writeExtensionAccessPolicy E k i p u s) = Some p"
proof (cases "policy_row_of k i s")
  case None
  then show ?thesis
    by (simp add: readExtensionAccessPolicy_def writeExtensionAccessPolicy_def upsert_policy_def policy_row_of_def find_append_fresh)
next
  case (Some r)
  then show ?thesis
    by (simp add: readExtensionAccessPolicy_def writeExtensionAccessPolicy_def upsert_policy_def policy_row_of_def find_update_same)
qed

text \<open>
  C18. The policy saved for a run is the one read afterwards and stays within the policy of its template: whoever it admits
  to an operation on the run is admitted by the template, and a run without a template has an owner-only policy.
\<close>

theorem saved_run_policy_within_template:
  assumes "saveExtensionAccessPolicy H E session ''agent_run'' i policy s = (None, s')"
  shows "\<exists>p. readExtensionAccessPolicy AccAgentRun i s' = Some p
     \<and> (case Option.bind (ph_runs H i) rf_templateId of
          Some t \<Rightarrow> t \<noteq> [] \<longrightarrow>
            (\<forall>a op. (actor_platform_admin a \<or> at_home (buildContainmentLookupsForRun H i) a) \<and> policyAllows p op a \<longrightarrow>
               policyAllows (template_policy H t) op a)
        | None \<Rightarrow> apo_list p = ''owner'' \<and> apo_data p = ''owner'' \<and> apo_execute p = ''owner'')"
proof -
  have kind: "access_kind_named ''agent_run'' = Some AccAgentRun" by code_simp
  from assms obtain p where p: "s' = writeExtensionAccessPolicy E AccAgentRun i p None s"
    and contained: "assertAgentRunPolicyContainedByTemplate H i p"
    by (auto simp: saveExtensionAccessPolicy_def kind split: option.splits sum.splits if_splits)
  have "policyAllows (template_policy H t) op a"
    if "Option.bind (ph_runs H i) rf_templateId = Some t" "t \<noteq> []"
      "actor_platform_admin a \<or> at_home (buildContainmentLookupsForRun H i) a" "policyAllows p op a" for t a op
  proof -
    have "policyContainedBy p (template_policy H t) (buildContainmentLookupsForRun H i) = None"
      using contained that(1,2) by (simp add: assertAgentRunPolicyContainedByTemplate_def Let_def)
    then show ?thesis using contained_admits that(3,4) by blast
  qed
  moreover have "apo_list p = ''owner'' \<and> apo_data p = ''owner'' \<and> apo_execute p = ''owner''"
    if "Option.bind (ph_runs H i) rf_templateId = None"
    using contained that by (simp add: assertAgentRunPolicyContainedByTemplate_def Let_def)
  ultimately show ?thesis using read_written_policy unfolding p by (auto split: option.split)
qed

lemma saved_run_policy_within_template_witness:
  "(\<exists>p. readExtensionAccessPolicy AccAgentRun ''run1''
          (snd (saveExtensionAccessPolicy sample_permissions_host sample_env (Some (sample_user ''u1'')) ''agent_run'' ''run1'' (policy_json ''org'')
             sample_manifest)) = Some p)
   \<and> fst (saveExtensionAccessPolicy sample_permissions_host sample_env (Some (sample_user ''u1'')) ''agent_run'' ''run1''
        (policy_json ''workspace'') sample_manifest) = Some ''scope_exceeds_parent''"
proof
  let ?r = "saveExtensionAccessPolicy sample_permissions_host sample_env (Some (sample_user ''u1'')) ''agent_run'' ''run1'' (policy_json ''org'')
             sample_manifest"
  have "fst ?r = None" by code_simp
  then have "?r = (None, snd ?r)" by (metis prod.collapse)
  from saved_run_policy_within_template [OF this]
  show "\<exists>p. readExtensionAccessPolicy AccAgentRun ''run1'' (snd ?r) = Some p" by blast
qed code_simp

end
