(* ===== verification/Spec2Isabelle.thy ===== *)
theory Spec2Isabelle
  imports Wf_Gates Wf_Graph Wf_Scope Wf_Engine Wf_CriticalPath Wf_Validation Wf_StoreHistory Wf_ExtensionFacts
    Ext_DispatchFacts Ext_AccessFacts
begin

text \<open>
  A verification of the workflow engine of cinatra, \<^verbatim>\<open>src/packages/workflows/src\<close>, and of the lifecycle of
  its extensions, \<^verbatim>\<open>src/packages/extensions/src\<close>.

  \<^bold>\<open>The program.\<close> A workflow is a set of tasks with dependencies, schedules and approvals, kept in
  database tables (\<^verbatim>\<open>schema.ts\<close>). A reconciler (\<^verbatim>\<open>engine/reconciler.ts\<close>) runs a tick per workflow:
  it polls the child runs of agent tasks, materializes foreach children
  (\<^verbatim>\<open>engine/foreach-reconciler.ts\<close>, \<^verbatim>\<open>engine/foreach.ts\<close>), applies rejected approvals, invalidates
  stale ones, claims the tasks whose gates are open (\<^verbatim>\<open>state/gates.ts\<close>, \<^verbatim>\<open>engine/gate-eval.ts\<close>),
  dispatches them to executors outside the transaction, records the outcomes, finalizes the
  workflow and solicits approvals. Users start, pause, resume and cancel workflows and complete
  manual tasks (\<^verbatim>\<open>engine/lifecycle.ts\<close>). Workflows come from specifications: users and the assistant
  (\<^verbatim>\<open>mcp/\<close>) write them, extensions bring them as BPMN files (\<^verbatim>\<open>bpmn/\<close>, \<^verbatim>\<open>extension-ops.ts\<close>) that become templates, and the
  store (\<^verbatim>\<open>store.ts\<close>) turns them into rows and back. Workers run concurrently; transactions of one workflow are
  serialized by an advisory lock, rows are written by compare-and-set on a version, and a dispatch
  is protected by a lease with a rotating token. Extensions of five kinds are rows of a canonical manifest with a status,
  a provenance and dependency edges; a dispatcher (\<^verbatim>\<open>index.ts\<close>) installs, archives, restores and deletes them behind
  guards on locks and dependency closures, and a lifecycle primitive is the only writer of a row.

  \<^bold>\<open>The model.\<close> A table is a list of rows, the database the record \<open>db\<close> (theory \<open>Wf_Rows\<close>). A
  transaction is a function on \<open>db\<close>; what the platform supplies (clock, UUIDs, SHA-256, collation)
  is the record \<open>env\<close>, the calendar of date-fns the record \<open>calendar\<close>, and the host's functions
  (executors, child-run status) the record \<open>host\<close>. Errors are values: refused lifecycle actions,
  structured foreach errors, violated constraints. The two halves of an operation that reads
  outside the lock and writes under it are separate definitions.

  \<^item> \<open>Wf_Prelude\<close>: JavaScript idioms (\<^verbatim>\<open>??\<close>, truthiness), decimal strings, table updates.
  \<^item> \<open>Wf_Transitions\<close> (\<^verbatim>\<open>state/transitions.ts\<close>): the state machines and the roll-up. Shown: which
    statuses guarded updates can reach, the roll-up on every branch.
  \<^item> \<open>Wf_Gates\<close> (\<^verbatim>\<open>state/gates.ts\<close>, \<^verbatim>\<open>engine/gate-eval.ts\<close>): when a task is dispatchable, and that
    the reported blockers explain why it is not.
  \<^item> \<open>Wf_Graph\<close> (\<^verbatim>\<open>hasCycle\<close> of \<^verbatim>\<open>spec/validate.ts\<close>): the search terminates and decides cycles.
  \<^item> \<open>Wf_Scope\<close> (\<^verbatim>\<open>scope/\<close>): tenant isolation, and managing implies reading.
  \<^item> \<open>Wf_Time\<close> (\<^verbatim>\<open>schedule/resolver.ts\<close>): durations and instants, with their round trips.
  \<^item> \<open>Wf_SpecData\<close> (\<^verbatim>\<open>spec/schema.ts\<close>), \<open>Wf_Schedule\<close> (\<^verbatim>\<open>schedule/resolver.ts\<close>): the fields of a
    specification, the resolution of its schedules and the cascade preview. Shown: the equation the resolved dates
    satisfy, and which tasks a moved target can move.
  \<^item> \<open>Wf_Limits\<close> (\<^verbatim>\<open>spec/limits.ts\<close>), \<open>Wf_Validate\<close> (\<^verbatim>\<open>spec/validate.ts\<close>), \<open>Wf_Validation\<close>: the three
    tiers of validation. Shown: what each tier accepts, and that an accepted draft resolves with dates near the
    target. The Zod parser and the time zone data are parameters.
  \<^item> \<open>Wf_StoreRows\<close>, \<open>Wf_StoreUpdate\<close>, \<open>Wf_StoreEdit\<close>, \<open>Wf_StoreOps\<close> (\<^verbatim>\<open>store.ts\<close>, \<^verbatim>\<open>lint/trigger-bundling.ts\<close>): the
    rows of a specification and back, the update of drafts and paused workflows with its rollback, the narrow edits,
    approval decisions, templates and lists. \<open>Wf_StoreFacts\<close>, \<open>Wf_StoreHistory\<close>, \<open>Wf_EditFacts\<close>: no update is lost, an edit of a
    paused workflow keeps what has run, an edit stores a sound specification or nothing, when an approval can be decided.
  \<^item> \<open>Wf_Bpmn\<close>, \<open>Wf_BpmnProfile\<close> (\<^verbatim>\<open>bpmn/\<close>, \<^verbatim>\<open>manifest.ts\<close>), \<open>Wf_BpmnFacts\<close>: the profile, the compiler and the sidecar of a package.
    Shown: the dependencies are the paths through gateways, what is compiled is typed and stays in the profile, and which packages are accepted.
  \<^item> \<open>Wf_Mcp\<close>, \<open>Wf_McpServer\<close> (\<^verbatim>\<open>mcp/handlers.ts\<close>, \<^verbatim>\<open>mcp/registry.ts\<close>), \<open>Wf_McpFacts\<close>: the tools of the assistant. Shown: replies are a
    function of what the caller may read, calls only propose, and what stands behind an instantiated template.
  \<^item> \<open>Wf_Extension\<close> (\<^verbatim>\<open>extension-ops.ts\<close>, \<^verbatim>\<open>extension-handler.ts\<close>, \<^verbatim>\<open>packages/extension-types\<close>), \<open>Wf_ExtensionFacts\<close>: installation, archive and
    discovery of workflow extensions. Shown: what an installation writes, that all is checked before, and what is discovered.
  \<^item> \<open>Wf_CriticalPath\<close> (\<^verbatim>\<open>schedule/critical-path.ts\<close>): the sort, the two passes and the slack; the marked
    tasks are those on a longest chain, shown through one locale for both passes.
  \<^item> \<open>Wf_Rows\<close> (\<^verbatim>\<open>schema.ts\<close>), \<open>Wf_Ops\<close> (\<^verbatim>\<open>engine/ops.ts\<close>, \<^verbatim>\<open>executors.ts\<close>, \<^verbatim>\<open>notifications.ts\<close>,
    \<^verbatim>\<open>state/review-packet.ts\<close>): rows and optimistic updates, tunables, the review-packet hash.
  \<^item> \<open>Wf_Dispatch\<close>, \<open>Wf_Passes\<close>, \<open>Wf_Finalize\<close>, \<open>Wf_Reconcile\<close> (\<^verbatim>\<open>engine/reconciler.ts\<close>): leases,
    claiming and outcomes; polling and approvals; skip propagation and roll-up, with its result
    in closed form; the tick.
  \<^item> \<open>Wf_Foreach\<close>, \<open>Wf_ForeachReconciler\<close>: materialization of children and the foreach pass.
  \<^item> \<open>Wf_Lifecycle\<close> (\<^verbatim>\<open>engine/lifecycle.ts\<close>): the user's actions and the repeatable tick.
  \<^item> \<open>Wf_Invariant\<close>, \<open>Wf_System\<close>: the invariant of the database, one preservation lemma per
    operation, the interleaving step relation, and what holds in every execution.
  \<^item> \<open>Wf_Engine\<close>: what single operations guarantee (claiming, settling, approvals, lifecycle).

  The extension manifest, \<^verbatim>\<open>packages/extensions/src\<close>:

  \<^item> \<open>Ext_Types\<close> (\<^verbatim>\<open>canonical-types.ts\<close>, \<^verbatim>\<open>static-bundle-anchor.ts\<close>, \<^verbatim>\<open>non-finalized-row.ts\<close>, \<^verbatim>\<open>manifest-dependencies.ts\<close>):
    rows, provenance, edges.
  \<^item> \<open>Ext_Closure\<close> (\<^verbatim>\<open>dependency-closure.ts\<close>), \<open>Ext_ClosureFacts\<close>: the closure search is reachability, when no live row misses a
    dependency, the activation order.
  \<^item> \<open>Ext_Versions\<close> (\<^verbatim>\<open>required-in-prod.ts\<close>): the intervals of the version ranges.
  \<^item> \<open>Ext_Store\<close> (\<^verbatim>\<open>canonical-store.ts\<close>, \<^verbatim>\<open>permissions-store.ts\<close>, \<^verbatim>\<open>lifecycle-primitive.ts\<close>, \<^verbatim>\<open>canonical-gate.ts\<close>,
    \<^verbatim>\<open>system-extension-inventory.ts\<close>), \<open>Ext_StoreFacts\<close>: the manifest stays sound, locked rows stay.
  \<^item> \<open>Ext_Dispatch\<close> (\<^verbatim>\<open>index.ts\<close>), \<open>Ext_DispatchFacts\<close>: archiving, uninstalling and restoring keep the closures of live rows;
    what each result of an installation means for its row.
  \<^item> \<open>Ext_Access\<close> (\<^verbatim>\<open>enforce-extension-access.ts\<close>, \<^verbatim>\<open>extension-resource-identity.ts\<close>, \<^verbatim>\<open>scope-containment.ts\<close>,
    \<^verbatim>\<open>scope-containment-filter.ts\<close>, \<^verbatim>\<open>install-access-contract.ts\<close>, \<^verbatim>\<open>permissions-actions.ts\<close>, \<^verbatim>\<open>permissions-kind-hooks.ts\<close>; of
    \<^verbatim>\<open>packages/agents/src\<close> the policies of \<^verbatim>\<open>auth-policy-types.ts\<close> and \<open>policyAllows\<close>), \<open>Ext_AccessFacts\<close>: contained policies
    admit no more, offered scopes are accepted, only editors change permissions.

  \<^bold>\<open>Bounds.\<close> The claim loop of a tick has the source's 200 rounds. The skip propagation is total:
  every round that goes on skips a task. The closure search and the activation order terminate
  because every round takes a package off. No other loop needs fuel.

  \<^bold>\<open>Not modelled.\<close> The transport and scheduling of ticks (BullMQ), the host's executors beyond their
  outcomes, the legacy mirrors of permissions, the authorization kernel, the XML parser, the argument schemas of the tools, the dashboards behind their interface, logging, and the packages listed as not
  modelled in the manifest.
\<close>

end
